(* ===== verification/Prelude.thy ===== *)
theory Prelude
  imports
    Complex_Main
    "HOL-Library.Product_Lexorder"
    "HOL-Library.List_Lexorder"
    "HOL-Library.Char_ord"
begin

text \<open>
  What every component of the development shares.

  A database table is the list of its rows in insertion order. The queries the repositories
  build with SQLAlchemy become list functions: \<open>find_row\<close> is a lookup by a column,
  \<open>first_by\<close> is \<open>filter ... order_by ... first\<close>, \<open>update_where\<close> is a bulk UPDATE
  with a WHERE clause, \<open>delete_where\<close> a bulk DELETE and \<open>save_row\<close> the flush of one
  changed ORM object (an UPDATE of the row with that primary key).

  Instants are integers that count microseconds since the epoch in UTC, the resolution of
  Python's \<open>datetime\<close>; \<open>seconds\<close> is \<open>timedelta(seconds=n)\<close>. A call that can raise
  returns a sum, the exception on the left.
\<close>

type_synonym time = int

definition seconds :: "int \<Rightarrow> time" where
  "seconds n = n * 1000000"

lemma seconds_mono [simp]: "seconds a \<le> seconds b \<longleftrightarrow> a \<le> b"
  by (simp add: seconds_def)

lemma seconds_pos [simp]: "0 < seconds a \<longleftrightarrow> 0 < a"
  by (simp add: seconds_def)

named_theorems table_simps "rewriting of table queries after table updates"
named_theorems table_dests "what a successful table query says of its row"

section \<open>Queries\<close>

definition find_row :: "('r \<Rightarrow> 'k) \<Rightarrow> 'k \<Rightarrow> 'r list \<Rightarrow> 'r option" where
  "find_row key k rows = List.find (\<lambda>r. key r = k) rows"

definition order_by :: "('r \<Rightarrow> 'o::linorder) \<Rightarrow> 'r list \<Rightarrow> 'r list" where
  "order_by key rows = sort_key key rows"

definition first_row :: "'r list \<Rightarrow> 'r option" where
  "first_row rows = (case rows of [] \<Rightarrow> None | r # _ \<Rightarrow> Some r)"

definition first_by :: "('r \<Rightarrow> 'o::linorder) \<Rightarrow> ('r \<Rightarrow> bool) \<Rightarrow> 'r list \<Rightarrow> 'r option" where
  "first_by key P rows = first_row (order_by key (filter P rows))"

definition exists_row :: "('r \<Rightarrow> bool) \<Rightarrow> 'r list \<Rightarrow> bool" where
  "exists_row P rows \<longleftrightarrow> filter P rows \<noteq> []"

definition count_where :: "('r \<Rightarrow> bool) \<Rightarrow> 'r list \<Rightarrow> nat" where
  "count_where P rows = length (filter P rows)"

section \<open>Updates\<close>

definition update_where :: "('r \<Rightarrow> bool) \<Rightarrow> ('r \<Rightarrow> 'r) \<Rightarrow> 'r list \<Rightarrow> 'r list" where
  "update_where P f rows = map (\<lambda>r. if P r then f r else r) rows"

definition delete_where :: "('r \<Rightarrow> bool) \<Rightarrow> 'r list \<Rightarrow> 'r list" where
  "delete_where P rows = filter (\<lambda>r. \<not> P r) rows"

definition save_row :: "('r \<Rightarrow> 'k) \<Rightarrow> 'r \<Rightarrow> 'r list \<Rightarrow> 'r list" where
  "save_row key r rows = update_where (\<lambda>x. key x = key r) (\<lambda>_. r) rows"

text \<open>\<open>or_else\<close> is Python's \<open>x or d\<close> on a nullable column whose falsy value equals \<open>d\<close>.\<close>

definition or_else :: "'a option \<Rightarrow> 'a \<Rightarrow> 'a" where
  "or_else x d = (case x of None \<Rightarrow> d | Some v \<Rightarrow> v)"

lemma or_else_simps [simp]: "or_else None d = d" "or_else (Some v) d = v"
  by (simp_all add: or_else_def)

section \<open>Laws of the queries\<close>

lemma find_row_Nil [simp]: "find_row key k [] = None"
  by (simp add: find_row_def)

lemma find_row_Cons [simp]:
  "find_row key k (r # rows) = (if key r = k then Some r else find_row key k rows)"
  by (simp add: find_row_def)

lemma find_row_append:
  "find_row key k (xs @ ys) = (case find_row key k xs of None \<Rightarrow> find_row key k ys | Some r \<Rightarrow> Some r)"
  by (induction xs) auto

lemma find_row_SomeD [table_dests]:
  "find_row key k rows = Some r \<Longrightarrow> r \<in> set rows \<and> key r = k"
  by (induction rows) (auto split: if_splits)

lemma find_row_NoneD [table_dests]:
  "find_row key k rows = None \<Longrightarrow> k \<notin> key ` set rows"
  by (induction rows) (auto split: if_splits)

lemma find_row_None_iff: "find_row key k rows = None \<longleftrightarrow> k \<notin> key ` set rows"
  by (induction rows) auto

lemma find_row_mem:
  assumes "distinct (map key rows)" and "r \<in> set rows"
  shows "find_row key (key r) rows = Some r"
  using assms by (induction rows) (auto simp: image_iff)

lemma find_SomeD [table_dests]: "List.find P rows = Some r \<Longrightarrow> r \<in> set rows \<and> P r"
  by (induction rows) (auto split: if_splits)

lemma find_NoneD [table_dests]: "List.find P rows = None \<Longrightarrow> x \<in> set rows \<Longrightarrow> \<not> P x"
  by (induction rows) (auto split: if_splits)

lemma set_order_by [simp]: "set (order_by key rows) = set rows"
  by (simp add: order_by_def)

lemma sorted_order_by: "sorted (map key (order_by key rows))"
  by (simp add: order_by_def)

lemma length_order_by [simp]: "length (order_by key rows) = length rows"
  by (simp add: order_by_def)

lemma order_by_Nil_iff [simp]: "order_by key rows = [] \<longleftrightarrow> rows = []"
  by (metis length_0_conv length_order_by)

lemma distinct_order_by [simp]: "distinct (map g (order_by key rows)) \<longleftrightarrow> distinct (map g rows)"
  by (simp add: order_by_def distinct_map)

lemma insort_key_append:
  "(\<And>b. b \<in> set ys \<Longrightarrow> key x < key b) \<Longrightarrow> insort_key key x (xs @ ys) = insort_key key x xs @ ys"
  by (induction xs) (cases ys; simp add: less_imp_le)+

lemma order_by_append:
  assumes "\<And>a b. a \<in> set xs \<Longrightarrow> b \<in> set ys \<Longrightarrow> key a < (key b :: 'o::linorder)"
  shows "order_by key (xs @ ys) = order_by key xs @ order_by key ys"
  using assms
proof (induction xs)
  case Nil
  then show ?case by (simp add: order_by_def)
next
  case (Cons x xs)
  then have "insort_key key x (order_by key xs @ order_by key ys)
      = insort_key key x (order_by key xs) @ order_by key ys"
    by (intro insort_key_append) auto
  with Cons show ?case by (simp add: order_by_def)
qed

lemma sorted_wrt_order_by:
  assumes "distinct (map key rows)"
  shows "sorted_wrt (\<lambda>a b. key a < key b) (order_by key rows)"
proof -
  have "sorted_wrt (<) (map key (order_by key rows))"
    using assms by (simp add: strict_sorted_iff sorted_order_by)
  then show ?thesis by (simp add: sorted_wrt_map)
qed

text \<open>In a strictly ordered list, the rows above the \<open>l\<close>-th are the rows after it.\<close>

lemma filter_above_last:
  assumes "sorted_wrt (\<lambda>a b. f a < (f b :: 'o::linorder)) xs" and "0 < l" and "l \<le> length xs"
  shows "filter (\<lambda>x. f (last (take l xs)) < f x) xs = drop l xs"
proof -
  have "take l xs \<noteq> []" using assms(2,3) by auto
  then obtain ys y where ys: "take l xs = ys @ [y]" by (metis rev_exhaust)
  then have xs: "xs = ys @ y # drop l xs"
    by (metis append.assoc append_Cons append_Nil append_take_drop_id)
  have "filter (\<lambda>x. f y < f x) (ys @ y # drop l xs) = drop l xs"
    using assms(1) by (subst (asm) xs)
      (auto simp: sorted_wrt_append filter_empty_conv filter_id_conv)
  then show ?thesis using xs ys by (metis last_snoc)
qed

lemma first_by_SomeD [table_dests]:
  assumes "first_by key P rows = Some r"
  shows "r \<in> set rows \<and> P r \<and> (\<forall>x\<in>set rows. P x \<longrightarrow> key r \<le> key x)"
proof -
  obtain rest where sorted_rows: "order_by key (filter P rows) = r # rest"
    using assms by (auto simp: first_by_def first_row_def split: list.splits)
  then have "set (r # rest) = {x \<in> set rows. P x}"
    by (metis set_filter set_order_by)
  moreover have "\<forall>x\<in>set rest. key r \<le> key x"
    using sorted_order_by[of key "filter P rows"] sorted_rows by simp
  ultimately show ?thesis by auto
qed

lemma first_row_None_iff [simp]: "first_row rows = None \<longleftrightarrow> rows = []"
  by (simp add: first_row_def split: list.splits)

lemma first_by_None_iff: "first_by key P rows = None \<longleftrightarrow> (\<forall>x\<in>set rows. \<not> P x)"
  by (simp add: first_by_def filter_empty_conv)

lemma first_by_Nil [simp]: "first_by key P [] = None"
  by (simp add: first_by_None_iff)

lemma exists_row_iff: "exists_row P rows \<longleftrightarrow> (\<exists>r\<in>set rows. P r)"
  by (auto simp: exists_row_def filter_empty_conv)

lemma length_filter_subset_less:
  assumes "\<And>x. P x \<Longrightarrow> Q x" and "x \<in> set xs" and "Q x" and "\<not> P x"
  shows "length (filter P xs) < length (filter Q xs)"
proof -
  have "filter P xs = filter P (filter Q xs)" using assms(1) by (auto intro: filter_cong)
  moreover have "length (filter P (filter Q xs)) < length (filter Q xs)"
    using assms(2-4) by (intro length_filter_less) auto
  ultimately show ?thesis by simp
qed

lemma map_zip_snd: "length xs = length ys \<Longrightarrow> map (\<lambda>x. f (snd x)) (zip xs ys) = map f ys"
  by (induction rule: list_induct2) auto

lemma all2_memD: "list_all2 P xs ys \<Longrightarrow> x \<in> set xs \<Longrightarrow> \<exists>y\<in>set ys. P x y"
  by (induction rule: list_all2_induct) auto

lemma all2_mem_rightD: "list_all2 P xs ys \<Longrightarrow> y \<in> set ys \<Longrightarrow> \<exists>x\<in>set xs. P x y"
  by (induction rule: list_all2_induct) auto

section \<open>Laws of the updates\<close>

lemma set_update_where: "set (update_where P f rows) = (\<lambda>r. if P r then f r else r) ` set rows"
  by (simp add: update_where_def)

lemma length_update_where [simp]: "length (update_where P f rows) = length rows"
  by (simp add: update_where_def)

lemma update_where_Nil [simp]: "update_where P f [] = []"
  by (simp add: update_where_def)

lemma update_where_Cons [simp]:
  "update_where P f (r # rows) = (if P r then f r else r) # update_where P f rows"
  by (simp add: update_where_def)

lemma update_where_append [simp]:
  "update_where P f (xs @ ys) = update_where P f xs @ update_where P f ys"
  by (simp add: update_where_def)

lemma map_update_where:
  "(\<And>r. P r \<Longrightarrow> g (f r) = g r) \<Longrightarrow> map g (update_where P f rows) = map g rows"
  by (induction rows) auto

lemma update_where_unmatched: "(\<And>r. r \<in> set rows \<Longrightarrow> \<not> P r) \<Longrightarrow> update_where P f rows = rows"
  by (induction rows) auto

lemma update_where_all:
  "(\<And>r. r \<in> set rows \<Longrightarrow> Q r) \<Longrightarrow> (\<And>r. Q r \<Longrightarrow> P r \<Longrightarrow> Q (f r))
   \<Longrightarrow> r \<in> set (update_where P f rows) \<Longrightarrow> Q r"
  by (auto simp: set_update_where)

lemma length_save_row [simp]: "length (save_row key r rows) = length rows"
  by (simp add: save_row_def)

lemma map_key_save_row [simp]: "map key (save_row key r rows) = map key rows"
  by (induction rows) (auto simp: save_row_def)

lemma set_save_rowD [table_dests]: "x \<in> set (save_row key r rows) \<Longrightarrow> x = r \<or> x \<in> set rows"
  by (auto simp: save_row_def set_update_where)

lemma set_save_row:
  "set (save_row key r rows) =
     (if key r \<in> key ` set rows then insert r {x \<in> set rows. key x \<noteq> key r} else set rows)"
  by (auto simp: save_row_def set_update_where image_iff split: if_splits)

lemma map_save_row:
  assumes "distinct (map key rows)" and "old \<in> set rows" and "key old = key r" and "g r = g old"
  shows "map g (save_row key r rows) = map g rows"
proof -
  have "g x = g r" if "x \<in> set rows" and "key x = key r" for x
    using assms that by (auto simp: distinct_map inj_on_def)
  then show ?thesis by (simp add: save_row_def update_where_def)
qed

lemma find_row_save_row [table_simps]:
  "find_row key k (save_row key r rows) =
     (if k = key r \<and> k \<in> key ` set rows then Some r else find_row key k rows)"
  by (induction rows) (auto simp: save_row_def)

lemma find_row_update_where [table_simps]:
  assumes "\<And>r. P r \<Longrightarrow> key (f r) = key r"
  shows "find_row key k (update_where P f rows) =
     map_option (\<lambda>r. if P r then f r else r) (find_row key k rows)"
  by (induction rows) (auto simp: assms)

lemma set_delete_where [simp]: "set (delete_where P rows) = {r \<in> set rows. \<not> P r}"
  by (auto simp: delete_where_def)

lemma distinct_delete_where: "distinct (map g rows) \<Longrightarrow> distinct (map g (delete_where P rows))"
  by (simp add: delete_where_def distinct_map_filter)

lemma count_where_Cons [simp]:
  "count_where P (r # rows) = (if P r then Suc (count_where P rows) else count_where P rows)"
  by (simp add: count_where_def)

lemma count_where_Nil [simp]: "count_where P [] = 0"
  by (simp add: count_where_def)

text \<open>A conditional UPDATE of the row with a given primary key touches at most that row.\<close>

lemma find_append: "List.find P (xs @ ys) = (case List.find P xs of None \<Rightarrow> List.find P ys | Some r \<Rightarrow> Some r)"
  by (induction xs) auto

lemma update_where_pk:
  assumes "distinct (map key rows)" and "\<And>r. P r \<Longrightarrow> key r = k" and "\<And>r. key (f r) = key r"
  shows "update_where P f rows =
    (case List.find P rows of None \<Rightarrow> rows | Some j \<Rightarrow> save_row key (f j) rows)"
proof (cases "List.find P rows")
  case None
  then show ?thesis by (auto intro!: update_where_unmatched dest: find_NoneD)
next
  case (Some j)
  then have j: "j \<in> set rows" "P j" by (auto dest: find_SomeD)
  have "(if P x then f x else x) = (if key x = key (f j) then f j else x)" if "x \<in> set rows" for x
    using that j assms by (metis (mono_tags, lifting) distinct_map inj_onD)
  then show ?thesis using Some by (simp add: update_where_def save_row_def)
qed

lemma count_where_pk:
  assumes "distinct (map key rows)" and "\<And>r. P r \<Longrightarrow> key r = k"
  shows "count_where P rows = (if List.find P rows = None then 0 else 1)"
  using assms(1)
proof (induction rows)
  case (Cons r rows)
  have "count_where P rows = 0" if "P r"
    using Cons.prems assms(2) that by (auto simp: count_where_def filter_empty_conv image_iff)
  with Cons show ?case by simp
qed simp

end
