(* ===== verification/Tables.thy ===== *)
theory Tables
  imports Prelude
begin

text \<open>
  The rows of the tables the modelled components read and write: one record per SQLAlchemy
  model under \<open>src/app/*/models/\<close>, with the columns the modelled code reads or writes. The
  audit columns that only the database maintains (\<open>onupdate=func.now()\<close>) are followed
  only where a response shows them (the observation records). Nullable columns are \<open>option\<close>s. The record \<open>db\<close> is the
  state of a session: what a transaction that has seen no other writer reads.
\<close>

text \<open>
  The status strings of the three job queues (\<open>UploadJobStatus\<close>, \<open>VisionJobStatus\<close>,
  \<open>PlateSolveJobStatus\<close>); \<open>status_text\<close> is the string the column holds.
\<close>

datatype job_status = WAITING | PROCESSING | COMPLETED | FAILED | SKIPPED

fun status_text :: "job_status \<Rightarrow> string" where
  "status_text WAITING = ''WAITING''"
| "status_text PROCESSING = ''PROCESSING''"
| "status_text COMPLETED = ''COMPLETED''"
| "status_text FAILED = ''FAILED''"
| "status_text SKIPPED = ''SKIPPED''"

lemma status_text_inject [simp]: "status_text a = status_text b \<longleftrightarrow> a = b"
  by (cases a; cases b) auto

text \<open>Queries order a status column by its text.\<close>

instantiation job_status :: linorder
begin

definition less_eq_job_status :: "job_status \<Rightarrow> job_status \<Rightarrow> bool" where
  "less_eq_job_status a b \<longleftrightarrow> status_text a \<le> status_text b"

definition less_job_status :: "job_status \<Rightarrow> job_status \<Rightarrow> bool" where
  "less_job_status a b \<longleftrightarrow> status_text a < status_text b"

instance
  by standard (auto simp: less_eq_job_status_def less_job_status_def less_le)

end

text \<open>What the database raises when a flush violates a constraint (\<open>sqlalchemy.exc.IntegrityError\<close>).\<close>

datatype db_error = IntegrityError

text \<open>JSON documents, as the JSON columns and \<open>json.loads\<close> hold them.\<close>

datatype json =
    JNull
  | JBool bool
  | JInt int
  | JFloat real
  | JStr string
  | JArr "json list"
  | JObj "(string \<times> json) list"

section \<open>Common tables\<close>

datatype change_operation = CREATE | UPDATE | DELETE

record change_event =
  ce_id :: int
  ce_service :: string
  ce_type :: string
  ce_resource :: string
  ce_operation :: change_operation
  ce_revision :: "int option"
  ce_tombstone :: bool
  ce_changed_at :: time

record common_file =
  cf_id :: int
  cf_file_id :: string
  cf_original_name :: string
  cf_extension :: "string option"
  cf_mime_type :: "string option"
  cf_file_size :: "int option"
  cf_width :: "int option"
  cf_height :: "int option"
  cf_original_path :: "string option"
  cf_preview_path :: "string option"
  cf_thumb_path :: "string option"
  cf_favorite :: bool
  cf_service :: string
  cf_created_at :: time
  cf_deleted :: bool

record file_service_link =
  fs_file :: int
  fs_service :: string

record upload_job =
  uj_id :: int
  uj_job_id :: string
  uj_source :: string
  uj_status :: job_status
  uj_incoming :: string
  uj_service :: string
  uj_client_id :: "string option"
  uj_client_sha :: "string option"
  uj_file_id :: "string option"
  uj_retry_count :: int
  uj_error :: "string option"
  uj_created_at :: time
  uj_started_at :: "time option"
  uj_completed_at :: "time option"
  uj_log :: "string option"

record vision_job =
  vj_id :: int
  vj_file :: int
  vj_priority :: int
  vj_status :: job_status
  vj_retry_count :: int
  vj_provider :: string
  vj_requested_at :: "time option"
  vj_started_at :: "time option"
  vj_completed_at :: "time option"
  vj_last_error :: "string option"
  vj_deleted :: bool

record worker_status =
  ws_name :: string
  ws_status :: string
  ws_last_started :: "time option"
  ws_last_heartbeat :: "time option"
  ws_processed :: int
  ws_failed :: int
  ws_current_job :: "string option"
  ws_version :: "string option"

section \<open>AstroJournal tables\<close>

record ps_job =
  ps_id :: string
  ps_file :: int
  ps_record :: "string option"
  ps_status :: job_status
  ps_attempts :: int
  ps_provider :: string
  ps_submission :: "int option"
  ps_provider_job :: "int option"
  ps_worker :: "string option"
  ps_lease :: "time option"
  ps_started_at :: "time option"
  ps_completed_at :: "time option"
  ps_last_error :: "string option"
  ps_ra :: "real option"
  ps_dec :: "real option"
  ps_rotation :: "real option"
  ps_pixel_scale :: "real option"
  ps_field_width :: "real option"
  ps_field_height :: "real option"
  ps_parity :: "real option"
  ps_wcs :: "json option"
  ps_created_at :: time
  ps_updated_at :: time

record observation_record =
  or_id :: string
  or_file :: int
  or_service :: string
  or_client_id :: "string option"
  or_catalog :: "string option"
  or_captured_at :: time
  or_latitude :: "real option"
  or_longitude :: "real option"
  or_location_name :: "string option"
  or_equipment_id :: "string option"
  or_equipment_ref :: "string option"
  or_equipment_name :: "string option"
  or_integration_seconds :: "int option"
  or_address :: "string option"
  or_memo :: "string option"
  or_favorite :: bool
  or_representative :: bool
  or_solve_status :: string
  or_created_at :: time
  or_updated_at :: time
  or_deleted_at :: "time option"
  or_revision :: int

record equipment =
  eq_id :: string
  eq_name :: string
  eq_kind :: string
  eq_purpose :: string
  eq_is_active :: bool
  eq_focal_length :: "real option"
  eq_aperture :: "real option"
  eq_fov_width :: "real option"
  eq_fov_height :: "real option"
  eq_capture :: "json option"
  eq_sort_order :: int
  eq_revision :: int
  eq_created_at :: time
  eq_updated_at :: time
  eq_deleted_at :: "time option"

record eyepiece =
  ey_id :: string
  ey_equipment :: string
  ey_name :: string
  ey_focal_length :: real
  ey_afov :: real
  ey_sort_order :: int

record exposure_capability =
  xc_id :: int
  xc_equipment :: string
  xc_mode :: string
  xc_type :: string
  xc_min :: "real option"
  xc_max :: "real option"
  xc_step :: "real option"

record exposure_value =
  xv_capability :: int
  xv_seconds :: real
  xv_sort_order :: int

record observation_site =
  os_id :: string
  os_name :: string
  os_latitude :: real
  os_longitude :: real
  os_address :: "string option"
  os_bortle :: "int option"
  os_sqm :: "real option"
  os_brightness :: "string option"
  os_is_favorite :: bool
  os_tracking_mode :: string
  os_equipment :: "string option"
  os_min_altitude :: real
  os_max_altitude :: "real option"
  os_preferred_start :: "string option"
  os_preferred_end :: "string option"
  os_memo :: string
  os_revision :: int
  os_created_at :: time
  os_updated_at :: time
  os_deleted_at :: "time option"

record horizon_point =
  hp_id :: string
  hp_site :: string
  hp_azimuth :: real
  hp_min_altitude :: real
  hp_max_altitude :: "real option"
  hp_sort_order :: int
  hp_source :: string

record blocked_range =
  br_id :: string
  br_site :: string
  br_start :: real
  br_end :: real
  br_reason :: "string option"
  br_source :: string

record framing_reference =
  fr_id :: string
  fr_catalog :: string
  fr_captured_at :: time
  fr_site :: string
  fr_equipment :: string
  fr_hour_angle :: real
  fr_parallactic :: real
  fr_branch :: string
  fr_revision :: int
  fr_created_at :: time
  fr_updated_at :: time
  fr_deleted_at :: "time option"

section \<open>The session state\<close>

text \<open>
  \<open>metadata_files\<close> and \<open>tag_files\<close> stand for \<open>common_file_metadata\<close> and
  \<open>common_file_tags\<close>: the file ids of their rows, which is all the cleanup policy reads.
  \<open>change_seq\<close> is the sequence behind \<open>common_change_events.id\<close>.
\<close>

record db =
  files :: "common_file list"
  links :: "file_service_link list"
  upload_jobs :: "upload_job list"
  vision_jobs :: "vision_job list"
  metadata_files :: "int list"
  tag_files :: "int list"
  ps_jobs :: "ps_job list"
  records :: "observation_record list"
  equipments :: "equipment list"
  eyepieces :: "eyepiece list"
  capabilities :: "exposure_capability list"
  exposure_values :: "exposure_value list"
  sites :: "observation_site list"
  horizon_points :: "horizon_point list"
  blocked_ranges :: "blocked_range list"
  framing_references :: "framing_reference list"
  changes :: "change_event list"
  change_seq :: int

definition empty_db :: db where
  "empty_db = \<lparr>files = [], links = [], upload_jobs = [], vision_jobs = [], metadata_files = [], tag_files = [],
     ps_jobs = [], records = [], equipments = [], eyepieces = [], capabilities = [], exposure_values = [],
     sites = [], horizon_points = [], blocked_ranges = [], framing_references = [], changes = [], change_seq = 0\<rparr>"

end
