(* ===== verification/ChangeFeed.thy ===== *)
theory ChangeFeed
  imports Tables
begin

text \<open>
  The append-only change feed: \<open>ChangeEventRepository\<close>
  (\<open>src/app/common/repositories/change_event_repository.py\<close>) and \<open>ChangesService\<close>
  (\<open>src/app/common/services/changes_service.py\<close>), with the paging loop the feed's clients
  run against it. The lemmas show that paging returns each event once and in order, and
  what an event that becomes visible late costs.
\<close>

text \<open>The name under which AstroJournal writes its events.\<close>

definition astro :: string where
  "astro = ''AstroJournal''"

section \<open>The repository\<close>

text \<open>The row \<open>append\<close> adds: its id is the next value of the table's sequence.\<close>

definition append_change ::
  "time \<Rightarrow> string \<Rightarrow> string \<Rightarrow> string \<Rightarrow> change_operation \<Rightarrow> int option \<Rightarrow> bool \<Rightarrow> db \<Rightarrow> db" where
  "append_change now service_name resource_type resource_id operation revision tombstone d =
     d\<lparr>changes := changes d @ [\<lparr>ce_id = change_seq d + 1, ce_service = service_name,
          ce_type = resource_type, ce_resource = resource_id, ce_operation = operation,
          ce_revision = revision, ce_tombstone = tombstone, ce_changed_at = now\<rparr>],
       change_seq := change_seq d + 1\<rparr>"

definition after_cursor :: "int \<Rightarrow> string option \<Rightarrow> change_event \<Rightarrow> bool" where
  "after_cursor cursor service_name e \<longleftrightarrow>
     cursor < ce_id e \<and> (case service_name of None \<Rightarrow> True | Some s \<Rightarrow> ce_service e = s)"

definition list_after ::
  "int \<Rightarrow> nat \<Rightarrow> string option \<Rightarrow> change_event list \<Rightarrow> change_event list \<times> bool" where
  "list_after cursor limit service_name events =
     (let rows = take (limit + 1) (order_by ce_id (filter (after_cursor cursor service_name) events))
      in (take limit rows, limit < length rows))"

section \<open>The service\<close>

record changes_response =
  items :: "change_event list"
  next_cursor :: int
  has_more :: bool

definition list_changes ::
  "int \<Rightarrow> nat \<Rightarrow> string option \<Rightarrow> change_event list \<Rightarrow> changes_response" where
  "list_changes cursor limit service_name events =
     (let (rows, more) = list_after cursor limit service_name events
      in \<lparr>items = rows,
          next_cursor = (if rows = [] then cursor else ce_id (last rows)),
          has_more = more\<rparr>)"

section \<open>The clients' loop\<close>

text \<open>
  The documented client: read a page, advance to \<open>next_cursor\<close>, go on while
  \<open>has_more\<close>. The router admits limits from 1 to 500; a limit of 0 would never advance.
\<close>

lemma page_split:
  "items (list_changes c l s events) = take l (order_by ce_id (filter (after_cursor c s) events))"
  "has_more (list_changes c l s events) \<longleftrightarrow> l < length (filter (after_cursor c s) events)"
  by (auto simp: list_changes_def list_after_def Let_def order_by_def)

lemma page_next:
  assumes "0 < l" and "has_more (list_changes c l s events)"
  shows "next_cursor (list_changes c l s events) =
    ce_id (last (take l (order_by ce_id (filter (after_cursor c s) events))))"
  using assms by (auto simp: page_split list_changes_def list_after_def Let_def)

text \<open>Reading on from the last row of a full page leaves exactly the rows after that page.\<close>

lemma next_page:
  fixes c :: int and s :: "string option" and events :: "change_event list"
  defines "rows \<equiv> order_by ce_id (filter (after_cursor c s) events)"
  assumes "distinct (map ce_id events)" and "0 < l" and "l \<le> length rows"
  shows "order_by ce_id (filter (after_cursor (ce_id (last (take l rows))) s) events) = drop l rows"
proof -
  let ?m = "ce_id (last (take l rows))"
  have "take l rows \<noteq> []" using assms(3,4) by auto
  then have "last (take l rows) \<in> set rows" by (meson in_set_takeD last_in_set)
  then have "c < ?m" by (simp add: rows_def after_cursor_def)
  then have "filter (after_cursor ?m s) events
      = filter (\<lambda>e. ?m < ce_id e) (filter (after_cursor c s) events)"
    by (auto simp: after_cursor_def intro!: filter_cong)
  then have "order_by ce_id (filter (after_cursor ?m s) events) = filter (\<lambda>e. ?m < ce_id e) rows"
    by (simp add: rows_def order_by_def filter_sort)
  also have "\<dots> = drop l rows"
    using assms by (intro filter_above_last) (simp_all add: sorted_wrt_order_by distinct_map_filter)
  finally show ?thesis .
qed

function drain_feed :: "nat \<Rightarrow> string option \<Rightarrow> change_event list \<Rightarrow> int \<Rightarrow> change_event list" where
  "drain_feed limit service_name events cursor =
     (let page = list_changes cursor limit service_name events
      in if has_more page \<and> 0 < limit
         then items page @ drain_feed limit service_name events (next_cursor page)
         else items page)"
  by pat_completeness auto
termination
proof (relation "measure (\<lambda>(l, s, events, c). length (filter (after_cursor c s) events))", simp)
  fix l s events c page
  assume page: "page = list_changes c l s events" and more: "has_more page \<and> 0 < l"
  let ?e = "last (take l (order_by ce_id (filter (after_cursor c s) events)))"
  have "take l (order_by ce_id (filter (after_cursor c s) events)) \<noteq> []"
    using more page by (auto simp: page_split)
  then have e: "?e \<in> set (order_by ce_id (filter (after_cursor c s) events))"
    by (meson in_set_takeD last_in_set)
  have "next_cursor page = ce_id ?e" using more page by (simp add: page_next)
  with e show "((l, s, events, next_cursor page), (l, s, events, c))
      \<in> measure (\<lambda>(l, s, events, c). length (filter (after_cursor c s) events))"
    by (auto simp: after_cursor_def intro!: length_filter_subset_less[of _ _ ?e])
qed

declare drain_feed.simps [simp del]

section \<open>Properties\<close>

lemma drain_feed_rows:
  assumes "distinct (map ce_id events)" and "0 < l"
  shows "drain_feed l s events c = order_by ce_id (filter (after_cursor c s) events)"
  using assms
proof (induction l s events c rule: drain_feed.induct)
  case (1 l s events c)
  let ?rows = "order_by ce_id (filter (after_cursor c s) events)"
  let ?page = "list_changes c l s events"
  show ?case
  proof (cases "has_more ?page")
    case True
    then have "drain_feed l s events (next_cursor ?page) = drop l ?rows"
      using "1.IH"[OF refl] "1.prems" by (simp add: page_next next_page page_split)
    then show ?thesis
      using True "1.prems" by (subst drain_feed.simps) (simp add: Let_def page_split)
  next
    case False
    then show ?thesis by (subst drain_feed.simps) (simp add: Let_def page_split)
  qed
qed

text \<open>
  What every writer of the feed keeps: ids come from the sequence, in the order of the
  table.
\<close>

definition feed_ok :: "db \<Rightarrow> bool" where
  "feed_ok d \<longleftrightarrow> sorted_wrt (<) (map ce_id (changes d)) \<and> (\<forall>e\<in>set (changes d). ce_id e \<le> change_seq d)"

lemma feed_ok_append [intro]: "feed_ok d \<Longrightarrow> feed_ok (append_change now sn rt ri op rv tomb d)"
  by (force simp: feed_ok_def append_change_def sorted_wrt_append)

lemma feed_ok_distinct: "feed_ok d \<Longrightarrow> distinct (map ce_id (changes d))"
  by (simp add: feed_ok_def strict_sorted_iff)

lemma feed_ok_cong: "changes d' = changes d \<Longrightarrow> change_seq d' = change_seq d \<Longrightarrow> feed_ok d' = feed_ok d"
  by (simp add: feed_ok_def)

text \<open>
  C8. A client that starts at any cursor and follows next_cursor while has_more is set reads
  every event of its service above the cursor, no other event, each once and in the order of
  the ids, whatever page size it uses.
\<close>

theorem feed_pages_complete:
  assumes "distinct (map ce_id events)" and "0 < limit"
  shows "set (drain_feed limit sn events c) = {e \<in> set events. after_cursor c sn e} \<and>
    sorted_wrt (\<lambda>a b. ce_id a < ce_id b) (drain_feed limit sn events c)"
  using assms by (simp add: drain_feed_rows sorted_wrt_order_by distinct_map_filter)

definition feed_sample :: "change_event list" where
  "feed_sample = changes (append_change 30 ''AstroJournal'' ''ObservationRecord'' ''r1'' DELETE (Some 3) True
     (append_change 20 ''MemoryKeeper'' ''Place'' ''p1'' CREATE (Some 1) False
       (append_change 10 ''AstroJournal'' ''ObservationRecord'' ''r1'' CREATE (Some 1) False empty_db)))"

theorem feed_pages_complete_witness:
  "set (drain_feed 1 (Some ''AstroJournal'') feed_sample 0)
      = {e \<in> set feed_sample. after_cursor 0 (Some ''AstroJournal'') e} \<and>
   sorted_wrt (\<lambda>a b. ce_id a < ce_id b) (drain_feed 1 (Some ''AstroJournal'') feed_sample 0)"
  by (rule feed_pages_complete) (simp_all add: feed_sample_def append_change_def empty_db_def)

text \<open>
  Resuming loses nothing and repeats nothing: when events with higher ids have been
  appended since, what a client reads from the start equals what it had read before followed
  by what it reads from the cursor it had reached.
\<close>

theorem feed_resume:
  assumes "distinct (map ce_id (old @ new))" and "0 < limit"
    and "\<forall>a\<in>set old. \<forall>b\<in>set new. ce_id a < ce_id b"
    and "drain_feed limit sn old c \<noteq> []"
  shows "drain_feed limit sn (old @ new) c =
    drain_feed limit sn old c @
      drain_feed limit sn (old @ new) (ce_id (last (drain_feed limit sn old c)))"
proof -
  let ?before = "order_by ce_id (filter (after_cursor c sn) old)"
  let ?later = "order_by ce_id (filter (after_cursor c sn) new)"
  let ?all = "order_by ce_id (filter (after_cursor c sn) (old @ new))"
  have drained: "drain_feed limit sn old c = ?before" "drain_feed limit sn (old @ new) c' =
      order_by ce_id (filter (after_cursor c' sn) (old @ new))" for c'
    using assms(1,2) by (simp_all add: drain_feed_rows del: filter_append)
  have all: "?all = ?before @ ?later"
    unfolding filter_append using assms(3) by (intro order_by_append) auto
  let ?n = "length ?before"
  have n: "0 < ?n" "take ?n ?all = ?before" using assms(4) drained all by auto
  have rest: "order_by ce_id (filter (after_cursor (ce_id (last ?before)) sn) (old @ new)) = ?later"
    using next_page[of "old @ new" ?n c sn] n assms(1) all by simp
  show ?thesis using all rest drained by simp
qed

definition feed_event :: "int \<Rightarrow> string \<Rightarrow> change_event" where
  "feed_event i r = \<lparr>ce_id = i, ce_service = ''AstroJournal'', ce_type = ''ObservationRecord'',
     ce_resource = r, ce_operation = UPDATE, ce_revision = Some 2, ce_tombstone = False,
     ce_changed_at = i\<rparr>"

theorem feed_resume_witness:
  "drain_feed 2 None ([feed_event 1 ''a''] @ [feed_event 2 ''b'']) 0 =
     drain_feed 2 None [feed_event 1 ''a''] 0 @
       drain_feed 2 None ([feed_event 1 ''a''] @ [feed_event 2 ''b''])
         (ce_id (last (drain_feed 2 None [feed_event 1 ''a''] 0)))"
  by (rule feed_resume) (simp_all add: feed_event_def drain_feed_rows after_cursor_def)

text \<open>
  The cursor is only as good as the order in which transactions commit. Two writers take
  ids a < b from the sequence; the one with b commits first and a client reads it. Once the
  writer of a commits, no read from the client's cursor, with any page size, ever returns
  event a.
\<close>

theorem feed_skips_late_commit:
  assumes "ce_id late < ce_id early" and "after_cursor c sn early" and "0 < limit"
  shows "late \<notin> set (drain_feed limit' sn rows (next_cursor (list_changes c limit sn [early])))"
proof -
  have cursor: "next_cursor (list_changes c limit sn [early]) = ce_id early"
    using assms(2,3) by (cases limit) (simp_all add: list_changes_def list_after_def Let_def order_by_def)
  have "e \<in> set (drain_feed l s events k) \<Longrightarrow> k < ce_id e" for e l s events k
  proof (induction l s events k rule: drain_feed.induct)
    case (1 l s events k)
    let ?page = "list_changes k l s events"
    have item: "k < ce_id x" if "x \<in> set (items ?page)" for x
      using that by (auto simp: page_split after_cursor_def dest: in_set_takeD)
    show ?case
    proof (cases "e \<in> set (items ?page)")
      case True
      then show ?thesis by (rule item)
    next
      case False
      with "1.prems" have more: "has_more ?page \<and> 0 < l"
          and tail: "e \<in> set (drain_feed l s events (next_cursor ?page))"
        by (subst (asm) drain_feed.simps, simp add: Let_def split: if_splits)+
      have "items ?page \<noteq> []" using more by (auto simp: page_split)
      then have "next_cursor ?page = ce_id (last (items ?page))"
        by (auto simp: list_changes_def list_after_def Let_def)
      then have "k < next_cursor ?page" using item[OF last_in_set] \<open>items ?page \<noteq> []\<close> by simp
      then show ?thesis using "1.IH"[OF refl more tail] by simp
    qed
  qed
  then show ?thesis using assms(1) cursor by fastforce
qed

theorem feed_skips_late_commit_witness:
  "feed_event 1 ''a'' \<notin> set (drain_feed 100 None [feed_event 2 ''b'', feed_event 1 ''a'']
     (next_cursor (list_changes 0 100 None [feed_event 2 ''b''])))"
  by (rule feed_skips_late_commit) (simp_all add: feed_event_def after_cursor_def)

end
