(* ===== verification/MkTables.thy ===== *)
theory MkTables
  imports ChangeFeed
begin

text \<open>
  The tables of MemoryKeeper (\<open>src/app/memorykeeper/models/\<close> and
  \<open>src/app/common/models/file_metadata.py\<close>) beside the common ones, and wall-clock times.

  A naive \<open>datetime\<close> is the tuple of its year, month, day and microsecond of the day, which
  orders as Python and the database order it. \<open>utc_wall\<close> is the UTC wall clock of an instant
  (\<open>astimezone(timezone.utc).replace(tzinfo=None)\<close>) by the proleptic Gregorian calendar.
\<close>

type_synonym wall_time = "int \<times> int \<times> int \<times> int"
type_synonym wall_date = "int \<times> int \<times> int"

definition wall_year :: "wall_time \<Rightarrow> int" where
  "wall_year t = fst t"

definition wall_date_of :: "wall_time \<Rightarrow> wall_date" where
  "wall_date_of t = (case t of (y, m, d, _) \<Rightarrow> (y, m, d))"

definition day_micros :: int where
  "day_micros = 86400 * 1000000"

definition civil_date :: "int \<Rightarrow> wall_date" where
  "civil_date days =
     (let z = days + 719468;
          era = z div 146097;
          doe = z mod 146097;
          yoe = (doe - doe div 1460 + doe div 36524 - doe div 146096) div 365;
          doy = doe - (365 * yoe + yoe div 4 - yoe div 100);
          mp = (5 * doy + 2) div 153;
          d = doy - (153 * mp + 2) div 5 + 1;
          m = (if mp < 10 then mp + 3 else mp - 9);
          y = yoe + era * 400
      in (if m \<le> 2 then y + 1 else y, m, d))"

definition utc_wall :: "time \<Rightarrow> wall_time" where
  "utc_wall t = (case civil_date (t div day_micros) of (y, m, d) \<Rightarrow> (y, m, d, t mod day_micros))"

record file_state =
  st_file :: int
  st_favorite :: bool
  st_memo :: "string option"
  st_revision :: int
  st_category :: string
  st_category_revision :: int
  st_user_datetime :: "wall_time option"
  st_user_precision :: "string option"
  st_source_year :: "int option"
  st_source_basis :: "string option"
  st_datetime :: "wall_time option"
  st_year :: "int option"
  st_precision :: "string option"
  st_basis :: "string option"
  st_updated_at :: time

text \<open>\<open>effective_capture_date\<close> is a stored generated column.\<close>

definition st_date :: "file_state \<Rightarrow> wall_date option" where
  "st_date s = map_option wall_date_of (st_datetime s)"

text \<open>
  A value of a metadata column; a history row keeps the text \<open>str\<close> gives of it, here the value
  itself. \<open>md_other\<close> are the columns of camera, image and sky that no component reads.
\<close>

datatype field_value = FNone | FText string | FInt int | FReal real | FWall wall_time | FBool bool | FTime time

record file_metadata =
  md_file :: int
  md_datetime_original :: "time option"
  md_original_capture :: "wall_time option"
  md_gps_lat :: "real option"
  md_gps_lon :: "real option"
  md_country :: "string option"
  md_province :: "string option"
  md_city :: "string option"
  md_district :: "string option"
  md_place_name :: "string option"
  md_place_id :: "string option"
  md_match_source :: "string option"
  md_match_distance :: "real option"
  md_match_revision :: int
  md_locked :: bool
  md_other :: "string \<Rightarrow> field_value"

record mk_place =
  pl_id :: string
  pl_display_name :: string
  pl_canonical_name :: "string option"
  pl_address :: "string option"
  pl_postal_code :: "string option"
  pl_country :: "string option"
  pl_province :: "string option"
  pl_city :: "string option"
  pl_district :: "string option"
  pl_latitude :: real
  pl_longitude :: real
  pl_radius :: real
  pl_provider_place_id :: "string option"
  pl_category :: "string option"
  pl_creation_source :: string
  pl_dedup_key :: "string option"
  pl_active :: bool
  pl_favorite :: bool
  pl_usage :: int
  pl_last_used :: "time option"
  pl_revision :: int
  pl_updated_at :: time
  pl_deleted_at :: "time option"

definition opt_text :: "string option \<Rightarrow> field_value" where
  "opt_text x = (case x of None \<Rightarrow> FNone | Some s \<Rightarrow> FText s)"

definition opt_real :: "real option \<Rightarrow> field_value" where
  "opt_real x = (case x of None \<Rightarrow> FNone | Some s \<Rightarrow> FReal s)"

definition opt_wall :: "wall_time option \<Rightarrow> field_value" where
  "opt_wall x = (case x of None \<Rightarrow> FNone | Some s \<Rightarrow> FWall s)"

record mk_history =
  mh_file :: int
  mh_field :: string
  mh_old :: field_value
  mh_new :: field_value
  mh_source :: string
  mh_priority :: int
  mh_modified_by :: string
  mh_approved :: bool

text \<open>
  The session state: the common tables and MemoryKeeper's own. \<open>linked_at\<close> is the
  \<open>created_at\<close> of the file's MemoryKeeper link.
\<close>

record mk_state =
  base :: db
  file_states :: "file_state list"
  metadata_rows :: "file_metadata list"
  mk_places :: "mk_place list"
  histories :: "mk_history list"
  linked_at :: "int \<Rightarrow> time"

definition memorykeeper :: string where
  "memorykeeper = ''MemoryKeeper''"

definition mk_linked :: "mk_state \<Rightarrow> int \<Rightarrow> bool" where
  "mk_linked d i \<longleftrightarrow> \<lparr>fs_file = i, fs_service = memorykeeper\<rparr> \<in> set (links (base d))"

definition active_file :: "mk_state \<Rightarrow> int \<Rightarrow> bool" where
  "active_file d i \<longleftrightarrow> (case find_row cf_id i (files (base d)) of None \<Rightarrow> False | Some f \<Rightarrow> \<not> cf_deleted f)"


text \<open>The undeleted MemoryKeeper file with a public id.\<close>

definition mk_file :: "mk_state \<Rightarrow> string \<Rightarrow> common_file option" where
  "mk_file d public_id =
     find_row cf_file_id public_id (filter (\<lambda>f. \<not> cf_deleted f \<and> mk_linked d (cf_id f)) (files (base d)))"

definition metadata_of :: "mk_state \<Rightarrow> int \<Rightarrow> file_metadata option" where
  "metadata_of d i = find_row md_file i (metadata_rows d)"

definition state_of :: "mk_state \<Rightarrow> int \<Rightarrow> file_state option" where
  "state_of d i = find_row st_file i (file_states d)"

text \<open>Appending to the change feed as MemoryKeeper.\<close>

definition mk_change :: "time \<Rightarrow> string \<Rightarrow> string \<Rightarrow> change_operation \<Rightarrow> int option \<Rightarrow> bool \<Rightarrow> mk_state \<Rightarrow> mk_state" where
  "mk_change now resource resource_id operation revision tombstone d =
     d\<lparr>base := append_change now memorykeeper resource resource_id operation revision tombstone (base d)\<rparr>"

text \<open>A new metadata row has the column defaults; the cleanup of files sees its file id.\<close>

definition new_metadata :: "int \<Rightarrow> file_metadata" where
  "new_metadata i = \<lparr>md_file = i, md_datetime_original = None, md_original_capture = None, md_gps_lat = None,
     md_gps_lon = None, md_country = None, md_province = None, md_city = None, md_district = None,
     md_place_name = None, md_place_id = None, md_match_source = None, md_match_distance = None,
     md_match_revision = 0, md_locked = False, md_other = (\<lambda>_. FNone)\<rparr>"

definition insert_metadata :: "file_metadata \<Rightarrow> mk_state \<Rightarrow> mk_state" where
  "insert_metadata m d = d\<lparr>metadata_rows := metadata_rows d @ [m],
     base := (base d)\<lparr>metadata_files := metadata_files (base d) @ [md_file m]\<rparr>\<rparr>"

definition ensure_metadata :: "int \<Rightarrow> mk_state \<Rightarrow> mk_state" where
  "ensure_metadata i d = (if metadata_of d i = None then insert_metadata (new_metadata i) d else d)"

definition add_histories :: "mk_history list \<Rightarrow> mk_state \<Rightarrow> mk_state" where
  "add_histories hs d = d\<lparr>histories := histories d @ hs\<rparr>"

text \<open>A loop over the files of a request; an exception ends it and rolls back.\<close>

fun for_each :: "('a \<Rightarrow> 's \<Rightarrow> 'e + 's) \<Rightarrow> 'a list \<Rightarrow> 's \<Rightarrow> 'e + 's" where
  "for_each f [] d = Inr d"
| "for_each f (x # xs) d = (case f x d of Inl e \<Rightarrow> Inl e | Inr d' \<Rightarrow> for_each f xs d')"

lemma for_each_invariant:
  assumes "for_each f xs d = Inr d'" and "I d"
    and "\<And>x d d'. x \<in> set xs \<Longrightarrow> I d \<Longrightarrow> f x d = Inr d' \<Longrightarrow> I d'"
  shows "I d'"
  using assms by (induction f xs d rule: for_each.induct) (auto split: sum.splits)

lemma for_each_total:
  assumes "I d" and "\<And>x d. x \<in> set xs \<Longrightarrow> I d \<Longrightarrow> \<exists>d'. f x d = Inr d' \<and> I d'"
  shows "\<exists>d'. for_each f xs d = Inr d' \<and> I d'"
  using assms
proof (induction f xs d rule: for_each.induct)
  case (2 f x xs d)
  then obtain d' where "f x d = Inr d'" "I d'" by fastforce
  with 2 show ?case by fastforce
qed simp

end
