(* ===== verification/PyText.thy ===== *)
theory PyText
  imports Prelude
begin

text \<open>
  The string methods of Python the modelled code calls, on character lists (code points up to
  255; \<open>lower\<close> and \<open>upper\<close> act on the ASCII letters), and the chaining of calls that
  raise. The lemmas are the laws the path, filename and cursor components rest on.
\<close>

section \<open>Calls that raise\<close>

definition and_then :: "'e + 'a \<Rightarrow> ('a \<Rightarrow> 'e + 'b) \<Rightarrow> 'e + 'b" where
  "and_then x f = (case x of Inl e \<Rightarrow> Inl e | Inr v \<Rightarrow> f v)"

lemma and_then_simps [simp]: "and_then (Inl e) f = Inl e" "and_then (Inr v) f = f v"
  by (simp_all add: and_then_def)

lemma and_then_Inr_iff [simp]: "and_then x f = Inr y \<longleftrightarrow> (\<exists>v. x = Inr v \<and> f v = Inr y)"
  by (cases x) auto

definition raise_if :: "bool \<Rightarrow> 'e \<Rightarrow> 'e + 'a \<Rightarrow> 'e + 'a" where
  "raise_if b e k = (if b then Inl e else k)"

lemma raise_if_Inr_iff [simp]: "raise_if b e k = Inr y \<longleftrightarrow> \<not> b \<and> k = Inr y"
  by (simp add: raise_if_def)

section \<open>Characters\<close>

definition is_space :: "char \<Rightarrow> bool" where
  "is_space c \<longleftrightarrow> (let n = of_char c :: nat in
     (9 \<le> n \<and> n \<le> 13) \<or> (28 \<le> n \<and> n \<le> 32) \<or> n = 133 \<or> n = 160)"

definition is_upper_ascii :: "char \<Rightarrow> bool" where
  "is_upper_ascii c \<longleftrightarrow> 65 \<le> (of_char c :: nat) \<and> (of_char c :: nat) \<le> 90"

definition is_lower_ascii :: "char \<Rightarrow> bool" where
  "is_lower_ascii c \<longleftrightarrow> 97 \<le> (of_char c :: nat) \<and> (of_char c :: nat) \<le> 122"

definition is_digit_char :: "char \<Rightarrow> bool" where
  "is_digit_char c \<longleftrightarrow> 48 \<le> (of_char c :: nat) \<and> (of_char c :: nat) \<le> 57"

definition lower_char :: "char \<Rightarrow> char" where
  "lower_char c = (if is_upper_ascii c then char_of ((of_char c :: nat) + 32) else c)"

definition upper_char :: "char \<Rightarrow> char" where
  "upper_char c = (if is_lower_ascii c then char_of ((of_char c :: nat) - 32) else c)"

definition lower :: "string \<Rightarrow> string" where
  "lower s = map lower_char s"

definition upper :: "string \<Rightarrow> string" where
  "upper s = map upper_char s"

lemma lower_char_idem [simp]: "lower_char (lower_char c) = lower_char c"
proof -
  have "of_char (char_of (of_char c + 32 :: nat) :: char) = (of_char c + 32 :: nat)" if "is_upper_ascii c"
    using that by (simp add: is_upper_ascii_def of_char_of)
  then show ?thesis by (auto simp: lower_char_def is_upper_ascii_def)
qed

lemma lower_idem [simp]: "lower (lower s) = lower s"
  by (simp add: lower_def)

lemma lower_Cons [simp]: "lower (c # s) = lower_char c # lower s" and lower_Nil [simp]: "lower [] = []"
  by (simp_all add: lower_def)

section \<open>Stripping\<close>

definition lstrip_while :: "(char \<Rightarrow> bool) \<Rightarrow> string \<Rightarrow> string" where
  "lstrip_while P s = dropWhile P s"

definition rstrip_while :: "(char \<Rightarrow> bool) \<Rightarrow> string \<Rightarrow> string" where
  "rstrip_while P s = rev (dropWhile P (rev s))"

definition strip_while :: "(char \<Rightarrow> bool) \<Rightarrow> string \<Rightarrow> string" where
  "strip_while P s = rstrip_while P (lstrip_while P s)"

definition strip :: "string \<Rightarrow> string" where
  "strip s = strip_while is_space s"

lemma rstrip_while_decomp: "\<exists>t. s = rstrip_while P s @ t \<and> list_all P t"
proof -
  have "s = rstrip_while P s @ rev (takeWhile P (rev s))"
    unfolding rstrip_while_def by (metis rev_append rev_rev_ident takeWhile_dropWhile_id)
  then show ?thesis by (metis list_all_iff set_rev set_takeWhileD)
qed

lemma set_rstrip_while: "set (rstrip_while P s) \<subseteq> set s"
  unfolding rstrip_while_def by (auto dest: set_dropWhileD)

lemma set_strip_while: "set (strip_while P s) \<subseteq> set s"
  unfolding strip_while_def lstrip_while_def
  using set_rstrip_while set_dropWhileD by fastforce

lemma length_rstrip_while: "length (rstrip_while P s) \<le> length s"
  by (simp add: rstrip_while_def length_dropWhile_le[where xs = "rev s", simplified])

lemma length_strip_while: "length (strip_while P s) \<le> length s"
  unfolding strip_while_def lstrip_while_def
  using length_rstrip_while length_dropWhile_le le_trans by blast

lemma last_rstrip_while: "rstrip_while P s \<noteq> [] \<Longrightarrow> \<not> P (last (rstrip_while P s))"
  unfolding rstrip_while_def by (metis hd_dropWhile hd_rev rev_is_Nil_conv rev_rev_ident)

lemma rstrip_while_id: "s = [] \<or> \<not> P (last s) \<Longrightarrow> rstrip_while P s = s"
  by (cases s rule: rev_cases) (auto simp: rstrip_while_def)

lemma hd_strip_while: "strip_while P s \<noteq> [] \<Longrightarrow> \<not> P (hd (strip_while P s))"
proof -
  assume ne: "strip_while P s \<noteq> []"
  obtain t where "dropWhile P s = strip_while P s @ t"
    using rstrip_while_decomp by (metis lstrip_while_def strip_while_def)
  then show ?thesis using ne by (metis append_is_Nil_conv hd_append2 hd_dropWhile)
qed

lemma strip_while_id: "s = [] \<or> \<not> P (hd s) \<and> \<not> P (last s) \<Longrightarrow> strip_while P s = s"
  by (cases s) (auto simp: strip_while_def lstrip_while_def rstrip_while_id)

lemma strip_while_idem [simp]: "strip_while P (strip_while P s) = strip_while P s"
  using hd_strip_while last_rstrip_while
  by (metis strip_while_def strip_while_id)

section \<open>Searching and splitting\<close>

definition starts_with :: "string \<Rightarrow> string \<Rightarrow> bool" where
  "starts_with p s \<longleftrightarrow> take (length p) s = p"

fun find_sub :: "string \<Rightarrow> string \<Rightarrow> nat option" where
  "find_sub p [] = (if p = [] then Some 0 else None)"
| "find_sub p (c # s) = (if starts_with p (c # s) then Some 0 else map_option Suc (find_sub p s))"

fun split_on :: "char \<Rightarrow> string \<Rightarrow> string list" where
  "split_on sep [] = [[]]"
| "split_on sep (c # s) =
     (if c = sep then [] # split_on sep s
      else (case split_on sep s of [] \<Rightarrow> [[c]] | p # ps \<Rightarrow> (c # p) # ps))"

fun join_with :: "char \<Rightarrow> string list \<Rightarrow> string" where
  "join_with sep [] = []"
| "join_with sep [p] = p"
| "join_with sep (p # q # ps) = p @ sep # join_with sep (q # ps)"

definition replace_char :: "char \<Rightarrow> char \<Rightarrow> string \<Rightarrow> string" where
  "replace_char a b s = map (\<lambda>c. if c = a then b else c) s"

lemma replace_char_id [simp]: "a \<notin> set s \<Longrightarrow> replace_char a b s = s"
  unfolding replace_char_def by (rule map_idI) auto

lemma replace_char_absent [simp]: "a \<noteq> b \<Longrightarrow> a \<notin> set (replace_char a b s)"
  by (auto simp: replace_char_def split: if_splits)

lemma set_replace_char: "set (replace_char a b s) \<subseteq> insert b (set s)"
  by (auto simp: replace_char_def)

lemma split_on_nonempty [simp]: "split_on sep s \<noteq> []"
  by (cases s) (auto split: list.splits)

lemma split_on_no_sep: "p \<in> set (split_on sep s) \<Longrightarrow> sep \<notin> set p"
  by (induction s arbitrary: p) (fastforce split: if_splits list.splits)+

lemma set_split_on: "p \<in> set (split_on sep s) \<Longrightarrow> set p \<subseteq> set s"
  by (induction s arbitrary: p) (fastforce split: if_splits list.splits)+

lemma join_split [simp]: "join_with sep (split_on sep s) = s"
proof (induction s)
  case (Cons c s)
  show ?case
  proof (cases "split_on sep s")
    case (Cons p ps)
    then show ?thesis using Cons.IH by (cases ps) auto
  qed simp
qed simp

lemma split_on_absent: "sep \<notin> set s \<Longrightarrow> split_on sep s = [s]"
  by (induction s) auto

lemma split_on_append: "sep \<notin> set p \<Longrightarrow> split_on sep (p @ sep # s) = p # split_on sep s"
  by (induction p) auto

lemma split_join:
  "ps \<noteq> [] \<Longrightarrow> (\<And>p. p \<in> set ps \<Longrightarrow> sep \<notin> set p) \<Longrightarrow> split_on sep (join_with sep ps) = ps"
  by (induction sep ps rule: join_with.induct) (auto simp: split_on_absent split_on_append)

lemma starts_with_append [simp]: "starts_with p (p @ s)"
  by (simp add: starts_with_def)

lemma starts_with_iff: "starts_with p s \<longleftrightarrow> (\<exists>t. s = p @ t)"
  unfolding starts_with_def by (metis append_eq_conv_conj append_take_drop_id)

lemma find_sub_Some: "find_sub p s = Some i \<Longrightarrow> i \<le> length s \<and> starts_with p (drop i s)"
proof (induction s arbitrary: i)
  case Nil
  then show ?case by (auto simp: starts_with_def split: if_splits)
next
  case (Cons c s)
  then show ?case by (cases "starts_with p (c # s)") auto
qed

lemma find_sub_None: "find_sub p s = None \<longleftrightarrow> (\<forall>i\<le>length s. \<not> starts_with p (drop i s))"
proof (induction s)
  case Nil
  then show ?case by (simp add: starts_with_def)
next
  case (Cons c s)
  have "(\<forall>i\<le>length (c # s). \<not> starts_with p (drop i (c # s))) \<longleftrightarrow>
      \<not> starts_with p (c # s) \<and> (\<forall>i\<le>length s. \<not> starts_with p (drop i s))" (is "?l \<longleftrightarrow> ?r")
  proof
    assume l: ?l
    have "\<not> starts_with p (drop i s)" if "i \<le> length s" for i
      using l[rule_format, of "Suc i"] that by simp
    then show ?r using l[rule_format, of 0] by simp
  next
    assume r: ?r
    have "\<not> starts_with p (drop i (c # s))" if "i \<le> length (c # s)" for i
      using r that by (cases i) auto
    then show ?l by blast
  qed
  then show ?case using Cons.IH by simp
qed

lemma find_sub_start: "starts_with p s \<Longrightarrow> find_sub p s = Some 0"
  by (cases s) (auto simp: starts_with_def)

lemma find_sub_infix: "find_sub p (x @ p @ y) \<noteq> None"
  by (induction x) (auto simp: find_sub_start)

end
