(* ===== verification/CaptureDates.thy ===== *)
theory CaptureDates
  imports MkTables PyText
begin

text \<open>
  The capture date of a MemoryKeeper photo (\<open>src/app/memorykeeper/services/\<close>): the projection
  rules and \<open>synchronize\<close> (\<open>capture_date_service.py\<close>) and the override request
  (\<open>capture_date_override_service.py\<close>). Requests take the state of their transaction and give an
  error, which rolls back, or the committed state. Naive datetimes are \<open>wall_time\<close>s by type,
  so the checks for time zones have no counterpart.
\<close>

section \<open>The projection\<close>

record projection =
  cp_datetime :: "wall_time option"
  cp_year :: "int option"
  cp_precision :: "string option"
  cp_basis :: "string option"

definition exact_projection :: "wall_time \<Rightarrow> string \<Rightarrow> string \<Rightarrow> projection" where
  "exact_projection t precision basis =
     \<lparr>cp_datetime = Some t, cp_year = Some (wall_year t), cp_precision = Some precision, cp_basis = Some basis\<rparr>"

text \<open>None is the ValueError of a source year out of range.\<close>

definition calculate_projection ::
  "wall_time option \<Rightarrow> wall_time option \<Rightarrow> time option \<Rightarrow> time option \<Rightarrow> int option \<Rightarrow> string option
     \<Rightarrow> projection option" where
  "calculate_projection user original imported created source_year user_precision =
     (if (case source_year of None \<Rightarrow> False | Some y \<Rightarrow> \<not> (1 \<le> y \<and> y \<le> 9999)) then None
      else Some (case (user, source_year, original) of
        (Some t, _, _) \<Rightarrow> exact_projection t
            (case user_precision of None \<Rightarrow> ''DATE'' | Some p \<Rightarrow> if p = [] then ''DATE'' else p) ''USER''
      | (None, Some y, _) \<Rightarrow>
          (case original of
             Some t \<Rightarrow> if wall_year t = y then exact_projection t ''DATETIME'' ''EXIF''
                       else \<lparr>cp_datetime = None, cp_year = Some y, cp_precision = Some ''YEAR'', cp_basis = Some ''SOURCE_YEAR''\<rparr>
           | None \<Rightarrow> \<lparr>cp_datetime = None, cp_year = Some y, cp_precision = Some ''YEAR'', cp_basis = Some ''SOURCE_YEAR''\<rparr>)
      | (None, None, Some t) \<Rightarrow> exact_projection t ''DATETIME'' ''EXIF''
      | (None, None, None) \<Rightarrow>
          (case imported of
             Some t \<Rightarrow> exact_projection (utc_wall t) ''DATETIME'' ''IMPORTED''
           | None \<Rightarrow> (case created of
               Some t \<Rightarrow> exact_projection (utc_wall t) ''DATETIME'' ''CREATED''
             | None \<Rightarrow> \<lparr>cp_datetime = None, cp_year = None, cp_precision = None, cp_basis = None\<rparr>))))"

section \<open>Synchronizing a state\<close>

definition new_state :: "time \<Rightarrow> int \<Rightarrow> bool \<Rightarrow> file_state" where
  "new_state now i favorite = \<lparr>st_file = i, st_favorite = favorite, st_memo = None, st_revision = 0,
     st_category = ''NORMAL'', st_category_revision = 0, st_user_datetime = None, st_user_precision = None,
     st_source_year = None, st_source_basis = None, st_datetime = None, st_year = None, st_precision = None,
     st_basis = None, st_updated_at = now\<rparr>"

definition state_projection :: "mk_state \<Rightarrow> common_file \<Rightarrow> file_metadata option \<Rightarrow> file_state \<Rightarrow> projection option" where
  "state_projection d f m s =
     calculate_projection (st_user_datetime s) (Option.bind m md_original_capture) (Some (linked_at d (cf_id f)))
       (Some (cf_created_at f)) (st_source_year s) (st_user_precision s)"

definition with_projection :: "projection \<Rightarrow> file_state \<Rightarrow> file_state" where
  "with_projection p s = s\<lparr>st_datetime := cp_datetime p, st_year := cp_year p, st_precision := cp_precision p,
     st_basis := cp_basis p\<rparr>"

definition put_state :: "file_state \<Rightarrow> mk_state \<Rightarrow> mk_state" where
  "put_state s d = d\<lparr>file_states :=
     (if state_of d (st_file s) = None then file_states d @ [s] else save_row st_file s (file_states d))\<rparr>"

text \<open>The row is written only when it changes, and then \<open>onupdate\<close> sets \<open>updated_at\<close>.\<close>

definition synchronize :: "time \<Rightarrow> common_file \<Rightarrow> file_metadata option \<Rightarrow> file_state \<Rightarrow> mk_state \<Rightarrow> mk_state option" where
  "synchronize now f m s d =
     map_option (\<lambda>p. let s' = with_projection p s in put_state (if s' = s then s else s'\<lparr>st_updated_at := now\<rparr>) d)
       (state_projection d f m s)"

definition create_state :: "time \<Rightarrow> common_file \<Rightarrow> mk_state \<Rightarrow> mk_state option" where
  "create_state now f d =
     synchronize now f (metadata_of d (cf_id f)) (new_state now (cf_id f) (cf_favorite f)) d"

section \<open>The override request\<close>

datatype files_error =
    FilesNotFound "string list"                       \<comment> \<open>404\<close>
  | FilesConflict "(string \<times> int \<times> int) list"        \<comment> \<open>409: file, expected, current\<close>
  | CaptureValueError                                 \<comment> \<open>uncaught\<close>

definition missing_files :: "mk_state \<Rightarrow> string list \<Rightarrow> string list" where
  "missing_files d ids = filter (\<lambda>i. mk_file d i = None) ids"

definition or_value_error :: "mk_state option \<Rightarrow> files_error + mk_state" where
  "or_value_error x = (case x of None \<Rightarrow> Inl CaptureValueError | Some d \<Rightarrow> Inr d)"

definition ensure_state :: "time \<Rightarrow> string \<Rightarrow> mk_state \<Rightarrow> files_error + mk_state" where
  "ensure_state now public_id d =
     (case mk_file d public_id of
        None \<Rightarrow> Inr d
      | Some f \<Rightarrow> if state_of d (cf_id f) = None then or_value_error (create_state now f d) else Inr d)"

definition revision_conflicts :: "(file_state \<Rightarrow> int) \<Rightarrow> mk_state \<Rightarrow> (string \<Rightarrow> int) \<Rightarrow> string list \<Rightarrow> (string \<times> int \<times> int) list" where
  "revision_conflicts revision d expected ids =
     List.map_filter (\<lambda>i. Option.bind (mk_file d i) (\<lambda>f. Option.bind (state_of d (cf_id f)) (\<lambda>s.
        if revision s \<noteq> expected i then Some (i, expected i, revision s) else None))) ids"

definition date_midnight :: "wall_date \<Rightarrow> wall_time" where
  "date_midnight x = (case x of (y, m, d) \<Rightarrow> (y, m, d, 0))"

definition override_history :: "int \<Rightarrow> wall_time option \<Rightarrow> wall_time option \<Rightarrow> mk_history" where
  "override_history i old new = \<lparr>mh_file = i, mh_field = ''memorykeeper_user_capture_datetime'', mh_old = opt_wall old,
     mh_new = opt_wall new, mh_source = ''USER'', mh_priority = 100,
     mh_modified_by = ''MemoryKeeperCaptureDateOverrideService'', mh_approved = True\<rparr>"

definition bump_state :: "time \<Rightarrow> int \<Rightarrow> mk_state \<Rightarrow> mk_state" where
  "bump_state now i d = d\<lparr>file_states :=
     update_where (\<lambda>s. st_file s = i) (\<lambda>s. s\<lparr>st_revision := st_revision s + 1, st_updated_at := now\<rparr>) (file_states d)\<rparr>"

definition override_file :: "time \<Rightarrow> wall_time option \<Rightarrow> string \<Rightarrow> mk_state \<Rightarrow> files_error + mk_state" where
  "override_file now requested public_id d =
     (case mk_file d public_id of
        None \<Rightarrow> Inr d
      | Some f \<Rightarrow> (case state_of d (cf_id f) of
          None \<Rightarrow> Inr d
        | Some s \<Rightarrow>
            let d = (if st_user_datetime s \<noteq> requested
                     then add_histories [override_history (cf_id f) (st_user_datetime s) requested] d else d);
                s' = s\<lparr>st_user_datetime := requested,
                       st_user_precision := (if requested = None then None else Some ''DATE'')\<rparr>
            in and_then (or_value_error (synchronize now f (metadata_of d (cf_id f)) s' d)) (\<lambda>d.
                 Inr (mk_change now ''MemoryKeeperCaptureDate'' (cf_file_id f) UPDATE (Some (st_revision s + 1)) False
                        (bump_state now (cf_id f) d)))))"

definition update_capture_dates ::
  "time \<Rightarrow> string list \<Rightarrow> wall_date option \<Rightarrow> (string \<Rightarrow> int) \<Rightarrow> mk_state \<Rightarrow> files_error + mk_state" where
  "update_capture_dates now ids date expected d =
     raise_if (missing_files d ids \<noteq> []) (FilesNotFound (missing_files d ids))
       (and_then (for_each (ensure_state now) ids d) (\<lambda>d.
          raise_if (revision_conflicts st_revision d expected ids \<noteq> [])
            (FilesConflict (revision_conflicts st_revision d expected ids))
            (for_each (override_file now (map_option date_midnight date)) ids d)))"

section \<open>The response\<close>

record capture_date_item =
  ci_file_id :: string
  ci_user_datetime :: "wall_time option"
  ci_user_precision :: "string option"
  ci_source_year :: "int option"
  ci_source_basis :: "string option"
  ci_datetime :: "wall_time option"
  ci_date :: "wall_date option"
  ci_year :: "int option"
  ci_precision :: "string option"
  ci_basis :: "string option"
  ci_revision :: int

definition capture_date_item_of :: "common_file \<Rightarrow> file_state \<Rightarrow> capture_date_item" where
  "capture_date_item_of f s = \<lparr>ci_file_id = cf_file_id f, ci_user_datetime = st_user_datetime s,
     ci_user_precision = st_user_precision s, ci_source_year = st_source_year s, ci_source_basis = st_source_basis s,
     ci_datetime = st_datetime s, ci_date = st_date s, ci_year = st_year s, ci_precision = st_precision s,
     ci_basis = st_basis s, ci_revision = st_revision s\<rparr>"

definition capture_date_items :: "mk_state \<Rightarrow> string list \<Rightarrow> capture_date_item list" where
  "capture_date_items d ids = List.map_filter (\<lambda>i. Option.bind (mk_file d i) (\<lambda>f.
     map_option (capture_date_item_of f) (state_of d (cf_id f)))) ids"

end
