(* ===== verification/NumText.thy ===== *)
theory NumText
  imports PyText
begin

text \<open>
  Decimal text: \<open>str(n)\<close> and \<open>int(s)\<close> of Python. \<open>int\<close> strips white space, takes a sign
  and single underscores between digits, and refuses more than 4300 digits
  (\<open>sys.int_info.default_max_str_digits\<close>); digits of other scripts, which are beyond the
  characters of this development, are left out. The lemmas show that a number printed is the
  number read.
\<close>

section \<open>Digits\<close>

definition digit_char :: "nat \<Rightarrow> char" where
  "digit_char d = char_of (48 + d)"

definition digit_value :: "char \<Rightarrow> nat" where
  "digit_value c = of_char c - 48"

lemma digit_char_props:
  assumes "d < 10"
  shows "is_digit_char (digit_char d)" and "digit_value (digit_char d) = d"
  using assms by (simp_all add: digit_char_def is_digit_char_def digit_value_def of_char_of)

lemma digit_value_bound: "is_digit_char c \<Longrightarrow> digit_value c < 10"
  by (auto simp: is_digit_char_def digit_value_def)

lemma digit_char_value: "is_digit_char c \<Longrightarrow> digit_char (digit_value c) = c"
  by (simp add: is_digit_char_def digit_value_def digit_char_def)

definition digits_value :: "string \<Rightarrow> nat" where
  "digits_value s = foldl (\<lambda>a c. a * 10 + digit_value c) 0 s"

fun show_nat :: "nat \<Rightarrow> string" where
  "show_nat n = (if n < 10 then [digit_char n] else show_nat (n div 10) @ [digit_char (n mod 10)])"

declare show_nat.simps [simp del]

lemma digits_value_snoc [simp]: "digits_value (s @ [c]) = digits_value s * 10 + digit_value c"
  by (simp add: digits_value_def)

lemma digits_value_Nil [simp]: "digits_value [] = 0"
  by (simp add: digits_value_def)

lemma digits_value_single: "digits_value [c] = digit_value c"
  by (simp add: digits_value_def)

lemma show_nat_digits: "list_all is_digit_char (show_nat n)"
proof (induction n rule: show_nat.induct)
  case (1 n)
  then show ?case by (subst show_nat.simps) (simp add: digit_char_props)
qed

lemma show_nat_nonempty [simp]: "show_nat n \<noteq> []"
  by (subst show_nat.simps) simp

lemma digits_value_show [simp]: "digits_value (show_nat n) = n"
proof (induction n rule: show_nat.induct)
  case (1 n)
  then show ?case
    by (subst show_nat.simps) (simp add: digits_value_single digit_char_props)
qed

lemma length_show_nat: "n < 10 ^ Suc k \<Longrightarrow> length (show_nat n) \<le> Suc k"
proof (induction k arbitrary: n)
  case 0
  then show ?case by (subst show_nat.simps) simp
next
  case (Suc k)
  show ?case
  proof (cases "n < 10")
    case True
    then show ?thesis by (subst show_nat.simps) simp
  next
    case False
    have "n div 10 < 10 ^ Suc k" using Suc.prems by (simp add: less_mult_imp_div_less)
    then show ?thesis using False Suc.IH[of "n div 10"] by (subst show_nat.simps) simp
  qed
qed

lemma digits_value_bound: "list_all is_digit_char s \<Longrightarrow> digits_value s < 10 ^ length s"
proof (induction s rule: rev_induct)
  case (snoc c s)
  then have "digits_value s + 1 \<le> 10 ^ length s" and "digit_value c < 10"
    by (simp_all add: digit_value_bound)
  then have "digits_value s * 10 + digit_value c < (digits_value s + 1) * 10" by simp
  also have "\<dots> \<le> 10 ^ length s * 10" by (rule mult_le_mono1) fact
  finally show ?case by simp
qed simp

section \<open>Numbers\<close>

definition str_int :: "int \<Rightarrow> string" where
  "str_int n = (if n < 0 then CHR ''-'' # show_nat (nat (- n)) else show_nat (nat n))"

definition max_str_digits :: nat where
  "max_str_digits = 4300"

definition unsigned_int :: "string \<Rightarrow> nat option" where
  "unsigned_int s =
     (let ps = split_on (CHR ''_'') s; ds = concat ps
      in if list_all (\<lambda>p. p \<noteq> [] \<and> list_all is_digit_char p) ps \<and> length ds \<le> max_str_digits
         then Some (digits_value ds) else None)"

fun signed_int :: "string \<Rightarrow> int option" where
  "signed_int [] = None"
| "signed_int (c # s) =
     (if c = CHR ''-'' then map_option (\<lambda>n. - int n) (unsigned_int s)
      else if c = CHR ''+'' then map_option int (unsigned_int s)
      else map_option int (unsigned_int (c # s)))"

definition py_int :: "string \<Rightarrow> int option" where
  "py_int s = signed_int (strip s)"

lemma digit_not: "is_digit_char c \<Longrightarrow> c \<noteq> CHR ''_'' \<and> c \<noteq> CHR ''-'' \<and> c \<noteq> CHR ''+'' \<and> \<not> is_space c"
  by (auto simp: is_digit_char_def is_space_def Let_def)

lemma unsigned_int_digits:
  assumes "list_all is_digit_char s" and "s \<noteq> []" and "length s \<le> max_str_digits"
  shows "unsigned_int s = Some (digits_value s)"
proof -
  have "CHR ''_'' \<notin> set s" using assms(1) digit_not by (auto simp: list_all_iff)
  then show ?thesis using assms by (simp add: unsigned_int_def split_on_absent)
qed

lemma signed_int_digits:
  assumes "list_all is_digit_char s" and "s \<noteq> []" and "length s \<le> max_str_digits"
  shows "signed_int s = Some (int (digits_value s))"
  using assms unsigned_int_digits[OF assms] digit_not by (cases s) auto

lemma strip_digits: "list_all is_digit_char s \<Longrightarrow> strip s = s"
  unfolding strip_def using digit_not
  by (cases s) (auto intro!: strip_while_id simp: list_all_iff)

lemma py_int_digits:
  assumes "list_all is_digit_char s" and "s \<noteq> []" and "length s \<le> max_str_digits"
  shows "py_int s = Some (int (digits_value s))"
  using signed_int_digits[OF assms] strip_digits[OF assms(1)] by (simp add: py_int_def)

theorem py_int_str_int:
  assumes "length (show_nat (nat \<bar>n\<bar>)) \<le> max_str_digits"
  shows "py_int (str_int n) = Some n"
proof (cases "n < 0")
  case True
  let ?s = "show_nat (nat (- n))"
  have u: "unsigned_int ?s = Some (digits_value ?s)"
    using True assms by (intro unsigned_int_digits show_nat_digits) simp_all
  have "last ?s \<in> set ?s" by simp
  then have "\<not> is_space (last ?s)" using show_nat_digits[of "nat (- n)"] digit_not by (auto simp: list_all_iff)
  moreover have "\<not> is_space (CHR ''-'')" by (simp add: is_space_def)
  ultimately have "strip (CHR ''-'' # ?s) = CHR ''-'' # ?s"
    unfolding strip_def by (intro strip_while_id) simp
  then show ?thesis using True u by (simp add: py_int_def str_int_def)
next
  case False
  then show ?thesis using py_int_digits[OF show_nat_digits] assms by (simp add: str_int_def)
qed

text \<open>The primary keys are 32-bit integer columns.\<close>

lemma py_int_str_pk: "\<bar>n\<bar> < 2 ^ 31 \<Longrightarrow> py_int (str_int n) = Some n"
proof (rule py_int_str_int)
  assume "\<bar>n\<bar> < 2 ^ 31"
  then have "nat \<bar>n\<bar> < 10 ^ Suc 9" by simp
  then show "length (show_nat (nat \<bar>n\<bar>)) \<le> max_str_digits"
    using length_show_nat by (fastforce simp: max_str_digits_def)
qed

end
