(* ===== verification/Places.thy ===== *)
theory Places
  imports CaptureDates NumText
begin

text \<open>
  The places of MemoryKeeper and the relation of photos to them
  (\<open>src/app/memorykeeper/\<close>): the repository, the matcher and the mutations of
  \<open>place_service.py\<close>. A request is a function of the state of its transaction; an error
  rolls back. Floats are reals. \<open>casefold\<close> and NFKC act on ASCII only, as \<open>lower\<close>.

  The candidate an automatic match creates a place from is chosen with the help of Google
  Places (\<open>place_candidate_service.py\<close>); here it is an argument.
\<close>

section \<open>Distances\<close>

definition earth_radius :: real where
  "earth_radius = 6371000"

definition radians :: "real \<Rightarrow> real" where
  "radians x = x * pi / 180"

definition haversine :: "real \<Rightarrow> real \<Rightarrow> real \<Rightarrow> real \<Rightarrow> real" where
  "haversine lat1 lon1 lat2 lon2 =
     (sin ((radians lat2 - radians lat1) / 2))\<^sup>2 +
     cos (radians lat1) * cos (radians lat2) * (sin ((radians lon2 - radians lon1) / 2))\<^sup>2"

definition distance_m :: "real \<Rightarrow> real \<Rightarrow> real \<Rightarrow> real \<Rightarrow> real" where
  "distance_m lat1 lon1 lat2 lon2 = 2 * earth_radius * arcsin (sqrt (haversine lat1 lon1 lat2 lon2))"

section \<open>The repository\<close>

definition place_get_any :: "string \<Rightarrow> mk_state \<Rightarrow> mk_place option" where
  "place_get_any i d = find_row pl_id i (mk_places d)"

definition place_get :: "string \<Rightarrow> mk_state \<Rightarrow> mk_place option" where
  "place_get i d = find_row pl_id i (filter (\<lambda>p. pl_deleted_at p = None) (mk_places d))"

definition active_places :: "mk_state \<Rightarrow> mk_place list" where
  "active_places d = order_by pl_id (filter (\<lambda>p. pl_deleted_at p = None \<and> pl_active p) (mk_places d))"

definition put_place :: "mk_place \<Rightarrow> mk_state \<Rightarrow> mk_state" where
  "put_place p d = d\<lparr>mk_places := save_row pl_id p (mk_places d)\<rparr>"

definition place_by_dedup_key :: "string \<Rightarrow> mk_state \<Rightarrow> mk_place option" where
  "place_by_dedup_key k d = find_row pl_dedup_key (Some k) (filter (\<lambda>p. pl_deleted_at p = None) (mk_places d))"

definition linked_photo :: "mk_state \<Rightarrow> int \<Rightarrow> bool" where
  "linked_photo d i \<longleftrightarrow> active_file d i \<and> mk_linked d i"

definition linked_photo_count :: "mk_state \<Rightarrow> string \<Rightarrow> nat" where
  "linked_photo_count d i = count_where (\<lambda>m. md_place_id m = Some i \<and> linked_photo d (md_file m)) (metadata_rows d)"

definition total_reference_count :: "mk_state \<Rightarrow> string \<Rightarrow> nat" where
  "total_reference_count d i = count_where (\<lambda>m. md_place_id m = Some i) (metadata_rows d)"

definition relation_rows :: "mk_state \<Rightarrow> string list \<Rightarrow> file_metadata list" where
  "relation_rows d ids = order_by md_file
     (filter (\<lambda>m. (\<exists>i\<in>set ids. md_place_id m = Some i) \<and> find_row cf_id (md_file m) (files (base d)) \<noteq> None)
        (metadata_rows d))"

definition update_place_if_revision ::
  "time \<Rightarrow> string \<Rightarrow> int \<Rightarrow> (mk_place \<Rightarrow> mk_place) \<Rightarrow> mk_state \<Rightarrow> nat \<times> mk_state" where
  "update_place_if_revision now i revision values d =
     (let hit = (\<lambda>p. pl_id p = i \<and> pl_deleted_at p = None \<and> pl_revision p = revision)
      in (count_where hit (mk_places d),
          d\<lparr>mk_places := update_where hit (\<lambda>p. (values p)\<lparr>pl_revision := revision + 1, pl_updated_at := now\<rparr>)
              (mk_places d)\<rparr>))"

definition touch_usage :: "time \<Rightarrow> string \<Rightarrow> mk_state \<Rightarrow> mk_state" where
  "touch_usage now i d = d\<lparr>mk_places := update_where (\<lambda>p. pl_id p = i)
     (\<lambda>p. p\<lparr>pl_usage := pl_usage p + 1, pl_last_used := Some now, pl_updated_at := now\<rparr>) (mk_places d)\<rparr>"

text \<open>Photos with coordinates, in the order of their ids.\<close>

definition files_with_gps :: "mk_state \<Rightarrow> file_metadata list" where
  "files_with_gps d = order_by md_file
     (filter (\<lambda>m. linked_photo d (md_file m) \<and> md_gps_lat m \<noteq> None \<and> md_gps_lon m \<noteq> None) (metadata_rows d))"

section \<open>The matcher\<close>

definition clean :: "string option \<Rightarrow> string option" where
  "clean x = (case x of None \<Rightarrow> None | Some s \<Rightarrow> if strip s = [] then None else Some (strip s))"

definition clean_folded :: "string option \<Rightarrow> string option" where
  "clean_folded x = map_option lower (clean x)"

record place_match =
  pm_place :: "mk_place option"
  pm_distance :: "real option"
  pm_source :: string

definition match_place :: "mk_state \<Rightarrow> real \<Rightarrow> real \<Rightarrow> string option \<Rightarrow> string option \<Rightarrow> place_match" where
  "match_place d lat lon provider canonical =
     (let places = active_places d;
          dist = (\<lambda>p. distance_m lat lon (pl_latitude p) (pl_longitude p));
          by_provider = (if clean provider = None then [] else filter (\<lambda>p. clean (pl_provider_place_id p) = clean provider) places);
          by_name = (if clean_folded canonical = None then []
                     else filter (\<lambda>p. clean_folded (pl_canonical_name p) = clean_folded canonical) places)
      in case first_by pl_id (\<lambda>_. True) by_provider of
           Some p \<Rightarrow> \<lparr>pm_place = Some p, pm_distance = Some (dist p), pm_source = ''PROVIDER_PLACE_ID''\<rparr>
         | None \<Rightarrow> (case first_by pl_id (\<lambda>_. True) by_name of
             Some p \<Rightarrow> \<lparr>pm_place = Some p, pm_distance = Some (dist p), pm_source = ''CANONICAL_NAME''\<rparr>
           | None \<Rightarrow> (case first_by (\<lambda>p. (dist p, pl_id p)) (\<lambda>p. dist p \<le> pl_radius p) places of
               Some p \<Rightarrow> \<lparr>pm_place = Some p, pm_distance = Some (dist p), pm_source = ''RADIUS''\<rparr>
             | None \<Rightarrow> \<lparr>pm_place = None, pm_distance = None, pm_source = ''NONE''\<rparr>)))"

section \<open>Policy\<close>

definition effective_category :: "file_state option \<Rightarrow> string" where
  "effective_category s = (case s of None \<Rightarrow> ''NORMAL''
     | Some s \<Rightarrow> if st_category s = [] then ''NORMAL'' else st_category s)"

definition is_daily_photo :: "file_state option \<Rightarrow> bool" where
  "is_daily_photo s \<longleftrightarrow> effective_category s = ''DAILY''"

definition is_user_place_decision :: "file_metadata option \<Rightarrow> bool" where
  "is_user_place_decision m \<longleftrightarrow> Option.bind m md_match_source = Some ''USER''"

definition blocks_automatic_change :: "file_metadata option \<Rightarrow> file_state option \<Rightarrow> bool" where
  "blocks_automatic_change m s \<longleftrightarrow> is_daily_photo s \<or> is_user_place_decision m"

section \<open>The relation of a photo\<close>

datatype place_error =
    PlaceNotFound                              \<comment> \<open>404\<close>
  | InactivePlace                              \<comment> \<open>422\<close>
  | SamePlace                                  \<comment> \<open>422\<close>
  | PlaceConflict string int int               \<comment> \<open>409: place, expected, current\<close>
  | PlaceInUse string nat nat                  \<comment> \<open>409: place, references, linked photos\<close>
  | MergeBlocked "string list"                 \<comment> \<open>409\<close>
  | PlaceNotAssignable string                  \<comment> \<open>409\<close>
  | MkFileNotFound                             \<comment> \<open>404\<close>
  | MkFilesNotFound "string list"              \<comment> \<open>404\<close>
  | RelationConflict int int                   \<comment> \<open>409: expected, current\<close>
  | RelationConflicts "(string \<times> int \<times> int) list"   \<comment> \<open>409: file, expected, current\<close>
  | FilesNotPending "string list"              \<comment> \<open>409\<close>
  | DuplicateKey                               \<comment> \<open>an uncaught IntegrityError\<close>
  | PlaceValueError                            \<comment> \<open>an uncaught ValueError\<close>

definition relation_histories :: "file_metadata \<Rightarrow> file_metadata \<Rightarrow> string \<Rightarrow> mk_history list" where
  "relation_histories old new source =
     (let entry = (\<lambda>name a b. \<lparr>mh_file = md_file old, mh_field = name, mh_old = a, mh_new = b, mh_source = source,
            mh_priority = (if source = ''USER'' then 100 else 50), mh_modified_by = ''MemoryKeeperPlaceService'',
            mh_approved = (source = ''USER'')\<rparr>)
      in filter (\<lambda>h. mh_old h \<noteq> mh_new h)
           [entry ''memorykeeper_place_id'' (opt_text (md_place_id old)) (opt_text (md_place_id new)),
            entry ''place_match_source'' (opt_text (md_match_source old)) (opt_text (md_match_source new)),
            entry ''place_match_distance_m'' (opt_real (md_match_distance old)) (opt_real (md_match_distance new)),
            entry ''place_match_revision'' (FInt (md_match_revision old)) (FInt (md_match_revision new))])"

text \<open>The public id of the file of a metadata row.\<close>

definition public_id :: "mk_state \<Rightarrow> int \<Rightarrow> string option" where
  "public_id d i = map_option cf_file_id (find_row cf_id i (files (base d)))"

definition file_place_change :: "time \<Rightarrow> int \<Rightarrow> int \<Rightarrow> mk_state \<Rightarrow> mk_state" where
  "file_place_change now i revision d =
     (case public_id d i of None \<Rightarrow> d
      | Some k \<Rightarrow> mk_change now ''MemoryKeeperFilePlace'' k UPDATE (Some revision) False d)"

definition put_metadata :: "file_metadata \<Rightarrow> mk_state \<Rightarrow> mk_state" where
  "put_metadata m d = d\<lparr>metadata_rows := save_row md_file m (metadata_rows d)\<rparr>"

definition write_relation ::
  "time \<Rightarrow> file_metadata \<Rightarrow> string option \<Rightarrow> string \<Rightarrow> real option \<Rightarrow> bool \<Rightarrow> mk_state \<Rightarrow> mk_state" where
  "write_relation now m place source distance touch d =
     (let new = m\<lparr>md_place_id := place, md_match_source := Some source, md_match_distance := distance,
                  md_match_revision := md_match_revision m + 1\<rparr>
      in if md_place_id m = place \<and> md_match_source m = Some source \<and> md_match_distance m = distance then d
         else let d = add_histories (relation_histories m new source) (put_metadata new d);
                  d = (case place of Some i \<Rightarrow> if touch then touch_usage now i d else d | None \<Rightarrow> d)
              in file_place_change now (md_file m) (md_match_revision new) d)"

definition set_relation ::
  "time \<Rightarrow> file_metadata \<Rightarrow> string option \<Rightarrow> string \<Rightarrow> real option \<Rightarrow> bool \<Rightarrow> mk_state \<Rightarrow> place_error + mk_state" where
  "set_relation now m place source distance touch d =
     (case place of
        None \<Rightarrow> Inr (write_relation now m None source distance touch d)
      | Some i \<Rightarrow> (case place_get i d of
          None \<Rightarrow> Inl (PlaceNotAssignable i)
        | Some p \<Rightarrow> if \<not> pl_active p then Inl (PlaceNotAssignable i)
                    else Inr (write_relation now m (Some i) source distance touch d)))"

definition photo_distance :: "file_metadata \<Rightarrow> mk_place option \<Rightarrow> real option" where
  "photo_distance m place =
     (case (place, md_gps_lat m, md_gps_lon m) of
        (Some p, Some lat, Some lon) \<Rightarrow> Some (distance_m lat lon (pl_latitude p) (pl_longitude p))
      | _ \<Rightarrow> None)"

definition category_history :: "string \<Rightarrow> int \<Rightarrow> string \<Rightarrow> string \<Rightarrow> mk_history" where
  "category_history modified_by i old new = \<lparr>mh_file = i, mh_field = ''memorykeeper_photo_category'', mh_old = FText old,
     mh_new = FText new, mh_source = ''USER'', mh_priority = 100, mh_modified_by = modified_by, mh_approved = True\<rparr>"

text \<open>What a change of category writes.\<close>

definition write_category :: "time \<Rightarrow> string \<Rightarrow> common_file \<Rightarrow> file_state \<Rightarrow> string \<Rightarrow> string \<Rightarrow> mk_state \<Rightarrow> mk_state" where
  "write_category now modified_by f s old new d =
     mk_change now ''MemoryKeeperPhotoCategory'' (cf_file_id f) UPDATE (Some (st_category_revision s + 1)) False
       (add_histories [category_history modified_by (cf_id f) old new]
         (put_state (s\<lparr>st_category := new, st_category_revision := st_category_revision s + 1, st_updated_at := now\<rparr>) d))"

definition set_category_normal :: "time \<Rightarrow> common_file \<Rightarrow> mk_state \<Rightarrow> place_error + mk_state" where
  "set_category_normal now f d =
     and_then (case state_of d (cf_id f) of
         Some s \<Rightarrow> Inr d
       | None \<Rightarrow> if mk_linked d (cf_id f)
                 then (case create_state now f d of None \<Rightarrow> Inl PlaceValueError | Some d \<Rightarrow> Inr d)
                 else Inl PlaceValueError)
       (\<lambda>d. case state_of d (cf_id f) of
          None \<Rightarrow> Inr d
        | Some s \<Rightarrow> if st_category s = ''NORMAL'' then Inr d
            else Inr (write_category now ''MemoryKeeperPlaceService'' f s
                        (if st_category s = [] then ''NORMAL'' else st_category s) ''NORMAL'' d))"

end
