(* ===== verification/PlaceService.thy ===== *)
theory PlaceService
  imports Places
begin

text \<open>
  The requests on places: \<open>MemoryKeeperPlaceService\<close> (\<open>place_service.py\<close>), the batch
  assignment (\<open>file_place_batch_service.py\<close>), the assignment of pending photos
  (\<open>pending_service.py\<close>) and the categories (\<open>photo_category_service.py\<close>), with the
  payloads of \<open>schemas/place.py\<close> and \<open>schemas/file.py\<close>, all under
  \<open>src/app/memorykeeper/\<close>.
\<close>

section \<open>Payloads\<close>

record place_payload =
  pp_display_name :: string
  pp_canonical_name :: "string option"
  pp_address :: "string option"
  pp_postal_code :: "string option"
  pp_country :: "string option"
  pp_province :: "string option"
  pp_city :: "string option"
  pp_district :: "string option"
  pp_latitude :: real
  pp_longitude :: real
  pp_radius :: real
  pp_provider_place_id :: "string option"
  pp_category :: "string option"
  pp_active :: bool
  pp_favorite :: bool

definition at_most :: "nat \<Rightarrow> string option \<Rightarrow> bool" where
  "at_most n x = (case x of None \<Rightarrow> True | Some s \<Rightarrow> length s \<le> n)"

definition validate_place :: "place_payload \<Rightarrow> place_payload option" where
  "validate_place p =
     (if 1 \<le> length (pp_display_name p) \<and> length (pp_display_name p) \<le> 200 \<and> strip (pp_display_name p) \<noteq> [] \<and>
         at_most 300 (pp_canonical_name p) \<and> at_most 500 (pp_address p) \<and> at_most 50 (pp_postal_code p) \<and>
         at_most 100 (pp_country p) \<and> at_most 100 (pp_province p) \<and> at_most 100 (pp_city p) \<and>
         at_most 100 (pp_district p) \<and> - 90 \<le> pp_latitude p \<and> pp_latitude p \<le> 90 \<and> - 180 \<le> pp_longitude p \<and>
         pp_longitude p \<le> 180 \<and> 0 < pp_radius p \<and> at_most 255 (pp_provider_place_id p) \<and> at_most 100 (pp_category p)
      then Some (p\<lparr>pp_display_name := strip (pp_display_name p)\<rparr>) else None)"

text \<open>A patch holds the fields the client set; a field of a nullable column can hold null.\<close>

record place_patch =
  pt_revision :: int
  pt_display_name :: "string option"
  pt_canonical_name :: "string option option"
  pt_address :: "string option option"
  pt_postal_code :: "string option option"
  pt_country :: "string option option"
  pt_province :: "string option option"
  pt_city :: "string option option"
  pt_district :: "string option option"
  pt_latitude :: "real option"
  pt_longitude :: "real option"
  pt_radius :: "real option"
  pt_provider_place_id :: "string option option"
  pt_category :: "string option option"
  pt_active :: "bool option"
  pt_favorite :: "bool option"

definition patch_place :: "place_patch \<Rightarrow> mk_place \<Rightarrow> mk_place" where
  "patch_place t p = p\<lparr>
     pl_display_name := or_else (pt_display_name t) (pl_display_name p),
     pl_canonical_name := or_else (pt_canonical_name t) (pl_canonical_name p),
     pl_address := or_else (pt_address t) (pl_address p),
     pl_postal_code := or_else (pt_postal_code t) (pl_postal_code p),
     pl_country := or_else (pt_country t) (pl_country p),
     pl_province := or_else (pt_province t) (pl_province p),
     pl_city := or_else (pt_city t) (pl_city p),
     pl_district := or_else (pt_district t) (pl_district p),
     pl_latitude := or_else (pt_latitude t) (pl_latitude p),
     pl_longitude := or_else (pt_longitude t) (pl_longitude p),
     pl_radius := or_else (pt_radius t) (pl_radius p),
     pl_provider_place_id := or_else (pt_provider_place_id t) (pl_provider_place_id p),
     pl_category := or_else (pt_category t) (pl_category p),
     pl_active := or_else (pt_active t) (pl_active p),
     pl_favorite := or_else (pt_favorite t) (pl_favorite p)\<rparr>"

section \<open>Create, update and delete\<close>

definition place_change :: "time \<Rightarrow> mk_place \<Rightarrow> change_operation \<Rightarrow> bool \<Rightarrow> mk_state \<Rightarrow> mk_state" where
  "place_change now p operation tombstone d =
     mk_change now ''MemoryKeeperPlace'' (pl_id p) operation (Some (pl_revision p)) tombstone d"

definition new_place :: "time \<Rightarrow> string \<Rightarrow> place_payload \<Rightarrow> mk_place" where
  "new_place now i p = \<lparr>pl_id = i, pl_display_name = pp_display_name p, pl_canonical_name = pp_canonical_name p,
     pl_address = pp_address p, pl_postal_code = pp_postal_code p, pl_country = pp_country p,
     pl_province = pp_province p, pl_city = pp_city p, pl_district = pp_district p, pl_latitude = pp_latitude p,
     pl_longitude = pp_longitude p, pl_radius = pp_radius p, pl_provider_place_id = pp_provider_place_id p,
     pl_category = pp_category p, pl_creation_source = ''USER'', pl_dedup_key = None, pl_active = pp_active p,
     pl_favorite = pp_favorite p, pl_usage = 0, pl_last_used = None, pl_revision = 1, pl_updated_at = now,
     pl_deleted_at = None\<rparr>"

text \<open>
  The flush of a new place: the primary key, and the unique index on the deduplication key,
  which deleted rows leave.
\<close>

definition insert_place :: "mk_place \<Rightarrow> mk_state \<Rightarrow> mk_state option" where
  "insert_place p d =
     (if pl_id p \<in> pl_id ` set (mk_places d) \<or>
         pl_dedup_key p \<noteq> None \<and> pl_dedup_key p \<in> pl_dedup_key ` set (mk_places d) then None
      else Some (d\<lparr>mk_places := mk_places d @ [p]\<rparr>))"

definition create_place :: "time \<Rightarrow> string \<Rightarrow> place_payload \<Rightarrow> mk_state \<Rightarrow> place_error + mk_state \<times> mk_place" where
  "create_place now i payload d =
     (let p = new_place now i payload
      in case insert_place p d of None \<Rightarrow> Inl DuplicateKey
         | Some d \<Rightarrow> Inr (place_change now p CREATE False d, p))"

definition get_place :: "string \<Rightarrow> mk_state \<Rightarrow> place_error + mk_place" where
  "get_place i d = (case place_get i d of None \<Rightarrow> Inl PlaceNotFound | Some p \<Rightarrow> Inr p)"

definition get_assignable :: "string \<Rightarrow> mk_state \<Rightarrow> place_error + mk_place" where
  "get_assignable i d = and_then (get_place i d) (\<lambda>p. raise_if (\<not> pl_active p) InactivePlace (Inr p))"

text \<open>
  The bulk UPDATE does not refresh the object the session already holds, and the lookup after
  it returns that object: the event is written from \<open>current\<close>, as it was before the update.
\<close>

definition update_place :: "time \<Rightarrow> string \<Rightarrow> place_patch \<Rightarrow> mk_state \<Rightarrow> place_error + mk_state \<times> mk_place" where
  "update_place now i payload d =
     and_then (get_place i d) (\<lambda>current.
       raise_if (pl_revision current \<noteq> pt_revision payload)
         (PlaceConflict i (pt_revision payload) (pl_revision current))
         (let (count, d) = update_place_if_revision now i (pt_revision payload) (patch_place payload) d
          in raise_if (count = 0) (PlaceConflict i (pt_revision payload) (pl_revision current))
               (let d = place_change now current UPDATE False d
                in and_then (get_place i d) (\<lambda>p. Inr (d, p)))))"

text \<open>What deleting a place, or merging it away, writes into its row.\<close>

definition retire_place :: "time \<Rightarrow> mk_place \<Rightarrow> mk_place" where
  "retire_place now p = p\<lparr>pl_active := False, pl_deleted_at := Some now, pl_dedup_key := None,
     pl_revision := pl_revision p + 1, pl_updated_at := now\<rparr>"

definition delete_place :: "time \<Rightarrow> string \<Rightarrow> int option \<Rightarrow> mk_state \<Rightarrow> place_error + mk_state" where
  "delete_place now i expected d =
     (case place_get_any i d of
        None \<Rightarrow> Inl PlaceNotFound
      | Some p \<Rightarrow>
          raise_if (pl_deleted_at p \<noteq> None) PlaceNotFound
            (raise_if (expected \<noteq> None \<and> expected \<noteq> Some (pl_revision p))
               (PlaceConflict i (the expected) (pl_revision p))
               (raise_if (total_reference_count d i \<noteq> 0)
                  (PlaceInUse i (total_reference_count d i) (linked_photo_count d i))
                  (Inr (place_change now (retire_place now p) DELETE True (put_place (retire_place now p) d))))))"

section \<open>Merging\<close>

definition merge_blocking_reasons :: "mk_place \<Rightarrow> mk_place \<Rightarrow> string list" where
  "merge_blocking_reasons source target =
     (if pl_id source = pl_id target then [''SAME_PLACE''] else []) @
     (if pl_deleted_at source \<noteq> None then [''SOURCE_DELETED'']
      else if \<not> pl_active source then [''SOURCE_INACTIVE''] else []) @
     (if pl_deleted_at target \<noteq> None then [''TARGET_DELETED'']
      else if \<not> pl_active target then [''TARGET_INACTIVE''] else [])"

record merge_payload =
  mp_source :: string
  mp_target :: string
  mp_source_revision :: int
  mp_target_revision :: int

record merge_response =
  mr_target :: mk_place
  mr_target_linked :: nat
  mr_source :: string
  mr_moved_references :: nat
  mr_moved_linked :: nat

definition moved_source :: "file_metadata \<Rightarrow> string" where
  "moved_source m = (case md_match_source m of None \<Rightarrow> ''USER'' | Some s \<Rightarrow> if s = [] then ''USER'' else s)"

definition move_relation :: "time \<Rightarrow> mk_place \<Rightarrow> file_metadata \<Rightarrow> mk_state \<Rightarrow> place_error + mk_state" where
  "move_relation now target m d =
     set_relation now m (Some (pl_id target)) (moved_source m) (photo_distance m (Some target)) False d"

definition source_rows :: "mk_state \<Rightarrow> mk_place \<Rightarrow> mk_place \<Rightarrow> file_metadata list" where
  "source_rows d source target =
     filter (\<lambda>m. md_place_id m = Some (pl_id source)) (relation_rows d [pl_id source, pl_id target])"

definition merged_target :: "time \<Rightarrow> mk_place \<Rightarrow> mk_place" where
  "merged_target now target = target\<lparr>pl_revision := pl_revision target + 1, pl_updated_at := now\<rparr>"

definition finish_merge :: "time \<Rightarrow> mk_place \<Rightarrow> mk_place \<Rightarrow> mk_state \<Rightarrow> mk_state" where
  "finish_merge now source target d =
     place_change now (merged_target now target) UPDATE False
       (place_change now (retire_place now source) DELETE True
         (put_place (merged_target now target) (put_place (retire_place now source) d)))"

definition merge_response_of ::
  "time \<Rightarrow> mk_place \<Rightarrow> mk_place \<Rightarrow> mk_state \<Rightarrow> mk_state \<Rightarrow> merge_response" where
  "merge_response_of now source target before after =
     \<lparr>mr_target = merged_target now target, mr_target_linked = linked_photo_count after (pl_id target),
      mr_source = pl_id source, mr_moved_references = length (source_rows before source target),
      mr_moved_linked = linked_photo_count before (pl_id source)\<rparr>"

definition merge_places :: "time \<Rightarrow> merge_payload \<Rightarrow> mk_state \<Rightarrow> place_error + mk_state \<times> merge_response" where
  "merge_places now payload d =
     raise_if (mp_source payload = mp_target payload) SamePlace
       (case (place_get_any (mp_source payload) d, place_get_any (mp_target payload) d) of
          (Some source, Some target) \<Rightarrow>
            raise_if (merge_blocking_reasons source target \<noteq> []) (MergeBlocked (merge_blocking_reasons source target))
              (raise_if (pl_revision source \<noteq> mp_source_revision payload)
                 (PlaceConflict (pl_id source) (mp_source_revision payload) (pl_revision source))
                 (raise_if (pl_revision target \<noteq> mp_target_revision payload)
                    (PlaceConflict (pl_id target) (mp_target_revision payload) (pl_revision target))
                    (and_then (for_each (move_relation now target) (source_rows d source target) d) (\<lambda>moved.
                       Inr (finish_merge now source target moved,
                            merge_response_of now source target d (finish_merge now source target moved))))))
        | _ \<Rightarrow> Inl PlaceNotFound)"

section \<open>Assigning one photo\<close>

definition assign_file ::
  "time \<Rightarrow> string \<Rightarrow> string option \<Rightarrow> int \<Rightarrow> mk_state \<Rightarrow> place_error + mk_state" where
  "assign_file now file place expected d =
     and_then (case place of None \<Rightarrow> Inr None
               | Some i \<Rightarrow> and_then (get_assignable i d) (\<lambda>p. Inr (Some p))) (\<lambda>place.
       case mk_file d file of
         None \<Rightarrow> Inl MkFileNotFound
       | Some f \<Rightarrow>
           let d = ensure_metadata (cf_id f) d
           in (case metadata_of d (cf_id f) of
                 None \<Rightarrow> Inl MkFileNotFound
               | Some m \<Rightarrow>
                   raise_if (md_match_revision m \<noteq> expected) (RelationConflict expected (md_match_revision m))
                     (and_then (if place = None then Inr d else set_category_normal now f d)
                        (set_relation now m (map_option pl_id place) ''USER'' (photo_distance m place) True))))"

section \<open>Automatic matching\<close>

record place_candidate =
  pc_display_name :: string
  pc_canonical_name :: string
  pc_address :: "string option"
  pc_latitude :: real
  pc_longitude :: real
  pc_radius :: real
  pc_provider_place_id :: "string option"
  pc_category :: string
  pc_creation_source :: string
  pc_country :: "string option"
  pc_province :: "string option"
  pc_city :: "string option"
  pc_district :: "string option"

text \<open>Runs of white space become one space.\<close>

fun collapse_spaces :: "bool \<Rightarrow> string \<Rightarrow> string" where
  "collapse_spaces after [] = []"
| "collapse_spaces after (c # s) =
     (if is_space c then (if after then [] else '' '') @ collapse_spaces True s else c # collapse_spaces False s)"

definition normalized_name :: "string \<Rightarrow> string" where
  "normalized_name s = collapse_spaces False (strip (lower s))"

text \<open>The \<open>.3f\<close> format.\<close>

definition fixed3 :: "real \<Rightarrow> string" where
  "fixed3 x =
     (let n = nat (round (\<bar>x\<bar> * 1000))
      in (if x < 0 then ''-'' else []) @ show_nat (n div 1000) @ ''.'' @
         [digit_char (n div 100 mod 10), digit_char (n div 10 mod 10), digit_char (n mod 10)])"

definition auto_dedup_key :: "place_candidate \<Rightarrow> string" where
  "auto_dedup_key c =
     (case pc_provider_place_id c of
        Some p \<Rightarrow> if p = [] then ''name:'' @ normalized_name (pc_canonical_name c) @ '':'' @ fixed3 (pc_latitude c) @ '':'' @
                     fixed3 (pc_longitude c)
                   else ''provider:'' @ strip p
      | None \<Rightarrow> ''name:'' @ normalized_name (pc_canonical_name c) @ '':'' @ fixed3 (pc_latitude c) @ '':'' @
                  fixed3 (pc_longitude c))"

definition candidate_duplicate :: "mk_state \<Rightarrow> place_candidate \<Rightarrow> real \<Rightarrow> real \<Rightarrow> (mk_place \<times> string) option" where
  "candidate_duplicate d c lat lon =
     (let exact = match_place d lat lon (pc_provider_place_id c) (Some (pc_canonical_name c))
      in case pm_place exact of
           Some p \<Rightarrow> Some (p, pm_source exact)
         | None \<Rightarrow> map_option (\<lambda>p. (p, ''RADIUS''))
             (List.find (\<lambda>p. normalized_name (pl_display_name p) = normalized_name (pc_display_name c) \<and>
                distance_m (pc_latitude c) (pc_longitude c) (pl_latitude p) (pl_longitude p) \<le> max (pl_radius p) (pc_radius c))
                (active_places d)))"

definition candidate_place :: "time \<Rightarrow> string \<Rightarrow> place_candidate \<Rightarrow> mk_place" where
  "candidate_place now i c = \<lparr>pl_id = i, pl_display_name = pc_display_name c,
     pl_canonical_name = Some (pc_canonical_name c), pl_address = pc_address c, pl_postal_code = None,
     pl_country = pc_country c, pl_province = pc_province c, pl_city = pc_city c, pl_district = pc_district c,
     pl_latitude = pc_latitude c, pl_longitude = pc_longitude c, pl_radius = pc_radius c,
     pl_provider_place_id = pc_provider_place_id c, pl_category = Some (pc_category c),
     pl_creation_source = pc_creation_source c, pl_dedup_key = Some (auto_dedup_key c), pl_active = True,
     pl_favorite = False, pl_usage = 0, pl_last_used = None, pl_revision = 1, pl_updated_at = now,
     pl_deleted_at = None\<rparr>"

definition duplicate_source :: "mk_place \<Rightarrow> place_candidate \<Rightarrow> string" where
  "duplicate_source p c =
     (if (case pc_provider_place_id c of None \<Rightarrow> False | Some i \<Rightarrow> i \<noteq> [] \<and> pl_provider_place_id p = Some i)
      then ''PROVIDER_PLACE_ID''
      else if (case pl_canonical_name p of None \<Rightarrow> False
               | Some n \<Rightarrow> n \<noteq> [] \<and> lower (strip n) = lower (strip (pc_canonical_name c))) then ''CANONICAL_NAME''
      else ''RADIUS'')"

text \<open>
  The place of a candidate: a duplicate, a new place, or the row that made the insert fail
  (looked up after the rollback, whether it is active or not).
\<close>

definition resolve_candidate ::
  "time \<Rightarrow> string \<Rightarrow> place_candidate \<Rightarrow> real \<Rightarrow> real \<Rightarrow> mk_state \<Rightarrow> place_error + mk_state \<times> mk_place \<times> bool \<times> string" where
  "resolve_candidate now i c lat lon d =
     (case candidate_duplicate d c lat lon of
        Some (p, source) \<Rightarrow> Inr (d, p, False, source)
      | None \<Rightarrow>
          (case insert_place (candidate_place now i c) d of
             Some d' \<Rightarrow> Inr (place_change now (candidate_place now i c) CREATE False d', candidate_place now i c, True,
                            ''AUTO_CREATED'')
           | None \<Rightarrow> (case place_by_dedup_key (auto_dedup_key c) d of
               None \<Rightarrow> Inl DuplicateKey
             | Some p \<Rightarrow> Inr (d, p, False, duplicate_source p c))))"

definition auto_match_file ::
  "time \<Rightarrow> string \<Rightarrow> (file_metadata \<Rightarrow> place_candidate) \<Rightarrow> int \<Rightarrow> bool \<Rightarrow> mk_state \<Rightarrow> place_error + mk_state \<times> bool" where
  "auto_match_file now i pick file create_missing d =
     (case metadata_of d file of
        None \<Rightarrow> Inr (d, False)
      | Some m \<Rightarrow> (case (md_gps_lat m, md_gps_lon m) of
          (Some lat, Some lon) \<Rightarrow>
            if \<not> mk_linked d file \<or> blocks_automatic_change (Some m) (state_of d file) then Inr (d, False)
            else (let found = match_place d lat lon None (md_place_name m)
                  in case pm_place found of
                       Some p \<Rightarrow> and_then (set_relation now m (Some (pl_id p)) (pm_source found) (pm_distance found) True d)
                                   (\<lambda>d. Inr (d, True))
                     | None \<Rightarrow>
                         if create_missing then
                           and_then (resolve_candidate now i (pick m) lat lon d) (\<lambda>(d, p, created, source).
                             and_then (set_relation now m (Some (pl_id p)) (if created then ''AUTO_CREATED'' else source)
                                         (photo_distance m (Some p)) True d) (\<lambda>d. Inr (d, True)))
                         else if md_place_id m \<noteq> None then
                           and_then (set_relation now m None ''AUTO_PLACE_MATCH'' None False d) (\<lambda>d. Inr (d, False))
                         else Inr (d, False))
        | _ \<Rightarrow> Inr (d, False)))"

section \<open>Reclassifying around a place\<close>

record reclassify_counts =
  rc_scanned :: nat
  rc_assigned :: nat
  rc_reassigned :: nat
  rc_outside :: nat
  rc_unchanged :: nat

definition reclassify_photo ::
  "time \<Rightarrow> mk_place \<Rightarrow> bool \<Rightarrow> file_metadata \<Rightarrow> mk_state \<times> reclassify_counts \<Rightarrow> place_error + mk_state \<times> reclassify_counts" where
  "reclassify_photo now p reassign m dc =
     (let d = fst dc; c = (snd dc)\<lparr>rc_scanned := rc_scanned (snd dc) + 1\<rparr>;
          unchanged = Inr (d, c\<lparr>rc_unchanged := rc_unchanged c + 1\<rparr>)
      in if blocks_automatic_change (Some m) (state_of d (md_file m)) then unchanged
         else (case photo_distance m (Some p) of
           None \<Rightarrow> unchanged
         | Some distance \<Rightarrow>
             if md_place_id m = Some (pl_id p) \<and> distance > pl_radius p then
               and_then (set_relation now m None ''AUTO_PLACE_MATCH'' None False d)
                 (\<lambda>d. Inr (d, c\<lparr>rc_outside := rc_outside c + 1\<rparr>))
             else if distance \<le> pl_radius p \<and> md_place_id m = None then
               and_then (set_relation now m (Some (pl_id p)) ''RADIUS'' (Some distance) True d)
                 (\<lambda>d. Inr (d, c\<lparr>rc_assigned := rc_assigned c + 1\<rparr>))
             else if distance \<le> pl_radius p \<and> md_place_id m \<noteq> Some (pl_id p) \<and> reassign then
               and_then (set_relation now m (Some (pl_id p)) ''RADIUS'' (Some distance) True d)
                 (\<lambda>d. Inr (d, c\<lparr>rc_reassigned := rc_reassigned c + 1\<rparr>))
             else unchanged))"

definition reclassify :: "time \<Rightarrow> string \<Rightarrow> bool \<Rightarrow> mk_state \<Rightarrow> place_error + mk_state \<times> reclassify_counts" where
  "reclassify now i reassign d =
     and_then (get_place i d) (\<lambda>p.
       raise_if (\<not> pl_active p) InactivePlace
         (for_each (reclassify_photo now p reassign) (files_with_gps d)
           (d, \<lparr>rc_scanned = 0, rc_assigned = 0, rc_reassigned = 0, rc_outside = 0, rc_unchanged = 0\<rparr>)))"

section \<open>Batch assignment\<close>

definition relation_revision :: "mk_state \<Rightarrow> int \<Rightarrow> int" where
  "relation_revision d i = (case metadata_of d i of None \<Rightarrow> 0 | Some m \<Rightarrow> md_match_revision m)"

definition relation_conflicts :: "mk_state \<Rightarrow> (string \<Rightarrow> int) \<Rightarrow> string list \<Rightarrow> (string \<times> int \<times> int) list" where
  "relation_conflicts d expected ids =
     List.map_filter (\<lambda>i. Option.bind (mk_file d i) (\<lambda>f.
        if relation_revision d (cf_id f) \<noteq> expected i then Some (i, expected i, relation_revision d (cf_id f)) else None)) ids"

definition assign_one :: "time \<Rightarrow> mk_place \<Rightarrow> string \<Rightarrow> mk_state \<Rightarrow> place_error + mk_state" where
  "assign_one now p i d =
     (case mk_file d i of
        None \<Rightarrow> Inr d
      | Some f \<Rightarrow>
          and_then (set_category_normal now f (ensure_metadata (cf_id f) d)) (\<lambda>d.
            case metadata_of d (cf_id f) of
              None \<Rightarrow> Inr d
            | Some m \<Rightarrow> set_relation now m (Some (pl_id p)) ''USER'' (photo_distance m (Some p)) True d))"

definition batch_assign :: "time \<Rightarrow> string list \<Rightarrow> string \<Rightarrow> (string \<Rightarrow> int) \<Rightarrow> mk_state \<Rightarrow> place_error + mk_state" where
  "batch_assign now ids place expected d =
     and_then (get_assignable place d) (\<lambda>p.
       raise_if (missing_files d ids \<noteq> []) (MkFilesNotFound (missing_files d ids))
         (raise_if (relation_conflicts d expected ids \<noteq> []) (RelationConflicts (relation_conflicts d expected ids))
            (for_each (assign_one now p) ids d)))"

definition not_pending :: "mk_state \<Rightarrow> string list \<Rightarrow> string list" where
  "not_pending d ids = filter (\<lambda>i. case mk_file d i of None \<Rightarrow> False
     | Some f \<Rightarrow> Option.bind (metadata_of d (cf_id f)) md_place_id \<noteq> None \<or> is_daily_photo (state_of d (cf_id f))) ids"

definition assign_pending :: "time \<Rightarrow> string list \<Rightarrow> string \<Rightarrow> (string \<Rightarrow> int) \<Rightarrow> mk_state \<Rightarrow> place_error + mk_state" where
  "assign_pending now ids place expected d =
     and_then (get_assignable place d) (\<lambda>p.
       raise_if (missing_files d ids \<noteq> []) (MkFilesNotFound (missing_files d ids))
         (raise_if (relation_conflicts d expected ids \<noteq> []) (RelationConflicts (relation_conflicts d expected ids))
            (raise_if (not_pending d ids \<noteq> []) (FilesNotPending (not_pending d ids))
               (for_each (assign_one now p) ids d))))"

section \<open>Categories\<close>

definition set_category :: "time \<Rightarrow> common_file \<Rightarrow> file_state \<Rightarrow> string \<Rightarrow> mk_state \<Rightarrow> mk_state" where
  "set_category now f s category d =
     (if effective_category (Some s) = category then d
      else write_category now ''MemoryKeeperPhotoCategoryService'' f s (effective_category (Some s)) category d)"

definition prepare_category :: "time \<Rightarrow> string \<Rightarrow> mk_state \<Rightarrow> place_error + mk_state" where
  "prepare_category now i d =
     (case mk_file d i of
        None \<Rightarrow> Inr d
      | Some f \<Rightarrow>
          and_then (if state_of d (cf_id f) = None
                    then (case create_state now f d of None \<Rightarrow> Inl PlaceValueError | Some d \<Rightarrow> Inr d) else Inr d)
            (\<lambda>d. Inr (ensure_metadata (cf_id f) d)))"

definition categorize :: "time \<Rightarrow> string \<Rightarrow> string \<Rightarrow> mk_state \<Rightarrow> place_error + mk_state" where
  "categorize now category i d =
     (case mk_file d i of
        None \<Rightarrow> Inr d
      | Some f \<Rightarrow> (case (state_of d (cf_id f), metadata_of d (cf_id f)) of
          (Some s, Some m) \<Rightarrow>
            let d = set_category now f s category d
            in if category = ''DAILY'' then set_relation now m None ''USER'' None False d
               else if effective_category (Some s) = ''DAILY'' \<and> md_place_id m = None \<and> md_match_source m = Some ''USER''
               then set_relation now m None ''AUTO_PLACE_MATCH'' None False d
               else Inr d
        | _ \<Rightarrow> Inr d))"

definition category_conflicts :: "mk_state \<Rightarrow> (string \<Rightarrow> int) \<Rightarrow> string list \<Rightarrow> (string \<times> int \<times> int) list" where
  "category_conflicts d expected ids = revision_conflicts st_category_revision d expected ids"

definition update_categories ::
  "time \<Rightarrow> string list \<Rightarrow> string \<Rightarrow> (string \<Rightarrow> int) \<Rightarrow> mk_state \<Rightarrow> place_error + mk_state" where
  "update_categories now ids category expected d =
     raise_if (missing_files d ids \<noteq> []) (MkFilesNotFound (missing_files d ids))
       (and_then (for_each (prepare_category now) ids d) (\<lambda>d.
          raise_if (category_conflicts d expected ids \<noteq> []) (RelationConflicts (category_conflicts d expected ids))
            (for_each (categorize now category) ids d)))"

section \<open>Request schemas\<close>

definition normalize_file_ids :: "string list \<Rightarrow> string list option" where
  "normalize_file_ids ids =
     (let trimmed = map strip ids
      in if [] \<in> set trimmed \<or> \<not> distinct trimmed then None else Some trimmed)"

text \<open>Between 1 and 500 files, and a revision that is not negative for each of them and no other.\<close>

definition validate_batch :: "string list \<Rightarrow> (string \<times> int) list \<Rightarrow> (string list \<times> (string \<times> int) list) option" where
  "validate_batch ids expected =
     (if \<not> (1 \<le> length ids \<and> length ids \<le> 500) then None
      else Option.bind (normalize_file_ids ids) (\<lambda>ids.
        if fst ` set expected = set ids \<and> list_all (\<lambda>(i, n). 0 \<le> n) expected then Some (ids, expected) else None))"

definition is_hex_char :: "char \<Rightarrow> bool" where
  "is_hex_char c \<longleftrightarrow> is_digit_char c \<or> (let n = of_char (lower_char c) :: nat in 97 \<le> n \<and> n \<le> 102)"

definition validate_dates :: "string list \<Rightarrow> (string \<times> int) list \<Rightarrow> (string list \<times> (string \<times> int) list) option" where
  "validate_dates ids expected =
     (if \<not> (1 \<le> length ids \<and> length ids \<le> 500) then None
      else Option.bind (normalize_file_ids ids) (\<lambda>ids.
        let lowered = map lower ids; keyed = map (\<lambda>(i, n). (lower (strip i), n)) expected
        in if distinct lowered \<and> list_all (\<lambda>i. length i = 64 \<and> list_all is_hex_char i) lowered \<and>
              distinct (map fst keyed) \<and> fst ` set keyed = set lowered \<and> list_all (\<lambda>(i, n). 0 \<le> n) keyed
           then Some (lowered, keyed) else None))"

end
