(* ===== verification/MkFiles.thy ===== *)
theory MkFiles
  imports PlaceService
begin

text \<open>
  The metadata patch of a MemoryKeeper photo (\<open>patch_metadata\<close> of
  \<open>src/app/memorykeeper/services/file_service.py\<close>) with its payload
  (\<open>schemas/file.py\<close>): it writes the state, the raw metadata and, when the coordinates
  change, the relation to a place.
\<close>

section \<open>Payload\<close>

text \<open>The fields the client set; both coordinates come together, null or not.\<close>

record file_patch =
  ft_expected :: int
  ft_favorite :: "bool option"
  ft_memo :: "string option option"
  ft_gps :: "(real \<times> real) option option"
  ft_country :: "string option option"
  ft_province :: "string option option"
  ft_city :: "string option option"
  ft_district :: "string option option"
  ft_place_name :: "string option option"

definition blank_to_null :: "string option \<Rightarrow> string option" where
  "blank_to_null x = (case x of None \<Rightarrow> None | Some s \<Rightarrow> if strip s = [] then None else Some (strip s))"

definition validate_file_patch :: "file_patch \<Rightarrow> file_patch option" where
  "validate_file_patch t =
     (let t = t\<lparr>ft_memo := map_option blank_to_null (ft_memo t), ft_country := map_option blank_to_null (ft_country t),
                ft_province := map_option blank_to_null (ft_province t), ft_city := map_option blank_to_null (ft_city t),
                ft_district := map_option blank_to_null (ft_district t),
                ft_place_name := map_option blank_to_null (ft_place_name t)\<rparr>;
          fits = (\<lambda>n x. case x of None \<Rightarrow> True | Some v \<Rightarrow> at_most n v)
      in if 0 \<le> ft_expected t \<and> fits 10000 (ft_memo t) \<and> fits 100 (ft_country t) \<and> fits 100 (ft_province t) \<and>
            fits 100 (ft_city t) \<and> fits 100 (ft_district t) \<and> fits 200 (ft_place_name t) \<and>
            (case ft_gps t of Some (Some (lat, lon)) \<Rightarrow> - 90 \<le> lat \<and> lat \<le> 90 \<and> - 180 \<le> lon \<and> lon \<le> 180 | _ \<Rightarrow> True) \<and>
            (ft_favorite t \<noteq> None \<or> ft_memo t \<noteq> None \<or> ft_gps t \<noteq> None \<or> ft_country t \<noteq> None \<or> ft_province t \<noteq> None \<or>
             ft_city t \<noteq> None \<or> ft_district t \<noteq> None \<or> ft_place_name t \<noteq> None)
         then Some t else None)"

section \<open>State and metadata of a file\<close>

text \<open>\<open>get_state\<close> with \<open>create\<close>: a missing state or projection is synchronized.\<close>

definition get_or_create_state :: "time \<Rightarrow> common_file \<Rightarrow> mk_state \<Rightarrow> mk_state option" where
  "get_or_create_state now f d =
     (case state_of d (cf_id f) of
        None \<Rightarrow> create_state now f d
      | Some s \<Rightarrow> if st_datetime s = None \<and> st_basis s = None then synchronize now f (metadata_of d (cf_id f)) s d
                  else Some d)"

definition gps_lat_of :: "(real \<times> real) option \<Rightarrow> real option" where
  "gps_lat_of x = map_option fst x"

definition gps_lon_of :: "(real \<times> real) option \<Rightarrow> real option" where
  "gps_lon_of x = map_option snd x"

definition patched_metadata :: "file_patch \<Rightarrow> file_metadata \<Rightarrow> file_metadata" where
  "patched_metadata t m = m\<lparr>
     md_gps_lat := or_else (map_option gps_lat_of (ft_gps t)) (md_gps_lat m),
     md_gps_lon := or_else (map_option gps_lon_of (ft_gps t)) (md_gps_lon m),
     md_country := or_else (ft_country t) (md_country m), md_province := or_else (ft_province t) (md_province m),
     md_city := or_else (ft_city t) (md_city m), md_district := or_else (ft_district t) (md_district m),
     md_place_name := or_else (ft_place_name t) (md_place_name m),
     md_locked := (md_locked m \<or> ft_gps t \<noteq> None \<or> ft_country t \<noteq> None \<or> ft_province t \<noteq> None \<or> ft_city t \<noteq> None \<or>
                   ft_district t \<noteq> None \<or> ft_place_name t \<noteq> None)\<rparr>"

definition patch_histories :: "file_patch \<Rightarrow> file_state \<Rightarrow> file_metadata \<Rightarrow> mk_history list" where
  "patch_histories t s m =
     (let entry = (\<lambda>name a b. \<lparr>mh_file = md_file m, mh_field = name, mh_old = a, mh_new = b, mh_source = ''USER'',
            mh_priority = 100, mh_modified_by = ''MemoryKeeperFileService'', mh_approved = True\<rparr>);
          text_entry = (\<lambda>name old new. case new of None \<Rightarrow> [] | Some v \<Rightarrow> [entry name (opt_text old) (opt_text v)])
      in filter (\<lambda>h. mh_old h \<noteq> mh_new h)
           ((case ft_favorite t of None \<Rightarrow> []
             | Some b \<Rightarrow> [entry ''memorykeeper_favorite'' (FBool (st_favorite s)) (FBool b)]) @
            text_entry ''memorykeeper_memo'' (st_memo s) (ft_memo t) @
            (case ft_gps t of None \<Rightarrow> []
             | Some g \<Rightarrow> [entry ''gps_lat'' (opt_real (md_gps_lat m)) (opt_real (gps_lat_of g)),
                         entry ''gps_lon'' (opt_real (md_gps_lon m)) (opt_real (gps_lon_of g))]) @
            text_entry ''country'' (md_country m) (ft_country t) @ text_entry ''province'' (md_province m) (ft_province t) @
            text_entry ''city'' (md_city m) (ft_city t) @ text_entry ''district'' (md_district m) (ft_district t) @
            text_entry ''place_name'' (md_place_name m) (ft_place_name t)))"

section \<open>The relation after new coordinates\<close>

definition reconcile_place :: "time \<Rightarrow> file_metadata \<Rightarrow> file_state \<Rightarrow> mk_state \<Rightarrow> place_error + mk_state" where
  "reconcile_place now m s d =
     (let current = Option.bind (md_place_id m) (\<lambda>i. place_get i d)
      in if is_daily_photo (Some s) then Inr d
         else if is_user_place_decision (Some m) then
           (case current of
              None \<Rightarrow> Inr d
            | Some p \<Rightarrow> set_relation now m (Some (pl_id p)) ''USER'' (photo_distance m (Some p)) False d)
         else (case (md_gps_lat m, md_gps_lon m) of
           (Some lat, Some lon) \<Rightarrow>
             (let found = match_place d lat lon None (md_place_name m)
              in case pm_place found of
                   Some p \<Rightarrow> set_relation now m (Some (pl_id p)) (pm_source found) (pm_distance found) True d
                 | None \<Rightarrow> set_relation now m None ''AUTO_PLACE_MATCH'' (pm_distance found) False d)
         | _ \<Rightarrow> set_relation now m None ''AUTO_PLACE_MATCH'' None False d))"

section \<open>The patch\<close>

definition patched_state :: "file_patch \<Rightarrow> file_state \<Rightarrow> file_state" where
  "patched_state t s = s\<lparr>st_favorite := or_else (ft_favorite t) (st_favorite s), st_memo := or_else (ft_memo t) (st_memo s)\<rparr>"

text \<open>The writes of a patch once the revision is checked, and the end of its request.\<close>

definition write_patch :: "file_patch \<Rightarrow> file_state \<Rightarrow> file_metadata \<Rightarrow> mk_state \<Rightarrow> mk_state" where
  "write_patch t s m d =
     add_histories (patch_histories t s m) (put_metadata (patched_metadata t m) (put_state (patched_state t s) d))"

definition finish_patch :: "time \<Rightarrow> common_file \<Rightarrow> file_state \<Rightarrow> mk_state \<Rightarrow> mk_state" where
  "finish_patch now f s d =
     mk_change now ''MemoryKeeperFileMetadata'' (cf_file_id f) UPDATE (Some (st_revision s + 1)) False
       (put_state (s\<lparr>st_revision := st_revision s + 1, st_updated_at := now\<rparr>) d)"

definition patch_row :: "time \<Rightarrow> common_file \<Rightarrow> file_patch \<Rightarrow> mk_state \<Rightarrow> place_error + mk_state" where
  "patch_row now f t d =
     (case (state_of d (cf_id f), metadata_of d (cf_id f)) of
        (Some s, Some m) \<Rightarrow>
          raise_if (st_revision s \<noteq> ft_expected t) (RelationConflict (ft_expected t) (st_revision s))
            (and_then
              (if ft_gps t = None then Inr (write_patch t s m d)
               else reconcile_place now (patched_metadata t m) (patched_state t s) (write_patch t s m d))
              (\<lambda>d. Inr (finish_patch now f (patched_state t s) d)))
      | _ \<Rightarrow> Inl MkFileNotFound)"

definition patch_file :: "time \<Rightarrow> string \<Rightarrow> file_patch \<Rightarrow> mk_state \<Rightarrow> place_error + mk_state" where
  "patch_file now i t d =
     (case mk_file d i of
        None \<Rightarrow> Inl MkFileNotFound
      | Some f \<Rightarrow> (case get_or_create_state now f d of
          None \<Rightarrow> Inl PlaceValueError
        | Some d \<Rightarrow> patch_row now f t (ensure_metadata (cf_id f) d)))"

end
