(* ===== verification/PyDict.thy ===== *)
theory PyDict
  imports PyText
begin

text \<open>
  A Python dict is the association list of its items in insertion order: a lookup is
  \<open>map_of\<close>, an assignment or \<open>setdefault\<close> is \<open>dict_update\<close>.
\<close>

text \<open>\<open>dict_update k f d\<close> writes \<open>f\<close> of the old value (None when the key is new).\<close>

fun dict_update :: "'k \<Rightarrow> ('v option \<Rightarrow> 'v) \<Rightarrow> ('k \<times> 'v) list \<Rightarrow> ('k \<times> 'v) list" where
  "dict_update k f [] = [(k, f None)]"
| "dict_update k f ((k', v) # d) = (if k' = k then (k, f (Some v)) # d else (k', v) # dict_update k f d)"

section \<open>Laws\<close>

lemma map_of_dict_update [simp]: "map_of (dict_update k f d) = (map_of d)(k \<mapsto> f (map_of d k))"
  by (induction k f d rule: dict_update.induct) auto

lemma keys_dict_update: "fst ` set (dict_update k f d) = insert k (fst ` set d)"
  by (induction k f d rule: dict_update.induct) auto

lemma distinct_dict_update [intro]: "distinct (map fst d) \<Longrightarrow> distinct (map fst (dict_update k f d))"
  by (induction k f d rule: dict_update.induct) (auto simp: keys_dict_update split: if_splits)

lemma distinct_dict_fold [intro]:
  "distinct (map fst d) \<Longrightarrow> distinct (map fst (fold (\<lambda>g. dict_update (k g) (f g)) gs d))"
  by (induction gs arbitrary: d) auto

lemma map_of_dict_fold:
  "map_of (fold (\<lambda>g. dict_update (k g) (f g)) gs d) y =
     fold (\<lambda>g v. Some (f g v)) (filter (\<lambda>g. k g = y) gs) (map_of d y)"
  by (induction gs arbitrary: d) auto

text \<open>An item of a dict built by a fold comes from the elements with its key.\<close>

lemma dict_itemD:
  assumes "(y, v) \<in> set (fold (\<lambda>g. dict_update (k g) (f g)) gs [])"
  shows "fold (\<lambda>g v. Some (f g v)) (filter (\<lambda>g. k g = y) gs) None = Some v"
proof -
  have "map_of (fold (\<lambda>g. dict_update (k g) (f g)) gs []) y = Some v"
    using assms by (intro map_of_is_SomeI distinct_dict_fold) auto
  then show ?thesis by (simp add: map_of_dict_fold)
qed

text \<open>A counter that each element increases by its share.\<close>

lemma fold_counter:
  fixes measured :: "'v option \<Rightarrow> nat"
  assumes "\<And>g v. measured (Some (f g v)) = measured v + share g"
  shows "measured (fold (\<lambda>g v. Some (f g v)) gs v) = measured v + sum_list (map share gs)"
  using assms by (induction gs arbitrary: v) auto

lemma fold_inner:
  assumes "\<And>g v. inner (Some (f g v)) = (if P g then step g (inner v) else inner v)"
  shows "inner (fold (\<lambda>g v. Some (f g v)) gs v) = fold step (filter P gs) (inner v)"
  using assms by (induction gs arbitrary: v) auto

end
