(* ===== verification/TagCuration.thy ===== *)
theory TagCuration
  imports PyDict "HOL-Library.Multiset"
begin

text \<open>
  The curation of automatic tags (\<open>src/app/memorykeeper/services/tag_curation_service.py\<close>):
  the vocabulary, the choice of at most five tags from the raw labels of a photo, and the
  terms a search expands to. Tag texts are lists of code points, since the vocabulary is
  Korean; \<open>casefold\<close> acts on the ASCII letters and NFKC, which leaves composed Hangul as
  it is, is the identity. Confidences are reals.
\<close>

section \<open>Text\<close>

type_synonym utext = "int list"

definition ucs :: "string \<Rightarrow> utext" where
  "ucs s = map of_char s"

definition u_space :: "int \<Rightarrow> bool" where
  "u_space c \<longleftrightarrow> (9 \<le> c \<and> c \<le> 13) \<or> (28 \<le> c \<and> c \<le> 32) \<or> (8192 \<le> c \<and> c \<le> 8202) \<or>
     c \<in> set [133, 160, 5760, 8232, 8233, 8239, 8287, 12288]"

definition u_lower :: "utext \<Rightarrow> utext" where
  "u_lower s = map (\<lambda>c. if 65 \<le> c \<and> c \<le> 90 then c + 32 else c) s"

definition u_strip :: "utext \<Rightarrow> utext" where
  "u_strip s = rev (dropWhile u_space (rev (dropWhile u_space s)))"

text \<open>Runs of white space become one space.\<close>

fun u_collapse :: "bool \<Rightarrow> utext \<Rightarrow> utext" where
  "u_collapse after [] = []"
| "u_collapse after (c # s) =
     (if u_space c then (if after then [] else [32]) @ u_collapse True s else c # u_collapse False s)"

definition normalize_tag :: "utext \<Rightarrow> utext" where
  "normalize_tag s = u_collapse False (u_strip (u_lower s))"

fun contains :: "'a list \<Rightarrow> 'a list \<Rightarrow> bool" where
  "contains p [] = (p = [])"
| "contains p (x # xs) = (take (length p) (x # xs) = p \<or> contains p xs)"

section \<open>Vocabulary\<close>

record tag_rule =
  vr_canonical :: utext
  vr_display :: utext
  vr_category :: string
  vr_aliases :: "utext list"
  vr_priority :: int
  vr_suppresses :: "utext list"

definition tag_rule_of :: "utext \<Rightarrow> utext \<Rightarrow> string \<Rightarrow> utext list \<Rightarrow> int \<Rightarrow> utext list \<Rightarrow> tag_rule" where
  "tag_rule_of canonical display category aliases priority suppresses =
     \<lparr>vr_canonical = canonical, vr_display = display, vr_category = category, vr_aliases = aliases,
      vr_priority = priority, vr_suppresses = suppresses\<rparr>"

definition vocabulary :: "tag_rule list" where
  "vocabulary = [
      tag_rule_of (ucs ''person'') [49324, 46988] ''person'' [ucs ''person'', ucs ''people'', ucs ''human'',
          ucs ''face''] 20 [],
      tag_rule_of (ucs ''child'') [50500, 51060] ''person'' [ucs ''child'', ucs ''children'', ucs ''kid'',
          ucs ''toddler'', ucs ''infant'', ucs ''baby'', ucs ''baby in car seat''] 80 [ucs ''person''],
      tag_rule_of (ucs ''selfie'') [49472, 52852] ''person'' [ucs ''selfie'', ucs ''self portrait'']
          90 [ucs ''person''],
      tag_rule_of (ucs ''group'') [45800, 52404] ''person'' [ucs ''group'', ucs ''group of people'',
          ucs ''crowd''] 70 [ucs ''person''],
      tag_rule_of (ucs ''walking'') [44151, 44592] ''activity'' [ucs ''walking'', ucs ''walk''] 50 [],
      tag_rule_of (ucs ''driving'') [50868, 51204] ''activity'' [ucs ''driving'', ucs ''driver''] 50 [],
      tag_rule_of (ucs ''cooking'') [50836, 47532] ''activity'' [ucs ''cooking'', ucs ''cook''] 50 [],
      tag_rule_of (ucs ''swimming'') [49688, 50689] ''activity'' [ucs ''swimming'', ucs ''swimmer''] 70 [],
      tag_rule_of (ucs ''hiking'') [46321, 49328] ''activity'' [ucs ''hiking'', ucs ''trekking''] 70 [],
      tag_rule_of (ucs ''sushi'') [52488, 48165] ''food'' [ucs ''sushi''] 90 [],
      tag_rule_of (ucs ''sashimi'') [54924] ''food'' [ucs ''sashimi''] 90 [],
      tag_rule_of (ucs ''pizza'') [54588, 51088] ''food'' [ucs ''pizza''] 80 [],
      tag_rule_of (ucs ''coffee'') [52964, 54588] ''food'' [ucs ''coffee'', ucs ''cafe'', ucs ''espresso'']
          70 [],
      tag_rule_of (ucs ''dessert'') [46356, 51200, 53944] ''food'' [ucs ''dessert'', ucs ''cake'',
          ucs ''pastry''] 60 [],
      tag_rule_of (ucs ''seafood'') [54644, 49328, 47932] ''food'' [ucs ''seafood'', ucs ''fish slice'',
          [54644, 49328, 47932]] 75 [],
      tag_rule_of (ucs ''alcohol'') [49696] ''food'' [ucs ''alcoholic drink'', ucs ''liquor'', ucs ''alcohol'',
          ucs ''drinking'', [49696]] 70 [],
      tag_rule_of (ucs ''salad'') [49360, 47084, 46300] ''food'' [ucs ''salad'', [49360, 47084, 46300]] 70 [],
      tag_rule_of (ucs ''brunch'') [48652, 47088, 52824] ''food'' [ucs ''brunch'', [48652, 47088, 52824]] 70 [],
      tag_rule_of (ucs ''dog'') [44053, 50500, 51648] ''animal'' [ucs ''dog'', ucs ''puppy'', ucs ''canidae'',
          ucs ''canid'', ucs ''carnivore'', ucs ''carnivores'', ucs ''working animal'', ucs ''german spitz klein'',
          [44053, 50500, 51648], [44060]] 90 [],
      tag_rule_of (ucs ''cat'') [44256, 50577, 51060] ''animal'' [ucs ''cat'', ucs ''kitten'', ucs ''felidae'',
          [44256, 50577, 51060]] 90 [],
      tag_rule_of (ucs ''bird'') [49352] ''animal'' [ucs ''bird'', ucs ''birds'', ucs ''avian'', [49352]] 60 [],
      tag_rule_of (ucs ''fish'') [47932, 44256, 44592] ''animal'' [ucs ''fish'', [47932, 44256, 44592]] 50 [],
      tag_rule_of (ucs ''mountain'') [49328] ''nature'' [ucs ''mountain'', ucs ''mountains'', [49328]] 70 [],
      tag_rule_of (ucs ''sea'') [48148, 45796] ''nature'' [ucs ''sea'', ucs ''ocean'', [48148, 45796]] 60 [],
      tag_rule_of (ucs ''beach'') [54644, 48320] ''nature'' [ucs ''beach'', ucs ''shore'', ucs ''seashore'',
          [54644, 48320]] 80 [],
      tag_rule_of (ucs ''waterfall'') [54253, 54252] ''nature'' [ucs ''waterfall'', [54253, 54252]] 90 [],
      tag_rule_of (ucs ''forest'') [49714] ''nature'' [ucs ''forest'', ucs ''woodland'', [49714]] 70 [],
      tag_rule_of (ucs ''flower'') [44867] ''nature'' [ucs ''flower'', ucs ''flowers'', ucs ''blossom'',
          [44867]] 60 [],
      tag_rule_of (ucs ''snow'') [45576] ''nature'' [ucs ''snow'', ucs ''snowfall'', [45576]] 60 [],
      tag_rule_of (ucs ''wedding'') [44208, 54844, 49885] ''event'' [ucs ''wedding'', ucs ''wedding ceremony'',
          [44208, 54844, 49885]] 90 [],
      tag_rule_of (ucs ''fireworks'') [48520, 44867, 45440, 51060] ''event'' [ucs ''fireworks'',
          ucs ''firework'', [48520, 44867, 45440, 51060]] 90 [],
      tag_rule_of (ucs ''festival'') [52629, 51228] ''event'' [ucs ''festival'', [52629, 51228]] 70 [],
      tag_rule_of (ucs ''car'') [51088, 46041, 52264] ''transport'' [ucs ''car'', ucs ''automobile'',
          ucs ''vehicle'', ucs ''car seat'', ucs ''car door'', ucs ''seat belt'', [51088, 46041, 52264]] 60 [],
      tag_rule_of (ucs ''train'') [44592, 52264] ''transport'' [ucs ''train'', ucs ''railway'',
          ucs ''locomotive'', [44592, 52264]] 70 [],
      tag_rule_of (ucs ''airplane'') [48708, 54665, 44592] ''transport'' [ucs ''airplane'', ucs ''aeroplane'',
          ucs ''aircraft'', [48708, 54665, 44592]] 70 [],
      tag_rule_of (ucs ''boat'') [48176] ''transport'' [ucs ''boat'', ucs ''ship'', ucs ''watercraft'', [48176]]
          60 [],
      tag_rule_of (ucs ''fishing'') [45210, 49884] ''hobby'' [ucs ''fishing'', ucs ''angler'', [45210, 49884]]
          80 [],
      tag_rule_of (ucs ''camping'') [52896, 54609] ''hobby'' [ucs ''camping'', ucs ''campsite'', [52896, 54609]]
          80 [],
      tag_rule_of (ucs ''skiing'') [49828, 53412] ''hobby'' [ucs ''skiing'', ucs ''ski'', [49828, 53412]] 80 [],
      tag_rule_of (ucs ''cycling'') [51088, 51204, 44144] ''hobby'' [ucs ''cycling'', ucs ''bicycle'',
          ucs ''bike'', [51088, 51204, 44144]] 70 [],
      tag_rule_of (ucs ''play'') [45440, 51060] ''hobby'' [ucs ''play'', ucs ''recreation'', [45440, 51060]]
          60 [],
      tag_rule_of (ucs ''toy'') [51109, 45212, 44048] ''hobby'' [ucs ''toy'', ucs ''baby toys'',
          ucs ''toy dog'', [51109, 45212, 44048]] 70 [],
      tag_rule_of (ucs ''figurine'') [54588, 44508, 50612] ''hobby'' [ucs ''figurine'', ucs ''action figure'',
          ucs ''collectable'', [54588, 44508, 50612]] 75 [],
      tag_rule_of (ucs ''temple'') [49324, 52272] ''place'' [ucs ''temple'', ucs ''buddhist temple'',
          [49324, 52272]] 80 [],
      tag_rule_of (ucs ''pagoda'') [53457] ''place'' [ucs ''pagoda'', ucs ''stupa'', [53457]] 70 [],
      tag_rule_of (ucs ''museum'') [48149, 47932, 44288] ''place'' [ucs ''museum'', [48149, 47932, 44288]] 80 [],
      tag_rule_of (ucs ''castle'') [49457] ''place'' [ucs ''castle'', ucs ''fortress'', [49457]] 70 [],
      tag_rule_of (ucs ''amusement_park'') [45440, 51060, 44277, 50896] ''place'' [ucs ''amusement park'',
          ucs ''theme park'', [45440, 51060, 44277, 50896]] 90 [],
      tag_rule_of (ucs ''wetland'') [49845, 51648] ''nature'' [ucs ''wetland'', ucs ''bayou'', [49845, 51648]]
          70 []]"

definition rule_names :: "tag_rule \<Rightarrow> utext list" where
  "rule_names r = vr_canonical r # vr_display r # vr_aliases r"

definition rules_by_alias :: "(utext \<times> tag_rule) list" where
  "rules_by_alias = fold (\<lambda>(a, r). dict_update a (\<lambda>_. r))
     (concat (map (\<lambda>r. map (\<lambda>a. (normalize_tag a, r)) (rule_names r)) vocabulary)) []"

definition rule_for :: "utext \<Rightarrow> tag_rule option" where
  "rule_for name = map_of rules_by_alias (normalize_tag name)"

section \<open>Curating\<close>

record raw_tag =
  rt_name :: utext
  rt_confidence :: "real option"

record curated_tag =
  ct_canonical :: utext
  ct_display :: utext
  ct_category :: string
  ct_confidence :: real
  ct_aliases :: "utext list"
  ct_version :: int

datatype reject_reason =
    BelowConfidence | LowValue | Unmapped | DuplicateCluster | UserPrecedence | MoreSpecificTag
  | StructuredMetadata | DuplicateDisplay | CategoryLimit | MaxTotal

record rejected_tag =
  rj_tag :: raw_tag
  rj_reason :: reject_reason

definition reject :: "raw_tag \<Rightarrow> reject_reason \<Rightarrow> rejected_tag" where
  "reject t reason = \<lparr>rj_tag = t, rj_reason = reason\<rparr>"

definition curation_version :: int where
  "curation_version = 1"

definition confidence_threshold :: real where
  "confidence_threshold = 70"

definition max_tags :: nat where
  "max_tags = 5"

definition category_limit :: "string \<Rightarrow> nat" where
  "category_limit c = (if c \<in> set [''person'', ''food'', ''nature''] then 2 else 1)"

definition low_value_labels :: "utext list" where
  "low_value_labels = [ucs ''blue'', ucs ''yellow'', ucs ''color'', ucs ''flooring'', ucs ''aluminium'', ucs ''aluminum'',
          ucs ''transparency'', ucs ''lens flare'', ucs ''backlighting'', ucs ''comfort'', ucs ''material'',
          ucs ''wood'', ucs ''furniture'', ucs ''tableware'', ucs ''plate'', ucs ''food'', ucs ''ingredient'',
          ucs ''surface'']"

definition confidence_of :: "raw_tag \<Rightarrow> real" where
  "confidence_of t = or_else (rt_confidence t) 0"

type_synonym candidate_tags = "(utext \<times> tag_rule \<times> raw_tag) list"

text \<open>The first loop keeps the best label of each canonical tag.\<close>

definition scan_raw :: "raw_tag \<Rightarrow> rejected_tag list \<times> candidate_tags \<Rightarrow> rejected_tag list \<times> candidate_tags" where
  "scan_raw t acc =
     (let rejected = fst acc; candidates = snd acc; name = normalize_tag (rt_name t)
      in if confidence_of t < confidence_threshold then (rejected @ [reject t BelowConfidence], candidates)
         else if name \<in> set low_value_labels then (rejected @ [reject t LowValue], candidates)
         else (case rule_for (rt_name t) of
           None \<Rightarrow> (rejected @ [reject t Unmapped], candidates)
         | Some r \<Rightarrow> (case map_of candidates (vr_canonical r) of
             None \<Rightarrow> (rejected, dict_update (vr_canonical r) (\<lambda>_. (r, t)) candidates)
           | Some (_, previous) \<Rightarrow>
               if confidence_of t > confidence_of previous then
                 (rejected @ [reject previous DuplicateCluster], dict_update (vr_canonical r) (\<lambda>_. (r, t)) candidates)
               else (rejected @ [reject t DuplicateCluster], candidates))))"

definition ineligible :: "utext list \<Rightarrow> utext list \<Rightarrow> utext list \<Rightarrow> utext \<Rightarrow> tag_rule \<Rightarrow> reject_reason option" where
  "ineligible users structured suppressed canonical r =
     (if canonical \<in> set users then Some UserPrecedence
      else if canonical \<in> set suppressed then Some MoreSpecificTag
      else if list_ex (\<lambda>n. normalize_tag n \<in> set structured) (rule_names r) then Some StructuredMetadata
      else None)"

text \<open>The second loop splits the candidates, the third takes them in the order of their rank.\<close>

definition select_tag ::
  "tag_rule \<times> raw_tag \<Rightarrow> rejected_tag list \<times> (tag_rule \<times> raw_tag) list \<Rightarrow> rejected_tag list \<times> (tag_rule \<times> raw_tag) list" where
  "select_tag c acc =
     (let rejected = fst acc; selected = snd acc; r = fst c
      in if normalize_tag (vr_display r) \<in> set (map (\<lambda>s. normalize_tag (vr_display (fst s))) selected) then
           (rejected @ [reject (snd c) DuplicateDisplay], selected)
         else if category_limit (vr_category r) \<le> count_where (\<lambda>s. vr_category (fst s) = vr_category r) selected then
           (rejected @ [reject (snd c) CategoryLimit], selected)
         else if max_tags \<le> length selected then (rejected @ [reject (snd c) MaxTotal], selected)
         else (rejected, selected @ [c]))"

definition curated_of :: "tag_rule \<times> raw_tag \<Rightarrow> curated_tag" where
  "curated_of c = (let r = fst c in \<lparr>ct_canonical = vr_canonical r, ct_display = vr_display r, ct_category = vr_category r,
     ct_confidence = confidence_of (snd c), ct_aliases = vr_aliases r, ct_version = curation_version\<rparr>)"

definition user_canonicals :: "utext list \<Rightarrow> utext list" where
  "user_canonicals names = map vr_canonical (List.map_filter rule_for names)"

definition split_candidates :: "utext list \<Rightarrow> utext list \<Rightarrow> candidate_tags \<Rightarrow> rejected_tag list \<times> (tag_rule \<times> raw_tag) list" where
  "split_candidates users terms candidates =
     (let structured = map normalize_tag (filter (\<lambda>t. t \<noteq> []) terms);
          suppressed = concat (map (\<lambda>(_, r, _). vr_suppresses r) candidates);
          why = (\<lambda>c. ineligible (user_canonicals users) structured suppressed (fst c) (fst (snd c)))
      in (List.map_filter (\<lambda>c. map_option (reject (snd (snd c))) (why c)) candidates,
          map snd (filter (\<lambda>c. why c = None) candidates)))"

definition curate_pairs :: "raw_tag list \<Rightarrow> utext list \<Rightarrow> utext list \<Rightarrow> rejected_tag list \<times> (tag_rule \<times> raw_tag) list" where
  "curate_pairs raw users terms =
     (let scanned = fold scan_raw raw ([], []);
          parts = split_candidates users terms (snd scanned);
          ranked = order_by (\<lambda>(r, t). (- vr_priority r, - confidence_of t)) (snd parts)
      in fold select_tag ranked (fst scanned @ fst parts, []))"

definition curate :: "raw_tag list \<Rightarrow> utext list \<Rightarrow> utext list \<Rightarrow> curated_tag list \<times> rejected_tag list" where
  "curate raw users terms = (let found = curate_pairs raw users terms in (map curated_of (snd found), fst found))"

section \<open>Searching\<close>

definition matching_rules :: "utext \<Rightarrow> tag_rule list" where
  "matching_rules normalized =
     map snd (filter (\<lambda>(a, _). contains normalized a \<or> contains a normalized) rules_by_alias)"

definition search_terms :: "utext \<Rightarrow> utext list" where
  "search_terms value =
     (let normalized = normalize_tag value; rules = matching_rules normalized
      in if normalized = [] then []
         else if rules = [] then [u_strip value]
         else order_by (\<lambda>t. (length t, t)) (remdups (filter (\<lambda>t. t \<noteq> []) (u_strip value # concat (map rule_names rules)))))"

end
