(* ===== verification/TagTables.thy ===== *)
theory TagTables
  imports MkFiles TagCuration NumText
begin

text \<open>
  The tables of MemoryKeeper's tags (\<open>src/app/memorykeeper/models/tag.py\<close>,
  \<open>tag_canonical_override.py\<close>, \<open>file_tag_suppression.py\<close> and
  \<open>src/app/common/models/file_tag.py\<close>) and the writes its services share.

  Sessions run with \<open>autoflush=False\<close> (\<open>src/app/common/database.py\<close>): a query filters the
  rows the database holds, while the objects it returns carry the changes of the session. The
  only table whose rows a request changes and then filters is that of the overrides, so
  \<open>overrides\<close> are the objects of the session and \<open>stored_overrides\<close> the rows of the
  database; a flush, which every change event brings, stores the objects.
\<close>

section \<open>Rows\<close>

datatype tag_source = AiSource | UserSource

datatype tag_type = AiTag | AstroTag | UserTag | SystemTag

record mk_tag =
  tg_id :: int
  tg_name :: utext
  tg_normalized :: "utext option"
  tg_type :: tag_type
  tg_source :: tag_source
  tg_favorite :: bool
  tg_revision :: int
  tg_deleted :: bool
  tg_updated_at :: time

record file_tag =
  rl_id :: int
  rl_file :: int
  rl_tag :: "int option"
  rl_name :: utext
  rl_type :: tag_type
  rl_source :: tag_source
  rl_confidence :: "real option"
  rl_deleted :: bool

record tag_override =
  ov_key :: utext
  ov_tag :: "int option"
  ov_suppressed :: bool
  ov_revision :: int

record tag_suppression =
  su_file :: int
  su_key :: utext
  su_revision :: int
  su_deleted :: bool

record tag_state =
  core :: mk_state
  tags :: "mk_tag list"
  file_tags :: "file_tag list"
  overrides :: "tag_override list"
  stored_overrides :: "tag_override list"
  suppressions :: "tag_suppression list"

text \<open>An identity of the catalog: \<open>tag:<id>\<close>, \<open>ai:<canonical>\<close> or \<open>legacy:<digest>\<close>.\<close>

datatype tag_identity = TagIdentity int | AiIdentity utext | LegacyIdentity utext

datatype tag_error =
    TagNotFound                                  \<comment> \<open>404\<close>
  | DuplicateTagName utext                       \<comment> \<open>409\<close>
  | TagConflict int int int                      \<comment> \<open>409: tag, expected, current\<close>
  | SameTags                                     \<comment> \<open>422\<close>
  | RelationNotFound                             \<comment> \<open>404\<close>
  | TagFileNotFound                              \<comment> \<open>404\<close>
  | TagFileConflict string int int               \<comment> \<open>409: file, expected, current\<close>
  | IdentityNotFound tag_identity                \<comment> \<open>404\<close>
  | IdentityConflict tag_identity int int        \<comment> \<open>409: identity, expected, current\<close>
  | FileIdentityNotFound string tag_identity     \<comment> \<open>404\<close>
  | TagUncaught                                  \<comment> \<open>500: TypeError, ValueError, RuntimeError or IntegrityError\<close>

section \<open>Shared writes\<close>

definition next_id :: "int list \<Rightarrow> int" where
  "next_id ids = 1 + fold max ids 0"

definition flush :: "tag_state \<Rightarrow> tag_state" where
  "flush d = d\<lparr>stored_overrides := overrides d\<rparr>"

definition tag_event :: "time \<Rightarrow> string \<Rightarrow> string \<Rightarrow> change_operation \<Rightarrow> int option \<Rightarrow> bool \<Rightarrow> tag_state \<Rightarrow> tag_state" where
  "tag_event now resource resource_id operation revision tombstone d =
     flush (d\<lparr>core := mk_change now resource resource_id operation revision tombstone (core d)\<rparr>)"

definition put_tag :: "mk_tag \<Rightarrow> tag_state \<Rightarrow> tag_state" where
  "put_tag t d = d\<lparr>tags := save_row tg_id t (tags d)\<rparr>"

definition put_relation :: "file_tag \<Rightarrow> tag_state \<Rightarrow> tag_state" where
  "put_relation r d = d\<lparr>file_tags := save_row rl_id r (file_tags d)\<rparr>"

definition put_file_state :: "file_state \<Rightarrow> tag_state \<Rightarrow> tag_state" where
  "put_file_state s d = d\<lparr>core := put_state s (core d)\<rparr>"

definition user_relation :: "int \<Rightarrow> int \<Rightarrow> mk_tag \<Rightarrow> file_tag" where
  "user_relation i file t = \<lparr>rl_id = i, rl_file = file, rl_tag = Some (tg_id t), rl_name = tg_name t, rl_type = UserTag,
     rl_source = UserSource, rl_confidence = None, rl_deleted = False\<rparr>"

definition find_relation :: "int \<Rightarrow> int \<Rightarrow> tag_state \<Rightarrow> file_tag option" where
  "find_relation file tag d = List.find (\<lambda>r. rl_file r = file \<and> rl_tag r = Some tag) (file_tags d)"

text \<open>
  The live relation of a file to a tag: a new row, or the row there is made live, and whether
  it is new.
\<close>

definition link_tag :: "int \<Rightarrow> mk_tag \<Rightarrow> tag_state \<Rightarrow> bool \<times> tag_state" where
  "link_tag file t d =
     (case find_relation file (tg_id t) d of
        None \<Rightarrow> (True, flush (d\<lparr>file_tags := file_tags d @ [user_relation (next_id (map rl_id (file_tags d))) file t]\<rparr>))
      | Some r \<Rightarrow> (False, put_relation (user_relation (rl_id r) file t) d))"

text \<open>The state of a file, created or projected when it is missing; the link is required then.\<close>

definition tag_file_state :: "time \<Rightarrow> common_file \<Rightarrow> tag_state \<Rightarrow> tag_error + tag_state \<times> file_state" where
  "tag_file_state now f d =
     (let stale = (case state_of (core d) (cf_id f) of None \<Rightarrow> True | Some s \<Rightarrow> st_datetime s = None \<and> st_basis s = None)
      in raise_if (stale \<and> \<not> mk_linked (core d) (cf_id f)) TagUncaught
           (case get_or_create_state now f (core d) of
              None \<Rightarrow> Inl TagUncaught
            | Some c \<Rightarrow> (case state_of c (cf_id f) of
                None \<Rightarrow> Inl TagUncaught
              | Some s \<Rightarrow> Inr (d\<lparr>core := c\<rparr>, s))))"

definition bumped :: "time \<Rightarrow> file_state \<Rightarrow> file_state" where
  "bumped now s = s\<lparr>st_revision := st_revision s + 1, st_updated_at := now\<rparr>"

text \<open>The file, its state and its revision as the client saw it.\<close>

definition lock_file :: "time \<Rightarrow> string \<Rightarrow> int \<Rightarrow> tag_state \<Rightarrow> tag_error + tag_state \<times> common_file \<times> file_state" where
  "lock_file now file expected d =
     (case mk_file (core d) file of
        None \<Rightarrow> Inl TagFileNotFound
      | Some f \<Rightarrow> and_then (tag_file_state now f d) (\<lambda>(d, s).
          raise_if (st_revision s \<noteq> expected) (TagFileConflict file expected (st_revision s)) (Inr (d, f, s))))"

end
