(* ===== verification/TagService.thy ===== *)
theory TagService
  imports TagTables
begin

text \<open>
  The tags users manage (\<open>src/app/memorykeeper/services/tag_service.py\<close> with
  \<open>schemas/tag.py\<close>): the catalogue of tags and their relations to photos. A request takes
  the committed state and gives an error, which rolls back, or the state it commits.
\<close>

section \<open>Payloads\<close>

definition clean_name :: "utext \<Rightarrow> utext" where
  "clean_name s = u_collapse False (u_strip s)"

definition validate_name :: "utext \<Rightarrow> utext option" where
  "validate_name s =
     (if 1 \<le> length s \<and> length s \<le> 100 \<and> clean_name s \<noteq> [] then Some (clean_name s) else None)"

text \<open>The fields the client set, each null or a value.\<close>

record tag_patch =
  tp_revision :: int
  tp_name :: "utext option option"
  tp_favorite :: "bool option option"

definition validate_patch :: "tag_patch \<Rightarrow> tag_patch option" where
  "validate_patch t =
     (case (case tp_name t of Some (Some n) \<Rightarrow> map_option (\<lambda>n. Some (Some n)) (validate_name n) | n \<Rightarrow> Some n) of
        None \<Rightarrow> None
      | Some name \<Rightarrow> if 1 \<le> tp_revision t \<and> (name \<noteq> None \<or> tp_favorite t \<noteq> None) \<and> tp_favorite t \<noteq> Some None
                      then Some (t\<lparr>tp_name := name\<rparr>) else None)"

record tag_merge =
  tm_source_revision :: int
  tm_target :: int
  tm_target_revision :: int

section \<open>Lookups\<close>

definition find_normalized :: "utext \<Rightarrow> bool \<Rightarrow> tag_state \<Rightarrow> mk_tag option" where
  "find_normalized normalized include_deleted d =
     (let rows = filter (\<lambda>t. include_deleted \<or> \<not> tg_deleted t) (tags d)
      in case List.find (\<lambda>t. tg_normalized t = Some normalized) rows of
           Some t \<Rightarrow> Some t
         | None \<Rightarrow> List.find (\<lambda>t. (tg_normalized t = None \<or> tg_normalized t = Some []) \<and> normalize_tag (tg_name t) = normalized) rows)"

definition any_tag :: "int \<Rightarrow> tag_state \<Rightarrow> mk_tag option" where
  "any_tag i d = find_row tg_id i (tags d)"

definition live_tag :: "int \<Rightarrow> tag_state \<Rightarrow> mk_tag option" where
  "live_tag i d = find_row tg_id i (filter (\<lambda>t. \<not> tg_deleted t) (tags d))"

definition get_tag :: "int \<Rightarrow> tag_state \<Rightarrow> tag_error + mk_tag" where
  "get_tag i d = (case live_tag i d of None \<Rightarrow> Inl TagNotFound | Some t \<Rightarrow> Inr t)"

definition usage_count :: "tag_state \<Rightarrow> int \<Rightarrow> nat" where
  "usage_count d i = count_where (\<lambda>r. rl_tag r = Some i \<and> \<not> rl_deleted r \<and> active_file (core d) (rl_file r) \<and>
     mk_linked (core d) (rl_file r)) (file_tags d)"

text \<open>\<open>ILIKE\<close>: \<open>%\<close> stands for any text and \<open>_\<close> for one character; case is ignored.\<close>

fun like :: "utext \<Rightarrow> utext \<Rightarrow> bool" where
  "like [] s = (s = [])"
| "like (p # ps) [] = (p = 37 \<and> like ps [])"
| "like (p # ps) (c # s) =
     (if p = 37 then like ps (c # s) \<or> like (p # ps) s else (p = 95 \<or> p = c) \<and> like ps s)"

definition list_tags :: "utext option \<Rightarrow> bool option \<Rightarrow> nat \<Rightarrow> nat \<Rightarrow> tag_state \<Rightarrow> (mk_tag \<times> nat) list \<times> nat" where
  "list_tags query favorite limit offset d =
     (let rows = filter (\<lambda>t. \<not> tg_deleted t \<and>
            (case query of None \<Rightarrow> True | Some q \<Rightarrow> q = [] \<or> like (u_lower ([37] @ u_strip q @ [37])) (u_lower (tg_name t))) \<and>
            (case favorite of None \<Rightarrow> True | Some b \<Rightarrow> tg_favorite t = b)) (tags d);
          rows = order_by (\<lambda>t. (\<not> tg_favorite t, tg_name t, tg_id t)) rows
      in (map (\<lambda>t. (t, usage_count d (tg_id t))) (take limit (drop offset rows)), length rows))"

section \<open>Events\<close>

definition tag_change :: "time \<Rightarrow> mk_tag \<Rightarrow> change_operation \<Rightarrow> bool \<Rightarrow> tag_state \<Rightarrow> tag_state" where
  "tag_change now t operation tombstone d =
     tag_event now ''MemoryKeeperTag'' (str_int (tg_id t)) operation (Some (tg_revision t)) tombstone d"

definition opt_int_text :: "int option \<Rightarrow> string" where
  "opt_int_text x = (case x of None \<Rightarrow> ''None'' | Some i \<Rightarrow> str_int i)"

definition relation_change :: "time \<Rightarrow> file_tag \<Rightarrow> change_operation \<Rightarrow> int option \<Rightarrow> bool \<Rightarrow> tag_state \<Rightarrow> tag_state" where
  "relation_change now r operation revision tombstone d =
     tag_event now ''MemoryKeeperFileTag''
       ((case find_row cf_id (rl_file r) (files (base (core d))) of None \<Rightarrow> str_int (rl_file r) | Some f \<Rightarrow> cf_file_id f) @
        '':'' @ opt_int_text (rl_tag r)) operation revision tombstone d"

text \<open>The next revision of a file, if the file exists.\<close>

definition touch_file :: "time \<Rightarrow> int \<Rightarrow> tag_state \<Rightarrow> tag_error + tag_state \<times> int option" where
  "touch_file now file d =
     (case find_row cf_id file (files (base (core d))) of
        None \<Rightarrow> Inr (d, None)
      | Some f \<Rightarrow> and_then (tag_file_state now f d) (\<lambda>(d, s).
          Inr (put_file_state (bumped now s) d, Some (st_revision s + 1))))"

section \<open>Creating and updating\<close>

definition new_tag :: "time \<Rightarrow> int \<Rightarrow> utext \<Rightarrow> bool \<Rightarrow> mk_tag" where
  "new_tag now i name favorite = \<lparr>tg_id = i, tg_name = name, tg_normalized = Some (normalize_tag name), tg_type = UserTag,
     tg_source = UserSource, tg_favorite = favorite, tg_revision = 1, tg_deleted = False, tg_updated_at = now\<rparr>"

text \<open>The unique indexes on the name and the normalized name.\<close>

definition name_taken :: "mk_tag \<Rightarrow> tag_state \<Rightarrow> bool" where
  "name_taken t d \<longleftrightarrow> exists_row (\<lambda>u. tg_id u \<noteq> tg_id t \<and>
     (tg_name u = tg_name t \<or> (tg_normalized u = tg_normalized t \<and> tg_normalized t \<noteq> None))) (tags d)"

definition create_tag :: "time \<Rightarrow> utext \<Rightarrow> bool \<Rightarrow> tag_state \<Rightarrow> tag_error + tag_state \<times> mk_tag" where
  "create_tag now name favorite d =
     (let t = new_tag now (next_id (map tg_id (tags d))) name favorite
      in raise_if (find_normalized (normalize_tag name) True d \<noteq> None) (DuplicateTagName name)
           (raise_if (name_taken t d) (DuplicateTagName name)
             (Inr (tag_change now t CREATE False (d\<lparr>tags := tags d @ [t]\<rparr>), t))))"

definition rename_relations :: "mk_tag \<Rightarrow> tag_state \<Rightarrow> tag_state" where
  "rename_relations t d =
     d\<lparr>file_tags := update_where (\<lambda>r. rl_tag r = Some (tg_id t)) (\<lambda>r. r\<lparr>rl_name := tg_name t\<rparr>) (file_tags d)\<rparr>"

definition finish_update :: "time \<Rightarrow> tag_patch \<Rightarrow> mk_tag \<Rightarrow> tag_state \<Rightarrow> tag_error + tag_state \<times> mk_tag" where
  "finish_update now payload t d =
     (let t = t\<lparr>tg_favorite := or_else (Option.bind (tp_favorite payload) id) (tg_favorite t),
                tg_revision := tg_revision t + 1, tg_updated_at := now\<rparr>
      in raise_if (name_taken t d) (DuplicateTagName (tg_name t))
           (Inr (tag_change now t UPDATE False (put_tag t d), t)))"

definition update_tag :: "time \<Rightarrow> int \<Rightarrow> tag_patch \<Rightarrow> tag_state \<Rightarrow> tag_error + tag_state \<times> mk_tag" where
  "update_tag now i payload d =
     and_then (get_tag i d) (\<lambda>t.
       raise_if (tg_revision t \<noteq> tp_revision payload) (TagConflict i (tp_revision payload) (tg_revision t))
         (case tp_name payload of
            None \<Rightarrow> finish_update now payload t d
          | Some None \<Rightarrow> Inl TagUncaught
          | Some (Some name) \<Rightarrow>
              let duplicate = find_normalized (normalize_tag name) True d;
                  t = t\<lparr>tg_name := name, tg_normalized := Some (normalize_tag name)\<rparr>
              in raise_if (\<exists>u. duplicate = Some u \<and> tg_id u \<noteq> i) (DuplicateTagName name)
                   (finish_update now payload t (rename_relations t d))))"

section \<open>Deleting\<close>

definition drop_relation :: "time \<Rightarrow> file_tag \<Rightarrow> tag_state \<Rightarrow> tag_error + tag_state" where
  "drop_relation now r d =
     and_then (touch_file now (rl_file r) (put_relation (r\<lparr>rl_deleted := True\<rparr>) d)) (\<lambda>(d, revision).
       Inr (relation_change now r DELETE revision True d))"

text \<open>The overrides whose stored rows point at a tag.\<close>

definition update_overrides :: "int \<Rightarrow> int option \<Rightarrow> bool \<Rightarrow> tag_state \<Rightarrow> tag_state" where
  "update_overrides i target suppressed d =
     (let keys = map ov_key (filter (\<lambda>v. ov_tag v = Some i) (stored_overrides d))
      in d\<lparr>overrides := update_where (\<lambda>v. ov_key v \<in> set keys)
             (\<lambda>v. v\<lparr>ov_tag := target, ov_suppressed := suppressed, ov_revision := ov_revision v + 1\<rparr>) (overrides d)\<rparr>)"

definition retired :: "time \<Rightarrow> mk_tag \<Rightarrow> mk_tag" where
  "retired now t = t\<lparr>tg_deleted := True, tg_revision := tg_revision t + 1, tg_updated_at := now\<rparr>"

definition delete_tag :: "time \<Rightarrow> int \<Rightarrow> int \<Rightarrow> tag_state \<Rightarrow> tag_error + tag_state" where
  "delete_tag now i expected d =
     and_then (get_tag i d) (\<lambda>t.
       raise_if (tg_revision t \<noteq> expected) (TagConflict i expected (tg_revision t))
         (and_then (for_each (drop_relation now) (filter (\<lambda>r. rl_tag r = Some i \<and> \<not> rl_deleted r) (file_tags d)) d)
           (\<lambda>d. Inr (tag_change now (retired now t) DELETE True (put_tag (retired now t) (update_overrides i None True d))))))"

section \<open>Merging\<close>

definition merge_relation :: "time \<Rightarrow> mk_tag \<Rightarrow> file_tag \<Rightarrow> tag_state \<Rightarrow> tag_error + tag_state" where
  "merge_relation now target r d =
     and_then
       (if rl_deleted r then Inr d
        else let (created, d) = link_tag (rl_file r) target d
             in and_then (touch_file now (rl_file r) d) (\<lambda>(d, revision).
                  Inr (relation_change now (user_relation 0 (rl_file r) target) UPDATE revision False d)))
       (\<lambda>d. Inr (put_relation (r\<lparr>rl_deleted := True\<rparr>) d))"

definition merge_tags :: "time \<Rightarrow> int \<Rightarrow> tag_merge \<Rightarrow> tag_state \<Rightarrow> tag_error + tag_state \<times> mk_tag" where
  "merge_tags now i payload d =
     raise_if (i = tm_target payload) SameTags
       (and_then (get_tag i d) (\<lambda>source. and_then (get_tag (tm_target payload) d) (\<lambda>target.
         raise_if (tg_revision source \<noteq> tm_source_revision payload)
             (TagConflict i (tm_source_revision payload) (tg_revision source))
           (raise_if (tg_revision target \<noteq> tm_target_revision payload)
               (TagConflict (tg_id target) (tm_target_revision payload) (tg_revision target))
             (and_then (for_each (merge_relation now target) (filter (\<lambda>r. rl_tag r = Some i) (file_tags d)) d)
               (\<lambda>d. let source = retired now source;
                        target = target\<lparr>tg_revision := tg_revision target + 1, tg_updated_at := now\<rparr>;
                        d = update_overrides i (Some (tg_id target)) False (put_tag target (put_tag source d))
                    in Inr (tag_change now target UPDATE False (tag_change now source DELETE True d), target)))))))"

section \<open>Photos\<close>

definition restore_suppressions :: "int \<Rightarrow> mk_tag \<Rightarrow> tag_state \<Rightarrow> tag_state" where
  "restore_suppressions file t d =
     (let keys = map ov_key (filter (\<lambda>v. ov_tag v = Some (tg_id t) \<and> \<not> ov_suppressed v) (stored_overrides d)) @
                 (case rule_for (tg_name t) of None \<Rightarrow> [] | Some r \<Rightarrow> [vr_canonical r])
      in d\<lparr>suppressions := update_where (\<lambda>s. su_file s = file \<and> su_key s \<in> set keys \<and> \<not> su_deleted s)
             (\<lambda>s. s\<lparr>su_deleted := True, su_revision := su_revision s + 1\<rparr>) (suppressions d)\<rparr>)"

definition finish_relation :: "time \<Rightarrow> file_tag \<Rightarrow> change_operation \<Rightarrow> bool \<Rightarrow> file_state \<Rightarrow> tag_state \<Rightarrow> tag_state" where
  "finish_relation now r operation tombstone s d =
     relation_change now r operation (Some (st_revision s + 1)) tombstone (put_file_state (bumped now s) d)"

definition assign_tag :: "time \<Rightarrow> string \<Rightarrow> int \<Rightarrow> int \<Rightarrow> tag_state \<Rightarrow> tag_error + tag_state" where
  "assign_tag now file i expected d =
     and_then (lock_file now file expected d) (\<lambda>(d, f, s). and_then (get_tag i d) (\<lambda>t.
       let (created, d) = link_tag (cf_id f) t (restore_suppressions (cf_id f) t d)
       in Inr (finish_relation now (user_relation 0 (cf_id f) t) (if created then CREATE else UPDATE) False s d)))"

definition remove_tag :: "time \<Rightarrow> string \<Rightarrow> int \<Rightarrow> int \<Rightarrow> tag_state \<Rightarrow> tag_error + tag_state" where
  "remove_tag now file i expected d =
     and_then (lock_file now file expected d) (\<lambda>(d, f, s).
       raise_if (any_tag i d = None) TagNotFound
         (case List.find (\<lambda>r. rl_file r = cf_id f \<and> rl_tag r = Some i \<and> \<not> rl_deleted r) (file_tags d) of
            None \<Rightarrow> Inl RelationNotFound
          | Some r \<Rightarrow> Inr (finish_relation now r DELETE True s (put_relation (r\<lparr>rl_deleted := True\<rparr>) d))))"

end
