(* ===== verification/TagCatalog.thy ===== *)
theory TagCatalog
  imports TagService
begin

text \<open>
  The unified catalogue of user tags and curated automatic tags
  (\<open>src/app/memorykeeper/services/tag_catalog_service.py\<close>) and the visibility of a tag on one
  photo (\<open>file_tag_visibility_service.py\<close>). The catalogue is a dict from identities to
  entries; its sets are lists without repetitions, in the order of insertion. The digest of a
  legacy name (SHA-256, sixteen digits) is the parameter \<open>digest\<close>. The year among the
  structured terms is that of the UTC clock.
\<close>

section \<open>Entries\<close>

record catalog_entry =
  en_name :: utext
  en_favorite :: bool
  en_revision :: int
  en_canonicals :: "utext list"
  en_files :: "int list"

type_synonym catalog = "(tag_identity \<times> catalog_entry) list"

definition new_entry :: "utext \<Rightarrow> mk_tag option \<Rightarrow> catalog_entry" where
  "new_entry name master = \<lparr>en_name = name, en_favorite = (case master of None \<Rightarrow> False | Some t \<Rightarrow> tg_favorite t),
     en_revision = (case master of None \<Rightarrow> 1 | Some t \<Rightarrow> tg_revision t), en_canonicals = [], en_files = []\<rparr>"

definition add_all :: "'a list \<Rightarrow> 'a list \<Rightarrow> 'a list" where
  "add_all xs ys = fold List.insert xs ys"

definition at_entry :: "tag_identity \<Rightarrow> utext \<Rightarrow> mk_tag option \<Rightarrow> (catalog_entry \<Rightarrow> catalog_entry) \<Rightarrow> catalog \<Rightarrow> catalog" where
  "at_entry identity name master g entries =
     dict_update identity (\<lambda>e. g (case e of None \<Rightarrow> new_entry name master | Some e \<Rightarrow> e)) entries"

definition refer_to :: "utext list \<Rightarrow> catalog_entry \<Rightarrow> catalog_entry" where
  "refer_to canonicals e = e\<lparr>en_canonicals := add_all canonicals (en_canonicals e)\<rparr>"

definition add_file :: "int \<Rightarrow> catalog_entry \<Rightarrow> catalog_entry" where
  "add_file i e = e\<lparr>en_files := List.insert i (en_files e)\<rparr>"

definition drop_file :: "int \<Rightarrow> catalog_entry \<Rightarrow> catalog_entry" where
  "drop_file i e = e\<lparr>en_files := filter (\<lambda>j. j \<noteq> i) (en_files e)\<rparr>"

definition active_tags :: "tag_state \<Rightarrow> mk_tag list" where
  "active_tags d = filter (\<lambda>t. \<not> tg_deleted t) (tags d)"

definition masters_by_name :: "tag_state \<Rightarrow> (utext \<times> mk_tag) list" where
  "masters_by_name d = fold (\<lambda>t. dict_update (normalize_tag (tg_name t)) (\<lambda>_. t)) (active_tags d) []"

definition override_of :: "tag_state \<Rightarrow> utext \<Rightarrow> tag_override option" where
  "override_of d key = find_row ov_key key (overrides d)"

definition suppressed_keys :: "tag_state \<Rightarrow> int \<Rightarrow> utext list" where
  "suppressed_keys d file = map su_key (filter (\<lambda>s. su_file s = file \<and> \<not> su_deleted s) (suppressions d))"

definition canonical_references :: "tag_state \<Rightarrow> mk_tag \<Rightarrow> utext list" where
  "canonical_references d t =
     map ov_key (filter (\<lambda>v. \<not> ov_suppressed v \<and> ov_tag v = Some (tg_id t)) (overrides d)) @
     (case rule_for (tg_name t) of None \<Rightarrow> [] | Some r \<Rightarrow> [vr_canonical r])"

definition rule_references :: "utext \<Rightarrow> utext list" where
  "rule_references name = (case rule_for name of None \<Rightarrow> [] | Some r \<Rightarrow> [vr_canonical r])"

text \<open>The identity and the master of a user relation: its tag, or the tag of its name.\<close>

definition relation_master :: "tag_state \<Rightarrow> file_tag \<Rightarrow> mk_tag option" where
  "relation_master d r =
     (case Option.bind (rl_tag r) (\<lambda>i. live_tag i d) of
        Some t \<Rightarrow> Some t
      | None \<Rightarrow> map_of (masters_by_name d) (normalize_tag (rl_name r)))"

definition hidden_on :: "tag_state \<Rightarrow> int \<Rightarrow> utext list \<Rightarrow> bool" where
  "hidden_on d file canonicals \<longleftrightarrow> list_ex (\<lambda>c. c \<in> set (suppressed_keys d file)) canonicals"

definition show_unless_hidden :: "tag_state \<Rightarrow> int \<Rightarrow> catalog_entry \<Rightarrow> catalog_entry" where
  "show_unless_hidden d file e = (if hidden_on d file (en_canonicals e) then e else add_file file e)"

definition add_relation :: "(utext \<Rightarrow> utext) \<Rightarrow> tag_state \<Rightarrow> file_tag \<Rightarrow> catalog \<Rightarrow> catalog" where
  "add_relation digest d r entries =
     (if rl_source r \<noteq> UserSource \<or> rl_deleted r then entries
      else case relation_master d r of
        Some t \<Rightarrow> at_entry (TagIdentity (tg_id t)) (tg_name t) (Some t)
                    (\<lambda>e. show_unless_hidden d (rl_file r) (refer_to (canonical_references d t) e)) entries
      | None \<Rightarrow> at_entry (LegacyIdentity (digest (normalize_tag (rl_name r)))) (rl_name r) None
                    (\<lambda>e. show_unless_hidden d (rl_file r) (refer_to (rule_references (rl_name r)) e)) entries)"

text \<open>\<open>legacy_by_name\<close>: the normalized names the first loop gave a legacy identity.\<close>

definition legacy_names :: "tag_state \<Rightarrow> file_tag list \<Rightarrow> utext list" where
  "legacy_names d rs = map (\<lambda>r. normalize_tag (rl_name r))
     (filter (\<lambda>r. rl_source r = UserSource \<and> \<not> rl_deleted r \<and> relation_master d r = None) rs)"

definition structured_terms :: "file_metadata option \<Rightarrow> utext list" where
  "structured_terms m =
     (case m of
        None \<Rightarrow> []
      | Some m \<Rightarrow>
          map ucs (filter (\<lambda>s. s \<noteq> []) (map (\<lambda>v. or_else v []) [md_country m, md_province m, md_city m, md_district m, md_place_name m])) @
          (case md_datetime_original m of None \<Rightarrow> [] | Some t \<Rightarrow> [ucs (str_int (wall_year (utc_wall t)))]))"

definition catalog_files :: "tag_state \<Rightarrow> int list" where
  "catalog_files d = map cf_id (filter (\<lambda>f. \<not> cf_deleted f \<and> mk_linked (core d) (cf_id f)) (files (base (core d))))"

definition file_relations :: "tag_state \<Rightarrow> int \<Rightarrow> file_tag list" where
  "file_relations d i = filter (\<lambda>r. rl_file r = i) (file_tags d)"

definition curated_tags :: "tag_state \<Rightarrow> int \<Rightarrow> curated_tag list" where
  "curated_tags d i =
     fst (curate
       (map (\<lambda>r. \<lparr>rt_name = rl_name r, rt_confidence = rl_confidence r\<rparr>)
         (filter (\<lambda>r. rl_source r = AiSource \<and> \<not> rl_deleted r) (file_relations d i)))
       (map rl_name (filter (\<lambda>r. rl_source r = UserSource) (file_relations d i)))
       (structured_terms (metadata_of (core d) i)))"

definition projection_target :: "tag_state \<Rightarrow> curated_tag \<Rightarrow> mk_tag option" where
  "projection_target d c =
     (case Option.bind (override_of d (ct_canonical c)) ov_tag of
        Some i \<Rightarrow> live_tag i d
      | None \<Rightarrow> map_of (masters_by_name d) (normalize_tag (ct_display c)))"

definition suppressed_everywhere :: "tag_state \<Rightarrow> utext \<Rightarrow> bool" where
  "suppressed_everywhere d key = (case override_of d key of None \<Rightarrow> False | Some v \<Rightarrow> ov_suppressed v)"

definition add_curated :: "(utext \<Rightarrow> utext) \<Rightarrow> tag_state \<Rightarrow> utext list \<Rightarrow> int \<Rightarrow> curated_tag \<Rightarrow> catalog \<Rightarrow> catalog" where
  "add_curated digest d legacy file c entries =
     (if suppressed_everywhere d (ct_canonical c) then entries
      else let g = (\<lambda>e. let e = refer_to [ct_canonical c] (add_file file e)
                        in if ct_canonical c \<in> set (suppressed_keys d file) then drop_file file e else e);
               name = normalize_tag (ct_display c)
           in case projection_target d c of
                Some t \<Rightarrow> at_entry (TagIdentity (tg_id t)) (tg_name t) (Some t) g entries
              | None \<Rightarrow> at_entry (if name \<in> set legacy then LegacyIdentity (digest name) else AiIdentity (ct_canonical c))
                          (ct_display c) None g entries)"

definition add_override :: "tag_state \<Rightarrow> tag_override \<Rightarrow> catalog \<Rightarrow> catalog" where
  "add_override d v entries =
     (case (if ov_suppressed v then None else Option.bind (ov_tag v) (\<lambda>i. live_tag i d)) of
        None \<Rightarrow> entries
      | Some t \<Rightarrow> at_entry (TagIdentity (tg_id t)) (tg_name t) (Some t) (refer_to [ov_key v]) entries)"

definition catalog_entries :: "(utext \<Rightarrow> utext) \<Rightarrow> tag_state \<Rightarrow> catalog" where
  "catalog_entries digest d =
     (let relations = filter (\<lambda>r. rl_file r \<in> set (catalog_files d)) (file_tags d);
          entries = fold (add_relation digest d) relations [];
          entries = fold (\<lambda>i. fold (add_curated digest d (legacy_names d relations) i) (curated_tags d i)) (catalog_files d) entries;
          entries = fold (\<lambda>t. at_entry (TagIdentity (tg_id t)) (tg_name t) (Some t) (refer_to (canonical_references d t)))
                      (active_tags d) entries
      in fold (add_override d) (overrides d) entries)"

definition require_entry :: "(utext \<Rightarrow> utext) \<Rightarrow> tag_identity \<Rightarrow> tag_state \<Rightarrow> tag_error + catalog_entry" where
  "require_entry digest identity d =
     (case map_of (catalog_entries digest d) identity of None \<Rightarrow> Inl (IdentityNotFound identity) | Some e \<Rightarrow> Inr e)"

end
