(* ===== verification/UploadLog.thy ===== *)
theory UploadLog
  imports PyText
begin

text \<open>
  The processing log of an upload job, a text column whose lines the workers end with the two
  characters backslash and n (\<open>upload_job_repository.py\<close>), and what the status API reads out
  of it (\<open>src/app/common/services/upload_job_service.py\<close>, \<open>upload_validation.py\<close>): the
  worker of the last claim, the current plugin, the progress and the failure code. The lemmas
  show that the worker written by a claim is the worker read back, and that progress never
  goes back while the log grows.
\<close>

section \<open>Lines\<close>

definition log_end :: string where
  "log_end = [CHR 92, CHR ''n'']"

definition log_line :: "string \<Rightarrow> string" where
  "log_line s = s @ log_end"

text \<open>\<open>replace("\\n", "\n")\<close> of the source: the two characters become a line break.\<close>

fun unescape_log :: "string \<Rightarrow> string" where
  "unescape_log (a # b # s) =
     (if a = CHR 92 \<and> b = CHR ''n'' then CHR 10 # unescape_log s else a # unescape_log (b # s))"
| "unescape_log [c] = [c]"
| "unescape_log [] = []"

definition is_line_break :: "char \<Rightarrow> bool" where
  "is_line_break c \<longleftrightarrow> (let n = of_char c :: nat in
     (10 \<le> n \<and> n \<le> 13) \<or> (28 \<le> n \<and> n \<le> 30) \<or> n = 133)"

fun break_lines :: "string \<Rightarrow> string list" where
  "break_lines [] = [[]]"
| "break_lines (c # s) =
     (if is_line_break c then [] # break_lines s
      else (case break_lines s of [] \<Rightarrow> [[c]] | l # ls \<Rightarrow> (c # l) # ls))"

definition split_log_lines :: "string \<Rightarrow> string list" where
  "split_log_lines lg = filter (\<lambda>l. l \<noteq> []) (map strip (break_lines (unescape_log lg)))"

section \<open>What the lg says\<close>

definition claim_marker :: string where
  "claim_marker = ''CLAIMED worker=''"

definition is_worker_char :: "char \<Rightarrow> bool" where
  "is_worker_char c \<longleftrightarrow> \<not> is_space c \<and> c \<noteq> CHR 92"

text \<open>\<open>re.findall\<close>: the matches from left to right, each after the end of the last.\<close>

function claimed_workers :: "string \<Rightarrow> string list" where
  "claimed_workers [] = []"
| "claimed_workers (c # s) =
     (if starts_with claim_marker (c # s)
      then let rest = drop (length claim_marker) (c # s);
               w = takeWhile is_worker_char rest
           in if w = [] then claimed_workers s else w # claimed_workers (drop (length w) rest)
      else claimed_workers s)"
  by pat_completeness auto
termination
  by (relation "measure length") (auto simp: claim_marker_def)

declare claimed_workers.simps(2) [simp del]

definition extract_claimed_worker :: "string option \<Rightarrow> string option" where
  "extract_claimed_worker lg =
     (case lg of None \<Rightarrow> None
      | Some s \<Rightarrow> (let ws = claimed_workers (unescape_log s) in if ws = [] then None else Some (last ws)))"

text \<open>\<open>re.search\<close> for \<open>PLUGIN_START\<close>, white space and the name up to the next white space.\<close>

fun plugin_start_in :: "string \<Rightarrow> string option" where
  "plugin_start_in [] = None"
| "plugin_start_in (c # s) =
     (let rest = drop 12 (c # s); name = takeWhile (\<lambda>x. \<not> is_space x) (dropWhile is_space rest)
      in if starts_with ''PLUGIN_START'' (c # s) \<and> rest \<noteq> [] \<and> is_space (hd rest) \<and> name \<noteq> []
         then Some name else plugin_start_in s)"

fun first_some :: "'a option list \<Rightarrow> 'a option" where
  "first_some [] = None"
| "first_some (x # xs) = (case x of None \<Rightarrow> first_some xs | Some v \<Rightarrow> Some v)"

definition extract_current_plugin :: "string \<Rightarrow> string option" where
  "extract_current_plugin lg = first_some (map plugin_start_in (rev (split_log_lines lg)))"

definition plugin_order :: "string list" where
  "plugin_order = [''HashPlugin'', ''PreviewPlugin'', ''StoragePlugin'', ''MetadataPlugin'', ''ExifPlugin'', ''GpsPlugin'']"

definition completed_in :: "string list \<Rightarrow> string \<Rightarrow> bool" where
  "completed_in ls plugin_name \<longleftrightarrow> list_ex (\<lambda>l. find_sub (''PLUGIN_COMPLETE '' @ plugin_name) l \<noteq> None) ls"

definition count_completed_plugins :: "string \<Rightarrow> nat" where
  "count_completed_plugins lg = length (takeWhile (completed_in (split_log_lines lg)) plugin_order)"

definition progress_by_completed :: "nat \<Rightarrow> int" where
  "progress_by_completed n = (if n \<le> 6 then [0, 16, 33, 50, 66, 83, 100] ! n else 0)"

definition upload_failure_codes :: "string list" where
  "upload_failure_codes = [''DUPLICATE_CONTENT'', ''CONTENT_SHA256_MISMATCH'']"

definition extract_upload_failure_code :: "string option \<Rightarrow> string option" where
  "extract_upload_failure_code error_message =
     (case error_message of None \<Rightarrow> None
      | Some m \<Rightarrow> if m = [] then None
         else let candidate = strip (takeWhile (\<lambda>c. c \<noteq> CHR '':'') m)
              in if candidate \<in> set upload_failure_codes then Some candidate else None)"

text \<open>The text of \<open>UploadValidationError\<close>, which the worker stores as the job's error.\<close>

definition validation_error_text :: "string \<Rightarrow> string \<Rightarrow> string" where
  "validation_error_text code message = code @ '': '' @ message"

section \<open>Laws\<close>

definition whole_lines :: "string \<Rightarrow> bool" where
  "whole_lines lg \<longleftrightarrow> lg = [] \<or> (\<exists>s. lg = log_line s)"

lemma unescape_append: "unescape_log (s @ log_end @ t) = unescape_log (s @ log_end) @ unescape_log t"
proof (induction s rule: unescape_log.induct)
  case (2 c)
  then show ?case by (cases t) (auto simp: log_end_def)
next
  case 3
  then show ?case by (simp add: log_end_def)
qed auto

lemma unescape_end: "\<exists>u. unescape_log (s @ log_end) = u @ [CHR 10]"
proof (induction s rule: unescape_log.induct)
  case (1 a b s)
  then show ?case by (cases "a = CHR 92 \<and> b = CHR ''n''") fastforce+
qed (auto simp: log_end_def)

lemma unescape_whole: "whole_lines lg \<Longrightarrow> unescape_log (lg @ t) = unescape_log lg @ unescape_log t"
  unfolding whole_lines_def log_line_def using unescape_append by auto

lemma unescape_plain: "CHR 92 \<notin> set s \<Longrightarrow> unescape_log s = s"
  by (induction s rule: unescape_log.induct) auto

lemma unescape_whole_end: "whole_lines lg \<Longrightarrow> lg = [] \<or> (\<exists>u. unescape_log lg = u @ [CHR 10])"
  unfolding whole_lines_def log_line_def using unescape_end by blast

lemma break_lines_nonempty [simp]: "break_lines s \<noteq> []"
  by (cases s) (auto split: list.splits)

lemma break_lines_cut: "is_line_break b \<Longrightarrow> break_lines (s @ b # t) = break_lines s @ break_lines t"
proof (induction s)
  case (Cons c s)
  then show ?case by (cases "break_lines s") (auto split: list.splits)
qed simp

lemma newline_breaks [simp]: "is_line_break (CHR 10)" "is_space (CHR 10)"
  by (simp_all add: is_line_break_def is_space_def)

lemma split_log_lines_append:
  assumes "whole_lines lg"
  shows "split_log_lines (lg @ t) = split_log_lines lg @ split_log_lines t"
proof (cases "lg = []")
  case True
  have "strip [] = []" by (simp add: strip_def strip_while_id)
  then show ?thesis by (simp add: True split_log_lines_def)
next
  case False
  obtain u where u: "unescape_log lg = u @ [CHR 10]" using False unescape_whole_end[OF assms] by blast
  have nil: "strip [] = []" by (simp add: strip_def strip_while_id)
  have "break_lines (unescape_log (lg @ t)) = break_lines u @ break_lines (unescape_log t)"
    using u break_lines_cut[of "CHR 10" u "unescape_log t"] by (simp add: unescape_whole[OF assms])
  moreover have "break_lines (unescape_log lg) = break_lines u @ [[]]"
    using u break_lines_cut[of "CHR 10" u "[]"] by simp
  ultimately show ?thesis by (simp add: split_log_lines_def nil)
qed

lemma count_completed_mono:
  assumes "whole_lines lg"
  shows "count_completed_plugins lg \<le> count_completed_plugins (lg @ t)"
proof -
  have "length (takeWhile P xs) \<le> length (takeWhile Q xs)" if "\<And>x. P x \<Longrightarrow> Q x" for P Q :: "string \<Rightarrow> bool" and xs
    using that by (induction xs) auto
  note le = this
  show ?thesis
    unfolding count_completed_plugins_def split_log_lines_append[OF assms]
    by (rule le) (simp add: completed_in_def)
qed

lemma count_completed_le: "count_completed_plugins lg \<le> 6"
proof -
  have "length plugin_order = 6" by (simp add: plugin_order_def)
  then show ?thesis unfolding count_completed_plugins_def by (metis length_takeWhile_le)
qed

lemma progress_mono: "m \<le> n \<Longrightarrow> n \<le> 6 \<Longrightarrow> progress_by_completed m \<le> progress_by_completed n"
proof -
  assume mn: "m \<le> n" "n \<le> 6"
  then have "m \<in> {0,1,2,3,4,5,6}" "n \<in> {0,1,2,3,4,5,6}" by auto
  with mn show ?thesis by (auto simp: progress_by_completed_def)
qed

lemma progress_range: "0 \<le> progress_by_completed n \<and> progress_by_completed n \<le> 100"
proof (cases "n \<le> 6")
  case True
  then have "n \<in> {0,1,2,3,4,5,6}" by auto
  then show ?thesis by (auto simp: progress_by_completed_def)
qed (simp add: progress_by_completed_def)

text \<open>Matches never reach across a line break.\<close>

lemma starts_with_before:
  assumes "b \<notin> set p"
  shows "starts_with p (s @ b # t) \<longleftrightarrow> starts_with p s"
proof (cases "length p \<le> length s")
  case True
  then show ?thesis by (simp add: starts_with_def)
next
  case False
  then have "b \<in> set (take (length p) (s @ b # t))"
    by (auto simp: take_Cons' not_le)
  then have "\<not> starts_with p (s @ b # t)" using assms unfolding starts_with_def by metis
  moreover have "\<not> starts_with p s" using False by (auto simp: starts_with_def)
  ultimately show ?thesis by simp
qed

lemma claimed_workers_cut:
  "claimed_workers (s @ CHR 10 # t) = claimed_workers s @ claimed_workers t"
proof (induction s rule: claimed_workers.induct)
  case 1
  have "\<not> starts_with claim_marker (CHR 10 # t)" by (simp add: starts_with_def claim_marker_def)
  then show ?case by (simp add: claimed_workers.simps(2))
next
  case (2 c s)
  have marker: "starts_with claim_marker ((c # s) @ CHR 10 # t) \<longleftrightarrow> starts_with claim_marker (c # s)"
    by (rule starts_with_before) (simp add: claim_marker_def)
  show ?case
  proof (cases "starts_with claim_marker (c # s)")
    case False
    then show ?thesis using marker 2(3) by (simp add: claimed_workers.simps(2))
  next
    case True
    define rest where "rest = drop (length claim_marker) (c # s)"
    have len: "length claim_marker \<le> length (c # s)"
      using True by (metis starts_with_def length_take min.absorb_iff2)
    have drop: "drop (length claim_marker) ((c # s) @ CHR 10 # t) = rest @ CHR 10 # t"
      unfolding drop_append using len by (simp add: rest_def)
    have stop: "\<not> is_worker_char (CHR 10)" by (simp add: is_worker_char_def)
    then have tw: "takeWhile is_worker_char (rest @ CHR 10 # t) = takeWhile is_worker_char rest"
      by (simp add: takeWhile_append)
        (metis (full_types) stop takeWhile_eq_all_conv takeWhile.simps(2) append_Nil2)
    show ?thesis
    proof (cases "takeWhile is_worker_char rest = []")
      case empty: True
      then show ?thesis using True marker drop tw 2(1)[OF True rest_def refl]
        by (simp add: claimed_workers.simps(2)[of c] Let_def rest_def[symmetric] del: drop_Cons' drop_append)
    next
      case False
      have "length (takeWhile is_worker_char rest) \<le> length rest" by (rule length_takeWhile_le)
      then show ?thesis using True False marker drop tw 2(2)[OF True rest_def refl False]
        by (simp add: claimed_workers.simps(2)[of c] Let_def rest_def[symmetric])
    qed
  qed
qed

lemma takeWhile_all: "list_all P w \<Longrightarrow> takeWhile P w = w"
  by (simp add: list_all_iff takeWhile_eq_all_conv)

text \<open>The worker a claim writes is the worker the recovery of stale jobs reads.\<close>

lemma claimed_worker_read_back:
  assumes "whole_lines lg" and "w \<noteq> []" and "list_all is_worker_char w"
    and "whole_lines more" and "claimed_workers (unescape_log more) = []"
  shows "extract_claimed_worker (Some (lg @ log_line (claim_marker @ w) @ more)) = Some w"
proof -
  have plain: "CHR 92 \<notin> set (claim_marker @ w)"
    using assms(3) by (auto simp: claim_marker_def list_all_iff is_worker_char_def)
  have line: "unescape_log (log_line (claim_marker @ w) @ more) = claim_marker @ w @ CHR 10 # unescape_log more"
  proof -
    have "unescape_log (log_line (claim_marker @ w) @ more) =
        unescape_log ((claim_marker @ w) @ log_end) @ unescape_log more"
      by (metis append.assoc log_line_def unescape_append)
    moreover have "unescape_log (s @ log_end) = s @ [CHR 10]" if "CHR 92 \<notin> set s" for s
      using that by (induction s rule: unescape_log.induct) (auto simp: log_end_def)
    ultimately show ?thesis using plain by (metis append.assoc append_Cons append_Nil)
  qed
  have one: "claimed_workers (claim_marker @ w) = [w]"
  proof -
    have "claimed_workers (claim_marker @ w) = w # claimed_workers []"
    proof -
      obtain c cs where cc: "claim_marker = c # cs" by (simp add: claim_marker_def)
      have "starts_with claim_marker (c # (cs @ w))" "drop (length claim_marker) (c # (cs @ w)) = w"
        by (simp_all add: starts_with_def cc)
      then have "claimed_workers (c # (cs @ w)) = w # claimed_workers []"
        using assms(2) by (simp add: claimed_workers.simps(2) Let_def takeWhile_all[OF assms(3)] del: takeWhile_eq_all_conv)
      then show ?thesis by (simp add: cc)
    qed
    then show ?thesis by simp
  qed
  have "claimed_workers (unescape_log (lg @ log_line (claim_marker @ w) @ more)) =
      claimed_workers (unescape_log lg @ claim_marker @ w @ CHR 10 # unescape_log more)"
    using line unescape_whole[OF assms(1)] by simp
  also have "\<exists>pre. \<dots> = pre @ [w]"
  proof (cases "lg = []")
    case True
    then show ?thesis using one assms(5) claimed_workers_cut[of "claim_marker @ w"] by simp
  next
    case False
    then obtain u where u: "unescape_log lg = u @ [CHR 10]" using unescape_whole_end[OF assms(1)] by blast
    have "claimed_workers (u @ CHR 10 # (claim_marker @ w) @ CHR 10 # unescape_log more) =
        claimed_workers u @ claimed_workers (claim_marker @ w) @ claimed_workers (unescape_log more)"
      by (simp only: claimed_workers_cut)
    then show ?thesis using one assms(5) by (auto simp: u)
  qed
  finally obtain pre where "claimed_workers (unescape_log (lg @ log_line (claim_marker @ w) @ more)) = pre @ [w]" by blast
  then show ?thesis by (simp add: extract_claimed_worker_def Let_def)
qed

end
