(* ===== verification/QueueLaws.thy ===== *)
theory QueueLaws
  imports Prelude
begin

text \<open>
  The contracts the job tables share. \<open>row_machine\<close>: a table whose operations keep its
  primary keys distinct, keep every row well-formed, and move each row only along the edges
  of a transition relation; the lemmas carry this over to any sequence of operations of any
  number of sessions. \<open>claim_queue\<close> adds the claim operation of a work queue: it hands out
  an eligible row of least rank, and a claimed row is not eligible while its lease lasts.
\<close>

locale row_machine =
  fixes step :: "'op \<Rightarrow> 'row list \<Rightarrow> 'row list"
    and key :: "'row \<Rightarrow> 'k"
    and row_ok :: "'row \<Rightarrow> bool"
    and moves :: "'row \<Rightarrow> 'row \<Rightarrow> bool"
  assumes step_distinct: "distinct (map key rows) \<Longrightarrow> (\<And>r. r \<in> set rows \<Longrightarrow> row_ok r)
      \<Longrightarrow> distinct (map key (step op rows))"
    and step_ok: "distinct (map key rows) \<Longrightarrow> (\<And>r. r \<in> set rows \<Longrightarrow> row_ok r)
      \<Longrightarrow> r' \<in> set (step op rows) \<Longrightarrow> row_ok r'"
    and step_moves: "distinct (map key rows) \<Longrightarrow> (\<And>r. r \<in> set rows \<Longrightarrow> row_ok r) \<Longrightarrow> r \<in> set rows
      \<Longrightarrow> \<exists>r'\<in>set (step op rows). key r' = key r \<and> moves r r'"
begin

definition table_ok :: "'row list \<Rightarrow> bool" where
  "table_ok rows \<longleftrightarrow> distinct (map key rows) \<and> (\<forall>r\<in>set rows. row_ok r)"

lemma step_table_ok: "table_ok rows \<Longrightarrow> table_ok (step op rows)"
  unfolding table_ok_def using step_distinct step_ok by blast

lemma run_table_ok: "table_ok rows \<Longrightarrow> table_ok (fold step ops rows)"
  by (induction ops arbitrary: rows) (auto intro: step_table_ok)

lemma run_from_empty: "table_ok (fold step ops [])"
  by (rule run_table_ok) (simp add: table_ok_def)

lemma run_moves:
  assumes "table_ok rows" and "r \<in> set rows"
  shows "\<exists>r'\<in>set (fold step ops rows). key r' = key r \<and> moves\<^sup>*\<^sup>* r r'"
  using assms
proof (induction ops arbitrary: rows r)
  case Nil
  then show ?case by auto
next
  case (Cons op ops)
  then obtain r1 where r1: "r1 \<in> set (step op rows)" "key r1 = key r" "moves r r1"
    using step_moves[of rows r op] by (auto simp: table_ok_def)
  then obtain r2 where "r2 \<in> set (fold step ops (step op rows))" "key r2 = key r1" "moves\<^sup>*\<^sup>* r1 r2"
    using Cons.IH[OF step_table_ok[OF Cons.prems(1)] r1(1)] by blast
  then show ?case using r1 by (auto intro: converse_rtranclp_into_rtranclp)
qed

text \<open>A property of a row that no single move destroys holds of the row for ever.\<close>

lemma run_stable:
  assumes "table_ok rows" and "r \<in> set rows" and "Q r"
    and "\<And>a b. moves a b \<Longrightarrow> Q a \<Longrightarrow> Q b"
  shows "\<exists>r'\<in>set (fold step ops rows). key r' = key r \<and> Q r'"
proof -
  obtain r' where r': "r' \<in> set (fold step ops rows)" "key r' = key r" "moves\<^sup>*\<^sup>* r r'"
    using run_moves[OF assms(1,2)] by blast
  from r'(3) have "Q r'"
    by (induction rule: rtranclp_induct) (auto intro: assms(3,4))
  with r' show ?thesis by blast
qed

end

locale claim_queue =
  fixes claim :: "'ctx \<Rightarrow> 'row list \<Rightarrow> 'row option \<times> 'row list"
    and key :: "'row \<Rightarrow> 'k"
    and eligible :: "'ctx \<Rightarrow> 'row \<Rightarrow> bool"
    and rank :: "'row \<Rightarrow> 'o::linorder"
  assumes claim_None: "claim ctx rows = (None, rows') \<Longrightarrow> rows' = rows \<and> (\<forall>r\<in>set rows. \<not> eligible ctx r)"
    and claim_Some: "claim ctx rows = (Some j, rows') \<Longrightarrow>
      \<exists>r\<in>set rows. key j = key r \<and> rank j = rank r \<and> eligible ctx r \<and>
        (\<forall>x\<in>set rows. eligible ctx x \<longrightarrow> rank r \<le> rank x) \<and> rows' = save_row key j rows"
begin

lemma claim_progress: "r \<in> set rows \<Longrightarrow> eligible ctx r \<Longrightarrow> \<exists>j rows'. claim ctx rows = (Some j, rows')"
  using claim_None by (metis option.exhaust surj_pair)

lemma claim_others_kept:
  assumes "claim ctx rows = (Some j, rows')" and "k \<noteq> key j"
  shows "find_row key k rows' = find_row key k rows"
  using claim_Some[OF assms(1)] assms(2) by (auto simp: find_row_save_row)

lemma claim_returns_row:
  assumes "claim ctx rows = (Some j, rows')"
  shows "find_row key (key j) rows' = Some j"
  using claim_Some[OF assms] by (auto simp: find_row_save_row image_iff)

lemma claim_keys: "claim ctx rows = (res, rows') \<Longrightarrow> map key rows' = map key rows"
  using claim_None claim_Some by (cases res) fastforce+

text \<open>Two claims hand out the same row only if the second found it eligible again.\<close>

lemma claim_exclusive:
  assumes "distinct (map key rows)"
    and "claim c1 rows = (Some j1, rows1)" and "claim c2 rows1 = (Some j2, rows2)"
    and "\<not> eligible c2 j1"
  shows "key j2 \<noteq> key j1"
proof
  assume same: "key j2 = key j1"
  obtain r where r: "r \<in> set rows1" "key j2 = key r" "eligible c2 r"
    using claim_Some[OF assms(3)] by blast
  have "distinct (map key rows1)" using assms(1) claim_keys[OF assms(2)] by simp
  then have "find_row key (key j1) rows1 = Some r" using r same find_row_mem by metis
  then show False using claim_returns_row[OF assms(2)] r(3) assms(4) by simp
qed

end

end
