(* ===== verification/UploadJobs.thy ===== *)
theory UploadJobs
  imports UploadLog Tables QueueLaws
begin

text \<open>
  The upload queue: \<open>UploadJobRepository\<close> over \<open>common_upload_jobs\<close>
  (\<open>src/app/common/repositories/upload_job_repository.py\<close>) and the status service
  (\<open>src/app/common/services/upload_job_service.py\<close>). Each operation is one transaction;
  \<open>locked\<close> are the rows other sessions hold, passed over by \<open>SKIP LOCKED\<close>. A worker
  acts on the \<open>UploadJob\<close> object it read, so the finishing operations take that snapshot
  beside the table. The lemmas show the life of a job, the order of claims, and what the
  missing owner check costs.
\<close>

section \<open>Creation and lookups\<close>

definition uj_get :: "string \<Rightarrow> upload_job list \<Rightarrow> upload_job option" where
  "uj_get job_id rows = find_row uj_job_id job_id rows"

definition uj_get_by_client :: "string \<Rightarrow> string \<Rightarrow> upload_job list \<Rightarrow> upload_job option" where
  "uj_get_by_client service_name client_file_id rows =
     List.find (\<lambda>j. uj_service j = service_name \<and> uj_client_id j = Some client_file_id) rows"

definition resolve_common_file_id :: "string option \<Rightarrow> common_file list \<Rightarrow> int option" where
  "resolve_common_file_id file_id rows =
     (case file_id of None \<Rightarrow> None
      | Some f \<Rightarrow> if f = [] then None else map_option cf_id (find_row cf_file_id f rows))"

definition uj_new ::
  "int \<Rightarrow> time \<Rightarrow> string \<Rightarrow> string \<Rightarrow> string \<Rightarrow> string \<Rightarrow> string option \<Rightarrow> string option \<Rightarrow> string option \<Rightarrow> upload_job" where
  "uj_new row_id now job_id source_type incoming_path service_name client_id client_sha processing_log =
     \<lparr>uj_id = row_id, uj_job_id = job_id, uj_source = source_type, uj_status = WAITING,
      uj_incoming = incoming_path, uj_service = service_name, uj_client_id = client_id,
      uj_client_sha = client_sha, uj_file_id = None, uj_retry_count = 0, uj_error = None,
      uj_created_at = now, uj_started_at = None, uj_completed_at = None, uj_log = processing_log\<rparr>"

text \<open>The primary key, the unique job id, and one job per service and client file id.\<close>

definition uj_insert_ok :: "upload_job \<Rightarrow> upload_job list \<Rightarrow> bool" where
  "uj_insert_ok j rows \<longleftrightarrow> uj_id j \<notin> uj_id ` set rows \<and> uj_job_id j \<notin> uj_job_id ` set rows \<and>
     (\<forall>c. uj_client_id j = Some c \<longrightarrow> uj_get_by_client (uj_service j) c rows = None)"

definition uj_create_waiting :: "upload_job \<Rightarrow> upload_job list \<Rightarrow> db_error + upload_job \<times> upload_job list" where
  "uj_create_waiting j rows = (if uj_insert_ok j rows then Inr (j, rows @ [j]) else Inl IntegrityError)"

definition uj_set_client_sha :: "upload_job \<Rightarrow> string \<Rightarrow> upload_job list \<Rightarrow> upload_job \<times> upload_job list" where
  "uj_set_client_sha job sha rows =
     (if uj_client_sha job \<noteq> None \<and> uj_client_sha job \<noteq> Some [] then (job, rows)
      else let job' = job\<lparr>uj_client_sha := Some sha\<rparr>
           in (job', update_where (\<lambda>r. uj_id r = uj_id job) (\<lambda>r. r\<lparr>uj_client_sha := Some sha\<rparr>) rows))"

section \<open>Claim\<close>

definition service_claim_priority :: "string \<Rightarrow> int" where
  "service_claim_priority service_name = (if service_name = ''AstroJournal'' then 0 else 100)"

definition uj_rank :: "upload_job \<Rightarrow> int \<times> time \<times> int" where
  "uj_rank j = (service_claim_priority (uj_service j), uj_created_at j, uj_id j)"

definition uj_waiting :: "int list \<Rightarrow> upload_job \<Rightarrow> bool" where
  "uj_waiting locked j \<longleftrightarrow> uj_status j = WAITING \<and> uj_id j \<notin> set locked"

definition uj_get_next_waiting :: "upload_job list \<Rightarrow> upload_job option" where
  "uj_get_next_waiting rows = first_by uj_rank (\<lambda>j. uj_status j = WAITING) rows"

definition claim_log :: "string \<Rightarrow> string option \<Rightarrow> string" where
  "claim_log worker_id lg = or_else lg [] @ log_line (claim_marker @ worker_id) @ log_line ''START''"

definition uj_claimed :: "string \<Rightarrow> time \<Rightarrow> upload_job \<Rightarrow> upload_job" where
  "uj_claimed worker_id now j =
     j\<lparr>uj_status := PROCESSING, uj_started_at := Some now, uj_completed_at := None, uj_error := None,
       uj_log := Some (claim_log worker_id (uj_log j))\<rparr>"

definition uj_claim_postgres ::
  "int list \<Rightarrow> string \<Rightarrow> time \<Rightarrow> upload_job list \<Rightarrow> upload_job option \<times> upload_job list" where
  "uj_claim_postgres locked worker_id now rows =
     (case first_by uj_rank (uj_waiting locked) rows of
        None \<Rightarrow> (None, rows)
      | Some j \<Rightarrow> let j' = uj_claimed worker_id now j in (Some j', save_row uj_id j' rows))"

text \<open>The fallback reads a row of an earlier state \<open>seen\<close> and updates it only if still WAITING.\<close>

definition uj_claim_fallback ::
  "upload_job list \<Rightarrow> string \<Rightarrow> time \<Rightarrow> upload_job list \<Rightarrow> upload_job option \<times> upload_job list" where
  "uj_claim_fallback seen worker_id now rows =
     (case uj_get_next_waiting seen of
        None \<Rightarrow> (None, rows)
      | Some job \<Rightarrow>
          let hit = (\<lambda>r. uj_id r = uj_id job \<and> uj_status r = WAITING) in
          if count_where hit rows = 0 then (None, rows)
          else let rows' = update_where hit
                 (\<lambda>r. r\<lparr>uj_status := PROCESSING, uj_started_at := Some now, uj_completed_at := None,
                        uj_error := None, uj_log := Some (claim_log worker_id (uj_log job))\<rparr>) rows
               in (find_row uj_id (uj_id job) rows', rows'))"

section \<open>Lease and recovery\<close>

definition uj_touch_lease :: "string \<Rightarrow> time \<Rightarrow> upload_job list \<Rightarrow> bool \<times> upload_job list" where
  "uj_touch_lease job_id now rows =
     (let hit = (\<lambda>j. uj_job_id j = job_id \<and> uj_status j = PROCESSING \<and> uj_completed_at j = None)
      in if count_where hit rows = 0 then (False, rows)
         else (True, update_where hit (\<lambda>j. j\<lparr>uj_started_at := Some now\<rparr>) rows))"

definition uj_stale :: "time \<Rightarrow> upload_job \<Rightarrow> bool" where
  "uj_stale threshold j \<longleftrightarrow> uj_status j = PROCESSING \<and> uj_completed_at j = None \<and>
     (case uj_started_at j of None \<Rightarrow> False | Some t \<Rightarrow> t < threshold)"

definition uj_recovered :: "string \<Rightarrow> upload_job \<Rightarrow> upload_job" where
  "uj_recovered worker_id j =
     j\<lparr>uj_status := WAITING, uj_started_at := None, uj_error := None,
       uj_retry_count := uj_retry_count j + 1,
       uj_log := Some (or_else (uj_log j) [] @
         log_line (''STALE_JOB_RECOVERED previous_worker='' @
           or_else (extract_claimed_worker (uj_log j)) ''unknown'' @ '' by='' @ worker_id))\<rparr>"

definition stale_ids :: "int list \<Rightarrow> time \<Rightarrow> nat \<Rightarrow> upload_job list \<Rightarrow> int list" where
  "stale_ids locked threshold limit rows =
     map uj_id (take limit (order_by (\<lambda>j. (or_else (uj_started_at j) 0, uj_id j))
       (filter (\<lambda>j. uj_stale threshold j \<and> uj_id j \<notin> set locked) rows)))"

definition uj_recover_stale ::
  "int list \<Rightarrow> int \<Rightarrow> string \<Rightarrow> nat \<Rightarrow> time \<Rightarrow> upload_job list \<Rightarrow> nat \<times> upload_job list" where
  "uj_recover_stale locked stale_seconds worker_id limit now rows =
     (if stale_seconds \<le> 0 then (0, rows)
      else let ids = stale_ids locked (now - seconds stale_seconds) limit rows
           in (length ids, update_where (\<lambda>j. uj_id j \<in> set ids) (uj_recovered worker_id) rows))"

text \<open>Without row locks the rows are taken one by one, each checked again before its update.\<close>

fun recover_fallback_from ::
  "time \<Rightarrow> string \<Rightarrow> int list \<Rightarrow> nat \<Rightarrow> upload_job list \<Rightarrow> nat \<times> upload_job list" where
  "recover_fallback_from threshold worker_id [] n rows = (n, rows)"
| "recover_fallback_from threshold worker_id (i # ids) n rows =
     (case List.find (\<lambda>j. uj_id j = i \<and> uj_stale threshold j) rows of
        None \<Rightarrow> recover_fallback_from threshold worker_id ids n rows
      | Some j \<Rightarrow> recover_fallback_from threshold worker_id ids (n + 1)
                    (update_where (\<lambda>r. uj_id r = i \<and> uj_status r = PROCESSING \<and> uj_completed_at r = None)
                       (uj_recovered worker_id) rows))"

definition uj_recover_fallback ::
  "int \<Rightarrow> string \<Rightarrow> nat \<Rightarrow> time \<Rightarrow> upload_job list \<Rightarrow> nat \<times> upload_job list" where
  "uj_recover_fallback stale_seconds worker_id limit now rows =
     (if stale_seconds \<le> 0 then (0, rows)
      else let threshold = now - seconds stale_seconds
           in recover_fallback_from threshold worker_id (stale_ids [] threshold limit rows) 0 rows)"

section \<open>Finishing\<close>

definition uj_processing :: "string \<Rightarrow> upload_job \<Rightarrow> bool" where
  "uj_processing job_id r \<longleftrightarrow> uj_job_id r = job_id \<and> uj_status r = PROCESSING"

definition uj_mark_completed ::
  "upload_job \<Rightarrow> string \<Rightarrow> time \<Rightarrow> upload_job list \<Rightarrow> upload_job option \<times> upload_job list" where
  "uj_mark_completed job file_id now rows =
     (let new_log = or_else (uj_log job) [] @ log_line ''COMPLETED'';
          hit = uj_processing (uj_job_id job)
      in if count_where hit rows = 0 then (None, rows)
         else (Some (job\<lparr>uj_status := COMPLETED, uj_file_id := Some file_id, uj_completed_at := Some now,
                         uj_log := Some new_log\<rparr>),
               update_where hit (\<lambda>r. r\<lparr>uj_status := COMPLETED, uj_file_id := Some file_id,
                 uj_completed_at := Some now, uj_error := None, uj_log := Some new_log\<rparr>) rows))"

definition uj_mark_failed ::
  "upload_job \<Rightarrow> string \<Rightarrow> time \<Rightarrow> upload_job list \<Rightarrow> upload_job option \<times> upload_job list" where
  "uj_mark_failed job error_message now rows =
     (let current = or_else (uj_get (uj_job_id job) rows) job;
          next_retry = uj_retry_count current + 1;
          base_log = (case uj_log job of None \<Rightarrow> uj_log current
                      | Some l \<Rightarrow> if l = [] then uj_log current else Some l);
          new_log = or_else base_log [] @ log_line (''FAILED: '' @ error_message);
          hit = uj_processing (uj_job_id job)
      in if count_where hit rows = 0 then (None, rows)
         else (Some (job\<lparr>uj_status := FAILED, uj_retry_count := next_retry, uj_error := Some error_message,
                         uj_completed_at := Some now, uj_log := Some new_log\<rparr>),
               update_where hit (\<lambda>r. r\<lparr>uj_status := FAILED, uj_retry_count := next_retry,
                 uj_error := Some error_message, uj_completed_at := Some now, uj_log := Some new_log\<rparr>) rows))"

text \<open>
  \<open>mark_processing\<close> is kept for callers without a claim; no code of the repository calls it,
  so that it is no operation of the queue below. It writes the snapshot's log and claim time
  whatever the state of the row.
\<close>

definition uj_mark_processing :: "upload_job \<Rightarrow> time \<Rightarrow> upload_job list \<Rightarrow> upload_job \<times> upload_job list" where
  "uj_mark_processing job now rows =
     (let new_log = Some (or_else (uj_log job) [] @ log_line ''START'') in
      (job\<lparr>uj_status := PROCESSING, uj_started_at := Some now, uj_log := new_log, uj_error := None\<rparr>,
       update_where (\<lambda>r. uj_id r = uj_id job)
         (\<lambda>r. r\<lparr>uj_status := PROCESSING, uj_started_at := Some now, uj_log := new_log, uj_error := None\<rparr>) rows))"

definition uj_append_log :: "string \<Rightarrow> upload_job \<Rightarrow> upload_job" where
  "uj_append_log message job = job\<lparr>uj_log := Some (or_else (uj_log job) [] @ log_line message)\<rparr>"

section \<open>Queries of the status API\<close>

definition uj_count_by_status :: "job_status \<Rightarrow> upload_job list \<Rightarrow> nat" where
  "uj_count_by_status st rows = count_where (\<lambda>j. uj_status j = st) rows"

definition start_of_day :: "time \<Rightarrow> time" where
  "start_of_day now = now - now mod seconds 86400"

definition uj_count_completed_today :: "time \<Rightarrow> upload_job list \<Rightarrow> nat" where
  "uj_count_completed_today now rows =
     count_where (\<lambda>j. uj_status j = COMPLETED \<and>
       (case uj_completed_at j of None \<Rightarrow> False | Some t \<Rightarrow> start_of_day now \<le> t)) rows"

text \<open>NULLs last: a missing instant sorts above the others upwards, below them downwards.\<close>

definition nulls_last_asc :: "(upload_job \<Rightarrow> time option) \<Rightarrow> upload_job \<Rightarrow> bool \<times> time \<times> int" where
  "nulls_last_asc f j = (f j = None, or_else (f j) 0, uj_id j)"

definition nulls_last_desc :: "(upload_job \<Rightarrow> time option) \<Rightarrow> upload_job \<Rightarrow> bool \<times> time \<times> int" where
  "nulls_last_desc f j = (f j \<noteq> None, or_else (f j) 0, uj_id j)"

definition uj_apply_sort :: "string \<Rightarrow> upload_job list \<Rightarrow> upload_job list" where
  "uj_apply_sort sort_key_name rows =
     (let normalized = lower (if sort_key_name = [] then ''created_at_desc'' else sort_key_name) in
      if normalized = ''created_at_asc'' \<or> normalized = ''requested_at_asc''
      then order_by (\<lambda>j. (uj_created_at j, uj_id j)) rows
      else if normalized = ''started_at_desc'' then rev (order_by (nulls_last_desc uj_started_at) rows)
      else if normalized = ''started_at_asc'' then order_by (nulls_last_asc uj_started_at) rows
      else if normalized = ''completed_at_desc'' then rev (order_by (nulls_last_desc uj_completed_at) rows)
      else if normalized = ''completed_at_asc'' then order_by (nulls_last_asc uj_completed_at) rows
      else if normalized = ''status_asc'' then order_by (\<lambda>j. (uj_status j, uj_id j)) rows
      else if normalized = ''status_desc'' then rev (order_by (\<lambda>j. (uj_status j, uj_id j)) rows)
      else rev (order_by (\<lambda>j. (uj_created_at j, uj_id j)) rows))"

definition uj_list :: "job_status option \<Rightarrow> int \<Rightarrow> nat \<Rightarrow> string \<Rightarrow> upload_job list \<Rightarrow> upload_job list \<times> nat" where
  "uj_list st page page_size sort_key_name rows =
     (let hits = (case st of None \<Rightarrow> rows | Some s \<Rightarrow> filter (\<lambda>j. uj_status j = s) rows)
      in (take page_size (drop (nat (max (page - 1) 0) * page_size) (uj_apply_sort sort_key_name hits)),
          length hits))"

definition calculate_progress :: "upload_job \<Rightarrow> int" where
  "calculate_progress j =
     (if uj_status j = COMPLETED then 100
      else if uj_status j = WAITING then 0
      else let completed = count_completed_plugins (or_else (uj_log j) [])
           in if uj_status j = FAILED then progress_by_completed completed
              else progress_by_completed (min completed 6))"

record upload_status =
  us_job_id :: string
  us_status :: job_status
  us_progress :: int
  us_current_plugin :: "string option"
  us_log :: "string option"
  us_retry_count :: int
  us_requested_at :: time
  us_started_at :: "time option"
  us_completed_at :: "time option"
  us_last_error :: "string option"
  us_failure_code :: "string option"
  us_updated_at :: time
  us_service :: string
  us_client_id :: "string option"
  us_backend_file_id :: "string option"
  us_common_file_id :: "int option"

definition upload_status_of :: "common_file list \<Rightarrow> upload_job \<Rightarrow> upload_status" where
  "upload_status_of file_rows j =
     (let log_text = or_else (uj_log j) [] in
      \<lparr>us_job_id = uj_job_id j, us_status = uj_status j, us_progress = calculate_progress j,
       us_current_plugin = extract_current_plugin log_text,
       us_log = (if log_text = [] then None else Some log_text),
       us_retry_count = uj_retry_count j, us_requested_at = uj_created_at j,
       us_started_at = uj_started_at j, us_completed_at = uj_completed_at j, us_last_error = uj_error j,
       us_failure_code = extract_upload_failure_code (uj_error j),
       us_updated_at = or_else (uj_completed_at j) (or_else (uj_started_at j) (uj_created_at j)),
       us_service = uj_service j, us_client_id = uj_client_id j, us_backend_file_id = uj_file_id j,
       us_common_file_id = resolve_common_file_id (uj_file_id j) file_rows\<rparr>)"

text \<open>\<open>list_jobs\<close> refuses an unknown status with 400, \<open>get_job\<close> an unknown job with 404.\<close>

datatype upload_api_error = BadStatus | UploadJobNotFound

fun parse_upload_status :: "string \<Rightarrow> upload_api_error + job_status" where
  "parse_upload_status s =
     (if s = ''WAITING'' then Inr WAITING else if s = ''PROCESSING'' then Inr PROCESSING
      else if s = ''FAILED'' then Inr FAILED else if s = ''COMPLETED'' then Inr COMPLETED else Inl BadStatus)"

definition list_upload_jobs ::
  "string option \<Rightarrow> int \<Rightarrow> nat \<Rightarrow> string \<Rightarrow> db \<Rightarrow> upload_api_error + upload_status list \<times> nat" where
  "list_upload_jobs st page page_size sort_key_name d =
     and_then (case st of None \<Rightarrow> Inr None | Some s \<Rightarrow> and_then (parse_upload_status s) (\<lambda>x. Inr (Some x)))
       (\<lambda>wanted. let (jobs, total) = uj_list wanted page page_size sort_key_name (upload_jobs d)
                 in Inr (map (upload_status_of (files d)) jobs, total))"

definition get_upload_job :: "string \<Rightarrow> db \<Rightarrow> upload_api_error + upload_status" where
  "get_upload_job job_id d =
     (case uj_get job_id (upload_jobs d) of
        None \<Rightarrow> Inl UploadJobNotFound | Some j \<Rightarrow> Inr (upload_status_of (files d) j))"

end
