(* ===== verification/WorkerStatus.thy ===== *)
theory WorkerStatus
  imports UploadJobs
begin

text \<open>
  Worker heartbeats: \<open>WorkerStatusRepository\<close> over \<open>common_worker_status\<close>
  (\<open>src/app/common/repositories/worker_status_repository.py\<close>) and the throttled
  \<open>WorkerMonitor\<close> of the worker processes (\<open>src/worker/worker_monitor.py\<close>). \<open>tick\<close> is
  \<open>time.monotonic()\<close> and \<open>now\<close> the UTC clock, both in microseconds; a fault is the database
  call that raises, which the monitor logs. The lemmas show which day the counters belong to
  and what the calls of the pipeline do to the lease of a job.
\<close>

section \<open>The status table\<close>

definition utc_day :: "time \<Rightarrow> int" where
  "utc_day t = t div seconds 86400"

definition ws_new :: "string \<Rightarrow> worker_status" where
  "ws_new worker_name =
     \<lparr>ws_name = worker_name, ws_status = ''STOPPED'', ws_last_started = None, ws_last_heartbeat = None,
      ws_processed = 0, ws_failed = 0, ws_current_job = None, ws_version = None\<rparr>"

definition ws_get :: "string \<Rightarrow> worker_status list \<Rightarrow> worker_status option" where
  "ws_get worker_name rows = find_row ws_name worker_name rows"

definition ws_get_or_create :: "string \<Rightarrow> worker_status list \<Rightarrow> worker_status \<times> worker_status list" where
  "ws_get_or_create worker_name rows =
     (case ws_get worker_name rows of
        Some item \<Rightarrow> (item, rows)
      | None \<Rightarrow> (ws_new worker_name, rows @ [ws_new worker_name]))"

definition reset_daily_counters :: "time \<Rightarrow> worker_status \<Rightarrow> worker_status" where
  "reset_daily_counters now item =
     (case ws_last_heartbeat item of
        None \<Rightarrow> item
      | Some marker \<Rightarrow>
          if utc_day marker \<noteq> utc_day now then item\<lparr>ws_processed := 0, ws_failed := 0\<rparr> else item)"

definition set_current_job :: "string option \<Rightarrow> bool \<Rightarrow> worker_status \<Rightarrow> worker_status" where
  "set_current_job current_job_id clear_current_job item =
     (if clear_current_job then item\<lparr>ws_current_job := None\<rparr>
      else if current_job_id \<noteq> None then item\<lparr>ws_current_job := current_job_id\<rparr> else item)"

text \<open>What an operation does to the row it found or created.\<close>

definition ws_change ::
  "string \<Rightarrow> (worker_status \<Rightarrow> worker_status) \<Rightarrow> worker_status list \<Rightarrow> worker_status \<times> worker_status list" where
  "ws_change worker_name f rows =
     (let (item, rows1) = ws_get_or_create worker_name rows in (f item, save_row ws_name (f item) rows1))"

definition update_status ::
  "string \<Rightarrow> string \<Rightarrow> string option \<Rightarrow> string option \<Rightarrow> bool \<Rightarrow> time \<Rightarrow> worker_status list
     \<Rightarrow> worker_status \<times> worker_status list" where
  "update_status worker_name status version current_job_id clear_current_job now =
     ws_change worker_name (\<lambda>item.
       let a = item\<lparr>ws_status := status\<rparr>;
           b = (if status = ''RUNNING''
                then reset_daily_counters now (a\<lparr>ws_last_started := Some now, ws_last_heartbeat := Some now\<rparr>)
                else a);
           c = (if version \<noteq> None then b\<lparr>ws_version := version\<rparr> else b)
       in set_current_job current_job_id clear_current_job c)"

definition heartbeat ::
  "string \<Rightarrow> string option \<Rightarrow> bool \<Rightarrow> time \<Rightarrow> worker_status list \<Rightarrow> worker_status \<times> worker_status list" where
  "heartbeat worker_name current_job_id clear_current_job now =
     ws_change worker_name (\<lambda>item.
       set_current_job current_job_id clear_current_job
         (reset_daily_counters now (item\<lparr>ws_status := ''RUNNING'', ws_last_heartbeat := Some now\<rparr>)))"

definition increase_processed :: "string \<Rightarrow> time \<Rightarrow> worker_status list \<Rightarrow> worker_status \<times> worker_status list" where
  "increase_processed worker_name now =
     ws_change worker_name (\<lambda>item.
       let a = reset_daily_counters now item in a\<lparr>ws_processed := ws_processed a + 1, ws_current_job := None\<rparr>)"

definition increase_failed :: "string \<Rightarrow> time \<Rightarrow> worker_status list \<Rightarrow> worker_status \<times> worker_status list" where
  "increase_failed worker_name now =
     ws_change worker_name (\<lambda>item.
       let a = reset_daily_counters now item in a\<lparr>ws_failed := ws_failed a + 1, ws_current_job := None\<rparr>)"

definition get_workers :: "worker_status list \<Rightarrow> worker_status list" where
  "get_workers rows = order_by ws_name rows"

definition offline_threshold_seconds :: int where
  "offline_threshold_seconds = 60"

definition resolve_display_status :: "time \<Rightarrow> worker_status \<Rightarrow> string" where
  "resolve_display_status now item =
     (if ws_status item = ''STOPPED'' then ''STOPPED''
      else case ws_last_heartbeat item of
        None \<Rightarrow> ''OFFLINE''
      | Some beat \<Rightarrow>
          if now - beat > seconds offline_threshold_seconds then ''OFFLINE''
          else if ws_status item = [] then ''OFFLINE'' else ws_status item)"

section \<open>The monitor of a worker process\<close>

record worker_monitor =
  wm_name :: string
  wm_version :: string
  wm_interval :: int
  wm_job_interval :: int
  wm_last_heartbeat :: time
  wm_last_job_touch :: time
  wm_started :: bool

definition new_monitor :: "string \<Rightarrow> string \<Rightarrow> worker_monitor" where
  "new_monitor worker_name version =
     \<lparr>wm_name = worker_name, wm_version = version, wm_interval = 30, wm_job_interval = 10,
      wm_last_heartbeat = 0, wm_last_job_touch = 0, wm_started = False\<rparr>"

type_synonym monitor_state = "worker_monitor \<times> worker_status list \<times> upload_job list"

datatype monitor_fault = NoFault | StatusFails | TouchFails

definition monitor_start :: "time \<Rightarrow> time \<Rightarrow> monitor_state \<Rightarrow> monitor_state" where
  "monitor_start tick now st =
     (case st of (m, workers, uploads) \<Rightarrow>
       (m\<lparr>wm_started := True, wm_last_heartbeat := tick\<rparr>,
        snd (update_status (wm_name m) ''RUNNING'' (Some (wm_version m)) None True now workers), uploads))"

definition monitor_stop :: "monitor_fault \<Rightarrow> time \<Rightarrow> monitor_state \<Rightarrow> monitor_state" where
  "monitor_stop fault now st =
     (case st of (m, workers, uploads) \<Rightarrow>
       if \<not> wm_started m \<or> fault = StatusFails then st
       else (m\<lparr>wm_started := False\<rparr>,
             snd (update_status (wm_name m) ''STOPPED'' None None True now workers), uploads))"

definition touch_job_lease :: "monitor_fault \<Rightarrow> time \<Rightarrow> time \<Rightarrow> string \<Rightarrow> monitor_state \<Rightarrow> monitor_state" where
  "touch_job_lease fault tick now job_id st =
     (case st of (m, workers, uploads) \<Rightarrow>
       if fault = TouchFails then st
       else (m\<lparr>wm_last_job_touch := tick\<rparr>, workers, snd (uj_touch_lease job_id now uploads)))"

definition maybe_heartbeat ::
  "monitor_fault \<Rightarrow> time \<Rightarrow> time \<Rightarrow> string option \<Rightarrow> bool \<Rightarrow> bool \<Rightarrow> monitor_state \<Rightarrow> monitor_state" where
  "maybe_heartbeat fault tick now current_job_id force touch st =
     (case st of (m, workers, uploads) \<Rightarrow>
       let interval = seconds (if current_job_id \<noteq> None then wm_job_interval m else wm_interval m) in
       if \<not> force \<and> tick - wm_last_heartbeat m < interval
       then (case current_job_id of
               None \<Rightarrow> st
             | Some job_id \<Rightarrow> if touch \<and> interval \<le> tick - wm_last_job_touch m
                             then touch_job_lease fault tick now job_id st else st)
       else if fault = StatusFails then st
       else let workers' = snd (heartbeat (wm_name m) current_job_id (current_job_id = None) now workers);
                m' = m\<lparr>wm_last_heartbeat := tick\<rparr>
            in case current_job_id of
                 None \<Rightarrow> (m', workers', uploads)
               | Some job_id \<Rightarrow> if touch then touch_job_lease fault tick now job_id (m', workers', uploads)
                               else (m', workers', uploads))"

definition on_plugin_boundary ::
  "monitor_fault \<Rightarrow> time \<Rightarrow> time \<Rightarrow> string option \<Rightarrow> monitor_state \<Rightarrow> monitor_state" where
  "on_plugin_boundary fault tick now current_job_id st = maybe_heartbeat fault tick now current_job_id False False st"

definition monitor_mark_processed :: "monitor_fault \<Rightarrow> time \<Rightarrow> monitor_state \<Rightarrow> monitor_state" where
  "monitor_mark_processed fault now st =
     (case st of (m, workers, uploads) \<Rightarrow>
       if fault = StatusFails then st else (m, snd (increase_processed (wm_name m) now workers), uploads))"

definition monitor_mark_failed :: "monitor_fault \<Rightarrow> time \<Rightarrow> monitor_state \<Rightarrow> monitor_state" where
  "monitor_mark_failed fault now st =
     (case st of (m, workers, uploads) \<Rightarrow>
       if fault = StatusFails then st else (m, snd (increase_failed (wm_name m) now workers), uploads))"

section \<open>Laws\<close>

lemma ws_get_change [simp]:
  assumes "\<And>item. ws_name (f item) = ws_name item"
  shows "ws_get w (snd (ws_change w f rows)) = Some (f (or_else (ws_get w rows) (ws_new w)))"
proof (cases "ws_get w rows")
  case (Some item)
  then have "item \<in> set rows \<and> ws_name item = w" unfolding ws_get_def by (rule find_row_SomeD)
  then show ?thesis using Some assms
    by (auto simp: ws_change_def ws_get_or_create_def ws_get_def find_row_save_row)
next
  case None
  have "ws_name (ws_new w) = w" by (simp add: ws_new_def)
  then show ?thesis using None assms
    by (auto simp: ws_change_def ws_get_or_create_def ws_get_def find_row_save_row find_row_append)
qed

lemma ws_get_change_other [simp]:
  assumes "\<And>item. ws_name (f item) = ws_name item" and "v \<noteq> w"
  shows "ws_get v (snd (ws_change w f rows)) = ws_get v rows"
proof -
  obtain item rows1 where g: "ws_get_or_create w rows = (item, rows1)" by fastforce
  then have "ws_name item = w"
    by (auto simp: ws_get_or_create_def ws_get_def ws_new_def dest: find_row_SomeD split: option.splits)
  moreover have "find_row ws_name v rows1 = find_row ws_name v rows"
    using g assms(2)
    by (auto simp: ws_get_or_create_def find_row_append ws_new_def split: option.splits)
  ultimately show ?thesis using g assms by (simp add: ws_change_def ws_get_def find_row_save_row)
qed

lemma name_reset [simp]: "ws_name (reset_daily_counters now item) = ws_name item"
  by (simp add: reset_daily_counters_def split: option.splits)

lemma name_current [simp]: "ws_name (set_current_job j c item) = ws_name item"
  by (simp add: set_current_job_def)

lemma set_current_job_fields [simp]:
  "ws_processed (set_current_job j c item) = ws_processed item"
  "ws_failed (set_current_job j c item) = ws_failed item"
  "ws_last_heartbeat (set_current_job j c item) = ws_last_heartbeat item"
  "ws_status (set_current_job j c item) = ws_status item"
  by (simp_all add: set_current_job_def)

lemma reset_after_beat [simp]:
  "ws_last_heartbeat item = Some now \<Longrightarrow> reset_daily_counters now item = item"
  by (simp add: reset_daily_counters_def)

lemma ws_get_heartbeat:
  "ws_get w (snd (heartbeat w j c now rows)) =
     Some (set_current_job j c ((or_else (ws_get w rows) (ws_new w))\<lparr>ws_status := ''RUNNING'', ws_last_heartbeat := Some now\<rparr>))"
  unfolding heartbeat_def by (subst ws_get_change) simp_all

lemma boundary_keeps_uploads:
  "snd (snd (maybe_heartbeat fault tick now j force False st)) = snd (snd st)"
  by (auto simp: maybe_heartbeat_def Let_def split: prod.splits option.splits)

section \<open>Properties\<close>

text \<open>
  The daily counters are not daily: a heartbeat, which stores its time before it compares the
  days, never resets them, so that after it every success on that day is added to the count of
  all the days before; only a worker that did not beat since midnight would start at one.
\<close>

theorem daily_counters_never_reset:
  assumes "ws_get w rows = Some item" and "utc_day now2 = utc_day now1"
    and "ws_last_heartbeat item = Some old" and "utc_day old \<noteq> utc_day now2"
  shows "(\<exists>item2. ws_get w (snd (increase_processed w now2 (snd (heartbeat w job c now1 rows)))) = Some item2 \<and>
      ws_processed item2 = ws_processed item + 1 \<and> ws_failed item2 = ws_failed item) \<and>
    (\<exists>item2. ws_get w (snd (increase_processed w now2 rows)) = Some item2 \<and> ws_processed item2 = 1)"
proof
  have inc: "ws_get w (snd (increase_processed w now2 rows')) =
      Some (let a = reset_daily_counters now2 x in a\<lparr>ws_processed := ws_processed a + 1, ws_current_job := None\<rparr>)"
    if "ws_get w rows' = Some x" for rows' x
    unfolding increase_processed_def by (subst ws_get_change) (simp_all add: that Let_def)
  have beat: "ws_get w (snd (heartbeat w job c now1 rows)) =
      Some (set_current_job job c (item\<lparr>ws_status := ''RUNNING'', ws_last_heartbeat := Some now1\<rparr>))"
    using assms(1) by (simp add: ws_get_heartbeat)
  show "\<exists>item2. ws_get w (snd (increase_processed w now2 (snd (heartbeat w job c now1 rows)))) = Some item2 \<and>
      ws_processed item2 = ws_processed item + 1 \<and> ws_failed item2 = ws_failed item"
    using assms(2) by (simp add: inc[OF beat] Let_def reset_daily_counters_def)
  show "\<exists>item2. ws_get w (snd (increase_processed w now2 rows)) = Some item2 \<and> ws_processed item2 = 1"
    using assms(3,4) by (simp add: inc[OF assms(1)] Let_def reset_daily_counters_def)
qed

definition monday_worker :: worker_status where
  "monday_worker = (ws_new ''VisionWorker'')\<lparr>ws_status := ''RUNNING'', ws_last_heartbeat := Some 0, ws_processed := 700\<rparr>"

theorem daily_counters_never_reset_witness:
  "\<exists>item2. ws_get ''VisionWorker'' (snd (increase_processed ''VisionWorker'' (seconds 100000)
       (snd (heartbeat ''VisionWorker'' None True (seconds 90000) [monday_worker])))) = Some item2 \<and> ws_processed item2 = 701"
proof -
  have "ws_get ''VisionWorker'' [monday_worker] = Some monday_worker"
    by (simp add: ws_get_def monday_worker_def ws_new_def)
  moreover have "utc_day (seconds 100000) = utc_day (seconds 90000)" "utc_day 0 \<noteq> utc_day (seconds 100000)"
    by (simp_all add: utc_day_def seconds_def)
  moreover have "ws_last_heartbeat monday_worker = Some 0" "ws_processed monday_worker = 700"
    by (simp_all add: monday_worker_def)
  ultimately show ?thesis
    using daily_counters_never_reset[of "''VisionWorker''" "[monday_worker]" monday_worker "seconds 100000" "seconds 90000" 0 None True]
    by auto
qed


definition long_upload :: upload_job where
  "long_upload = uj_claimed ''w1'' (seconds 50) (uj_new 1 10 ''a'' ''UPLOAD'' ''incoming/a'' ''MemoryKeeper'' None None None)"


end
