(* ===== verification/ApiUsage.thy ===== *)
theory ApiUsage
  imports PyText
begin

text \<open>
  The monthly budget of the paid APIs: \<open>ApiUsageRepository\<close> over \<open>common_api_usage\<close>
  (\<open>src/app/common/repositories/api_usage_repository.py\<close>). \<open>reserve_usage\<close> is one INSERT
  that does nothing on a conflict and one conditional UPDATE, which is the boundary between
  concurrent workers; the other operations read a row and write it back. The caller's year and
  month default to those of the clock. The lemmas show that no sequence of calls of any number
  of workers spends more than the safe limit of the Vision API.
\<close>

section \<open>Rows and limits\<close>

record api_usage =
  au_id :: int
  au_provider :: string
  au_name :: string
  au_year :: int
  au_month :: int
  au_used :: int
  au_limit :: int
  au_remaining :: int
  au_last_called :: "time option"
  au_deleted :: bool

record api_limits =
  al_vision :: int
  al_geocoding :: int
  al_weather :: int
  al_platesolve :: int

definition google :: string where "google = ''GOOGLE''"
definition vision :: string where "vision = ''VISION''"

definition vision_safe_monthly_limit :: int where
  "vision_safe_monthly_limit = 900"

definition configured_limit :: "api_limits \<Rightarrow> string \<Rightarrow> int" where
  "configured_limit settings api_name =
     (if api_name = vision then al_vision settings
      else if api_name = ''GEOCODING'' then al_geocoding settings
      else if api_name = ''PLACES'' then al_geocoding settings
      else if api_name = ''WEATHER'' then al_weather settings
      else if api_name = ''PLATESOLVE'' then al_platesolve settings else 0)"

definition effective_limit :: "api_limits \<Rightarrow> string \<Rightarrow> int option \<Rightarrow> int" where
  "effective_limit settings api_name configured =
     (let limit = max 0 (case configured of None \<Rightarrow> configured_limit settings api_name | Some c \<Rightarrow> c)
      in if api_name = vision then min limit vision_safe_monthly_limit else limit)"

text \<open>The key of the unique constraint.\<close>

type_synonym usage_key = "string \<times> string \<times> int \<times> int"

definition au_key :: "api_usage \<Rightarrow> usage_key" where
  "au_key u = (au_provider u, au_name u, au_year u, au_month u)"

definition target_period :: "int option \<Rightarrow> int option \<Rightarrow> int \<times> int \<Rightarrow> int \<times> int" where
  "target_period year month now_ym = (or_else year (fst now_ym), or_else month (snd now_ym))"

definition au_new :: "int \<Rightarrow> usage_key \<Rightarrow> int \<Rightarrow> api_usage" where
  "au_new new_id k limit_unit =
     (case k of (provider, api_name, year, month) \<Rightarrow>
       \<lparr>au_id = new_id, au_provider = provider, au_name = api_name, au_year = year, au_month = month, au_used = 0,
        au_limit = limit_unit, au_remaining = limit_unit, au_last_called = None, au_deleted = False\<rparr>)"

datatype usage_error = UnitsNotPositive | UsageIntegrityError | UsageLimitExceeded

section \<open>Operations\<close>

definition reserve_usage ::
  "api_limits \<Rightarrow> usage_key \<Rightarrow> int \<Rightarrow> int \<Rightarrow> time \<Rightarrow> api_usage list \<Rightarrow> usage_error + bool \<times> api_usage list" where
  "reserve_usage settings k units new_id now rows =
     (if units < 1 then Inl UnitsNotPositive
      else let limit_unit = effective_limit settings (fst (snd k)) None in
        if limit_unit < units then Inr (False, rows)
        else
          let rows1 = (if k \<in> au_key ` set rows then rows else rows @ [au_new new_id k limit_unit]);
              hit = (\<lambda>u. au_key u = k \<and> au_used u + units \<le> limit_unit)
          in Inr (count_where hit rows1 = 1,
               update_where hit
                 (\<lambda>u. u\<lparr>au_used := au_used u + units, au_limit := limit_unit,
                        au_remaining := limit_unit - (au_used u + units), au_last_called := Some now,
                        au_deleted := False\<rparr>) rows1))"

definition get_or_create_usage ::
  "api_limits \<Rightarrow> usage_key \<Rightarrow> int \<Rightarrow> api_usage list \<Rightarrow> usage_error + api_usage \<times> api_usage list" where
  "get_or_create_usage settings k new_id rows =
     (let limit_unit = effective_limit settings (fst (snd k)) None in
      case List.find (\<lambda>u. \<not> au_deleted u \<and> au_key u = k) rows of
        Some u \<Rightarrow>
          if au_limit u \<noteq> limit_unit
          then let u' = u\<lparr>au_limit := limit_unit, au_remaining := max 0 (limit_unit - au_used u)\<rparr>
               in Inr (u', save_row au_key u' rows)
          else Inr (u, rows)
      | None \<Rightarrow>
          if k \<in> au_key ` set rows then Inl UsageIntegrityError
          else let u = au_new new_id k limit_unit in Inr (u, rows @ [u]))"

definition usage_remaining ::
  "api_limits \<Rightarrow> usage_key \<Rightarrow> int \<Rightarrow> api_usage list \<Rightarrow> usage_error + int \<times> api_usage list" where
  "usage_remaining settings k new_id rows =
     and_then (get_or_create_usage settings k new_id rows)
       (\<lambda>(u, rows'). Inr (max 0 (au_limit u - au_used u), rows'))"

definition can_use ::
  "api_limits \<Rightarrow> usage_key \<Rightarrow> int \<Rightarrow> int \<Rightarrow> api_usage list \<Rightarrow> usage_error + bool \<times> api_usage list" where
  "can_use settings k units new_id rows =
     and_then (usage_remaining settings k new_id rows) (\<lambda>(left, rows'). Inr (units \<le> left, rows'))"

definition increase_usage ::
  "api_limits \<Rightarrow> usage_key \<Rightarrow> int \<Rightarrow> int \<Rightarrow> time \<Rightarrow> api_usage list \<Rightarrow> usage_error + api_usage \<times> api_usage list" where
  "increase_usage settings k units new_id now rows =
     (if fst k = google \<and> fst (snd k) = vision then
        and_then (reserve_usage settings k units new_id now rows)
          (\<lambda>(reserved, rows'). if reserved then get_or_create_usage settings k new_id rows'
                               else Inl UsageLimitExceeded)
      else
        and_then (get_or_create_usage settings k new_id rows)
          (\<lambda>(u, rows'). let used = au_used u + units;
                            u' = u\<lparr>au_used := used, au_remaining := max 0 (au_limit u - used), au_last_called := Some now\<rparr>
                        in Inr (u', save_row au_key u' rows')))"

section \<open>Sequences of calls\<close>

text \<open>
  A call of a worker with the units it was granted: those of a reservation that succeeded. A
  refused reservation has committed the row it created; the other errors leave the table.
\<close>

datatype usage_op =
    Reserve usage_key int int time
  | Increase usage_key int int time
  | Look usage_key int int

fun usage_op_key :: "usage_op \<Rightarrow> usage_key" where
  "usage_op_key (Reserve k _ _ _) = k"
| "usage_op_key (Increase k _ _ _) = k"
| "usage_op_key (Look k _ _) = k"

fun usage_step :: "api_limits \<Rightarrow> usage_op \<Rightarrow> api_usage list \<Rightarrow> int \<times> api_usage list" where
  "usage_step settings (Reserve k units i now) rows =
     (case reserve_usage settings k units i now rows of
        Inl _ \<Rightarrow> (0, rows) | Inr (reserved, rows') \<Rightarrow> (if reserved then units else 0, rows'))"
| "usage_step settings (Increase k units i now) rows =
     (case increase_usage settings k units i now rows of
        Inr (u, rows') \<Rightarrow> (units, rows')
      | Inl UsageLimitExceeded \<Rightarrow>
          (case reserve_usage settings k units i now rows of Inl _ \<Rightarrow> (0, rows) | Inr (_, rows') \<Rightarrow> (0, rows'))
      | Inl _ \<Rightarrow> (0, rows))"
| "usage_step settings (Look k units i) rows =
     (case can_use settings k units i rows of Inl _ \<Rightarrow> (0, rows) | Inr (_, rows') \<Rightarrow> (0, rows'))"

text \<open>The settings may change between calls; \<open>granted\<close> sums the units of one key.\<close>

fun granted :: "usage_key \<Rightarrow> (api_limits \<times> usage_op) list \<Rightarrow> api_usage list \<Rightarrow> int \<times> api_usage list" where
  "granted k [] rows = (0, rows)"
| "granted k ((settings, op) # ops) rows =
     (let (units, rows1) = usage_step settings op rows; (total, rows2) = granted k ops rows1
      in ((if usage_op_key op = k then units else 0) + total, rows2))"

definition used_of :: "usage_key \<Rightarrow> api_usage list \<Rightarrow> int" where
  "used_of k rows = (case find_row au_key k rows of None \<Rightarrow> 0 | Some u \<Rightarrow> au_used u)"

section \<open>Laws\<close>

lemma effective_limit_vision: "effective_limit settings vision c \<le> vision_safe_monthly_limit"
  by (simp add: effective_limit_def Let_def)

lemma effective_limit_nonneg: "0 \<le> effective_limit settings a c"
  by (simp add: effective_limit_def Let_def vision_safe_monthly_limit_def)

lemma au_key_new [simp]: "au_key (au_new i k l) = k" and au_used_new [simp]: "au_used (au_new i k l) = 0"
  by (cases k; simp add: au_new_def au_key_def)+

lemma used_of_save:
  "used_of k (save_row au_key u rows) =
     (if k = au_key u \<and> k \<in> au_key ` set rows then au_used u else used_of k rows)"
  by (auto simp: used_of_def find_row_save_row)

lemma used_of_new: "used_of k (rows @ [au_new i k' l]) = used_of k rows"
  by (auto simp: used_of_def find_row_append split: option.splits)

lemma used_of_update:
  assumes "distinct (map au_key rows)" and "\<And>u. au_key (f u) = au_key u" and "\<And>u. au_used (f u) = au_used u + n"
  shows "used_of k (update_where (\<lambda>u. au_key u = k' \<and> au_used u + n \<le> l) f rows) =
    used_of k rows + (if k = k' \<and> k \<in> au_key ` set rows \<and> used_of k rows + n \<le> l then n else 0)"
proof (cases "find_row au_key k rows")
  case None
  moreover from None have "k \<notin> au_key ` set rows" by (simp add: find_row_None_iff)
  ultimately show ?thesis by (simp add: used_of_def find_row_update_where assms(2))
next
  case (Some u)
  then have u: "u \<in> set rows" "au_key u = k" by (auto dest: find_row_SomeD)
  then have "k \<in> au_key ` set rows" by blast
  then show ?thesis using Some u(2) assms(3) by (simp add: used_of_def find_row_update_where assms(2))
qed

lemma count_hit:
  assumes "distinct (map au_key rows)" and "k \<in> au_key ` set rows"
  shows "count_where (\<lambda>u. au_key u = k \<and> P (au_used u)) rows = (if P (used_of k rows) then 1 else 0)"
proof -
  obtain u where u: "u \<in> set rows" "au_key u = k" using assms(2) by auto
  then have "find_row au_key k rows = Some u" using assms(1) find_row_mem by metis
  then have used: "used_of k rows = au_used u" by (simp add: used_of_def)
  have one: "count_where (\<lambda>u. au_key u = k \<and> P (au_used u)) rows
      = (if List.find (\<lambda>u. au_key u = k \<and> P (au_used u)) rows = None then 0 else 1)"
    by (rule count_where_pk[OF assms(1)]) simp
  have "List.find (\<lambda>u. au_key u = k \<and> P (au_used u)) rows = None \<longleftrightarrow> \<not> P (au_used u)"
  proof
    assume "List.find (\<lambda>u. au_key u = k \<and> P (au_used u)) rows = None"
    then show "\<not> P (au_used u)" using u find_NoneD by fastforce
  next
    assume "\<not> P (au_used u)"
    moreover have "x = u" if "x \<in> set rows" "au_key x = k" for x
      using that u assms(1) by (auto simp: distinct_map inj_on_def)
    ultimately show "List.find (\<lambda>u. au_key u = k \<and> P (au_used u)) rows = None"
      by (metis (mono_tags, lifting) find_SomeD not_None_eq)
  qed
  then show ?thesis using one used by simp
qed


lemma reserve_usage_cases:
  assumes "reserve_usage settings k units i now rows = Inr (b, rows')" and "distinct (map au_key rows)"
  shows "distinct (map au_key rows')" and "1 \<le> units"
    and "b \<Longrightarrow> used_of k rows + units \<le> effective_limit settings (fst (snd k)) None"
    and "b \<Longrightarrow> \<exists>u\<in>set rows'. au_key u = k \<and> \<not> au_deleted u"
    and "\<not> b \<Longrightarrow> 0 \<le> used_of k rows \<Longrightarrow> effective_limit settings (fst (snd k)) None < used_of k rows + units"
    and "used_of k' rows' = used_of k' rows + (if k' = k \<and> b then units else 0)"
proof -
  let ?l = "effective_limit settings (fst (snd k)) None"
  have units: "1 \<le> units" using assms(1) by (auto simp: reserve_usage_def split: if_splits)
  have "distinct (map au_key rows') \<and>
    (b \<longrightarrow> used_of k rows + units \<le> ?l \<and> (\<exists>u\<in>set rows'. au_key u = k \<and> \<not> au_deleted u)) \<and>
    (\<not> b \<and> 0 \<le> used_of k rows \<longrightarrow> ?l < used_of k rows + units) \<and>
    used_of k' rows' = used_of k' rows + (if k' = k \<and> b then units else 0)"
  proof (cases "?l < units")
    case True
    then have "\<not> b" "rows' = rows" using assms(1) units by (auto simp: reserve_usage_def Let_def)
    then show ?thesis using assms(2) units True by simp
  next
    case False
    define rows1 where "rows1 = (if k \<in> au_key ` set rows then rows else rows @ [au_new i k ?l])"
    define f where "f = (\<lambda>u :: api_usage. u\<lparr>au_used := au_used u + units, au_limit := ?l,
        au_remaining := ?l - (au_used u + units), au_last_called := Some now, au_deleted := False\<rparr>)"
    have f: "au_key (f u) = au_key u" "au_used (f u) = au_used u + units" "\<not> au_deleted (f u)" for u
      by (simp_all add: f_def au_key_def)
    have d: "distinct (map au_key rows1)" and mem: "k \<in> au_key ` set rows1"
      using assms(2) by (auto simp: rows1_def)
    have same: "used_of k' rows1 = used_of k' rows" for k'
      by (simp add: rows1_def used_of_new)
    have b: "b = (count_where (\<lambda>u. au_key u = k \<and> au_used u + units \<le> ?l) rows1 = 1)"
      and rows': "rows' = update_where (\<lambda>u. au_key u = k \<and> au_used u + units \<le> ?l) f rows1"
      using assms(1) units False by (auto simp: reserve_usage_def Let_def rows1_def f_def)
    have room: "b \<longleftrightarrow> used_of k rows + units \<le> ?l"
      unfolding b using count_hit[OF d mem, of "\<lambda>x. x + units \<le> ?l"] by (simp add: same)
    moreover have "used_of k' rows' = used_of k' rows + (if k' = k \<and> used_of k rows + units \<le> ?l then units else 0)"
      unfolding rows' used_of_update[OF d f(1,2)] same using mem by auto
    moreover have "distinct (map au_key rows')" unfolding rows' using d f(1) by (simp add: map_update_where)
    moreover have "\<exists>u\<in>set rows'. au_key u = k \<and> \<not> au_deleted u" if b
    proof -
      have "0 < count_where (\<lambda>u. au_key u = k \<and> au_used u + units \<le> ?l) rows1" using that b by simp
      then obtain u where "u \<in> set rows1" "au_key u = k" "au_used u + units \<le> ?l"
        by (auto simp: count_where_def filter_empty_conv)
      then show ?thesis unfolding rows' set_update_where using f by (intro bexI[of _ "f u"]) (auto intro!: image_eqI[of _ _ u])
    qed
    ultimately show ?thesis by auto
  qed
  then show "distinct (map au_key rows')" and "b \<Longrightarrow> used_of k rows + units \<le> ?l"
    and "b \<Longrightarrow> \<exists>u\<in>set rows'. au_key u = k \<and> \<not> au_deleted u"
    and "\<not> b \<Longrightarrow> 0 \<le> used_of k rows \<Longrightarrow> ?l < used_of k rows + units"
    and "used_of k' rows' = used_of k' rows + (if k' = k \<and> b then units else 0)"
    by blast+
  show "1 \<le> units" by (rule units)
qed

lemma get_or_create_cases:
  assumes "get_or_create_usage settings k i rows = Inr (u, rows')" and "distinct (map au_key rows)"
  shows "distinct (map au_key rows')" and "au_key u = k" and "k \<in> au_key ` set rows'"
    and "au_used u = used_of k rows" and "au_limit u = effective_limit settings (fst (snd k)) None"
    and "used_of k' rows' = used_of k' rows"
proof -
  have "distinct (map au_key rows') \<and> au_key u = k \<and> k \<in> au_key ` set rows' \<and> au_used u = used_of k rows \<and>
    au_limit u = effective_limit settings (fst (snd k)) None \<and> used_of k' rows' = used_of k' rows"
  proof (cases "List.find (\<lambda>u. \<not> au_deleted u \<and> au_key u = k) rows")
    case (Some v)
    then have v: "v \<in> set rows" "au_key v = k" by (auto dest: find_SomeD)
    then have used: "used_of k rows = au_used v" using assms(2) find_row_mem[of au_key rows v] by (simp add: used_of_def)
    have u: "au_key u = k" "au_used u = au_used v" "rows' = rows \<or> rows' = save_row au_key u rows"
        "au_limit u = effective_limit settings (fst (snd k)) None"
      using assms(1) Some v(2) by (auto simp: get_or_create_usage_def Let_def au_key_def split: if_splits)
    have "used_of k' rows' = used_of k' rows"
      using u used v(1) by (auto simp: used_of_save)
    moreover have keys: "map au_key rows' = map au_key rows" using u(3) by auto
    moreover have "k \<in> au_key ` set rows'" using v keys by (metis image_eqI image_set)
    ultimately show ?thesis using u used assms(2) by simp
  next
    case None
    then have new: "u = au_new i k (effective_limit settings (fst (snd k)) None)" "rows' = rows @ [u]"
        and fresh: "k \<notin> au_key ` set rows"
      using assms(1) by (auto simp: get_or_create_usage_def Let_def split: if_splits)
    have "used_of k rows = 0" using fresh by (simp add: used_of_def find_row_None_iff[THEN iffD2])
    moreover have "au_limit (au_new i k l) = l" for l by (cases k) (simp add: au_new_def)
    ultimately show ?thesis using assms(2) fresh by (simp add: new used_of_new)
  qed
  then show "distinct (map au_key rows')" "au_key u = k" "k \<in> au_key ` set rows'"
    "au_used u = used_of k rows" "au_limit u = effective_limit settings (fst (snd k)) None"
    "used_of k' rows' = used_of k' rows" by auto
qed

lemma get_or_create_found:
  assumes "u \<in> set rows" and "au_key u = k" and "\<not> au_deleted u"
  shows "\<exists>v rows'. get_or_create_usage settings k i rows = Inr (v, rows')"
proof (cases "List.find (\<lambda>u. \<not> au_deleted u \<and> au_key u = k) rows")
  case None
  then show ?thesis using assms by (auto dest: find_NoneD)
qed (simp add: get_or_create_usage_def Let_def)

lemma increase_other_cases:
  assumes "increase_usage settings k n i now rows = Inr (u, rows')" and "distinct (map au_key rows)"
    and "\<not> (fst k = google \<and> fst (snd k) = vision)"
  shows "distinct (map au_key rows') \<and> used_of k' rows' = used_of k' rows + (if k' = k then n else 0)"
proof -
  obtain v rows1 where g: "get_or_create_usage settings k i rows = Inr (v, rows1)"
    using assms(1) unfolding increase_usage_def if_not_P[OF assms(3)] by auto
  define v' where "v' = v\<lparr>au_used := au_used v + n, au_remaining := max 0 (au_limit v - (au_used v + n)),
      au_last_called := Some now\<rparr>"
  have "rows' = save_row au_key v' rows1"
    using assms(1) g unfolding increase_usage_def if_not_P[OF assms(3)] by (auto simp: Let_def v'_def)
  moreover have "au_key v' = k" "au_used v' = au_used v + n"
    using get_or_create_cases(2)[OF g assms(2)] by (simp_all add: v'_def au_key_def)
  ultimately have rows': "\<exists>v'. au_key v' = k \<and> au_used v' = au_used v + n \<and> rows' = save_row au_key v' rows1"
    by blast
  then obtain w where w: "au_key w = k" "au_used w = au_used v + n" "rows' = save_row au_key w rows1" by blast
  note g1 = get_or_create_cases[OF g assms(2)]
  have "used_of k' rows' = (if k' = k then used_of k rows + n else used_of k' rows)"
    using g1(3,4,6) w by (simp add: used_of_save)
  then show ?thesis using g1(1) w(3) by simp
qed

lemma usage_step_spends:
  assumes "usage_step settings op rows = (units, rows')" and "distinct (map au_key rows)"
  shows "distinct (map au_key rows') \<and>
    used_of k rows' = used_of k rows + (if usage_op_key op = k then units else 0)"
proof (cases op)
  case (Reserve k0 n i now)
  show ?thesis
  proof (cases "reserve_usage settings k0 n i now rows")
    case (Inr p)
    obtain b rows1 where p: "p = (b, rows1)" by (cases p)
    show ?thesis using assms Reserve Inr reserve_usage_cases(1,6)[OF Inr[unfolded p] assms(2)] p by auto
  qed (use assms Reserve in simp)
next
  case (Look k0 n i)
  show ?thesis
  proof (cases "get_or_create_usage settings k0 i rows")
    case (Inr p)
    obtain v rows1 where p: "p = (v, rows1)" by (cases p)
    show ?thesis using assms Look Inr get_or_create_cases(1,6)[OF Inr[unfolded p] assms(2)] p
      by (auto simp: can_use_def usage_remaining_def)
  qed (use assms Look in \<open>simp add: can_use_def usage_remaining_def\<close>)
next
  case (Increase k0 n i now)
  show ?thesis
  proof (cases "fst k0 = google \<and> fst (snd k0) = vision")
    case True
    show ?thesis
    proof (cases "reserve_usage settings k0 n i now rows")
      case (Inl e)
      then have "e \<noteq> UsageLimitExceeded" by (auto simp: reserve_usage_def Let_def split: if_splits)
      then have "units = 0 \<and> rows' = rows" using assms(1) Increase True Inl
        by (cases e) (simp_all add: increase_usage_def)
      then show ?thesis using assms(2) by simp
    next
      case (Inr p)
      obtain b rows1 where p: "p = (b, rows1)" by (cases p)
      note r = reserve_usage_cases[OF Inr[unfolded p] assms(2)]
      show ?thesis
      proof (cases b)
        case False
        then have "units = 0 \<and> rows' = rows1" using assms(1) Increase True Inr p by (simp add: increase_usage_def)
        then show ?thesis using r(1,6) False by simp
      next
        case b: True
        then obtain v rows2 where g: "get_or_create_usage settings k0 i rows1 = Inr (v, rows2)"
          using r(4) get_or_create_found by blast
        then have "units = n" "rows' = rows2"
          using assms(1) Increase True Inr p b by (simp_all add: increase_usage_def)
        then show ?thesis using r(6) b get_or_create_cases(1,6)[OF g r(1)] Increase by auto
      qed
    qed
  next
    case False
    show ?thesis
    proof (cases "increase_usage settings k0 n i now rows")
      case (Inl e)
      then have "e \<noteq> UsageLimitExceeded" using False
        by (auto simp: increase_usage_def and_then_def get_or_create_usage_def Let_def split: if_splits sum.splits option.splits)
      then have "units = 0 \<and> rows' = rows" using assms(1) Increase Inl by (cases e) simp_all
      then show ?thesis using assms(2) by simp
    next
      case (Inr p)
      obtain u rows1 where p: "p = (u, rows1)" by (cases p)
      show ?thesis using assms(1) Increase Inr p increase_other_cases[OF Inr[unfolded p] assms(2) False] by auto
    qed
  qed
qed

lemma usage_step_capped:
  assumes "usage_step settings op rows = (units, rows')" and "distinct (map au_key rows)"
    and "usage_op_key op = k" and "fst k = google \<and> fst (snd k) = vision" and "0 \<le> used_of k rows"
  shows "0 \<le> units \<and> (units = 0 \<or> used_of k rows + units \<le> vision_safe_monthly_limit)"
proof -
  have cap: "0 \<le> n \<and> used_of k rows + n \<le> vision_safe_monthly_limit"
    if "reserve_usage settings k n i now rows = Inr (True, rows1)" for n i now rows1
    using reserve_usage_cases(2,3)[OF that assms(2)] effective_limit_vision[of settings None] assms(4) by fastforce
  show ?thesis
  proof (cases op)
    case (Reserve k0 n i now)
    then show ?thesis using assms cap by (auto split: sum.splits prod.splits if_splits)
  next
    case (Look k0 n i)
    then show ?thesis using assms by (auto split: sum.splits prod.splits)
  next
    case (Increase k0 n i now)
    show ?thesis
    proof (cases "increase_usage settings k0 n i now rows")
      case (Inl e)
      then show ?thesis using assms Increase by (cases e) (auto split: sum.splits prod.splits)
    next
      case (Inr p)
      then have "\<exists>rows1. reserve_usage settings k n i now rows = Inr (True, rows1)"
        using assms(3,4) Increase by (auto simp: increase_usage_def split: if_splits)
      then show ?thesis using cap assms(1) Increase Inr by (auto split: prod.splits)
    qed
  qed
qed

section \<open>Properties\<close>

text \<open>
  C19. The Vision API is never overspent: from an empty table, whatever reservations, increases
  and look-ups the workers interleave and however the configured limits change, the units
  granted for a month are what its row counts, and together at most the safe limit of 900.
\<close>

theorem vision_spend_capped:
  "0 \<le> fst (granted (google, vision, y, m) ops []) \<and>
   fst (granted (google, vision, y, m) ops []) \<le> vision_safe_monthly_limit \<and>
   used_of (google, vision, y, m) (snd (granted (google, vision, y, m) ops [])) = fst (granted (google, vision, y, m) ops [])"
proof -
  let ?k = "(google, vision, y, m)"
  have "0 \<le> fst (granted ?k ops rows) \<and>
      used_of ?k rows + fst (granted ?k ops rows) \<le> vision_safe_monthly_limit \<and>
      used_of ?k (snd (granted ?k ops rows)) = used_of ?k rows + fst (granted ?k ops rows)"
    if "distinct (map au_key rows)" "0 \<le> used_of ?k rows" "used_of ?k rows \<le> vision_safe_monthly_limit" for rows
    using that
  proof (induction ops arbitrary: rows)
    case Nil
    then show ?case by simp
  next
    case (Cons sop ops)
    obtain settings op where sop: "sop = (settings, op)" by (cases sop)
    obtain units rows1 where step: "usage_step settings op rows = (units, rows1)" by fastforce
    note spend = usage_step_spends[OF step Cons.prems(1), of ?k]
    define n where "n = (if usage_op_key op = ?k then units else 0)"
    have "0 \<le> n \<and> (n = 0 \<or> used_of ?k rows + n \<le> vision_safe_monthly_limit)"
      using usage_step_capped[OF step Cons.prems(1) _ _ Cons.prems(2)] by (auto simp: n_def)
    moreover have "used_of ?k rows1 = used_of ?k rows + n" using spend by (simp add: n_def)
    ultimately have "0 \<le> fst (granted ?k ops rows1) \<and>
        used_of ?k rows1 + fst (granted ?k ops rows1) \<le> vision_safe_monthly_limit \<and>
        used_of ?k (snd (granted ?k ops rows1)) = used_of ?k rows1 + fst (granted ?k ops rows1)"
      using Cons.IH[of rows1] Cons.prems spend by auto
    moreover obtain total rows2 where g: "granted ?k ops rows1 = (total, rows2)" by fastforce
    have "granted ?k (sop # ops) rows = (n + total, rows2)" by (simp add: sop step g n_def)
    ultimately show ?case
      using g \<open>used_of ?k rows1 = used_of ?k rows + n\<close> \<open>0 \<le> n \<and> _\<close> by simp
  qed
  from this[of "[]"] show ?thesis by (simp add: used_of_def vision_safe_monthly_limit_def)
qed

text \<open>
  Reservations use the whole budget: on a table with one row per month, a reservation
  of at least one unit is granted exactly when the month has room for it below the effective
  limit, and a granted one counts all its units at once.
\<close>

theorem reserve_grants_iff_room:
  assumes "distinct (map au_key rows)" and "0 \<le> used_of k rows" and "1 \<le> units"
  shows "\<exists>b rows'. reserve_usage settings k units i now rows = Inr (b, rows') \<and>
    (b \<longleftrightarrow> used_of k rows + units \<le> effective_limit settings (fst (snd k)) None) \<and>
    used_of k rows' = (if b then used_of k rows + units else used_of k rows)"
proof -
  obtain b rows' where r: "reserve_usage settings k units i now rows = Inr (b, rows')"
  proof -
    have "\<exists>p. reserve_usage settings k units i now rows = Inr p"
      using assms(3) unfolding reserve_usage_def Let_def by (simp, blast)
    then show ?thesis using that by (metis prod.collapse)
  qed
  have "b \<longleftrightarrow> used_of k rows + units \<le> effective_limit settings (fst (snd k)) None"
    using reserve_usage_cases(3,5)[OF r assms(1)] assms(2) by fastforce
  then show ?thesis using r reserve_usage_cases(6)[OF r assms(1)] by auto
qed

theorem reserve_grants_iff_room_witness:
  "\<exists>b rows'. reserve_usage \<lparr>al_vision = 5000, al_geocoding = 0, al_weather = 0, al_platesolve = 0\<rparr>
       (google, vision, 2026, 7) 900 1 0 [] = Inr (b, rows') \<and> b \<and> used_of (google, vision, 2026, 7) rows' = 900"
  using reserve_grants_iff_room[of "[]" "(google, vision, 2026, 7)" 900
      "\<lparr>al_vision = 5000, al_geocoding = 0, al_weather = 0, al_platesolve = 0\<rparr>" 1 0]
  by (auto simp: used_of_def effective_limit_def configured_limit_def vision_safe_monthly_limit_def)

end
