(* ===== verification/VisionQueue.thy ===== *)
theory VisionQueue
  imports WorkerStatus ApiUsage NumText
begin

text \<open>
  The queue of image analyses: \<open>VisionJobRepository\<close> over \<open>common_vision_jobs\<close>
  (\<open>src/app/common/repositories/vision_job_repository.py\<close>), the priority policy
  (\<open>priority_calculator.py\<close>), the two places that enqueue
  (\<open>src/worker/background_worker.py\<close>, \<open>src/worker/plugins/hash_plugin.py\<close>) and the step of
  the worker (\<open>src/worker/vision_worker.py\<close>). The order of PostgreSQL puts a missing request
  time first when descending. The lemmas show that a job is claimed once, that recovery leaves
  the job of a live worker alone, and that a file has one analysis.
\<close>

section \<open>Lookups and creation\<close>

definition vj_blocks :: "vision_job \<Rightarrow> bool" where
  "vj_blocks j \<longleftrightarrow> vj_status j = WAITING \<or> vj_status j = PROCESSING \<or> vj_status j = COMPLETED"

definition vj_get_blocking_status :: "int \<Rightarrow> vision_job list \<Rightarrow> job_status option" where
  "vj_get_blocking_status file_id rows =
     map_option vj_status (first_by (\<lambda>j. - vj_id j) (\<lambda>j. vj_file j = file_id \<and> \<not> vj_deleted j \<and> vj_blocks j) rows)"

definition vj_new :: "int \<Rightarrow> time \<Rightarrow> int \<Rightarrow> int \<Rightarrow> string \<Rightarrow> vision_job" where
  "vj_new new_id now file_id priority provider =
     \<lparr>vj_id = new_id, vj_file = file_id, vj_priority = priority, vj_status = WAITING, vj_retry_count = 0,
      vj_provider = provider, vj_requested_at = Some now, vj_started_at = None, vj_completed_at = None,
      vj_last_error = None, vj_deleted = False\<rparr>"

text \<open>\<open>new_id\<close> is drawn from the sequence of the table; \<open>refs_ok\<close> is the foreign key.\<close>

definition vj_create ::
  "bool \<Rightarrow> bool \<Rightarrow> int \<Rightarrow> time \<Rightarrow> int \<Rightarrow> int \<Rightarrow> string \<Rightarrow> vision_job list
     \<Rightarrow> db_error + vision_job option \<times> vision_job list" where
  "vj_create skip_duplicate_check refs_ok new_id now file_id priority provider rows =
     (if \<not> skip_duplicate_check \<and> vj_get_blocking_status file_id rows \<noteq> None then Inr (None, rows)
      else if \<not> refs_ok \<or> new_id \<in> vj_id ` set rows then Inl IntegrityError
      else let job = vj_new new_id now file_id priority provider in Inr (Some job, rows @ [job]))"

definition vj_waiting :: "vision_job \<Rightarrow> bool" where
  "vj_waiting j \<longleftrightarrow> vj_status j = WAITING \<and> \<not> vj_deleted j"

definition vj_rank :: "vision_job \<Rightarrow> int \<times> bool \<times> time \<times> int" where
  "vj_rank j = (vj_priority j, vj_requested_at j = None, or_else (vj_requested_at j) 0, vj_id j)"

definition vj_get_waiting_jobs :: "nat \<Rightarrow> vision_job list \<Rightarrow> vision_job list" where
  "vj_get_waiting_jobs limit rows = take limit (rev (order_by vj_rank (filter vj_waiting rows)))"

definition vj_get_next_waiting :: "vision_job list \<Rightarrow> vision_job option" where
  "vj_get_next_waiting rows = first_row (vj_get_waiting_jobs 1 rows)"

definition vj_exists :: "int \<Rightarrow> vision_job list \<Rightarrow> bool" where
  "vj_exists file_id rows =
     exists_row (\<lambda>j. vj_file j = file_id \<and> \<not> vj_deleted j \<and> (vj_status j = WAITING \<or> vj_status j = PROCESSING)) rows"

definition vj_is_completed :: "int \<Rightarrow> vision_job list \<Rightarrow> bool" where
  "vj_is_completed file_id rows =
     exists_row (\<lambda>j. vj_file j = file_id \<and> \<not> vj_deleted j \<and> vj_status j = COMPLETED) rows"

definition vj_count_by_status :: "job_status \<Rightarrow> vision_job list \<Rightarrow> nat" where
  "vj_count_by_status st rows = count_where (\<lambda>j. \<not> vj_deleted j \<and> vj_status j = st) rows"

definition vj_count_completed_today :: "time \<Rightarrow> vision_job list \<Rightarrow> nat" where
  "vj_count_completed_today now rows =
     count_where (\<lambda>j. \<not> vj_deleted j \<and> vj_status j = COMPLETED \<and>
       (case vj_completed_at j of None \<Rightarrow> False | Some t \<Rightarrow> start_of_day now \<le> t)) rows"

section \<open>Claim and finish\<close>

definition vj_claimable :: "int \<Rightarrow> vision_job \<Rightarrow> bool" where
  "vj_claimable i j \<longleftrightarrow> vj_id j = i \<and> vj_status j = WAITING \<and> \<not> vj_deleted j"

definition vj_mark_processing :: "time \<Rightarrow> vision_job \<Rightarrow> vision_job list \<Rightarrow> vision_job option \<times> vision_job list" where
  "vj_mark_processing now job rows =
     (let hit = vj_claimable (vj_id job) in
      if count_where hit rows \<noteq> 1 then (None, rows)
      else let rows' = update_where hit (\<lambda>j. j\<lparr>vj_status := PROCESSING, vj_started_at := Some now,
                         vj_completed_at := None, vj_last_error := None\<rparr>) rows
           in (find_row vj_id (vj_id job) rows', rows'))"

text \<open>The finishing methods write the columns they assign to the row of the object they hold.\<close>

definition vj_write :: "(vision_job \<Rightarrow> vision_job) \<Rightarrow> vision_job \<Rightarrow> vision_job list \<Rightarrow> vision_job \<times> vision_job list" where
  "vj_write f job rows = (f job, update_where (\<lambda>j. vj_id j = vj_id job) f rows)"

definition vj_mark_completed :: "time \<Rightarrow> vision_job \<Rightarrow> vision_job list \<Rightarrow> vision_job \<times> vision_job list" where
  "vj_mark_completed now =
     vj_write (\<lambda>j. j\<lparr>vj_status := COMPLETED, vj_completed_at := Some now, vj_last_error := None\<rparr>)"

definition vj_mark_waiting :: "vision_job \<Rightarrow> vision_job list \<Rightarrow> vision_job \<times> vision_job list" where
  "vj_mark_waiting =
     vj_write (\<lambda>j. j\<lparr>vj_status := WAITING, vj_started_at := None, vj_completed_at := None, vj_last_error := None\<rparr>)"

definition vj_mark_failed :: "time \<Rightarrow> string \<Rightarrow> vision_job \<Rightarrow> vision_job list \<Rightarrow> vision_job \<times> vision_job list" where
  "vj_mark_failed now error_message job =
     vj_write (\<lambda>j. j\<lparr>vj_status := FAILED, vj_retry_count := vj_retry_count job + 1,
                     vj_last_error := Some error_message, vj_completed_at := Some now\<rparr>) job"

section \<open>Recovery\<close>

definition vision_worker_like :: "string \<Rightarrow> string \<Rightarrow> bool" where
  "vision_worker_like prefix name \<longleftrightarrow> name = prefix \<or> starts_with (prefix @ ''-'') name"

definition live_worker :: "string \<Rightarrow> time \<Rightarrow> worker_status \<Rightarrow> bool" where
  "live_worker prefix live_after w \<longleftrightarrow>
     ws_status w = ''RUNNING'' \<and> (case ws_last_heartbeat w of None \<Rightarrow> False | Some t \<Rightarrow> live_after \<le> t) \<and>
     ws_current_job w \<noteq> None \<and> vision_worker_like prefix (ws_name w)"

definition live_processing_job_ids :: "string \<Rightarrow> time \<Rightarrow> worker_status list \<Rightarrow> int list" where
  "live_processing_job_ids prefix live_after workers =
     concat (map (\<lambda>w. case py_int (or_else (ws_current_job w) []) of None \<Rightarrow> [] | Some i \<Rightarrow> [i])
       (filter (live_worker prefix live_after) workers))"

definition vj_stale :: "time \<Rightarrow> int list \<Rightarrow> vision_job \<Rightarrow> bool" where
  "vj_stale stale_before protected_ids j \<longleftrightarrow>
     \<not> vj_deleted j \<and> vj_status j = PROCESSING \<and> vj_completed_at j = None \<and>
     (case vj_started_at j of None \<Rightarrow> False | Some t \<Rightarrow> t < stale_before) \<and> vj_id j \<notin> set protected_ids"

definition reset_stale_job :: "vision_job \<Rightarrow> vision_job" where
  "reset_stale_job j =
     j\<lparr>vj_status := WAITING, vj_started_at := None, vj_completed_at := None, vj_last_error := None\<rparr>"

definition recover_stale_rows ::
  "int list \<Rightarrow> time \<Rightarrow> int list \<Rightarrow> nat \<Rightarrow> vision_job list \<Rightarrow> nat \<times> vision_job list" where
  "recover_stale_rows locked stale_before protected_ids limit rows =
     (let jobs = take limit (order_by (\<lambda>j. (or_else (vj_started_at j) 0, vj_id j))
                   (filter (\<lambda>j. vj_stale stale_before protected_ids j \<and> vj_id j \<notin> set locked) rows));
          ids = map vj_id jobs
      in (length jobs, update_where (\<lambda>j. vj_id j \<in> set ids) reset_stale_job rows))"

definition vj_recover_stale ::
  "int list \<Rightarrow> int \<Rightarrow> string \<Rightarrow> int \<Rightarrow> int \<Rightarrow> time \<Rightarrow> worker_status list \<Rightarrow> vision_job list \<Rightarrow> nat \<times> vision_job list" where
  "vj_recover_stale locked stale_seconds prefix live_seconds limit now workers rows =
     (if stale_seconds \<le> 0 \<or> live_seconds \<le> 0 \<or> limit \<le> 0 then (0, rows)
      else recover_stale_rows locked (now - seconds stale_seconds)
             (live_processing_job_ids prefix (now - seconds live_seconds) workers) (nat limit) rows)"

section \<open>Priority\<close>

definition calculate_priority :: "time option \<Rightarrow> bool \<Rightarrow> bool \<Rightarrow> bool \<Rightarrow> time \<Rightarrow> int option" where
  "calculate_priority uploaded_at has_gps is_favorite vision_completed now =
     (if vision_completed then None
      else
        let by_age = (case uploaded_at of
               None \<Rightarrow> 0
             | Some t \<Rightarrow> if utc_day t = utc_day now then 50
                       else if now - seconds (30 * 86400) \<le> t then 30 else 0);
            by_gps = (if \<not> has_gps then 20 else 0);
            by_favorite = (if is_favorite then 30 else 0)
        in Some (max 0 (min 100 (by_age + by_gps + by_favorite))))"

section \<open>Enqueueing\<close>

datatype media_category = Image | Heic | Video | Legacy

text \<open>What the pipeline knows of the file when it enqueues: the media, if it was probed.\<close>

definition enqueue_vision_job ::
  "media_category option \<Rightarrow> bool \<Rightarrow> bool \<Rightarrow> int \<Rightarrow> time \<Rightarrow> common_file \<Rightarrow> vision_job list
     \<Rightarrow> db_error + string \<times> vision_job list" where
  "enqueue_vision_job media has_preview has_gps new_id now f rows =
     (if media = Some Video then Inr (''VISION_QUEUE_SKIPPED:VIDEO'', rows)
      else if media = Some Heic \<and> \<not> has_preview then Inr (''VISION_QUEUE_SKIPPED:HEIC_DERIVATIVE_UNAVAILABLE'', rows)
      else
        let blocking_status = vj_get_blocking_status (cf_id f) rows in
        if blocking_status = Some WAITING \<or> blocking_status = Some PROCESSING
        then Inr (''VISION_QUEUE_SKIPPED:ALREADY_EXISTS'', rows)
        else case calculate_priority (Some (cf_created_at f)) has_gps False (blocking_status = Some COMPLETED) now of
          None \<Rightarrow> Inr (''VISION_QUEUE_SKIPPED:VISION_COMPLETED'', rows)
        | Some priority \<Rightarrow>
            and_then (vj_create True True new_id now (cf_id f) priority ''GOOGLE'' rows) (\<lambda>(job, rows').
              if job = None then Inr (''VISION_QUEUE_SKIPPED:ALREADY_EXISTS'', rows')
              else Inr (''VISION_QUEUE_CREATED:priority='' @ str_int priority, rows')))"

definition reuse_or_enqueue_vision ::
  "media_category option \<Rightarrow> bool \<Rightarrow> int \<Rightarrow> time \<Rightarrow> common_file \<Rightarrow> vision_job list
     \<Rightarrow> db_error + string \<times> vision_job list" where
  "reuse_or_enqueue_vision media raw_exists new_id now f rows =
     (if media = Some Video then Inr (''VISION_QUEUE_SKIPPED:VIDEO'', rows)
      else if media = Some Heic \<and> (cf_preview_path f = None \<or> cf_preview_path f = Some [])
      then Inr (''VISION_QUEUE_SKIPPED:HEIC_DERIVATIVE_UNAVAILABLE'', rows)
      else
        let blocking_status = vj_get_blocking_status (cf_id f) rows in
        if blocking_status = Some COMPLETED then Inr (''VISION_RAW_REUSED:COMPLETED'', rows)
        else if blocking_status = Some WAITING \<or> blocking_status = Some PROCESSING
        then Inr (''VISION_QUEUE_SKIPPED:ALREADY_EXISTS'', rows)
        else if raw_exists then Inr (''VISION_RAW_REUSED:LABELS'', rows)
        else and_then (vj_create True True new_id now (cf_id f) 0 ''GOOGLE'' rows)
               (\<lambda>(_, rows'). Inr (''VISION_QUEUE_CREATED:RESET_REIMPORT'', rows')))"

section \<open>The step of the worker\<close>

text \<open>
  How an analysis ends: \<open>process_vision_job\<close> returns, finds the monthly limit reached, or
  raises. The commits of the plugins are on other tables; what other sessions do to the queue
  meanwhile is \<open>meanwhile\<close>.
\<close>

datatype vision_outcome = Analysed | QuotaExceeded | AnalysisFails string
datatype vision_step = NoJob | QuotaWait | ClaimLost | Finished vision_outcome

record vision_env =
  ve_settings :: api_limits
  ve_month :: "int \<times> int"
  ve_usage_id :: int
  ve_claimed_at :: time
  ve_finished_at :: time
  ve_meanwhile :: "vision_job list \<Rightarrow> vision_job list"
  ve_outcome :: vision_outcome

definition finish_vision_job :: "vision_env \<Rightarrow> vision_job \<Rightarrow> vision_job list \<Rightarrow> vision_job list" where
  "finish_vision_job env job rows =
     (case ve_outcome env of
        Analysed \<Rightarrow> snd (vj_mark_completed (ve_finished_at env) job rows)
      | QuotaExceeded \<Rightarrow> snd (vj_mark_waiting job rows)
      | AnalysisFails msg \<Rightarrow>
          snd (vj_mark_failed (ve_finished_at env) msg (or_else (find_row vj_id (vj_id job) rows) job) rows))"

definition process_next_vision_job ::
  "vision_env \<Rightarrow> vision_job list \<times> api_usage list \<Rightarrow> usage_error + vision_step \<times> vision_job list \<times> api_usage list" where
  "process_next_vision_job env st =
     (case st of (rows, usage) \<Rightarrow>
       case vj_get_next_waiting rows of
         None \<Rightarrow> Inr (NoJob, rows, usage)
       | Some job \<Rightarrow>
           and_then (can_use (ve_settings env) (google, vision, ve_month env) 1 (ve_usage_id env) usage)
             (\<lambda>(allowed, usage').
               if \<not> allowed then Inr (QuotaWait, rows, usage')
               else case vj_mark_processing (ve_claimed_at env) job rows of
                   (None, rows') \<Rightarrow> Inr (ClaimLost, rows', usage')
                 | (Some claimed, rows') \<Rightarrow>
                     Inr (Finished (ve_outcome env), finish_vision_job env claimed (ve_meanwhile env rows'), usage')))"

end
