(* ===== verification/AutoTags.thy ===== *)
theory AutoTags
  imports TagCatalog VisionQueue
begin

text \<open>
  The administration of automatic tagging
  (\<open>src/app/memorykeeper/services/auto_tag_service.py\<close>): the state of the queue of analyses as
  MemoryKeeper sees it, the list of failures with codes that show no internals, retries, and
  the preview of a curation. Whether the credential file exists is a parameter; the rounded
  percentage of the preview is given as its two counts.
\<close>

section \<open>Jobs of MemoryKeeper files\<close>

definition auto_job :: "mk_state \<Rightarrow> vision_job \<Rightarrow> bool" where
  "auto_job d j \<longleftrightarrow> \<not> vj_deleted j \<and> active_file d (vj_file j) \<and> mk_linked d (vj_file j)"

definition auto_jobs :: "mk_state \<Rightarrow> job_status \<Rightarrow> vision_job list" where
  "auto_jobs d status = filter (\<lambda>j. auto_job d j \<and> vj_status j = status) (vision_jobs (base d))"

definition max_retry_count :: int where
  "max_retry_count = 3"

definition mentions :: "string list \<Rightarrow> string \<Rightarrow> bool" where
  "mentions words s = list_ex (\<lambda>w. contains w s) words"

datatype error_code = UsageLimit | CredentialUnavailable | FileUnavailable | NetworkError | ProviderError | ProcessingError

definition safe_error_code :: "string option \<Rightarrow> error_code" where
  "safe_error_code error =
     (let s = lower (or_else error [])
      in if mentions [''usage limit'', ''quota''] s then UsageLimit
         else if mentions [''credential'', ''service account'', ''auth''] s then CredentialUnavailable
         else if mentions [''commonfile not found'', ''original image path'', ''no such file''] s then FileUnavailable
         else if mentions [''timeout'', ''connection'', ''network''] s then NetworkError
         else if mentions [''vision api responded'', ''provider''] s then ProviderError
         else ProcessingError)"

definition retryable :: "vision_job \<Rightarrow> bool" where
  "retryable j \<longleftrightarrow> vj_retry_count j < max_retry_count \<and> safe_error_code (vj_last_error j) \<noteq> FileUnavailable"

section \<open>Retries\<close>

record retry_response =
  rr_requested :: nat
  rr_requeued :: nat
  rr_skipped :: nat
  rr_failed :: nat

definition requeued :: "time \<Rightarrow> vision_job \<Rightarrow> vision_job" where
  "requeued now j = j\<lparr>vj_status := WAITING, vj_requested_at := Some now, vj_started_at := None, vj_completed_at := None,
     vj_last_error := None\<rparr>"

definition requeue_jobs :: "time \<Rightarrow> vision_job list \<Rightarrow> mk_state \<Rightarrow> mk_state \<times> retry_response" where
  "requeue_jobs now jobs d =
     (let ready = filter (\<lambda>j. vj_status j = FAILED \<and> retryable j) jobs;
          stuck = filter (\<lambda>j. vj_status j = FAILED \<and> \<not> retryable j) jobs
      in (d\<lparr>base := (base d)\<lparr>vision_jobs := update_where (\<lambda>j. vj_id j \<in> set (map vj_id ready)) (requeued now) (vision_jobs (base d))\<rparr>\<rparr>,
          \<lparr>rr_requested = length jobs, rr_requeued = length ready, rr_skipped = length jobs - length ready, rr_failed = length stuck\<rparr>))"

text \<open>The oldest failures first; PostgreSQL puts a missing completion time last.\<close>

definition failed_rank :: "vision_job \<Rightarrow> bool \<times> time \<times> int" where
  "failed_rank j = (vj_completed_at j = None, or_else (vj_completed_at j) 0, vj_id j)"

definition retry_failed :: "time \<Rightarrow> nat \<Rightarrow> mk_state \<Rightarrow> mk_state \<times> retry_response" where
  "retry_failed now limit d = requeue_jobs now (take limit (order_by failed_rank (auto_jobs d FAILED))) d"

definition retry_job :: "time \<Rightarrow> int \<Rightarrow> mk_state \<Rightarrow> (mk_state \<times> retry_response) option" where
  "retry_job now i d = map_option (\<lambda>j. requeue_jobs now [j] d) (find_row vj_id i (filter (auto_job d) (vision_jobs (base d))))"

section \<open>Reading\<close>

record failed_item =
  fi_job :: int
  fi_file :: string
  fi_failed_at :: "time option"
  fi_retry_count :: int
  fi_code :: error_code
  fi_retryable :: bool

definition failed_item_of :: "mk_state \<Rightarrow> vision_job \<Rightarrow> failed_item option" where
  "failed_item_of d j = map_option (\<lambda>f. \<lparr>fi_job = vj_id j, fi_file = cf_file_id f, fi_failed_at = vj_completed_at j,
     fi_retry_count = vj_retry_count j, fi_code = safe_error_code (vj_last_error j), fi_retryable = retryable j\<rparr>)
     (find_row cf_id (vj_file j) (files (base d)))"

definition failed_jobs :: "nat \<Rightarrow> nat \<Rightarrow> mk_state \<Rightarrow> failed_item list \<times> nat" where
  "failed_jobs page page_size d =
     (let rows = rev (order_by failed_rank (auto_jobs d FAILED))
      in (List.map_filter (failed_item_of d) (take page_size (drop ((page - 1) * page_size) rows)), length rows))"

record auto_status =
  as_available :: bool
  as_quota_available :: bool
  as_quota_waiting :: nat
  as_waiting :: nat
  as_processing :: nat
  as_failed :: nat
  as_today :: nat
  as_usage :: int
  as_limit :: int
  as_remaining :: int
  as_last_processed :: "time option"
  as_last_failure :: "time option"

definition latest :: "vision_job list \<Rightarrow> time option" where
  "latest jobs = (case List.map_filter vj_completed_at jobs of [] \<Rightarrow> None | t # ts \<Rightarrow> Some (fold max ts t))"

definition auto_tag_status :: "time \<Rightarrow> bool \<Rightarrow> int \<Rightarrow> int option \<Rightarrow> worker_status list \<Rightarrow> mk_state \<Rightarrow> auto_status" where
  "auto_tag_status now credential limit used workers d =
     (let online = (case ws_get ''VisionWorker'' workers of None \<Rightarrow> False | Some w \<Rightarrow> resolve_display_status now w = ''RUNNING'');
          monthly = or_else used 0; remaining = max 0 (limit - monthly); waiting = length (auto_jobs d WAITING)
      in \<lparr>as_available = credential \<and> online, as_quota_available = remaining > 0,
          as_quota_waiting = (if remaining > 0 then 0 else waiting), as_waiting = waiting,
          as_processing = length (auto_jobs d PROCESSING), as_failed = length (auto_jobs d FAILED),
          as_today = length (filter (\<lambda>j. case vj_completed_at j of None \<Rightarrow> False | Some t \<Rightarrow> day_micros * (now div day_micros) \<le> t)
            (auto_jobs d COMPLETED)),
          as_usage = monthly, as_limit = limit, as_remaining = remaining,
          as_last_processed = latest (auto_jobs d COMPLETED), as_last_failure = latest (auto_jobs d FAILED)\<rparr>)"

section \<open>The preview of a curation\<close>

record curation_preview =
  cv_files_with_raw :: nat
  cv_raw :: nat
  cv_evaluated :: nat
  cv_projected :: nat
  cv_zero :: nat
  cv_sampled_raw :: nat
  cv_mapped :: nat
  cv_has_more :: bool

definition raw_relations :: "tag_state \<Rightarrow> file_tag list" where
  "raw_relations d = filter (\<lambda>r. rl_source r = AiSource \<and> \<not> rl_deleted r \<and> active_file (core d) (rl_file r) \<and>
     mk_linked (core d) (rl_file r)) (file_tags d)"

definition live_raw :: "tag_state \<Rightarrow> int \<Rightarrow> file_tag list" where
  "live_raw d i = filter (\<lambda>r. rl_source r = AiSource \<and> \<not> rl_deleted r) (file_relations d i)"

definition is_mapped :: "file_tag \<Rightarrow> bool" where
  "is_mapped r \<longleftrightarrow> confidence_threshold \<le> or_else (rl_confidence r) 0 \<and> rule_for (rl_name r) \<noteq> None"

definition curation_preview_of :: "nat \<Rightarrow> tag_state \<Rightarrow> curation_preview" where
  "curation_preview_of limit d =
     (let with_raw = order_by (\<lambda>i. i) (remdups (map rl_file (raw_relations d)));
          sample = take limit with_raw;
          raw = concat (map (live_raw d) sample)
      in \<lparr>cv_files_with_raw = length with_raw, cv_raw = length (raw_relations d), cv_evaluated = length sample,
          cv_projected = sum_list (map (\<lambda>i. length (curated_tags d i)) sample),
          cv_zero = count_where (\<lambda>i. curated_tags d i = []) sample,
          cv_sampled_raw = length raw, cv_mapped = count_where is_mapped raw, cv_has_more = limit < length with_raw\<rparr>)"

section \<open>Laws of retries\<close>

lemma requeue_nothing:
  "(\<And>j. j \<in> set jobs \<Longrightarrow> vj_status j = FAILED \<and> \<not> retryable j) \<Longrightarrow> fst (requeue_jobs now jobs d) = d"
proof -
  assume "\<And>j. j \<in> set jobs \<Longrightarrow> vj_status j = FAILED \<and> \<not> retryable j"
  then have "filter (\<lambda>j. vj_status j = FAILED \<and> retryable j) jobs = []" by (simp add: filter_empty_conv)
  then show ?thesis by (simp add: requeue_jobs_def Let_def update_where_unmatched)
qed

text \<open>
  A retry of failures that finds as many failures as its limit which can not be retried,
  older than all others, changes nothing, and so do all later ones: the younger failures that
  could be retried are never reached.
\<close>

theorem retry_failed_starves:
  assumes "limit \<le> length (auto_jobs d FAILED)"
    and "list_all (\<lambda>j. \<not> retryable j) (take limit (order_by failed_rank (auto_jobs d FAILED)))"
  shows "retry_failed now limit d = (d, \<lparr>rr_requested = limit, rr_requeued = 0, rr_skipped = limit, rr_failed = limit\<rparr>) \<and>
    fst (retry_failed later limit (fst (retry_failed now limit d))) = d"
proof -
  let ?jobs = "take limit (order_by failed_rank (auto_jobs d FAILED))"
  have mem: "vj_status j = FAILED \<and> \<not> retryable j" if "j \<in> set ?jobs" for j
    using that assms(2) set_take_subset[of limit "order_by failed_rank (auto_jobs d FAILED)"]
    by (auto simp: auto_jobs_def list_all_iff)
  then have same: "fst (retry_failed t limit d) = d" for t unfolding retry_failed_def by (rule requeue_nothing)
  have "filter (\<lambda>j. vj_status j = FAILED \<and> retryable j) ?jobs = []" "filter (\<lambda>j. vj_status j = FAILED \<and> \<not> retryable j) ?jobs = ?jobs"
    using mem by (auto simp: filter_empty_conv intro: filter_True)
  then have "snd (retry_failed now limit d) = \<lparr>rr_requested = limit, rr_requeued = 0, rr_skipped = limit, rr_failed = limit\<rparr>"
    using assms(1) by (simp add: retry_failed_def requeue_jobs_def Let_def min_def)
  with same show ?thesis by (metis prod.collapse)
qed

definition failed_job :: "int \<Rightarrow> int \<Rightarrow> vision_job" where
  "failed_job i n = \<lparr>vj_id = i, vj_file = 1, vj_priority = 10, vj_status = FAILED, vj_retry_count = n, vj_provider = ''GOOGLE'',
     vj_requested_at = Some 0, vj_started_at = None, vj_completed_at = Some i, vj_last_error = None, vj_deleted = False\<rparr>"

definition failing_library :: "vision_job list \<Rightarrow> mk_state" where
  "failing_library jobs = \<lparr>base = empty_db\<lparr>files := [\<lparr>cf_id = 1, cf_file_id = ''f1'', cf_original_name = ''x.jpg'', cf_extension = None,
       cf_mime_type = None, cf_file_size = None, cf_width = None, cf_height = None, cf_original_path = None,
       cf_preview_path = None, cf_thumb_path = None, cf_favorite = False, cf_service = memorykeeper, cf_created_at = 0,
       cf_deleted = False\<rparr>], links := [\<lparr>fs_file = 1, fs_service = memorykeeper\<rparr>], vision_jobs := jobs\<rparr>,
     file_states = [], metadata_rows = [], mk_places = [], histories = [], linked_at = (\<lambda>_. 0)\<rparr>"

lemma failing_library_jobs: "auto_jobs (failing_library jobs) status = filter (\<lambda>j. \<not> vj_deleted j \<and> vj_file j = 1 \<and> vj_status j = status) jobs"
proof -
  have "auto_job (failing_library jobs) j \<longleftrightarrow> \<not> vj_deleted j \<and> vj_file j = 1" for j
    by (auto simp: auto_job_def failing_library_def active_file_def mk_linked_def)
  then show ?thesis by (auto simp: auto_jobs_def failing_library_def intro: filter_cong)
qed

lemma failed_job_retryable: "retryable (failed_job i n) \<longleftrightarrow> n < 3"
  by (simp add: retryable_def failed_job_def max_retry_count_def safe_error_code_def mentions_def Let_def lower_def)

theorem retry_failed_starves_witness:
  "fst (retry_failed 9 1 (fst (retry_failed 8 1 (failing_library [failed_job 1 3, failed_job 2 1]))))
     = failing_library [failed_job 1 3, failed_job 2 1] \<and> retryable (failed_job 2 1)"
proof -
  let ?d = "failing_library [failed_job 1 3, failed_job 2 1]"
  have jobs: "auto_jobs ?d FAILED = [failed_job 1 3, failed_job 2 1]"
    by (simp add: failing_library_jobs) (simp add: failed_job_def)
  have "order_by failed_rank (auto_jobs ?d FAILED) = [failed_job 1 3, failed_job 2 1]"
    unfolding jobs by (simp add: order_by_def failed_rank_def failed_job_def)
  then have "list_all (\<lambda>j. \<not> retryable j) (take 1 (order_by failed_rank (auto_jobs ?d FAILED)))"
    by (simp add: failed_job_retryable)
  from conjunct2[OF retry_failed_starves[OF _ this, of 8 9]] have "fst (retry_failed 9 1 (fst (retry_failed 8 1 ?d))) = ?d"
    by (simp only: jobs list.size)
  moreover have "retryable (failed_job 2 1)" by (simp add: failed_job_retryable)
  ultimately show ?thesis by blast
qed

text \<open>
  Retrying a failed analysis does not look for a newer job of the same photo: when the
  photo was queued again since, two analyses of it are live afterwards.
\<close>

theorem retry_doubles_analysis:
  assumes "find_row vj_id i (filter (auto_job d) (vision_jobs (base d))) = Some j" and "vj_status j = FAILED" and "retryable j"
    and "k \<in> set (vision_jobs (base d))" and "vj_file k = vj_file j" and "vj_blocks k" and "\<not> vj_deleted k"
    and "distinct (map vj_id (vision_jobs (base d)))"
  shows "\<exists>d' response. retry_job now i d = Some (d', response) \<and>
    2 \<le> count_where (\<lambda>x. vj_file x = vj_file j \<and> vj_blocks x \<and> \<not> vj_deleted x) (vision_jobs (base d'))"
proof -
  let ?rows = "vision_jobs (base d)" let ?live = "\<lambda>x. vj_file x = vj_file j \<and> vj_blocks x \<and> \<not> vj_deleted x"
  have j: "j \<in> set ?rows" "vj_id j = i" "\<not> vj_deleted j" using find_row_SomeD[OF assms(1)] by (auto simp: auto_job_def)
  obtain d' response where q: "requeue_jobs now [j] d = (d', response)" by fastforce
  then have r: "retry_job now i d = Some (d', response)" using assms(1) by (simp add: retry_job_def)
  let ?new = "update_where (\<lambda>x. vj_id x = i) (requeued now) ?rows"
  have rows: "vision_jobs (base d') = ?new"
    using q assms(2,3) j(2) by (auto simp: requeue_jobs_def)
  have other: "vj_id k \<noteq> i"
  proof
    assume "vj_id k = i"
    then have "k = j" using assms(4,8) j(1,2) by (simp add: distinct_map inj_on_def)
    then show False using assms(2,6) by (simp add: vj_blocks_def)
  qed
  have "requeued now j \<in> set (filter ?live ?new)" using j by (auto simp: set_update_where requeued_def vj_blocks_def)
  moreover have "k \<in> set (filter ?live ?new)" using assms(4-7) other by (auto simp: set_update_where)
  moreover have "requeued now j \<noteq> k" using j(2) other by (auto simp: requeued_def)
  ultimately have sub: "{requeued now j, k} \<subseteq> set (filter ?live ?new)" and two: "card {requeued now j, k} = 2" by simp_all
  have "card {requeued now j, k} \<le> card (set (filter ?live ?new))" by (rule card_mono[OF _ sub]) simp
  with two have "2 \<le> length (filter ?live ?new)" using card_length[of "filter ?live ?new"] by linarith
  then show ?thesis using r rows by (auto simp: count_where_def)
qed

theorem retry_doubles_analysis_witness:
  "\<exists>d' response. retry_job 9 1 (failing_library [failed_job 1 1, vj_new 2 5 1 10 ''GOOGLE'']) = Some (d', response) \<and>
    2 \<le> count_where (\<lambda>x. vj_file x = 1 \<and> vj_blocks x \<and> \<not> vj_deleted x) (vision_jobs (base d'))"
proof -
  let ?d = "failing_library [failed_job 1 1, vj_new 2 5 1 10 ''GOOGLE'']"
  have rows: "vision_jobs (base ?d) = [failed_job 1 1, vj_new 2 5 1 10 ''GOOGLE'']" by (simp add: failing_library_def)
  have "find_row vj_id 1 (filter (auto_job ?d) (vision_jobs (base ?d))) = Some (failed_job 1 1)"
    unfolding rows by (simp add: auto_job_def failed_job_def failing_library_def active_file_def mk_linked_def)
  then show ?thesis
    using retry_doubles_analysis[of 1 ?d "failed_job 1 1" "vj_new 2 5 1 10 ''GOOGLE''" 9]
    unfolding rows by (simp add: failed_job_retryable) (simp add: failed_job_def vj_new_def vj_blocks_def)
qed

end
