(* ===== verification/TagRequests.thy ===== *)
theory TagRequests
  imports TagCatalog
begin

text \<open>
  The requests on the catalogue (\<open>tag_catalog_service.py\<close>) and on the visibility of a tag on
  one photo (\<open>file_tag_visibility_service.py\<close>).
\<close>

section \<open>Reading\<close>

definition identity_text :: "tag_identity \<Rightarrow> utext" where
  "identity_text identity =
     (case identity of TagIdentity i \<Rightarrow> ucs (''tag:'' @ str_int i) | AiIdentity c \<Rightarrow> ucs ''ai:'' @ c
      | LegacyIdentity h \<Rightarrow> ucs ''legacy:'' @ h)"

definition query_matches :: "utext \<Rightarrow> utext \<Rightarrow> bool" where
  "query_matches normalized canonical =
     list_ex (\<lambda>t. contains normalized (normalize_tag t) \<or> contains (normalize_tag t) normalized) (search_terms canonical)"

definition entry_matches :: "utext \<Rightarrow> catalog_entry \<Rightarrow> bool" where
  "entry_matches normalized e \<longleftrightarrow> contains normalized (normalize_tag (en_name e)) \<or> list_ex (query_matches normalized) (en_canonicals e)"

definition list_catalog :: "(utext \<Rightarrow> utext) \<Rightarrow> utext option \<Rightarrow> nat \<Rightarrow> nat \<Rightarrow> tag_state \<Rightarrow> catalog \<times> nat" where
  "list_catalog digest query limit offset d =
     (let entries = catalog_entries digest d;
          entries = (case query of
              None \<Rightarrow> entries
            | Some q \<Rightarrow> if q = [] then entries else filter (\<lambda>(k, e). entry_matches (normalize_tag q) e) entries);
          entries = order_by (\<lambda>(k, e). (\<not> en_favorite e, - int (length (en_files e)), normalize_tag (en_name e), identity_text k)) entries
      in (take limit (drop offset entries), length entries))"

definition files_for_query :: "(utext \<Rightarrow> utext) \<Rightarrow> utext \<Rightarrow> tag_state \<Rightarrow> int list" where
  "files_for_query digest value d =
     (let normalized = normalize_tag value
      in if normalized = [] then []
         else fold (\<lambda>(k, e). add_all (en_files e)) (filter (\<lambda>(k, e). entry_matches normalized e) (catalog_entries digest d)) [])"

record projected_tag =
  pj_identity :: tag_identity
  pj_canonical :: utext
  pj_display :: utext
  pj_confidence :: real
  pj_aliases :: "utext list"
  pj_version :: int
  pj_source :: tag_source
  pj_tag :: "int option"
  pj_revision :: int

definition unique_texts :: "utext list \<Rightarrow> utext list" where
  "unique_texts ts = rev (remdups (rev ts))"

definition projected :: "tag_state \<Rightarrow> curated_tag \<Rightarrow> projected_tag" where
  "projected d c =
     (let target = projection_target d c
      in \<lparr>pj_identity = (case target of None \<Rightarrow> AiIdentity (ct_canonical c) | Some t \<Rightarrow> TagIdentity (tg_id t)),
          pj_canonical = ct_canonical c,
          pj_display = (case target of None \<Rightarrow> ct_display c | Some t \<Rightarrow> tg_name t),
          pj_confidence = ct_confidence c,
          pj_aliases = unique_texts (ct_aliases c @ ct_display c # (case target of None \<Rightarrow> [] | Some t \<Rightarrow> [tg_name t])),
          pj_version = ct_version c,
          pj_source = (if override_of d (ct_canonical c) \<noteq> None \<and> target \<noteq> None then UserSource else AiSource),
          pj_tag = map_option tg_id target,
          pj_revision = (case target of None \<Rightarrow> 1 | Some t \<Rightarrow> tg_revision t)\<rparr>)"

definition project_curated :: "curated_tag list \<Rightarrow> int option \<Rightarrow> tag_state \<Rightarrow> projected_tag list" where
  "project_curated cs file d =
     (let hidden = (case file of None \<Rightarrow> [] | Some i \<Rightarrow> suppressed_keys d i)
      in map (projected d) (filter (\<lambda>c. ct_canonical c \<notin> set hidden \<and> \<not> suppressed_everywhere d (ct_canonical c)) cs))"

definition visible_relations :: "int \<Rightarrow> file_tag list \<Rightarrow> tag_state \<Rightarrow> file_tag list" where
  "visible_relations file rs d =
     (if suppressed_keys d file = [] then rs
      else filter (\<lambda>r. \<not> hidden_on d file
             (case Option.bind (rl_tag r) (\<lambda>i. live_tag i d) of Some t \<Rightarrow> canonical_references d t | None \<Rightarrow> rule_references (rl_name r))) rs)"

section \<open>Overrides and legacy names\<close>

definition ensure_override :: "int option \<Rightarrow> bool \<Rightarrow> utext \<Rightarrow> tag_state \<Rightarrow> tag_state" where
  "ensure_override tag suppressed canonical d =
     (let key = normalize_tag canonical
      in case find_row ov_key key (overrides d) of
           None \<Rightarrow> flush (d\<lparr>overrides := overrides d @ [\<lparr>ov_key = key, ov_tag = tag, ov_suppressed = suppressed, ov_revision = 1\<rparr>]\<rparr>)
         | Some v \<Rightarrow> if ov_tag v \<noteq> tag \<or> ov_suppressed v \<noteq> suppressed
                     then d\<lparr>overrides := save_row ov_key
                            (v\<lparr>ov_tag := tag, ov_suppressed := suppressed, ov_revision := ov_revision v + 1\<rparr>) (overrides d)\<rparr>
                     else d)"

definition ensure_links :: "utext list \<Rightarrow> int option \<Rightarrow> bool \<Rightarrow> tag_state \<Rightarrow> tag_state" where
  "ensure_links canonicals tag suppressed d = fold (ensure_override tag suppressed) canonicals d"

definition is_legacy :: "utext \<Rightarrow> file_tag \<Rightarrow> bool" where
  "is_legacy normalized r \<longleftrightarrow> rl_source r = UserSource \<and> rl_tag r = None \<and> \<not> rl_deleted r \<and> normalize_tag (rl_name r) = normalized"

definition relations_unique :: "file_tag list \<Rightarrow> bool" where
  "relations_unique rs \<longleftrightarrow> distinct (map (\<lambda>r. (rl_file r, rl_tag r)) (filter (\<lambda>r. rl_tag r \<noteq> None) rs))"

text \<open>The flush of the promoted relations meets the unique index on file and tag.\<close>

definition promote_legacy :: "utext \<Rightarrow> mk_tag \<Rightarrow> tag_state \<Rightarrow> tag_error + tag_state" where
  "promote_legacy name t d =
     (let rs = update_where (is_legacy (normalize_tag name)) (\<lambda>r. user_relation (rl_id r) (rl_file r) t) (file_tags d)
      in raise_if (\<not> relations_unique rs) TagUncaught (Inr (d\<lparr>file_tags := rs\<rparr>)))"

text \<open>Merging two canonical names hides both on the photos where one is hidden.\<close>

definition hide_key :: "int \<Rightarrow> utext \<Rightarrow> tag_state \<Rightarrow> tag_state" where
  "hide_key file key d =
     (case List.find (\<lambda>s. su_file s = file \<and> su_key s = key) (suppressions d) of
        None \<Rightarrow> d\<lparr>suppressions := suppressions d @ [\<lparr>su_file = file, su_key = key, su_revision = 1, su_deleted = False\<rparr>]\<rparr>
      | Some s \<Rightarrow> if su_deleted s
                  then d\<lparr>suppressions := update_where (\<lambda>s. su_file s = file \<and> su_key s = key)
                         (\<lambda>s. s\<lparr>su_deleted := False, su_revision := su_revision s + 1\<rparr>) (suppressions d)\<rparr>
                  else d)"

definition propagate_suppressions :: "utext list \<Rightarrow> tag_state \<Rightarrow> tag_state" where
  "propagate_suppressions canonicals d =
     (if length canonicals < 2 then d
      else let files = remdups (map su_file (filter (\<lambda>s. su_key s \<in> set canonicals \<and> \<not> su_deleted s) (suppressions d)))
           in fold (\<lambda>i. fold (hide_key i) canonicals) files d)"

definition ensure_target :: "time \<Rightarrow> utext \<Rightarrow> mk_tag option \<Rightarrow> tag_state \<Rightarrow> tag_error + tag_state \<times> mk_tag" where
  "ensure_target now name active d =
     (case active of
        Some t \<Rightarrow> Inr (d, t)
      | None \<Rightarrow> (case find_normalized (normalize_tag name) True d of
          Some t \<Rightarrow>
            let t = t\<lparr>tg_name := name, tg_normalized := Some (normalize_tag name), tg_type := UserTag, tg_source := UserSource,
                      tg_deleted := False, tg_revision := tg_revision t + 1, tg_updated_at := now\<rparr>
            in raise_if (name_taken t d) TagUncaught (Inr (flush (put_tag t d), t))
        | None \<Rightarrow> create_tag now name False d))"

section \<open>Renaming and merging\<close>

definition target_references :: "(utext \<Rightarrow> utext) \<Rightarrow> utext \<Rightarrow> mk_tag option \<Rightarrow> tag_state \<Rightarrow> utext list" where
  "target_references digest name target d =
     add_all (rule_references name)
       (case Option.bind target (\<lambda>t. map_of (catalog_entries digest d) (TagIdentity (tg_id t))) of None \<Rightarrow> [] | Some e \<Rightarrow> en_canonicals e)"

text \<open>
  Renaming commits in the middle: making the target commits, and so do the update and the
  merge of tags. The result is the committed state with the error or the entry.
\<close>

definition read_entry :: "(utext \<Rightarrow> utext) \<Rightarrow> mk_tag \<Rightarrow> tag_state \<Rightarrow> tag_state \<times> (tag_error + catalog_entry)" where
  "read_entry digest t d = (flush d, require_entry digest (TagIdentity (tg_id t)) (flush d))"

text \<open>Renaming a tag: onto itself nothing is committed; onto another tag it is merged.\<close>

definition move_tag :: "time \<Rightarrow> int \<Rightarrow> utext \<Rightarrow> int \<Rightarrow> mk_tag option \<Rightarrow> tag_state \<Rightarrow> tag_error + tag_state \<times> mk_tag" where
  "move_tag now i name revision target d =
     (case target of
        None \<Rightarrow> update_tag now i \<lparr>tp_revision = revision, tp_name = Some (Some name), tp_favorite = None\<rparr> d
      | Some t \<Rightarrow> merge_tags now i \<lparr>tm_source_revision = revision, tm_target = tg_id t, tm_target_revision = tg_revision t\<rparr> d)"

definition rename_tag_entry :: "time \<Rightarrow> (utext \<Rightarrow> utext) \<Rightarrow> int \<Rightarrow> catalog_entry \<Rightarrow> utext \<Rightarrow> int \<Rightarrow> mk_tag option \<Rightarrow> tag_state \<Rightarrow> tag_state
    \<Rightarrow> tag_state \<times> (tag_error + catalog_entry)" where
  "rename_tag_entry now digest i e name revision target committed d =
     (if live_tag i d = None then (committed, Inl TagNotFound)
      else if map_option tg_id target = Some i then (committed, Inr e)
      else case move_tag now i name revision target (ensure_links (en_canonicals e) (Some i) False d) of
        Inl x \<Rightarrow> (committed, Inl x)
      | Inr (d, t) \<Rightarrow> read_entry digest t (ensure_links (en_canonicals e) (Some (tg_id t)) False d))"

text \<open>A flush that fails after the target was made leaves the target.\<close>

definition rename_other_entry :: "time \<Rightarrow> (utext \<Rightarrow> utext) \<Rightarrow> tag_identity \<Rightarrow> catalog_entry \<Rightarrow> utext \<Rightarrow> mk_tag option \<Rightarrow> tag_state \<Rightarrow> tag_state
    \<Rightarrow> tag_state \<times> (tag_error + catalog_entry)" where
  "rename_other_entry now digest identity e name target committed d =
     (case ensure_target now name target d of
        Inl x \<Rightarrow> (committed, Inl x)
      | Inr (d, t) \<Rightarrow> (case identity of
            AiIdentity c \<Rightarrow> read_entry digest t (ensure_override (Some (tg_id t)) False c d)
          | _ \<Rightarrow> (case promote_legacy (en_name e) t d of
                Inl x \<Rightarrow> (if target = None then d else committed, Inl x)
              | Inr d \<Rightarrow> read_entry digest t (ensure_links (en_canonicals e) (Some (tg_id t)) False d))))"

definition rename_or_merge :: "time \<Rightarrow> (utext \<Rightarrow> utext) \<Rightarrow> tag_identity \<Rightarrow> utext \<Rightarrow> int \<Rightarrow> tag_state
    \<Rightarrow> tag_state \<times> (tag_error + catalog_entry)" where
  "rename_or_merge now digest identity name revision committed =
     (case require_entry digest identity committed of
        Inl x \<Rightarrow> (committed, Inl x)
      | Inr e \<Rightarrow>
          if revision \<noteq> en_revision e then (committed, Inl (IdentityConflict identity revision (en_revision e)))
          else let target = find_normalized (normalize_tag name) False committed;
                   d = propagate_suppressions (add_all (target_references digest name target committed) (en_canonicals e)) committed
               in case identity of
                    TagIdentity i \<Rightarrow> rename_tag_entry now digest i e name revision target committed d
                  | _ \<Rightarrow> rename_other_entry now digest identity e name target committed d)"

definition delete_entry :: "time \<Rightarrow> (utext \<Rightarrow> utext) \<Rightarrow> tag_identity \<Rightarrow> int \<Rightarrow> tag_state \<Rightarrow> tag_error + tag_state" where
  "delete_entry now digest identity expected d =
     and_then (require_entry digest identity d) (\<lambda>e.
       raise_if (expected \<noteq> en_revision e) (IdentityConflict identity expected (en_revision e))
         (case identity of
            AiIdentity c \<Rightarrow> Inr (flush (ensure_override None True c d))
          | TagIdentity i \<Rightarrow> delete_tag now i expected (ensure_links (en_canonicals e) (Some i) False d)
          | LegacyIdentity _ \<Rightarrow> Inr (flush (d\<lparr>file_tags := update_where (is_legacy (normalize_tag (en_name e)))
              (\<lambda>r. r\<lparr>rl_deleted := True\<rparr>) (file_tags d)\<rparr>))))"

section \<open>Visibility on one photo\<close>

definition set_suppression :: "int \<Rightarrow> bool \<Rightarrow> utext \<Rightarrow> tag_state \<Rightarrow> bool \<times> tag_state" where
  "set_suppression file hidden canonical d =
     (let key = normalize_tag canonical
      in case List.find (\<lambda>s. su_file s = file \<and> su_key s = key) (suppressions d) of
           None \<Rightarrow> if hidden then (True, flush (d\<lparr>suppressions := suppressions d @
                       [\<lparr>su_file = file, su_key = key, su_revision = 1, su_deleted = False\<rparr>]\<rparr>))
                   else (False, d)
         | Some s \<Rightarrow> if su_deleted s \<longleftrightarrow> \<not> hidden then (False, d)
                     else (True, d\<lparr>suppressions := update_where (\<lambda>s. su_file s = file \<and> su_key s = key)
                       (\<lambda>s. s\<lparr>su_deleted := \<not> hidden, su_revision := su_revision s + 1\<rparr>) (suppressions d)\<rparr>))"

definition set_suppressions :: "int \<Rightarrow> bool \<Rightarrow> utext list \<Rightarrow> bool \<times> tag_state \<Rightarrow> bool \<times> tag_state" where
  "set_suppressions file hidden canonicals x =
     fold (\<lambda>c (m, d). let (changed, d) = set_suppression file hidden c d in (m \<or> changed, d)) canonicals x"

definition remove_user_relation :: "int \<Rightarrow> tag_identity \<Rightarrow> utext \<Rightarrow> tag_state \<Rightarrow> bool \<times> tag_state" where
  "remove_user_relation file identity name d =
     (let mine = (\<lambda>r. rl_file r = file \<and> rl_source r = UserSource \<and> \<not> rl_deleted r);
          found = (case identity of
              TagIdentity i \<Rightarrow> List.find (\<lambda>r. mine r \<and> rl_tag r = Some i) (file_tags d)
            | LegacyIdentity _ \<Rightarrow> List.find (\<lambda>r. mine r \<and> rl_tag r = None \<and> normalize_tag (rl_name r) = normalize_tag name) (file_tags d)
            | AiIdentity _ \<Rightarrow> None)
      in case found of None \<Rightarrow> (False, d) | Some r \<Rightarrow> (True, put_relation (r\<lparr>rl_deleted := True\<rparr>) d))"

definition restore_legacy :: "int \<Rightarrow> utext \<Rightarrow> tag_state \<Rightarrow> bool \<times> tag_state" where
  "restore_legacy file name d =
     (case List.find (\<lambda>r. rl_file r = file \<and> rl_source r = UserSource \<and> rl_tag r = None \<and>
              normalize_tag (rl_name r) = normalize_tag name) (file_tags d) of
        None \<Rightarrow> (False, d)
      | Some r \<Rightarrow> (True, put_relation (r\<lparr>rl_deleted := False\<rparr>) d))"

definition visibility_change :: "time \<Rightarrow> common_file \<Rightarrow> tag_identity \<Rightarrow> change_operation \<Rightarrow> bool \<Rightarrow> file_state \<Rightarrow> tag_state \<Rightarrow> tag_state" where
  "visibility_change now f identity operation tombstone s d =
     tag_event now ''MemoryKeeperFileTag'' (cf_file_id f @ '':'' @ map (\<lambda>c. char_of (nat c)) (identity_text identity)) operation
       (Some (st_revision s + 1)) tombstone (put_file_state (bumped now s) d)"

definition hide_tag :: "time \<Rightarrow> (utext \<Rightarrow> utext) \<Rightarrow> string \<Rightarrow> tag_identity \<Rightarrow> int \<Rightarrow> tag_state \<Rightarrow> tag_error + tag_state" where
  "hide_tag now digest file identity expected d =
     and_then (lock_file now file expected d) (\<lambda>(d, f, s).
       and_then (require_entry digest identity d) (\<lambda>e.
         raise_if (cf_id f \<notin> set (en_files e)) (FileIdentityNotFound file identity)
           (let (removed, d) = remove_user_relation (cf_id f) identity (en_name e) d;
                (_, d) = set_suppressions (cf_id f) True (en_canonicals e) (removed, d)
            in raise_if (\<not> removed \<and> en_canonicals e = []) (FileIdentityNotFound file identity)
                 (Inr (visibility_change now f identity DELETE True s d)))))"

definition restored_relation :: "int \<Rightarrow> tag_identity \<Rightarrow> utext \<Rightarrow> tag_state \<Rightarrow> tag_error + bool \<times> tag_state" where
  "restored_relation file identity name d =
     (case identity of
        TagIdentity i \<Rightarrow> and_then (get_tag i d) (\<lambda>t. Inr (True, snd (link_tag file t d)))
      | LegacyIdentity _ \<Rightarrow> Inr (restore_legacy file name d)
      | AiIdentity _ \<Rightarrow> Inr (False, d))"

definition restore_tag :: "time \<Rightarrow> (utext \<Rightarrow> utext) \<Rightarrow> string \<Rightarrow> tag_identity \<Rightarrow> int \<Rightarrow> tag_state \<Rightarrow> tag_error + tag_state" where
  "restore_tag now digest file identity expected d =
     and_then (lock_file now file expected d) (\<lambda>(d, f, s).
       and_then (require_entry digest identity d) (\<lambda>e.
         and_then (restored_relation (cf_id f) identity (en_name e) d) (\<lambda>x.
           let (changed, d) = set_suppressions (cf_id f) False (en_canonicals e) x
           in raise_if (\<not> changed) (FileIdentityNotFound file identity)
                (Inr (visibility_change now f identity UPDATE False s d)))))"

end
