(* ===== verification/TagInvariant.thy ===== *)
theory TagInvariant
  imports TagRequests
begin

text \<open>
  What every request on tags keeps: keys and names are unique, a photo has at most one
  relation to a tag, and a live relation to a tag finds it live and carries its name.
\<close>

section \<open>The invariant\<close>

definition names_unique :: "mk_tag list \<Rightarrow> bool" where
  "names_unique ts \<longleftrightarrow> (\<forall>t \<in> set ts. \<forall>u \<in> set ts. tg_id t \<noteq> tg_id u \<longrightarrow>
     tg_name t \<noteq> tg_name u \<and> (tg_normalized t = tg_normalized u \<longrightarrow> tg_normalized t = None))"

definition link_ok :: "mk_tag list \<Rightarrow> file_tag \<Rightarrow> bool" where
  "link_ok ts r \<longleftrightarrow> (\<forall>i. rl_tag r = Some i \<longrightarrow>
     (\<exists>t \<in> set ts. tg_id t = i \<and> (rl_deleted r \<or> (\<not> tg_deleted t \<and> tg_name t = rl_name r))))"

definition tags_ok :: "mk_tag list \<Rightarrow> file_tag list \<Rightarrow> bool" where
  "tags_ok ts rs \<longleftrightarrow> distinct (map tg_id ts) \<and> names_unique ts \<and> distinct (map rl_id rs) \<and> relations_unique rs \<and>
     (\<forall>r \<in> set rs. link_ok ts r)"

abbreviation tags_valid :: "tag_state \<Rightarrow> bool" where
  "tags_valid d \<equiv> tags_ok (tags d) (file_tags d)"

section \<open>Keys\<close>

lemma next_id_greater: "i \<in> set ids \<Longrightarrow> i < next_id ids"
proof -
  assume "i \<in> set ids"
  then have "i \<le> Max (set (0 # ids))" by (intro Max_ge) auto
  then show ?thesis by (simp only: next_id_def Max.set_eq_fold)
qed

lemma next_id_fresh: "next_id ids \<notin> set ids"
  using next_id_greater by blast

section \<open>Relations\<close>

lemma save_relation_keys:
  assumes "old \<in> set rs" and "distinct (map rl_id rs)" and "rl_id r = rl_id old" and "rl_file r = rl_file old" and "rl_tag r = rl_tag old"
  shows "map rl_id (save_row rl_id r rs) = map rl_id rs" "relations_unique (save_row rl_id r rs) = relations_unique rs"
proof -
  have same: "(rl_file x, rl_tag x) = (rl_file r, rl_tag r)" if "x \<in> set rs" "rl_id x = rl_id r" for x
    using assms that by (metis distinct_map inj_onD)
  show "map rl_id (save_row rl_id r rs) = map rl_id rs" by simp
  have "map (\<lambda>x. (rl_file x, rl_tag x)) (save_row rl_id r rs) = map (\<lambda>x. (rl_file x, rl_tag x)) rs"
    using same by (simp add: save_row_def update_where_def)
  moreover have "relations_unique xs = distinct (filter (\<lambda>p. snd p \<noteq> None) (map (\<lambda>x. (rl_file x, rl_tag x)) xs))" for xs
    by (simp add: relations_unique_def filter_map comp_def)
  ultimately show "relations_unique (save_row rl_id r rs) = relations_unique rs"
    by (simp only:)
qed

lemma save_relation_ok:
  assumes "tags_ok ts rs" and "old \<in> set rs" and "rl_id r = rl_id old" and "rl_file r = rl_file old" and "rl_tag r = rl_tag old"
    and "link_ok ts r"
  shows "tags_ok ts (save_row rl_id r rs)"
  using assms save_relation_keys[OF assms(2) _ assms(3-5)] unfolding tags_ok_def by (auto dest: set_save_rowD)

lemma link_ok_dead: "link_ok ts r \<Longrightarrow> link_ok ts (r\<lparr>rl_deleted := True\<rparr>)"
  by (auto simp: link_ok_def)

lemma drop_relation_row:
  "tags_ok ts rs \<Longrightarrow> r \<in> set rs \<Longrightarrow> tags_ok ts (save_row rl_id (r\<lparr>rl_deleted := True\<rparr>) rs)"
  by (rule save_relation_ok) (auto simp: tags_ok_def link_ok_dead)

lemma link_ok_user: "t \<in> set ts \<Longrightarrow> \<not> tg_deleted t \<Longrightarrow> link_ok ts (user_relation i file t)"
  by (auto simp: link_ok_def user_relation_def)

lemma find_relation_None: "find_relation file i d = None \<Longrightarrow> r \<in> set (file_tags d) \<Longrightarrow> rl_file r = file \<Longrightarrow> rl_tag r \<noteq> Some i"
  by (auto simp: find_relation_def dest: find_NoneD)

lemma link_tag_ok:
  assumes "link_tag file t d = (created, d')" and "tags_valid d" and "t \<in> set (tags d)" and "\<not> tg_deleted t"
  shows "tags_valid d'"
proof (cases "find_relation file (tg_id t) d")
  case None
  let ?r = "user_relation (next_id (map rl_id (file_tags d))) file t"
  have d': "tags d' = tags d" "file_tags d' = file_tags d @ [?r]"
    using assms(1) None by (auto simp: link_tag_def flush_def)
  have "(file, Some (tg_id t)) \<notin> set (map (\<lambda>r. (rl_file r, rl_tag r)) (filter (\<lambda>r. rl_tag r \<noteq> None) (file_tags d)))"
    using find_relation_None[OF None] by auto
  moreover have "rl_id ?r \<notin> set (map rl_id (file_tags d))" using next_id_fresh[of "map rl_id (file_tags d)"] by (simp add: user_relation_def)
  ultimately show ?thesis using assms link_ok_user[OF assms(3,4)]
    unfolding d' tags_ok_def relations_unique_def by (auto simp: user_relation_def)
next
  case (Some r)
  then have "r \<in> set (file_tags d)" "rl_file r = file" "rl_tag r = Some (tg_id t)"
    by (auto simp: find_relation_def dest: find_SomeD)
  then show ?thesis using assms Some link_ok_user[OF assms(3,4)]
    by (auto simp: link_tag_def put_relation_def user_relation_def intro!: save_relation_ok)
qed

section \<open>Tags\<close>

lemma link_ok_mono: "link_ok ts r \<Longrightarrow> set ts \<subseteq> set us \<Longrightarrow> link_ok us r"
  unfolding link_ok_def by blast

lemma untaken_names:
  assumes "names_unique ts" and "\<not> exists_row (\<lambda>u. tg_id u \<noteq> tg_id t \<and>
    (tg_name u = tg_name t \<or> (tg_normalized u = tg_normalized t \<and> tg_normalized t \<noteq> None))) ts"
    and "set us \<subseteq> insert t (set ts)"
  shows "names_unique us"
  unfolding names_unique_def
proof (intro ballI impI)
  fix a b assume ab: "a \<in> set us" "b \<in> set us" "tg_id a \<noteq> tg_id b"
  have other: "tg_name u \<noteq> tg_name t \<and> (tg_normalized u = tg_normalized t \<longrightarrow> tg_normalized t = None)"
    if "u \<in> set ts" "tg_id u \<noteq> tg_id t" for u
    using assms(2) that unfolding exists_row_iff by blast
  consider "a \<in> set ts" "b \<in> set ts" | "a = t" "b \<in> set ts" | "a \<in> set ts" "b = t" using ab assms(3) by blast
  then show "tg_name a \<noteq> tg_name b \<and> (tg_normalized a = tg_normalized b \<longrightarrow> tg_normalized a = None)"
  proof cases
    case 1
    then show ?thesis using assms(1) ab(3) unfolding names_unique_def by blast
  next
    case 2
    then show ?thesis using other[of b] ab(3) by metis
  next
    case 3
    then show ?thesis using other[of a] ab(3) by metis
  qed
qed

lemma append_tag_ok:
  assumes "tags_ok ts rs" and "tg_id t \<notin> tg_id ` set ts" and "\<not> exists_row (\<lambda>u. tg_id u \<noteq> tg_id t \<and>
    (tg_name u = tg_name t \<or> (tg_normalized u = tg_normalized t \<and> tg_normalized t \<noteq> None))) ts"
  shows "tags_ok (ts @ [t]) rs"
  using assms untaken_names[of ts t "ts @ [t]"] link_ok_mono[of ts _ "ts @ [t]"] by (auto simp: tags_ok_def)

text \<open>A tag is replaced: its live relations must fit the new row.\<close>

lemma save_tag_ok:
  assumes "tags_ok ts rs" and "old \<in> set ts" and "tg_id t = tg_id old" and "\<not> exists_row (\<lambda>u. tg_id u \<noteq> tg_id t \<and>
    (tg_name u = tg_name t \<or> (tg_normalized u = tg_normalized t \<and> tg_normalized t \<noteq> None))) ts"
    and "\<And>r. r \<in> set rs \<Longrightarrow> rl_tag r = Some (tg_id t) \<Longrightarrow> \<not> rl_deleted r \<Longrightarrow> \<not> tg_deleted t \<and> tg_name t = rl_name r"
  shows "tags_ok (save_row tg_id t ts) rs"
proof -
  have rows: "set (save_row tg_id t ts) = insert t {u \<in> set ts. tg_id u \<noteq> tg_id t}"
    using assms(2,3) by (auto simp: set_save_row image_iff)
  have "link_ok (save_row tg_id t ts) r" if "r \<in> set rs" for r
  proof -
    have old_link: "link_ok ts r" using assms(1) that by (simp add: tags_ok_def)
    show ?thesis using old_link assms(5)[OF that] unfolding link_ok_def rows by (metis (mono_tags, lifting) insertI1 insertI2 mem_Collect_eq)
  qed
  then show ?thesis using assms(1) untaken_names[of ts t "save_row tg_id t ts"] assms(4) rows
    by (auto simp: tags_ok_def)
qed

lemma old_names_untaken:
  assumes "names_unique ts" and "old \<in> set ts" and "tg_id t = tg_id old" and "tg_name t = tg_name old" and "tg_normalized t = tg_normalized old"
  shows "\<not> exists_row (\<lambda>u. tg_id u \<noteq> tg_id t \<and>
    (tg_name u = tg_name t \<or> (tg_normalized u = tg_normalized t \<and> tg_normalized t \<noteq> None))) ts"
  using assms unfolding exists_row_iff names_unique_def by metis

lemma live_link:
  assumes "tags_ok ts rs" and "r \<in> set rs" and "rl_tag r = Some (tg_id t)" and "t \<in> set ts" and "\<not> rl_deleted r"
  shows "\<not> tg_deleted t \<and> tg_name t = rl_name r"
proof -
  have "link_ok ts r" "distinct (map tg_id ts)" using assms(1,2) by (simp_all add: tags_ok_def)
  then obtain u where u: "u \<in> set ts" "tg_id u = tg_id t" "\<not> tg_deleted u" "tg_name u = rl_name r"
    using assms(3,5) by (auto simp: link_ok_def)
  have "u = t" using \<open>distinct (map tg_id ts)\<close> u(1,2) assms(4) by (simp add: distinct_map inj_on_def)
  with u show ?thesis by blast
qed

lemma same_names_ok:
  assumes "tags_ok ts rs" and "old \<in> set ts" and "tg_id t = tg_id old" and "tg_name t = tg_name old"
    and "tg_normalized t = tg_normalized old" and "tg_deleted t = tg_deleted old"
  shows "tags_ok (save_row tg_id t ts) rs"
proof (rule save_tag_ok[OF assms(1,2,3)])
  have "names_unique ts" using assms(1) by (simp add: tags_ok_def)
  then show "\<not> exists_row (\<lambda>u. tg_id u \<noteq> tg_id t \<and>
      (tg_name u = tg_name t \<or> (tg_normalized u = tg_normalized t \<and> tg_normalized t \<noteq> None))) ts"
    using assms(2-5) by (rule old_names_untaken)
qed (use live_link[OF assms(1) _ _ assms(2)] assms(3,4,6) in simp)

lemma mem_save_row: "old \<in> set rows \<Longrightarrow> key r = key old \<Longrightarrow> r \<in> set (save_row key r rows)"
  by (simp add: set_save_row)

lemma one_relation:
  assumes "relations_unique rs" and "r \<in> set rs" and "q \<in> set rs" and "rl_file r = rl_file q" and "rl_tag r = rl_tag q" and "rl_tag q \<noteq> None"
  shows "r = q"
proof -
  let ?xs = "filter (\<lambda>r. rl_tag r \<noteq> None) rs"
  have "inj_on (\<lambda>r. (rl_file r, rl_tag r)) (set ?xs)" using assms(1) by (simp add: relations_unique_def distinct_map)
  then show ?thesis by (rule inj_onD) (use assms in auto)
qed

section \<open>Writes that leave the rows\<close>

named_theorems row_simps "the rows of the tag tables after a write"

lemma tag_event_rows [row_simps]:
  "tags (tag_event now a b op n t d) = tags d" "file_tags (tag_event now a b op n t d) = file_tags d"
  "overrides (tag_event now a b op n t d) = overrides d" "suppressions (tag_event now a b op n t d) = suppressions d"
  by (simp_all add: tag_event_def flush_def)

lemma change_rows [row_simps]:
  "tags (tag_change now u op b d) = tags d" "file_tags (tag_change now u op b d) = file_tags d"
  "tags (relation_change now r op n b d) = tags d" "file_tags (relation_change now r op n b d) = file_tags d"
  "tags (visibility_change now f identity op b s d) = tags d" "file_tags (visibility_change now f identity op b s d) = file_tags d"
  "tags (finish_relation now r op b s d) = tags d" "file_tags (finish_relation now r op b s d) = file_tags d"
  by (simp_all add: tag_change_def relation_change_def visibility_change_def finish_relation_def put_file_state_def row_simps)

lemma override_rows [row_simps]:
  "tags (update_overrides i target b d) = tags d" "file_tags (update_overrides i target b d) = file_tags d"
  "tags (flush d) = tags d" "file_tags (flush d) = file_tags d"
  "tags (restore_suppressions file u d) = tags d" "file_tags (restore_suppressions file u d) = file_tags d"
  "tags (put_file_state s d) = tags d" "file_tags (put_file_state s d) = file_tags d"
  by (simp_all add: update_overrides_def Let_def flush_def restore_suppressions_def put_file_state_def)

lemma put_rows [row_simps]:
  "tags (put_tag t d) = save_row tg_id t (tags d)" "file_tags (put_tag t d) = file_tags d"
  "tags (put_relation r d) = tags d" "file_tags (put_relation r d) = save_row rl_id r (file_tags d)"
  by (simp_all add: put_tag_def put_relation_def)

lemma ensure_override_rows [row_simps]:
  "tags (ensure_override tag b c d) = tags d" "file_tags (ensure_override tag b c d) = file_tags d"
  by (simp_all add: ensure_override_def Let_def flush_def split: option.splits)

lemma ensure_links_rows [row_simps]:
  "tags (ensure_links cs tag b d) = tags d" "file_tags (ensure_links cs tag b d) = file_tags d"
  by (induction cs arbitrary: d) (simp_all add: ensure_links_def row_simps)

lemma hide_key_rows [row_simps]: "tags (hide_key file key d) = tags d" "file_tags (hide_key file key d) = file_tags d"
  by (simp_all add: hide_key_def split: option.splits)

lemma hide_keys_rows [row_simps]:
  "tags (fold (hide_key file) keys d) = tags d" "file_tags (fold (hide_key file) keys d) = file_tags d"
  by (induction keys arbitrary: d) (simp_all add: row_simps)

lemma hide_files_rows [row_simps]:
  "tags (fold (\<lambda>i. fold (hide_key i) keys) ids d) = tags d" "file_tags (fold (\<lambda>i. fold (hide_key i) keys) ids d) = file_tags d"
  by (induction ids arbitrary: d) (simp_all add: row_simps)

lemma propagate_rows [row_simps]:
  "tags (propagate_suppressions cs d) = tags d" "file_tags (propagate_suppressions cs d) = file_tags d"
  by (simp_all add: propagate_suppressions_def Let_def row_simps)

lemma set_suppression_rows:
  "tags (snd (set_suppression file b c d)) = tags d \<and> file_tags (snd (set_suppression file b c d)) = file_tags d"
  by (auto simp: set_suppression_def Let_def flush_def split: option.splits)

lemma set_suppressions_Cons:
  "set_suppressions file b (c # cs) x =
     set_suppressions file b cs (fst x \<or> fst (set_suppression file b c (snd x)), snd (set_suppression file b c (snd x)))"
  by (simp add: set_suppressions_def split_beta Let_def)

lemma set_suppressions_rows [row_simps]:
  "tags (snd (set_suppressions file b cs x)) = tags (snd x)" "file_tags (snd (set_suppressions file b cs x)) = file_tags (snd x)"
  by (induction cs arbitrary: x) (simp_all add: set_suppressions_Cons set_suppression_rows, simp_all add: set_suppressions_def)

lemma tag_file_state_rows:
  "tag_file_state now f d = Inr (d', s) \<Longrightarrow>
     tags d' = tags d \<and> file_tags d' = file_tags d \<and> overrides d' = overrides d \<and> suppressions d' = suppressions d \<and>
     stored_overrides d' = stored_overrides d"
  by (auto simp: tag_file_state_def Let_def raise_if_def split: if_splits option.splits)

lemma touch_file_rows:
  "touch_file now file d = Inr (d', n) \<Longrightarrow>
     tags d' = tags d \<and> file_tags d' = file_tags d \<and> overrides d' = overrides d \<and> suppressions d' = suppressions d \<and>
     stored_overrides d' = stored_overrides d"
  by (auto simp: touch_file_def and_then_def put_file_state_def split: option.splits sum.splits dest: tag_file_state_rows)

lemma lock_file_rows:
  "lock_file now file expected d = Inr (d', f, s) \<Longrightarrow>
     tags d' = tags d \<and> file_tags d' = file_tags d \<and> overrides d' = overrides d \<and> suppressions d' = suppressions d \<and>
     stored_overrides d' = stored_overrides d"
  by (auto simp: lock_file_def and_then_def raise_if_def split: option.splits sum.splits if_splits dest: tag_file_state_rows)

lemma live_tag_SomeD: "live_tag i d = Some t \<Longrightarrow> t \<in> set (tags d) \<and> tg_id t = i \<and> \<not> tg_deleted t"
  unfolding live_tag_def by (auto dest: find_row_SomeD)

lemma get_tag_Inr: "get_tag i d = Inr t \<longleftrightarrow> live_tag i d = Some t"
  by (simp add: get_tag_def split: option.splits)

end
