(* ===== verification/TagSteps.thy ===== *)
theory TagSteps
  imports TagInvariant
begin

text \<open>
  Every request on tags keeps \<open>tags_valid\<close>; \<open>tag_step\<close> is one committed request and
  \<open>tag_reach\<close> a sequence of them.
\<close>

section \<open>Loops over relations\<close>

lemma for_each_rest:
  assumes "for_each f xs d = Inr d'" and "I xs d"
    and "\<And>x xs d d'. I (x # xs) d \<Longrightarrow> f x d = Inr d' \<Longrightarrow> I xs d'"
  shows "I [] d'"
  using assms(1,2) by (induction xs arbitrary: d) (auto split: sum.splits intro: assms(3))

text \<open>
  The rows still to come are as they were read, and the live relations to the tag are among
  them.
\<close>

definition pending :: "int \<Rightarrow> mk_tag list \<Rightarrow> file_tag list \<Rightarrow> tag_state \<Rightarrow> bool" where
  "pending i ts xs d \<longleftrightarrow> tags_ok ts (file_tags d) \<and> tags d = ts \<and> set xs \<subseteq> set (file_tags d) \<and> distinct (map rl_id xs) \<and>
     (\<forall>r \<in> set xs. rl_tag r = Some i) \<and>
     (\<forall>r \<in> set (file_tags d). rl_tag r = Some i \<and> \<not> rl_deleted r \<longrightarrow> r \<in> set xs)"

lemma pending_start:
  assumes "tags_valid d" and "\<And>r. P r \<Longrightarrow> rl_tag r = Some i" and "\<And>r. rl_tag r = Some i \<Longrightarrow> \<not> rl_deleted r \<Longrightarrow> P r"
  shows "pending i (tags d) (filter P (file_tags d)) d"
  using assms by (auto simp: pending_def tags_ok_def intro: distinct_map_filter)

lemma pending_done: "pending i ts [] d \<Longrightarrow> r \<in> set (file_tags d) \<Longrightarrow> rl_tag r = Some i \<Longrightarrow> rl_deleted r"
  by (auto simp: pending_def)

lemma pending_delete:
  assumes "pending i ts (r # rs) d"
  shows "pending i ts rs (d\<lparr>file_tags := save_row rl_id (r\<lparr>rl_deleted := True\<rparr>) (file_tags d)\<rparr>)"
proof -
  have r: "r \<in> set (file_tags d)" and valid: "tags_ok ts (file_tags d)" using assms by (simp_all add: pending_def)
  then have rows: "set (save_row rl_id (r\<lparr>rl_deleted := True\<rparr>) (file_tags d))
      = insert (r\<lparr>rl_deleted := True\<rparr>) {x \<in> set (file_tags d). rl_id x \<noteq> rl_id r}"
    by (auto simp: set_save_row image_iff)
  have ids: "rl_id x = rl_id r \<longleftrightarrow> x = r" if "x \<in> set (file_tags d)" for x
    using that r valid by (auto simp: tags_ok_def distinct_map inj_on_def)
  have "rl_id r \<notin> rl_id ` set rs" using assms by (simp add: pending_def)
  then show ?thesis
    using assms drop_relation_row[OF valid r] ids unfolding pending_def by (auto simp: rows)
qed

lemma pending_cong:
  "pending i ts xs d \<Longrightarrow> tags d' = tags d \<Longrightarrow> file_tags d' = file_tags d \<Longrightarrow> pending i ts xs d'"
  by (simp add: pending_def)

lemma drop_relation_pending:
  assumes "pending i ts (r # rs) d" and "drop_relation now r d = Inr d'"
  shows "pending i ts rs d'"
proof -
  obtain d1 n where d1: "touch_file now (rl_file r) (put_relation (r\<lparr>rl_deleted := True\<rparr>) d) = Inr (d1, n)"
    "d' = relation_change now r DELETE n True d1"
    using assms(2) by (auto simp: drop_relation_def)
  show ?thesis
    by (rule pending_cong[OF pending_delete[OF assms(1)]])
      (use touch_file_rows[OF d1(1)] in \<open>simp_all add: d1(2) row_simps put_relation_def\<close>)
qed

section \<open>Requests on tags\<close>

lemma create_tag_ok:
  assumes "create_tag now name favorite d = Inr (d', t)" and "tags_valid d"
  shows "tags_valid d'" "t \<in> set (tags d')" "\<not> tg_deleted t"
proof -
  have t: "t = new_tag now (next_id (map tg_id (tags d))) name favorite" "\<not> name_taken t d"
    and d': "d' = tag_change now t CREATE False (d\<lparr>tags := tags d @ [t]\<rparr>)"
    using assms(1) by (auto simp: create_tag_def Let_def)
  have "tg_id t \<notin> tg_id ` set (tags d)" using next_id_fresh[of "map tg_id (tags d)"] by (simp add: t(1) new_tag_def)
  then show "tags_valid d'" using append_tag_ok[OF assms(2)] t(2) by (simp add: d' row_simps name_taken_def)
  show "t \<in> set (tags d')" "\<not> tg_deleted t" by (simp_all add: d' row_simps t(1) new_tag_def)
qed

lemma finish_update_ok:
  assumes "finish_update now payload t d = Inr (d', u)" and "tags_ok ts (file_tags d)" and "tags d = ts"
    and "old \<in> set ts" and "tg_id t = tg_id old" and "\<not> tg_deleted t"
    and "\<And>r. r \<in> set (file_tags d) \<Longrightarrow> rl_tag r = Some (tg_id t) \<Longrightarrow> tg_name t = rl_name r \<or> rl_deleted r"
  shows "tags_valid d' \<and> u \<in> set (tags d') \<and> \<not> tg_deleted u \<and> tg_id u = tg_id t"
proof -
  have u: "\<not> name_taken u d" "d' = tag_change now u UPDATE False (put_tag u d)"
    "tg_id u = tg_id t" "tg_name u = tg_name t" "tg_deleted u = tg_deleted t"
    using assms(1) by (auto simp: finish_update_def Let_def)
  have "tags_ok (save_row tg_id u ts) (file_tags d)"
    by (rule save_tag_ok[OF assms(2,4)]) (use u assms in \<open>auto simp: name_taken_def\<close>)
  moreover have "u \<in> set (save_row tg_id u ts)" using assms(4,5) u(3) by (simp add: set_save_row image_iff) metis
  ultimately show ?thesis using assms(3,6) u by (simp add: row_simps)
qed

text \<open>Between the renaming of the relations and that of the tag only the names differ.\<close>

lemma rename_relations_ok:
  assumes "tags_valid d" and "old \<in> set (tags d)" and "tg_id t = tg_id old" and "\<not> tg_deleted t"
    and "finish_update now payload t (rename_relations t d) = Inr (d', u)"
  shows "tags_valid d' \<and> u \<in> set (tags d') \<and> \<not> tg_deleted u \<and> tg_id u = tg_id t"
proof -
  let ?rs = "file_tags (rename_relations t d)"
  have u: "\<not> name_taken u (rename_relations t d)" "d' = tag_change now u UPDATE False (put_tag u (rename_relations t d))"
    "tg_id u = tg_id t" "tg_name u = tg_name t" "tg_deleted u = tg_deleted t"
    using assms(5) by (auto simp: finish_update_def Let_def)
  have rows: "set ?rs = (\<lambda>r. if rl_tag r = Some (tg_id t) then r\<lparr>rl_name := tg_name t\<rparr> else r) ` set (file_tags d)"
    by (simp add: rename_relations_def set_update_where)
  have keys: "map rl_id ?rs = map rl_id (file_tags d)" "map (\<lambda>r. (rl_file r, rl_tag r)) ?rs = map (\<lambda>r. (rl_file r, rl_tag r)) (file_tags d)"
    by (simp_all add: rename_relations_def map_update_where)
  have pairs: "relations_unique xs = distinct (filter (\<lambda>p. snd p \<noteq> None) (map (\<lambda>r. (rl_file r, rl_tag r)) xs))" for xs
    by (simp add: relations_unique_def filter_map comp_def)
  have tag_rows: "set (save_row tg_id u (tags d)) = insert u {x \<in> set (tags d). tg_id x \<noteq> tg_id u}"
    using assms(2,3) u(3) by (auto simp: set_save_row image_iff)
  have "link_ok (save_row tg_id u (tags d)) r" if mem: "r \<in> set ?rs" for r
  proof -
    obtain q where q: "q \<in> set (file_tags d)" "r = (if rl_tag q = Some (tg_id t) then q\<lparr>rl_name := tg_name t\<rparr> else q)"
      using mem unfolding rows by blast
    have "link_ok (tags d) q" using assms(1) q(1) by (simp add: tags_ok_def)
    then show ?thesis using q(2) u(3-5) assms(4) unfolding link_ok_def tag_rows by (auto split: if_splits)
  qed
  moreover have "names_unique (save_row tg_id u (tags d))"
    by (rule untaken_names[of "tags d" u]) (use assms(1) u(1) tag_rows in \<open>auto simp: tags_ok_def name_taken_def rename_relations_def\<close>)
  moreover have "tags (rename_relations t d) = tags d" by (simp add: rename_relations_def)
  ultimately show ?thesis using assms(1,4) u(3-5) tag_rows unfolding tags_ok_def pairs
    by (simp add: u(2) row_simps keys)
qed

lemma update_tag_ok:
  assumes "update_tag now i payload d = Inr (d', u)" and "tags_valid d"
  shows "tags_valid d' \<and> u \<in> set (tags d') \<and> \<not> tg_deleted u \<and> tg_id u = i"
proof -
  obtain t where t: "live_tag i d = Some t" using assms(1) by (auto simp: update_tag_def get_tag_Inr)
  note found = live_tag_SomeD[OF t]
  show ?thesis
  proof (cases "tp_name payload")
    case None
    then have done_: "finish_update now payload t d = Inr (d', u)" using assms(1) t by (auto simp: update_tag_def get_tag_Inr)
    have "tg_name t = rl_name r \<or> rl_deleted r" if "r \<in> set (file_tags d)" "rl_tag r = Some (tg_id t)" for r
      using live_link[OF assms(2) that] found by blast
    then show ?thesis using finish_update_ok[OF done_ assms(2) refl _ refl] found by blast
  next
    case (Some name)
    then obtain n where n: "name = Some n" using assms(1) t by (cases name) (auto simp: update_tag_def get_tag_Inr)
    let ?t = "t\<lparr>tg_name := n, tg_normalized := Some (normalize_tag n)\<rparr>"
    have "finish_update now payload ?t (rename_relations ?t d) = Inr (d', u)"
      using assms(1) t Some n by (auto simp: update_tag_def get_tag_Inr Let_def)
    then show ?thesis using rename_relations_ok[OF assms(2), where old = t and t = ?t] found by simp
  qed
qed

lemma retire_ok:
  assumes "tags_valid d" and "t \<in> set (tags d)" and "\<And>r. r \<in> set (file_tags d) \<Longrightarrow> rl_tag r = Some (tg_id t) \<Longrightarrow> rl_deleted r"
  shows "tags_ok (save_row tg_id (retired now t) (tags d)) (file_tags d)"
proof (rule save_tag_ok[OF assms(1,2)])
  show "\<not> exists_row (\<lambda>u. tg_id u \<noteq> tg_id (retired now t) \<and> (tg_name u = tg_name (retired now t) \<or>
      (tg_normalized u = tg_normalized (retired now t) \<and> tg_normalized (retired now t) \<noteq> None))) (tags d)"
    by (rule old_names_untaken[OF _ assms(2)]) (use assms(1) in \<open>auto simp: retired_def tags_ok_def\<close>)
qed (use assms(3) in \<open>auto simp: retired_def\<close>)

lemma delete_tag_ok:
  assumes "delete_tag now i expected d = Inr d'" and "tags_valid d"
  shows "tags_valid d'"
proof -
  obtain t d1 where t: "live_tag i d = Some t"
    and d1: "for_each (drop_relation now) (filter (\<lambda>r. rl_tag r = Some i \<and> \<not> rl_deleted r) (file_tags d)) d = Inr d1"
    and d': "d' = tag_change now (retired now t) DELETE True (put_tag (retired now t) (update_overrides i None True d1))"
    using assms(1) by (auto simp: delete_tag_def get_tag_Inr)
  have "pending i (tags d) [] d1"
    by (rule for_each_rest[OF d1, where I = "pending i (tags d)"])
      (auto intro: pending_start[OF assms(2)] drop_relation_pending)
  then show ?thesis using retire_ok[of d1 t now] live_tag_SomeD[OF t] pending_done[of i "tags d" d1]
    by (simp add: d' row_simps pending_def)
qed

lemma link_tag_keeps:
  assumes "link_tag file t d = (created, d')" and "tags_valid d" and "x \<in> set (file_tags d)" and "rl_tag x \<noteq> Some (tg_id t)"
  shows "x \<in> set (file_tags d')"
proof (cases "find_relation file (tg_id t) d")
  case None
  then show ?thesis using assms by (auto simp: link_tag_def flush_def)
next
  case (Some q)
  then have "q \<in> set (file_tags d)" "rl_tag q = Some (tg_id t)" by (auto simp: find_relation_def dest: find_SomeD)
  then have "rl_id x \<noteq> rl_id q" using assms(2-4) unfolding tags_ok_def by (metis distinct_map inj_onD)
  then show ?thesis using assms(1,3) Some by (auto simp: link_tag_def put_relation_def set_save_row user_relation_def)
qed

text \<open>A relation of the source moves to the target and dies.\<close>

lemma merge_relation_pending:
  assumes "pending i ts (r # rs) d" and "merge_relation now target r d = Inr d'"
    and "target \<in> set ts" and "\<not> tg_deleted target" and "tg_id target \<noteq> i"
  shows "pending i ts rs d'"
proof (cases "rl_deleted r")
  case True
  then show ?thesis using assms(2) by (intro pending_cong[OF pending_delete[OF assms(1)]])
      (simp_all add: merge_relation_def put_relation_def)
next
  case False
  obtain created d0 where link: "link_tag (rl_file r) target d = (created, d0)" by fastforce
  obtain d1 n where d1: "touch_file now (rl_file r) d0 = Inr (d1, n)"
    "d' = put_relation (r\<lparr>rl_deleted := True\<rparr>) (relation_change now (user_relation 0 (rl_file r) target) UPDATE n False d1)"
    using assms(2) False by (auto simp: merge_relation_def Let_def link split: prod.splits)
  have valid: "tags_valid d" and ts: "tags d = ts" using assms(1) by (simp_all add: pending_def)
  have tags0: "tags d0 = ts" using link ts by (auto simp: link_tag_def flush_def put_relation_def split: option.splits)
  have ok: "tags_valid d0" by (rule link_tag_ok[OF link valid]) (use assms(3,4) ts in simp_all)
  have kept: "x \<in> set (file_tags d0)" if "x \<in> set (file_tags d)" "rl_tag x = Some i" for x
    using link_tag_keeps[OF link valid that(1)] that(2) assms(5) by simp
  have new: "x \<in> set (file_tags d)" if x: "x \<in> set (file_tags d0)" "rl_tag x = Some i" for x
  proof (cases "find_relation (rl_file r) (tg_id target) d")
    case None
    then show ?thesis using link x assms(5) by (auto simp: link_tag_def flush_def user_relation_def)
  next
    case (Some q)
    then have "x \<in> set (save_row rl_id (user_relation (rl_id q) (rl_file r) target) (file_tags d))"
      using link x by (auto simp: link_tag_def put_relation_def)
    then have "x = user_relation (rl_id q) (rl_file r) target \<or> x \<in> set (file_tags d)" by (rule set_save_rowD)
    then show ?thesis using x(2) assms(5) by (auto simp: user_relation_def)
  qed
  have "pending i ts (r # rs) d0" using assms(1) ok tags0 kept new unfolding pending_def by auto
  from pending_delete[OF this] show ?thesis
    by (rule pending_cong) (use touch_file_rows[OF d1(1)] tags0 in \<open>simp_all add: d1(2) row_simps\<close>)
qed

definition merged_tag :: "time \<Rightarrow> mk_tag \<Rightarrow> mk_tag" where
  "merged_tag now t = t\<lparr>tg_revision := tg_revision t + 1, tg_updated_at := now\<rparr>"

lemma merge_tags_cases:
  assumes "merge_tags now i payload d = Inr (d', u)"
  obtains source target d1 where "live_tag i d = Some source" "live_tag (tm_target payload) d = Some target" "i \<noteq> tm_target payload"
    "for_each (merge_relation now target) (filter (\<lambda>r. rl_tag r = Some i) (file_tags d)) d = Inr d1"
    "u = merged_tag now target"
    "tags d' = save_row tg_id u (save_row tg_id (retired now source) (tags d1))" "file_tags d' = file_tags d1"
    "overrides d' = overrides (update_overrides i (Some (tg_id u)) False d1)"
  using assms by (auto simp: merge_tags_def get_tag_Inr Let_def row_simps merged_tag_def tag_change_def)
    (simp add: update_overrides_def put_tag_def)

lemma merge_tags_ok:
  assumes "merge_tags now i payload d = Inr (d', u)" and "tags_valid d"
  shows "tags_valid d' \<and> u \<in> set (tags d') \<and> \<not> tg_deleted u \<and> tg_id u = tm_target payload"
  using assms(1)
proof (cases rule: merge_tags_cases)
  case (1 source target d1)
  note s = live_tag_SomeD[OF 1(1)] note t = live_tag_SomeD[OF 1(2)]
  have done_: "pending i (tags d) [] d1"
    by (rule for_each_rest[OF 1(4), where I = "pending i (tags d)"])
      (use 1(3) t in \<open>auto intro: pending_start[OF assms(2)] merge_relation_pending\<close>)
  then have d1: "tags d1 = tags d" "tags_valid d1" by (auto simp: pending_def)
  let ?ts = "save_row tg_id (retired now source) (tags d)"
  have retired_row: "tags_ok ?ts (file_tags d1)"
    using retire_ok[OF d1(2), of source now] s d1(1) pending_done[OF done_] by auto
  have target_row: "target \<in> set ?ts" using s t 1(3) by (auto simp: set_save_row retired_def)
  have u: "tg_id u = tg_id target" "tg_name u = tg_name target" "tg_normalized u = tg_normalized target" "tg_deleted u = tg_deleted target"
    by (simp_all add: 1(5) merged_tag_def)
  have "tags_ok (save_row tg_id u ?ts) (file_tags d1)" using retired_row target_row u by (rule same_names_ok)
  moreover have "u \<in> set (save_row tg_id u ?ts)" using target_row u(1) by (rule mem_save_row)
  ultimately show ?thesis using 1(6,7) d1(1) u t by simp
qed

section \<open>Requests on photos\<close>

lemma assign_tag_cases:
  assumes "assign_tag now file i expected d = Inr d'"
  obtains d1 f s t where "lock_file now file expected d = Inr (d1, f, s)" "live_tag i d1 = Some t"
    "d' = (case link_tag (cf_id f) t (restore_suppressions (cf_id f) t d1) of
       (created, d) \<Rightarrow> finish_relation now (user_relation 0 (cf_id f) t) (if created then CREATE else UPDATE) False s d)"
proof -
  obtain x where x: "lock_file now file expected d = Inr x" using assms unfolding assign_tag_def and_then_Inr_iff by blast
  obtain d1 f s where v: "x = (d1, f, s)" by (cases x) blast
  obtain t where t: "live_tag i d1 = Some t"
    using assms unfolding assign_tag_def x v and_then_def by (cases "live_tag i d1") (simp_all add: get_tag_def)
  have "d' = (case link_tag (cf_id f) t (restore_suppressions (cf_id f) t d1) of
       (created, d) \<Rightarrow> finish_relation now (user_relation 0 (cf_id f) t) (if created then CREATE else UPDATE) False s d)"
    using assms unfolding assign_tag_def x v and_then_def by (simp add: get_tag_def t split_beta Let_def)
  with x t show thesis unfolding v by (rule that)
qed

lemma assign_tag_ok:
  assumes "assign_tag now file i expected d = Inr d'" and "tags_valid d"
  shows "tags_valid d'"
  using assms(1)
proof (cases rule: assign_tag_cases)
  case (1 d1 f s t)
  obtain created d2 where link: "link_tag (cf_id f) t (restore_suppressions (cf_id f) t d1) = (created, d2)" by fastforce
  have "tags_valid d2"
    by (rule link_tag_ok[OF link]) (use lock_file_rows[OF 1(1)] assms(2) live_tag_SomeD[OF 1(2)] in \<open>simp_all add: row_simps\<close>)
  then show ?thesis using 1(3) by (simp add: link row_simps)
qed

lemma remove_tag_ok:
  assumes "remove_tag now file i expected d = Inr d'" and "tags_valid d"
  shows "tags_valid d'"
proof -
  obtain d1 f s r where d1: "lock_file now file expected d = Inr (d1, f, s)"
    and r: "List.find (\<lambda>r. rl_file r = cf_id f \<and> rl_tag r = Some i \<and> \<not> rl_deleted r) (file_tags d1) = Some r"
    and d': "d' = finish_relation now r DELETE True s (put_relation (r\<lparr>rl_deleted := True\<rparr>) d1)"
    using assms(1) by (auto simp: remove_tag_def split: option.splits)
  show ?thesis using drop_relation_row[of "tags d1" "file_tags d1" r] lock_file_rows[OF d1] assms(2) find_SomeD[OF r]
    by (simp add: d' row_simps)
qed

lemma remove_user_relation_ok: "tags_valid d \<Longrightarrow> tags_valid (snd (remove_user_relation file identity name d))"
  by (auto simp: remove_user_relation_def Let_def row_simps intro!: drop_relation_row
      split: option.splits tag_identity.splits dest: find_SomeD)

lemma hide_tag_cases:
  assumes "hide_tag now digest file identity expected d = Inr d'"
  obtains d1 f s e where "lock_file now file expected d = Inr (d1, f, s)" "require_entry digest identity d1 = Inr e"
    "cf_id f \<in> set (en_files e)"
    "d' = visibility_change now f identity DELETE True s
      (snd (set_suppressions (cf_id f) True (en_canonicals e) (remove_user_relation (cf_id f) identity (en_name e) d1)))"
proof -
  obtain x where x: "lock_file now file expected d = Inr x" using assms unfolding hide_tag_def and_then_Inr_iff by blast
  obtain d1 f s where v: "x = (d1, f, s)" by (cases x) blast
  obtain e where e: "require_entry digest identity d1 = Inr e"
    using assms unfolding hide_tag_def x v and_then_def by (cases "require_entry digest identity d1") simp_all
  have "cf_id f \<in> set (en_files e)" "d' = visibility_change now f identity DELETE True s
      (snd (set_suppressions (cf_id f) True (en_canonicals e) (remove_user_relation (cf_id f) identity (en_name e) d1)))"
    using assms unfolding hide_tag_def x v and_then_def by (simp_all add: e split_beta Let_def)
  with x e show thesis unfolding v by (rule that)
qed

lemma hide_tag_ok:
  assumes "hide_tag now digest file identity expected d = Inr d'" and "tags_valid d"
  shows "tags_valid d'"
  using assms(1)
proof (cases rule: hide_tag_cases)
  case (1 d1 f s e)
  show ?thesis using remove_user_relation_ok[of d1 "cf_id f" identity "en_name e"] lock_file_rows[OF 1(1)] assms(2)
    by (simp add: 1(4) row_simps)
qed

text \<open>A legacy relation has no tag, so it may live whatever the tags are.\<close>

lemma restore_legacy_ok:
  assumes "tags_valid d"
  shows "tags_valid (snd (restore_legacy file name d))"
proof (cases "List.find (\<lambda>r. rl_file r = file \<and> rl_source r = UserSource \<and> rl_tag r = None \<and>
    normalize_tag (rl_name r) = normalize_tag name) (file_tags d)")
  case (Some r)
  then have "r \<in> set (file_tags d)" "rl_tag r = None" by (auto dest: find_SomeD)
  then have "tags_ok (tags d) (save_row rl_id (r\<lparr>rl_deleted := False\<rparr>) (file_tags d))"
    by (intro save_relation_ok[OF assms, of r]) (auto simp: link_ok_def)
  then show ?thesis using Some by (simp add: restore_legacy_def row_simps)
qed (use assms in \<open>simp add: restore_legacy_def\<close>)

lemma restored_relation_ok:
  assumes "restored_relation file identity name d = Inr x" and "tags_valid d"
  shows "tags_valid (snd x)"
proof (cases identity)
  case (TagIdentity i)
  then obtain t where t: "live_tag i d = Some t" "x = (True, snd (link_tag file t d))"
    using assms(1) by (auto simp: restored_relation_def get_tag_Inr)
  show ?thesis using link_tag_ok[OF prod.collapse[symmetric] assms(2)] live_tag_SomeD[OF t(1)] by (simp add: t(2))
next
  case (AiIdentity c)
  then show ?thesis using assms by (auto simp: restored_relation_def)
next
  case (LegacyIdentity h)
  then have "x = restore_legacy file name d" using assms(1) by (simp add: restored_relation_def)
  then show ?thesis using restore_legacy_ok[OF assms(2)] by simp
qed

lemma restore_tag_cases:
  assumes "restore_tag now digest file identity expected d = Inr d'"
  obtains d1 f s e x where "lock_file now file expected d = Inr (d1, f, s)" "require_entry digest identity d1 = Inr e"
    "restored_relation (cf_id f) identity (en_name e) d1 = Inr x"
    "d' = visibility_change now f identity UPDATE False s (snd (set_suppressions (cf_id f) False (en_canonicals e) x))"
proof -
  obtain y where y: "lock_file now file expected d = Inr y" using assms unfolding restore_tag_def and_then_Inr_iff by blast
  obtain d1 f s where v: "y = (d1, f, s)" by (cases y) blast
  obtain e where e: "require_entry digest identity d1 = Inr e"
    using assms unfolding restore_tag_def y v and_then_def by (cases "require_entry digest identity d1") simp_all
  obtain x where x: "restored_relation (cf_id f) identity (en_name e) d1 = Inr x"
    using assms unfolding restore_tag_def y v and_then_def by (cases "restored_relation (cf_id f) identity (en_name e) d1") (simp_all add: e)
  have "d' = visibility_change now f identity UPDATE False s (snd (set_suppressions (cf_id f) False (en_canonicals e) x))"
    using assms unfolding restore_tag_def y v and_then_def by (simp add: e x split_beta Let_def)
  with y e x show thesis unfolding v by (rule that)
qed

lemma restore_tag_ok:
  assumes "restore_tag now digest file identity expected d = Inr d'" and "tags_valid d"
  shows "tags_valid d'"
  using assms(1)
proof (cases rule: restore_tag_cases)
  case (1 d1 f s e x)
  have "tags_valid d1" using lock_file_rows[OF 1(1)] assms(2) by simp
  from restored_relation_ok[OF 1(3) this] show ?thesis by (simp add: 1(4) row_simps)
qed

section \<open>Requests on the catalogue\<close>

lemma find_normalized_mem: "find_normalized n b d = Some t \<Longrightarrow> t \<in> set (tags d) \<and> (b \<or> \<not> tg_deleted t)"
  by (auto simp: find_normalized_def Let_def dest: find_SomeD split: option.splits)

lemma find_normalized_deleted:
  assumes "find_normalized n False d = None" and "find_normalized n True d = Some t"
  shows "tg_deleted t"
proof (rule ccontr)
  assume live: "\<not> tg_deleted t"
  have t: "t \<in> set (tags d)" using find_normalized_mem[OF assms(2)] by blast
  have "tg_normalized t = Some n \<or> ((tg_normalized t = None \<or> tg_normalized t = Some []) \<and> normalize_tag (tg_name t) = n)"
    using assms(2) by (auto simp: find_normalized_def Let_def dest: find_SomeD split: option.splits)
  moreover have "List.find (\<lambda>t. tg_normalized t = Some n) (filter (\<lambda>t. \<not> tg_deleted t) (tags d)) = None"
    "List.find (\<lambda>t. (tg_normalized t = None \<or> tg_normalized t = Some []) \<and> normalize_tag (tg_name t) = n)
       (filter (\<lambda>t. \<not> tg_deleted t) (tags d)) = None"
    using assms(1) by (auto simp: find_normalized_def Let_def split: option.splits)
  ultimately show False using t live by (auto dest: find_NoneD)
qed

lemma ensure_target_ok:
  assumes "ensure_target now name active d = Inr (d', t)" and "tags_valid d"
    and "active = find_normalized (normalize_tag name) False d"
  shows "tags_valid d' \<and> t \<in> set (tags d') \<and> \<not> tg_deleted t"
proof (cases active)
  case (Some u)
  then show ?thesis using assms find_normalized_mem[of "normalize_tag name" False d u] by (simp add: ensure_target_def)
next
  case None
  show ?thesis
  proof (cases "find_normalized (normalize_tag name) True d")
    case none: None
    then have "create_tag now name False d = Inr (d', t)" using assms(1) None by (simp add: ensure_target_def)
    then show ?thesis using create_tag_ok assms(2) by blast
  next
    case (Some u)
    then have u: "u \<in> set (tags d)" "tg_deleted u"
      using find_normalized_mem[OF Some] find_normalized_deleted[OF _ Some] None assms(3) by auto
    have t: "t = u\<lparr>tg_name := name, tg_normalized := Some (normalize_tag name), tg_type := UserTag, tg_source := UserSource,
        tg_deleted := False, tg_revision := tg_revision u + 1, tg_updated_at := now\<rparr>" "\<not> name_taken t d" "d' = flush (put_tag t d)"
      using assms(1) None Some by (auto simp: ensure_target_def Let_def)
    have "tags_ok (save_row tg_id t (tags d)) (file_tags d)"
    proof (rule save_tag_ok[OF assms(2) u(1)])
      show "\<not> tg_deleted t \<and> tg_name t = rl_name r"
        if "r \<in> set (file_tags d)" "rl_tag r = Some (tg_id t)" "\<not> rl_deleted r" for r
        using live_link[OF assms(2) that(1) _ u(1) that(3)] that(2) u(2) t(1) by simp
    qed (use t in \<open>auto simp: name_taken_def\<close>)
    moreover have "t \<in> set (save_row tg_id t (tags d))" using u(1) by (rule mem_save_row) (simp add: t(1))
    ultimately show ?thesis by (simp add: t(3) row_simps) (simp add: t(1))
  qed
qed

lemma promote_legacy_ok:
  assumes "promote_legacy name t d = Inr d'" and "tags_valid d" and "t \<in> set (tags d)" and "\<not> tg_deleted t"
  shows "tags_valid d'"
proof -
  let ?rs = "update_where (is_legacy (normalize_tag name)) (\<lambda>r. user_relation (rl_id r) (rl_file r) t) (file_tags d)"
  have d': "relations_unique ?rs" "d' = d\<lparr>file_tags := ?rs\<rparr>" using assms(1) by (auto simp: promote_legacy_def Let_def)
  have "map rl_id ?rs = map rl_id (file_tags d)" by (rule map_update_where) (simp add: user_relation_def)
  moreover have "link_ok (tags d) r" if "r \<in> set ?rs" for r
    using assms(2) link_ok_user[OF assms(3,4)] that by (auto simp: tags_ok_def set_update_where)
  ultimately show ?thesis using assms(2) d' by (simp add: tags_ok_def)
qed

lemma delete_legacy_ok:
  "tags_valid d \<Longrightarrow> tags_ok (tags d) (update_where P (\<lambda>r. r\<lparr>rl_deleted := True\<rparr>) (file_tags d))"
proof -
  have pairs: "relations_unique xs = distinct (filter (\<lambda>p. snd p \<noteq> None) (map (\<lambda>r. (rl_file r, rl_tag r)) xs))" for xs
    by (simp add: relations_unique_def filter_map comp_def)
  show "tags_valid d \<Longrightarrow> tags_ok (tags d) (update_where P (\<lambda>r. r\<lparr>rl_deleted := True\<rparr>) (file_tags d))"
    unfolding tags_ok_def pairs by (auto simp: map_update_where set_update_where link_ok_dead)
qed

lemma rename_tag_entry_ok:
  assumes "tags_valid c" and "tags_valid d"
  shows "tags_valid (fst (rename_tag_entry now digest i e name revision target c d))"
proof (cases "move_tag now i name revision target (ensure_links (en_canonicals e) (Some i) False d)")
  case (Inl x)
  then show ?thesis using assms by (simp add: rename_tag_entry_def)
next
  case (Inr y)
  obtain d1 t where y: "y = (d1, t)" by force
  have "tags_valid (ensure_links (en_canonicals e) (Some i) False d)" using assms(2) by (simp add: row_simps)
  then have "tags_valid d1" using Inr update_tag_ok merge_tags_ok unfolding y move_tag_def by (cases target) auto
  then show ?thesis using assms Inr by (simp add: rename_tag_entry_def y read_entry_def row_simps)
qed

lemma rename_other_entry_ok:
  assumes "tags_valid c" and "tags_valid d" and "target = find_normalized (normalize_tag name) False d"
  shows "tags_valid (fst (rename_other_entry now digest identity e name target c d))"
proof (cases "ensure_target now name target d")
  case (Inl x)
  then show ?thesis using assms by (simp add: rename_other_entry_def)
next
  case (Inr y)
  obtain d1 t where y: "y = (d1, t)" by force
  have t: "tags_valid d1" "t \<in> set (tags d1)" "\<not> tg_deleted t" using ensure_target_ok[OF _ assms(2,3)] Inr y by auto
  have "tags_valid d2" if "promote_legacy (en_name e) t d1 = Inr d2" for d2 using promote_legacy_ok[OF that t] .
  then show ?thesis using assms Inr t(1)
    by (auto simp: rename_other_entry_def y read_entry_def row_simps split: tag_identity.splits sum.splits)
qed

lemma rename_or_merge_ok:
  assumes "tags_valid d"
  shows "tags_valid (fst (rename_or_merge now digest identity name revision d))"
proof (cases "require_entry digest identity d")
  case (Inr e)
  let ?target = "find_normalized (normalize_tag name) False d"
  let ?d = "propagate_suppressions (add_all (target_references digest name ?target d) (en_canonicals e)) d"
  have valid: "tags_valid ?d" using assms by (simp add: row_simps)
  have "?target = find_normalized (normalize_tag name) False ?d" by (simp add: find_normalized_def row_simps)
  from rename_other_entry_ok[OF assms valid this] rename_tag_entry_ok[OF assms valid] show ?thesis
    using Inr assms by (simp add: rename_or_merge_def Let_def split: tag_identity.splits)
qed (simp add: rename_or_merge_def assms)

lemma delete_entry_ok:
  assumes "delete_entry now digest identity expected d = Inr d'" and "tags_valid d"
  shows "tags_valid d'"
proof -
  obtain e where e: "require_entry digest identity d = Inr e" using assms(1) by (auto simp: delete_entry_def)
  show ?thesis
  proof (cases identity)
    case (TagIdentity i)
    have "delete_tag now i expected (ensure_links (en_canonicals e) (Some i) False d) = Inr d'"
      using assms(1) e TagIdentity by (auto simp: delete_entry_def)
    from delete_tag_ok[OF this] show ?thesis using assms(2) by (simp add: row_simps)
  next
    case (AiIdentity c)
    then show ?thesis using assms e by (auto simp: delete_entry_def row_simps)
  next
    case (LegacyIdentity h)
    then show ?thesis using assms e delete_legacy_ok[OF assms(2)] by (auto simp: delete_entry_def row_simps)
  qed
qed

section \<open>Committed requests\<close>

inductive tag_step :: "(utext \<Rightarrow> utext) \<Rightarrow> tag_state \<Rightarrow> tag_state \<Rightarrow> bool" for digest where
  create: "create_tag now name favorite d = Inr (d', t) \<Longrightarrow> tag_step digest d d'"
| update: "update_tag now i payload d = Inr (d', t) \<Longrightarrow> tag_step digest d d'"
| delete: "delete_tag now i expected d = Inr d' \<Longrightarrow> tag_step digest d d'"
| merge: "merge_tags now i m d = Inr (d', t) \<Longrightarrow> tag_step digest d d'"
| assign: "assign_tag now file i expected d = Inr d' \<Longrightarrow> tag_step digest d d'"
| remove: "remove_tag now file i expected d = Inr d' \<Longrightarrow> tag_step digest d d'"
| rename: "tag_step digest d (fst (rename_or_merge now digest identity name revision d))"
| delete_identity: "delete_entry now digest identity expected d = Inr d' \<Longrightarrow> tag_step digest d d'"
| hide: "hide_tag now digest file identity expected d = Inr d' \<Longrightarrow> tag_step digest d d'"
| restore: "restore_tag now digest file identity expected d = Inr d' \<Longrightarrow> tag_step digest d d'"

lemma tag_step_ok: "tag_step digest d d' \<Longrightarrow> tags_valid d \<Longrightarrow> tags_valid d'"
  by (induction rule: tag_step.induct)
    (blast dest: create_tag_ok update_tag_ok merge_tags_ok intro: delete_tag_ok assign_tag_ok remove_tag_ok
      rename_or_merge_ok delete_entry_ok hide_tag_ok restore_tag_ok)+

inductive tag_reach :: "(utext \<Rightarrow> utext) \<Rightarrow> tag_state \<Rightarrow> tag_state \<Rightarrow> bool" for digest d where
  start: "tag_reach digest d d"
| then_step: "tag_reach digest d d' \<Longrightarrow> tag_step digest d' d'' \<Longrightarrow> tag_reach digest d d''"

lemma tag_reach_ok: "tag_reach digest d d' \<Longrightarrow> tags_valid d \<Longrightarrow> tags_valid d'"
  by (induction rule: tag_reach.induct) (auto intro: tag_step_ok)

end
