(* ===== verification/TagCurationLaws.thy ===== *)
theory TagCurationLaws
  imports TagCuration
begin

text \<open>
  The laws of curation: no raw label is lost or used twice, the limits hold, and the
  vocabulary is unambiguous.
\<close>

section \<open>Accounting for labels\<close>

lemma mset_dict_update_new:
  "map_of d k = None \<Longrightarrow> mset (map g (dict_update k f d)) = add_mset (g (k, f None)) (mset (map g d))"
  by (induction k f d rule: dict_update.induct) (auto split: if_splits)

lemma mset_dict_update_old:
  "map_of d k = Some v \<Longrightarrow>
     add_mset (g (k, v)) (mset (map g (dict_update k f d))) = add_mset (g (k, f (Some v))) (mset (map g d))"
  by (induction k f d rule: dict_update.induct) (auto split: if_splits)

definition labels :: "rejected_tag list \<times> candidate_tags \<Rightarrow> raw_tag multiset" where
  "labels acc = mset (map rj_tag (fst acc)) + mset (map (\<lambda>c. snd (snd c)) (snd acc))"

lemma labels_reject: "labels (rejected @ [reject t reason], d) = add_mset t (labels (rejected, d))"
  by (simp add: labels_def reject_def)

lemma labels_scan: "labels (scan_raw t acc) = add_mset t (labels acc)"
proof -
  obtain rejected d where acc: "acc = (rejected, d)" by force
  consider (out) reason where "scan_raw t acc = (rejected @ [reject t reason], d)"
    | (new) r where "map_of d (vr_canonical r) = None" "scan_raw t acc = (rejected, dict_update (vr_canonical r) (\<lambda>_. (r, t)) d)"
    | (better) r s p where "map_of d (vr_canonical r) = Some (s, p)"
        "scan_raw t acc = (rejected @ [reject p DuplicateCluster], dict_update (vr_canonical r) (\<lambda>_. (r, t)) d)"
  proof (cases "confidence_of t < confidence_threshold \<or> normalize_tag (rt_name t) \<in> set low_value_labels \<or> rule_for (rt_name t) = None")
    case True
    then have "\<exists>reason. scan_raw t acc = (rejected @ [reject t reason], d)" by (auto simp: scan_raw_def acc Let_def)
    then show thesis using out by blast
  next
    case False
    then obtain r where r: "rule_for (rt_name t) = Some r" by blast
    show thesis
    proof (cases "map_of d (vr_canonical r)")
      case None
      then show thesis using new[OF None] False r by (simp add: scan_raw_def acc Let_def)
    next
      case (Some previous)
      obtain s p where p: "previous = (s, p)" by force
      then show thesis using better[of r s p] out[of DuplicateCluster] False r Some
        by (cases "confidence_of p < confidence_of t") (simp_all add: scan_raw_def acc Let_def)
    qed
  qed
  then show ?thesis
  proof cases
    case (out reason)
    then show ?thesis by (simp add: acc labels_reject)
  next
    case (new r)
    then show ?thesis using mset_dict_update_new[OF new(1), where g = "\<lambda>c. snd (snd c)" and f = "\<lambda>_. (r, t)"]
      by (simp add: acc labels_def)
  next
    case (better r s p)
    then show ?thesis using mset_dict_update_old[OF better(1), where g = "\<lambda>c. snd (snd c)" and f = "\<lambda>_. (r, t)"]
      by (simp add: acc labels_def reject_def)
  qed
qed

lemma labels_fold: "labels (fold scan_raw raw acc) = labels acc + mset raw"
  by (induction raw arbitrary: acc) (simp_all add: labels_scan)

lemma split_labels:
  "mset (map rj_tag (fst (split_candidates users terms d))) + mset (map snd (snd (split_candidates users terms d)))
     = mset (map (\<lambda>c. snd (snd c)) d)"
proof -
  have "mset (map rj_tag (List.map_filter (\<lambda>c. map_option (reject (snd (snd c))) (why c)) d)) +
      mset (map snd (map snd (filter (\<lambda>c. why c = None) d))) = mset (map (\<lambda>c. snd (snd c)) d)"
    for why :: "utext \<times> tag_rule \<times> raw_tag \<Rightarrow> reject_reason option"
    by (induction d) (auto simp: List.map_filter_def reject_def)
  then show ?thesis unfolding split_candidates_def Let_def fst_conv snd_conv .
qed

lemma select_cases:
  "(\<exists>reason. select_tag c (rejected, selected) = (rejected @ [reject (snd c) reason], selected)) \<or>
   select_tag c (rejected, selected) = (rejected, selected @ [c])"
  by (auto simp: select_tag_def Let_def)

definition chosen :: "rejected_tag list \<times> (tag_rule \<times> raw_tag) list \<Rightarrow> raw_tag multiset" where
  "chosen acc = mset (map rj_tag (fst acc)) + mset (map snd (snd acc))"

lemma chosen_select: "chosen (select_tag c acc) = add_mset (snd c) (chosen acc)"
  using select_cases[of c "fst acc" "snd acc"] by (auto simp: chosen_def reject_def)

lemma chosen_fold: "chosen (fold select_tag cs acc) = chosen acc + mset (map snd cs)"
  by (induction cs arbitrary: acc) (simp_all add: chosen_select)

lemma mset_order_by: "mset (order_by key xs) = mset xs"
  by (simp add: order_by_def)

lemma curate_labels: "chosen (curate_pairs raw users terms) = mset raw"
proof -
  let ?d = "fold scan_raw raw ([], [])" let ?parts = "split_candidates users terms (snd ?d)"
  have "chosen (curate_pairs raw users terms) = chosen (fst ?d @ fst ?parts, []) + mset (map snd (snd ?parts))"
    by (simp add: curate_pairs_def Let_def chosen_fold mset_order_by)
  also have "\<dots> = mset (map rj_tag (fst ?d)) + (mset (map rj_tag (fst ?parts)) + mset (map snd (snd ?parts)))"
    by (simp add: chosen_def)
  also have "\<dots> = labels ?d" by (simp only: split_labels labels_def)
  also have "\<dots> = mset raw" by (simp add: labels_fold) (simp add: labels_def)
  finally show ?thesis .
qed

section \<open>What is selected\<close>

text \<open>A candidate is stored under its canonical name with enough confidence, and its rule is in the vocabulary.\<close>

definition sound_candidates :: "candidate_tags \<Rightarrow> bool" where
  "sound_candidates d \<longleftrightarrow> distinct (map fst d) \<and>
     (\<forall>(k, r, t) \<in> set d. k = vr_canonical r \<and> rule_for (rt_name t) = Some r \<and> confidence_threshold \<le> confidence_of t)"

lemma set_dict_update: "set (dict_update k (\<lambda>_. v) d) \<subseteq> insert (k, v) (set d)"
  by (induction k "\<lambda>_ :: 'b option. v" d rule: dict_update.induct) auto

lemma sound_update:
  assumes "sound_candidates d" and "rule_for (rt_name t) = Some r" and "confidence_threshold \<le> confidence_of t"
  shows "sound_candidates (dict_update (vr_canonical r) (\<lambda>_. (r, t)) d)"
  using assms set_dict_update[of "vr_canonical r" "(r, t)" d] unfolding sound_candidates_def by auto

lemma sound_scan: "sound_candidates (snd acc) \<Longrightarrow> sound_candidates (snd (scan_raw t acc))"
  by (auto simp: scan_raw_def Let_def sound_update split: option.splits)

lemma sound_fold: "sound_candidates (snd acc) \<Longrightarrow> sound_candidates (snd (fold scan_raw raw acc))"
  by (induction raw arbitrary: acc) (simp_all add: sound_scan)

lemma selected_subset: "set (snd (fold select_tag cs acc)) \<subseteq> set (snd acc) \<union> set cs"
proof (induction cs arbitrary: acc)
  case (Cons c cs)
  have "set (snd (select_tag c acc)) \<subseteq> insert c (set (snd acc))"
    using select_cases[of c "fst acc" "snd acc"] by auto
  then show ?case using Cons[of "select_tag c acc"] by auto
qed simp

definition within_limits :: "(tag_rule \<times> raw_tag) list \<Rightarrow> bool" where
  "within_limits s \<longleftrightarrow> length s \<le> max_tags \<and> distinct (map (\<lambda>c. normalize_tag (vr_display (fst c))) s) \<and>
     (\<forall>k. count_where (\<lambda>c. vr_category (fst c) = k) s \<le> category_limit k)"

lemma count_where_snoc: "count_where P (s @ [c]) = count_where P s + (if P c then 1 else 0)"
  by (simp add: count_where_def)

lemma limits_select: "within_limits (snd acc) \<Longrightarrow> within_limits (snd (select_tag c acc))"
  by (auto simp: select_tag_def Let_def within_limits_def count_where_snoc)

lemma limits_fold: "within_limits (snd acc) \<Longrightarrow> within_limits (snd (fold select_tag cs acc))"
  by (induction cs arbitrary: acc) (simp_all add: limits_select)

lemma selected_eligible:
  assumes "(r, t) \<in> set (snd (curate_pairs raw users terms))"
  shows "rule_for (rt_name t) = Some r" "confidence_threshold \<le> confidence_of t" "vr_canonical r \<notin> set (user_canonicals users)"
proof -
  let ?d = "snd (fold scan_raw raw ([], []))"
  have "(r, t) \<in> set (snd (split_candidates users terms ?d))"
    using assms selected_subset unfolding curate_pairs_def Let_def by fastforce
  then obtain k where k: "(k, r, t) \<in> set ?d" "k \<notin> set (user_canonicals users)"
    by (auto simp: split_candidates_def Let_def ineligible_def split: if_splits)
  have "sound_candidates ?d" by (rule sound_fold) (simp add: sound_candidates_def)
  with k show "rule_for (rt_name t) = Some r" "confidence_threshold \<le> confidence_of t" "vr_canonical r \<notin> set (user_canonicals users)"
    unfolding sound_candidates_def by auto
qed

section \<open>The table of aliases\<close>

definition agree :: "('a \<times> 'b) list \<Rightarrow> bool" where
  "agree ps \<longleftrightarrow> (\<forall>(a, b) \<in> set ps. \<forall>(c, d) \<in> set ps. c = a \<longrightarrow> d = b)"

lemma agreed_fold:
  assumes "agree ps" and "\<forall>(a, b) \<in> set ps. map_of d a = None \<or> map_of d a = Some b"
  shows "(a, b) \<in> set ps \<or> map_of d a = Some b \<Longrightarrow> map_of (fold (\<lambda>(a, r). dict_update a (\<lambda>_. r)) ps d) a = Some b"
  using assms
proof (induction ps arbitrary: d)
  case (Cons p ps)
  obtain c e where p: "p = (c, e)" by force
  let ?d = "dict_update c (\<lambda>_. e) d"
  have head: "\<And>b'. (c, b') \<in> set ps \<Longrightarrow> b' = e" and tail: "agree ps"
    using Cons(3) unfolding agree_def p by fastforce+
  have known: "\<And>a b. (a, b) \<in> set ps \<Longrightarrow> map_of d a = None \<or> map_of d a = Some b" "map_of d c = None \<or> map_of d c = Some e"
    using Cons(4) unfolding p by fastforce+
  have "\<forall>(a, b) \<in> set ps. map_of ?d a = None \<or> map_of ?d a = Some b"
    using head known by fastforce
  moreover have "(a, b) \<in> set ps \<or> map_of ?d a = Some b"
    using Cons(2) known by (auto simp: p)
  ultimately show ?case using Cons(1)[of ?d] tail by (simp add: p)
qed simp

text \<open>The same condition as a function: the names are replaced by numbers, and in a sorted list equal numbers are neighbours.\<close>

fun neighbours_agree :: "(int \<times> int) list \<Rightarrow> bool" where
  "neighbours_agree ((a, b) # (c, d) # ps) =
     (if a = c then (if b = d then neighbours_agree ((c, d) # ps) else False)
      else neighbours_agree ((c, d) # ps))"
| "neighbours_agree _ = True"

lemma neighbours_head:
  "sorted (map fst ((a, b) # ps)) \<Longrightarrow> neighbours_agree ((a, b) # ps) \<Longrightarrow> (a, d) \<in> set ps \<Longrightarrow> d = b"
proof (induction ps arbitrary: b)
  case (Cons p ps)
  obtain c e where p: "p = (c, e)" by force
  have "c = a" using Cons(2,4) by (force simp: p)
  then show ?case using Cons(1)[of b] Cons(2,3,4) by (auto simp: p split: if_splits)
qed simp

lemma neighbours_agree_sound: "sorted (map fst ps) \<Longrightarrow> neighbours_agree ps \<Longrightarrow> agree ps"
proof (induction ps)
  case (Cons p ps)
  obtain a b where p: "p = (a, b)" by force
  have "neighbours_agree ps" using Cons(3) unfolding p by (cases ps) (auto split: if_splits)
  then have "agree ps" using Cons by simp
  then show ?case using neighbours_head[OF Cons(2,3)[unfolded p]] unfolding agree_def p by fastforce
qed (simp add: agree_def)

lemma neighbours_agree_sort: "neighbours_agree (sort_key fst ps) \<Longrightarrow> agree ps"
  using neighbours_agree_sound[of "sort_key fst ps"] by (simp add: agree_def)

definition names_of :: "tag_rule list \<Rightarrow> (utext \<times> tag_rule) list" where
  "names_of rules = concat (map (\<lambda>r. map (\<lambda>a. (normalize_tag a, r)) (rule_names r)) rules)"

definition name_key :: "utext \<Rightarrow> int" where
  "name_key a = fold (\<lambda>c n. 3 * n + c) a 0"

definition name_keys :: "tag_rule list \<Rightarrow> (int \<times> int) list" where
  "name_keys rules = concat (map (\<lambda>r. map (\<lambda>a. (name_key (normalize_tag a), name_key (vr_canonical r))) (rule_names r)) rules)"

definition rule_keys :: "tag_rule list \<Rightarrow> int list" where
  "rule_keys rules = map (\<lambda>r. name_key (vr_canonical r)) rules"

lemma name_keys_eq: "name_keys rules = map (\<lambda>(a, r). (name_key a, name_key (vr_canonical r))) (names_of rules)"
  by (simp add: name_keys_def names_of_def map_concat comp_def)

lemma agree_names:
  "agree (map (\<lambda>(a, r). (f a, g r)) ps) \<Longrightarrow> inj_on g (snd ` set ps) \<Longrightarrow> agree ps"
  unfolding agree_def inj_on_def by force

lemma vocabulary_checked: "neighbours_agree (sort_key fst (name_keys vocabulary))"
  by code_simp

lemma vocabulary_distinct: "distinct (rule_keys vocabulary)"
  by code_simp

lemma names_agree: "agree (names_of vocabulary)"
proof (rule agree_names)
  show "agree (map (\<lambda>(a, r). (name_key a, name_key (vr_canonical r))) (names_of vocabulary))"
    using neighbours_agree_sort[OF vocabulary_checked] by (simp only: name_keys_eq)
  have "snd ` set (names_of vocabulary) \<subseteq> set vocabulary" by (auto simp: names_of_def)
  then show "inj_on (\<lambda>r. name_key (vr_canonical r)) (snd ` set (names_of vocabulary))"
    using vocabulary_distinct by (auto simp: rule_keys_def distinct_map intro: inj_on_subset)
qed

definition low_keys :: "int list" where
  "low_keys = map name_key low_value_labels"

definition low_free :: "int list \<Rightarrow> (int \<times> int) list \<Rightarrow> bool" where
  "low_free low ps = list_all (\<lambda>(a, b). a \<notin> set low) ps"

lemma keys_not_low: "low_free low_keys (name_keys vocabulary)"
  by code_simp

lemma names_not_low: "(a, r) \<in> set (names_of vocabulary) \<Longrightarrow> a \<notin> set low_value_labels"
  using keys_not_low by (auto simp: low_keys_def low_free_def name_keys_eq list_all_iff)

lemma alias_lookup: "(a, r) \<in> set (names_of vocabulary) \<Longrightarrow> map_of rules_by_alias a = Some r"
  unfolding rules_by_alias_def names_of_def[symmetric]
  by (rule agreed_fold) (simp_all add: names_agree)

section \<open>Properties\<close>

text \<open>
  C33. Curation accounts for every raw label: each is either the source of exactly one selected
  tag or rejected exactly once with a reason.
\<close>

theorem curation_accounts:
  "\<exists>sources. mset raw = mset sources + mset (map rj_tag (snd (curate raw users terms))) \<and>
    list_all2 (\<lambda>t c. ct_confidence c = confidence_of t \<and> map_option vr_canonical (rule_for (rt_name t)) = Some (ct_canonical c))
      sources (fst (curate raw users terms))"
proof (intro exI conjI)
  let ?found = "curate_pairs raw users terms"
  show "mset raw = mset (map snd (snd ?found)) + mset (map rj_tag (snd (curate raw users terms)))"
    using curate_labels[of raw users terms] by (simp add: curate_def chosen_def Let_def add.commute)
  show "list_all2 (\<lambda>t c. ct_confidence c = confidence_of t \<and> map_option vr_canonical (rule_for (rt_name t)) = Some (ct_canonical c))
      (map snd (snd ?found)) (fst (curate raw users terms))"
    using selected_eligible(1)[of _ _ raw users terms]
    by (auto simp: curate_def Let_def list_all2_map1 list_all2_map2 curated_of_def list_all2_same)
qed

text \<open>
  C34. A photo gets at most five automatic tags, with different names, each of confidence 70 at
  least, at most two of the person, food and nature categories and one of any other, and none
  that the user has given or removed.
\<close>

theorem curation_limited:
  "length (fst (curate raw users terms)) \<le> 5 \<and>
   distinct (map (\<lambda>c. normalize_tag (ct_display c)) (fst (curate raw users terms))) \<and>
   list_all (\<lambda>c. 70 \<le> ct_confidence c \<and> ct_canonical c \<notin> set (user_canonicals users)) (fst (curate raw users terms)) \<and>
   count_where (\<lambda>c. ct_category c = k) (fst (curate raw users terms)) \<le> (if k \<in> {''person'', ''food'', ''nature''} then 2 else 1)"
proof -
  let ?s = "snd (curate_pairs raw users terms)"
  have tags: "fst (curate raw users terms) = map curated_of ?s" by (simp add: curate_def Let_def)
  have "within_limits ?s" unfolding curate_pairs_def Let_def
    by (rule limits_fold) (simp add: within_limits_def count_where_def)
  then have "length ?s \<le> max_tags" "distinct (map (\<lambda>c. normalize_tag (vr_display (fst c))) ?s)"
    "count_where (\<lambda>c. vr_category (fst c) = k) ?s \<le> category_limit k" by (simp_all add: within_limits_def)
  moreover have "confidence_threshold \<le> confidence_of (snd c) \<and> vr_canonical (fst c) \<notin> set (user_canonicals users)"
    if "c \<in> set ?s" for c
    using selected_eligible(2,3)[of "fst c" "snd c" raw users terms] that by simp
  ultimately show ?thesis unfolding tags
    by (auto simp: list_all_iff curated_of_def Let_def comp_def max_tags_def confidence_threshold_def category_limit_def
        count_where_def filter_map split: if_splits)
qed

text \<open>
  The vocabulary is unambiguous: every canonical name, display name and alias of a rule
  leads to that rule, and no name is a label of low value.
\<close>

theorem vocabulary_unambiguous:
  "list_all (\<lambda>r. list_all (\<lambda>a. rule_for a = Some r \<and> normalize_tag a \<notin> set low_value_labels) (rule_names r)) vocabulary"
proof -
  have "(normalize_tag a, r) \<in> set (names_of vocabulary)" if "r \<in> set vocabulary" "a \<in> set (rule_names r)" for r a
    using that by (auto simp: names_of_def)
  then show ?thesis using alias_lookup names_not_low unfolding list_all_iff rule_for_def by blast
qed

end
