(* ===== verification/TagLaws.thy ===== *)
theory TagLaws
  imports TagSteps TagCurationLaws
begin

text \<open>
  The laws of the tags: their tables stay consistent along any sequence of requests, a merge
  moves the photos of the source, a hidden tag is hidden, and three places where the requests
  do not do what they are for.
\<close>

section \<open>A small library\<close>

definition tagged_file :: common_file where
  "tagged_file = \<lparr>cf_id = 1, cf_file_id = ''f1'', cf_original_name = ''x.jpg'', cf_extension = None, cf_mime_type = None,
     cf_file_size = None, cf_width = None, cf_height = None, cf_original_path = None, cf_preview_path = None,
     cf_thumb_path = None, cf_favorite = False, cf_service = memorykeeper, cf_created_at = 0, cf_deleted = False\<rparr>"

definition tagged_state :: file_state where
  "tagged_state = \<lparr>st_file = 1, st_favorite = False, st_memo = None, st_revision = 0, st_category = ''NORMAL'',
     st_category_revision = 0, st_user_datetime = None, st_user_precision = None, st_source_year = None,
     st_source_basis = None, st_datetime = Some (2024, 1, 1, 0), st_year = Some 2024, st_precision = None,
     st_basis = Some ''IMPORT'', st_updated_at = 0\<rparr>"

definition tag_library :: "mk_tag list \<Rightarrow> file_tag list \<Rightarrow> tag_override list \<Rightarrow> tag_state" where
  "tag_library ts rs vs = \<lparr>core = \<lparr>base = empty_db\<lparr>files := [tagged_file], links := [\<lparr>fs_file = 1, fs_service = memorykeeper\<rparr>]\<rparr>,
       file_states = [tagged_state], metadata_rows = [], mk_places = [], histories = [], linked_at = (\<lambda>_. 0)\<rparr>,
     tags = ts, file_tags = rs, overrides = vs, stored_overrides = vs, suppressions = []\<rparr>"

section \<open>Reachable tables\<close>

text \<open>
  C35. Along any sequence of tag requests, failed renames included, tags have different ids and
  names, a photo has at most one relation to a tag, and every live relation to a tag finds it
  undeleted and carries its current name.
\<close>

theorem tag_links_valid:
  assumes "tag_reach digest d d'" and "tags_ok (tags d) (file_tags d)"
  shows "distinct (map tg_id (tags d')) \<and> distinct (map tg_name (tags d')) \<and> relations_unique (file_tags d') \<and>
    list_all (\<lambda>r. rl_deleted r \<or> (case rl_tag r of None \<Rightarrow> True | Some i \<Rightarrow>
      (case live_tag i d' of None \<Rightarrow> False | Some t \<Rightarrow> rl_name r = tg_name t))) (file_tags d')"
proof -
  have ok: "tags_valid d'" using tag_reach_ok[OF assms] .
  then have ids: "distinct (map tg_id (tags d'))" and names: "names_unique (tags d')" by (simp_all add: tags_ok_def)
  have "inj_on tg_name (set (tags d'))"
  proof (rule inj_onI)
    fix t u assume tu: "t \<in> set (tags d')" "u \<in> set (tags d')" "tg_name t = tg_name u"
    then have "tg_id t = tg_id u" using names unfolding names_unique_def by blast
    then show "t = u" using ids tu by (simp add: distinct_map inj_on_def)
  qed
  moreover have "distinct (tags d')" using ids by (simp add: distinct_map)
  ultimately have "distinct (map tg_name (tags d'))" by (simp add: distinct_map)
  moreover have "\<exists>t. live_tag i d' = Some t \<and> rl_name r = tg_name t"
    if r: "r \<in> set (file_tags d')" "\<not> rl_deleted r" "rl_tag r = Some i" for r i
  proof -
    obtain t where t: "t \<in> set (tags d')" "tg_id t = i"
      using ok r(1,3) unfolding tags_ok_def link_ok_def by blast
    then have "\<not> tg_deleted t \<and> tg_name t = rl_name r" using live_link[OF ok r(1) _ t(1) r(2)] r(3) by simp
    moreover have "live_tag (tg_id t) d' = Some t" unfolding live_tag_def
      by (rule find_row_mem) (use ids t calculation in \<open>auto intro: distinct_map_filter\<close>)
    ultimately show ?thesis using t(2) by auto
  qed
  then have "rl_deleted r \<or> (case rl_tag r of None \<Rightarrow> True | Some i \<Rightarrow>
      (case live_tag i d' of None \<Rightarrow> False | Some t \<Rightarrow> rl_name r = tg_name t))" if "r \<in> set (file_tags d')" for r
    using that by (cases "rl_tag r") force+
  ultimately show ?thesis using ids ok unfolding list_all_iff tags_ok_def by blast
qed

definition first_tag :: mk_tag where
  "first_tag = new_tag 5 1 (ucs ''dog'') False"

theorem tag_links_valid_witness:
  "list_all (\<lambda>r. rl_deleted r \<or> (case rl_tag r of None \<Rightarrow> True | Some i \<Rightarrow>
      (case live_tag i (tag_change 5 first_tag CREATE False (tag_library [first_tag] [] [])) of
         None \<Rightarrow> False | Some t \<Rightarrow> rl_name r = tg_name t)))
    (file_tags (tag_change 5 first_tag CREATE False (tag_library [first_tag] [] [])))"
proof -
  have "create_tag 5 (ucs ''dog'') False (tag_library [] [] []) =
      Inr (tag_change 5 first_tag CREATE False (tag_library [first_tag] [] []), first_tag)"
    by (simp add: create_tag_def tag_library_def find_normalized_def next_id_def name_taken_def exists_row_def
        first_tag_def raise_if_def Let_def)
  then have "tag_reach id (tag_library [] [] []) (tag_change 5 first_tag CREATE False (tag_library [first_tag] [] []))"
    by (blast intro: tag_reach.intros tag_step.create)
  moreover have "tags_ok (tags (tag_library [] [] [])) (file_tags (tag_library [] [] []))"
    by (simp add: tag_library_def tags_ok_def names_unique_def relations_unique_def)
  ultimately show ?thesis using tag_links_valid by blast
qed

section \<open>Merging\<close>

definition tag_photos :: "tag_state \<Rightarrow> int \<Rightarrow> int list" where
  "tag_photos d i = map rl_file (filter (\<lambda>r. rl_tag r = Some i \<and> \<not> rl_deleted r) (file_tags d))"

lemma mem_tag_photos: "f \<in> set (tag_photos d i) \<longleftrightarrow> (\<exists>r \<in> set (file_tags d). rl_file r = f \<and> rl_tag r = Some i \<and> \<not> rl_deleted r)"
  by (auto simp: tag_photos_def)

lemma link_tag_photos:
  assumes "link_tag file t d = (created, d')" and "tags_valid d"
  shows "set (tag_photos d' j) = set (tag_photos d j) \<union> (if j = tg_id t then {file} else {})"
proof (cases "find_relation file (tg_id t) d")
  case None
  then show ?thesis using assms(1)
    by (auto simp: link_tag_def flush_def mem_tag_photos user_relation_def intro: rev_bexI split: if_splits)
next
  case (Some q)
  then have q: "q \<in> set (file_tags d)" "rl_file q = file" "rl_tag q = Some (tg_id t)"
    by (auto simp: find_relation_def dest: find_SomeD)
  have same: "x = q" if "x \<in> set (file_tags d)" "rl_id x = rl_id q" for x
    using that q(1) assms(2) by (auto simp: tags_ok_def distinct_map inj_on_def)
  have rows: "set (file_tags d') = insert (user_relation (rl_id q) file t) {x \<in> set (file_tags d). x \<noteq> q}"
    using assms(1) Some q(1) same by (auto simp: link_tag_def put_relation_def set_save_row user_relation_def)
  show ?thesis by (rule set_eqI) (use q in \<open>auto simp: mem_tag_photos rows user_relation_def\<close>)
qed

lemma delete_row_photos:
  assumes "tags_ok ts rs" and "r \<in> set rs" and "rl_tag r = Some i" and "file_tags d' = save_row rl_id (r\<lparr>rl_deleted := True\<rparr>) rs"
    and "file_tags d = rs" and "j \<noteq> i"
  shows "set (tag_photos d' j) = set (tag_photos d j)"
proof -
  have same: "x = r" if "x \<in> set rs" "rl_id x = rl_id r" for x
    using that assms(1,2) by (auto simp: tags_ok_def distinct_map inj_on_def)
  have rows: "set (file_tags d') = insert (r\<lparr>rl_deleted := True\<rparr>) {x \<in> set rs. x \<noteq> r}"
    using assms(2,4) same by (auto simp: set_save_row)
  show ?thesis by (rule set_eqI) (use assms(3,5,6) in \<open>auto simp: mem_tag_photos rows\<close>)
qed

text \<open>The photos of the target and those still to come stay the same in sum.\<close>

lemma merge_relation_photos:
  assumes "pending i ts (r # rs) d" and "merge_relation now target r d = Inr d'"
    and "target \<in> set ts" and "\<not> tg_deleted target" and "tg_id target \<noteq> i" and "j \<noteq> i"
  shows "set (tag_photos d' j) = set (tag_photos d j) \<union> (if j = tg_id target \<and> \<not> rl_deleted r then {rl_file r} else {})"
proof (cases "rl_deleted r")
  case True
  have valid: "tags_ok ts (file_tags d)" "r \<in> set (file_tags d)" "rl_tag r = Some i" using assms(1) by (simp_all add: pending_def)
  have "file_tags d' = save_row rl_id (r\<lparr>rl_deleted := True\<rparr>) (file_tags d)"
    using assms(2) True by (auto simp: merge_relation_def put_relation_def)
  from delete_row_photos[OF valid this refl assms(6)] show ?thesis using True by simp
next
  case False
  obtain created d0 where link: "link_tag (rl_file r) target d = (created, d0)" by fastforce
  obtain d1 n where d1: "touch_file now (rl_file r) d0 = Inr (d1, n)"
    "d' = put_relation (r\<lparr>rl_deleted := True\<rparr>) (relation_change now (user_relation 0 (rl_file r) target) UPDATE n False d1)"
    using assms(2) False by (auto simp: merge_relation_def Let_def link split: prod.splits)
  have valid: "tags_valid d" "r \<in> set (file_tags d)" "rl_tag r = Some i" "tags d = ts" using assms(1) by (simp_all add: pending_def)
  have ok: "tags_valid d0" by (rule link_tag_ok[OF link valid(1)]) (use assms(3,4) valid(4) in simp_all)
  have "r \<in> set (file_tags d0)"
    using link_tag_keeps[OF link valid(1,2)] valid(3) assms(5) by simp
  from delete_row_photos[OF ok this valid(3), of d' d0 j] have "set (tag_photos d' j) = set (tag_photos d0 j)"
    using touch_file_rows[OF d1(1)] assms(6) by (simp add: d1(2) row_simps)
  then show ?thesis using link_tag_photos[OF link valid(1), of j] False by simp
qed

lemma merge_loop_photos:
  assumes "for_each (merge_relation now target) rs d = Inr d'" and "pending i ts rs d"
    and "target \<in> set ts" and "\<not> tg_deleted target" and "tg_id target \<noteq> i" and "j \<noteq> i"
  shows "set (tag_photos d' j) = set (tag_photos d j) \<union>
    (if j = tg_id target then rl_file ` {r \<in> set rs. \<not> rl_deleted r} else {})"
  using assms(1,2)
proof (induction rs arbitrary: d)
  case (Cons r rs)
  then obtain d1 where d1: "merge_relation now target r d = Inr d1" "for_each (merge_relation now target) rs d1 = Inr d'"
    by (auto split: sum.splits)
  have "pending i ts rs d1" by (rule merge_relation_pending[OF Cons.prems(2) d1(1) assms(3-5)])
  from Cons.IH[OF d1(2) this] merge_relation_photos[OF Cons.prems(2) d1(1) assms(3-6)] show ?case
    by (auto split: if_splits)
qed simp

lemma merge_relation_overrides:
  assumes "merge_relation now target r d = Inr d'" and "stored_overrides d = overrides d"
  shows "overrides d' = overrides d \<and> stored_overrides d' = overrides d'"
proof (cases "rl_deleted r")
  case True
  then show ?thesis using assms by (auto simp: merge_relation_def put_relation_def)
next
  case False
  obtain created d0 where link: "link_tag (rl_file r) target d = (created, d0)" by fastforce
  obtain d1 n where d1: "touch_file now (rl_file r) d0 = Inr (d1, n)"
    "d' = put_relation (r\<lparr>rl_deleted := True\<rparr>) (relation_change now (user_relation 0 (rl_file r) target) UPDATE n False d1)"
    using assms(1) False by (auto simp: merge_relation_def Let_def link split: prod.splits)
  have "overrides d0 = overrides d" using link by (auto simp: link_tag_def flush_def put_relation_def split: option.splits)
  then show ?thesis using touch_file_rows[OF d1(1)] assms(2)
    by (simp add: d1(2) put_relation_def relation_change_def tag_event_def flush_def)
qed

lemma merge_loop_overrides:
  "for_each (merge_relation now target) rs d = Inr d' \<Longrightarrow> stored_overrides d = overrides d \<Longrightarrow>
     overrides d' = overrides d \<and> stored_overrides d' = overrides d'"
  by (induction rs arbitrary: d) (auto split: sum.splits dest!: merge_relation_overrides)


definition second_tag :: mk_tag where
  "second_tag = new_tag 5 2 (ucs ''cat'') False"

definition first_link :: file_tag where
  "first_link = user_relation 1 1 first_tag"

definition two_tags :: tag_state where
  "two_tags = tag_library [first_tag, second_tag] [first_link] []"

lemmas library_eval = tag_library_def first_tag_def second_tag_def new_tag_def first_link_def user_relation_def

lemma two_tags_ok: "tags_ok (tags two_tags) (file_tags two_tags)"
  by (simp add: two_tags_def library_eval tags_ok_def names_unique_def relations_unique_def link_ok_def) code_simp

lemma tagged_file_state: "state_of (core (tag_library ts rs vs)) 1 = Some tagged_state"
  by (simp add: state_of_def tag_library_def tagged_state_def)

lemma library_lock: "lock_file now ''f1'' 0 (tag_library ts rs vs) = Inr (tag_library ts rs vs, tagged_file, tagged_state)"
proof -
  have "mk_file (core (tag_library ts rs vs)) ''f1'' = Some tagged_file"
    by (simp add: mk_file_def tag_library_def tagged_file_def mk_linked_def)
  moreover have "get_or_create_state now tagged_file (core (tag_library ts rs vs)) = Some (core (tag_library ts rs vs))"
    using tagged_file_state[of ts rs vs] by (simp add: get_or_create_state_def tagged_file_def tagged_state_def)
  ultimately show ?thesis using tagged_file_state[of ts rs vs]
    by (simp add: lock_file_def tag_file_state_def Let_def tagged_file_def tagged_state_def raise_if_def)
qed

lemma two_tags_merge: "\<exists>d'. merge_tags 7 1 \<lparr>tm_source_revision = 1, tm_target = 2, tm_target_revision = 1\<rparr> two_tags =
  Inr (d', merged_tag 7 second_tag)"
proof -
  have "live_tag 1 two_tags = Some first_tag" "live_tag 2 two_tags = Some second_tag"
    by (simp_all add: live_tag_def two_tags_def library_eval)
  moreover have "\<exists>d'. merge_relation 7 second_tag first_link two_tags = Inr d'"
    by (simp add: merge_relation_def two_tags_def link_tag_def find_relation_def Let_def library_eval touch_file_def tag_file_state_def
      flush_def state_of_def tagged_file_def tagged_state_def get_or_create_state_def raise_if_def)
  moreover have "filter (\<lambda>r. rl_tag r = Some 1) (file_tags two_tags) = [first_link]" by (simp add: two_tags_def library_eval)
  ultimately show ?thesis
    by (auto simp: merge_tags_def get_tag_def Let_def merged_tag_def raise_if_def) (simp_all add: first_tag_def second_tag_def new_tag_def)
qed


section \<open>Hiding\<close>

lemma suppressed_iff:
  "k \<in> set (suppressed_keys d file) \<longleftrightarrow> (\<exists>s \<in> set (suppressions d). su_file s = file \<and> su_key s = k \<and> \<not> su_deleted s)"
  by (auto simp: suppressed_keys_def)

definition shown_again :: "tag_suppression \<Rightarrow> tag_suppression" where
  "shown_again s = s\<lparr>su_deleted := False, su_revision := su_revision s + 1\<rparr>"

lemma set_suppression_rows_of:
  "set (suppressions (snd (set_suppression file True c d))) =
     (case List.find (\<lambda>s. su_file s = file \<and> su_key s = normalize_tag c) (suppressions d) of
        None \<Rightarrow> insert \<lparr>su_file = file, su_key = normalize_tag c, su_revision = 1, su_deleted = False\<rparr> (set (suppressions d))
      | Some s \<Rightarrow> if su_deleted s
                  then (\<lambda>s. if su_file s = file \<and> su_key s = normalize_tag c then shown_again s else s) ` set (suppressions d)
                  else set (suppressions d))"
  by (simp add: set_suppression_def Let_def flush_def set_update_where shown_again_def split: option.splits)

lemma set_suppression_hides: "normalize_tag c \<in> set (suppressed_keys (snd (set_suppression file True c d)) file)"
proof (cases "List.find (\<lambda>s. su_file s = file \<and> su_key s = normalize_tag c) (suppressions d)")
  case None
  then show ?thesis unfolding suppressed_iff set_suppression_rows_of by simp
next
  case (Some s)
  then have s: "s \<in> set (suppressions d)" "su_file s = file" "su_key s = normalize_tag c" by (auto dest: find_SomeD)
  show ?thesis
  proof (cases "su_deleted s")
    case True
    then have "shown_again s \<in> set (suppressions (snd (set_suppression file True c d)))"
      unfolding set_suppression_rows_of using Some s by (auto intro: rev_image_eqI)
    then show ?thesis unfolding suppressed_iff using s by (intro rev_bexI) (auto simp: shown_again_def)
  next
    case False
    then show ?thesis unfolding suppressed_iff set_suppression_rows_of using Some s by auto
  qed
qed

lemma set_suppression_keeps:
  assumes "k \<in> set (suppressed_keys d file)"
  shows "k \<in> set (suppressed_keys (snd (set_suppression file True c d)) file)"
proof -
  obtain s where s: "s \<in> set (suppressions d)" "su_file s = file" "su_key s = k" "\<not> su_deleted s"
    using assms unfolding suppressed_iff by blast
  have "s \<in> set (suppressions (snd (set_suppression file True c d))) \<or> shown_again s \<in> set (suppressions (snd (set_suppression file True c d)))"
    unfolding set_suppression_rows_of using s(1) by (auto split: option.splits)
  then show ?thesis unfolding suppressed_iff
  proof
    assume "shown_again s \<in> set (suppressions (snd (set_suppression file True c d)))"
    then show "\<exists>s \<in> set (suppressions (snd (set_suppression file True c d))). su_file s = file \<and> su_key s = k \<and> \<not> su_deleted s"
      using s by (intro bexI[of _ "shown_again s"]) (auto simp: shown_again_def)
  qed (use s in blast)
qed

lemma set_suppressions_hide:
  "k \<in> set (suppressed_keys (snd x) file) \<union> normalize_tag ` set cs \<Longrightarrow> k \<in> set (suppressed_keys (snd (set_suppressions file True cs x)) file)"
proof (induction cs arbitrary: x)
  case Nil
  then show ?case by (simp add: set_suppressions_def)
next
  case (Cons c cs)
  have "k \<in> set (suppressed_keys (snd (set_suppression file True c (snd x))) file) \<union> normalize_tag ` set cs"
    using Cons.prems set_suppression_hides set_suppression_keeps by auto
  from Cons.IH[of "(fst x \<or> fst (set_suppression file True c (snd x)), snd (set_suppression file True c (snd x)))"] this
  show ?case by (simp add: set_suppressions_Cons)
qed

lemma visibility_suppressions: "suppressed_keys (visibility_change now f identity op b s d) file = suppressed_keys d file"
  by (simp add: visibility_change_def suppressed_keys_def put_file_state_def row_simps)


text \<open>The vocabulary has a rule for dogs.\<close>

lemma dog_rule: "\<exists>r. rule_for (ucs ''dog'') = Some r \<and> vr_canonical r = ucs ''dog''"
proof -
  have "list_ex (\<lambda>r. vr_canonical r = ucs ''dog'') vocabulary" by code_simp
  then obtain r where r: "r \<in> set vocabulary" "vr_canonical r = ucs ''dog''" by (auto simp: list_ex_iff)
  then have "(normalize_tag (ucs ''dog''), r) \<in> set (names_of vocabulary)"
    by (auto simp: names_of_def rule_names_def intro!: bexI[of _ r] image_eqI)
  then show ?thesis using alias_lookup r(2) by (auto simp: rule_for_def)
qed

lemma dog_normal: "normalize_tag (ucs ''dog'') = ucs ''dog''"
  by code_simp

lemma no_candidates: "split_candidates users terms [] = ([], [])"
  by (simp add: split_candidates_def List.map_filter_def)

lemma curate_nothing: "curate [] users terms = ([], [])"
  by (simp add: curate_def curate_pairs_def no_candidates order_by_def Let_def)

definition dog_entry :: catalog_entry where
  "dog_entry = \<lparr>en_name = ucs ''dog'', en_favorite = False, en_revision = 1, en_canonicals = [ucs ''dog''], en_files = [1]\<rparr>"

lemma library_files: "catalog_files (tag_library ts rs vs) = [1]"
  by (simp add: catalog_files_def tag_library_def tagged_file_def mk_linked_def)

lemma library_curated: "\<forall>r \<in> set rs. rl_source r = UserSource \<Longrightarrow> curated_tags (tag_library ts rs vs) 1 = []"
  by (simp add: curated_tags_def file_relations_def tag_library_def curate_nothing cong: filter_cong)

definition one_tag :: tag_state where
  "one_tag = tag_library [first_tag] [first_link] []"

lemma one_tag_lookups:
  "live_tag 1 one_tag = Some first_tag" "canonical_references one_tag first_tag = [ucs ''dog'']"
  "suppressed_keys one_tag 1 = []"
  using dog_rule by (auto simp: live_tag_def one_tag_def tag_library_def first_tag_def new_tag_def canonical_references_def suppressed_keys_def)

lemma one_tag_entry: "map_of (catalog_entries digest one_tag) (TagIdentity 1) = Some dog_entry"
proof -
  have "relation_master one_tag first_link = Some first_tag"
    using one_tag_lookups(1) by (simp add: relation_master_def first_link_def user_relation_def first_tag_def new_tag_def)
  then have first: "add_relation digest one_tag first_link [] = [(TagIdentity 1, dog_entry)]"
    using one_tag_lookups
    by (simp add: add_relation_def first_link_def user_relation_def at_entry_def show_unless_hidden_def hidden_on_def
        refer_to_def add_all_def add_file_def new_entry_def dog_entry_def List.insert_def) (simp add: first_tag_def new_tag_def)
  moreover have "curated_tags one_tag 1 = []"
    unfolding one_tag_def by (rule library_curated) (simp add: first_link_def user_relation_def)
  moreover have "catalog_files one_tag = [1]" unfolding one_tag_def by (rule library_files)
  moreover have "active_tags one_tag = [first_tag]" "overrides one_tag = []" "file_tags one_tag = [first_link]"
    by (simp_all add: active_tags_def one_tag_def tag_library_def first_tag_def new_tag_def)
  moreover have "rl_file first_link = 1" "tg_id first_tag = 1" by (simp_all add: first_link_def user_relation_def first_tag_def new_tag_def)
  ultimately show ?thesis using one_tag_lookups(2)
    by (simp add: catalog_entries_def Let_def at_entry_def refer_to_def add_all_def dog_entry_def List.insert_def)
qed

lemma one_tag_hide: "\<exists>d'. hide_tag 5 digest ''f1'' (TagIdentity 1) 0 one_tag = Inr d'"
  using library_lock[of 5 "[first_tag]" "[first_link]" "[]"] one_tag_entry[of digest]
  by (simp add: hide_tag_def require_entry_def dog_entry_def split_beta Let_def raise_if_def tagged_file_def flip: one_tag_def)

definition dog_label :: curated_tag where
  "dog_label = \<lparr>ct_canonical = ucs ''dog'', ct_display = ucs ''dog'', ct_category = ''animal'', ct_confidence = 90,
     ct_aliases = [], ct_version = 1\<rparr>"

lemma one_tag_ok: "tags_ok (tags one_tag) (file_tags one_tag)"
  by (simp add: one_tag_def library_eval tags_ok_def names_unique_def relations_unique_def link_ok_def)

lemma one_tag_lock: "lock_file 5 ''f1'' 0 one_tag = Inr (one_tag, tagged_file, tagged_state)"
  unfolding one_tag_def by (rule library_lock)


section \<open>A hidden legacy tag\<close>

definition legacy_user :: "(utext \<Rightarrow> utext) \<Rightarrow> utext \<Rightarrow> file_tag \<Rightarrow> bool" where
  "legacy_user digest h r \<longleftrightarrow> rl_source r = UserSource \<and> \<not> rl_deleted r \<and> digest (normalize_tag (rl_name r)) = h"

text \<open>An entry with a legacy identity comes from a live user relation of its name.\<close>

definition legacy_sound :: "(utext \<Rightarrow> utext) \<Rightarrow> utext \<Rightarrow> tag_state \<Rightarrow> catalog \<Rightarrow> bool" where
  "legacy_sound digest h d entries \<longleftrightarrow> (\<forall>e. map_of entries (LegacyIdentity h) = Some e \<longrightarrow>
     (\<exists>r \<in> set (file_tags d). legacy_user digest h r \<and> normalize_tag (en_name e) = normalize_tag (rl_name r)))"

lemma legacy_sound_at_entry:
  assumes "legacy_sound digest h d entries" and "\<And>e. en_name (g e) = en_name e"
    and "identity = LegacyIdentity h \<Longrightarrow>
      \<exists>r \<in> set (file_tags d). legacy_user digest h r \<and> normalize_tag name = normalize_tag (rl_name r)"
  shows "legacy_sound digest h d (at_entry identity name master g entries)"
  using assms unfolding legacy_sound_def at_entry_def by (auto simp: new_entry_def split: option.splits)

lemma entry_names [simp]:
  "en_name (refer_to cs e) = en_name e" "en_name (add_file i e) = en_name e" "en_name (drop_file i e) = en_name e"
  "en_name (show_unless_hidden d i e) = en_name e"
  by (simp_all add: refer_to_def add_file_def drop_file_def show_unless_hidden_def)

lemma legacy_sound_relation:
  assumes "legacy_sound digest h d entries" and "r \<in> set (file_tags d)"
  shows "legacy_sound digest h d (add_relation digest d r entries)"
  using assms unfolding add_relation_def
  by (auto split: option.splits intro!: legacy_sound_at_entry simp: legacy_user_def)

lemma legacy_sound_fold:
  assumes "legacy_sound digest h d entries"
    and "\<And>x es. x \<in> set xs \<Longrightarrow> legacy_sound digest h d es \<Longrightarrow> legacy_sound digest h d (f x es)"
  shows "legacy_sound digest h d (fold f xs entries)"
  using assms by (induction xs arbitrary: entries) auto

lemma legacy_sound_curated:
  assumes "legacy_sound digest h d entries" and "set rs \<subseteq> set (file_tags d)"
  shows "legacy_sound digest h d (add_curated digest d (legacy_names d rs) file c entries)"
proof -
  have "\<exists>r \<in> set (file_tags d). legacy_user digest h r \<and> normalize_tag (ct_display c) = normalize_tag (rl_name r)"
    if "normalize_tag (ct_display c) \<in> set (legacy_names d rs)" "digest (normalize_tag (ct_display c)) = h"
    using that assms(2) by (auto simp: legacy_names_def legacy_user_def)
  then show ?thesis using assms(1) unfolding add_curated_def Let_def
    by (auto split: option.splits intro!: legacy_sound_at_entry)
qed

lemma legacy_sound_catalog: "legacy_sound digest h d (catalog_entries digest d)"
proof -
  let ?rs = "filter (\<lambda>r. rl_file r \<in> set (catalog_files d)) (file_tags d)"
  have sub: "set ?rs \<subseteq> set (file_tags d)" by auto
  have 1: "legacy_sound digest h d (fold (add_relation digest d) ?rs [])"
    by (rule legacy_sound_fold) (use sub in \<open>auto simp: legacy_sound_def[of _ _ _ "[]"] intro: legacy_sound_relation\<close>)
  have 2: "legacy_sound digest h d (fold (\<lambda>i. fold (add_curated digest d (legacy_names d ?rs) i) (curated_tags d i)) (catalog_files d)
      (fold (add_relation digest d) ?rs []))"
    by (rule legacy_sound_fold[OF 1]) (rule legacy_sound_fold, assumption, rule legacy_sound_curated[OF _ sub])
  have 3: "legacy_sound digest h d (fold (\<lambda>t. at_entry (TagIdentity (tg_id t)) (tg_name t) (Some t) (refer_to (canonical_references d t)))
      (active_tags d) es)" if "legacy_sound digest h d es" for es
    by (rule legacy_sound_fold[OF that]) (auto intro: legacy_sound_at_entry)
  have 4: "legacy_sound digest h d (fold (add_override d) (overrides d) es)" if "legacy_sound digest h d es" for es
    by (rule legacy_sound_fold[OF that]) (auto simp: add_override_def split: option.splits intro: legacy_sound_at_entry)
  show ?thesis unfolding catalog_entries_def Let_def by (rule 4, rule 3, rule 2)
qed

lemma legacy_entry:
  assumes "require_entry digest (LegacyIdentity h) d = Inr e"
  shows "\<exists>r \<in> set (file_tags d). legacy_user digest h r \<and> normalize_tag (en_name e) = normalize_tag (rl_name r)"
  using assms legacy_sound_catalog[of digest h d] by (auto simp: require_entry_def legacy_sound_def split: option.splits)

text \<open>
  Hiding a legacy tag on the only photo that has it cannot be undone: its identity is gone
  from the catalogue, and every later attempt to restore it fails.
\<close>

theorem hidden_legacy_not_restorable:
  assumes "hide_tag now digest file (LegacyIdentity h) expected d = Inr d'" and "tags_ok (tags d) (file_tags d)"
    and "mk_file (core d) file = Some f" and "filter (legacy_user digest h) (file_tags d) = [r]"
    and "rl_file r = cf_id f" and "rl_tag r = None"
  shows "require_entry digest (LegacyIdentity h) d' = Inl (IdentityNotFound (LegacyIdentity h)) \<and>
    isl (restore_tag later digest file (LegacyIdentity h) revision d')"
  using assms(1)
proof (cases rule: hide_tag_cases)
  case (1 d1 f' s e)
  have f: "f' = f" using 1(1) assms(3) by (auto simp: lock_file_def)
  note rows = lock_file_rows[OF 1(1)]
  have "{q \<in> set (file_tags d1). legacy_user digest h q} = {r}" using arg_cong[OF assms(4), of set] rows by simp
  then have r: "r \<in> set (file_tags d1)" "legacy_user digest h r"
    and only: "\<And>q. q \<in> set (file_tags d1) \<Longrightarrow> legacy_user digest h q \<Longrightarrow> q = r" by blast+
  obtain q where "q \<in> set (file_tags d1)" "legacy_user digest h q" "normalize_tag (en_name e) = normalize_tag (rl_name q)"
    using legacy_entry[OF 1(2)] by blast
  then have name: "normalize_tag (en_name e) = normalize_tag (rl_name r)" using only by blast
  let ?P = "\<lambda>x. (rl_file x = cf_id f \<and> rl_source x = UserSource \<and> \<not> rl_deleted x) \<and> rl_tag x = None \<and>
    normalize_tag (rl_name x) = normalize_tag (en_name e)"
  have "?P r" using r(2) assms(5,6) name by (simp add: legacy_user_def)
  then obtain q where q: "List.find ?P (file_tags d1) = Some q" using r(1) find_NoneD by fastforce
  have "q = r" using only find_SomeD[OF q] r(2) name by (auto simp: legacy_user_def)
  then have removed: "file_tags d' = save_row rl_id (r\<lparr>rl_deleted := True\<rparr>) (file_tags d1)"
    using q f by (simp add: 1(4) row_simps remove_user_relation_def Let_def)
  have none: "\<not> legacy_user digest h x" if "x \<in> set (file_tags d')" for x
    using that only unfolding removed save_row_def set_update_where by (auto simp: legacy_user_def split: if_splits)
  have missing: "require_entry digest (LegacyIdentity h) d2 = Inl (IdentityNotFound (LegacyIdentity h))"
    if "file_tags d2 = file_tags d'" for d2
  proof (cases "require_entry digest (LegacyIdentity h) d2")
    case (Inl x)
    then show ?thesis by (auto simp: require_entry_def split: option.splits)
  next
    case (Inr e2)
    then show ?thesis using legacy_entry[OF Inr] none that by auto
  qed
  moreover have "isl (restore_tag later digest file (LegacyIdentity h) revision d')"
  proof (cases "restore_tag later digest file (LegacyIdentity h) revision d'")
    case (Inr d3)
    then show ?thesis
    proof (cases rule: restore_tag_cases)
      case (1 d2 f2 s2 e2 x2)
      then show ?thesis using missing[of d2] lock_file_rows[OF 1(1)] by simp
    qed
  qed simp
  ultimately show ?thesis by blast
qed

definition legacy_link :: file_tag where
  "legacy_link = \<lparr>rl_id = 1, rl_file = 1, rl_tag = None, rl_name = ucs ''dog'', rl_type = UserTag, rl_source = UserSource,
     rl_confidence = None, rl_deleted = False\<rparr>"

definition legacy_library :: tag_state where
  "legacy_library = tag_library [] [legacy_link] []"

lemma legacy_library_entry: "map_of (catalog_entries id legacy_library) (LegacyIdentity (ucs ''dog'')) = Some dog_entry"
proof -
  have refs: "rule_references (ucs ''dog'') = [ucs ''dog'']" "suppressed_keys legacy_library 1 = []"
    using dog_rule by (auto simp: rule_references_def suppressed_keys_def legacy_library_def tag_library_def)
  have "relation_master legacy_library legacy_link = None"
    by (simp add: relation_master_def legacy_link_def masters_by_name_def active_tags_def legacy_library_def tag_library_def)
  then have "add_relation id legacy_library legacy_link [] = [(LegacyIdentity (ucs ''dog''), dog_entry)]"
    using refs by (simp add: add_relation_def legacy_link_def at_entry_def show_unless_hidden_def hidden_on_def dog_normal
        refer_to_def add_all_def add_file_def new_entry_def dog_entry_def List.insert_def)
  moreover have "curated_tags legacy_library 1 = []"
    unfolding legacy_library_def by (rule library_curated) (simp add: legacy_link_def)
  moreover have "catalog_files legacy_library = [1]" unfolding legacy_library_def by (rule library_files)
  moreover have "active_tags legacy_library = []" "overrides legacy_library = []" "file_tags legacy_library = [legacy_link]"
    "rl_file legacy_link = 1"
    by (simp_all add: active_tags_def legacy_library_def tag_library_def legacy_link_def)
  ultimately show ?thesis by (simp add: catalog_entries_def Let_def)
qed

theorem hidden_legacy_not_restorable_witness:
  "\<exists>d'. hide_tag 5 id ''f1'' (LegacyIdentity (ucs ''dog'')) 0 legacy_library = Inr d' \<and>
     isl (restore_tag 6 id ''f1'' (LegacyIdentity (ucs ''dog'')) 1 d')"
proof -
  have lock: "lock_file 5 ''f1'' 0 legacy_library = Inr (legacy_library, tagged_file, tagged_state)"
    unfolding legacy_library_def by (rule library_lock)
  obtain d' where d': "hide_tag 5 id ''f1'' (LegacyIdentity (ucs ''dog'')) 0 legacy_library = Inr d'"
    using legacy_library_entry lock
    by (simp add: hide_tag_def require_entry_def dog_entry_def split_beta Let_def raise_if_def tagged_file_def)
  have "tags_ok (tags legacy_library) (file_tags legacy_library)" "mk_file (core legacy_library) ''f1'' = Some tagged_file"
    by (simp_all add: legacy_library_def tag_library_def legacy_link_def tags_ok_def names_unique_def relations_unique_def
        link_ok_def mk_file_def mk_linked_def tagged_file_def)
  moreover have "filter (legacy_user id (ucs ''dog'')) (file_tags legacy_library) = [legacy_link]"
    by (simp add: legacy_library_def tag_library_def legacy_user_def legacy_link_def dog_normal)
  ultimately have "isl (restore_tag 6 id ''f1'' (LegacyIdentity (ucs ''dog'')) 1 d')"
    using hidden_legacy_not_restorable[OF d', of tagged_file legacy_link 6 1] by (simp add: legacy_link_def tagged_file_def)
  with d' show ?thesis by blast
qed

section \<open>A suppressed name comes back\<close>

lemma no_relations_delete:
  assumes "delete_tag now i expected d = Inr d'" and "\<forall>r \<in> set (file_tags d). rl_tag r = Some i \<longrightarrow> rl_deleted r"
  shows "\<exists>t. live_tag i d = Some t \<and> overrides d' = overrides (update_overrides i None True d) \<and>
    tags d' = save_row tg_id (retired now t) (tags d)"
proof -
  have "filter (\<lambda>r. rl_tag r = Some i \<and> \<not> rl_deleted r) (file_tags d) = []" using assms(2) by (auto simp: filter_empty_conv)
  then show ?thesis using assms(1)
    by (auto simp: delete_tag_def get_tag_Inr row_simps tag_change_def) (simp add: put_tag_def)
qed

text \<open>
  Deleting through the catalogue a tag no photo has, whose name stands for a curated name
  that an override of another tag or of none holds, makes that override point, unsuppressed,
  at the deleted tag: the session does not flush it before the overrides of the tag are looked
  up. A curated name the user had suppressed is projected again.
\<close>

theorem deleted_tag_unsuppresses:
  assumes "delete_entry now digest (TagIdentity i) expected d = Inr d'" and "stored_overrides d = overrides d"
    and "require_entry digest (TagIdentity i) d = Inr e" and "en_canonicals e = [c]" and "normalize_tag c = c"
    and "override_of d c = Some v" and "ov_suppressed v" and "\<forall>u \<in> set (overrides d). ov_tag u \<noteq> Some i"
    and "\<forall>r \<in> set (file_tags d). rl_tag r = Some i \<longrightarrow> rl_deleted r" and "distinct (map tg_id (tags d))"
  shows "suppressed_everywhere d c \<and> \<not> suppressed_everywhere d' c \<and> Option.bind (override_of d' c) ov_tag = Some i \<and>
    live_tag i d' = None"
proof -
  let ?w = "v\<lparr>ov_tag := Some i, ov_suppressed := False, ov_revision := ov_revision v + 1\<rparr>"
  have v: "find_row ov_key c (overrides d) = Some v" "ov_key v = c" "v \<in> set (overrides d)"
    using assms(6) by (auto simp: override_of_def dest: find_row_SomeD)
  let ?d = "ensure_links [c] (Some i) False d"
  have d: "?d = d\<lparr>overrides := save_row ov_key ?w (overrides d)\<rparr>"
    using v(1) assms(5,7) by (simp add: ensure_links_def ensure_override_def)
  have "delete_tag now i expected ?d = Inr d'" using assms(1,3,4) by (auto simp: delete_entry_def)
  from no_relations_delete[OF this] obtain t where t: "live_tag i ?d = Some t"
    "overrides d' = overrides (update_overrides i None True ?d)" "tags d' = save_row tg_id (retired now t) (tags d)"
    using assms(9) by (auto simp: d)
  have "filter (\<lambda>u. ov_tag u = Some i) (overrides d) = []" using assms(8) by (simp add: filter_empty_conv)
  then have "overrides d' = save_row ov_key ?w (overrides d)"
    using assms(2) t(2) by (simp add: d update_overrides_def update_where_unmatched)
  then have o: "override_of d' c = Some ?w" using v by (auto simp: override_of_def table_simps)
  have live: "t \<in> set (tags d)" "tg_id t = i" using live_tag_SomeD[OF t(1)] by (simp_all add: d)
  have "tg_deleted u" if "u \<in> set (tags d')" "tg_id u = i" for u
    using that live unfolding t(3) save_row_def set_update_where by (auto simp: retired_def split: if_splits)
  then have "live_tag i d' = None" unfolding live_tag_def find_row_None_iff by auto
  then show ?thesis using o assms(6,7) by (simp add: suppressed_everywhere_def)
qed

definition dog_suppressed :: tag_override where
  "dog_suppressed = \<lparr>ov_key = ucs ''dog'', ov_tag = None, ov_suppressed = True, ov_revision = 1\<rparr>"

definition bare_library :: tag_state where
  "bare_library = tag_library [first_tag] [] [dog_suppressed]"

lemma bare_library_entry: "require_entry digest (TagIdentity 1) bare_library = Inr (dog_entry\<lparr>en_files := []\<rparr>)"
proof -
  have refs: "canonical_references bare_library first_tag = [ucs ''dog'']"
    using dog_rule by (auto simp: canonical_references_def bare_library_def tag_library_def dog_suppressed_def first_tag_def new_tag_def)
  have "curated_tags bare_library 1 = []" unfolding bare_library_def by (rule library_curated) simp
  moreover have "catalog_files bare_library = [1]" unfolding bare_library_def by (rule library_files)
  moreover have "active_tags bare_library = [first_tag]" "overrides bare_library = [dog_suppressed]" "file_tags bare_library = []"
    by (simp_all add: active_tags_def bare_library_def tag_library_def first_tag_def new_tag_def)
  ultimately show ?thesis using refs
    by (simp add: require_entry_def catalog_entries_def Let_def at_entry_def refer_to_def add_all_def new_entry_def add_override_def
        dog_suppressed_def dog_entry_def List.insert_def) (simp add: first_tag_def new_tag_def)
qed

theorem deleted_tag_unsuppresses_witness:
  "\<exists>d'. delete_entry 7 id (TagIdentity 1) 1 bare_library = Inr d' \<and> suppressed_everywhere bare_library (ucs ''dog'') \<and>
     \<not> suppressed_everywhere d' (ucs ''dog'')"
proof -
  have "\<exists>d'. delete_entry 7 id (TagIdentity 1) 1 bare_library = Inr d'"
    using bare_library_entry[of id]
    by (simp add: delete_entry_def dog_entry_def delete_tag_def get_tag_def live_tag_def ensure_links_def ensure_override_def Let_def
        dog_normal bare_library_def tag_library_def dog_suppressed_def first_tag_def new_tag_def raise_if_def)
  then obtain d' where d': "delete_entry 7 id (TagIdentity 1) 1 bare_library = Inr d'" by blast
  have "stored_overrides bare_library = overrides bare_library" by (simp add: bare_library_def tag_library_def)
  from deleted_tag_unsuppresses[OF d' this bare_library_entry, of "ucs ''dog''" dog_suppressed] show ?thesis using d'
    by (simp add: dog_entry_def dog_normal override_of_def bare_library_def tag_library_def dog_suppressed_def first_tag_def new_tag_def)
qed

end
