(* ===== verification/StoragePaths.thy ===== *)
theory StoragePaths
  imports PyText
begin

text \<open>
  Where the storage service puts and looks for files: the path half of \<open>StorageService\<close>
  (\<open>src/app/common/services/storage_service.py\<close>). A path is the tuple
  \<open>pathlib.Path.parts\<close> gives on POSIX, the root being a part of its own; \<open>se_real\<close> is
  the volume's \<open>os.path.realpath\<close>, which follows symbolic links and removes \<open>..\<close>
  (\<open>None\<close>: it raised \<open>OSError\<close>). The lemmas show that a resolved path lies below its
  configured root, which is what makes deleting it safe.
\<close>

type_synonym path = "string list"

datatype storage_error = ValueError string | OSError

record storage_env =
  se_root :: path
  se_incoming :: path
  se_original :: path
  se_mobile :: path
  se_preview :: path
  se_thumb :: path
  se_real :: "path \<Rightarrow> path option"

definition slash :: char where
  "slash = CHR ''/''"

text \<open>\<open>Path(raw).parts\<close>: empty and \<open>.\<close> components disappear; a leading \<open>//\<close> is a root of its own.\<close>

definition path_parts :: "string \<Rightarrow> path" where
  "path_parts raw =
     (let names = filter (\<lambda>p. p \<noteq> [] \<and> p \<noteq> ''.'') (split_on slash raw)
      in if starts_with ''//'' raw \<and> \<not> starts_with ''///'' raw then ''//'' # names
         else if starts_with ''/'' raw then ''/'' # names
         else names)"

definition is_absolute :: "string \<Rightarrow> bool" where
  "is_absolute raw \<longleftrightarrow> starts_with ''/'' raw"

text \<open>\<open>base / other\<close>: an absolute right operand replaces the left one.\<close>

definition path_join :: "path \<Rightarrow> string \<Rightarrow> path" where
  "path_join base other = (if is_absolute other then path_parts other else base @ path_parts other)"

text \<open>\<open>p.relative_to(base)\<close> raises unless \<open>base\<close> is a prefix of \<open>p\<close>.\<close>

definition below :: "path \<Rightarrow> path \<Rightarrow> bool" where
  "below base p \<longleftrightarrow> take (length base) p = base"

definition resolve :: "storage_env \<Rightarrow> path \<Rightarrow> storage_error + path" where
  "resolve env p = (case se_real env p of None \<Rightarrow> Inl OSError | Some q \<Rightarrow> Inr q)"

section \<open>Stored paths\<close>

text \<open>\<open>nt\<close> is \<open>os.name == "nt"\<close>, \<open>absolute\<close> what \<open>path.is_absolute()\<close> answers there.\<close>

definition is_local_absolute_path :: "bool \<Rightarrow> bool \<Rightarrow> string \<Rightarrow> bool" where
  "is_local_absolute_path nt absolute normalized =
     (if \<not> absolute then False
      else if \<not> nt then True
      else (case normalized of
              d # c # s # _ \<Rightarrow>
                (if (is_upper_ascii d \<or> is_lower_ascii d) \<and> c = CHR '':'' \<and> s = slash then True
                 else starts_with ''//'' normalized)
            | _ \<Rightarrow> starts_with ''//'' normalized))"

definition root_names :: "string list" where
  "root_names = [''incoming'', ''mobile-original'', ''original'', ''preview'', ''thumb'',
                 ''export'', ''cache'', ''temp'']"

fun storage_relative_by :: "string list \<Rightarrow> string \<Rightarrow> string" where
  "storage_relative_by [] relative = relative"
| "storage_relative_by (root_name # names) relative =
     (let marker = root_name @ [slash] in
      if starts_with marker relative then relative
      else (case find_sub (slash # marker) relative of
              Some idx \<Rightarrow> drop (idx + 1) relative
            | None \<Rightarrow> storage_relative_by names relative))"

definition to_storage_relative :: "string \<Rightarrow> string" where
  "to_storage_relative normalized =
     storage_relative_by root_names (lstrip_while (\<lambda>c. c = slash) normalized)"

definition resolve_storage_path :: "storage_env \<Rightarrow> string \<Rightarrow> storage_error + path" where
  "resolve_storage_path env path =
     (let raw = strip path in
      raise_if (raw = []) (ValueError ''storage path is empty'')
       (let normalized = replace_char (CHR 92) slash raw in
        if is_local_absolute_path False (is_absolute raw) normalized then Inr (path_parts raw)
        else and_then (resolve env (se_root env)) (\<lambda>storage_root.
             and_then (resolve env (path_join storage_root (to_storage_relative normalized))) (\<lambda>resolved.
               raise_if (\<not> below storage_root resolved)
                 (ValueError ''storage path escapes PHOTO_PLATFORM_ROOT'') (Inr resolved)))))"

section \<open>Managed roots\<close>

text \<open>The two original roots, the second dropped when it resolves to the first.\<close>

definition original_roots :: "storage_env \<Rightarrow> storage_error + path list" where
  "original_roots env =
     and_then (resolve env (se_original env)) (\<lambda>a.
     and_then (resolve env (se_mobile env)) (\<lambda>b.
       Inr (if a = b then [se_original env] else [se_original env, se_mobile env])))"

definition require_root_below_storage :: "storage_env \<Rightarrow> path \<Rightarrow> storage_error + unit" where
  "require_root_below_storage env root_dir =
     and_then (resolve env root_dir) (\<lambda>r. and_then (resolve env (se_root env)) (\<lambda>s.
       raise_if (\<not> below s r)
         (ValueError ''mobile original root must be inside PHOTO_PLATFORM_ROOT'') (Inr ())))"

definition original_root_for_upload :: "storage_env \<Rightarrow> string \<Rightarrow> string \<Rightarrow> storage_error + path" where
  "original_root_for_upload env source_type service_name =
     (if source_type = ''UPLOAD_MOBILE'' \<and> service_name = ''MemoryKeeper''
      then and_then (require_root_below_storage env (se_mobile env)) (\<lambda>_. Inr (se_mobile env))
      else Inr (se_original env))"

fun within_roots :: "storage_env \<Rightarrow> path \<Rightarrow> path \<Rightarrow> path list \<Rightarrow> storage_error + path" where
  "within_roots env storage_root resolved [] =
     Inl (ValueError ''original path is outside configured storage'')"
| "within_roots env storage_root resolved (root_dir # roots) =
     and_then (resolve env root_dir) (\<lambda>candidate.
       if below storage_root candidate \<and> below candidate resolved then Inr resolved
       else within_roots env storage_root resolved roots)"

definition resolve_original_path :: "storage_env \<Rightarrow> string \<Rightarrow> storage_error + path" where
  "resolve_original_path env stored_path =
     and_then (resolve_storage_path env stored_path) (\<lambda>p.
     and_then (resolve env p) (\<lambda>resolved.
     and_then (resolve env (se_root env)) (\<lambda>storage_root.
     and_then (original_roots env) (\<lambda>roots.
       within_roots env storage_root resolved roots))))"

definition resolve_asset_delete_path :: "storage_env \<Rightarrow> path \<Rightarrow> string \<Rightarrow> storage_error + path" where
  "resolve_asset_delete_path env expected_root stored_path =
     and_then (resolve env (se_root env)) (\<lambda>storage_root.
     and_then (resolve env expected_root) (\<lambda>asset_root.
     raise_if (\<not> below storage_root asset_root) (ValueError ''asset root is outside PHOTO_PLATFORM_ROOT'')
      (and_then (resolve_storage_path env stored_path) (\<lambda>p.
       and_then (resolve env p) (\<lambda>target.
         raise_if (\<not> (below storage_root target \<and> below asset_root target))
           (ValueError ''asset path is outside its configured storage root'') (Inr target))))))"

section \<open>Built paths\<close>

definition normalize_extension :: "string \<Rightarrow> string" where
  "normalize_extension extension =
     (if extension = [] then []
      else lower (if starts_with ''.'' extension then extension else CHR ''.'' # extension))"

definition build_path :: "path \<Rightarrow> string \<Rightarrow> string \<Rightarrow> path" where
  "build_path root_dir sha256 extension =
     path_join (path_join (path_join root_dir (take 2 sha256)) (take 2 (drop 2 sha256))) (sha256 @ extension)"

definition build_derivative_path ::
  "storage_env \<Rightarrow> string \<Rightarrow> string \<Rightarrow> string \<Rightarrow> storage_error + path" where
  "build_derivative_path env kind file_id extension =
     (if kind = ''preview'' then Inr (build_path (se_preview env) file_id (normalize_extension extension))
      else if kind = ''thumb'' then Inr (build_path (se_thumb env) file_id (normalize_extension extension))
      else Inl (ValueError ''derivative kind must be preview or thumb''))"

text \<open>The tokens a directory name may not contain are replaced one after the other.\<close>

definition unsafe_tokens :: string where
  "unsafe_tokens = '':*?'' @ [CHR 34] @ ''<>|''"

definition replace_unsafe :: "string \<Rightarrow> string" where
  "replace_unsafe = fold (\<lambda>token. replace_char token (CHR ''_'')) unsafe_tokens"

definition dir_name_core :: "string \<Rightarrow> string" where
  "dir_name_core part = strip_while (\<lambda>c. c = CHR ''.'') (strip part)"

definition normalize_relative_dir :: "string \<Rightarrow> path" where
  "normalize_relative_dir relative_dir =
     (let cleaned = map dir_name_core
                      (split_on slash (replace_char (CHR 92) slash relative_dir));
          parts = map replace_unsafe
                    (filter (\<lambda>c. c \<noteq> [] \<and> c \<noteq> ''.'' \<and> c \<noteq> ''..'') cleaned)
      in if parts = [] then [''Unknown''] else parts)"

text \<open>Back to a stored path: relative to the root where possible.\<close>

definition as_posix :: "path \<Rightarrow> string" where
  "as_posix p = (case p of
       [] \<Rightarrow> ''.''
     | r # names \<Rightarrow> if r = ''/'' \<or> r = ''//'' then r @ join_with slash names else join_with slash p)"

definition to_relative_path :: "storage_env \<Rightarrow> path \<Rightarrow> storage_error + string" where
  "to_relative_path env p =
     and_then (resolve env p) (\<lambda>q. and_then (resolve env (se_root env)) (\<lambda>storage_root.
       Inr (if below storage_root q then as_posix (drop (length storage_root) q) else as_posix p)))"

section \<open>What the resolved paths guarantee\<close>

lemma below_trans: "below a b \<Longrightarrow> below b c \<Longrightarrow> below a c"
  unfolding below_def by (metis append_take_drop_id append.assoc append_eq_conv_conj)

lemma below_append [simp]: "below a (a @ b)"
  by (simp add: below_def)

lemma below_iff: "below a p \<longleftrightarrow> (\<exists>t. p = a @ t)"
  unfolding below_def by (metis append_eq_conv_conj append_take_drop_id)

lemma resolve_Inr [simp]: "resolve env p = Inr q \<longleftrightarrow> se_real env p = Some q"
  by (simp add: resolve_def split: option.splits)

lemma resolve_storage_relative:
  assumes "resolve_storage_path env s = Inr p" and "\<not> is_absolute (strip s)"
  shows "\<exists>root_dir. se_real env (se_root env) = Some root_dir \<and> below root_dir p"
  using assms by (auto simp: resolve_storage_path_def Let_def is_local_absolute_path_def)

definition managed_originals :: "storage_env \<Rightarrow> path set" where
  "managed_originals env = {r. se_real env (se_original env) = Some r \<or> se_real env (se_mobile env) = Some r}"

lemma within_roots_below:
  "within_roots env s p roots = Inr q \<Longrightarrow>
     q = p \<and> (\<exists>r\<in>set roots. \<exists>c. se_real env r = Some c \<and> below s c \<and> below c p)"
  by (induction env s p roots rule: within_roots.induct) (auto split: if_splits)

lemma resolve_original_below:
  assumes "resolve_original_path env s = Inr p"
  shows "\<exists>sr r. se_real env (se_root env) = Some sr \<and> r \<in> managed_originals env \<and> below sr r \<and> below r p"
proof -
  obtain sr roots q where sr: "se_real env (se_root env) = Some sr" and roots: "original_roots env = Inr roots"
    and w: "within_roots env sr q roots = Inr p"
    using assms by (auto simp: resolve_original_path_def)
  have "set roots \<subseteq> {se_original env, se_mobile env}"
    using roots by (auto simp: original_roots_def split: if_splits)
  then show ?thesis
    using within_roots_below[OF w] sr by (fastforce simp: managed_originals_def)
qed

lemma resolve_asset_below:
  assumes "resolve_asset_delete_path env root_dir s = Inr p"
  shows "\<exists>sr r. se_real env (se_root env) = Some sr \<and> se_real env root_dir = Some r \<and> below sr r \<and> below r p"
  using assms by (auto simp: resolve_asset_delete_path_def)

lemma normalize_extension_idem: "normalize_extension (normalize_extension e) = normalize_extension e"
  by (cases e) (auto simp: normalize_extension_def starts_with_def lower_char_def is_upper_ascii_def)

lemma replace_unsafe_map:
  "replace_unsafe s = map (\<lambda>c. if c \<in> set unsafe_tokens then CHR ''_'' else c) s"
proof -
  have "fold (\<lambda>t. replace_char t (CHR ''_'')) ts s = map (\<lambda>c. if c \<in> set ts then CHR ''_'' else c) s"
    if "CHR ''_'' \<notin> set ts" for ts
    using that by (induction ts arbitrary: s) (auto simp: replace_char_def)
  moreover have "CHR ''_'' \<notin> set unsafe_tokens" by (simp add: unsafe_tokens_def)
  ultimately show ?thesis unfolding replace_unsafe_def by blast
qed

lemma dir_name_core_facts:
  "set (dir_name_core part) \<subseteq> set part" "dir_name_core part \<noteq> [] \<Longrightarrow> hd (dir_name_core part) \<noteq> CHR ''.''"
  unfolding dir_name_core_def strip_def
  using set_strip_while hd_strip_while by (meson subset_trans, fastforce)

text \<open>A name that is one ordinary component of a path on Linux and on Windows.\<close>

definition plain_dir_name :: "string \<Rightarrow> bool" where
  "plain_dir_name p \<longleftrightarrow> p \<noteq> [] \<and> p \<noteq> ''.'' \<and> p \<noteq> ''..'' \<and>
     list_all (\<lambda>c. c \<noteq> slash \<and> c \<noteq> CHR 92 \<and> c \<notin> set unsafe_tokens) p"

text \<open>
  A directory computed from place names cannot leave the original root: whatever the text,
  the normalised directory is not empty and none of its names is empty, is a single or double
  dot, or contains a separator or a character Windows forbids.
\<close>

theorem relative_dir_safe:
  "normalize_relative_dir d \<noteq> [] \<and> list_all plain_dir_name (normalize_relative_dir d)"
proof -
  have name_ok: "p \<noteq> [] \<and> p \<noteq> ''.'' \<and> p \<noteq> ''..'' \<and>
      (\<forall>c\<in>set p. c \<noteq> slash \<and> c \<noteq> CHR 92 \<and> c \<notin> set unsafe_tokens)"
    if "part \<in> set (split_on slash (replace_char (CHR 92) slash d))"
      and p: "p = replace_unsafe (dir_name_core part)" and ne: "dir_name_core part \<noteq> []" for p part
  proof -
    have "slash \<notin> set part" using that(1) by (rule split_on_no_sep)
    moreover have "CHR 92 \<notin> set part"
      using set_split_on[OF that(1)] replace_char_absent[of "CHR 92" slash d] by (auto simp: slash_def)
    ultimately have sep: "slash \<notin> set (dir_name_core part)" "CHR 92 \<notin> set (dir_name_core part)"
      using dir_name_core_facts(1) by blast+
    obtain c cs where core: "dir_name_core part = c # cs" using ne by (cases "dir_name_core part") auto
    then have "c \<noteq> CHR ''.''" using dir_name_core_facts(2)[OF ne] by simp
    moreover define g where "g = (\<lambda>c. if c \<in> set unsafe_tokens then CHR ''_'' else c)"
    moreover have pg: "p = g c # map g cs" by (simp add: p core replace_unsafe_map g_def)
    moreover have "x \<noteq> slash \<and> x \<noteq> CHR 92 \<and> x \<notin> set unsafe_tokens" if x: "x \<in> set p" for x
    proof -
      obtain y where y: "y \<in> set (dir_name_core part)" "x = g y"
        using x unfolding pg core by auto
      have "y \<noteq> slash" "y \<noteq> CHR 92" using y(1) sep by metis+
      moreover have "CHR ''_'' \<noteq> slash \<and> CHR ''_'' \<noteq> CHR 92 \<and> CHR ''_'' \<notin> set unsafe_tokens"
        by (simp add: slash_def unsafe_tokens_def)
      ultimately show ?thesis unfolding y(2) g_def by metis
    qed
    moreover have "g c \<noteq> CHR ''.''" using \<open>c \<noteq> CHR ''.''\<close> by (simp add: g_def)
    ultimately show ?thesis by (metis list.inject list.distinct(1))
  qed
  show ?thesis
  proof (cases "normalize_relative_dir d = [''Unknown'']")
    case True
    then show ?thesis by (simp add: plain_dir_name_def slash_def unsafe_tokens_def)
  next
    case False
    then have "normalize_relative_dir d \<noteq> [] \<and> set (normalize_relative_dir d) \<subseteq>
        {replace_unsafe (dir_name_core part) | part.
           part \<in> set (split_on slash (replace_char (CHR 92) slash d)) \<and> dir_name_core part \<noteq> []}"
      unfolding normalize_relative_dir_def Let_def by (auto split: if_splits)
    then show ?thesis using name_ok unfolding plain_dir_name_def list_all_iff by blast
  qed
qed

text \<open>
  Stored paths are found by name, not by position: a path below the original root whose
  directory has a folder called incoming anywhere below is read as a path below the
  incoming root, so the file the mover put there is looked for in another place; a path
  without such a folder is left as it is.
\<close>

theorem storage_relative_by_name:
  "starts_with ''incoming/'' (to_storage_relative (''original/'' @ a @ ''/incoming/'' @ b)) \<and>
   ((\<forall>n\<in>set root_names. find_sub (slash # n @ [slash]) s = None) \<and> \<not> starts_with ''/'' s
      \<longrightarrow> to_storage_relative s = s)"
proof
  let ?s = "''original/'' @ a @ ''/incoming/'' @ b"
  have "find_sub ''/incoming/'' ?s \<noteq> None"
    using find_sub_infix[of "''/incoming/''" "''original/'' @ a" b] by (simp del: find_sub.simps)
  then obtain i where i: "find_sub ''/incoming/'' ?s = Some i" by blast
  obtain t where "drop i ?s = ''/incoming/'' @ t" using find_sub_Some[OF i] by (auto simp: starts_with_iff)
  then have "drop (i + 1) ?s = ''incoming/'' @ t"
    by (metis Suc_eq_plus1 append_Cons drop_Suc list.sel(3) tl_drop)
  then have "starts_with ''incoming/'' (drop (i + 1) ?s)" by (metis starts_with_append)
  moreover have "to_storage_relative ?s = drop (i + 1) ?s"
  proof -
    have "lstrip_while (\<lambda>c. c = slash) ?s = ?s" by (simp add: lstrip_while_def slash_def)
    moreover have "\<not> starts_with (''incoming'' @ [slash]) ?s" by (simp add: starts_with_def slash_def)
    moreover have "find_sub (slash # ''incoming'' @ [slash]) ?s = Some i"
      using i by (simp add: slash_def del: find_sub.simps)
    ultimately show ?thesis
      by (simp add: to_storage_relative_def root_names_def Let_def del: find_sub.simps append_Cons)
  qed
  ultimately show "starts_with ''incoming/'' (to_storage_relative ?s)" by simp
next
  have by_names: "storage_relative_by ns s = s" if "\<forall>n\<in>set ns. find_sub (slash # n @ [slash]) s = None" for ns
    using that by (induction ns) (auto simp: Let_def)
  show "(\<forall>n\<in>set root_names. find_sub (slash # n @ [slash]) s = None) \<and> \<not> starts_with ''/'' s
      \<longrightarrow> to_storage_relative s = s"
    using by_names by (cases s) (auto simp: to_storage_relative_def lstrip_while_def slash_def starts_with_def)
qed

theorem storage_relative_by_name_witness:
  "to_storage_relative ''original/2026/Seoul/ab.jpg'' = ''original/2026/Seoul/ab.jpg''"
  by (rule conjunct2[OF storage_relative_by_name, rule_format])
    (simp add: root_names_def slash_def starts_with_def)

end
