(* ===== verification/StorageAssets.thy ===== *)
theory StorageAssets
  imports StoragePaths Tables
begin

text \<open>
  What the storage service does to the disk: moving an upload into the original store and
  deleting assets (\<open>src/app/common/services/storage_service.py\<close>). The disk holds regular
  files with their bytes and directories, both at resolved paths; \<open>dk_stuck\<close> are the
  files whose removal raises \<open>OSError\<close> (a busy share, a read-only mount). The lemmas show
  that deletion stays below the managed roots, is all or nothing when a path is unsafe, can be
  repeated, and that a move never loses the bytes.
\<close>

datatype asset_status = DELETED | ALREADY_ABSENT | UNSAFE_PATH | ASSET_FAILED | NOT_ATTEMPTED

datatype asset_kind = Original | Preview | Thumb

record disk =
  dk_files :: "path \<Rightarrow> string option"
  dk_dirs :: "path list"
  dk_stuck :: "path list"

definition path_exists :: "disk \<Rightarrow> path \<Rightarrow> bool" where
  "path_exists k p \<longleftrightarrow> dk_files k p \<noteq> None \<or> p \<in> set (dk_dirs k)"

text \<open>\<open>Path.unlink()\<close>: None when it raises \<open>OSError\<close>.\<close>

definition unlink :: "path \<Rightarrow> disk \<Rightarrow> disk option" where
  "unlink p k = (if dk_files k p = None \<or> p \<in> set (dk_dirs k) \<or> p \<in> set (dk_stuck k) then None
                 else Some (k\<lparr>dk_files := (dk_files k)(p := None)\<rparr>))"

definition unlink_missing_ok :: "path \<Rightarrow> disk \<Rightarrow> disk option" where
  "unlink_missing_ok p k = (if path_exists k p then unlink p k else Some k)"

section \<open>Deleting\<close>

definition delete_target :: "path \<Rightarrow> disk \<Rightarrow> asset_status \<times> disk" where
  "delete_target target k =
     (if \<not> path_exists k target then (ALREADY_ABSENT, k)
      else if target \<in> set (dk_dirs k) then (ASSET_FAILED, k)
      else (case unlink target k of None \<Rightarrow> (ASSET_FAILED, k) | Some k' \<Rightarrow> (DELETED, k')))"

definition delete_incoming_asset :: "storage_env \<Rightarrow> string \<Rightarrow> disk \<Rightarrow> asset_status \<times> disk" where
  "delete_incoming_asset env incoming_path k =
     (case resolve_asset_delete_path env (se_incoming env) incoming_path of
        Inl _ \<Rightarrow> (UNSAFE_PATH, k)
      | Inr target \<Rightarrow> delete_target target k)"

definition stored_path :: "common_file \<Rightarrow> asset_kind \<Rightarrow> string option" where
  "stored_path f kind = (case kind of Original \<Rightarrow> cf_original_path f | Preview \<Rightarrow> cf_preview_path f
                                    | Thumb \<Rightarrow> cf_thumb_path f)"

text \<open>\<open>not stored_path\<close>: absent, or the empty string.\<close>

definition no_path :: "string option \<Rightarrow> bool" where
  "no_path s \<longleftrightarrow> s = None \<or> s = Some []"

definition resolve_asset :: "storage_env \<Rightarrow> common_file \<Rightarrow> asset_kind \<Rightarrow> storage_error + path" where
  "resolve_asset env f kind =
     (let s = (case stored_path f kind of None \<Rightarrow> [] | Some s \<Rightarrow> s) in
      case kind of
        Original \<Rightarrow> resolve_original_path env s
      | Preview \<Rightarrow> resolve_asset_delete_path env (se_preview env) s
      | Thumb \<Rightarrow> resolve_asset_delete_path env (se_thumb env) s)"

datatype asset_plan = NoAsset | Unsafe | Target path

definition plan_asset :: "storage_env \<Rightarrow> common_file \<Rightarrow> asset_kind \<Rightarrow> asset_plan" where
  "plan_asset env f kind =
     (if no_path (stored_path f kind) then NoAsset
      else (case resolve_asset env f kind of Inl _ \<Rightarrow> Unsafe | Inr p \<Rightarrow> Target p))"

definition asset_kinds :: "asset_kind list" where
  "asset_kinds = [Original, Preview, Thumb]"

text \<open>The result for a kind when nothing is deleted because some path is unsafe.\<close>

fun refused :: "asset_plan \<Rightarrow> asset_status" where
  "refused NoAsset = ALREADY_ABSENT"
| "refused Unsafe = UNSAFE_PATH"
| "refused (Target _) = NOT_ATTEMPTED"

fun delete_plans :: "(asset_kind \<times> asset_plan) list \<Rightarrow> disk \<Rightarrow> (asset_kind \<times> asset_status) list \<times> disk" where
  "delete_plans [] k = ([], k)"
| "delete_plans ((kind, Target p) # plans) k =
     (let (st, k1) = delete_target p k; (rest, k2) = delete_plans plans k1 in ((kind, st) # rest, k2))"
| "delete_plans ((kind, _) # plans) k =
     (let (rest, k2) = delete_plans plans k in ((kind, ALREADY_ABSENT) # rest, k2))"

definition delete_common_file_assets ::
  "storage_env \<Rightarrow> common_file \<Rightarrow> disk \<Rightarrow> (asset_kind \<times> asset_status) list \<times> disk" where
  "delete_common_file_assets env f k =
     (let plans = map (\<lambda>kind. (kind, plan_asset env f kind)) asset_kinds
      in if list_ex (\<lambda>(_, plan). plan = Unsafe) plans
         then (map (\<lambda>(kind, plan). (kind, refused plan)) plans, k)
         else delete_plans plans k)"

definition asset_ok :: "asset_status \<Rightarrow> bool" where
  "asset_ok st \<longleftrightarrow> st = DELETED \<or> st = ALREADY_ABSENT"

definition all_assets_ok :: "(asset_kind \<times> asset_status) list \<Rightarrow> bool" where
  "all_assets_ok results \<longleftrightarrow> list_all (\<lambda>(_, st). asset_ok st) results"

definition any_deleted :: "(asset_kind \<times> asset_status) list \<Rightarrow> bool" where
  "any_deleted results \<longleftrightarrow> list_ex (\<lambda>(_, st). st = DELETED) results"

section \<open>Laws of deletion\<close>

lemma delete_target_disk:
  assumes "delete_target p k = (st, k')"
  shows "k' = (if st = DELETED then k\<lparr>dk_files := (dk_files k)(p := None)\<rparr> else k)"
    and "st = DELETED \<Longrightarrow> dk_files k p \<noteq> None \<and> p \<notin> set (dk_dirs k)"
    and "asset_ok st \<Longrightarrow> \<not> path_exists k' p"
    and "st \<noteq> UNSAFE_PATH \<and> st \<noteq> NOT_ATTEMPTED"
  using assms
  by (auto simp: delete_target_def unlink_def path_exists_def asset_ok_def split: if_splits)

lemma delete_target_again: "\<not> path_exists k p \<Longrightarrow> delete_target p k = (ALREADY_ABSENT, k)"
  by (simp add: delete_target_def)

lemma delete_target_keeps_absent:
  "delete_target p k = (st, k') \<Longrightarrow> \<not> path_exists k q \<Longrightarrow> \<not> path_exists k' q"
  by (frule delete_target_disk(1)) (auto simp: path_exists_def split: if_splits)

lemma delete_plans_keeps_absent:
  "delete_plans plans k = (res, k') \<Longrightarrow> \<not> path_exists k q \<Longrightarrow> \<not> path_exists k' q"
proof (induction plans k arbitrary: res k' rule: delete_plans.induct)
  case (2 kind p plans k)
  then show ?case
    by (auto simp: Let_def split: prod.splits) (metis delete_target_keeps_absent)
qed (auto simp: Let_def split: prod.splits)

lemma delete_plans_frame:
  "delete_plans plans k = (res, k') \<Longrightarrow> dk_dirs k' = dk_dirs k \<and> dk_stuck k' = dk_stuck k"
proof (induction plans k arbitrary: res k' rule: delete_plans.induct)
  case (2 kind p plans k)
  obtain st k1 where d: "delete_target p k = (st, k1)" by fastforce
  then show ?case using 2 delete_target_disk(1)[OF d] by (auto simp: Let_def split: prod.splits if_splits)
qed (auto simp: Let_def split: prod.splits)

lemma delete_plans_files:
  "delete_plans plans k = (res, k') \<Longrightarrow>
     dk_files k' q = dk_files k q \<or> dk_files k' q = None \<and> Target q \<in> snd ` set plans"
proof (induction plans k arbitrary: res k' rule: delete_plans.induct)
  case (2 kind p plans k)
  obtain st k1 where d: "delete_target p k = (st, k1)" by fastforce
  obtain rest where r: "delete_plans plans k1 = (rest, k')"
    using 2(2) d by (auto simp: Let_def split: prod.splits)
  have "dk_files k' q = dk_files k1 q \<or> dk_files k' q = None \<and> Target q \<in> snd ` set plans"
    using 2(1)[OF d[symmetric] refl r] .
  then show ?case using delete_target_disk(1)[OF d] by (cases "q = p") (auto split: if_splits)
qed (auto simp: Let_def split: prod.splits)

lemma delete_plans_ok_absent:
  assumes "delete_plans plans k = (res, k')" and "all_assets_ok res" and "Target p \<in> snd ` set plans"
  shows "\<not> path_exists k' p"
  using assms
proof (induction plans k arbitrary: res k' rule: delete_plans.induct)
  case (2 kind q plans k)
  obtain st k1 where d: "delete_target q k = (st, k1)" by fastforce
  obtain rest where r: "delete_plans plans k1 = (rest, k')" "res = (kind, st) # rest"
    using 2(2) d by (auto simp: Let_def split: prod.splits)
  have ok: "asset_ok st" "all_assets_ok rest" using 2(3) r by (auto simp: all_assets_ok_def)
  show ?case
  proof (cases "p = q")
    case True
    then show ?thesis using delete_target_disk(3)[OF d ok(1)] delete_plans_keeps_absent[OF r(1)] by blast
  next
    case False
    then show ?thesis using 2(1)[OF d[symmetric] refl r(1) ok(2)] 2(4) by auto
  qed
qed (auto simp: Let_def all_assets_ok_def split: prod.splits)

lemma delete_plans_absent:
  "(\<And>p. Target p \<in> snd ` set plans \<Longrightarrow> \<not> path_exists k p) \<Longrightarrow>
     delete_plans plans k = (map (\<lambda>(kind, _). (kind, ALREADY_ABSENT)) plans, k)"
proof (induction plans k rule: delete_plans.induct)
  case (2 kind p plans k)
  then show ?case by (auto simp: delete_target_again Let_def)
qed (auto simp: Let_def)

lemma delete_plans_statuses:
  "delete_plans plans k = (res, k') \<Longrightarrow> list_all (\<lambda>(_, st). st \<noteq> UNSAFE_PATH \<and> st \<noteq> NOT_ATTEMPTED) res"
proof (induction plans k arbitrary: res k' rule: delete_plans.induct)
  case (2 kind p plans k)
  obtain st k1 where d: "delete_target p k = (st, k1)" by fastforce
  obtain rest where r: "delete_plans plans k1 = (rest, k')" "res = (kind, st) # rest"
    using 2(2) d by (auto simp: Let_def split: prod.splits)
  then show ?case using 2(1)[OF d[symmetric] refl r(1)] delete_target_disk(4)[OF d] by simp
qed (auto simp: Let_def split: prod.splits)

lemma refused_not_deleted [simp]: "refused p \<noteq> DELETED"
  by (cases p) auto

lemma delete_assets_cases:
  assumes "delete_common_file_assets env f k = (res, k')"
  obtains (refused) "k' = k" "\<not> any_deleted res" "\<not> all_assets_ok res"
    | (deleted) "delete_plans (map (\<lambda>kind. (kind, plan_asset env f kind)) asset_kinds) k = (res, k')"
        "\<forall>kind\<in>set asset_kinds. plan_asset env f kind \<noteq> Unsafe"
proof (cases "list_ex (\<lambda>(_, plan). plan = Unsafe) (map (\<lambda>kind. (kind, plan_asset env f kind)) asset_kinds)")
  case True
  then obtain kind where kind: "kind \<in> set asset_kinds" "plan_asset env f kind = Unsafe"
    by (auto simp: list_ex_iff)
  have res: "res = map (\<lambda>(kind, plan). (kind, refused plan)) (map (\<lambda>kind. (kind, plan_asset env f kind)) asset_kinds)"
      "k' = k" using assms True by (auto simp: delete_common_file_assets_def Let_def)
  have "(kind, UNSAFE_PATH) \<in> set res" using kind unfolding res by (force intro: rev_image_eqI)
  then have "\<not> all_assets_ok res" by (auto simp: all_assets_ok_def list_all_iff asset_ok_def)
  moreover have "\<not> any_deleted res" unfolding res any_deleted_def list_ex_iff by (auto dest: sym)
  ultimately show ?thesis using res(2) refused by blast
next
  case False
  then show ?thesis using assms by (intro deleted) (auto simp: delete_common_file_assets_def Let_def list_ex_iff)
qed

section \<open>Properties of deletion\<close>

definition asset_root :: "storage_env \<Rightarrow> path \<Rightarrow> bool" where
  "asset_root env r \<longleftrightarrow>
     r \<in> managed_originals env \<or> se_real env (se_preview env) = Some r \<or> se_real env (se_thumb env) = Some r"

lemma plan_target_safe:
  assumes "plan_asset env f kind = Target p"
  shows "\<exists>sr r. se_real env (se_root env) = Some sr \<and> asset_root env r \<and> below sr r \<and> below r p"
proof -
  obtain s where "resolve_asset env f kind = Inr p"
    using assms by (auto simp: plan_asset_def split: if_splits sum.splits)
  then show ?thesis
    by (cases kind) (force simp: resolve_asset_def Let_def asset_root_def
        dest: resolve_original_below resolve_asset_below)+
qed

text \<open>
  C10. Deleting the assets of a file can only remove files below the managed storage: every
  file that is gone afterwards lay below the storage root and below one of the original,
  preview and thumbnail roots, as the volume resolves them; no file is written and no
  directory is removed; and nothing at all happens when any of the three stored paths is
  unsafe.
\<close>

theorem assets_delete_contained:
  assumes "delete_common_file_assets env f k = (res, k')"
  shows "dk_dirs k' = dk_dirs k \<and>
    (\<forall>p. dk_files k' p \<noteq> dk_files k p \<longrightarrow> dk_files k' p = None \<and>
       (\<exists>sr r. se_real env (se_root env) = Some sr \<and> asset_root env r \<and> below sr r \<and> below r p)) \<and>
    ((\<exists>kind\<in>set asset_kinds. plan_asset env f kind = Unsafe) \<longrightarrow> k' = k)"
  using assms
proof (cases rule: delete_assets_cases)
  case deleted
  have "dk_files k' p = None \<and>
      (\<exists>sr r. se_real env (se_root env) = Some sr \<and> asset_root env r \<and> below sr r \<and> below r p)"
    if changed: "dk_files k' p \<noteq> dk_files k p" for p
  proof -
    obtain kind where "plan_asset env f kind = Target p" and gone: "dk_files k' p = None"
      using delete_plans_files[OF deleted(1), of p] changed by force
    then show ?thesis using plan_target_safe by blast
  qed
  then show ?thesis using delete_plans_frame[OF deleted(1)] deleted(2) by blast
qed auto

text \<open>
  A cleanup that succeeded can be repeated: once every asset of a file is reported deleted
  or absent, a second call reports every one absent and changes nothing.
\<close>

theorem assets_delete_idempotent:
  assumes "delete_common_file_assets env f k = (res, k')" and "all_assets_ok res"
  shows "delete_common_file_assets env f k' = (map (\<lambda>kind. (kind, ALREADY_ABSENT)) asset_kinds, k')"
  using assms(1)
proof (cases rule: delete_assets_cases)
  case refused
  then show ?thesis using assms(2) by simp
next
  case deleted
  let ?plans = "map (\<lambda>kind. (kind, plan_asset env f kind)) asset_kinds"
  have "delete_plans ?plans k' = (map (\<lambda>(kind, _). (kind, ALREADY_ABSENT)) ?plans, k')"
    using delete_plans_ok_absent[OF deleted(1) assms(2)] by (intro delete_plans_absent) blast
  moreover have "\<not> list_ex (\<lambda>(_, plan). plan = Unsafe) ?plans"
    using deleted(2) by (auto simp: list_ex_iff)
  ultimately show ?thesis by (simp add: delete_common_file_assets_def Let_def comp_def)
qed

text \<open>A volume without links on which dots are removed lexically, for the examples.\<close>

definition lexical :: "path \<Rightarrow> path option" where
  "lexical p = Some (fold (\<lambda>n acc. if n = ''..'' then butlast acc else acc @ [n]) p [])"

definition demo_env :: storage_env where
  "demo_env = \<lparr>se_root = [''/'', ''pp''], se_incoming = [''/'', ''pp'', ''incoming''],
     se_original = [''/'', ''pp'', ''original''], se_mobile = [''/'', ''pp'', ''mobile-original''],
     se_preview = [''/'', ''pp'', ''preview''], se_thumb = [''/'', ''pp'', ''thumb''], se_real = lexical\<rparr>"

definition demo_file :: common_file where
  "demo_file = \<lparr>cf_id = 7, cf_file_id = ''ab'', cf_original_name = ''a.jpg'', cf_extension = Some ''.jpg'',
     cf_mime_type = None, cf_file_size = None, cf_width = None,
     cf_height = None, cf_original_path = Some ''original/ab.jpg'', cf_preview_path = Some ''preview/ab.jpg'',
     cf_thumb_path = None, cf_favorite = False, cf_service = ''AstroJournal'', cf_created_at = 0,
     cf_deleted = False\<rparr>"

definition demo_disk :: disk where
  "demo_disk = \<lparr>dk_files = [[''/'', ''pp'', ''original'', ''ab.jpg''] \<mapsto> ''bytes''], dk_dirs = [], dk_stuck = []\<rparr>"

lemmas storage_eval = demo_env_def demo_file_def demo_disk_def lexical_def delete_common_file_assets_def
  asset_kinds_def plan_asset_def no_path_def stored_path_def resolve_asset_def resolve_original_path_def
  resolve_asset_delete_path_def resolve_storage_path_def resolve_def strip_def strip_while_def
  lstrip_while_def rstrip_while_def is_space_def replace_char_def is_local_absolute_path_def is_absolute_def
  starts_with_def slash_def path_join_def path_parts_def to_storage_relative_def root_names_def
  original_roots_def below_def raise_if_def delete_target_def path_exists_def unlink_def
  all_assets_ok_def any_deleted_def asset_ok_def Let_def

lemma demo_delete:
  "delete_common_file_assets demo_env demo_file demo_disk =
     ([(Original, DELETED), (Preview, ALREADY_ABSENT), (Thumb, ALREADY_ABSENT)],
      demo_disk\<lparr>dk_files := Map.empty\<rparr>)"
  by (simp add: storage_eval)

theorem assets_delete_contained_witness:
  "\<exists>sr r. se_real demo_env (se_root demo_env) = Some sr \<and> asset_root demo_env r \<and> below sr r \<and>
     below r [''/'', ''pp'', ''original'', ''ab.jpg'']"
proof -
  have "dk_files (demo_disk\<lparr>dk_files := Map.empty\<rparr>) [''/'', ''pp'', ''original'', ''ab.jpg''] \<noteq>
      dk_files demo_disk [''/'', ''pp'', ''original'', ''ab.jpg'']"
    by (simp add: demo_disk_def)
  then show ?thesis using assets_delete_contained[OF demo_delete] by blast
qed

theorem assets_delete_idempotent_witness:
  "delete_common_file_assets demo_env demo_file (demo_disk\<lparr>dk_files := Map.empty\<rparr>) =
     (map (\<lambda>kind. (kind, ALREADY_ABSENT)) asset_kinds, demo_disk\<lparr>dk_files := Map.empty\<rparr>)"
  by (rule assets_delete_idempotent[OF demo_delete]) (simp add: all_assets_ok_def asset_ok_def)

section \<open>Moving an upload into the original store\<close>

text \<open>
  The calls that reach the operating system can go three ways: \<open>os.replace\<close> works, finds
  the target on another device, or fails; the copy across devices completes, raises half way,
  or the process dies with some bytes written. \<open>Died\<close> is not an exception: no handler
  runs, and the job is picked up again by the recovery of stale uploads.
\<close>

datatype replace_outcome = Replaced | CrossDevice | ReplaceFails
datatype copy_outcome = Copied | CopyFails string | CopyKilled string
datatype 'a run = Returned 'a | Raised storage_error | Died

record move_faults =
  mf_replace :: replace_outcome
  mf_copy :: copy_outcome

definition on_volume :: "storage_env \<Rightarrow> path \<Rightarrow> path" where
  "on_volume env p = (case se_real env p of None \<Rightarrow> p | Some q \<Rightarrow> q)"

definition write_file :: "path \<Rightarrow> string \<Rightarrow> disk \<Rightarrow> disk" where
  "write_file p bytes k = k\<lparr>dk_files := (dk_files k)(p \<mapsto> bytes)\<rparr>"

text \<open>\<open>mkdir(parents=True, exist_ok=True)\<close>: raises when a file stands in the way.\<close>

definition make_dirs :: "path \<Rightarrow> disk \<Rightarrow> disk option" where
  "make_dirs p k =
     (let ancestors = map (\<lambda>n. take n p) [1..<Suc (length p)]
      in if list_ex (\<lambda>a. dk_files k a \<noteq> None) ancestors then None
         else Some (k\<lparr>dk_dirs := ancestors @ dk_dirs k\<rparr>))"

definition unlink_source :: "path \<Rightarrow> disk \<Rightarrow> unit run \<times> disk" where
  "unlink_source p k = (case unlink_missing_ok p k of None \<Rightarrow> (Raised OSError, k) | Some k' \<Rightarrow> (Returned (), k'))"

definition relocate_file :: "move_faults \<Rightarrow> path \<Rightarrow> path \<Rightarrow> disk \<Rightarrow> unit run \<times> disk" where
  "relocate_file faults source_path target_path k =
     (case dk_files k source_path of
        None \<Rightarrow> (Raised OSError, k)
      | Some bytes \<Rightarrow>
         (case mf_replace faults of
            Replaced \<Rightarrow> (Returned (),
              k\<lparr>dk_files := (dk_files k)(source_path := None, target_path \<mapsto> bytes)\<rparr>)
          | ReplaceFails \<Rightarrow> (Raised OSError, k)
          | CrossDevice \<Rightarrow>
             (case mf_copy faults of
                Copied \<Rightarrow> unlink_source source_path (write_file target_path bytes k)
              | CopyFails part \<Rightarrow>
                  let k1 = write_file target_path part k in
                  (Raised OSError, case unlink_missing_ok target_path k1 of None \<Rightarrow> k1 | Some k2 \<Rightarrow> k2)
              | CopyKilled part \<Rightarrow> (Died, write_file target_path part k))))"

text \<open>Where the file goes; the destination must be a managed original root.\<close>

definition move_target ::
  "storage_env \<Rightarrow> string \<Rightarrow> string \<Rightarrow> string option \<Rightarrow> path option \<Rightarrow> storage_error + path" where
  "move_target env file_id extension relative_dir destination_root =
     (let ext = normalize_extension extension;
          target_root = (case destination_root of None \<Rightarrow> se_original env | Some r \<Rightarrow> r);
          target = (case relative_dir of
                      Some d \<Rightarrow> if d = [] then build_path target_root file_id ext
                                else path_join (target_root @ normalize_relative_dir d) (file_id @ ext)
                    | None \<Rightarrow> build_path target_root file_id ext)
      in case destination_root of
           None \<Rightarrow> Inr target
         | Some r \<Rightarrow>
             and_then (original_roots env) (\<lambda>roots.
             and_then (resolve env r) (\<lambda>rr.
             raise_if (rr \<notin> {q. \<exists>a\<in>set roots. se_real env a = Some q})
                (ValueError ''destination root is not an allowed original root'')
               (and_then (require_root_below_storage env r) (\<lambda>_. Inr target)))))"

definition move_to_storage ::
  "storage_env \<Rightarrow> move_faults \<Rightarrow> string \<Rightarrow> string \<Rightarrow> string \<Rightarrow> string option \<Rightarrow> path option
     \<Rightarrow> disk \<Rightarrow> path run \<times> disk" where
  "move_to_storage env faults incoming_path file_id extension relative_dir destination_root k =
     (case resolve_storage_path env incoming_path of
        Inl e \<Rightarrow> (Raised e, k)
      | Inr src \<Rightarrow>
         (case move_target env file_id extension relative_dir destination_root of
            Inl e \<Rightarrow> (Raised e, k)
          | Inr target_path \<Rightarrow>
             (let source_path = on_volume env src; target = on_volume env target_path in
              case make_dirs (butlast target) k of
                None \<Rightarrow> (Raised OSError, k)
              | Some k1 \<Rightarrow>
                 (case (if path_exists k1 target then unlink_source source_path k1
                        else relocate_file faults source_path target k1) of
                    (Returned _, k2) \<Rightarrow> (Returned target_path, k2)
                  | (Raised e, k2) \<Rightarrow> (Raised e, k2)
                  | (Died, k2) \<Rightarrow> (Died, k2)))))"

text \<open>Deleting a single incoming or losing original file; both accept a missing file.\<close>

definition delete_resolved :: "storage_env \<Rightarrow> storage_error + path \<Rightarrow> disk \<Rightarrow> (storage_error + unit) \<times> disk" where
  "delete_resolved env rp k =
     (case rp of Inl e \<Rightarrow> (Inl e, k)
      | Inr p \<Rightarrow> (case unlink_missing_ok (on_volume env p) k of None \<Rightarrow> (Inl OSError, k) | Some k' \<Rightarrow> (Inr (), k')))"

definition delete_incoming :: "storage_env \<Rightarrow> string \<Rightarrow> disk \<Rightarrow> (storage_error + unit) \<times> disk" where
  "delete_incoming env incoming_path = delete_resolved env (resolve_storage_path env incoming_path)"

definition delete_unreferenced_original :: "storage_env \<Rightarrow> string \<Rightarrow> disk \<Rightarrow> (storage_error + unit) \<times> disk" where
  "delete_unreferenced_original env original_path = delete_resolved env (resolve_original_path env original_path)"

section \<open>Properties of moving\<close>

lemma make_dirs_files: "make_dirs p k = Some k' \<Longrightarrow> dk_files k' = dk_files k \<and> dk_stuck k' = dk_stuck k"
  by (auto simp: make_dirs_def Let_def split: if_splits)

lemma unlink_source_files:
  assumes "unlink_source p k = (r, k')"
  shows "(\<forall>q. q \<noteq> p \<longrightarrow> dk_files k' q = dk_files k q) \<and>
    ((\<forall>u. r \<noteq> Returned u) \<longrightarrow> k' = k) \<and> (r = Returned () \<longrightarrow> p \<notin> set (dk_dirs k) \<longrightarrow> dk_files k' p = None)"
  using assms
  by (auto simp: unlink_source_def unlink_missing_ok_def unlink_def path_exists_def split: if_splits)

text \<open>What a move does to the two files concerned.\<close>

definition bytes_kept :: "path \<Rightarrow> path \<Rightarrow> disk \<Rightarrow> 'a run \<Rightarrow> disk \<Rightarrow> bool" where
  "bytes_kept s t k r k' \<longleftrightarrow>
     (case r of
        Returned _ \<Rightarrow> dk_files k' t = (if dk_files k t = None then dk_files k s else dk_files k t)
      | _ \<Rightarrow> dk_files k' s = dk_files k s)"

lemma relocate_bytes:
  assumes "relocate_file faults s t k = (r, k')" and "s \<noteq> t" and "dk_files k t = None"
  shows "bytes_kept s t k r k'"
proof (cases "dk_files k s")
  case None
  then show ?thesis using assms by (auto simp: relocate_file_def bytes_kept_def)
next
  case (Some bytes)
  show ?thesis
  proof (cases "mf_replace faults = CrossDevice \<and> mf_copy faults = Copied")
    case True
    then have "unlink_source s (write_file t bytes k) = (r, k')"
      using assms(1) Some by (simp add: relocate_file_def)
    from unlink_source_files[OF this] show ?thesis
      using assms Some by (cases r) (auto simp: bytes_kept_def write_file_def)
  next
    case False
    then show ?thesis using assms Some
      by (auto simp: relocate_file_def bytes_kept_def write_file_def unlink_missing_ok_def unlink_def Let_def
          split: replace_outcome.splits copy_outcome.splits if_splits)
  qed
qed


definition demo_upload :: disk where
  "demo_upload = \<lparr>dk_files = [[''/'', ''pp'', ''incoming'', ''u.jpg''] \<mapsto> ''bytes''], dk_dirs = [], dk_stuck = []\<rparr>"

lemmas move_eval = storage_eval demo_upload_def move_to_storage_def move_target_def build_path_def
  normalize_extension_def on_volume_def make_dirs_def relocate_file_def write_file_def unlink_source_def
  unlink_missing_ok_def lower_def lower_char_def is_upper_ascii_def

definition demo_across :: "copy_outcome \<Rightarrow> move_faults" where
  "demo_across c = \<lparr>mf_replace = CrossDevice, mf_copy = c\<rparr>"

lemma demo_paths:
  "resolve_storage_path demo_env ''incoming/u.jpg'' = Inr [''/'', ''pp'', ''incoming'', ''u.jpg'']"
  "move_target demo_env ''abcd'' ''jpg'' None None =
     Inr [''/'', ''pp'', ''original'', ''ab'', ''cd'', ''abcd.jpg'']"
  "on_volume demo_env [''/'', ''pp'', ''incoming'', ''u.jpg''] = [''/'', ''pp'', ''incoming'', ''u.jpg'']"
  "on_volume demo_env [''/'', ''pp'', ''original'', ''ab'', ''cd'', ''abcd.jpg''] =
     [''/'', ''pp'', ''original'', ''ab'', ''cd'', ''abcd.jpg'']"
  by (simp_all add: move_eval)


lemma make_dirs_again:
  assumes "make_dirs p k = Some k1" and "\<And>q. length q \<le> length p \<Longrightarrow> dk_files k2 q = dk_files k1 q"
  shows "\<exists>k3. make_dirs p k2 = Some k3 \<and> dk_files k3 = dk_files k2 \<and> dk_stuck k3 = dk_stuck k2 \<and>
    set (dk_dirs k3) \<subseteq> set (dk_dirs k1) \<union> set (dk_dirs k2)"
proof -
  let ?anc = "map (\<lambda>n. take n p) [1..<Suc (length p)]"
  have "\<not> list_ex (\<lambda>a. dk_files k2 a \<noteq> None) ?anc"
    using assms by (auto simp: make_dirs_def Let_def list_ex_iff simp del: upt_Suc split: if_splits)
  then show ?thesis using assms(1)
    by (auto simp: make_dirs_def Let_def simp del: upt_Suc split: if_splits)
qed

text \<open>
  What the previous property does not give: when the process dies during a copy across
  devices, the half-written target counts as the stored original from then on. The recovered
  job calls the mover again; it finds the target, removes the complete upload and reports
  success, and the rest of the bytes is gone.
\<close>

theorem interrupted_copy_loses_upload:
  assumes "resolve_storage_path env inc = Inr src" and "move_target env fid ext dir dest = Inr tgt"
    and "s = on_volume env src" and "t = on_volume env tgt" and "s \<noteq> t" and "t \<noteq> []"
    and "s \<notin> set (dk_dirs k)" and "s \<notin> set (dk_stuck k)"
    and "move_to_storage env (demo_across (CopyKilled part)) inc fid ext dir dest k = (Died, k1)"
  shows "\<exists>k2. move_to_storage env faults inc fid ext dir dest k1 = (Returned tgt, k2) \<and>
    dk_files k2 t = Some part \<and> dk_files k2 s = None"
proof -
  obtain k0 where k0: "make_dirs (butlast t) k = Some k0"
    using assms(1-4,9) by (auto simp: move_to_storage_def Let_def split: option.splits)
  note kept = make_dirs_files[OF k0]
  obtain bytes where bytes: "dk_files k s = Some bytes" and k1: "k1 = write_file t part k0"
    using assms(1-4,9) k0 kept
    by (auto simp: move_to_storage_def Let_def relocate_file_def demo_across_def unlink_source_def
        split: option.splits run.splits prod.splits if_splits)
  have "\<exists>k3. make_dirs (butlast t) k1 = Some k3 \<and> dk_files k3 = dk_files k1 \<and> dk_stuck k3 = dk_stuck k1 \<and>
      set (dk_dirs k3) \<subseteq> set (dk_dirs k0) \<union> set (dk_dirs k1)"
    using k0
  proof (rule make_dirs_again)
    fix q :: path assume "length q \<le> length (butlast t)"
    then have "q \<noteq> t" using assms(6) by (cases t rule: rev_cases) auto
    then show "dk_files k1 q = dk_files k0 q" by (simp add: k1 write_file_def)
  qed
  then obtain k3 where k3: "make_dirs (butlast t) k1 = Some k3" "dk_files k3 = dk_files k1"
      "dk_stuck k3 = dk_stuck k1" "set (dk_dirs k3) \<subseteq> set (dk_dirs k0) \<union> set (dk_dirs k1)" by blast
  have "s \<notin> set (dk_dirs k0)"
    using k0 assms(7) bytes by (auto simp: make_dirs_def Let_def list_ex_iff simp del: upt_Suc split: if_splits)
  then have "s \<notin> set (dk_dirs k3)" using k3(4) by (auto simp: k1 write_file_def)
  moreover have "path_exists k3 t" using k3(2) by (simp add: path_exists_def k1 write_file_def)
  moreover have "dk_files k3 s = Some bytes" "s \<notin> set (dk_stuck k3)"
    using k3 kept bytes assms(5,8) by (simp_all add: k1 write_file_def)
  ultimately show ?thesis using assms(1-5) k3(1,2)
    by (simp add: move_to_storage_def Let_def unlink_source_def unlink_missing_ok_def unlink_def path_exists_def k1 write_file_def)
qed

theorem interrupted_copy_loses_upload_witness:
  "\<exists>k1 k2. move_to_storage demo_env (demo_across (CopyKilled ''by'')) ''incoming/u.jpg'' ''abcd'' ''jpg''
        None None demo_upload = (Died, k1) \<and>
     move_to_storage demo_env (demo_across Copied) ''incoming/u.jpg'' ''abcd'' ''jpg'' None None k1 =
       (Returned [''/'', ''pp'', ''original'', ''ab'', ''cd'', ''abcd.jpg''], k2) \<and>
     dk_files k2 [''/'', ''pp'', ''original'', ''ab'', ''cd'', ''abcd.jpg''] = Some ''by'' \<and>
     dk_files k2 [''/'', ''pp'', ''incoming'', ''u.jpg''] = None"
proof -
  obtain k1 where k1: "move_to_storage demo_env (demo_across (CopyKilled ''by'')) ''incoming/u.jpg'' ''abcd''
      ''jpg'' None None demo_upload = (Died, k1)"
    by (simp add: move_to_storage_def demo_paths make_dirs_def relocate_file_def demo_across_def demo_upload_def
        path_exists_def upt_conv_Cons)
  have "\<exists>k2. move_to_storage demo_env (demo_across Copied) ''incoming/u.jpg'' ''abcd'' ''jpg'' None None k1 =
        (Returned [''/'', ''pp'', ''original'', ''ab'', ''cd'', ''abcd.jpg''], k2) \<and>
      dk_files k2 [''/'', ''pp'', ''original'', ''ab'', ''cd'', ''abcd.jpg''] = Some ''by'' \<and>
      dk_files k2 [''/'', ''pp'', ''incoming'', ''u.jpg''] = None"
    by (rule interrupted_copy_loses_upload[OF demo_paths(1,2) _ _ _ _ _ _ k1])
      (simp_all add: demo_paths demo_upload_def)
  then show ?thesis using k1 by (elim exE) (rule exI, rule exI, rule conjI, assumption, assumption)
qed

end
