(* ===== verification/PlateSolveJobs.thy ===== *)
theory PlateSolveJobs
  imports Tables QueueLaws
begin

text \<open>
  The persistent plate-solve queue: \<open>PlateSolveJobRepository\<close>
  (\<open>src/app/astrojournal/repositories/plate_solve_job_repository.py\<close>) over the rows of
  \<open>AstroPlateSolveJob\<close>. Every operation is one transaction; a \<open>SELECT ... FOR UPDATE\<close>
  serialises the writers of a row, and \<open>SKIP LOCKED\<close> makes a claim pass over the rows other
  sessions hold, the parameter \<open>locked\<close>. Operations that can miss their row return
  \<open>None\<close> and leave the table as it was.
\<close>

section \<open>Lookups\<close>

definition ps_get :: "string \<Rightarrow> ps_job list \<Rightarrow> ps_job option" where
  "ps_get job_id rows = find_row ps_id job_id rows"

definition ps_get_by_file :: "int \<Rightarrow> ps_job list \<Rightarrow> ps_job option" where
  "ps_get_by_file common_file_id rows = find_row ps_file common_file_id rows"

definition ps_owned_processing :: "string \<Rightarrow> string \<Rightarrow> ps_job list \<Rightarrow> ps_job option" where
  "ps_owned_processing job_id worker_id rows =
     List.find (\<lambda>j. ps_id j = job_id \<and> ps_status j = PROCESSING \<and> ps_worker j = Some worker_id) rows"

section \<open>Enqueue\<close>

definition ps_new_job :: "string \<Rightarrow> int \<Rightarrow> string option \<Rightarrow> time \<Rightarrow> ps_job" where
  "ps_new_job new_id common_file_id record_id now =
     \<lparr>ps_id = new_id, ps_file = common_file_id, ps_record = record_id, ps_status = WAITING,
      ps_attempts = 0, ps_provider = ''astrometry.net'', ps_submission = None,
      ps_provider_job = None, ps_worker = None, ps_lease = None, ps_started_at = None,
      ps_completed_at = None, ps_last_error = None, ps_ra = None, ps_dec = None,
      ps_rotation = None, ps_pixel_scale = None, ps_field_width = None, ps_field_height = None,
      ps_parity = None, ps_wcs = None, ps_created_at = now, ps_updated_at = now\<rparr>"

text \<open>
  \<open>stale\<close> says that the first lookup ran before another session committed a row for the
  same file; \<open>refs_ok\<close> that the foreign keys of the new row resolve. The primary key and
  the unique constraint on the file are checked by the INSERT, inside a savepoint.
\<close>

definition ps_insert_ok :: "bool \<Rightarrow> ps_job \<Rightarrow> ps_job list \<Rightarrow> bool" where
  "ps_insert_ok refs_ok j rows \<longleftrightarrow>
     refs_ok \<and> ps_id j \<notin> ps_id ` set rows \<and> ps_file j \<notin> ps_file ` set rows"

definition ps_enqueue ::
  "bool \<Rightarrow> bool \<Rightarrow> string \<Rightarrow> time \<Rightarrow> int \<Rightarrow> string option \<Rightarrow> ps_job list
     \<Rightarrow> db_error + (ps_job \<times> bool) \<times> ps_job list" where
  "ps_enqueue stale refs_ok new_id now common_file_id record_id rows =
     (case (if stale then None else ps_get_by_file common_file_id rows) of
        Some existing \<Rightarrow>
          if ps_record existing = None \<and> record_id \<noteq> None
          then let existing' = existing\<lparr>ps_record := record_id\<rparr>
               in Inr ((existing', False), save_row ps_id existing' rows)
          else Inr ((existing, False), rows)
      | None \<Rightarrow>
          let job = ps_new_job new_id common_file_id record_id now
          in if ps_insert_ok refs_ok job rows then Inr ((job, True), rows @ [job])
             else (case ps_get_by_file common_file_id rows of
                     None \<Rightarrow> Inl IntegrityError
                   | Some existing \<Rightarrow> Inr ((existing, False), rows)))"

section \<open>Claim and lease\<close>

definition ps_eligible :: "time \<Rightarrow> ps_job \<Rightarrow> bool" where
  "ps_eligible now j \<longleftrightarrow>
     ps_status j = WAITING \<or>
     (ps_status j = PROCESSING \<and> (case ps_lease j of None \<Rightarrow> True | Some expires \<Rightarrow> expires < now))"

definition ps_claimed :: "string \<Rightarrow> int \<Rightarrow> time \<Rightarrow> ps_job \<Rightarrow> ps_job" where
  "ps_claimed worker_id lease_seconds now j =
     j\<lparr>ps_status := PROCESSING,
       ps_attempts := (if ps_submission j = None \<and> ps_provider_job j = None
                       then ps_attempts j + 1 else ps_attempts j),
       ps_started_at := Some now,
       ps_completed_at := None,
       ps_last_error := None,
       ps_worker := Some worker_id,
       ps_lease := Some (now + seconds lease_seconds)\<rparr>"

definition ps_claim_next ::
  "string list \<Rightarrow> string \<Rightarrow> int \<Rightarrow> time \<Rightarrow> ps_job list \<Rightarrow> ps_job option \<times> ps_job list" where
  "ps_claim_next locked worker_id lease_seconds now rows =
     (case first_by (\<lambda>j. (ps_created_at j, ps_id j))
             (\<lambda>j. ps_eligible now j \<and> ps_id j \<notin> set locked) rows of
        None \<Rightarrow> (None, rows)
      | Some j \<Rightarrow> let job = ps_claimed worker_id lease_seconds now j
                  in (Some job, save_row ps_id job rows))"

definition ps_touch_lease :: "string \<Rightarrow> string \<Rightarrow> int \<Rightarrow> time \<Rightarrow> ps_job list \<Rightarrow> bool \<times> ps_job list" where
  "ps_touch_lease job_id worker_id lease_seconds now rows =
     (let hit = (\<lambda>j. ps_id j = job_id \<and> ps_status j = PROCESSING \<and> ps_worker j = Some worker_id)
      in (count_where hit rows = 1,
          update_where hit
            (\<lambda>j. j\<lparr>ps_lease := Some (now + seconds lease_seconds), ps_updated_at := now\<rparr>) rows))"

section \<open>Operations of the owner\<close>

text \<open>The shape they share: lock the row this worker is processing, or give up.\<close>

definition ps_with_owned ::
  "(ps_job \<Rightarrow> ps_job) \<Rightarrow> string \<Rightarrow> string \<Rightarrow> ps_job list \<Rightarrow> ps_job option \<times> ps_job list" where
  "ps_with_owned f job_id worker_id rows =
     (case ps_owned_processing job_id worker_id rows of
        None \<Rightarrow> (None, rows)
      | Some j \<Rightarrow> (Some (f j), save_row ps_id (f j) rows))"

definition ps_record_submission ::
  "int \<Rightarrow> string \<Rightarrow> string \<Rightarrow> ps_job list \<Rightarrow> ps_job option \<times> ps_job list" where
  "ps_record_submission submission_id =
     ps_with_owned (\<lambda>j. j\<lparr>ps_submission := Some submission_id\<rparr>)"

definition ps_record_provider_job ::
  "int \<Rightarrow> string \<Rightarrow> string \<Rightarrow> ps_job list \<Rightarrow> ps_job option \<times> ps_job list" where
  "ps_record_provider_job provider_job_id =
     ps_with_owned (\<lambda>j. j\<lparr>ps_provider_job := Some provider_job_id\<rparr>)"

definition ps_record_replacement ::
  "int \<Rightarrow> string \<Rightarrow> string \<Rightarrow> ps_job list \<Rightarrow> ps_job option \<times> ps_job list" where
  "ps_record_replacement submission_id =
     ps_with_owned (\<lambda>j. j\<lparr>ps_submission := Some submission_id, ps_provider_job := None,
                          ps_wcs := None, ps_attempts := ps_attempts j + 1\<rparr>)"

definition ps_mark_retryable ::
  "string \<Rightarrow> string \<Rightarrow> string \<Rightarrow> ps_job list \<Rightarrow> ps_job option \<times> ps_job list" where
  "ps_mark_retryable error_message =
     ps_with_owned (\<lambda>j. j\<lparr>ps_status := WAITING, ps_started_at := None, ps_completed_at := None,
                          ps_last_error := Some error_message, ps_worker := None, ps_lease := None\<rparr>)"

text \<open>
  The provider result, a dictionary in the source: its job id, the seven numeric fields, and
  the value under \<open>wcs\<close>, stored only if it is an object.
\<close>

record provider_result =
  pr_job :: "int option"
  pr_ra :: "real option"
  pr_dec :: "real option"
  pr_rotation :: "real option"
  pr_pixel_scale :: "real option"
  pr_field_width :: "real option"
  pr_field_height :: "real option"
  pr_parity :: "real option"
  pr_wcs :: "json option"

definition json_object :: "json option \<Rightarrow> json option" where
  "json_object v = (case v of Some (JObj members) \<Rightarrow> Some (JObj members) | _ \<Rightarrow> None)"

definition ps_completed :: "provider_result \<Rightarrow> time \<Rightarrow> ps_job \<Rightarrow> ps_job" where
  "ps_completed provider now j =
     j\<lparr>ps_status := COMPLETED,
       ps_provider_job := pr_job provider,
       ps_ra := pr_ra provider, ps_dec := pr_dec provider, ps_rotation := pr_rotation provider,
       ps_pixel_scale := pr_pixel_scale provider, ps_field_width := pr_field_width provider,
       ps_field_height := pr_field_height provider, ps_parity := pr_parity provider,
       ps_wcs := json_object (pr_wcs provider),
       ps_completed_at := Some now, ps_last_error := None, ps_worker := None, ps_lease := None\<rparr>"

definition ps_mark_completed ::
  "provider_result \<Rightarrow> time \<Rightarrow> string \<Rightarrow> string \<Rightarrow> ps_job list \<Rightarrow> ps_job option \<times> ps_job list" where
  "ps_mark_completed provider now = ps_with_owned (ps_completed provider now)"

definition ps_mark_failed ::
  "string \<Rightarrow> time \<Rightarrow> string \<Rightarrow> string \<Rightarrow> ps_job list \<Rightarrow> ps_job option \<times> ps_job list" where
  "ps_mark_failed error_message now =
     ps_with_owned (\<lambda>j. j\<lparr>ps_status := FAILED, ps_completed_at := Some now,
                          ps_last_error := Some error_message, ps_worker := None, ps_lease := None\<rparr>)"

section \<open>Operations of the service\<close>

definition ps_requeued :: "ps_job \<Rightarrow> ps_job" where
  "ps_requeued j =
     j\<lparr>ps_status := WAITING, ps_ra := None, ps_dec := None, ps_rotation := None,
       ps_pixel_scale := None, ps_field_width := None, ps_field_height := None,
       ps_parity := None, ps_wcs := None, ps_started_at := None, ps_completed_at := None,
       ps_last_error := None, ps_worker := None, ps_lease := None\<rparr>"

definition ps_retry :: "ps_job \<Rightarrow> ps_job list \<Rightarrow> ps_job \<times> ps_job list" where
  "ps_retry job rows = (ps_requeued job, save_row ps_id (ps_requeued job) rows)"

definition ps_fail_waiting_for_file ::
  "int \<Rightarrow> string \<Rightarrow> time \<Rightarrow> ps_job list \<Rightarrow> ps_job option \<times> ps_job list" where
  "ps_fail_waiting_for_file common_file_id error_message now rows =
     (case ps_get_by_file common_file_id rows of
        None \<Rightarrow> (None, rows)
      | Some j \<Rightarrow>
          if ps_status j \<noteq> WAITING then (None, rows)
          else let job = j\<lparr>ps_status := FAILED, ps_completed_at := Some now,
                           ps_last_error := Some error_message\<rparr>
               in (Some job, save_row ps_id job rows))"

text \<open>\<open>PlateSolveJobStatus.ALL\<close>; rows with another status are not counted.\<close>

definition ps_all_statuses :: "job_status list" where
  "ps_all_statuses = [WAITING, PROCESSING, COMPLETED, FAILED]"

definition ps_count_by_status :: "ps_job list \<Rightarrow> (job_status \<times> nat) list" where
  "ps_count_by_status rows =
     map (\<lambda>s. (s, count_where (\<lambda>j. ps_status j = s) rows)) ps_all_statuses"

section \<open>Well-formed rows\<close>

definition ps_unsolved :: "ps_job \<Rightarrow> bool" where
  "ps_unsolved j \<longleftrightarrow> ps_ra j = None \<and> ps_dec j = None \<and> ps_rotation j = None \<and>
     ps_pixel_scale j = None \<and> ps_field_width j = None \<and> ps_field_height j = None \<and>
     ps_parity j = None \<and> ps_wcs j = None"

definition ps_row_ok :: "ps_job \<Rightarrow> bool" where
  "ps_row_ok j \<longleftrightarrow>
     ps_status j \<in> set ps_all_statuses \<and>
     (ps_status j = PROCESSING \<longrightarrow> ps_worker j \<noteq> None \<and> ps_lease j \<noteq> None \<and> ps_started_at j \<noteq> None
        \<and> ps_completed_at j = None \<and> ps_last_error j = None \<and> 1 \<le> ps_attempts j) \<and>
     (ps_status j \<noteq> PROCESSING \<longrightarrow> ps_worker j = None \<and> ps_lease j = None) \<and>
     (ps_status j = WAITING \<longrightarrow> ps_started_at j = None \<and> ps_completed_at j = None) \<and>
     (ps_status j \<in> {COMPLETED, FAILED} \<longrightarrow> ps_completed_at j \<noteq> None) \<and>
     (ps_status j \<noteq> COMPLETED \<longrightarrow> ps_unsolved j) \<and>
     0 \<le> ps_attempts j \<and>
     (ps_submission j \<noteq> None \<or> ps_provider_job j \<noteq> None \<longrightarrow> 1 \<le> ps_attempts j)"

section \<open>The table as a machine\<close>

text \<open>
  Every repository call that writes, as the queue service and the worker issue it: the service
  requeues a job only after it has read it as FAILED.
\<close>

datatype ps_op =
    PsEnqueue bool bool string time int "string option"
  | PsClaim "string list" string int time
  | PsTouch string string int time
  | PsSubmission int string string
  | PsProviderJob int string string
  | PsReplacement int string string
  | PsRetryable string string string
  | PsComplete provider_result time string string
  | PsFail string time string string
  | PsRetry string
  | PsFailWaiting int string time

fun ps_step :: "ps_op \<Rightarrow> ps_job list \<Rightarrow> ps_job list" where
  "ps_step (PsEnqueue stale refs_ok new_id now fid rid) rows =
     (case ps_enqueue stale refs_ok new_id now fid rid rows of Inl _ \<Rightarrow> rows | Inr (_, rows') \<Rightarrow> rows')"
| "ps_step (PsClaim locked w lease now) rows = snd (ps_claim_next locked w lease now rows)"
| "ps_step (PsTouch jid w lease now) rows = snd (ps_touch_lease jid w lease now rows)"
| "ps_step (PsSubmission sid jid w) rows = snd (ps_record_submission sid jid w rows)"
| "ps_step (PsProviderJob pid jid w) rows = snd (ps_record_provider_job pid jid w rows)"
| "ps_step (PsReplacement sid jid w) rows = snd (ps_record_replacement sid jid w rows)"
| "ps_step (PsRetryable msg jid w) rows = snd (ps_mark_retryable msg jid w rows)"
| "ps_step (PsComplete provider now jid w) rows = snd (ps_mark_completed provider now jid w rows)"
| "ps_step (PsFail msg now jid w) rows = snd (ps_mark_failed msg now jid w rows)"
| "ps_step (PsRetry jid) rows =
     (case ps_get jid rows of
        None \<Rightarrow> rows
      | Some j \<Rightarrow> if ps_status j = FAILED then snd (ps_retry j rows) else rows)"
| "ps_step (PsFailWaiting fid msg now) rows = snd (ps_fail_waiting_for_file fid msg now rows)"

text \<open>The transitions of the status column.\<close>

inductive ps_edge :: "job_status \<Rightarrow> job_status \<Rightarrow> bool" where
  stay: "ps_edge s s"
| claim: "ps_edge WAITING PROCESSING"
| give_up: "ps_edge WAITING FAILED"
| release: "ps_edge PROCESSING WAITING"
| finish: "ps_edge PROCESSING COMPLETED"
| fail: "ps_edge PROCESSING FAILED"
| requeue: "ps_edge FAILED WAITING"

inductive_simps ps_edge_from [simp]:
  "ps_edge WAITING s" "ps_edge PROCESSING s" "ps_edge COMPLETED s" "ps_edge FAILED s"

lemma ps_edge_refl [simp]: "ps_edge s s"
  by (rule ps_edge.stay)

definition ps_moves :: "ps_job \<Rightarrow> ps_job \<Rightarrow> bool" where
  "ps_moves a b \<longleftrightarrow>
     ps_id b = ps_id a \<and> ps_file b = ps_file a \<and> ps_created_at b = ps_created_at a \<and>
     ps_attempts a \<le> ps_attempts b \<and> ps_edge (ps_status a) (ps_status b) \<and>
     (ps_record a \<noteq> None \<longrightarrow> ps_record b = ps_record a) \<and>
     (ps_status a = COMPLETED \<longrightarrow> b = a\<lparr>ps_record := ps_record b\<rparr>)"

lemma ps_moves_refl [simp]: "ps_moves j j"
  by (simp add: ps_moves_def)

text \<open>
  Each operation either leaves the table alone, appends a new well-formed row, or replaces
  one row by a well-formed row it may move to.
\<close>

definition ps_local :: "ps_job list \<Rightarrow> ps_job list \<Rightarrow> bool" where
  "ps_local rows rows' \<longleftrightarrow>
     rows' = rows \<or>
     (\<exists>j. rows' = rows @ [j] \<and> ps_row_ok j \<and> ps_id j \<notin> ps_id ` set rows \<and> ps_file j \<notin> ps_file ` set rows) \<or>
     (\<exists>j\<in>set rows. \<exists>j'. rows' = save_row ps_id j' rows \<and> ps_row_ok j' \<and> ps_moves j j')"

lemma ps_local_refl [simp]: "ps_local rows rows"
  by (simp add: ps_local_def)

lemma ps_local_save:
  "j \<in> set rows \<Longrightarrow> ps_row_ok j' \<Longrightarrow> ps_moves j j' \<Longrightarrow> ps_local rows (save_row ps_id j' rows)"
  by (auto simp: ps_local_def)

lemma ps_owned_dest [table_dests]:
  "ps_owned_processing jid w rows = Some j \<Longrightarrow>
     j \<in> set rows \<and> ps_id j = jid \<and> ps_status j = PROCESSING \<and> ps_worker j = Some w"
  unfolding ps_owned_processing_def by (drule find_SomeD) auto

lemma ps_with_owned_local:
  assumes "\<And>j. j \<in> set rows \<Longrightarrow> ps_row_ok j"
    and "\<And>j. ps_row_ok j \<Longrightarrow> ps_status j = PROCESSING \<Longrightarrow> ps_row_ok (f j) \<and> ps_moves j (f j)"
  shows "ps_local rows (snd (ps_with_owned f jid w rows))"
  using assms by (auto simp: ps_with_owned_def intro!: ps_local_save dest!: ps_owned_dest split: option.splits)

lemmas ps_owner_defs = ps_record_submission_def ps_record_provider_job_def ps_record_replacement_def
  ps_mark_retryable_def ps_mark_completed_def ps_mark_failed_def ps_completed_def

lemmas ps_row_defs = ps_row_ok_def ps_moves_def ps_unsolved_def ps_all_statuses_def

lemma ps_touch_lease_hit:
  assumes "distinct (map ps_id rows)"
  shows "ps_touch_lease jid w lease now rows =
    (ps_owned_processing jid w rows \<noteq> None,
     snd (ps_with_owned (\<lambda>j. j\<lparr>ps_lease := Some (now + seconds lease), ps_updated_at := now\<rparr>) jid w rows))"
  unfolding ps_touch_lease_def ps_with_owned_def ps_owned_processing_def Let_def
  by (subst count_where_pk[OF assms, of _ jid], simp)
    (subst update_where_pk[OF assms, of _ jid], auto split: option.splits)

lemma ps_enqueue_local:
  assumes "ps_enqueue stale refs_ok nid now fid rid rows = Inr (res, rows')"
    and "\<And>j. j \<in> set rows \<Longrightarrow> ps_row_ok j"
  shows "ps_local rows rows'"
proof (cases "if stale then None else ps_get_by_file fid rows")
  case None
  have "ps_row_ok (ps_new_job nid fid rid now)"
    by (simp add: ps_new_job_def ps_row_defs)
  with None assms show ?thesis
    by (auto simp: ps_enqueue_def Let_def ps_local_def ps_insert_ok_def split: if_splits option.splits)
next
  case (Some j)
  then have "j \<in> set rows" by (auto simp: ps_get_by_file_def dest: find_row_SomeD split: if_splits)
  moreover from this assms(2) have "ps_row_ok (j\<lparr>ps_record := rid\<rparr>)"
    by (simp add: ps_row_defs)
  ultimately show ?thesis using Some assms
    by (auto simp: ps_enqueue_def Let_def ps_moves_def intro!: ps_local_save split: if_splits)
qed

lemma ps_claim_local:
  assumes "\<And>j. j \<in> set rows \<Longrightarrow> ps_row_ok j"
  shows "ps_local rows (snd (ps_claim_next locked w lease now rows))"
proof (cases "first_by (\<lambda>j. (ps_created_at j, ps_id j)) (\<lambda>j. ps_eligible now j \<and> ps_id j \<notin> set locked) rows")
  case (Some j)
  then have j: "j \<in> set rows" "ps_eligible now j" by (auto dest: first_by_SomeD)
  then have "ps_row_ok (ps_claimed w lease now j) \<and> ps_moves j (ps_claimed w lease now j)"
    using assms by (auto simp: ps_row_defs ps_claimed_def ps_eligible_def)
  with Some j show ?thesis by (auto simp: ps_claim_next_def Let_def intro: ps_local_save)
qed (simp add: ps_claim_next_def)

lemma ps_retry_local:
  assumes "ps_get jid rows = Some j" and "ps_status j = FAILED" and "\<And>j. j \<in> set rows \<Longrightarrow> ps_row_ok j"
  shows "ps_local rows (snd (ps_retry j rows))"
proof -
  have "j \<in> set rows" using assms(1) by (auto simp: ps_get_def dest: find_row_SomeD)
  moreover from this have "ps_row_ok j" by (rule assms(3))
  then have "ps_row_ok (ps_requeued j) \<and> ps_moves j (ps_requeued j)"
    using assms(2) by (simp add: ps_row_defs ps_requeued_def)
  ultimately show ?thesis by (auto simp: ps_retry_def intro: ps_local_save)
qed

lemma ps_fail_waiting_local:
  assumes "\<And>j. j \<in> set rows \<Longrightarrow> ps_row_ok j"
  shows "ps_local rows (snd (ps_fail_waiting_for_file fid msg now rows))"
proof (cases "ps_get_by_file fid rows")
  case (Some j)
  then have j: "j \<in> set rows" by (auto simp: ps_get_by_file_def dest: find_row_SomeD)
  then have "ps_row_ok j" by (rule assms)
  with Some j show ?thesis
    by (simp add: ps_fail_waiting_for_file_def Let_def)
      (intro impI ps_local_save, assumption, simp_all add: ps_row_defs)
qed (simp add: ps_fail_waiting_for_file_def)

lemma ps_step_local:
  assumes "distinct (map ps_id rows)" and "\<And>j. j \<in> set rows \<Longrightarrow> ps_row_ok j"
  shows "ps_local rows (ps_step op rows)"
proof (cases op)
  case (PsEnqueue stale refs_ok nid now fid rid)
  then show ?thesis
    using ps_enqueue_local[OF _ assms(2)] by (auto split: sum.splits)
next
  case (PsClaim locked w lease now)
  then show ?thesis using ps_claim_local[OF assms(2)] by simp
next
  case (PsTouch jid w lease now)
  then show ?thesis
    by (simp add: ps_touch_lease_hit[OF assms(1)]) (rule ps_with_owned_local[OF assms(2)]; simp add: ps_row_defs)
next
  case (PsRetry jid)
  then show ?thesis using ps_retry_local[OF _ _ assms(2)] by (auto split: option.splits)
next
  case (PsFailWaiting fid msg now)
  then show ?thesis using ps_fail_waiting_local[OF assms(2)] by simp
qed (simp_all add: ps_owner_defs, (rule ps_with_owned_local[OF assms(2)]; simp add: ps_row_defs ps_completed_def)+)

section \<open>The contracts\<close>

lemma ps_local_distinct:
  assumes "ps_local rows rows'" and "distinct (map ps_id rows)"
  shows "distinct (map ps_id rows') \<and> (distinct (map ps_file rows) \<longrightarrow> distinct (map ps_file rows'))"
proof -
  consider "rows' = rows"
    | j where "rows' = rows @ [j]" "ps_id j \<notin> ps_id ` set rows" "ps_file j \<notin> ps_file ` set rows"
    | j j' where "j \<in> set rows" "rows' = save_row ps_id j' rows" "ps_moves j j'"
    using assms(1) by (auto simp: ps_local_def)
  then show ?thesis
  proof cases
    case 3
    then have "map ps_file rows' = map ps_file rows"
      using map_save_row[OF assms(2) 3(1), of j' ps_file] by (simp add: ps_moves_def)
    with 3 assms(2) show ?thesis by simp
  qed (use assms(2) in auto)
qed

lemma ps_local_ok:
  "ps_local rows rows' \<Longrightarrow> (\<And>j. j \<in> set rows \<Longrightarrow> ps_row_ok j) \<Longrightarrow> j \<in> set rows' \<Longrightarrow> ps_row_ok j"
  by (auto simp: ps_local_def dest: set_save_rowD)

lemma ps_local_moves:
  assumes "ps_local rows rows'" and "distinct (map ps_id rows)" and "r \<in> set rows"
  shows "\<exists>r'\<in>set rows'. ps_id r' = ps_id r \<and> ps_moves r r'"
proof -
  consider "rows' = rows" | j where "rows' = rows @ [j]"
    | j j' where "j \<in> set rows" "rows' = save_row ps_id j' rows" "ps_moves j j'"
    using assms(1) by (auto simp: ps_local_def)
  then show ?thesis
  proof cases
    case 3
    then have "ps_id j' = ps_id j" by (simp add: ps_moves_def)
    show ?thesis
    proof (cases "ps_id r = ps_id j")
      case True
      then have "r = j" using 3(1) assms(2,3) by (auto simp: distinct_map inj_on_def)
      with 3 \<open>ps_id j' = ps_id j\<close> show ?thesis by (auto simp: set_save_row image_iff)
    next
      case False
      with 3 \<open>ps_id j' = ps_id j\<close> assms(3) show ?thesis
        by (intro bexI[of _ r]) (auto simp: set_save_row)
    qed
  qed (use assms(3) in auto)
qed

interpretation psm: row_machine ps_step ps_id ps_row_ok ps_moves
proof
  fix rows :: "ps_job list" and op r r'
  assume d: "distinct (map ps_id rows)" and ok: "\<And>r. r \<in> set rows \<Longrightarrow> ps_row_ok r"
  note l = ps_step_local[OF d ok]
  show "distinct (map ps_id (ps_step op rows))" using ps_local_distinct[OF l d] by blast
  show "r' \<in> set (ps_step op rows) \<Longrightarrow> ps_row_ok r'" using ps_local_ok[OF l ok] .
  show "r \<in> set rows \<Longrightarrow> \<exists>r'\<in>set (ps_step op rows). ps_id r' = ps_id r \<and> ps_moves r r'"
    using ps_local_moves[OF l d] .
qed

lemma ps_run_files:
  assumes "psm.table_ok rows" and "distinct (map ps_file rows)"
  shows "distinct (map ps_file (fold ps_step ops rows))"
  using assms
proof (induction ops arbitrary: rows)
  case (Cons op ops)
  have "ps_local rows (ps_step op rows)" and d: "distinct (map ps_id rows)"
    using Cons.prems(1) by (auto simp: psm.table_ok_def intro: ps_step_local)
  then have "distinct (map ps_file (ps_step op rows))" using ps_local_distinct Cons.prems(2) by blast
  with Cons show ?case by (simp add: psm.step_table_ok)
qed simp

text \<open>
  The claim is the work queue's: its context is the rows other sessions have locked, the
  worker, the lease and the time; its rank is the order of arrival.
\<close>

definition ps_rank :: "ps_job \<Rightarrow> time \<times> string" where
  "ps_rank j = (ps_created_at j, ps_id j)"

definition ps_claim :: "string list \<times> string \<times> int \<times> time \<Rightarrow> ps_job list \<Rightarrow> ps_job option \<times> ps_job list" where
  "ps_claim = (\<lambda>(locked, w, lease, now). ps_claim_next locked w lease now)"

definition ps_claimable :: "string list \<times> string \<times> int \<times> time \<Rightarrow> ps_job \<Rightarrow> bool" where
  "ps_claimable = (\<lambda>(locked, w, lease, now) j. ps_eligible now j \<and> ps_id j \<notin> set locked)"

lemma ps_claimed_key [simp]:
  "ps_id (ps_claimed w lease now j) = ps_id j" "ps_created_at (ps_claimed w lease now j) = ps_created_at j"
  "ps_status (ps_claimed w lease now j) = PROCESSING"
  "ps_worker (ps_claimed w lease now j) = Some w"
  "ps_lease (ps_claimed w lease now j) = Some (now + seconds lease)"
  by (simp_all add: ps_claimed_def)

interpretation psq: claim_queue ps_claim ps_id ps_claimable ps_rank
proof
  fix ctx :: "string list \<times> string \<times> int \<times> time" and rows rows' j
  obtain locked w lease now where ctx: "ctx = (locked, w, lease, now)" by (cases ctx)
  let ?first = "first_by (\<lambda>j. (ps_created_at j, ps_id j)) (\<lambda>j. ps_eligible now j \<and> ps_id j \<notin> set locked) rows"
  show "rows' = rows \<and> (\<forall>r\<in>set rows. \<not> ps_claimable ctx r)" if "ps_claim ctx rows = (None, rows')"
    using that by (auto simp: ctx ps_claim_def ps_claimable_def ps_claim_next_def Let_def first_by_None_iff
        split: option.splits)
  show "\<exists>r\<in>set rows. ps_id j = ps_id r \<and> ps_rank j = ps_rank r \<and> ps_claimable ctx r \<and>
      (\<forall>x\<in>set rows. ps_claimable ctx x \<longrightarrow> ps_rank r \<le> ps_rank x) \<and> rows' = save_row ps_id j rows"
    if claim: "ps_claim ctx rows = (Some j, rows')"
  proof -
    obtain r where r: "?first = Some r" "j = ps_claimed w lease now r" "rows' = save_row ps_id j rows"
      using claim by (auto simp: ctx ps_claim_def ps_claim_next_def Let_def split: option.splits)
    then show ?thesis
      using first_by_SomeD[OF r(1)] by (intro bexI[of _ r]) (auto simp: ctx ps_rank_def ps_claimable_def)
  qed
qed

lemma ps_claim_next_Some:
  assumes "ps_claim_next locked w lease now rows = (Some j, rows')"
  shows "ps_status j = PROCESSING \<and> ps_worker j = Some w \<and> ps_lease j = Some (now + seconds lease)"
  using assms by (auto simp: ps_claim_next_def Let_def split: option.splits)

section \<open>Properties\<close>

text \<open>
  C6. The plate-solve queue stays well-formed whatever the sessions do: after any sequence of
  repository operations, by any workers and at any times, from an empty table, the job ids
  and the file ids are unique, a PROCESSING row has an owner, a lease and at least one
  attempt, a row in another state has no owner, and only a COMPLETED row carries a solution.
\<close>

theorem ps_queue_invariant:
  "distinct (map ps_id (fold ps_step ops [])) \<and> distinct (map ps_file (fold ps_step ops [])) \<and>
   list_all ps_row_ok (fold ps_step ops [])"
  using psm.run_from_empty[of ops] ps_run_files[of "[]" ops]
  by (simp add: psm.table_ok_def list_all_iff)

text \<open>
  A solved job is final: once a row of a well-formed table is COMPLETED, the row with its
  id is COMPLETED with the same solution, attempts and completion time after any later
  operations; only a missing link to the observation record may still be filled in.
\<close>

theorem ps_completed_final:
  assumes "distinct (map ps_id rows)" and "list_all ps_row_ok rows"
    and "j \<in> set rows" and "ps_status j = COMPLETED"
  shows "\<exists>j'\<in>set (fold ps_step ops rows). j' = j\<lparr>ps_record := ps_record j'\<rparr>"
proof -
  have "psm.table_ok rows" using assms(1,2) by (simp add: psm.table_ok_def list_all_iff)
  then have "\<exists>j'\<in>set (fold ps_step ops rows). ps_id j' = ps_id j \<and>
      (ps_status j' = COMPLETED \<and> j' = j\<lparr>ps_record := ps_record j'\<rparr>)"
    by (rule psm.run_stable[OF _ assms(3)]) (use assms(4) in \<open>auto simp: ps_moves_def\<close>)
  then show ?thesis by blast
qed

definition ps_demo_result :: provider_result where
  "ps_demo_result = \<lparr>pr_job = Some 9, pr_ra = Some 83, pr_dec = Some (- 5), pr_rotation = None,
     pr_pixel_scale = None, pr_field_width = None, pr_field_height = None, pr_parity = None,
     pr_wcs = Some (JObj [])\<rparr>"

definition ps_demo_ops :: "ps_op list" where
  "ps_demo_ops = [PsEnqueue False True ''a'' 10 7 None, PsEnqueue False True ''b'' 20 8 None,
     PsClaim [] ''w1'' 60 30, PsSubmission 5 ''a'' ''w1'', PsComplete ps_demo_result 40 ''a'' ''w1'']"

lemmas ps_eval = ps_demo_ops_def ps_demo_result_def ps_enqueue_def ps_get_by_file_def ps_get_def
  ps_new_job_def ps_insert_ok_def ps_claim_next_def first_by_def order_by_def first_row_def
  ps_eligible_def ps_claimed_def ps_owner_defs ps_with_owned_def ps_owned_processing_def
  save_row_def seconds_def json_object_def Let_def ps_requeued_def ps_retry_def

theorem ps_completed_final_witness:
  "\<exists>j'\<in>set (fold ps_step [PsClaim [] ''w2'' 60 50, PsRetry ''a''] (fold ps_step ps_demo_ops [])).
     j' = (hd (fold ps_step ps_demo_ops []))\<lparr>ps_record := ps_record j'\<rparr>"
proof (rule ps_completed_final)
  show "distinct (map ps_id (fold ps_step ps_demo_ops []))"
    and "list_all ps_row_ok (fold ps_step ps_demo_ops [])"
    using psm.run_from_empty[of ps_demo_ops] by (simp_all add: psm.table_ok_def list_all_iff)
  show "hd (fold ps_step ps_demo_ops []) \<in> set (fold ps_step ps_demo_ops [])"
    and "ps_status (hd (fold ps_step ps_demo_ops [])) = COMPLETED"
    by (simp_all add: ps_eval)
qed

text \<open>
  C7. Two workers never process the same job: after a claim, another claim made before the
  lease has run out returns a different job, and both rows are then PROCESSING for their own
  worker.
\<close>

theorem ps_claim_exclusive:
  assumes "distinct (map ps_id rows)"
    and "ps_claim_next locked1 w1 lease1 t1 rows = (Some j1, rows1)"
    and "ps_claim_next locked2 w2 lease2 t2 rows1 = (Some j2, rows2)"
    and "t2 \<le> t1 + seconds lease1"
  shows "ps_id j2 \<noteq> ps_id j1 \<and> ps_get (ps_id j1) rows2 = Some j1 \<and> ps_get (ps_id j2) rows2 = Some j2 \<and>
    ps_status j1 = PROCESSING \<and> ps_worker j1 = Some w1 \<and>
    ps_status j2 = PROCESSING \<and> ps_worker j2 = Some w2"
proof -
  let ?c1 = "(locked1, w1, lease1, t1)" and ?c2 = "(locked2, w2, lease2, t2)"
  have c1: "ps_claim ?c1 rows = (Some j1, rows1)" and c2: "ps_claim ?c2 rows1 = (Some j2, rows2)"
    using assms(2,3) by (simp_all add: ps_claim_def)
  have owner: "ps_status j1 = PROCESSING \<and> ps_worker j1 = Some w1 \<and> ps_lease j1 = Some (t1 + seconds lease1)"
    "ps_status j2 = PROCESSING \<and> ps_worker j2 = Some w2"
    using ps_claim_next_Some assms(2,3) by blast+
  then have "\<not> ps_claimable ?c2 j1" using assms(4) by (simp add: ps_claimable_def ps_eligible_def)
  then have neq: "ps_id j2 \<noteq> ps_id j1" by (rule psq.claim_exclusive[OF assms(1) c1 c2])
  then show ?thesis
    using psq.claim_others_kept[OF c2, of "ps_id j1"] psq.claim_returns_row[OF c1]
      psq.claim_returns_row[OF c2] owner by (simp add: ps_get_def)
qed

lemma ps_claim_exclusive_witness:
  "\<exists>j1 j2 rows1 rows2.
     ps_claim_next [] ''w1'' 60 30 (fold ps_step (take 2 ps_demo_ops) []) = (Some j1, rows1) \<and>
     ps_claim_next [] ''w2'' 60 50 rows1 = (Some j2, rows2) \<and> ps_id j2 \<noteq> ps_id j1"
proof -
  let ?rows = "fold ps_step (take 2 ps_demo_ops) []"
  obtain j1 rows1 where 1: "ps_claim_next [] ''w1'' 60 30 ?rows = (Some j1, rows1)"
    by (simp add: ps_eval)
  then obtain j2 rows2 where 2: "ps_claim_next [] ''w2'' 60 50 rows1 = (Some j2, rows2)"
    by (auto simp: ps_eval)
  have "distinct (map ps_id ?rows)"
    using psm.run_from_empty[of "take 2 ps_demo_ops"] by (simp add: psm.table_ok_def)
  from ps_claim_exclusive[OF this 1 2] show ?thesis using 1 2 by (auto simp: seconds_def)
qed

text \<open>
  Claims are served in order of arrival: the claim returns the eligible, unlocked job with
  the least creation time (ties broken by id), and it comes back empty only when no row is
  waiting or abandoned.
\<close>

theorem ps_claim_fifo:
  assumes "ps_claim_next locked w lease now rows = (res, rows')"
  shows "(case res of
      None \<Rightarrow> rows' = rows \<and> (\<forall>x\<in>set rows. \<not> ps_eligible now x \<or> ps_id x \<in> set locked)
    | Some j \<Rightarrow> \<exists>r\<in>set rows. j = ps_claimed w lease now r \<and> ps_eligible now r \<and> ps_id r \<notin> set locked \<and>
        (\<forall>x\<in>set rows. ps_eligible now x \<and> ps_id x \<notin> set locked \<longrightarrow>
           (ps_created_at r, ps_id r) \<le> (ps_created_at x, ps_id x)))"
proof (cases res)
  case None
  then show ?thesis
    using assms psq.claim_None[of "(locked, w, lease, now)" rows rows']
    by (auto simp: ps_claim_def ps_claimable_def)
next
  case (Some j)
  then obtain r where "first_by (\<lambda>j. (ps_created_at j, ps_id j))
      (\<lambda>j. ps_eligible now j \<and> ps_id j \<notin> set locked) rows = Some r" "j = ps_claimed w lease now r"
    using assms by (auto simp: ps_claim_next_def Let_def split: option.splits)
  from first_by_SomeD[OF this(1)] this(2) Some show ?thesis by auto
qed

theorem ps_claim_fifo_witness:
  "\<exists>res rows'. ps_claim_next [''a''] ''w'' 60 30 (fold ps_step (take 2 ps_demo_ops) []) = (res, rows') \<and>
    (\<exists>j. res = Some j \<and> ps_id j = ''b'' \<and>
       (\<exists>r\<in>set (fold ps_step (take 2 ps_demo_ops) []). j = ps_claimed ''w'' 60 30 r))"
proof -
  obtain j rows' where c: "ps_claim_next [''a''] ''w'' 60 30 (fold ps_step (take 2 ps_demo_ops) []) = (Some j, rows')"
    and "ps_id j = ''b''"
    by (simp add: ps_eval)
  then show ?thesis using ps_claim_fifo[OF c] by fastforce
qed

text \<open>
  Provider work survives failures: requeueing a transient failure and retrying a failed
  job keep the submission and provider job ids, and the next claim then resumes that work
  without charging an attempt; only a claim of a job that has no provider id charges one.
\<close>

theorem ps_resume_keeps_attempts:
  assumes "distinct (map ps_id rows)"
    and "(\<exists>msg. ps_mark_retryable msg jid w rows = (Some j, rows1)) \<or>
         (\<exists>old. ps_get jid rows = Some old \<and> ps_status old = FAILED \<and> ps_retry old rows = (j, rows1))"
    and "ps_claim_next locked w' lease now rows1 = (Some j', rows2)" and "ps_id j' = jid"
  shows "\<exists>old. ps_get jid rows = Some old \<and> ps_submission j' = ps_submission old \<and>
    ps_provider_job j' = ps_provider_job old \<and>
    ps_attempts j' = ps_attempts old +
      (if ps_submission old = None \<and> ps_provider_job old = None then 1 else 0)"
proof -
  obtain old where old: "ps_get jid rows = Some old" and rows1: "rows1 = save_row ps_id j rows"
    and j: "ps_id j = jid" "ps_submission j = ps_submission old" "ps_provider_job j = ps_provider_job old"
      "ps_attempts j = ps_attempts old"
  proof (cases "\<exists>msg. ps_mark_retryable msg jid w rows = (Some j, rows1)")
    case True
    then obtain msg o1 where o1: "ps_owned_processing jid w rows = Some o1"
      and "j = o1\<lparr>ps_status := WAITING, ps_started_at := None, ps_completed_at := None,
             ps_last_error := Some msg, ps_worker := None, ps_lease := None\<rparr>"
      and "rows1 = save_row ps_id j rows"
      by (auto simp: ps_mark_retryable_def ps_with_owned_def split: option.splits)
    moreover have "ps_get jid rows = Some o1"
      using find_row_mem[OF assms(1)] ps_owned_dest[OF o1] by (auto simp: ps_get_def)
    ultimately show thesis using that ps_owned_dest[OF o1] by simp
  next
    case False
    then obtain o1 where "ps_get jid rows = Some o1" "ps_retry o1 rows = (j, rows1)" using assms(2) by blast
    then show thesis using that[of o1] by (auto simp: ps_retry_def ps_requeued_def ps_get_def dest: find_row_SomeD)
  qed
  obtain r where r: "r \<in> set rows1" "j' = ps_claimed w' lease now r"
    using ps_claim_fifo[OF assms(3)] by auto
  then have "ps_id r = jid" using assms(4) by simp
  moreover have "ps_get jid rows1 = Some j"
    using find_row_SomeD[OF old[unfolded ps_get_def]] j(1)
    by (auto simp: rows1 ps_get_def find_row_save_row image_iff)
  moreover have "distinct (map ps_id rows1)" using assms(1) rows1 by simp
  ultimately have "r = j" using find_row_mem[of ps_id rows1 r] r(1) by (simp add: ps_get_def)
  then show ?thesis using r(2) old j by (auto simp: ps_claimed_def)
qed

theorem ps_resume_keeps_attempts_witness:
  "\<exists>j rows1 j' rows2 old.
     ps_mark_retryable ''timeout'' ''a'' ''w1'' (fold ps_step (take 4 ps_demo_ops) []) = (Some j, rows1) \<and>
     ps_claim_next [''b''] ''w2'' 60 99 rows1 = (Some j', rows2) \<and>
     ps_get ''a'' (fold ps_step (take 4 ps_demo_ops) []) = Some old \<and>
     ps_submission j' = ps_submission old \<and> ps_submission old = Some 5 \<and> ps_attempts j' = ps_attempts old"
proof -
  let ?rows = "fold ps_step (take 4 ps_demo_ops) []"
  obtain j rows1 where 1: "ps_mark_retryable ''timeout'' ''a'' ''w1'' ?rows = (Some j, rows1)"
    by (simp add: ps_eval)
  then obtain j' rows2 where 2: "ps_claim_next [''b''] ''w2'' 60 99 rows1 = (Some j', rows2)"
    and id: "ps_id j' = ''a''"
    by (auto simp: ps_eval)
  have "distinct (map ps_id ?rows)"
    using psm.run_from_empty[of "take 4 ps_demo_ops"] by (simp add: psm.table_ok_def)
  from ps_resume_keeps_attempts[OF this _ 2 id] 1
  obtain old where old: "ps_get ''a'' ?rows = Some old" "ps_submission j' = ps_submission old"
    "ps_attempts j' = ps_attempts old + (if ps_submission old = None \<and> ps_provider_job old = None then 1 else 0)"
    by blast
  moreover have "ps_submission old = Some 5" using old(1) by (auto simp: ps_eval)
  ultimately show ?thesis using 1 2 by auto
qed

text \<open>
  A worker that lost its lease cannot write: once another worker has claimed the job, every
  operation of the first worker on it - recording a submission or provider job, replacing it,
  releasing, completing or failing it - finds no row, returns nothing and changes nothing, and
  its heartbeat reports the loss.
\<close>

theorem ps_lost_lease:
  assumes "distinct (map ps_id rows)"
    and "ps_claim_next locked w2 lease2 now rows = (Some j, rows')" and "w1 \<noteq> w2"
  shows "ps_record_submission sid (ps_id j) w1 rows' = (None, rows') \<and>
    ps_record_provider_job pid (ps_id j) w1 rows' = (None, rows') \<and>
    ps_record_replacement sid (ps_id j) w1 rows' = (None, rows') \<and>
    ps_mark_retryable msg (ps_id j) w1 rows' = (None, rows') \<and>
    ps_mark_completed provider t (ps_id j) w1 rows' = (None, rows') \<and>
    ps_mark_failed msg t (ps_id j) w1 rows' = (None, rows') \<and>
    ps_touch_lease (ps_id j) w1 lease1 t rows' = (False, rows')"
proof -
  have c: "ps_claim (locked, w2, lease2, now) rows = (Some j, rows')" using assms(2) by (simp add: ps_claim_def)
  have d: "distinct (map ps_id rows')" using psq.claim_keys[OF c] assms(1) by simp
  have "ps_owned_processing (ps_id j) w1 rows' = None"
  proof (rule ccontr)
    assume "ps_owned_processing (ps_id j) w1 rows' \<noteq> None"
    then obtain r where r: "r \<in> set rows'" "ps_id r = ps_id j" "ps_worker r = Some w1"
      by (auto dest: ps_owned_dest)
    then have "r = j" using psq.claim_returns_row[OF c] find_row_mem[OF d r(1)] by simp
    then show False using r(3) ps_claim_next_Some[OF assms(2)] assms(3) by simp
  qed
  then show ?thesis
    by (simp add: ps_owner_defs ps_with_owned_def ps_touch_lease_hit[OF d])
qed

theorem ps_lost_lease_witness:
  "\<exists>j rows'. ps_claim_next [] ''w2'' 60 90000000 (fold ps_step (take 3 ps_demo_ops) []) = (Some j, rows') \<and>
     ps_id j = ''a'' \<and> ps_mark_completed ps_demo_result 90000001 (ps_id j) ''w1'' rows' = (None, rows')"
proof -
  let ?rows = "fold ps_step (take 3 ps_demo_ops) []"
  obtain j rows' where c: "ps_claim_next [] ''w2'' 60 90000000 ?rows = (Some j, rows')" "ps_id j = ''a''"
    by (simp add: ps_eval)
  have "distinct (map ps_id ?rows)"
    using psm.run_from_empty[of "take 3 ps_demo_ops"] by (simp add: psm.table_ok_def)
  from ps_lost_lease[OF this c(1), of "''w1''"] c show ?thesis by auto
qed

lemma find_row_save_other:
  assumes "find_row g k rows = Some e" and "g e' = k" and "key e' = key e"
  shows "\<exists>r. find_row g k (save_row key e' rows) = Some r \<and> key r = key e"
  using assms by (induction rows) (auto simp: save_row_def split: if_splits)

lemma ps_enqueue_finds:
  assumes "ps_enqueue stale ok nid t fid rid rows = Inr ((j, created), rows')"
  shows "\<exists>r. ps_get_by_file fid rows' = Some r \<and> ps_id r = ps_id j"
proof (cases "\<not> stale \<and> (\<exists>e. ps_get_by_file fid rows = Some e \<and> ps_record e = None \<and> rid \<noteq> None)")
  case True
  then obtain e where e: "find_row ps_file fid rows = Some e"
    and res: "j = e\<lparr>ps_record := rid\<rparr>" "rows' = save_row ps_id j rows"
    using assms by (auto simp: ps_enqueue_def ps_get_by_file_def Let_def)
  then show ?thesis
    using find_row_save_other[OF e, of j ps_id] find_row_SomeD[OF e] by (simp add: ps_get_by_file_def)
next
  case False
  then show ?thesis using assms
    by (auto simp: ps_enqueue_def ps_get_by_file_def ps_insert_ok_def ps_new_job_def Let_def
        find_row_append find_row_None_iff[symmetric] split: if_splits option.splits)
qed

text \<open>
  Enqueueing is idempotent per file, races included: when one enqueue for a file has
  succeeded, any later one - even one whose lookup ran before the first committed - returns the
  job of that file without creating another, and the table keeps its jobs.
\<close>

theorem ps_enqueue_once:
  assumes "ps_enqueue stale1 ok1 id1 t1 fid rid1 rows = Inr ((j1, created1), rows1)"
  shows "\<exists>j2 rows2. ps_enqueue stale2 ok2 id2 t2 fid rid2 rows1 = Inr ((j2, False), rows2) \<and>
    ps_id j2 = ps_id j1 \<and> ps_file j2 = fid \<and> map ps_id rows2 = map ps_id rows1"
proof -
  obtain r where "ps_get_by_file fid rows1 = Some r" and "ps_id r = ps_id j1"
    using ps_enqueue_finds[OF assms] by blast
  then show ?thesis
    by (auto simp: ps_enqueue_def ps_insert_ok_def ps_new_job_def ps_get_by_file_def Let_def
        dest: find_row_SomeD split: option.splits)
qed

theorem ps_enqueue_once_witness:
  "\<exists>j1 rows1 j2 rows2. ps_enqueue False True ''a'' 10 7 None [] = Inr ((j1, True), rows1) \<and>
     ps_enqueue True True ''b'' 11 7 (Some ''r'') rows1 = Inr ((j2, False), rows2) \<and>
     ps_id j2 = ps_id j1 \<and> length rows2 = 1"
proof -
  obtain j1 rows1 where 1: "ps_enqueue False True ''a'' 10 7 None [] = Inr ((j1, True), rows1)"
    and len: "length rows1 = 1"
    by (simp add: ps_eval)
  from ps_enqueue_once[OF 1, of True True "''b''" 11 "Some ''r''"] len 1 show ?thesis
    by (metis length_map)
qed

end
