(* ===== verification/PlateSolveQueue.thy ===== *)
theory PlateSolveQueue
  imports PlateSolveJobs ChangeFeed
begin

text \<open>
  The queue as the API and the worker use it: \<open>PlateSolveQueueService\<close>
  (\<open>src/app/astrojournal/services/plate_solve_queue_service.py\<close>). Every operation runs the
  repository operation and mirrors the new status into the observation records of the file,
  bumping their revision and writing change events, before it commits. A call that raises
  rolls back, so an error carries no state.
\<close>

datatype queue_error =
    LeaseLost                  \<comment> \<open>RuntimeError: Plate Solve job lease was lost\<close>
  | InvalidJobId               \<comment> \<open>ApiClientError: job_id is invalid\<close>
  | NotFailed                  \<comment> \<open>ApiClientError: only FAILED jobs can be retried\<close>
  | QueueIntegrityError

definition observation_resource :: string where
  "observation_resource = ''ObservationRecord''"

section \<open>Mirroring a status into the observation records\<close>

definition active_astro_record :: "int \<Rightarrow> observation_record \<Rightarrow> bool" where
  "active_astro_record common_file_id r \<longleftrightarrow>
     or_file r = common_file_id \<and> or_service r = astro \<and> or_deleted_at r = None"

text \<open>The flush also sets \<open>updated_at\<close>, by the column's \<open>onupdate\<close>.\<close>

definition synced_record :: "time \<Rightarrow> string \<Rightarrow> observation_record \<Rightarrow> observation_record" where
  "synced_record now status r =
     r\<lparr>or_solve_status := status, or_revision := or_revision r + 1, or_updated_at := now\<rparr>"

fun sync_each :: "time \<Rightarrow> string \<Rightarrow> observation_record list \<Rightarrow> db \<Rightarrow> db" where
  "sync_each now status [] d = d"
| "sync_each now status (r # rs) d =
     (if or_solve_status r = status then sync_each now status rs d
      else let r' = synced_record now status r
           in sync_each now status rs
                (append_change now astro observation_resource (or_id r') UPDATE (Some (or_revision r')) False
                   (d\<lparr>records := save_row or_id r' (records d)\<rparr>)))"

definition sync_observation_status :: "time \<Rightarrow> int \<Rightarrow> job_status \<Rightarrow> db \<Rightarrow> db" where
  "sync_observation_status now common_file_id status d =
     sync_each now (status_text status) (filter (active_astro_record common_file_id) (records d)) d"

section \<open>Operations\<close>

definition q_enqueue ::
  "bool \<Rightarrow> bool \<Rightarrow> string \<Rightarrow> time \<Rightarrow> int \<Rightarrow> string option \<Rightarrow> db \<Rightarrow> queue_error + (ps_job \<times> bool) \<times> db" where
  "q_enqueue stale refs_ok new_id now common_file_id record_id d =
     (case ps_enqueue stale refs_ok new_id now common_file_id record_id (ps_jobs d) of
        Inl _ \<Rightarrow> Inl QueueIntegrityError
      | Inr (res, rows) \<Rightarrow> Inr (res, d\<lparr>ps_jobs := rows\<rparr>))"

definition q_get_optional :: "string \<Rightarrow> db \<Rightarrow> ps_job option" where
  "q_get_optional job_id d = ps_get job_id (ps_jobs d)"

definition q_get_for_file :: "int \<Rightarrow> db \<Rightarrow> ps_job option" where
  "q_get_for_file common_file_id d = ps_get_by_file common_file_id (ps_jobs d)"

record solve_result =
  sr_ra :: "real option"
  sr_dec :: "real option"
  sr_rotation :: "real option"
  sr_pixel_scale :: "real option"
  sr_field_width :: "real option"
  sr_field_height :: "real option"
  sr_parity :: "real option"
  sr_image_width :: "int option"
  sr_image_height :: "int option"
  sr_wcs :: "json option"

record solve_response =
  rs_job_id :: string
  rs_status :: job_status
  rs_file :: int
  rs_provider :: string
  rs_result :: "solve_result option"
  rs_submission :: "int option"
  rs_provider_job :: "int option"

definition q_response :: "ps_job \<Rightarrow> db \<Rightarrow> solve_response" where
  "q_response job d =
     \<lparr>rs_job_id = ps_id job, rs_status = ps_status job, rs_file = ps_file job,
      rs_provider = ps_provider job,
      rs_result =
        (if ps_status job = COMPLETED
         then let f = find_row cf_id (ps_file job) (files d)
              in Some \<lparr>sr_ra = ps_ra job, sr_dec = ps_dec job, sr_rotation = ps_rotation job,
                   sr_pixel_scale = ps_pixel_scale job, sr_field_width = ps_field_width job,
                   sr_field_height = ps_field_height job, sr_parity = ps_parity job,
                   sr_image_width = Option.bind f cf_width,
                   sr_image_height = Option.bind f cf_height,
                   sr_wcs = ps_wcs job\<rparr>
         else None),
      rs_submission = ps_submission job, rs_provider_job = ps_provider_job job\<rparr>"

text \<open>The dictionary \<open>{"total": ..., **counts}\<close>: the total and the counts per status.\<close>

definition q_summary :: "db \<Rightarrow> nat \<times> (job_status \<times> nat) list" where
  "q_summary d = (let counts = ps_count_by_status (ps_jobs d) in (sum_list (map snd counts), counts))"

definition q_retry :: "time \<Rightarrow> string \<Rightarrow> db \<Rightarrow> queue_error + ps_job \<times> db" where
  "q_retry now job_id d =
     (case ps_get job_id (ps_jobs d) of
        None \<Rightarrow> Inl InvalidJobId
      | Some job \<Rightarrow>
          if ps_status job \<noteq> FAILED then Inl NotFailed
          else let (job', rows) = ps_retry job (ps_jobs d)
               in Inr (job', sync_observation_status now (ps_file job') WAITING (d\<lparr>ps_jobs := rows\<rparr>)))"

definition unreferenced_message :: string where
  "unreferenced_message = ''Observation record was deleted before Plate Solve started''"

definition q_fail_waiting_if_file_unreferenced :: "time \<Rightarrow> int \<Rightarrow> db \<Rightarrow> ps_job option \<times> db" where
  "q_fail_waiting_if_file_unreferenced now common_file_id d =
     (if exists_row (active_astro_record common_file_id) (records d) then (None, d)
      else let (job, rows) = ps_fail_waiting_for_file common_file_id unreferenced_message now (ps_jobs d)
           in (job, d\<lparr>ps_jobs := rows\<rparr>))"

text \<open>
  The claim commits before it touches the observation records: \<open>q_claim_row\<close> is its first
  transaction, the synchronisation the second.
\<close>

definition q_claim_row :: "string list \<Rightarrow> string \<Rightarrow> int \<Rightarrow> time \<Rightarrow> db \<Rightarrow> ps_job option \<times> db" where
  "q_claim_row locked worker_id lease_seconds now d =
     (let (job, rows) = ps_claim_next locked worker_id lease_seconds now (ps_jobs d)
      in (job, d\<lparr>ps_jobs := rows\<rparr>))"

definition q_claim_next :: "string list \<Rightarrow> string \<Rightarrow> int \<Rightarrow> time \<Rightarrow> db \<Rightarrow> ps_job option \<times> db" where
  "q_claim_next locked worker_id lease_seconds now d =
     (case q_claim_row locked worker_id lease_seconds now d of
        (None, _) \<Rightarrow> (None, d)
      | (Some job, d') \<Rightarrow> (Some job, sync_observation_status now (ps_file job) PROCESSING d'))"

definition q_touch_lease :: "string \<Rightarrow> string \<Rightarrow> int \<Rightarrow> time \<Rightarrow> db \<Rightarrow> bool \<times> db" where
  "q_touch_lease job_id worker_id lease_seconds now d =
     (let (touched, rows) = ps_touch_lease job_id worker_id lease_seconds now (ps_jobs d)
      in (touched, d\<lparr>ps_jobs := rows\<rparr>))"

text \<open>An owner's operation that raises when the row is no longer this worker's.\<close>

definition q_owned ::
  "(ps_job list \<Rightarrow> ps_job option \<times> ps_job list) \<Rightarrow> db \<Rightarrow> queue_error + ps_job \<times> db" where
  "q_owned repository_call d =
     (case repository_call (ps_jobs d) of
        (None, _) \<Rightarrow> Inl LeaseLost
      | (Some job, rows) \<Rightarrow> Inr (job, d\<lparr>ps_jobs := rows\<rparr>))"

definition q_record_submission :: "int \<Rightarrow> string \<Rightarrow> string \<Rightarrow> db \<Rightarrow> queue_error + ps_job \<times> db" where
  "q_record_submission submission_id job_id worker_id =
     q_owned (ps_record_submission submission_id job_id worker_id)"

definition q_record_provider_job :: "int \<Rightarrow> string \<Rightarrow> string \<Rightarrow> db \<Rightarrow> queue_error + ps_job \<times> db" where
  "q_record_provider_job provider_job_id job_id worker_id =
     q_owned (ps_record_provider_job provider_job_id job_id worker_id)"

definition q_record_replacement :: "int \<Rightarrow> string \<Rightarrow> string \<Rightarrow> db \<Rightarrow> queue_error + ps_job \<times> db" where
  "q_record_replacement submission_id job_id worker_id =
     q_owned (ps_record_replacement submission_id job_id worker_id)"

text \<open>The owner's operations that also change what the observation records show.\<close>

definition q_owned_sync ::
  "time \<Rightarrow> job_status \<Rightarrow> (ps_job list \<Rightarrow> ps_job option \<times> ps_job list) \<Rightarrow> db \<Rightarrow> queue_error + ps_job \<times> db" where
  "q_owned_sync now status repository_call d =
     (case q_owned repository_call d of
        Inl e \<Rightarrow> Inl e
      | Inr (job, d') \<Rightarrow> Inr (job, sync_observation_status now (ps_file job) status d'))"

definition q_requeue_transient :: "time \<Rightarrow> string \<Rightarrow> string \<Rightarrow> string \<Rightarrow> db \<Rightarrow> queue_error + ps_job \<times> db" where
  "q_requeue_transient now error_message job_id worker_id =
     q_owned_sync now WAITING (ps_mark_retryable error_message job_id worker_id)"

definition q_complete :: "time \<Rightarrow> provider_result \<Rightarrow> string \<Rightarrow> string \<Rightarrow> db \<Rightarrow> queue_error + ps_job \<times> db" where
  "q_complete now provider job_id worker_id =
     q_owned_sync now COMPLETED (ps_mark_completed provider now job_id worker_id)"

definition q_fail :: "time \<Rightarrow> string \<Rightarrow> string \<Rightarrow> string \<Rightarrow> db \<Rightarrow> queue_error + ps_job \<times> db" where
  "q_fail now error_message job_id worker_id =
     q_owned_sync now FAILED (ps_mark_failed error_message now job_id worker_id)"

section \<open>What synchronising does\<close>

definition stale_status :: "int \<Rightarrow> string \<Rightarrow> observation_record \<Rightarrow> bool" where
  "stale_status fid status r \<longleftrightarrow> active_astro_record fid r \<and> or_solve_status r \<noteq> status"

definition sync_event :: "time \<Rightarrow> int \<Rightarrow> observation_record \<Rightarrow> change_event" where
  "sync_event now i r = \<lparr>ce_id = i, ce_service = astro, ce_type = observation_resource,
     ce_resource = or_id r, ce_operation = UPDATE, ce_revision = Some (or_revision r + 1),
     ce_tombstone = False, ce_changed_at = now\<rparr>"

lemma sync_each_frame:
  "ps_jobs (sync_each now s rs d) = ps_jobs d" "files (sync_each now s rs d) = files d"
  "links (sync_each now s rs d) = links d" "equipments (sync_each now s rs d) = equipments d"
  "vision_jobs (sync_each now s rs d) = vision_jobs d"
  "metadata_files (sync_each now s rs d) = metadata_files d" "tag_files (sync_each now s rs d) = tag_files d"
  by (induction rs arbitrary: d) (auto simp: Let_def append_change_def)

lemma sync_each_records:
  assumes "distinct (map or_id rs)" and "distinct (map or_id (records d))" and "set rs \<subseteq> set (records d)"
  shows "records (sync_each now s rs d) =
    update_where (\<lambda>r. r \<in> set rs \<and> or_solve_status r \<noteq> s) (synced_record now s) (records d)"
  using assms
proof (induction rs arbitrary: d)
  case Nil
  then show ?case by (simp add: update_where_unmatched)
next
  case (Cons r rs)
  have r: "r \<in> set (records d)" "or_id r \<notin> or_id ` set rs" using Cons.prems by auto
  show ?case
  proof (cases "or_solve_status r = s")
    case True
    then show ?thesis using Cons by (auto simp: update_where_def)
  next
    case False
    let ?rows = "save_row or_id (synced_record now s r) (records d)"
    have id: "or_id (synced_record now s r) = or_id r" by (simp add: synced_record_def)
    have kept: "x \<in> set ?rows" if "x \<in> set rs" for x
    proof -
      have "or_id x \<noteq> or_id r" using that r(2) by (metis imageI)
      then show ?thesis using Cons.prems(3) that by (auto simp: set_save_row id)
    qed
    have "records (sync_each now s (r # rs) d) =
        update_where (\<lambda>x. x \<in> set rs \<and> or_solve_status x \<noteq> s) (synced_record now s) ?rows"
      using False Cons.prems kept
      by (simp add: Let_def) (subst Cons.IH; auto simp: append_change_def)
    also have "\<dots> = update_where (\<lambda>x. x \<in> set (r # rs) \<and> or_solve_status x \<noteq> s) (synced_record now s) (records d)"
    proof -
      have "x = r" if "x \<in> set (records d)" "or_id x = or_id r" for x
        using Cons.prems(2) that r(1) by (auto simp: distinct_map inj_on_def)
      moreover have "synced_record now s r \<notin> set rs" using r(2) id by (metis imageI)
      ultimately show ?thesis using r(2) False
        by (auto simp: save_row_def update_where_def id)
    qed
    finally show ?thesis .
  qed
qed

lemma sync_each_changes:
  "changes (sync_each now s rs d) = changes d @
     map (\<lambda>(i, r). sync_event now i r)
       (zip (map (\<lambda>n. change_seq d + 1 + int n) [0..<length (filter (\<lambda>r. or_solve_status r \<noteq> s) rs)])
            (filter (\<lambda>r. or_solve_status r \<noteq> s) rs))"
proof (induction rs arbitrary: d)
  case (Cons r rs)
  show ?case
  proof (cases "or_solve_status r = s")
    case False
    let ?n = "length (filter (\<lambda>r. or_solve_status r \<noteq> s) rs)"
    have up: "map (\<lambda>n. change_seq d + 1 + int n) [0..<Suc ?n] =
        (change_seq d + 1) # map (\<lambda>n. change_seq d + 1 + 1 + int n) [0..<?n]"
      by (simp add: upt_conv_Cons map_Suc_upt[symmetric] del: upt_Suc)
    show ?thesis using False
      by (simp add: Let_def Cons.IH up sync_event_def append_change_def synced_record_def del: upt_Suc)
  qed (simp add: Cons)
qed simp

lemma feed_ok_sync_each [intro]: "feed_ok d \<Longrightarrow> feed_ok (sync_each now s rs d)"
proof (induction rs arbitrary: d)
  case (Cons r rs)
  have "feed_ok (d\<lparr>records := x\<rparr>)" for x using Cons.prems by (simp add: feed_ok_def)
  with Cons show ?case by (auto simp: Let_def)
qed simp

lemma sync_records:
  assumes "distinct (map or_id (records d))"
  shows "records (sync_observation_status now fid st d) =
    update_where (stale_status fid (status_text st)) (synced_record now (status_text st)) (records d)"
proof -
  let ?rs = "filter (active_astro_record fid) (records d)"
  have "records (sync_observation_status now fid st d) =
      update_where (\<lambda>r. r \<in> set ?rs \<and> or_solve_status r \<noteq> status_text st)
        (synced_record now (status_text st)) (records d)"
    unfolding sync_observation_status_def using assms
    by (intro sync_each_records) (auto simp: distinct_map_filter)
  also have "\<dots> = update_where (stale_status fid (status_text st)) (synced_record now (status_text st)) (records d)"
    by (auto simp: update_where_def stale_status_def)
  finally show ?thesis .
qed

lemma sync_changes:
  "\<exists>events. changes (sync_observation_status now fid st d) = changes d @ events \<and>
     map (\<lambda>e. (ce_resource e, ce_operation e, ce_revision e, ce_tombstone e)) events =
     map (\<lambda>r. (or_id r, UPDATE, Some (or_revision r + 1), False))
       (filter (stale_status fid (status_text st)) (records d))"
proof -
  have "filter (\<lambda>r. or_solve_status r \<noteq> status_text st) (filter (active_astro_record fid) (records d)) =
      filter (stale_status fid (status_text st)) (records d)"
    by (auto simp: stale_status_def intro: filter_cong)
  then show ?thesis
    by (simp add: sync_observation_status_def sync_each_changes sync_event_def case_prod_unfold
        comp_def map_zip_snd[where f = "\<lambda>r. (or_id r, UPDATE, Some (or_revision r + 1), False)"])
qed

lemma sync_frame [simp]:
  "ps_jobs (sync_observation_status now fid st d) = ps_jobs d"
  "files (sync_observation_status now fid st d) = files d"
  "links (sync_observation_status now fid st d) = links d"
  "equipments (sync_observation_status now fid st d) = equipments d"
  by (simp_all add: sync_observation_status_def sync_each_frame)

lemma sync_all_shown:
  assumes "distinct (map or_id (records d))"
    and "r \<in> set (records (sync_observation_status now fid st d))" and "active_astro_record fid r"
  shows "or_solve_status r = status_text st"
  using assms(2,3) unfolding sync_records[OF assms(1)] set_update_where
  by (auto simp: stale_status_def synced_record_def split: if_splits)

section \<open>Properties\<close>

text \<open>
  What a successful mirroring operation leaves behind: the job of the result is in the queue
  with its status, every active record of its file shows that status, only records that showed
  another status changed - in their status, update time and by one revision - and the feed gained exactly
  one UPDATE event per changed record, carrying its new revision.
\<close>

definition mirrored :: "time \<Rightarrow> job_status \<Rightarrow> ps_job \<Rightarrow> db \<Rightarrow> db \<Rightarrow> bool" where
  "mirrored now st job d d' \<longleftrightarrow>
     ps_status job = st \<and> ps_get (ps_id job) (ps_jobs d') = Some job \<and>
     records d' = map (\<lambda>r. if stale_status (ps_file job) (status_text st) r
                           then synced_record now (status_text st) r else r) (records d) \<and>
     (\<forall>r\<in>set (records d'). active_astro_record (ps_file job) r \<longrightarrow> or_solve_status r = status_text st) \<and>
     (\<exists>events. changes d' = changes d @ events \<and>
        map (\<lambda>e. (ce_resource e, ce_operation e, ce_revision e, ce_tombstone e)) events =
        map (\<lambda>r. (or_id r, UPDATE, Some (or_revision r + 1), False))
          (filter (stale_status (ps_file job) (status_text st)) (records d)))"

lemma mirrored_sync:
  assumes "distinct (map or_id (records d))" and "ps_status job = st"
    and "ps_get (ps_id job) rows = Some job"
  shows "mirrored now st job d (sync_observation_status now (ps_file job) st (d\<lparr>ps_jobs := rows\<rparr>))"
  using assms sync_changes[of now "ps_file job" st "d\<lparr>ps_jobs := rows\<rparr>"]
    sync_all_shown[of "d\<lparr>ps_jobs := rows\<rparr>" _ now "ps_file job" st]
  unfolding mirrored_def by (auto simp: sync_records update_where_def)

lemma ps_with_owned_get:
  assumes "ps_with_owned f job_id w rows = (Some job, rows')" and "\<And>j. ps_id (f j) = ps_id j"
  shows "ps_id job = job_id \<and> ps_get job_id rows' = Some job"
  using assms
  by (auto simp: ps_with_owned_def ps_get_def find_row_save_row image_iff split: option.splits
      dest!: ps_owned_dest)

lemma q_owned_sync_mirrored:
  assumes "q_owned_sync now st (ps_with_owned f job_id w) d = Inr (job, d')"
    and "\<And>j. ps_id (f j) = ps_id j \<and> ps_status (f j) = st" and "distinct (map or_id (records d))"
  shows "ps_id job = job_id \<and> mirrored now st job d d'"
proof -
  obtain rows where rows: "ps_with_owned f job_id w (ps_jobs d) = (Some job, rows)"
    and d': "d' = sync_observation_status now (ps_file job) st (d\<lparr>ps_jobs := rows\<rparr>)"
    using assms(1) by (auto simp: q_owned_sync_def q_owned_def split: prod.splits option.splits sum.splits)
  then have "ps_status job = st"
    using assms(2) by (auto simp: ps_with_owned_def split: option.splits)
  then show ?thesis
    using ps_with_owned_get[OF rows] assms(2,3) mirrored_sync d' by simp
qed

text \<open>
  C9. Completing, failing and requeueing a job shows in every record of its photo: when the
  owner's call succeeds, the queue row, all active observation records of the file and the
  change feed agree on the new status, and nothing else changed.
\<close>

theorem q_results_mirrored:
  assumes "distinct (map or_id (records d))"
  shows "(q_complete now provider job_id w d = Inr (job, d') \<longrightarrow> mirrored now COMPLETED job d d') \<and>
    (q_fail now msg job_id w d = Inr (job, d') \<longrightarrow> mirrored now FAILED job d d') \<and>
    (q_requeue_transient now msg job_id w d = Inr (job, d') \<longrightarrow> mirrored now WAITING job d d')"
  using q_owned_sync_mirrored[OF _ _ assms]
  by (simp add: q_complete_def q_fail_def q_requeue_transient_def ps_owner_defs)

definition q_demo :: db where
  "q_demo = empty_db\<lparr>
     ps_jobs := fold ps_step (take 4 ps_demo_ops) [],
     records := [\<lparr>or_id = ''r1'', or_file = 7, or_service = astro, or_client_id = None,
       or_catalog = Some ''M42'', or_captured_at = 1, or_latitude = None, or_longitude = None,
       or_location_name = None, or_equipment_id = None, or_equipment_ref = None,
       or_equipment_name = None, or_integration_seconds = None, or_address = None, or_memo = None,
       or_favorite = False, or_representative = True, or_solve_status = ''PROCESSING'',
       or_created_at = 1, or_updated_at = 1, or_deleted_at = None, or_revision = 2\<rparr>]\<rparr>"

theorem q_results_mirrored_witness:
  "\<exists>job d'. q_complete 50 ps_demo_result ''a'' ''w1'' q_demo = Inr (job, d') \<and>
     mirrored 50 COMPLETED job q_demo d' \<and> map or_revision (records d') = [3]"
proof -
  obtain job d' where c: "q_complete 50 ps_demo_result ''a'' ''w1'' q_demo = Inr (job, d')"
    and r: "map or_revision (records d') = [3]"
    by (simp add: q_complete_def q_owned_sync_def q_owned_def q_demo_def ps_eval empty_db_def
        sync_observation_status_def active_astro_record_def astro_def synced_record_def append_change_def)
  have "distinct (map or_id (records q_demo))" by (simp add: q_demo_def)
  from q_results_mirrored[OF this, where now = 50 and provider = ps_demo_result and job_id = "''a''"
      and w = "''w1''" and job = job and d' = d'] c r
  show ?thesis by auto
qed

lemma q_claim_next_jobs:
  "q_claim_next locked w lease now d = (res, d') \<Longrightarrow>
     ps_claim_next locked w lease now (ps_jobs d) = (res, ps_jobs d')"
  by (auto simp: q_claim_next_def q_claim_row_def ps_claim_next_def Let_def split: option.splits)

lemma q_claim_mirrored:
  assumes "q_claim_next locked w lease now d = (Some job, d')" and "distinct (map or_id (records d))"
  shows "mirrored now PROCESSING job d d'"
proof -
  obtain rows where rows: "ps_claim_next locked w lease now (ps_jobs d) = (Some job, rows)"
    and d': "d' = sync_observation_status now (ps_file job) PROCESSING (d\<lparr>ps_jobs := rows\<rparr>)"
    using assms(1) by (auto simp: q_claim_next_def q_claim_row_def split: prod.splits option.splits)
  then have "ps_get (ps_id job) rows = Some job"
    using psq.claim_returns_row[of "(locked, w, lease, now)"] by (simp add: ps_claim_def ps_get_def)
  then show ?thesis using mirrored_sync[OF assms(2)] ps_claim_next_Some[OF rows] d' by simp
qed

lemma q_retry_mirrored:
  assumes "q_retry now job_id d = Inr (job, d')" and "distinct (map or_id (records d))"
  shows "mirrored now WAITING job d d'"
proof -
  obtain old where old: "ps_get job_id (ps_jobs d) = Some old" "ps_status old = FAILED"
    and job: "job = ps_requeued old" and d': "d' = sync_observation_status now (ps_file job) WAITING
        (d\<lparr>ps_jobs := save_row ps_id job (ps_jobs d)\<rparr>)"
    using assms(1) by (auto simp: q_retry_def ps_retry_def split: option.splits if_splits)
  have "ps_get (ps_id job) (save_row ps_id job (ps_jobs d)) = Some job"
    using find_row_SomeD[OF old(1)[unfolded ps_get_def]] job
    by (auto simp: ps_get_def find_row_save_row ps_requeued_def image_iff)
  moreover have "ps_status job = WAITING" by (simp add: job ps_requeued_def)
  ultimately show ?thesis unfolding d' by (intro mirrored_sync assms(2))
qed

text \<open>
  Claiming and retrying show in the records too: a successful claim turns every active
  record of the file to PROCESSING, a successful retry - possible only from FAILED - to WAITING,
  each with one revision and one event per changed record.
\<close>

theorem q_claim_retry_mirrored:
  assumes "distinct (map or_id (records d))"
  shows "(q_claim_next locked w lease now d = (Some job, d') \<longrightarrow> mirrored now PROCESSING job d d') \<and>
    (q_retry now job_id d = Inr (job, d') \<longrightarrow> mirrored now WAITING job d d' \<and>
       (\<exists>old. ps_get job_id (ps_jobs d) = Some old \<and> ps_status old = FAILED))"
  using q_claim_mirrored[OF _ assms] q_retry_mirrored[OF _ assms]
  by (auto simp: q_retry_def split: option.splits if_splits)

theorem q_claim_retry_mirrored_witness:
  "\<exists>job d' d2. q_fail 50 ''no stars'' ''a'' ''w1'' q_demo = Inr (job, d') \<and>
     (\<exists>job2. q_retry 60 ''a'' d' = Inr (job2, d2) \<and> mirrored 60 WAITING job2 d' d2)"
proof -
  obtain job d' job2 d2 where f: "q_fail 50 ''no stars'' ''a'' ''w1'' q_demo = Inr (job, d')"
    and r: "q_retry 60 ''a'' d' = Inr (job2, d2)" and "distinct (map or_id (records d'))"
    by (simp add: q_fail_def q_owned_sync_def q_owned_def q_demo_def ps_eval empty_db_def q_retry_def
        sync_observation_status_def active_astro_record_def astro_def synced_record_def append_change_def)
  from q_claim_retry_mirrored[OF this(3), where now = 60 and job_id = "''a''" and job = job2 and d' = d2] f r
  show ?thesis by auto
qed

section \<open>The service refines the table\<close>

text \<open>Every write of the service, at an instant; a call that raises leaves the state.\<close>

fun q_step :: "time \<times> ps_op \<Rightarrow> db \<Rightarrow> db" where
  "q_step (_, PsEnqueue stale refs_ok new_id now fid rid) d =
     (case q_enqueue stale refs_ok new_id now fid rid d of Inl _ \<Rightarrow> d | Inr (_, d') \<Rightarrow> d')"
| "q_step (_, PsClaim locked w lease now) d = snd (q_claim_next locked w lease now d)"
| "q_step (_, PsTouch jid w lease now) d = snd (q_touch_lease jid w lease now d)"
| "q_step (_, PsSubmission sid jid w) d =
     (case q_record_submission sid jid w d of Inl _ \<Rightarrow> d | Inr (_, d') \<Rightarrow> d')"
| "q_step (_, PsProviderJob pid jid w) d =
     (case q_record_provider_job pid jid w d of Inl _ \<Rightarrow> d | Inr (_, d') \<Rightarrow> d')"
| "q_step (_, PsReplacement sid jid w) d =
     (case q_record_replacement sid jid w d of Inl _ \<Rightarrow> d | Inr (_, d') \<Rightarrow> d')"
| "q_step (t, PsRetryable msg jid w) d =
     (case q_requeue_transient t msg jid w d of Inl _ \<Rightarrow> d | Inr (_, d') \<Rightarrow> d')"
| "q_step (_, PsComplete provider now jid w) d =
     (case q_complete now provider jid w d of Inl _ \<Rightarrow> d | Inr (_, d') \<Rightarrow> d')"
| "q_step (_, PsFail msg now jid w) d =
     (case q_fail now msg jid w d of Inl _ \<Rightarrow> d | Inr (_, d') \<Rightarrow> d')"
| "q_step (t, PsRetry jid) d = (case q_retry t jid d of Inl _ \<Rightarrow> d | Inr (_, d') \<Rightarrow> d')"
| "q_step (_, PsFailWaiting fid msg now) d = snd (q_fail_waiting_if_file_unreferenced now fid d)"

lemma ps_with_owned_None: "ps_with_owned f jid w rows = (None, rows') \<Longrightarrow> rows' = rows"
  by (auto simp: ps_with_owned_def split: option.splits)

lemma q_step_jobs:
  "ps_jobs (q_step x d) = ps_jobs d \<or> (\<exists>op. ps_jobs (q_step x d) = ps_step op (ps_jobs d))"
proof (cases "(x, d)" rule: q_step.cases)
  case (11 t fid msg now)
  then show ?thesis
    by (auto simp: q_fail_waiting_if_file_unreferenced_def split: prod.splits
        intro!: exI[of _ "PsFailWaiting fid unreferenced_message now"])
next
  case (2 t locked w lease now)
  then have "ps_jobs (q_step x d) = ps_step (PsClaim locked w lease now) (ps_jobs d)"
    using q_claim_next_jobs[of locked w lease now d] by (cases "q_claim_next locked w lease now d") simp
  then show ?thesis by blast
qed (auto simp: q_enqueue_def q_touch_lease_def q_record_submission_def q_record_provider_job_def
    q_record_replacement_def q_requeue_transient_def q_complete_def q_fail_def q_owned_sync_def q_owned_def
    q_retry_def ps_retry_def split: sum.splits prod.splits option.splits if_splits
    intro!: exI[of _ "snd x"])

text \<open>A write of the service changes queue rows only, or queue rows and then synchronises.\<close>

definition q_writes :: "db \<Rightarrow> db \<Rightarrow> bool" where
  "q_writes d d' \<longleftrightarrow> (\<exists>rows. d' = d\<lparr>ps_jobs := rows\<rparr>) \<or>
     (\<exists>t fid st rows. d' = sync_observation_status t fid st (d\<lparr>ps_jobs := rows\<rparr>))"

lemma q_writes_intros [simp]:
  "q_writes d d" "q_writes d (d\<lparr>ps_jobs := rows\<rparr>)"
  "q_writes d (sync_observation_status t fid st (d\<lparr>ps_jobs := rows\<rparr>))"
proof -
  have "d = d\<lparr>ps_jobs := ps_jobs d\<rparr>" by simp
  then show "q_writes d d" unfolding q_writes_def by (intro disjI1 exI)
  show "q_writes d (d\<lparr>ps_jobs := rows\<rparr>)" unfolding q_writes_def by (intro disjI1 exI) (rule refl)
  show "q_writes d (sync_observation_status t fid st (d\<lparr>ps_jobs := rows\<rparr>))"
    unfolding q_writes_def by (intro disjI2 exI) (rule refl)
qed

lemma q_step_shape: "q_writes d (q_step x d)"
  by (cases "(x, d)" rule: q_step.cases)
    (simp_all add: q_enqueue_def q_claim_next_def q_claim_row_def q_touch_lease_def q_record_submission_def
      q_record_provider_job_def q_record_replacement_def q_requeue_transient_def q_complete_def
      q_fail_def q_owned_sync_def q_owned_def q_retry_def q_fail_waiting_if_file_unreferenced_def
      split: sum.split prod.split option.split)

definition q_frame :: "observation_record \<Rightarrow> observation_record \<Rightarrow> bool" where
  "q_frame r r' \<longleftrightarrow> or_revision r \<le> or_revision r' \<and>
     r' = r\<lparr>or_solve_status := or_solve_status r', or_revision := or_revision r',
             or_updated_at := or_updated_at r'\<rparr>"

lemma q_frame_refl [simp]: "q_frame r r"
  by (simp add: q_frame_def)

lemma q_frame_trans: "q_frame a b \<Longrightarrow> q_frame b c \<Longrightarrow> q_frame a c"
  by (cases a; cases b; cases c) (simp add: q_frame_def)

lemma q_frame_id: "q_frame a b \<Longrightarrow> or_id b = or_id a"
  by (cases a; cases b) (simp add: q_frame_def)

lemma q_step_records:
  assumes "distinct (map or_id (records d))"
  shows "list_all2 q_frame (records d) (records (q_step x d))"
  using q_step_shape[of d x] assms
  by (auto simp: q_writes_def sync_records update_where_def list_all2_conv_all_nth q_frame_def synced_record_def)

definition q_state_ok :: "db \<Rightarrow> bool" where
  "q_state_ok d \<longleftrightarrow>
     distinct (map ps_id (ps_jobs d)) \<and> list_all ps_row_ok (ps_jobs d) \<and>
     feed_ok d \<and> distinct (map or_id (records d))"

lemma q_step_ok:
  assumes "q_state_ok d"
  shows "q_state_ok (q_step x d)"
proof -
  have "psm.table_ok (ps_jobs d)" using assms by (simp add: q_state_ok_def psm.table_ok_def list_all_iff)
  then have "psm.table_ok (ps_jobs (q_step x d))"
    using q_step_jobs[of x d] psm.step_table_ok by auto
  moreover have "feed_ok (q_step x d)"
    using q_step_shape[of d x] assms
    by (auto simp: q_writes_def q_state_ok_def sync_observation_status_def feed_ok_def[of "d\<lparr>ps_jobs := _\<rparr>"]
        feed_ok_def[of d] intro!: feed_ok_sync_each)
  moreover have "map or_id (records (q_step x d)) = map or_id (records d)"
    using q_step_records[of d x] assms
    by (auto simp: q_state_ok_def list_all2_conv_all_nth q_frame_id intro!: nth_equalityI)
  ultimately show ?thesis
    using assms by (simp add: q_state_ok_def psm.table_ok_def list_all_iff)
qed

text \<open>
  The service keeps the whole state sound: any sequence of its calls, failing ones included,
  keeps the queue rows well-formed with unique ids and the change feed strictly increasing, and
  never touches an observation record except for its plate-solve status, its update time and
  an increasing revision.
\<close>

theorem q_service_invariant:
  assumes "q_state_ok d"
  shows "q_state_ok (fold q_step xs d) \<and> list_all2 q_frame (records d) (records (fold q_step xs d))"
  using assms
proof (induction xs arbitrary: d)
  case Nil
  then show ?case by (simp add: list_all2_refl)
next
  case (Cons x xs)
  then have "q_state_ok (fold q_step xs (q_step x d))"
    and "list_all2 q_frame (records (q_step x d)) (records (fold q_step xs (q_step x d)))"
    using q_step_ok by blast+
  moreover have "list_all2 q_frame (records d) (records (q_step x d))"
    using Cons.prems by (simp add: q_step_records q_state_ok_def)
  ultimately show ?case by (auto intro: list_all2_trans[OF q_frame_trans])
qed

theorem q_service_invariant_witness:
  "q_state_ok (fold q_step [(60, PsRetryable ''timeout'' ''a'' ''w1''), (70, PsClaim [] ''w2'' 60 70)] q_demo)"
proof -
  have "q_state_ok q_demo"
    using psm.run_from_empty[of "take 4 ps_demo_ops"]
    by (simp add: q_state_ok_def q_demo_def empty_db_def feed_ok_def psm.table_ok_def list_all_iff)
  then show ?thesis using q_service_invariant by blast
qed

end
