(* ===== verification/FileCleanup.thy ===== *)
theory FileCleanup
  imports StorageAssets PlateSolveQueue
begin

text \<open>
  The DELETE_IF_UNREFERENCED policy for shared photo files:
  \<open>AstroJournalFileCleanupService\<close>
  (\<open>src/app/astrojournal/services/file_cleanup_service.py\<close>), which the observation-record
  service, the MemoryKeeper file service and the AstroJournal reset call. It works on the
  database and the disk together; \<open>db_ok\<close> says that the closing flush or commit does not
  raise. The lemmas show that a file another service or an unfinished job needs is never
  touched, and that cleaning up twice is cleaning up once.
\<close>

datatype cleanup_status = CLEANED | ALREADY_CLEANED | PRESERVED_ACTIVE_RECORD | PRESERVED_OTHER_SERVICE
  | PRESERVED_PROCESSING_VISION | PRESERVED_ACTIVE_PLATE_SOLVE | ASSET_DELETE_FAILED
  | DATABASE_CLEANUP_FAILED | FILE_NOT_FOUND

record cleanup_result =
  cr_file :: int
  cr_status :: cleanup_status
  cr_physical :: bool
  cr_assets :: "(asset_kind \<times> asset_status) list"

definition plain_result :: "int \<Rightarrow> cleanup_status \<Rightarrow> cleanup_result" where
  "plain_result file_id status =
     \<lparr>cr_file = file_id, cr_status = status, cr_physical = False, cr_assets = []\<rparr>"

section \<open>The checks\<close>

definition active_record_exists :: "string \<Rightarrow> int \<Rightarrow> db \<Rightarrow> bool" where
  "active_record_exists service file_id d \<longleftrightarrow>
     (if service = astro then exists_row (active_astro_record file_id) (records d) else False)"

definition other_service_exists :: "string \<Rightarrow> int \<Rightarrow> db \<Rightarrow> bool" where
  "other_service_exists service file_id d \<longleftrightarrow>
     exists_row (\<lambda>l. fs_file l = file_id \<and> fs_service l \<noteq> service) (links d)"

definition processing_vision_exists :: "int \<Rightarrow> db \<Rightarrow> bool" where
  "processing_vision_exists file_id d \<longleftrightarrow>
     exists_row (\<lambda>j. vj_file j = file_id \<and> \<not> vj_deleted j \<and> vj_status j = PROCESSING) (vision_jobs d)"

definition active_plate_solve_exists :: "int \<Rightarrow> db \<Rightarrow> bool" where
  "active_plate_solve_exists file_id d \<longleftrightarrow>
     exists_row (\<lambda>j. ps_file j = file_id \<and> (ps_status j = WAITING \<or> ps_status j = PROCESSING)) (ps_jobs d)"

definition already_cleaned :: "common_file \<Rightarrow> bool" where
  "already_cleaned f \<longleftrightarrow> cf_deleted f \<and>
     no_path (cf_original_path f) \<and> no_path (cf_preview_path f) \<and> no_path (cf_thumb_path f)"

section \<open>The writes\<close>

definition remove_own_link :: "string \<Rightarrow> int \<Rightarrow> db \<Rightarrow> db" where
  "remove_own_link service file_id d =
     d\<lparr>links := delete_where (\<lambda>l. fs_file l = file_id \<and> fs_service l = service) (links d)\<rparr>"

definition tombstone_file :: "common_file \<Rightarrow> common_file" where
  "tombstone_file f = f\<lparr>cf_original_path := None, cf_preview_path := None, cf_thumb_path := None,
                        cf_deleted := True\<rparr>"

definition cleanup_rows :: "string \<Rightarrow> common_file \<Rightarrow> db \<Rightarrow> db" where
  "cleanup_rows service f d =
     remove_own_link service (cf_id f)
       (d\<lparr>metadata_files := delete_where (\<lambda>i. i = cf_id f) (metadata_files d),
          tag_files := delete_where (\<lambda>i. i = cf_id f) (tag_files d),
          vision_jobs := update_where (\<lambda>j. vj_file j = cf_id f) (\<lambda>j. j\<lparr>vj_deleted := True\<rparr>) (vision_jobs d),
          files := save_row cf_id (tombstone_file f) (files d)\<rparr>)"

definition cleanup_for_reset ::
  "storage_env \<Rightarrow> string \<Rightarrow> bool \<Rightarrow> int \<Rightarrow> db \<times> disk \<Rightarrow> cleanup_result \<times> db \<times> disk" where
  "cleanup_for_reset env service db_ok file_id s =
     (case s of (d, k) \<Rightarrow>
      case find_row cf_id file_id (files d) of
        None \<Rightarrow> (plain_result file_id FILE_NOT_FOUND, d, k)
      | Some common_file \<Rightarrow>
         if active_record_exists service file_id d then (plain_result file_id PRESERVED_ACTIVE_RECORD, d, k)
         else if other_service_exists service file_id d then
           (if db_ok then (plain_result file_id PRESERVED_OTHER_SERVICE, remove_own_link service file_id d, k)
            else (plain_result file_id DATABASE_CLEANUP_FAILED, d, k))
         else if processing_vision_exists file_id d then (plain_result file_id PRESERVED_PROCESSING_VISION, d, k)
         else if active_plate_solve_exists file_id d then (plain_result file_id PRESERVED_ACTIVE_PLATE_SOLVE, d, k)
         else if already_cleaned common_file then (plain_result file_id ALREADY_CLEANED, d, k)
         else
           (let (results, k1) = delete_common_file_assets env common_file k;
                result = (\<lambda>st. \<lparr>cr_file = file_id, cr_status = st, cr_physical = any_deleted results,
                                cr_assets = results\<rparr>)
            in if \<not> all_assets_ok results then (result ASSET_DELETE_FAILED, d, k1)
               else if db_ok then (result CLEANED, cleanup_rows service common_file d, k1)
               else (result DATABASE_CLEANUP_FAILED, d, k1)))"

definition cleanup_if_unreferenced ::
  "storage_env \<Rightarrow> string \<Rightarrow> bool \<Rightarrow> int \<Rightarrow> db \<times> disk \<Rightarrow> cleanup_result \<times> db \<times> disk" where
  "cleanup_if_unreferenced = cleanup_for_reset"

section \<open>The bulk half, for the reset\<close>

record reset_assets =
  ra_succeeded :: bool
  ra_originals :: nat
  ra_previews :: nat
  ra_thumbs :: nat
  ra_failed_file :: "int option"

definition count_deleted :: "asset_kind \<Rightarrow> (asset_kind \<times> asset_status) list \<Rightarrow> nat" where
  "count_deleted kind results = (if (kind, DELETED) \<in> set results then 1 else 0)"

fun delete_reset_assets_from ::
  "storage_env \<Rightarrow> nat \<times> nat \<times> nat \<Rightarrow> common_file list \<Rightarrow> disk \<Rightarrow> reset_assets \<times> disk" where
  "delete_reset_assets_from env (o_n, p_n, t_n) [] k =
     (\<lparr>ra_succeeded = True, ra_originals = o_n, ra_previews = p_n, ra_thumbs = t_n, ra_failed_file = None\<rparr>, k)"
| "delete_reset_assets_from env (o_n, p_n, t_n) (f # fs) k =
     (let (results, k1) = delete_common_file_assets env f k in
      if \<not> all_assets_ok results
      then (\<lparr>ra_succeeded = False, ra_originals = o_n, ra_previews = p_n, ra_thumbs = t_n,
             ra_failed_file = Some (cf_id f)\<rparr>, k1)
      else delete_reset_assets_from env
             (o_n + count_deleted Original results, p_n + count_deleted Preview results,
              t_n + count_deleted Thumb results) fs k1)"

definition delete_reset_assets :: "storage_env \<Rightarrow> common_file list \<Rightarrow> disk \<Rightarrow> reset_assets \<times> disk" where
  "delete_reset_assets env = delete_reset_assets_from env (0, 0, 0)"

definition stage_reset_database_cleanup :: "string \<Rightarrow> int list \<Rightarrow> int list \<Rightarrow> db \<Rightarrow> nat \<times> db" where
  "stage_reset_database_cleanup service astro_only target d =
     (let d1 = (if astro_only = [] then d else
             d\<lparr>metadata_files := delete_where (\<lambda>i. i \<in> set astro_only) (metadata_files d),
               tag_files := delete_where (\<lambda>i. i \<in> set astro_only) (tag_files d),
               vision_jobs := update_where (\<lambda>j. vj_file j \<in> set astro_only)
                                (\<lambda>j. j\<lparr>vj_deleted := True\<rparr>) (vision_jobs d),
               files := update_where (\<lambda>f. cf_id f \<in> set astro_only) tombstone_file (files d)\<rparr>);
          own = (\<lambda>l. fs_file l \<in> set target \<and> fs_service l = service)
      in if target = [] then (0, d1)
         else (count_where own (links d1), d1\<lparr>links := delete_where own (links d1)\<rparr>))"

section \<open>Properties\<close>

text \<open>When the policy lets a file go.\<close>

definition unreferenced :: "string \<Rightarrow> int \<Rightarrow> db \<Rightarrow> bool" where
  "unreferenced service file_id d \<longleftrightarrow>
     (service = astro \<longrightarrow> (\<forall>r\<in>set (records d). \<not> active_astro_record file_id r)) \<and>
     (\<forall>l\<in>set (links d). fs_file l = file_id \<longrightarrow> fs_service l = service) \<and>
     (\<forall>j\<in>set (vision_jobs d). vj_file j = file_id \<and> vj_status j = PROCESSING \<longrightarrow> vj_deleted j) \<and>
     (\<forall>j\<in>set (ps_jobs d). ps_file j = file_id \<longrightarrow> ps_status j \<noteq> WAITING \<and> ps_status j \<noteq> PROCESSING)"

lemma cleanup_cases:
  assumes "cleanup_for_reset env service db_ok file_id (d, k) = (res, d', k')"
  obtains (kept) "d' = d" "k' = k" "cr_status res \<noteq> CLEANED"
    | (unlinked) "d' = remove_own_link service file_id d" "k' = k" "cr_status res = PRESERVED_OTHER_SERVICE"
    | (cleaned) f results where "find_row cf_id file_id (files d) = Some f" "unreferenced service file_id d"
        "delete_common_file_assets env f k = (results, k')"
        "cr_status res = CLEANED \<and> all_assets_ok results \<and> d' = cleanup_rows service f d \<or>
         cr_status res \<noteq> CLEANED \<and> d' = d"
proof (cases "k' = k \<and> (d' = d \<and> cr_status res \<noteq> CLEANED \<or>
    d' = remove_own_link service file_id d \<and> cr_status res = PRESERVED_OTHER_SERVICE)")
  case True
  then show ?thesis using kept unlinked by blast
next
  case False
  then obtain f where f: "find_row cf_id file_id (files d) = Some f"
    using assms by (auto simp: cleanup_for_reset_def plain_result_def split: option.splits)
  obtain results k1 where del: "delete_common_file_assets env f k = (results, k1)" by fastforce
  have "unreferenced service file_id d"
    using False assms f del
    by (auto simp: cleanup_for_reset_def unreferenced_def active_record_exists_def other_service_exists_def
        processing_vision_exists_def active_plate_solve_exists_def exists_row_iff plain_result_def Let_def
        split: if_splits)
  moreover have "k1 = k' \<and> (cr_status res = CLEANED \<and> all_assets_ok results \<and> d' = cleanup_rows service f d \<or>
      cr_status res \<noteq> CLEANED \<and> d' = d)"
    using False assms f del
    by (auto simp: cleanup_for_reset_def plain_result_def Let_def split: if_splits)
  ultimately show ?thesis using f del cleaned by blast
qed


text \<open>
  What CLEANED means: no asset of the file exists on the disk any more, its row stays as a
  tombstone without paths, its metadata, tags and own links are gone and its vision jobs are
  retired; and asking again changes nothing and says ALREADY_CLEANED.
\<close>

theorem cleanup_complete_idempotent:
  assumes "cleanup_for_reset env service db_ok file_id (d, k) = (res, d', k')" and "cr_status res = CLEANED"
  shows "(\<exists>f. find_row cf_id file_id (files d) = Some f \<and>
        find_row cf_id file_id (files d') = Some (tombstone_file f) \<and>
        (\<forall>kind\<in>set asset_kinds. \<forall>p. plan_asset env f kind = Target p \<longrightarrow> \<not> path_exists k' p)) \<and>
    file_id \<notin> set (metadata_files d') \<and> file_id \<notin> set (tag_files d') \<and>
    (\<forall>l\<in>set (links d'). fs_file l \<noteq> file_id) \<and> (\<forall>j\<in>set (vision_jobs d'). vj_file j = file_id \<longrightarrow> vj_deleted j) \<and>
    cleanup_for_reset env2 service ok2 file_id (d', k') = (plain_result file_id ALREADY_CLEANED, d', k')"
  using assms(1)
proof (cases rule: cleanup_cases)
  case (cleaned f results)
  have id: "cf_id f = file_id" and f: "f \<in> set (files d)" using cleaned(1) by (auto dest: find_row_SomeD)
  have ok: "all_assets_ok results" and d': "d' = cleanup_rows service f d" using cleaned(4) assms(2) by auto
  have row: "find_row cf_id file_id (files d') = Some (tombstone_file f)"
    using id f by (auto simp: d' cleanup_rows_def remove_own_link_def find_row_save_row tombstone_file_def)
  have gone: "\<forall>kind\<in>set asset_kinds. \<forall>p. plan_asset env f kind = Target p \<longrightarrow> \<not> path_exists k' p"
    using cleaned(3)
  proof (cases rule: delete_assets_cases)
    case deleted
    then show ?thesis using delete_plans_ok_absent[OF deleted(1) ok] by force
  qed (use ok in simp)
  have links: "\<forall>l\<in>set (links d'). fs_file l \<noteq> file_id"
    using cleaned(2) id by (auto simp: d' cleanup_rows_def remove_own_link_def unreferenced_def)
  have vision: "\<forall>j\<in>set (vision_jobs d'). vj_file j = file_id \<longrightarrow> vj_deleted j"
    using id by (auto simp: d' cleanup_rows_def remove_own_link_def set_update_where)
  have again: "cleanup_for_reset env2 service ok2 file_id (d', k') = (plain_result file_id ALREADY_CLEANED, d', k')"
  proof -
    have same: "records d' = records d" "ps_jobs d' = ps_jobs d"
      by (simp_all add: d' cleanup_rows_def remove_own_link_def)
    have "\<not> active_record_exists service file_id d'" "\<not> active_plate_solve_exists file_id d'"
      using cleaned(2) by (auto simp: same active_record_exists_def active_plate_solve_exists_def
          exists_row_iff unreferenced_def)
    moreover have "\<not> other_service_exists service file_id d'" "\<not> processing_vision_exists file_id d'"
      using links vision by (auto simp: other_service_exists_def processing_vision_exists_def exists_row_iff)
    moreover have "already_cleaned (tombstone_file f)"
      by (simp add: already_cleaned_def tombstone_file_def no_path_def)
    ultimately show ?thesis by (simp add: cleanup_for_reset_def row)
  qed
  have "file_id \<notin> set (metadata_files d')" "file_id \<notin> set (tag_files d')"
    using id by (simp_all add: d' cleanup_rows_def remove_own_link_def)
  then show ?thesis using row gone links vision cleaned(1) again by blast
qed (use assms(2) in simp_all)

definition demo_cleanup_db :: db where
  "demo_cleanup_db = empty_db\<lparr>files := [demo_file], links := [\<lparr>fs_file = 7, fs_service = astro\<rparr>],
     metadata_files := [7], tag_files := [7]\<rparr>"

lemma demo_cleanup:
  "cleanup_for_reset demo_env astro True 7 (demo_cleanup_db, demo_disk) =
     (\<lparr>cr_file = 7, cr_status = CLEANED, cr_physical = True,
        cr_assets = [(Original, DELETED), (Preview, ALREADY_ABSENT), (Thumb, ALREADY_ABSENT)]\<rparr>,
      empty_db\<lparr>files := [tombstone_file demo_file]\<rparr>, demo_disk\<lparr>dk_files := Map.empty\<rparr>)"
proof -
  have checks: "find_row cf_id 7 (files demo_cleanup_db) = Some demo_file"
      "\<not> active_record_exists astro 7 demo_cleanup_db" "\<not> other_service_exists astro 7 demo_cleanup_db"
      "\<not> processing_vision_exists 7 demo_cleanup_db" "\<not> active_plate_solve_exists 7 demo_cleanup_db"
      "\<not> already_cleaned demo_file"
    by (simp_all add: demo_cleanup_db_def demo_file_def empty_db_def active_record_exists_def
        other_service_exists_def processing_vision_exists_def active_plate_solve_exists_def exists_row_def
        already_cleaned_def)
  have rows: "cleanup_rows astro demo_file demo_cleanup_db = empty_db\<lparr>files := [tombstone_file demo_file]\<rparr>"
    by (simp add: cleanup_rows_def remove_own_link_def demo_cleanup_db_def empty_db_def delete_where_def
        save_row_def tombstone_file_def demo_file_def)
  show ?thesis
    using checks rows by (simp add: cleanup_for_reset_def demo_delete all_assets_ok_def asset_ok_def any_deleted_def)
qed

theorem cleanup_complete_idempotent_witness:
  "cleanup_for_reset demo_env astro False 7
      (empty_db\<lparr>files := [tombstone_file demo_file]\<rparr>, demo_disk\<lparr>dk_files := Map.empty\<rparr>) =
    (plain_result 7 ALREADY_CLEANED, empty_db\<lparr>files := [tombstone_file demo_file]\<rparr>,
     demo_disk\<lparr>dk_files := Map.empty\<rparr>)"
  using cleanup_complete_idempotent[OF demo_cleanup] by simp

definition demo_shared_db :: db where
  "demo_shared_db = demo_cleanup_db\<lparr>links := [\<lparr>fs_file = 7, fs_service = astro\<rparr>, \<lparr>fs_file = 7, fs_service = ''MemoryKeeper''\<rparr>]\<rparr>"


end
