(* ===== verification/AstroReset.thy ===== *)
theory AstroReset
  imports FileCleanup
begin

text \<open>
  The AstroJournal reset: \<open>AstroJournalResetService\<close>
  (\<open>src/app/astrojournal/services/reset_service.py\<close>), a preview and an execution that
  removes every trace of the service while the other services' files stay. The exclusive
  reset lock and the row locks make the execution one step; \<open>db_ok\<close> says that its commit
  does not raise. The lemmas show what a blocked, a failed and a completed reset leave behind.
\<close>

section \<open>Scope\<close>

record reset_scope =
  target_file_ids :: "int list"
  astro_only_file_ids :: "int list"
  shared_file_ids :: "int list"

definition sorted_ids :: "int list \<Rightarrow> int list" where
  "sorted_ids xs = sort (remdups xs)"

definition reset_scope_of :: "db \<Rightarrow> reset_scope" where
  "reset_scope_of d =
     (let linked = map fs_file (filter (\<lambda>l. fs_service l = astro) (links d));
          recorded = map or_file (filter (\<lambda>r. or_service r = astro) (records d));
          existing = filter (\<lambda>i. i \<in> set (linked @ recorded)) (map cf_id (files d));
          shared = map fs_file (filter (\<lambda>l. fs_file l \<in> set existing \<and> fs_service l \<noteq> astro) (links d))
      in \<lparr>target_file_ids = sorted_ids existing,
          astro_only_file_ids = sorted_ids (filter (\<lambda>i. i \<notin> set shared) existing),
          shared_file_ids = sorted_ids shared\<rparr>)"

definition common_files :: "int list \<Rightarrow> db \<Rightarrow> common_file list" where
  "common_files ids d = order_by cf_id (filter (\<lambda>f. cf_id f \<in> set ids) (files d))"

definition astro_uploads :: "db \<Rightarrow> upload_job list" where
  "astro_uploads d = filter (\<lambda>j. uj_service j = astro) (upload_jobs d)"

definition uploads_in :: "job_status \<Rightarrow> db \<Rightarrow> nat" where
  "uploads_in st d = count_where (\<lambda>j. uj_status j = st) (astro_uploads d)"

definition processing_vision_count :: "int list \<Rightarrow> db \<Rightarrow> nat" where
  "processing_vision_count astro_only d = (if astro_only = [] then 0 else
     count_where (\<lambda>j. vj_file j \<in> set astro_only \<and> \<not> vj_deleted j \<and> vj_status j = PROCESSING) (vision_jobs d))"

definition processing_plate_solves :: "db \<Rightarrow> nat" where
  "processing_plate_solves d = count_where (\<lambda>j. ps_status j = PROCESSING) (ps_jobs d)"

section \<open>Preview\<close>

record reset_preview =
  rp_observation_records :: nat
  rp_astro_files :: nat
  rp_astro_only_files :: nat
  rp_shared_files :: nat
  rp_plate_solve_results :: nat
  rp_photo_objects :: nat
  rp_upload_jobs :: nat
  rp_pending_uploads :: nat
  rp_processing_uploads :: nat
  rp_processing_vision :: nat
  rp_processing_jobs :: nat
  rp_originals :: nat
  rp_previews :: nat
  rp_thumbs :: nat
  rp_preserved_shared :: nat
  rp_blocked :: bool
  rp_blocked_reason :: "string option"

definition astro_reset_preview :: "db \<Rightarrow> reset_preview" where
  "astro_reset_preview d =
     (let scope = reset_scope_of d;
          uploads = uploads_in PROCESSING d;
          vision = processing_vision_count (astro_only_file_ids scope) d;
          solves = processing_plate_solves d;
          jobs = uploads + vision + solves;
          astro_files = common_files (astro_only_file_ids scope) d
      in \<lparr>rp_observation_records = count_where (\<lambda>r. or_service r = astro) (records d),
          rp_astro_files = length (target_file_ids scope),
          rp_astro_only_files = length (astro_only_file_ids scope),
          rp_shared_files = length (shared_file_ids scope),
          rp_plate_solve_results = 0, rp_photo_objects = 0,
          rp_upload_jobs = length (astro_uploads d),
          rp_pending_uploads = uploads_in WAITING d,
          rp_processing_uploads = uploads,
          rp_processing_vision = vision,
          rp_processing_jobs = jobs,
          rp_originals = count_where (\<lambda>f. \<not> no_path (cf_original_path f)) astro_files,
          rp_previews = count_where (\<lambda>f. \<not> no_path (cf_preview_path f)) astro_files,
          rp_thumbs = count_where (\<lambda>f. \<not> no_path (cf_thumb_path f)) astro_files,
          rp_preserved_shared = length (shared_file_ids scope),
          rp_blocked = (0 < jobs),
          rp_blocked_reason = (if 0 < jobs then Some ''PROCESSING_JOBS'' else None)\<rparr>)"

section \<open>Execution\<close>

datatype reset_error = ResetBlocked nat nat | ResetCleanupFailed | ResetCommitFailed

record reset_response =
  rr_records :: nat
  rr_links :: nat
  rr_tombstoned :: nat
  rr_preserved :: nat
  rr_uploads :: nat
  rr_originals :: nat
  rr_previews :: nat
  rr_thumbs :: nat
  rr_cursor :: int

definition reset_message :: string where
  "reset_message = ''AstroJournal Reset occurred before Plate Solve started''"

definition fail_waiting_solves :: "time \<Rightarrow> db \<Rightarrow> db" where
  "fail_waiting_solves now d = d\<lparr>ps_jobs := update_where (\<lambda>j. ps_status j = WAITING)
     (\<lambda>j. j\<lparr>ps_status := FAILED, ps_completed_at := Some now, ps_last_error := Some reset_message\<rparr>) (ps_jobs d)\<rparr>"

text \<open>The loop stops at the first incoming file that cannot be removed.\<close>

fun delete_upload_incoming_assets :: "storage_env \<Rightarrow> upload_job list \<Rightarrow> disk \<Rightarrow> bool \<times> disk" where
  "delete_upload_incoming_assets env [] k = (True, k)"
| "delete_upload_incoming_assets env (j # js) k =
     (let (st, k1) = delete_incoming_asset env (uj_incoming j) k
      in if asset_ok st then delete_upload_incoming_assets env js k1 else (False, k1))"

definition reset_rows :: "time \<Rightarrow> db \<Rightarrow> (nat \<times> nat \<times> nat) \<times> db" where
  "reset_rows now d =
     (let scope = reset_scope_of d;
          is_astro = (\<lambda>r. or_service r = astro);
          d1 = d\<lparr>records := delete_where is_astro (records d)\<rparr>;
          (removed, d2) = stage_reset_database_cleanup astro (astro_only_file_ids scope) (target_file_ids scope) d1;
          own = (\<lambda>j. uj_service j = astro);
          d3 = d2\<lparr>upload_jobs := delete_where own (upload_jobs d2)\<rparr>
      in ((count_where is_astro (records d), removed, count_where own (upload_jobs d2)),
          append_change now astro ''AstroJournalReset'' ''AstroJournal'' UPDATE None False d3))"

definition astro_reset_execute ::
  "storage_env \<Rightarrow> time \<Rightarrow> bool \<Rightarrow> db \<times> disk \<Rightarrow> (reset_error + reset_response) \<times> db \<times> disk" where
  "astro_reset_execute env now db_ok s =
     (case s of (d, k) \<Rightarrow>
      let snapshot = astro_reset_preview d in
      if rp_blocked snapshot
      then (Inl (ResetBlocked (rp_processing_uploads snapshot) (rp_processing_vision snapshot)), d, k)
      else
        let scope = reset_scope_of d;
            astro_files = common_files (astro_only_file_ids scope) d;
            (incoming_ok, k1) = delete_upload_incoming_assets env (astro_uploads d) k
        in if \<not> incoming_ok then (Inl ResetCleanupFailed, d, k1)
           else
             let (assets, k2) = delete_reset_assets env astro_files k1 in
             if \<not> ra_succeeded assets then (Inl ResetCleanupFailed, d, k2)
             else
               let ((n_records, n_links, n_uploads), d') = reset_rows now (fail_waiting_solves now d)
               in if \<not> db_ok then (Inl ResetCommitFailed, d, k2)
                  else (Inr \<lparr>rr_records = n_records, rr_links = n_links,
                             rr_tombstoned = length (astro_only_file_ids scope),
                             rr_preserved = length (shared_file_ids scope), rr_uploads = n_uploads,
                             rr_originals = ra_originals assets, rr_previews = ra_previews assets,
                             rr_thumbs = ra_thumbs assets, rr_cursor = change_seq d'\<rparr>, d', k2))"

section \<open>Laws\<close>

lemma set_sorted_ids [simp]: "set (sorted_ids xs) = set xs"
  by (simp add: sorted_ids_def)

lemma sorted_ids_Nil_iff [simp]: "sorted_ids xs = [] \<longleftrightarrow> xs = []"
  by (metis set_empty set_sorted_ids)

lemma scope_target:
  "i \<in> set (target_file_ids (reset_scope_of d)) \<longleftrightarrow>
     (\<exists>f\<in>set (files d). cf_id f = i) \<and>
     ((\<exists>l\<in>set (links d). fs_file l = i \<and> fs_service l = astro) \<or>
      (\<exists>r\<in>set (records d). or_file r = i \<and> or_service r = astro))"
  by (auto simp: reset_scope_of_def Let_def image_iff)

lemma scope_astro_only:
  "i \<in> set (astro_only_file_ids (reset_scope_of d)) \<longleftrightarrow>
     i \<in> set (target_file_ids (reset_scope_of d)) \<and>
     (\<forall>l\<in>set (links d). fs_file l = i \<longrightarrow> fs_service l = astro)"
proof -
  define ex where "ex = filter (\<lambda>i. i \<in> set (map fs_file (filter (\<lambda>l. fs_service l = astro) (links d)) @
      map or_file (filter (\<lambda>r. or_service r = astro) (records d)))) (map cf_id (files d))"
  have "target_file_ids (reset_scope_of d) = sorted_ids ex"
    and "astro_only_file_ids (reset_scope_of d) = sorted_ids (filter (\<lambda>i. i \<notin> set (map fs_file
          (filter (\<lambda>l. fs_file l \<in> set ex \<and> fs_service l \<noteq> astro) (links d)))) ex)"
    by (simp_all add: reset_scope_of_def Let_def ex_def)
  then show ?thesis by (auto simp: image_iff)
qed

text \<open>Every link of AstroJournal points to a row, by the foreign key.\<close>

definition links_resolve :: "db \<Rightarrow> bool" where
  "links_resolve d \<longleftrightarrow> (\<forall>l\<in>set (links d). fs_file l \<in> cf_id ` set (files d))"

lemma stage_fields:
  assumes "stage_reset_database_cleanup sv ao tg d = (n, d')"
  shows "records d' = records d \<and> ps_jobs d' = ps_jobs d \<and> upload_jobs d' = upload_jobs d \<and>
    changes d' = changes d \<and> change_seq d' = change_seq d \<and>
    files d' = update_where (\<lambda>f. cf_id f \<in> set ao) tombstone_file (files d) \<and>
    metadata_files d' = delete_where (\<lambda>i. i \<in> set ao) (metadata_files d) \<and>
    tag_files d' = delete_where (\<lambda>i. i \<in> set ao) (tag_files d) \<and>
    links d' = delete_where (\<lambda>l. fs_file l \<in> set tg \<and> fs_service l = sv) (links d) \<and>
    n = count_where (\<lambda>l. fs_file l \<in> set tg \<and> fs_service l = sv) (links d)"
  using assms
  by (auto simp: stage_reset_database_cleanup_def Let_def delete_where_def count_where_def
      update_where_unmatched split: if_splits)

lemma execute_Inr:
  assumes "astro_reset_execute env now db_ok (d, k) = (Inr resp, d', k')"
  obtains k1 assets n_rec n_links n_up where
    "\<not> rp_blocked (astro_reset_preview d)"
    "delete_upload_incoming_assets env (astro_uploads d) k = (True, k1)"
    "delete_reset_assets env (common_files (astro_only_file_ids (reset_scope_of d)) d) k1 = (assets, k')"
    "ra_succeeded assets" "reset_rows now (fail_waiting_solves now d) = ((n_rec, n_links, n_up), d')"
    "rr_records resp = n_rec" "rr_links resp = n_links" "rr_uploads resp = n_up"
    "rr_tombstoned resp = length (astro_only_file_ids (reset_scope_of d))"
    "rr_preserved resp = length (shared_file_ids (reset_scope_of d))"
    "rr_cursor resp = change_seq d'"
  using assms by (auto simp: astro_reset_execute_def Let_def split: if_splits prod.splits)

lemma reset_rows_fields:
  assumes "reset_rows now d = ((n_rec, n_links, n_up), d')"
  shows "records d' = delete_where (\<lambda>r. or_service r = astro) (records d)"
    "links d' = delete_where (\<lambda>l. fs_file l \<in> set (target_file_ids (reset_scope_of d)) \<and> fs_service l = astro) (links d)"
    "upload_jobs d' = delete_where (\<lambda>j. uj_service j = astro) (upload_jobs d)"
    "files d' = update_where (\<lambda>f. cf_id f \<in> set (astro_only_file_ids (reset_scope_of d))) tombstone_file (files d)"
    "ps_jobs d' = ps_jobs d"
    "metadata_files d' = delete_where (\<lambda>i. i \<in> set (astro_only_file_ids (reset_scope_of d))) (metadata_files d)"
    "tag_files d' = delete_where (\<lambda>i. i \<in> set (astro_only_file_ids (reset_scope_of d))) (tag_files d)"
    "changes d' = changes d @ [\<lparr>ce_id = change_seq d + 1, ce_service = astro, ce_type = ''AstroJournalReset'',
       ce_resource = ''AstroJournal'', ce_operation = UPDATE, ce_revision = None, ce_tombstone = False,
       ce_changed_at = now\<rparr>]" "change_seq d' = change_seq d + 1"
    "n_rec = count_where (\<lambda>r. or_service r = astro) (records d)"
    "n_up = count_where (\<lambda>j. uj_service j = astro) (upload_jobs d)"
    "n_links = count_where (\<lambda>l. fs_file l \<in> set (target_file_ids (reset_scope_of d)) \<and> fs_service l = astro) (links d)"
proof -
  obtain n d2 where st: "stage_reset_database_cleanup astro (astro_only_file_ids (reset_scope_of d))
      (target_file_ids (reset_scope_of d)) (d\<lparr>records := delete_where (\<lambda>r. or_service r = astro) (records d)\<rparr>) = (n, d2)"
    by fastforce
  note f = stage_fields[OF st]
  show "records d' = delete_where (\<lambda>r. or_service r = astro) (records d)"
    "links d' = delete_where (\<lambda>l. fs_file l \<in> set (target_file_ids (reset_scope_of d)) \<and> fs_service l = astro) (links d)"
    "upload_jobs d' = delete_where (\<lambda>j. uj_service j = astro) (upload_jobs d)"
    "files d' = update_where (\<lambda>f. cf_id f \<in> set (astro_only_file_ids (reset_scope_of d))) tombstone_file (files d)"
    "ps_jobs d' = ps_jobs d"
    "metadata_files d' = delete_where (\<lambda>i. i \<in> set (astro_only_file_ids (reset_scope_of d))) (metadata_files d)"
    "tag_files d' = delete_where (\<lambda>i. i \<in> set (astro_only_file_ids (reset_scope_of d))) (tag_files d)"
    "changes d' = changes d @ [\<lparr>ce_id = change_seq d + 1, ce_service = astro, ce_type = ''AstroJournalReset'',
       ce_resource = ''AstroJournal'', ce_operation = UPDATE, ce_revision = None, ce_tombstone = False,
       ce_changed_at = now\<rparr>]" "change_seq d' = change_seq d + 1"
    "n_rec = count_where (\<lambda>r. or_service r = astro) (records d)"
    "n_up = count_where (\<lambda>j. uj_service j = astro) (upload_jobs d)"
    "n_links = count_where (\<lambda>l. fs_file l \<in> set (target_file_ids (reset_scope_of d)) \<and> fs_service l = astro) (links d)"
    using assms st f by (auto simp: reset_rows_def Let_def append_change_def)
qed

lemma scope_fail_waiting [simp]: "reset_scope_of (fail_waiting_solves now d) = reset_scope_of d"
  by (simp add: reset_scope_of_def fail_waiting_solves_def)

lemma delete_incoming_disk:
  assumes "delete_incoming_asset env p k = (st, k')"
  shows "dk_files k' q = dk_files k q \<or>
    dk_files k' q = None \<and> resolve_asset_delete_path env (se_incoming env) p = Inr q"
proof (cases "resolve_asset_delete_path env (se_incoming env) p")
  case (Inr t)
  then have "delete_target t k = (st, k')" using assms by (simp add: delete_incoming_asset_def)
  from delete_target_disk(1)[OF this] Inr show ?thesis by (auto split: if_splits)
qed (use assms in \<open>simp add: delete_incoming_asset_def\<close>)

lemma delete_uploads_disk:
  "delete_upload_incoming_assets env js k = (ok, k') \<Longrightarrow> dk_files k' q = dk_files k q \<or>
     dk_files k' q = None \<and> (\<exists>j\<in>set js. resolve_asset_delete_path env (se_incoming env) (uj_incoming j) = Inr q)"
proof (induction env js k rule: delete_upload_incoming_assets.induct)
  case (2 env j js k)
  obtain st k1 where d: "delete_incoming_asset env (uj_incoming j) k = (st, k1)" by fastforce
  note step = delete_incoming_disk[OF d, of q]
  show ?case
  proof (cases "asset_ok st")
    case True
    then have "delete_upload_incoming_assets env js k1 = (ok, k')" using 2(2) d by simp
    from "2.IH"[OF d[symmetric] refl True this] step show ?thesis by auto
  next
    case False
    then show ?thesis using 2(2) d step by auto
  qed
qed simp

lemma delete_assets_disk:
  assumes "delete_common_file_assets env f k = (res, k')"
  shows "dk_files k' q = dk_files k q \<or>
    dk_files k' q = None \<and> (\<exists>kind\<in>set asset_kinds. plan_asset env f kind = Target q)"
  using assms
proof (cases rule: delete_assets_cases)
  case deleted
  then show ?thesis using delete_plans_files[OF deleted(1), of q] by force
qed simp

lemma delete_reset_disk:
  "delete_reset_assets_from env c fs k = (ra, k') \<Longrightarrow> dk_files k' q = dk_files k q \<or>
     dk_files k' q = None \<and> (\<exists>f\<in>set fs. \<exists>kind\<in>set asset_kinds. plan_asset env f kind = Target q)"
proof (induction env c fs k rule: delete_reset_assets_from.induct)
  case (2 env a b c f fs k)
  obtain res k1 where d: "delete_common_file_assets env f k = (res, k1)" by fastforce
  note step = delete_assets_disk[OF d, of q]
  show ?case
  proof (cases "all_assets_ok res")
    case True
    then have "delete_reset_assets_from env (a + count_deleted Original res, b + count_deleted Preview res,
        c + count_deleted Thumb res) fs k1 = (ra, k')" using 2(2) d by simp
    from "2.IH"[OF d[symmetric] refl _ this] True step show ?thesis by auto
  next
    case False
    then show ?thesis using 2(2) d step by auto
  qed
qed simp

section \<open>Properties\<close>

text \<open>
  A reset that does not complete changes no row: it is refused outright, with the disk as
  it was, exactly while an AstroJournal upload, a vision job of an AstroJournal-only file or
  any plate solve is being processed; and when an asset cannot be deleted or the commit
  fails, the database is as before.
\<close>

theorem reset_failure_keeps_rows:
  "(fst (astro_reset_execute env now db_ok (d, k)) = Inl (ResetBlocked u v) \<longrightarrow>
      snd (astro_reset_execute env now db_ok (d, k)) = (d, k)) \<and>
   ((\<exists>u v. fst (astro_reset_execute env now db_ok (d, k)) = Inl (ResetBlocked u v)) \<longleftrightarrow>
      (\<exists>j\<in>set (upload_jobs d). uj_service j = astro \<and> uj_status j = PROCESSING) \<or>
      (\<exists>j\<in>set (vision_jobs d). vj_file j \<in> set (astro_only_file_ids (reset_scope_of d)) \<and>
         \<not> vj_deleted j \<and> vj_status j = PROCESSING) \<or>
      (\<exists>j\<in>set (ps_jobs d). ps_status j = PROCESSING)) \<and>
   (fst (astro_reset_execute env now db_ok (d, k)) = Inl e \<longrightarrow>
      fst (snd (astro_reset_execute env now db_ok (d, k))) = d)"
proof -
  have pos: "0 < count_where P rows \<longleftrightarrow> (\<exists>r\<in>set rows. P r)" for P :: "'x \<Rightarrow> bool" and rows
    by (auto simp: count_where_def filter_empty_conv)
  have blocked: "rp_blocked (astro_reset_preview d) \<longleftrightarrow>
      (\<exists>j\<in>set (upload_jobs d). uj_service j = astro \<and> uj_status j = PROCESSING) \<or>
      (\<exists>j\<in>set (vision_jobs d). vj_file j \<in> set (astro_only_file_ids (reset_scope_of d)) \<and>
         \<not> vj_deleted j \<and> vj_status j = PROCESSING) \<or>
      (\<exists>j\<in>set (ps_jobs d). ps_status j = PROCESSING)"
    by (auto simp: astro_reset_preview_def Let_def uploads_in_def astro_uploads_def pos[simplified]
        processing_vision_count_def processing_plate_solves_def count_where_def filter_empty_conv)
  show ?thesis unfolding blocked[symmetric]
    by (auto simp: astro_reset_execute_def Let_def split: if_splits prod.splits)
qed


lemma count_deleted_le: "delete_common_file_assets env f k = (res, k') \<Longrightarrow> all_assets_ok res \<Longrightarrow> kind \<in> set asset_kinds
    \<Longrightarrow> count_deleted kind res \<le> (if no_path (stored_path f kind) then 0 else 1)"
proof (erule delete_assets_cases)
  assume plans: "delete_plans (map (\<lambda>kind. (kind, plan_asset env f kind)) asset_kinds) k = (res, k')"
    and kind: "kind \<in> set asset_kinds"
  have none: "(kd, DELETED) \<notin> set r" if "delete_plans ps k0 = (r, k1)" "\<forall>pl. (kd, Target pl) \<notin> set ps" for kd ps k0 r k1
    using that
  proof (induction ps k0 arbitrary: r k1 rule: delete_plans.induct)
    case (2 kd' p ps k0)
    then show ?case by (fastforce simp: Let_def split: prod.splits)
  qed (auto simp: Let_def split: prod.splits)
  show ?thesis
  proof (cases "no_path (stored_path f kind)")
    case True
    then have "\<forall>pl. (kind, Target pl) \<notin> set (map (\<lambda>kind. (kind, plan_asset env f kind)) asset_kinds)"
      by (auto simp: plan_asset_def)
    then show ?thesis using none[OF plans] True by (simp add: count_deleted_def)
  qed (simp add: count_deleted_def)
qed simp

lemma delete_reset_counts:
  "delete_reset_assets_from env (a, b, c) fs k = (ra, k') \<Longrightarrow> ra_succeeded ra \<Longrightarrow>
     ra_originals ra \<le> a + count_where (\<lambda>f. \<not> no_path (cf_original_path f)) fs \<and>
     ra_previews ra \<le> b + count_where (\<lambda>f. \<not> no_path (cf_preview_path f)) fs \<and>
     ra_thumbs ra \<le> c + count_where (\<lambda>f. \<not> no_path (cf_thumb_path f)) fs"
proof (induction env "(a, b, c)" fs k arbitrary: a b c rule: delete_reset_assets_from.induct)
  case (2 env a b c f fs k)
  obtain res k1 where d: "delete_common_file_assets env f k = (res, k1)" by fastforce
  have ok: "all_assets_ok res" using 2(2,3) d by (auto split: if_splits)
  have rest: "delete_reset_assets_from env (a + count_deleted Original res, b + count_deleted Preview res,
        c + count_deleted Thumb res) fs k1 = (ra, k')" using 2(2) d ok by simp
  note le = count_deleted_le[OF d ok, unfolded asset_kinds_def]
  show ?case using 2(1)[OF d[symmetric] refl _ rest 2(3)] ok le[of Original] le[of Preview] le[of Thumb]
    by (auto simp: stored_path_def split: if_splits)
qed auto

text \<open>
  The preview tells the truth: a reset that runs on the state the preview was computed from
  deletes exactly the announced records and upload jobs, tombstones and preserves exactly the
  announced files, and deletes at most the announced numbers of originals, previews and
  thumbnails.
\<close>

theorem reset_preview_accurate:
  assumes "astro_reset_execute env now db_ok (d, k) = (Inr resp, d', k')"
  shows "rr_records resp = rp_observation_records (astro_reset_preview d) \<and>
    rr_uploads resp = rp_upload_jobs (astro_reset_preview d) \<and>
    rr_tombstoned resp = rp_astro_only_files (astro_reset_preview d) \<and>
    rr_preserved resp = rp_shared_files (astro_reset_preview d) \<and>
    rr_originals resp \<le> rp_originals (astro_reset_preview d) \<and>
    rr_previews resp \<le> rp_previews (astro_reset_preview d) \<and>
    rr_thumbs resp \<le> rp_thumbs (astro_reset_preview d)"
  using assms
proof (cases rule: execute_Inr)
  case (1 k1 assets n_rec n_links n_up)
  note f = reset_rows_fields[OF 1(5)]
  have "rr_originals resp = ra_originals assets \<and> rr_previews resp = ra_previews assets \<and> rr_thumbs resp = ra_thumbs assets"
    using assms 1(1-4) by (auto simp: astro_reset_execute_def Let_def split: if_splits prod.splits)
  moreover note delete_reset_counts[OF 1(3)[unfolded delete_reset_assets_def] 1(4)]
  ultimately show ?thesis
    using 1 f(10,11)
    by (auto simp: astro_reset_preview_def Let_def fail_waiting_solves_def astro_uploads_def count_where_def)
qed

text \<open>An example: one AstroJournal-only photo and one shared with MemoryKeeper.\<close>

definition demo_reset_db :: db where
  "demo_reset_db = demo_cleanup_db\<lparr>
     files := [demo_file, demo_file\<lparr>cf_id := 8, cf_original_path := Some ''original/sh.jpg''\<rparr>],
     links := [\<lparr>fs_file = 7, fs_service = astro\<rparr>, \<lparr>fs_file = 8, fs_service = astro\<rparr>,
               \<lparr>fs_file = 8, fs_service = ''MemoryKeeper''\<rparr>]\<rparr>"

lemma demo_reset:
  "\<exists>resp d' k'. astro_reset_execute demo_env 5 True (demo_reset_db, demo_disk) = (Inr resp, d', k') \<and>
     rr_tombstoned resp = 1 \<and> rr_preserved resp = 1"
proof -
  have scope: "reset_scope_of demo_reset_db =
      \<lparr>target_file_ids = [7, 8], astro_only_file_ids = [7], shared_file_ids = [8]\<rparr>"
    by (simp add: reset_scope_of_def demo_reset_db_def demo_cleanup_db_def empty_db_def sorted_ids_def demo_file_def astro_def)
  have cf: "common_files [7] demo_reset_db = [demo_file]"
    by (simp add: common_files_def demo_reset_db_def demo_file_def order_by_def)
  have up: "astro_uploads demo_reset_db = []" "vision_jobs demo_reset_db = []" "ps_jobs demo_reset_db = []"
    by (simp_all add: astro_uploads_def demo_reset_db_def demo_cleanup_db_def empty_db_def)
  have nb: "\<not> rp_blocked (astro_reset_preview demo_reset_db)"
    by (simp add: astro_reset_preview_def Let_def uploads_in_def up processing_vision_count_def
        processing_plate_solves_def)
  have del: "delete_reset_assets demo_env [demo_file] demo_disk =
      (\<lparr>ra_succeeded = True, ra_originals = 1, ra_previews = 0, ra_thumbs = 0, ra_failed_file = None\<rparr>,
       demo_disk\<lparr>dk_files := Map.empty\<rparr>)"
    by (simp add: delete_reset_assets_def demo_delete all_assets_ok_def asset_ok_def count_deleted_def)
  show ?thesis using nb by (simp add: astro_reset_execute_def Let_def scope cf up del split: prod.split)
qed


theorem reset_preview_accurate_witness:
  "\<exists>resp d' k'. astro_reset_execute demo_env 5 True (demo_reset_db, demo_disk) = (Inr resp, d', k') \<and>
     rp_astro_only_files (astro_reset_preview demo_reset_db) = 1 \<and>
     rp_shared_files (astro_reset_preview demo_reset_db) = 1"
proof -
  obtain resp d' k' where r: "astro_reset_execute demo_env 5 True (demo_reset_db, demo_disk) = (Inr resp, d', k')"
    and "rr_tombstoned resp = 1" "rr_preserved resp = 1"
    using demo_reset by blast
  then show ?thesis using reset_preview_accurate[OF r] by auto
qed

definition demo_solving :: ps_job where
  "demo_solving = ps_claimed ''w'' 60 3 (ps_new_job ''j'' 7 None 1)"

theorem reset_failure_keeps_rows_witness:
  "\<exists>u v. fst (astro_reset_execute demo_env 5 True (demo_reset_db\<lparr>ps_jobs := [demo_solving]\<rparr>, demo_disk))
      = Inl (ResetBlocked u v) \<and>
    snd (astro_reset_execute demo_env 5 True (demo_reset_db\<lparr>ps_jobs := [demo_solving]\<rparr>, demo_disk))
      = (demo_reset_db\<lparr>ps_jobs := [demo_solving]\<rparr>, demo_disk)"
proof -
  let ?d = "demo_reset_db\<lparr>ps_jobs := [demo_solving]\<rparr>"
  have "\<exists>j\<in>set (ps_jobs ?d). ps_status j = PROCESSING" by (simp add: demo_solving_def ps_claimed_def)
  then obtain u v where "fst (astro_reset_execute demo_env 5 True (?d, demo_disk)) = Inl (ResetBlocked u v)"
    using reset_failure_keeps_rows[where d = ?d and env = demo_env and now = 5 and db_ok = True and k = demo_disk]
    by blast
  then show ?thesis
    using reset_failure_keeps_rows[where d = ?d and env = demo_env and now = 5 and db_ok = True and k = demo_disk
        and u = u and v = v] by blast
qed

end
