(* ===== verification/UploadLaws.thy ===== *)
theory UploadLaws
  imports UploadJobs
begin

text \<open>
  The life of an upload job under any mix of workers: the well-formedness of the rows, the
  transitions between the statuses, the order of claims, and what can and cannot go wrong when
  a lease runs out.
\<close>

section \<open>Well-formed rows and their transitions\<close>

definition uj_row_ok :: "upload_job \<Rightarrow> bool" where
  "uj_row_ok j \<longleftrightarrow> 0 \<le> uj_retry_count j \<and>
     (case uj_status j of
        WAITING \<Rightarrow> uj_started_at j = None \<and> uj_completed_at j = None \<and> uj_file_id j = None
      | PROCESSING \<Rightarrow> uj_started_at j \<noteq> None \<and> uj_completed_at j = None \<and> uj_file_id j = None
      | COMPLETED \<Rightarrow> uj_file_id j \<noteq> None \<and> uj_completed_at j \<noteq> None
      | FAILED \<Rightarrow> uj_completed_at j \<noteq> None \<and> uj_error j \<noteq> None
      | SKIPPED \<Rightarrow> False)"

inductive uj_edge :: "job_status \<Rightarrow> job_status \<Rightarrow> bool" where
  stay: "uj_edge s s"
| claim: "uj_edge WAITING PROCESSING"
| recover: "uj_edge PROCESSING WAITING"
| complete: "uj_edge PROCESSING COMPLETED"
| fail: "uj_edge PROCESSING FAILED"

inductive_simps uj_edge_simps [simp]:
  "uj_edge WAITING s" "uj_edge PROCESSING s" "uj_edge COMPLETED s" "uj_edge FAILED s" "uj_edge SKIPPED s"

inductive_cases uj_edge_completedE: "uj_edge COMPLETED s"

definition uj_moves :: "upload_job \<Rightarrow> upload_job \<Rightarrow> bool" where
  "uj_moves r r' \<longleftrightarrow> uj_edge (uj_status r) (uj_status r') \<and>
     uj_job_id r' = uj_job_id r \<and> uj_service r' = uj_service r \<and> uj_client_id r' = uj_client_id r \<and>
     uj_incoming r' = uj_incoming r \<and> uj_created_at r' = uj_created_at r \<and>
     (uj_status r = COMPLETED \<or> uj_status r = FAILED \<longrightarrow>
        uj_file_id r' = uj_file_id r \<and> uj_completed_at r' = uj_completed_at r \<and> uj_error r' = uj_error r)"

definition uj_change :: "upload_job \<Rightarrow> upload_job \<Rightarrow> bool" where
  "uj_change r r' \<longleftrightarrow> uj_id r' = uj_id r \<and> uj_moves r r' \<and> (uj_row_ok r \<longrightarrow> uj_row_ok r')"

lemma uj_change_refl [simp]: "uj_change r r"
  by (simp add: uj_change_def uj_moves_def stay)

datatype uj_op =
    UjCreate upload_job
  | UjSetSha upload_job string
  | UjClaim "int list" string time
  | UjClaimFallback "upload_job list" string time
  | UjTouch string time
  | UjRecover "int list" int string nat time
  | UjRecoverFallback int string nat time
  | UjComplete upload_job string time
  | UjFail upload_job string time

text \<open>A created row has the fields \<open>create_waiting_job\<close> gives it.\<close>

definition fresh_upload :: "upload_job \<Rightarrow> upload_job" where
  "fresh_upload j = uj_new (uj_id j) (uj_created_at j) (uj_job_id j) (uj_source j) (uj_incoming j) (uj_service j)
     (uj_client_id j) (uj_client_sha j) (uj_log j)"

fun uj_step :: "uj_op \<Rightarrow> upload_job list \<Rightarrow> upload_job list" where
  "uj_step (UjCreate j) rows =
     (case uj_create_waiting (fresh_upload j) rows of Inl _ \<Rightarrow> rows | Inr (_, rows') \<Rightarrow> rows')"
| "uj_step (UjSetSha j sha) rows = snd (uj_set_client_sha j sha rows)"
| "uj_step (UjClaim locked w now) rows = snd (uj_claim_postgres locked w now rows)"
| "uj_step (UjClaimFallback seen w now) rows = snd (uj_claim_fallback seen w now rows)"
| "uj_step (UjTouch job_id now) rows = snd (uj_touch_lease job_id now rows)"
| "uj_step (UjRecover locked secs w limit now) rows = snd (uj_recover_stale locked secs w limit now rows)"
| "uj_step (UjRecoverFallback secs w limit now) rows = snd (uj_recover_fallback secs w limit now rows)"
| "uj_step (UjComplete j fid now) rows = snd (uj_mark_completed j fid now rows)"
| "uj_step (UjFail j msg now) rows = snd (uj_mark_failed j msg now rows)"

lemma change_update_where:
  assumes "\<And>r. r \<in> set rows \<Longrightarrow> P r \<Longrightarrow> uj_change r (f r)"
  shows "list_all2 uj_change rows (update_where P f rows)"
  using assms by (induction rows) auto

lemma change_save_row:
  assumes "\<And>r. r \<in> set rows \<Longrightarrow> uj_id r = uj_id r' \<Longrightarrow> uj_change r r'"
  shows "list_all2 uj_change rows (save_row uj_id r' rows)"
  unfolding save_row_def by (rule change_update_where) (use assms in auto)

lemma change_claimed: "uj_status r = WAITING \<Longrightarrow> uj_change r (uj_claimed w now r)"
  by (simp add: uj_change_def uj_moves_def uj_claimed_def uj_row_ok_def)

lemma change_recovered:
  "uj_status r = PROCESSING \<Longrightarrow> uj_completed_at r = None \<Longrightarrow> uj_change r (uj_recovered w r)"
  by (simp add: uj_change_def uj_moves_def uj_recovered_def uj_row_ok_def)

lemma recover_fallback_rows:
  "recover_fallback_from th w ids n rows = (m, rows') \<Longrightarrow>
     list_all2 (\<lambda>r r'. r' = r \<or> uj_status r = PROCESSING \<and> uj_completed_at r = None \<and> r' = uj_recovered w r) rows rows'"
proof (induction th w ids n rows rule: recover_fallback_from.induct)
  case (1 th w n rows)
  then show ?case by (simp add: list_all2_refl)
next
  case (2 th w i ids n rows)
  show ?case
  proof (cases "List.find (\<lambda>j. uj_id j = i \<and> uj_stale th j) rows")
    case None
    then show ?thesis using 2 by simp
  next
    case (Some j)
    let ?P = "\<lambda>r. uj_id r = i \<and> uj_status r = PROCESSING \<and> uj_completed_at r = None"
    have "list_all2 (\<lambda>r r'. r' = r \<or> uj_status r = PROCESSING \<and> uj_completed_at r = None \<and> r' = uj_recovered w r)
        (update_where ?P (uj_recovered w) rows) rows'"
      using 2 Some by simp
    then show ?thesis
      by (auto simp: list_all2_conv_all_nth update_where_def uj_recovered_def split: if_splits) fastforce?
  qed
qed

lemma uj_step_cases:
  assumes "distinct (map uj_id rows)" and "\<forall>r\<in>set rows. uj_row_ok r"
  shows "list_all2 uj_change rows (uj_step op rows) \<or>
    (\<exists>j. uj_step op rows = rows @ [j] \<and> uj_insert_ok j rows \<and> uj_row_ok j)"
proof (cases op)
  case (UjCreate j)
  then show ?thesis
    by (auto simp: uj_create_waiting_def fresh_upload_def uj_new_def uj_row_ok_def list_all2_refl)
next
  case (UjSetSha j sha)
  then show ?thesis
    by (auto simp: uj_set_client_sha_def Let_def list_all2_refl uj_change_def uj_moves_def uj_row_ok_def stay
        intro!: change_update_where split: job_status.splits)
next
  case (UjClaim locked w now)
  show ?thesis
  proof (cases "first_by uj_rank (uj_waiting locked) rows")
    case (Some j)
    then have "j \<in> set rows" "uj_status j = WAITING" by (auto dest!: first_by_SomeD simp: uj_waiting_def)
    moreover have "r = j" if "r \<in> set rows" "uj_id r = uj_id j" for r
      using assms(1) that calculation(1) by (auto simp: distinct_map inj_on_def)
    moreover have "uj_id (uj_claimed w now j) = uj_id j" by (simp add: uj_claimed_def)
    ultimately have "list_all2 uj_change rows (save_row uj_id (uj_claimed w now j) rows)"
      using change_claimed by (intro change_save_row) auto
    then show ?thesis using UjClaim Some by (simp add: uj_claim_postgres_def Let_def)
  qed (simp add: UjClaim uj_claim_postgres_def list_all2_refl)
next
  case (UjClaimFallback seen w now)
  then show ?thesis
    by (auto simp: uj_claim_fallback_def Let_def list_all2_refl uj_change_def uj_moves_def uj_row_ok_def
        intro!: change_update_where split: option.splits)
next
  case (UjTouch job_id now)
  then show ?thesis
    by (auto simp: uj_touch_lease_def Let_def list_all2_refl uj_change_def uj_moves_def uj_row_ok_def
        intro!: change_update_where)
next
  case (UjRecover locked secs w limit now)
  have stale: "uj_status r = PROCESSING \<and> uj_completed_at r = None"
    if mem: "r \<in> set rows" "uj_id r \<in> set (stale_ids locked th limit rows)" for r th
  proof -
    obtain x where "x \<in> set rows" "uj_stale th x" "uj_id x = uj_id r"
      using mem(2) by (auto simp: stale_ids_def dest!: in_set_takeD)
    moreover then have "x = r" using assms(1) mem(1) by (auto simp: distinct_map inj_on_def)
    ultimately show ?thesis by (simp add: uj_stale_def)
  qed
  show ?thesis using UjRecover stale change_recovered
    by (auto simp: uj_recover_stale_def Let_def list_all2_refl intro!: change_update_where)
next
  case (UjRecoverFallback secs w limit now)
  have "list_all2 uj_change rows rows'" if "recover_fallback_from th w ids n rows = (m, rows')" for th ids n m rows'
    using recover_fallback_rows[OF that] change_recovered by (auto elim!: list_all2_mono)
  then show ?thesis using UjRecoverFallback
    by (auto simp: uj_recover_fallback_def Let_def list_all2_refl) (metis prod.collapse)
next
  case (UjComplete j fid now)
  then show ?thesis
    by (auto simp: uj_mark_completed_def Let_def list_all2_refl uj_processing_def uj_change_def uj_moves_def
        uj_row_ok_def intro!: change_update_where)
next
  case (UjFail j msg now)
  have "0 \<le> uj_retry_count (or_else (uj_get (uj_job_id j) rows) j) + 1" if "r \<in> set rows" "uj_job_id r = uj_job_id j" for r
  proof (cases "uj_get (uj_job_id j) rows")
    case None
    then have "uj_job_id j \<notin> uj_job_id ` set rows" by (simp add: uj_get_def find_row_None_iff)
    then show ?thesis using that by (metis imageI)
  next
    case (Some x)
    then show ?thesis using assms(2) find_row_SomeD[OF Some[unfolded uj_get_def]] by (auto simp: uj_row_ok_def)
  qed
  then show ?thesis using UjFail
    by (auto simp: uj_mark_failed_def Let_def list_all2_refl uj_processing_def uj_change_def uj_moves_def
        uj_row_ok_def intro!: change_update_where)
qed

interpretation ujm: row_machine uj_step uj_id uj_row_ok uj_moves
proof
  fix rows :: "upload_job list" and op r r'
  assume d: "distinct (map uj_id rows)" and ok: "\<And>r. r \<in> set rows \<Longrightarrow> uj_row_ok r"
  have ids: "list_all2 uj_change rows rows' \<Longrightarrow> map uj_id rows' = map uj_id rows" for rows'
    by (auto simp: list_all2_conv_all_nth uj_change_def intro!: nth_equalityI)
  show "distinct (map uj_id (uj_step op rows))"
    using uj_step_cases[OF d, of op] ok ids d by (auto simp: uj_insert_ok_def)
  show "r' \<in> set (uj_step op rows) \<Longrightarrow> uj_row_ok r'"
    using uj_step_cases[OF d, of op] ok all2_mem_rightD[of uj_change rows "uj_step op rows" r']
    by (fastforce simp: uj_change_def)
  show "r \<in> set rows \<Longrightarrow> \<exists>r'\<in>set (uj_step op rows). uj_id r' = uj_id r \<and> uj_moves r r'"
    using uj_step_cases[OF d, of op] ok all2_memD[of uj_change rows "uj_step op rows" r] uj_change_refl[of r]
    unfolding uj_change_def by fastforce
qed

definition uj_claim :: "int list \<times> string \<times> time \<Rightarrow> upload_job list \<Rightarrow> upload_job option \<times> upload_job list" where
  "uj_claim ctx rows = (case ctx of (locked, w, now) \<Rightarrow> uj_claim_postgres locked w now rows)"

interpretation ujq: claim_queue uj_claim uj_id "\<lambda>ctx. uj_waiting (fst ctx)" uj_rank
proof
  fix ctx rows rows' 
  assume "uj_claim ctx rows = (None, rows')"
  then show "rows' = rows \<and> (\<forall>r\<in>set rows. \<not> uj_waiting (fst ctx) r)"
    by (cases ctx) (auto simp: uj_claim_def uj_claim_postgres_def Let_def first_by_None_iff split: option.splits)
next
  fix ctx rows j rows'
  assume c: "uj_claim ctx rows = (Some j, rows')"
  obtain locked w now where ctx: "ctx = (locked, w, now)" by (cases ctx)
  obtain r where r: "first_by uj_rank (uj_waiting locked) rows = Some r" "j = uj_claimed w now r"
      "rows' = save_row uj_id j rows"
    using c by (auto simp: ctx uj_claim_def uj_claim_postgres_def Let_def split: option.splits)
  from first_by_SomeD[OF r(1)] show "\<exists>r\<in>set rows. uj_id j = uj_id r \<and> uj_rank j = uj_rank r \<and>
      uj_waiting (fst ctx) r \<and> (\<forall>x\<in>set rows. uj_waiting (fst ctx) x \<longrightarrow> uj_rank r \<le> uj_rank x) \<and>
      rows' = save_row uj_id j rows"
    using r by (auto simp: ctx uj_claimed_def uj_rank_def intro!: bexI[of _ r])
qed

section \<open>Properties\<close>

text \<open>
  C17. Whatever the workers do - claims and recoveries of either kind, heartbeats, completions
  and failures from stale snapshots, in any order - the upload queue stays well-formed: ids are
  unique, a waiting job has no lease, a processing job always has one, so that it can be
  recovered, and a finished job has its result; and a job that is COMPLETED keeps its file,
  its completion time and its status for ever.
\<close>

theorem upload_queue_invariant:
  "distinct (map uj_id (fold uj_step ops [])) \<and> (\<forall>j\<in>set (fold uj_step ops []). uj_row_ok j) \<and>
   (\<forall>j\<in>set (fold uj_step ops []). uj_status j = COMPLETED \<longrightarrow>
      (\<exists>j'\<in>set (fold uj_step (ops @ later) []). uj_id j' = uj_id j \<and> uj_status j' = COMPLETED \<and>
         uj_file_id j' = uj_file_id j \<and> uj_completed_at j' = uj_completed_at j))"
proof -
  let ?rows = "fold uj_step ops []"
  have ok: "ujm.table_ok ?rows" by (rule ujm.run_from_empty)
  have "\<exists>j'\<in>set (fold uj_step (ops @ later) []). uj_id j' = uj_id j \<and> uj_status j' = COMPLETED \<and>
         uj_file_id j' = uj_file_id j \<and> uj_completed_at j' = uj_completed_at j"
    if "j \<in> set ?rows" "uj_status j = COMPLETED" for j
  proof -
    have "\<exists>j'\<in>set (fold uj_step later ?rows). uj_id j' = uj_id j \<and> (uj_status j' = COMPLETED \<and>
         uj_file_id j' = uj_file_id j \<and> uj_completed_at j' = uj_completed_at j)"
      by (rule ujm.run_stable[OF ok that(1)]) (use that(2) in \<open>auto simp: uj_moves_def\<close>)
    then show ?thesis by simp
  qed
  then show ?thesis using ok by (auto simp: ujm.table_ok_def)
qed

definition upload_demo_ops :: "uj_op list" where
  "upload_demo_ops =
     [UjCreate (uj_new 1 10 ''a'' ''UPLOAD'' ''incoming/a'' ''MemoryKeeper'' None None None),
      UjCreate (uj_new 2 20 ''b'' ''UPLOAD'' ''incoming/b'' ''AstroJournal'' None None None)]"

lemmas uj_eval = upload_demo_ops_def fresh_upload_def uj_new_def uj_create_waiting_def uj_insert_ok_def
  uj_get_by_client_def uj_claim_postgres_def first_by_def first_row_def order_by_def uj_waiting_def uj_rank_def
  service_claim_priority_def uj_claimed_def save_row_def Let_def

lemma upload_demo_rows:
  "fold uj_step upload_demo_ops [] =
     [uj_new 1 10 ''a'' ''UPLOAD'' ''incoming/a'' ''MemoryKeeper'' None None None,
      uj_new 2 20 ''b'' ''UPLOAD'' ''incoming/b'' ''AstroJournal'' None None None]"
  by (simp add: uj_eval)

theorem upload_queue_invariant_witness:
  "\<exists>j'\<in>set (fold uj_step ((upload_demo_ops @ [UjClaim [] ''w'' 50, UjComplete (uj_new 2 20 ''b'' ''UPLOAD''
       ''incoming/b'' ''AstroJournal'' None None None) ''sha'' 60]) @ [UjRecover [] 600 ''w'' 50 900]) []).
     uj_id j' = 2 \<and> uj_status j' = COMPLETED \<and> uj_file_id j' = Some ''sha''"
proof -
  let ?ops = "upload_demo_ops @ [UjClaim [] ''w'' 50, UjComplete (uj_new 2 20 ''b'' ''UPLOAD''
       ''incoming/b'' ''AstroJournal'' None None None) ''sha'' 60]"
  have "\<exists>j\<in>set (fold uj_step ?ops []). uj_id j = 2 \<and> uj_status j = COMPLETED \<and> uj_file_id j = Some ''sha''"
    using upload_demo_rows by (simp add: uj_eval uj_mark_completed_def uj_processing_def count_where_def)
  then show ?thesis
    using upload_queue_invariant[of ?ops "[UjRecover [] 600 ''w'' 50 900]"] by fastforce
qed

text \<open>
  Claims follow the service order: a claim hands out a waiting, unlocked job of least
  service priority, creation time and id, so a job of another service is claimed only if no
  AstroJournal job can be; it returns nothing only if nothing is waiting; it is the row the
  table then holds, and a second claim before any recovery never returns it again.
\<close>

theorem upload_claim_order:
  assumes "distinct (map uj_id rows)"
  shows "(uj_claim_postgres locked w now rows = (None, rows') \<longrightarrow>
        rows' = rows \<and> (\<forall>r\<in>set rows. \<not> uj_waiting locked r)) \<and>
    (uj_claim_postgres locked w now rows = (Some j, rows') \<longrightarrow>
        uj_status j = PROCESSING \<and> find_row uj_id (uj_id j) rows' = Some j \<and>
        (\<forall>x\<in>set rows. uj_waiting locked x \<longrightarrow> uj_rank j \<le> uj_rank x) \<and>
        (uj_service j \<noteq> ''AstroJournal'' \<longrightarrow>
           (\<forall>x\<in>set rows. uj_waiting locked x \<longrightarrow> uj_service x \<noteq> ''AstroJournal'')) \<and>
        (uj_claim_postgres locked2 w2 now2 rows' = (Some j2, rows2) \<longrightarrow> uj_id j2 \<noteq> uj_id j))"
proof (intro conjI impI)
  let ?ctx = "(locked, w, now)"
  assume c: "uj_claim_postgres locked w now rows = (Some j, rows')"
  then have c': "uj_claim ?ctx rows = (Some j, rows')" by (simp add: uj_claim_def)
  show processing: "uj_status j = PROCESSING"
    using c by (auto simp: uj_claim_postgres_def Let_def uj_claimed_def split: option.splits)
  show "find_row uj_id (uj_id j) rows' = Some j" using ujq.claim_returns_row[OF c'] .
  obtain r where r: "uj_rank j = uj_rank r" "\<forall>x\<in>set rows. uj_waiting locked x \<longrightarrow> uj_rank r \<le> uj_rank x"
    using ujq.claim_Some[OF c'] by auto
  then show le: "\<forall>x\<in>set rows. uj_waiting locked x \<longrightarrow> uj_rank j \<le> uj_rank x" by simp
  show "\<forall>x\<in>set rows. uj_waiting locked x \<longrightarrow> uj_service x \<noteq> ''AstroJournal''"
    if "uj_service j \<noteq> ''AstroJournal''"
    using le that by (fastforce simp: uj_rank_def service_claim_priority_def)
  show "uj_id j2 \<noteq> uj_id j" if "uj_claim_postgres locked2 w2 now2 rows' = (Some j2, rows2)"
  proof -
    have "uj_claim (locked2, w2, now2) rows' = (Some j2, rows2)" using that by (simp add: uj_claim_def)
    then show ?thesis using ujq.claim_exclusive[OF assms c'] processing by (simp add: uj_waiting_def)
  qed
next
  assume "uj_claim_postgres locked w now rows = (None, rows')"
  then have "uj_claim (locked, w, now) rows = (None, rows')" by (simp add: uj_claim_def)
  from ujq.claim_None[OF this] show "rows' = rows" "\<forall>r\<in>set rows. \<not> uj_waiting locked r" by auto
qed

theorem upload_claim_order_witness:
  "\<exists>j rows'. uj_claim_postgres [] ''w1'' 50 (fold uj_step upload_demo_ops []) = (Some j, rows') \<and>
     uj_service j = ''AstroJournal'' \<and> find_row uj_id (uj_id j) rows' = Some j"
proof -
  obtain j rows' where c: "uj_claim_postgres [] ''w1'' 50 (fold uj_step upload_demo_ops []) = (Some j, rows')"
    and s: "uj_service j = ''AstroJournal''"
    unfolding upload_demo_rows by (simp add: uj_eval)
  have "distinct (map uj_id (fold uj_step upload_demo_ops []))"
    unfolding upload_demo_rows by (simp add: uj_new_def)
  from upload_claim_order[OF this, of "[]" "''w1''" 50 rows' j] c s show ?thesis by blast
qed

lemma failed_none_processing:
  "r' \<in> set (snd (uj_mark_failed job msg now rows)) \<Longrightarrow> \<not> uj_processing (uj_job_id job) r'"
  by (auto simp: uj_mark_failed_def Let_def count_where_def filter_empty_conv set_update_where uj_processing_def
      split: if_splits)

text \<open>
  A lost lease is not noticed: finishing and heartbeats name only the job, not the worker.
  A worker whose job was recovered as stale and claimed by another worker can still fail it -
  and then the worker that holds it cannot complete it any more - and its heartbeats extend the
  other worker's lease.
\<close>

theorem upload_finish_ignores_owner:
  assumes "r \<in> set rows" and "uj_status r = PROCESSING" and "uj_completed_at r = None"
    and "uj_job_id stale = uj_job_id r" and "uj_job_id owner = uj_job_id r"
  shows "\<exists>j rows'. uj_mark_failed stale msg now rows = (Some j, rows') \<and>
    uj_mark_completed owner file_id now2 rows' = (None, rows') \<and>
    fst (uj_touch_lease (uj_job_id stale) now3 rows)"
proof -
  have pos: "count_where P rows \<noteq> 0" if "P r" for P
    using assms(1) that by (auto simp: count_where_def filter_empty_conv)
  have "count_where (uj_processing (uj_job_id stale)) rows \<noteq> 0"
    using assms(2,4) by (intro pos) (simp add: uj_processing_def)
  then have "fst (uj_mark_failed stale msg now rows) \<noteq> None" by (simp add: uj_mark_failed_def Let_def)
  then obtain j rows' where f: "uj_mark_failed stale msg now rows = (Some j, rows')"
    by (metis option.exhaust prod.collapse)
  have "count_where (uj_processing (uj_job_id owner)) rows' = 0"
    using failed_none_processing[of _ stale msg now rows] f assms(4,5)
    by (simp add: count_where_def filter_empty_conv)
  then have "uj_mark_completed owner file_id now2 rows' = (None, rows')" by (simp add: uj_mark_completed_def)
  moreover have "fst (uj_touch_lease (uj_job_id stale) now3 rows)"
    using assms(2-4) pos[of "\<lambda>j. uj_job_id j = uj_job_id stale \<and> uj_status j = PROCESSING \<and> uj_completed_at j = None"]
    by (simp add: uj_touch_lease_def Let_def)
  ultimately show ?thesis using f by blast
qed

text \<open>The whole story: w1 claims, is recovered as stale, w2 claims, then w1 reports a failure.\<close>

definition stolen_rows :: "upload_job list" where
  "stolen_rows = fold uj_step
     [UjClaim [] ''w1'' (seconds 50), UjRecover [] 600 ''w2'' 50 (seconds 1000), UjClaim [] ''w2'' (seconds 1001)]
     [uj_new 1 10 ''a'' ''UPLOAD'' ''incoming/a'' ''MemoryKeeper'' None None None]"

theorem upload_finish_ignores_owner_witness:
  "\<exists>j rows'. uj_mark_failed (uj_claimed ''w1'' (seconds 50)
        (uj_new 1 10 ''a'' ''UPLOAD'' ''incoming/a'' ''MemoryKeeper'' None None None)) ''timeout'' 7 stolen_rows
      = (Some j, rows') \<and> uj_mark_completed (hd stolen_rows) ''sha'' 8 rows' = (None, rows')"
proof -
  have s: "length stolen_rows = 1" "uj_status (hd stolen_rows) = PROCESSING"
      "uj_completed_at (hd stolen_rows) = None" "uj_job_id (hd stolen_rows) = ''a''"
    by (simp_all add: stolen_rows_def uj_eval uj_recover_stale_def stale_ids_def uj_stale_def uj_recovered_def seconds_def)
  have mem: "hd stolen_rows \<in> set stolen_rows" using s(1) by (intro hd_in_set) auto
  have same: "uj_job_id (uj_claimed ''w1'' (seconds 50)
        (uj_new 1 10 ''a'' ''UPLOAD'' ''incoming/a'' ''MemoryKeeper'' None None None)) = uj_job_id (hd stolen_rows)"
    using s(4) by (simp add: uj_claimed_def uj_new_def)
  show ?thesis using upload_finish_ignores_owner[OF mem s(2,3) same refl] by blast
qed

text \<open>
  No upload is stuck: one recovery, given room for all jobs, makes every unlocked
  processing job whose lease is older than the limit claimable again, in its old place in the
  order and with one retry more, and its log names the worker that had claimed it; jobs with a
  younger lease keep their worker.
\<close>

theorem stale_uploads_recovered:
  assumes "\<forall>x\<in>set rows. uj_row_ok x" and "distinct (map uj_id rows)" and "0 < secs" and "length rows \<le> limit"
    and "r \<in> set rows" and "uj_status r = PROCESSING"
  shows "(the (uj_started_at r) < now - seconds secs \<and> uj_id r \<notin> set locked \<longrightarrow>
      (\<exists>r'\<in>set (snd (uj_recover_stale locked secs w limit now rows)). uj_id r' = uj_id r \<and> uj_waiting [] r' \<and>
         uj_rank r' = uj_rank r \<and> uj_retry_count r' = uj_retry_count r + 1 \<and>
         (\<forall>w0. extract_claimed_worker (uj_log r) = Some w0 \<longrightarrow>
            uj_log r' = Some (or_else (uj_log r) [] @ log_line (''STALE_JOB_RECOVERED previous_worker='' @ w0 @ '' by='' @ w))))) \<and>
    (\<not> the (uj_started_at r) < now - seconds secs \<longrightarrow> r \<in> set (snd (uj_recover_stale locked secs w limit now rows)))"
proof -
  let ?th = "now - seconds secs"
  let ?ids = "stale_ids locked ?th limit rows"
  have rows': "snd (uj_recover_stale locked secs w limit now rows) =
      update_where (\<lambda>j. uj_id j \<in> set ?ids) (uj_recovered w) rows"
    using assms(3) by (simp add: uj_recover_stale_def Let_def)
  have ids: "set ?ids = uj_id ` {x \<in> set rows. uj_stale ?th x \<and> uj_id x \<notin> set locked}"
  proof -
    have "length (filter (\<lambda>j. uj_stale ?th j \<and> uj_id j \<notin> set locked) rows) \<le> limit"
      using assms(4) length_filter_le le_trans by blast
    then show ?thesis by (simp add: stale_ids_def)
  qed
  have mem: "uj_id r \<in> set ?ids \<longleftrightarrow> uj_stale ?th r \<and> uj_id r \<notin> set locked"
    using assms(2,5) by (auto simp: ids distinct_map inj_on_def)
  have "uj_row_ok r" using assms(1,5) by blast
  then have stale: "uj_stale ?th r \<longleftrightarrow> the (uj_started_at r) < ?th"
    using assms(6) by (auto simp: uj_stale_def uj_row_ok_def)
  show ?thesis
  proof (intro conjI impI)
    assume "the (uj_started_at r) < ?th \<and> uj_id r \<notin> set locked"
    then have "uj_recovered w r \<in> set (snd (uj_recover_stale locked secs w limit now rows))"
      unfolding rows' set_update_where using assms(5) mem stale by (auto intro!: image_eqI[of _ _ r])
    then show "\<exists>r'\<in>set (snd (uj_recover_stale locked secs w limit now rows)). uj_id r' = uj_id r \<and> uj_waiting [] r' \<and>
         uj_rank r' = uj_rank r \<and> uj_retry_count r' = uj_retry_count r + 1 \<and>
         (\<forall>w0. extract_claimed_worker (uj_log r) = Some w0 \<longrightarrow>
            uj_log r' = Some (or_else (uj_log r) [] @ log_line (''STALE_JOB_RECOVERED previous_worker='' @ w0 @ '' by='' @ w)))"
      by (intro bexI[of _ "uj_recovered w r"]) (simp_all add: uj_recovered_def uj_waiting_def uj_rank_def)
  next
    assume "\<not> the (uj_started_at r) < ?th"
    then have "uj_id r \<notin> set ?ids" using mem stale by blast
    then show "r \<in> set (snd (uj_recover_stale locked secs w limit now rows))"
      unfolding rows' set_update_where using assms(5) by (auto intro!: image_eqI[of _ _ r])
  qed
qed

theorem stale_uploads_recovered_witness:
  "\<exists>r'\<in>set (snd (uj_recover_stale [] 600 ''w2'' 50 (seconds 1000)
       [uj_claimed ''w1'' (seconds 50) (uj_new 1 10 ''a'' ''UPLOAD'' ''incoming/a'' ''MemoryKeeper'' None None None)])).
     uj_id r' = 1 \<and> uj_waiting [] r' \<and> uj_retry_count r' = 1"
proof -
  let ?r = "uj_claimed ''w1'' (seconds 50) (uj_new 1 10 ''a'' ''UPLOAD'' ''incoming/a'' ''MemoryKeeper'' None None None)"
  have "(the (uj_started_at ?r) < seconds 1000 - seconds 600 \<and> uj_id ?r \<notin> set [] \<longrightarrow>
      (\<exists>r'\<in>set (snd (uj_recover_stale [] 600 ''w2'' 50 (seconds 1000) [?r])). uj_id r' = uj_id ?r \<and> uj_waiting [] r' \<and>
         uj_retry_count r' = uj_retry_count ?r + 1))"
    using stale_uploads_recovered[of "[?r]" 600 50 ?r "seconds 1000" "[]" "''w2''"]
    by (auto simp: uj_row_ok_def uj_claimed_def uj_new_def)
  then show ?thesis by (simp add: uj_claimed_def uj_new_def seconds_def)
qed

text \<open>
  The progress a client polls lies between 0 and 100, is 100 exactly for a completed job or
  after all plugins, and never goes back while the worker only appends lines to the log.
\<close>

theorem upload_progress_monotone:
  assumes "whole_lines (or_else (uj_log j) [])"
  shows "0 \<le> calculate_progress j \<and> calculate_progress j \<le> 100 \<and>
    calculate_progress j \<le> calculate_progress (uj_append_log msg j) \<and>
    (uj_status j = COMPLETED \<longrightarrow> calculate_progress j = 100)"
proof -
  have "count_completed_plugins (or_else (uj_log j) [])
      \<le> count_completed_plugins (or_else (uj_log j) [] @ log_line msg)"
    by (rule count_completed_mono[OF assms])
  then show ?thesis using progress_range count_completed_le progress_mono
    by (auto simp: calculate_progress_def uj_append_log_def Let_def)
qed

theorem upload_progress_monotone_witness:
  "calculate_progress (uj_claimed ''w'' 1 (uj_new 1 10 ''a'' ''U'' ''i'' ''M'' None None None)) \<le>
   calculate_progress (uj_append_log ''PLUGIN_COMPLETE HashPlugin''
     (uj_claimed ''w'' 1 (uj_new 1 10 ''a'' ''U'' ''i'' ''M'' None None None)))"
proof -
  have "whole_lines (or_else (uj_log (uj_claimed ''w'' 1 (uj_new 1 10 ''a'' ''U'' ''i'' ''M'' None None None))) [])"
    unfolding whole_lines_def uj_claimed_def uj_new_def claim_log_def
    by (auto simp: log_line_def intro!: exI[of _ "claim_marker @ ''w'' @ log_end @ ''START''"])
  then show ?thesis using upload_progress_monotone by blast
qed

end
