(* ===== verification/FileLinks.thy ===== *)
theory FileLinks
  imports Tables
begin

text \<open>
  Which service uses which file: \<open>FileServiceRepository\<close>
  (\<open>src/app/common/repositories/file_service_repository.py\<close>) over
  \<open>common_file_services\<close>, whose unique constraint admits one link per file and service.
  \<open>stale\<close> says that the lookup of \<open>ensure_link\<close> ran before another session committed
  the same link; its commit ends the caller's transaction.
\<close>

definition fs_get :: "int \<Rightarrow> string \<Rightarrow> db \<Rightarrow> file_service_link option" where
  "fs_get file_id service_name d =
     List.find (\<lambda>l. fs_file l = file_id \<and> fs_service l = service_name) (links d)"

definition has_active_file_by_sha :: "string \<Rightarrow> string \<Rightarrow> db \<Rightarrow> bool" where
  "has_active_file_by_sha content_sha256 service_name d \<longleftrightarrow>
     exists_row (\<lambda>l. fs_service l = service_name \<and>
       exists_row (\<lambda>f. cf_id f = fs_file l \<and> cf_file_id f = content_sha256 \<and> \<not> cf_deleted f) (files d)) (links d)"

definition fs_insert_ok :: "file_service_link \<Rightarrow> db \<Rightarrow> bool" where
  "fs_insert_ok l d \<longleftrightarrow> fs_file l \<in> cf_id ` set (files d) \<and> l \<notin> set (links d)"

definition ensure_link :: "bool \<Rightarrow> int \<Rightarrow> string \<Rightarrow> db \<Rightarrow> db_error + (file_service_link \<times> bool) \<times> db" where
  "ensure_link stale file_id service_name d =
     (case (if stale then None else fs_get file_id service_name d) of
        Some existing \<Rightarrow> Inr ((existing, False), d)
      | None \<Rightarrow>
          let link = \<lparr>fs_file = file_id, fs_service = service_name\<rparr>
          in if fs_insert_ok link d then Inr ((link, True), d\<lparr>links := links d @ [link]\<rparr>)
             else (case fs_get file_id service_name d of
                     None \<Rightarrow> Inl IntegrityError
                   | Some existing \<Rightarrow> Inr ((existing, False), d)))"

lemma fs_get_Some: "fs_get i s d = Some l \<Longrightarrow> l = \<lparr>fs_file = i, fs_service = s\<rparr> \<and> l \<in> set (links d)"
  unfolding fs_get_def by (drule find_SomeD) (cases l, simp)

lemma fs_get_None: "fs_get i s d = None \<longleftrightarrow> \<lparr>fs_file = i, fs_service = s\<rparr> \<notin> set (links d)"
proof
  assume "fs_get i s d = None"
  then show "\<lparr>fs_file = i, fs_service = s\<rparr> \<notin> set (links d)"
    unfolding fs_get_def by (auto dest: find_NoneD)
next
  assume "\<lparr>fs_file = i, fs_service = s\<rparr> \<notin> set (links d)"
  then show "fs_get i s d = None" using fs_get_Some by (cases "fs_get i s d") auto
qed

text \<open>What the callers rely on: the link is there afterwards, once, and nothing else changed.\<close>

lemma ensure_link_result:
  assumes "ensure_link stale i s d = Inr ((l, created), d')"
  shows "l = \<lparr>fs_file = i, fs_service = s\<rparr> \<and> created = (l \<notin> set (links d)) \<and>
    d' = (if created then d\<lparr>links := links d @ [l]\<rparr> else d) \<and> l \<in> set (links d')"
  using assms fs_get_Some[of i s d]
  by (auto simp: ensure_link_def fs_insert_ok_def Let_def split: option.splits if_splits)

lemma ensure_link_error:
  "ensure_link stale i s d = Inl e \<longleftrightarrow> i \<notin> cf_id ` set (files d) \<and>
     \<lparr>fs_file = i, fs_service = s\<rparr> \<notin> set (links d)"
proof (cases e)
  case IntegrityError
  then show ?thesis using fs_get_None[of i s d]
    by (auto simp: ensure_link_def fs_insert_ok_def Let_def split: option.splits if_splits)
qed

lemma ensure_link_distinct:
  "ensure_link stale i s d = Inr (r, d') \<Longrightarrow> distinct (links d) \<Longrightarrow> distinct (links d')"
  by (cases r) (auto dest!: ensure_link_result)

end
