(* ===== verification/Revisioned.thy ===== *)
theory Revisioned
  imports ChangeFeed PyText
begin

text \<open>
  What the aggregates of AstroJournal's master data share: tables whose rows carry a revision
  and a tombstone, every write of which is announced in the change feed in the same
  transaction. The abstract view of such a table is its ledger: for each id the current
  revision and whether it is deleted. The locale states the contract of a table and shows
  that a client that replays the feed holds exactly the ledger; the equipment, observation
  site and framing-reference services are its instances.
\<close>

text \<open>
  What a request is answered with: the HTTP errors the services raise and, last, the two
  exceptions they let through (a pydantic \<open>ValidationError\<close> and SQLAlchemy's
  \<open>DataError\<close>), which the server answers with status 500.
\<close>

datatype master_error =
    Unprocessable                                \<comment> \<open>422 by the request schema\<close>
  | MasterNotFound                               \<comment> \<open>404\<close>
  | ResourceTombstoned string                    \<comment> \<open>409 RESOURCE_TOMBSTONED\<close>
  | StaleRevision string int int                 \<comment> \<open>409 REVISION_CONFLICT: id, expected, current\<close>
  | AggregateConflict                            \<comment> \<open>409 ..._AGGREGATE_CONFLICT\<close>
  | DefaultEquipmentNotFound                     \<comment> \<open>422\<close>
  | ActiveSiteNotFound                           \<comment> \<open>422\<close>
  | UsableEquipmentNotFound                      \<comment> \<open>422\<close>
  | ReferenceExists string string string         \<comment> \<open>409 REFERENCE_ALREADY_EXISTS\<close>
  | BlankCatalogFilter                           \<comment> \<open>422\<close>
  | UncaughtValidation
  | UncaughtDataError

section \<open>Writing rows\<close>

text \<open>
  A flush fails on a violated constraint (\<open>IntegrityError\<close>) or on a number that does not fit
  its column (\<open>DataError\<close>).
\<close>

datatype flush_error = ConstraintViolated | NumberTooLarge

definition fits_integer :: "int \<Rightarrow> bool" where
  "fits_integer i \<longleftrightarrow> - (2 ^ 31) \<le> i \<and> i < 2 ^ 31"

fun insert_all :: "('r \<Rightarrow> 'r list \<Rightarrow> flush_error + 'r list) \<Rightarrow> 'r list \<Rightarrow> 'r list \<Rightarrow> flush_error + 'r list" where
  "insert_all ins [] rows = Inr rows"
| "insert_all ins (r # rs) rows = and_then (ins r rows) (insert_all ins rs)"

lemma insert_all_appends:
  assumes "insert_all ins rs rows = Inr rows'"
    and "\<And>r rows rows'. ins r rows = Inr rows' \<Longrightarrow> rows' = rows @ [r]"
  shows "rows' = rows @ rs"
  using assms(1)
proof (induction rs arbitrary: rows)
  case (Cons r rs)
  from Cons.prems obtain rows1 where "ins r rows = Inr rows1" "insert_all ins rs rows1 = Inr rows'" by auto
  with Cons.IH assms(2) show ?case by fastforce
qed simp

lemma raise_if_simps [simp]: "raise_if True e k = Inl e" "raise_if False e k = k"
  by (simp_all add: raise_if_def)

section \<open>Names\<close>

text \<open>A name column: at most \<open>n\<close> characters before stripping, not blank after it.\<close>

definition valid_name :: "nat \<Rightarrow> string \<Rightarrow> string option" where
  "valid_name n s = (if length s \<le> n \<and> strip s \<noteq> [] then Some (strip s) else None)"

lemma strip_idem [simp]: "strip (strip s) = strip s"
  by (simp add: strip_def)

lemma valid_name_idem: "valid_name n s = Some s' \<Longrightarrow> valid_name n s' = Some s'"
  using length_strip_while[of is_space s]
  by (auto simp: valid_name_def strip_def split: if_splits)

section \<open>The ledger of a table\<close>

type_synonym ledger = "string \<Rightarrow> (int \<times> bool) option"

definition row_ledger :: "('r \<Rightarrow> string) \<Rightarrow> ('r \<Rightarrow> int) \<Rightarrow> ('r \<Rightarrow> time option) \<Rightarrow> 'r list \<Rightarrow> ledger" where
  "row_ledger key revision deleted rows =
     (\<lambda>i. map_option (\<lambda>r. (revision r, deleted r \<noteq> None)) (find_row key i rows))"

text \<open>A client of the feed: it keeps the last revision and tombstone it was told of each resource.\<close>

definition apply_event :: "string \<Rightarrow> change_event \<Rightarrow> ledger \<Rightarrow> ledger" where
  "apply_event resource_type e l =
     (if ce_service e = astro \<and> ce_type e = resource_type then
        (case ce_revision e of None \<Rightarrow> l | Some n \<Rightarrow> l(ce_resource e \<mapsto> (n, ce_tombstone e)))
      else l)"

definition feed_ledger :: "string \<Rightarrow> change_event list \<Rightarrow> ledger" where
  "feed_ledger resource_type events = fold (apply_event resource_type) events Map.empty"

lemma feed_ledger_append [simp]:
  "feed_ledger t (changes (append_change now astro t' i op (Some n) tb d)) =
     (if t' = t then (feed_ledger t (changes d))(i \<mapsto> (n, tb)) else feed_ledger t (changes d))"
  by (simp add: feed_ledger_def append_change_def apply_event_def)

text \<open>
  The moves of a ledger, the abstract specification of a revisioned table: a new id starts at
  revision 1, a live id goes to its next revision, perhaps deleted, and nothing else happens;
  a deleted id never moves again.
\<close>

inductive ledger_move :: "ledger \<Rightarrow> ledger \<Rightarrow> bool" where
  Appear: "l i = None \<Longrightarrow> ledger_move l (l(i \<mapsto> (1, False)))"
| Advance: "l i = Some (n, False) \<Longrightarrow> ledger_move l (l(i \<mapsto> (n + 1, tombstone)))"

lemma ledger_moves_tombstone:
  "ledger_move\<^sup>*\<^sup>* l l' \<Longrightarrow> l i = Some (n, True) \<Longrightarrow> l' i = Some (n, True)"
  by (induction rule: rtranclp_induct) (auto elim!: ledger_move.cases)

lemma ledger_moves_revision:
  "ledger_move\<^sup>*\<^sup>* l l' \<Longrightarrow> l i = Some (n, b) \<Longrightarrow> \<exists>n' b'. l' i = Some (n', b') \<and> n \<le> n' \<and> (n' = n \<longrightarrow> b' = b)"
proof (induction rule: rtranclp_induct)
  case base
  then show ?case by blast
next
  case (step l1 l2)
  then obtain n' b' where l1: "l1 i = Some (n', b')" "n \<le> n'" "n' = n \<longrightarrow> b' = b" by blast
  from step.hyps(2) show ?case
  proof cases
    case (Appear j)
    then have "l2 i = l1 i" using l1(1) by auto
    with l1 show ?thesis by simp
  next
    case (Advance j m tombstone)
    show ?thesis
    proof (cases "i = j")
      case True
      then have "l2 i = Some (n' + 1, tombstone)" using Advance l1(1) by simp
      with l1(2) show ?thesis by simp
    next
      case False
      then have "l2 i = l1 i" using Advance by simp
      with l1 show ?thesis by simp
    qed
  qed
qed

text \<open>
  The contract: appending an event leaves the rows alone. The laws then say when a write keeps
  the feed and the table together and makes a move of the ledger, for any state \<open>d1\<close> the
  writes of a transaction reach before its event is appended.
\<close>

locale revisioned_table =
  fixes rows :: "db \<Rightarrow> 'r list"
    and key :: "'r \<Rightarrow> string"
    and revision :: "'r \<Rightarrow> int"
    and deleted :: "'r \<Rightarrow> time option"
    and resource_type :: string
  assumes rows_append: "rows (append_change now s t i op n tb d) = rows d"
begin

definition in_sync :: "db \<Rightarrow> bool" where
  "in_sync d \<longleftrightarrow> distinct (map key (rows d)) \<and>
     feed_ledger resource_type (changes d) = row_ledger key revision deleted (rows d)"

definition evolves :: "db \<Rightarrow> db \<Rightarrow> bool" where
  "evolves d d' \<longleftrightarrow> in_sync d' \<and>
     ledger_move\<^sup>*\<^sup>* (row_ledger key revision deleted (rows d)) (row_ledger key revision deleted (rows d'))"

lemma evolves_refl: "in_sync d \<Longrightarrow> evolves d d"
  by (simp add: evolves_def)

lemma evolves_trans: "evolves d1 d2 \<Longrightarrow> evolves d2 d3 \<Longrightarrow> evolves d1 d3"
  by (auto simp: evolves_def)

lemma evolves_insert:
  assumes "in_sync d" and "rows d1 = rows d @ [r]" and "changes d1 = changes d"
    and "key r \<notin> key ` set (rows d)" and "deleted r = None" and "revision r = 1"
  shows "evolves d (append_change now astro resource_type (key r) op (Some (revision r)) False d1)"
proof -
  let ?l = "row_ledger key revision deleted (rows d)"
  have absent: "find_row key (key r) (rows d) = None" using assms(4) by (simp add: find_row_None_iff)
  then have ledger: "row_ledger key revision deleted (rows d @ [r]) = ?l(key r \<mapsto> (revision r, False))"
    using assms(5) by (auto simp: row_ledger_def find_row_append fun_eq_iff split: option.splits)
  have "ledger_move ?l (?l(key r \<mapsto> (revision r, False)))"
    using absent assms(6) by (simp add: row_ledger_def ledger_move.Appear)
  with assms ledger show ?thesis by (auto simp: evolves_def in_sync_def rows_append)
qed

lemma evolves_save:
  assumes "in_sync d" and "rows d1 = save_row key r (rows d)" and "changes d1 = changes d"
    and "old \<in> set (rows d)" and "key old = key r" and "deleted old = None" and "revision r = revision old + 1"
    and "tb = (deleted r \<noteq> None)"
  shows "evolves d (append_change now astro resource_type (key r) op (Some (revision r)) tb d1)"
proof -
  let ?l = "row_ledger key revision deleted (rows d)"
  have old: "find_row key (key r) (rows d) = Some old"
    using assms(1,4,5) find_row_mem[of key "rows d" old] by (simp add: in_sync_def)
  have "key r \<in> key ` set (rows d)" using assms(4,5) by (metis image_eqI)
  then have ledger: "row_ledger key revision deleted (save_row key r (rows d)) = ?l(key r \<mapsto> (revision r, tb))"
    using assms(8) by (simp add: row_ledger_def find_row_save_row fun_eq_iff)
  have "ledger_move ?l (?l(key r \<mapsto> (revision r, tb)))"
    using old assms(6,7) by (simp add: row_ledger_def ledger_move.Advance)
  with assms ledger show ?thesis by (auto simp: evolves_def in_sync_def rows_append)
qed

lemma evolves_other:
  assumes "in_sync d" and "rows d1 = rows d" and "changes d1 = changes d" and "t \<noteq> resource_type"
  shows "evolves d (append_change now astro t i op (Some n) tb d1)"
  using assms by (simp add: evolves_def in_sync_def rows_append)

end

end
