(* ===== verification/CaptureCapability.thy ===== *)
theory CaptureCapability
  imports Tables NumText
begin

text \<open>
  The capture-capability document of an equipment
  (\<open>src/app/astrojournal/schemas/capture_capability.py\<close>): a strict pydantic model that
  forbids unknown keys. \<open>parse_capture\<close> is its validation of a JSON value, \<open>dump_capture\<close> is
  \<open>model_dump()\<close> and \<open>dump_capture_set\<close> is \<open>model_dump(exclude_unset=True)\<close>. A field with
  a default is an option that is None while the document left it out, so a value carries its
  \<open>model_fields_set\<close>.

  JSON numbers are real numbers, so a document has no NaN and no infinity and the
  \<open>allow_nan=False\<close> of the size check never raises. \<open>float_text\<close> is Python's \<open>repr\<close> of a
  float, which \<open>json.dumps\<close> prints; it is a parameter, since only its length matters here.
\<close>

section \<open>Reading JSON objects\<close>

definition json_key :: "string \<Rightarrow> (string \<times> json) list \<Rightarrow> json option" where
  "json_key k kvs = map_of kvs k"

text \<open>The key check of \<open>extra="forbid"\<close>: required keys are there, no other than the known ones.\<close>

definition json_keys_ok :: "string list \<Rightarrow> string list \<Rightarrow> (string \<times> json) list \<Rightarrow> bool" where
  "json_keys_ok required optional kvs \<longleftrightarrow>
     list_all (\<lambda>k. map_of kvs k \<noteq> None) required \<and>
     list_all (\<lambda>k. k \<in> set (required @ optional)) (map fst kvs)"

fun json_str :: "json \<Rightarrow> string option" where
  "json_str (JStr s) = Some s"
| "json_str _ = None"

fun json_number :: "json \<Rightarrow> real option" where
  "json_number (JFloat r) = Some r"
| "json_number (JInt i) = Some (of_int i)"
| "json_number _ = None"

fun json_int :: "json \<Rightarrow> int option" where
  "json_int (JInt i) = Some i"
| "json_int _ = None"

fun json_bool :: "json \<Rightarrow> bool option" where
  "json_bool (JBool b) = Some b"
| "json_bool _ = None"

text \<open>A required field, an optional field, and a list field.\<close>

definition field :: "(string \<times> json) list \<Rightarrow> string \<Rightarrow> (json \<Rightarrow> 'a option) \<Rightarrow> 'a option" where
  "field kvs k parse = Option.bind (map_of kvs k) parse"

definition unset_field ::
  "(string \<times> json) list \<Rightarrow> string \<Rightarrow> (json \<Rightarrow> 'a option) \<Rightarrow> 'a option option" where
  "unset_field kvs k parse =
     (case map_of kvs k of None \<Rightarrow> Some None | Some v \<Rightarrow> map_option Some (parse v))"

definition nullable :: "(json \<Rightarrow> 'a option) \<Rightarrow> json \<Rightarrow> 'a option option" where
  "nullable parse v = (if v = JNull then Some None else map_option Some (parse v))"

fun json_list :: "(json \<Rightarrow> 'a option) \<Rightarrow> json \<Rightarrow> 'a list option" where
  "json_list parse (JArr vs) = those (map parse vs)"
| "json_list parse _ = None"

definition checked :: "('a \<Rightarrow> bool) \<Rightarrow> 'a option \<Rightarrow> 'a option" where
  "checked P x = (case x of None \<Rightarrow> None | Some v \<Rightarrow> if P v then Some v else None)"

definition one_of :: "string list \<Rightarrow> json \<Rightarrow> string option" where
  "one_of values v = checked (\<lambda>s. s \<in> set values) (json_str v)"

definition positive :: "json \<Rightarrow> real option" where
  "positive v = checked (\<lambda>x. 0 < x) (json_number v)"

definition non_negative :: "json \<Rightarrow> real option" where
  "non_negative v = checked (\<lambda>x. 0 \<le> x) (json_number v)"

definition required_text :: "json \<Rightarrow> string option" where
  "required_text v = checked (\<lambda>s. strip s \<noteq> []) (json_str v)"

lemma checked_Some [simp]: "checked P x = Some v \<longleftrightarrow> x = Some v \<and> P v"
  by (auto simp: checked_def split: option.splits)

lemma checked_id [simp]: "P v \<Longrightarrow> checked P (Some v) = Some v"
  by (simp add: checked_def)

section \<open>The models\<close>

datatype capture_exposure =
    CxDiscrete "real list"
  | CxRange real real real
  | CxFree real real

record capture_mode =
  cm_id :: string
  cm_type :: string
  cm_label :: string
  cm_exposure :: "capture_exposure option option"

datatype gain_capability =
    GainDiscrete "real list"
  | GainRange real real real

record filter_capability =
  fc_id :: string
  fc_type :: string
  fc_name :: string

record channel_combination =
  cc_id :: string
  cc_name :: string
  cc_primary :: string
  cc_secondary :: string
  cc_adjustable :: "bool option"
  cc_min :: "int option"
  cc_max :: "int option"
  cc_step :: "int option"

record capture_capability =
  cap_modes :: "capture_mode list option"
  cap_gain :: "gain_capability option option"
  cap_filters :: "filter_capability list option"
  cap_channels :: "channel_combination list option"

section \<open>Validation\<close>

text \<open>The tag of a discriminated union.\<close>

definition type_tag :: "(string \<times> json) list \<Rightarrow> string option" where
  "type_tag kvs = field kvs ''type'' json_str"

definition parse_capture_exposure :: "json \<Rightarrow> capture_exposure option" where
  "parse_capture_exposure v = (case v of JObj kvs \<Rightarrow>
     (if type_tag kvs = Some ''discrete'' then
        (if json_keys_ok [''type'', ''values_seconds''] [] kvs
         then map_option CxDiscrete (checked (\<lambda>vs. vs \<noteq> []) (field kvs ''values_seconds'' (json_list positive)))
         else None)
      else if type_tag kvs = Some ''range'' then
        (if json_keys_ok [''type'', ''min_seconds'', ''max_seconds'', ''step_seconds''] [] kvs then
           (case (field kvs ''min_seconds'' positive, field kvs ''max_seconds'' positive,
                  field kvs ''step_seconds'' positive) of
              (Some a, Some b, Some s) \<Rightarrow> if b < a then None else Some (CxRange a b s)
            | _ \<Rightarrow> None)
         else None)
      else if type_tag kvs = Some ''free_input_range'' then
        (if json_keys_ok [''type'', ''min_seconds'', ''max_seconds''] [] kvs then
           (case (field kvs ''min_seconds'' positive, field kvs ''max_seconds'' positive) of
              (Some a, Some b) \<Rightarrow> if b < a then None else Some (CxFree a b)
            | _ \<Rightarrow> None)
         else None)
      else None)
   | _ \<Rightarrow> None)"

definition mode_types :: "string list" where
  "mode_types = [''altAz'', ''equatorial'', ''altAzDerotated'', ''custom'']"

definition parse_mode :: "json \<Rightarrow> capture_mode option" where
  "parse_mode v = (case v of JObj kvs \<Rightarrow>
     (if json_keys_ok [''id'', ''type'', ''label''] [''exposure_capability''] kvs then
        (case (field kvs ''id'' required_text, field kvs ''type'' (one_of mode_types),
               field kvs ''label'' required_text,
               unset_field kvs ''exposure_capability'' (nullable parse_capture_exposure)) of
           (Some i, Some t, Some l, Some e) \<Rightarrow>
             Some \<lparr>cm_id = i, cm_type = t, cm_label = l, cm_exposure = e\<rparr>
         | _ \<Rightarrow> None)
      else None)
   | _ \<Rightarrow> None)"

definition parse_gain :: "json \<Rightarrow> gain_capability option" where
  "parse_gain v = (case v of JObj kvs \<Rightarrow>
     (if type_tag kvs = Some ''discrete'' then
        (if json_keys_ok [''type'', ''values''] [] kvs
         then map_option GainDiscrete (checked (\<lambda>vs. vs \<noteq> []) (field kvs ''values'' (json_list non_negative)))
         else None)
      else if type_tag kvs = Some ''range'' then
        (if json_keys_ok [''type'', ''min'', ''max'', ''step''] [] kvs then
           (case (field kvs ''min'' non_negative, field kvs ''max'' non_negative, field kvs ''step'' positive) of
              (Some a, Some b, Some s) \<Rightarrow> if b < a then None else Some (GainRange a b s)
            | _ \<Rightarrow> None)
         else None)
      else None)
   | _ \<Rightarrow> None)"

definition filter_types :: "string list" where
  "filter_types = [''off'', ''broadband'', ''dualBand'', ''narrowBand'', ''custom'']"

definition parse_filter :: "json \<Rightarrow> filter_capability option" where
  "parse_filter v = (case v of JObj kvs \<Rightarrow>
     (if json_keys_ok [''id'', ''type'', ''name''] [] kvs then
        (case (field kvs ''id'' required_text, field kvs ''type'' (one_of filter_types),
               field kvs ''name'' required_text) of
           (Some i, Some t, Some n) \<Rightarrow> Some \<lparr>fc_id = i, fc_type = t, fc_name = n\<rparr>
         | _ \<Rightarrow> None)
      else None)
   | _ \<Rightarrow> None)"

definition percent :: "json \<Rightarrow> int option" where
  "percent v = checked (\<lambda>i. 0 \<le> i \<and> i \<le> 100) (json_int v)"

definition positive_int :: "json \<Rightarrow> int option" where
  "positive_int v = checked (\<lambda>i. 0 < i) (json_int v)"

definition channel_range_ok :: "channel_combination \<Rightarrow> bool" where
  "channel_range_ok c \<longleftrightarrow> or_else (cc_min c) 0 \<le> or_else (cc_max c) 100"

definition parse_channel :: "json \<Rightarrow> channel_combination option" where
  "parse_channel v = (case v of JObj kvs \<Rightarrow>
     (if json_keys_ok [''id'', ''name'', ''primary_label'', ''secondary_label'']
           [''ratio_adjustable'', ''min_primary_percent'', ''max_primary_percent'', ''step_percent''] kvs then
        (case (field kvs ''id'' required_text, field kvs ''name'' required_text,
               field kvs ''primary_label'' required_text, field kvs ''secondary_label'' required_text) of
           (Some i, Some n, Some p, Some s) \<Rightarrow>
             (case (unset_field kvs ''ratio_adjustable'' json_bool, unset_field kvs ''min_primary_percent'' percent,
                    unset_field kvs ''max_primary_percent'' percent, unset_field kvs ''step_percent'' positive_int) of
                (Some ra, Some lo, Some hi, Some st) \<Rightarrow>
                  checked channel_range_ok (Some \<lparr>cc_id = i, cc_name = n, cc_primary = p, cc_secondary = s,
                    cc_adjustable = ra, cc_min = lo, cc_max = hi, cc_step = st\<rparr>)
              | _ \<Rightarrow> None)
         | _ \<Rightarrow> None)
      else None)
   | _ \<Rightarrow> None)"

text \<open>\<open>validate_unique_ids\<close>, after the fields.\<close>

definition unique_ids :: "capture_capability \<Rightarrow> bool" where
  "unique_ids c \<longleftrightarrow>
     distinct (map cm_id (or_else (cap_modes c) [])) \<and>
     distinct (map fc_id (or_else (cap_filters c) [])) \<and>
     distinct (map cc_id (or_else (cap_channels c) []))"

section \<open>The size of a document\<close>

text \<open>
  The bytes of \<open>json.dumps(value, ensure_ascii=False, separators=(",", ":"))\<close> in UTF-8, for
  code points below 256.
\<close>

definition char_bytes :: "char \<Rightarrow> nat" where
  "char_bytes c = (let n = of_char c :: nat in
     if n = 34 \<or> n = 92 \<or> n = 8 \<or> n = 9 \<or> n = 10 \<or> n = 12 \<or> n = 13 then 2
     else if n < 32 then 6 else if n < 128 then 1 else 2)"

definition text_bytes :: "string \<Rightarrow> nat" where
  "text_bytes s = 2 + sum_list (map char_bytes s)"

definition commas :: "'a list \<Rightarrow> nat" where
  "commas xs = length xs - 1"

primrec json_bytes :: "(real \<Rightarrow> string) \<Rightarrow> json \<Rightarrow> nat" where
  "json_bytes float_text JNull = 4"
| "json_bytes float_text (JBool b) = (if b then 4 else 5)"
| "json_bytes float_text (JInt i) = length (str_int i)"
| "json_bytes float_text (JFloat r) = length (float_text r)"
| "json_bytes float_text (JStr s) = text_bytes s"
| "json_bytes float_text (JArr vs) = 2 + commas vs + sum_list (map (json_bytes float_text) vs)"
| "json_bytes float_text (JObj kvs) = 2 + commas kvs +
     sum_list (map (\<lambda>kv. text_bytes (fst kv) + 1 + snd kv) (map (map_prod id (json_bytes float_text)) kvs))"

definition max_capture_bytes :: nat where
  "max_capture_bytes = 64 * 1024"

definition parse_capture :: "(real \<Rightarrow> string) \<Rightarrow> json \<Rightarrow> capture_capability option" where
  "parse_capture float_text v =
     (if max_capture_bytes < json_bytes float_text v then None
      else case v of JObj kvs \<Rightarrow>
        (if json_keys_ok [''version''] [''modes'', ''gain_capability'', ''filters'', ''channel_combinations''] kvs
            \<and> field kvs ''version'' json_int = Some 1 then
           (case (unset_field kvs ''modes'' (json_list parse_mode),
                  unset_field kvs ''gain_capability'' (nullable parse_gain),
                  unset_field kvs ''filters'' (json_list parse_filter),
                  unset_field kvs ''channel_combinations'' (json_list parse_channel)) of
              (Some ms, Some g, Some fs, Some cs) \<Rightarrow>
                checked unique_ids (Some \<lparr>cap_modes = ms, cap_gain = g, cap_filters = fs, cap_channels = cs\<rparr>)
            | _ \<Rightarrow> None)
         else None)
      | _ \<Rightarrow> None)"

section \<open>Dumping\<close>

fun dump_capture_exposure :: "capture_exposure \<Rightarrow> json" where
  "dump_capture_exposure (CxDiscrete vs) =
     JObj [(''type'', JStr ''discrete''), (''values_seconds'', JArr (map JFloat vs))]"
| "dump_capture_exposure (CxRange a b s) =
     JObj [(''type'', JStr ''range''), (''min_seconds'', JFloat a), (''max_seconds'', JFloat b), (''step_seconds'', JFloat s)]"
| "dump_capture_exposure (CxFree a b) =
     JObj [(''type'', JStr ''free_input_range''), (''min_seconds'', JFloat a), (''max_seconds'', JFloat b)]"

definition dump_nullable :: "('a \<Rightarrow> json) \<Rightarrow> 'a option \<Rightarrow> json" where
  "dump_nullable dump x = (case x of None \<Rightarrow> JNull | Some v \<Rightarrow> dump v)"

definition dump_set_field :: "string \<Rightarrow> ('a \<Rightarrow> json) \<Rightarrow> 'a option \<Rightarrow> (string \<times> json) list" where
  "dump_set_field k dump x = (case x of None \<Rightarrow> [] | Some v \<Rightarrow> [(k, dump v)])"

definition mode_fields :: "capture_mode \<Rightarrow> (string \<times> json) list" where
  "mode_fields m = [(''id'', JStr (cm_id m)), (''type'', JStr (cm_type m)), (''label'', JStr (cm_label m))]"

definition dump_mode :: "capture_mode \<Rightarrow> json" where
  "dump_mode m = JObj (mode_fields m @
     [(''exposure_capability'', dump_nullable dump_capture_exposure (or_else (cm_exposure m) None))])"

definition dump_mode_set :: "capture_mode \<Rightarrow> json" where
  "dump_mode_set m = JObj (mode_fields m @
     dump_set_field ''exposure_capability'' (dump_nullable dump_capture_exposure) (cm_exposure m))"

fun dump_gain :: "gain_capability \<Rightarrow> json" where
  "dump_gain (GainDiscrete vs) = JObj [(''type'', JStr ''discrete''), (''values'', JArr (map JFloat vs))]"
| "dump_gain (GainRange a b s) =
     JObj [(''type'', JStr ''range''), (''min'', JFloat a), (''max'', JFloat b), (''step'', JFloat s)]"

definition dump_filter :: "filter_capability \<Rightarrow> json" where
  "dump_filter f = JObj [(''id'', JStr (fc_id f)), (''type'', JStr (fc_type f)), (''name'', JStr (fc_name f))]"

definition channel_fields :: "channel_combination \<Rightarrow> (string \<times> json) list" where
  "channel_fields c = [(''id'', JStr (cc_id c)), (''name'', JStr (cc_name c)),
     (''primary_label'', JStr (cc_primary c)), (''secondary_label'', JStr (cc_secondary c))]"

definition dump_channel :: "channel_combination \<Rightarrow> json" where
  "dump_channel c = JObj (channel_fields c @
     [(''ratio_adjustable'', JBool (or_else (cc_adjustable c) False)),
      (''min_primary_percent'', JInt (or_else (cc_min c) 0)),
      (''max_primary_percent'', JInt (or_else (cc_max c) 100)),
      (''step_percent'', JInt (or_else (cc_step c) 1))])"

definition dump_channel_set :: "channel_combination \<Rightarrow> json" where
  "dump_channel_set c = JObj (channel_fields c @
     dump_set_field ''ratio_adjustable'' JBool (cc_adjustable c) @
     dump_set_field ''min_primary_percent'' JInt (cc_min c) @
     dump_set_field ''max_primary_percent'' JInt (cc_max c) @
     dump_set_field ''step_percent'' JInt (cc_step c))"

definition dump_capture :: "capture_capability \<Rightarrow> json" where
  "dump_capture c = JObj
     [(''version'', JInt 1),
      (''modes'', JArr (map dump_mode (or_else (cap_modes c) []))),
      (''gain_capability'', dump_nullable dump_gain (or_else (cap_gain c) None)),
      (''filters'', JArr (map dump_filter (or_else (cap_filters c) []))),
      (''channel_combinations'', JArr (map dump_channel (or_else (cap_channels c) [])))]"

definition dump_capture_set :: "capture_capability \<Rightarrow> json" where
  "dump_capture_set c = JObj ([(''version'', JInt 1)] @
     dump_set_field ''modes'' (\<lambda>ms. JArr (map dump_mode_set ms)) (cap_modes c) @
     dump_set_field ''gain_capability'' (dump_nullable dump_gain) (cap_gain c) @
     dump_set_field ''filters'' (\<lambda>fs. JArr (map dump_filter fs)) (cap_filters c) @
     dump_set_field ''channel_combinations'' (\<lambda>cs. JArr (map dump_channel_set cs)) (cap_channels c))"

section \<open>Validating a dump\<close>

text \<open>The value a full dump validates to: every field is set.\<close>

definition filled_mode :: "capture_mode \<Rightarrow> capture_mode" where
  "filled_mode m = m\<lparr>cm_exposure := Some (or_else (cm_exposure m) None)\<rparr>"

definition filled_channel :: "channel_combination \<Rightarrow> channel_combination" where
  "filled_channel c = c\<lparr>cc_adjustable := Some (or_else (cc_adjustable c) False),
     cc_min := Some (or_else (cc_min c) 0), cc_max := Some (or_else (cc_max c) 100),
     cc_step := Some (or_else (cc_step c) 1)\<rparr>"

definition filled :: "capture_capability \<Rightarrow> capture_capability" where
  "filled c = \<lparr>cap_modes = Some (map filled_mode (or_else (cap_modes c) [])),
     cap_gain = Some (or_else (cap_gain c) None),
     cap_filters = Some (or_else (cap_filters c) []),
     cap_channels = Some (map filled_channel (or_else (cap_channels c) []))\<rparr>"

named_theorems capture_parse "the validators of the capture-capability models"

lemmas [capture_parse] = json_keys_ok_def field_def unset_field_def nullable_def type_tag_def
  positive_def non_negative_def required_text_def one_of_def percent_def positive_int_def

lemma those_map_Some [simp]: "(\<And>x. x \<in> set xs \<Longrightarrow> f x = Some (g x)) \<Longrightarrow> those (map f xs) = Some (map g xs)"
  by (induction xs) auto

lemma those_map_SomeD: "those (map f vs) = Some xs \<Longrightarrow> x \<in> set xs \<Longrightarrow> \<exists>v\<in>set vs. f v = Some x"
  by (induction vs arbitrary: xs) (auto split: option.splits)

lemma json_list_SomeD: "json_list parse v = Some xs \<Longrightarrow> x \<in> set xs \<Longrightarrow> \<exists>w. parse w = Some x"
  by (cases v) (auto dest: those_map_SomeD)

lemma json_list_all:
  assumes "json_list parse v = Some xs" and "\<And>w x. parse w = Some x \<Longrightarrow> P x"
  shows "list_all P xs"
  using json_list_SomeD[OF assms(1)] assms(2) by (auto simp: list_all_iff)

lemma positive_Some: "positive v = Some x \<Longrightarrow> 0 < x"
  by (auto simp: positive_def)

lemma non_negative_Some: "non_negative v = Some x \<Longrightarrow> 0 \<le> x"
  by (auto simp: non_negative_def)

lemma positive_JFloat [simp]: "0 < x \<Longrightarrow> positive (JFloat x) = Some x"
  by (simp add: positive_def)

lemma non_negative_JFloat [simp]: "0 \<le> x \<Longrightarrow> non_negative (JFloat x) = Some x"
  by (simp add: non_negative_def)

lemma json_list_positive: "json_list positive v = Some xs \<Longrightarrow> list_all (\<lambda>x. 0 < x) xs"
  by (erule json_list_all) (rule positive_Some)

lemma json_list_non_negative: "json_list non_negative v = Some xs \<Longrightarrow> list_all (\<lambda>x. 0 \<le> x) xs"
  by (erule json_list_all) (rule non_negative_Some)

lemma required_text_JStr [simp]: "strip s \<noteq> [] \<Longrightarrow> required_text (JStr s) = Some s"
  by (simp add: required_text_def)

lemma required_text_Some: "required_text v = Some s \<Longrightarrow> strip s \<noteq> []"
  by (auto simp: required_text_def)

lemma one_of_Some: "one_of values v = Some s \<Longrightarrow> s \<in> set values"
  by (auto simp: one_of_def)

lemma one_of_JStr [simp]: "s \<in> set values \<Longrightarrow> one_of values (JStr s) = Some s"
  by (simp add: one_of_def)

text \<open>What a validated part satisfies, and that a part that satisfies it survives its dump.\<close>

fun capture_exposure_ok :: "capture_exposure \<Rightarrow> bool" where
  "capture_exposure_ok (CxDiscrete vs) \<longleftrightarrow> vs \<noteq> [] \<and> list_all (\<lambda>x. 0 < x) vs"
| "capture_exposure_ok (CxRange a b s) \<longleftrightarrow> 0 < a \<and> a \<le> b \<and> 0 < s"
| "capture_exposure_ok (CxFree a b) \<longleftrightarrow> 0 < a \<and> a \<le> b"

fun gain_ok :: "gain_capability \<Rightarrow> bool" where
  "gain_ok (GainDiscrete vs) \<longleftrightarrow> vs \<noteq> [] \<and> list_all (\<lambda>x. 0 \<le> x) vs"
| "gain_ok (GainRange a b s) \<longleftrightarrow> 0 \<le> a \<and> a \<le> b \<and> 0 < s"

definition mode_ok :: "capture_mode \<Rightarrow> bool" where
  "mode_ok m \<longleftrightarrow> strip (cm_id m) \<noteq> [] \<and> cm_type m \<in> set mode_types \<and> strip (cm_label m) \<noteq> [] \<and>
     (case cm_exposure m of Some (Some e) \<Rightarrow> capture_exposure_ok e | _ \<Rightarrow> True)"

definition filter_ok :: "filter_capability \<Rightarrow> bool" where
  "filter_ok f \<longleftrightarrow> strip (fc_id f) \<noteq> [] \<and> fc_type f \<in> set filter_types \<and> strip (fc_name f) \<noteq> []"

definition channel_ok :: "channel_combination \<Rightarrow> bool" where
  "channel_ok c \<longleftrightarrow> strip (cc_id c) \<noteq> [] \<and> strip (cc_name c) \<noteq> [] \<and> strip (cc_primary c) \<noteq> [] \<and>
     strip (cc_secondary c) \<noteq> [] \<and> 0 \<le> or_else (cc_min c) 0 \<and> or_else (cc_max c) 100 \<le> 100 \<and>
     or_else (cc_min c) 0 \<le> or_else (cc_max c) 100 \<and> 0 < or_else (cc_step c) 1"

lemma parse_capture_exposure_ok: "parse_capture_exposure v = Some e \<Longrightarrow> capture_exposure_ok e"
  unfolding parse_capture_exposure_def field_def
  by (auto split: json.splits if_splits option.splits simp: bind_eq_Some_conv
      dest!: positive_Some json_list_positive)

lemma parse_gain_ok: "parse_gain v = Some g \<Longrightarrow> gain_ok g"
  unfolding parse_gain_def field_def
  by (auto split: json.splits if_splits option.splits simp: bind_eq_Some_conv
      dest!: positive_Some non_negative_Some json_list_non_negative)

lemma parse_mode_ok: "parse_mode v = Some m \<Longrightarrow> mode_ok m"
  unfolding parse_mode_def field_def unset_field_def nullable_def mode_ok_def
  by (auto split: json.splits if_splits option.splits simp: bind_eq_Some_conv
      dest!: required_text_Some one_of_Some parse_capture_exposure_ok)

lemma parse_filter_ok: "parse_filter v = Some f \<Longrightarrow> filter_ok f"
  unfolding parse_filter_def field_def filter_ok_def
  by (auto split: json.splits if_splits option.splits simp: bind_eq_Some_conv
      dest!: required_text_Some one_of_Some)

lemma unset_field_checked:
  "unset_field kvs k parse = Some x \<Longrightarrow> (\<And>v y. parse v = Some y \<Longrightarrow> P y) \<Longrightarrow> P d \<Longrightarrow> P (or_else x d)"
  by (cases x) (auto simp: unset_field_def split: option.splits)

lemma parse_channel_ok: "parse_channel v = Some c \<Longrightarrow> channel_ok c"
proof -
  assume parsed: "parse_channel v = Some c"
  then obtain kvs where kvs: "v = JObj kvs" by (cases v) (auto simp: parse_channel_def)
  have "unset_field kvs ''min_primary_percent'' percent = Some (cc_min c)"
    "unset_field kvs ''max_primary_percent'' percent = Some (cc_max c)"
    "unset_field kvs ''step_percent'' positive_int = Some (cc_step c)"
    using parsed by (auto simp: parse_channel_def kvs split: if_splits option.splits)
  note defaults = unset_field_checked[OF this(1), of "\<lambda>i. 0 \<le> i \<and> i \<le> 100" 0]
    unset_field_checked[OF this(2), of "\<lambda>i. 0 \<le> i \<and> i \<le> 100" 100]
    unset_field_checked[OF this(3), of "\<lambda>i. 0 < i" 1]
  have "0 \<le> or_else (cc_min c) 0" "or_else (cc_max c) 100 \<le> 100" "0 < or_else (cc_step c) 1"
    using defaults by (auto simp: percent_def positive_int_def)
  moreover have "channel_range_ok c" "strip (cc_id c) \<noteq> []" "strip (cc_name c) \<noteq> []"
    "strip (cc_primary c) \<noteq> []" "strip (cc_secondary c) \<noteq> []"
    using parsed by (auto simp: parse_channel_def field_def kvs bind_eq_Some_conv
        split: if_splits option.splits dest!: required_text_Some)
  ultimately show ?thesis by (simp add: channel_ok_def channel_range_ok_def)
qed

lemma parse_dump_capture_exposure:
  "capture_exposure_ok e \<Longrightarrow> parse_capture_exposure (dump_capture_exposure e) = Some e"
  by (cases e) (auto simp: parse_capture_exposure_def type_tag_def field_def json_keys_ok_def list_all_iff
      comp_def intro!: those_map_Some[where g = id, simplified])

lemma parse_dump_gain: "gain_ok g \<Longrightarrow> parse_gain (dump_gain g) = Some g"
  by (cases g) (auto simp: parse_gain_def type_tag_def field_def json_keys_ok_def list_all_iff
      comp_def intro!: those_map_Some[where g = id, simplified])

lemma dump_capture_exposure_JNull [simp]: "dump_capture_exposure e \<noteq> JNull"
  by (cases e) auto

lemma dump_gain_JNull [simp]: "dump_gain g \<noteq> JNull"
  by (cases g) auto

lemma parse_dump_mode: "mode_ok m \<Longrightarrow> parse_mode (dump_mode m) = Some (filled_mode m)"
  by (cases m; cases "or_else (cm_exposure m) None")
    (auto simp: mode_ok_def dump_mode_def mode_fields_def filled_mode_def parse_mode_def field_def unset_field_def
      nullable_def dump_nullable_def json_keys_ok_def parse_dump_capture_exposure or_else_def split: option.splits)

lemma parse_dump_filter: "filter_ok f \<Longrightarrow> parse_filter (dump_filter f) = Some f"
  by (cases f) (simp add: filter_ok_def dump_filter_def parse_filter_def field_def json_keys_ok_def)

lemma parse_dump_channel: "channel_ok c \<Longrightarrow> parse_channel (dump_channel c) = Some (filled_channel c)"
  by (cases c) (simp add: channel_ok_def dump_channel_def channel_fields_def parse_channel_def field_def unset_field_def
      json_keys_ok_def filled_channel_def percent_def positive_int_def channel_range_ok_def)

definition capture_ok :: "capture_capability \<Rightarrow> bool" where
  "capture_ok c \<longleftrightarrow> list_all mode_ok (or_else (cap_modes c) []) \<and>
     (case cap_gain c of Some (Some g) \<Rightarrow> gain_ok g | _ \<Rightarrow> True) \<and>
     list_all filter_ok (or_else (cap_filters c) []) \<and>
     list_all channel_ok (or_else (cap_channels c) []) \<and> unique_ids c"

lemma parse_capture_ok:
  assumes "parse_capture float_text v = Some c"
  shows "capture_ok c"
proof -
  obtain kvs where kvs: "v = JObj kvs"
    using assms by (cases v) (auto simp: parse_capture_def split: if_splits)
  have parts: "unset_field kvs ''modes'' (json_list parse_mode) = Some (cap_modes c)"
    "unset_field kvs ''gain_capability'' (nullable parse_gain) = Some (cap_gain c)"
    "unset_field kvs ''filters'' (json_list parse_filter) = Some (cap_filters c)"
    "unset_field kvs ''channel_combinations'' (json_list parse_channel) = Some (cap_channels c)"
    "unique_ids c"
    using assms by (auto simp: parse_capture_def kvs split: if_splits option.splits)
  have "list_all mode_ok (or_else (cap_modes c) [])"
    using parts(1) by (rule unset_field_checked) (auto elim!: json_list_all dest: parse_mode_ok)
  moreover have "list_all filter_ok (or_else (cap_filters c) [])"
    using parts(3) by (rule unset_field_checked) (auto elim!: json_list_all dest: parse_filter_ok)
  moreover have "list_all channel_ok (or_else (cap_channels c) [])"
    using parts(4) by (rule unset_field_checked) (auto elim!: json_list_all dest: parse_channel_ok)
  moreover have "case cap_gain c of Some (Some g) \<Rightarrow> gain_ok g | _ \<Rightarrow> True"
    using parts(2) by (auto simp: unset_field_def nullable_def split: option.splits if_splits dest: parse_gain_ok)
  ultimately show ?thesis using parts(5) by (simp add: capture_ok_def)
qed

lemma parse_dump_list:
  "list_all ok xs \<Longrightarrow> (\<And>x. ok x \<Longrightarrow> parse (dump x) = Some (fill x))
   \<Longrightarrow> those (map (\<lambda>x. parse (dump x)) xs) = Some (map fill xs)"
  by (rule those_map_Some) (simp add: list_all_iff)

lemma unique_ids_filled: "unique_ids (filled c) = unique_ids c"
  by (simp add: unique_ids_def filled_def filled_mode_def filled_channel_def comp_def)

text \<open>
  A full dump of a validated document validates again, to the same values, exactly when it
  is not too long.
\<close>

lemma parse_dump_capture:
  assumes "capture_ok c"
  shows "parse_capture float_text (dump_capture c) =
    (if json_bytes float_text (dump_capture c) \<le> max_capture_bytes then Some (filled c) else None)"
proof -
  have "those (map (\<lambda>x. parse_mode (dump_mode x)) (or_else (cap_modes c) []))
      = Some (map filled_mode (or_else (cap_modes c) []))"
    using assms by (auto simp: capture_ok_def intro!: parse_dump_list parse_dump_mode)
  moreover have "those (map (\<lambda>x. parse_filter (dump_filter x)) (or_else (cap_filters c) []))
      = Some (or_else (cap_filters c) [])"
    using assms parse_dump_list[where ok = filter_ok and parse = parse_filter and dump = dump_filter and fill = "\<lambda>x. x"]
    by (simp add: capture_ok_def parse_dump_filter)
  moreover have "those (map (\<lambda>x. parse_channel (dump_channel x)) (or_else (cap_channels c) []))
      = Some (map filled_channel (or_else (cap_channels c) []))"
    using assms by (auto simp: capture_ok_def intro!: parse_dump_list parse_dump_channel)
  moreover have "nullable parse_gain (dump_nullable dump_gain (or_else (cap_gain c) None))
      = Some (or_else (cap_gain c) None)"
    using assms by (cases "or_else (cap_gain c) None")
      (auto simp: capture_ok_def nullable_def dump_nullable_def parse_dump_gain or_else_def split: option.splits)
  moreover have "unique_ids (filled c)" using assms by (simp add: unique_ids_filled capture_ok_def)
  ultimately show ?thesis
    by (simp add: parse_capture_def dump_capture_def field_def unset_field_def json_keys_ok_def comp_def filled_def)
qed

text \<open>The dump of the set fields validates to the same value.\<close>

lemma parse_dump_mode_set: "mode_ok m \<Longrightarrow> parse_mode (dump_mode_set m) = Some m"
  by (cases m; cases "cm_exposure m"; cases "or_else (cm_exposure m) None")
    (auto simp: mode_ok_def dump_mode_set_def dump_set_field_def mode_fields_def parse_mode_def field_def unset_field_def
      nullable_def dump_nullable_def json_keys_ok_def parse_dump_capture_exposure split: option.splits)

lemma parse_dump_channel_set: "channel_ok c \<Longrightarrow> parse_channel (dump_channel_set c) = Some c"
  by (cases c; cases "cc_adjustable c"; cases "cc_min c"; cases "cc_max c"; cases "cc_step c")
    (simp_all add: channel_ok_def dump_channel_set_def dump_set_field_def channel_fields_def parse_channel_def field_def
      unset_field_def json_keys_ok_def percent_def positive_int_def channel_range_ok_def)

lemma parse_dump_capture_set:
  assumes "capture_ok c"
  shows "parse_capture float_text (dump_capture_set c) =
    (if json_bytes float_text (dump_capture_set c) \<le> max_capture_bytes then Some c else None)"
proof -
  have "those (map (\<lambda>x. parse_mode (dump_mode_set x)) ms) = Some ms" if "cap_modes c = Some ms" for ms
    using assms that parse_dump_list[where ok = mode_ok and parse = parse_mode and dump = dump_mode_set and fill = "\<lambda>x. x"]
    by (simp add: capture_ok_def parse_dump_mode_set)
  moreover have "those (map (\<lambda>x. parse_filter (dump_filter x)) fs) = Some fs" if "cap_filters c = Some fs" for fs
    using assms that parse_dump_list[where ok = filter_ok and parse = parse_filter and dump = dump_filter and fill = "\<lambda>x. x"]
    by (simp add: capture_ok_def parse_dump_filter)
  moreover have "those (map (\<lambda>x. parse_channel (dump_channel_set x)) cs) = Some cs" if "cap_channels c = Some cs" for cs
    using assms that parse_dump_list[where ok = channel_ok and parse = parse_channel and dump = dump_channel_set and fill = "\<lambda>x. x"]
    by (simp add: capture_ok_def parse_dump_channel_set)
  moreover have "nullable parse_gain (dump_nullable dump_gain g) = Some g" if "cap_gain c = Some g" for g
    using assms that by (cases g) (auto simp: capture_ok_def nullable_def dump_nullable_def parse_dump_gain)
  moreover have "unique_ids c" using assms by (simp add: capture_ok_def)
  ultimately show ?thesis
    by (cases c; cases "cap_modes c"; cases "cap_gain c"; cases "cap_filters c"; cases "cap_channels c")
      (simp_all add: parse_capture_def dump_capture_set_def dump_set_field_def field_def unset_field_def json_keys_ok_def comp_def)
qed

lemma dump_filled [simp]: "dump_capture (filled c) = dump_capture c"
  by (simp add: dump_capture_def filled_def dump_mode_def mode_fields_def filled_mode_def dump_channel_def
      channel_fields_def filled_channel_def comp_def)

section \<open>A document that outgrows its limit\<close>

text \<open>
  A document of exactly 64 KiB with one mode that leaves \<open>exposure_capability\<close> out: its dump
  spells the missing field as null.
\<close>

definition long_label :: string where
  "long_label = replicate 65475 (CHR ''x'')"

definition full_document :: json where
  "full_document = JObj [(''version'', JInt 1), (''modes'', JArr [JObj
     [(''id'', JStr ''m''), (''type'', JStr ''custom''), (''label'', JStr long_label)]])]"

definition full_capture :: capture_capability where
  "full_capture = \<lparr>cap_modes = Some [\<lparr>cm_id = ''m'', cm_type = ''custom'', cm_label = long_label, cm_exposure = None\<rparr>],
     cap_gain = None, cap_filters = None, cap_channels = None\<rparr>"

lemma text_bytes_simps [simp]: "text_bytes [] = 2" "text_bytes (c # s) = char_bytes c + text_bytes s"
  by (simp_all add: text_bytes_def)

lemma text_bytes_long_label: "text_bytes long_label = 65477"
  by (simp add: text_bytes_def long_label_def char_bytes_def sum_list_replicate)

lemma full_document_bytes: "json_bytes float_text full_document = 65536"
  by (simp add: full_document_def text_bytes_long_label commas_def str_int_def show_nat.simps char_bytes_def)

lemma full_capture_bytes: "max_capture_bytes < json_bytes float_text (dump_capture full_capture)"
  by (simp add: dump_capture_def full_capture_def dump_mode_def mode_fields_def dump_nullable_def max_capture_bytes_def
     text_bytes_long_label commas_def str_int_def show_nat.simps char_bytes_def)

lemma strip_long_label: "strip long_label \<noteq> []"
proof -
  have "strip long_label = long_label"
    unfolding strip_def by (rule strip_while_id) (simp add: long_label_def is_space_def)
  then show ?thesis by (simp add: long_label_def)
qed

lemma parse_full_document: "parse_capture float_text full_document = Some full_capture"
proof -
  have "required_text (JStr long_label) = Some long_label"
    by (rule required_text_JStr) (rule strip_long_label)
  moreover have "required_text (JStr ''m'') = Some ''m''"
    by (rule required_text_JStr)
      (simp add: strip_def strip_while_def lstrip_while_def rstrip_while_def is_space_def)
  ultimately show ?thesis
    by (simp add: parse_capture_def full_document_bytes max_capture_bytes_def)
      (simp add: full_document_def json_keys_ok_def field_def unset_field_def parse_mode_def
       mode_types_def full_capture_def unique_ids_def)
qed

end
