(* ===== verification/EquipmentStore.thy ===== *)
theory EquipmentStore
  imports Revisioned CaptureCapability
begin

text \<open>
  \<open>EquipmentRepository\<close> (\<open>src/app/astrojournal/repositories/equipment_repository.py\<close>) with the
  constraints of the equipment tables (\<open>src/app/astrojournal/models/equipment.py\<close>).
\<close>

section \<open>Rows and constraints\<close>

definition eq_get :: "string \<Rightarrow> bool \<Rightarrow> equipment list \<Rightarrow> equipment option" where
  "eq_get equipment_id include_deleted rows =
     List.find (\<lambda>e. eq_id e = equipment_id \<and> (include_deleted \<or> eq_deleted_at e = None)) rows"

definition eq_list :: "equipment list \<Rightarrow> equipment list" where
  "eq_list rows =
     order_by (\<lambda>e. (eq_sort_order e, eq_name e, eq_id e)) (filter (\<lambda>e. eq_deleted_at e = None) rows)"

definition equipment_kinds :: "string list" where
  "equipment_kinds = [''smartTelescope'', ''refractor'', ''reflector'', ''other'']"

definition equipment_purposes :: "string list" where
  "equipment_purposes = [''imaging'', ''visual'']"

definition null_or_positive :: "real option \<Rightarrow> bool" where
  "null_or_positive x = (case x of None \<Rightarrow> True | Some v \<Rightarrow> 0 < v)"

definition equipment_checks :: "equipment \<Rightarrow> bool" where
  "equipment_checks e \<longleftrightarrow> eq_kind e \<in> set equipment_kinds \<and> eq_purpose e \<in> set equipment_purposes \<and>
     null_or_positive (eq_focal_length e) \<and> null_or_positive (eq_aperture e) \<and>
     null_or_positive (eq_fov_width e) \<and> null_or_positive (eq_fov_height e)"

definition equipment_write :: "equipment \<Rightarrow> flush_error + equipment" where
  "equipment_write e =
     (if \<not> fits_integer (eq_sort_order e) then Inl NumberTooLarge
      else if \<not> equipment_checks e then Inl ConstraintViolated else Inr e)"

definition equipment_insert :: "equipment \<Rightarrow> equipment list \<Rightarrow> flush_error + equipment list" where
  "equipment_insert e rows = and_then (equipment_write e) (\<lambda>e.
     raise_if (eq_id e \<in> eq_id ` set rows) ConstraintViolated (Inr (rows @ [e])))"

definition eyepiece_insert :: "eyepiece \<Rightarrow> eyepiece list \<Rightarrow> flush_error + eyepiece list" where
  "eyepiece_insert y rows =
     (if \<not> fits_integer (ey_sort_order y) then Inl NumberTooLarge
      else if ey_focal_length y \<le> 0 \<or> ey_afov y \<le> 0 \<or> ey_id y \<in> ey_id ` set rows then Inl ConstraintViolated
      else Inr (rows @ [y]))"

text \<open>
  A \<open>Numeric(12, 6)\<close> column holds six decimals, rounding half away from zero (its values are
  positive here), and six digits before them.
\<close>

definition numeric6 :: "real \<Rightarrow> real" where
  "numeric6 x = of_int \<lfloor>x * 10 ^ 6 + 1 / 2\<rfloor> / 10 ^ 6"

definition fits_numeric6 :: "real \<Rightarrow> bool" where
  "fits_numeric6 x \<longleftrightarrow> numeric6 x < 10 ^ 6"

section \<open>Eyepieces\<close>

definition eyepieces_of :: "string \<Rightarrow> eyepiece list \<Rightarrow> eyepiece list" where
  "eyepieces_of equipment_id rows =
     order_by (\<lambda>y. (ey_sort_order y, ey_id y)) (filter (\<lambda>y. ey_equipment y = equipment_id) rows)"

definition replace_eyepieces :: "string \<Rightarrow> eyepiece list \<Rightarrow> db \<Rightarrow> flush_error + db" where
  "replace_eyepieces equipment_id ys d =
     and_then (insert_all eyepiece_insert ys (delete_where (\<lambda>y. ey_equipment y = equipment_id) (eyepieces d)))
       (\<lambda>ys. Inr (d\<lparr>eyepieces := ys\<rparr>))"

section \<open>Exposure capabilities\<close>

datatype exposure = Discrete "real list" | Steps real real real

definition find_capability :: "string \<Rightarrow> string \<Rightarrow> exposure_capability list \<Rightarrow> exposure_capability option" where
  "find_capability equipment_id tracking_mode rows =
     List.find (\<lambda>c. xc_equipment c = equipment_id \<and> xc_mode c = tracking_mode) rows"

definition capability_payload :: "exposure_capability \<Rightarrow> exposure_value list \<Rightarrow> exposure" where
  "capability_payload c values =
     (if xc_type c = ''discrete'' then
        Discrete (map xv_seconds (order_by xv_sort_order (filter (\<lambda>v. xv_capability v = xc_id c) values)))
      else Steps (the (xc_min c)) (the (xc_max c)) (the (xc_step c)))"

definition capability_of :: "string \<Rightarrow> string \<Rightarrow> db \<Rightarrow> exposure option" where
  "capability_of equipment_id tracking_mode d =
     map_option (\<lambda>c. capability_payload c (exposure_values d))
       (find_capability equipment_id tracking_mode (capabilities d))"

text \<open>The next value of the capability table's sequence.\<close>

definition next_capability_id :: "exposure_capability list \<Rightarrow> int" where
  "next_capability_id rows = fold (\<lambda>c n. max n (xc_id c)) rows 0 + 1"

definition capability_row :: "int \<Rightarrow> string \<Rightarrow> string \<Rightarrow> exposure \<Rightarrow> exposure_capability" where
  "capability_row i equipment_id tracking_mode x =
     (case x of
        Discrete _ \<Rightarrow> \<lparr>xc_id = i, xc_equipment = equipment_id, xc_mode = tracking_mode, xc_type = ''discrete'',
                       xc_min = None, xc_max = None, xc_step = None\<rparr>
      | Steps a b s \<Rightarrow> \<lparr>xc_id = i, xc_equipment = equipment_id, xc_mode = tracking_mode, xc_type = ''range'',
                       xc_min = Some (numeric6 a), xc_max = Some (numeric6 b), xc_step = Some (numeric6 s)\<rparr>)"

definition capability_write :: "exposure \<Rightarrow> exposure_capability \<Rightarrow> flush_error + exposure_capability" where
  "capability_write x c =
     (case x of
        Discrete _ \<Rightarrow> Inr c
      | Steps a b s \<Rightarrow>
          if \<not> (fits_numeric6 a \<and> fits_numeric6 b \<and> fits_numeric6 s) then Inl NumberTooLarge
          else if \<not> (0 < numeric6 a \<and> numeric6 a \<le> numeric6 b \<and> 0 < numeric6 s) then Inl ConstraintViolated
          else Inr c)"

definition value_insert :: "exposure_value \<Rightarrow> exposure_value list \<Rightarrow> flush_error + exposure_value list" where
  "value_insert v rows =
     (if \<not> fits_numeric6 (xv_seconds v) then Inl NumberTooLarge
      else let v = v\<lparr>xv_seconds := numeric6 (xv_seconds v)\<rparr> in
        if xv_seconds v \<le> 0 \<or>
           list_ex (\<lambda>w. xv_capability w = xv_capability v \<and>
                        (xv_seconds w = xv_seconds v \<or> xv_sort_order w = xv_sort_order v)) rows
        then Inl ConstraintViolated else Inr (rows @ [v]))"

definition discrete_rows :: "int \<Rightarrow> real list \<Rightarrow> exposure_value list" where
  "discrete_rows i xs =
     map (\<lambda>(k, x). \<lparr>xv_capability = i, xv_seconds = x, xv_sort_order = int k\<rparr>) (enumerate 0 xs)"

definition replace_capability :: "string \<Rightarrow> string \<Rightarrow> exposure option \<Rightarrow> db \<Rightarrow> flush_error + db" where
  "replace_capability equipment_id tracking_mode value d =
     (let existing = find_capability equipment_id tracking_mode (capabilities d);
          kept_values = (case existing of None \<Rightarrow> exposure_values d
                         | Some c \<Rightarrow> delete_where (\<lambda>v. xv_capability v = xc_id c) (exposure_values d))
      in case value of
           None \<Rightarrow> Inr (d\<lparr>capabilities := (case existing of None \<Rightarrow> capabilities d
                                           | Some c \<Rightarrow> delete_where (\<lambda>x. xc_id x = xc_id c) (capabilities d)),
                           exposure_values := kept_values\<rparr>)
         | Some x \<Rightarrow>
             (let i = (case existing of None \<Rightarrow> next_capability_id (capabilities d) | Some c \<Rightarrow> xc_id c)
              in and_then (capability_write x (capability_row i equipment_id tracking_mode x)) (\<lambda>c.
                   let caps = (case existing of None \<Rightarrow> capabilities d @ [c]
                               | Some _ \<Rightarrow> save_row xc_id c (capabilities d))
                   in and_then (case x of Discrete xs \<Rightarrow> insert_all value_insert (discrete_rows i xs) kept_values
                                | Steps _ _ _ \<Rightarrow> Inr kept_values) (\<lambda>vs.
                        Inr (d\<lparr>capabilities := caps, exposure_values := vs\<rparr>)))))"

definition delete_equipment_children :: "string \<Rightarrow> db \<Rightarrow> flush_error + db" where
  "delete_equipment_children equipment_id d =
     and_then (replace_eyepieces equipment_id [] d) (\<lambda>d.
     and_then (replace_capability equipment_id ''AZ'' None d)
              (replace_capability equipment_id ''EQ'' None))"

end
