(* ===== verification/ObservationRecords.thy ===== *)
theory ObservationRecords
  imports FileCleanup FileLinks EquipmentStore
begin

text \<open>
  The observation records of AstroJournal: \<open>ObservationRecordRepository\<close> and
  \<open>ObservationRecordService\<close> (\<open>src/app/astrojournal/repositories/\<close> and
  \<open>services/observation_record_service.py\<close>), with the checks of the table's partial unique
  indexes. Other sessions are explicit: \<open>raced\<close> are the rows they commit between the reads
  of a call and its write, and an update takes the state its first read saw beside the state it
  writes. A call returns its error or record with the state it leaves, because creating a
  record commits its file link before the record itself.
\<close>

datatype obs_error =
    RecordNotFound
  | FileNotFound
  | RepresentativeNeedsCatalog
  | ActiveEquipmentNotFound string
  | SnapshotServerManaged
  | RevisionConflict int int            \<comment> \<open>expected, current\<close>
  | RepresentativeConflict "string option"
  | ObsIntegrityError

section \<open>The repository\<close>

definition or_get :: "string \<Rightarrow> bool \<Rightarrow> observation_record list \<Rightarrow> observation_record option" where
  "or_get record_id include_deleted rows =
     List.find (\<lambda>r. or_id r = record_id \<and> (include_deleted \<or> or_deleted_at r = None)) rows"

definition or_get_by_client :: "string \<Rightarrow> observation_record list \<Rightarrow> observation_record option" where
  "or_get_by_client client_record_id rows =
     List.find (\<lambda>r. or_service r = astro \<and> or_client_id r = Some client_record_id) rows"

text \<open>Newest capture first, then the greatest id.\<close>

definition or_list ::
  "string option \<Rightarrow> bool option \<Rightarrow> bool option \<Rightarrow> observation_record list \<Rightarrow> observation_record list" where
  "or_list catalog favorite representative rows =
     rev (order_by (\<lambda>r. (or_captured_at r, or_id r))
       (filter (\<lambda>r. or_deleted_at r = None \<and>
                    (case catalog of None \<Rightarrow> True | Some c \<Rightarrow> or_catalog r = Some c) \<and>
                    (case favorite of None \<Rightarrow> True | Some b \<Rightarrow> or_favorite r = b) \<and>
                    (case representative of None \<Rightarrow> True | Some b \<Rightarrow> or_representative r = b)) rows))"

definition represents :: "string \<Rightarrow> string option \<Rightarrow> observation_record \<Rightarrow> bool" where
  "represents catalog except_id r \<longleftrightarrow>
     or_service r = astro \<and> or_catalog r = Some catalog \<and> or_deleted_at r = None \<and> or_representative r \<and>
     (case except_id of None \<Rightarrow> True | Some i \<Rightarrow> or_id r \<noteq> i)"

definition demoted_record :: "time \<Rightarrow> observation_record \<Rightarrow> observation_record" where
  "demoted_record now r =
     r\<lparr>or_representative := False, or_revision := or_revision r + 1, or_updated_at := now\<rparr>"

definition clear_representative ::
  "time \<Rightarrow> string \<Rightarrow> string option \<Rightarrow> observation_record list \<Rightarrow> observation_record list \<times> observation_record list" where
  "clear_representative now catalog except_id rows =
     (map (demoted_record now) (filter (represents catalog except_id) rows),
      update_where (represents catalog except_id) (demoted_record now) rows)"

text \<open>
  The unique indexes: the primary key, one record per client id and service, and one active
  representative per catalog object, whatever its service.
\<close>

definition active_representative :: "observation_record \<Rightarrow> bool" where
  "active_representative r \<longleftrightarrow> or_representative r \<and> or_deleted_at r = None \<and> or_catalog r \<noteq> None"

definition records_compatible :: "observation_record \<Rightarrow> observation_record \<Rightarrow> bool" where
  "records_compatible r x \<longleftrightarrow>
     or_id x \<noteq> or_id r \<and>
     (or_client_id r = None \<or> \<not> (or_service x = or_service r \<and> or_client_id x = or_client_id r)) \<and>
     \<not> (active_representative r \<and> active_representative x \<and> or_catalog x = or_catalog r)"

definition or_row_ok :: "observation_record \<Rightarrow> observation_record list \<Rightarrow> bool" where
  "or_row_ok r others \<longleftrightarrow> list_all (records_compatible r) others"

definition soft_deleted :: "time \<Rightarrow> observation_record \<Rightarrow> observation_record" where
  "soft_deleted now r = r\<lparr>or_deleted_at := Some now, or_revision := or_revision r + 1, or_updated_at := now\<rparr>"

section \<open>Payloads\<close>

record obs_payload =
  op_file :: int
  op_client_id :: "string option"
  op_catalog :: "string option"
  op_captured_at :: time
  op_latitude :: "real option"
  op_longitude :: "real option"
  op_location_name :: "string option"
  op_equipment_id :: "string option"
  op_equipment_ref :: "string option"
  op_equipment_name :: "string option"
  op_integration_seconds :: "int option"
  op_address :: "string option"
  op_memo :: "string option"
  op_favorite :: bool
  op_representative :: bool
  op_solve_status :: string

text \<open>
  A patch: the fields present in the request (\<open>exclude_unset\<close>). A nullable column is set to
  an option; \<open>captured_at\<close>, \<open>favorite\<close> and \<open>representative\<close> may not be null, by the
  validator, but \<open>plate_solve_status\<close> may.
\<close>

record obs_patch =
  pt_revision :: int
  pt_catalog :: "string option option"
  pt_captured_at :: "time option"
  pt_latitude :: "real option option"
  pt_longitude :: "real option option"
  pt_location_name :: "string option option"
  pt_equipment_id :: "string option option"
  pt_equipment_ref :: "string option option"
  pt_equipment_name :: "string option option"
  pt_integration_seconds :: "int option option"
  pt_address :: "string option option"
  pt_memo :: "string option option"
  pt_favorite :: "bool option"
  pt_representative :: "bool option"
  pt_solve_status :: "string option option"

definition patch_of :: "'a option \<Rightarrow> 'a \<Rightarrow> 'a" where
  "patch_of p old = or_else p old"

text \<open>The row the UPDATE writes; None when it puts NULL into the status column.\<close>

definition apply_patch :: "time \<Rightarrow> obs_patch \<Rightarrow> observation_record \<Rightarrow> observation_record option" where
  "apply_patch now p r =
     (if pt_solve_status p = Some None then None else Some
       (r\<lparr>or_catalog := patch_of (pt_catalog p) (or_catalog r),
          or_captured_at := patch_of (pt_captured_at p) (or_captured_at r),
          or_latitude := patch_of (pt_latitude p) (or_latitude r),
          or_longitude := patch_of (pt_longitude p) (or_longitude r),
          or_location_name := patch_of (pt_location_name p) (or_location_name r),
          or_equipment_id := patch_of (pt_equipment_id p) (or_equipment_id r),
          or_equipment_ref := patch_of (pt_equipment_ref p) (or_equipment_ref r),
          or_equipment_name := patch_of (pt_equipment_name p) (or_equipment_name r),
          or_integration_seconds := patch_of (pt_integration_seconds p) (or_integration_seconds r),
          or_address := patch_of (pt_address p) (or_address r),
          or_memo := patch_of (pt_memo p) (or_memo r),
          or_favorite := patch_of (pt_favorite p) (or_favorite r),
          or_representative := patch_of (pt_representative p) (or_representative r),
          or_solve_status := (case pt_solve_status p of Some (Some s) \<Rightarrow> s | _ \<Rightarrow> or_solve_status r),
          or_revision := pt_revision p + 1,
          or_updated_at := now\<rparr>))"

definition update_if_revision ::
  "time \<Rightarrow> string \<Rightarrow> obs_patch \<Rightarrow> observation_record list
     \<Rightarrow> db_error + (observation_record \<times> observation_record list) option" where
  "update_if_revision now record_id p rows =
     (case List.find (\<lambda>r. or_id r = record_id \<and> or_deleted_at r = None \<and> or_revision r = pt_revision p) rows of
        None \<Rightarrow> Inr None
      | Some r \<Rightarrow>
         (case apply_patch now p r of
            None \<Rightarrow> Inl IntegrityError
          | Some r' \<Rightarrow>
              if or_row_ok r' (filter (\<lambda>x. or_id x \<noteq> record_id) rows)
              then Inr (Some (r', save_row or_id r' rows)) else Inl IntegrityError))"

section \<open>The service: equipment\<close>

definition require_selectable :: "string \<Rightarrow> db \<Rightarrow> obs_error + equipment" where
  "require_selectable equipment_id d =
     (case eq_get equipment_id True (equipments d) of
        None \<Rightarrow> Inl (ActiveEquipmentNotFound equipment_id)
      | Some e \<Rightarrow> if eq_deleted_at e \<noteq> None \<or> \<not> eq_is_active e
                  then Inl (ActiveEquipmentNotFound equipment_id) else Inr e)"

definition prepare_created :: "obs_payload \<Rightarrow> db \<Rightarrow> obs_error + obs_payload" where
  "prepare_created p d =
     (case op_equipment_ref p of
        None \<Rightarrow> Inr p
      | Some i \<Rightarrow> and_then (require_selectable i d) (\<lambda>e.
          Inr (p\<lparr>op_equipment_ref := Some (eq_id e), op_equipment_name := Some (eq_name e)\<rparr>)))"

definition prepare_updated :: "observation_record \<Rightarrow> obs_patch \<Rightarrow> db \<Rightarrow> obs_error + obs_patch" where
  "prepare_updated r p d =
     (case pt_equipment_ref p of
        Some None \<Rightarrow>
          Inr (case or_equipment_ref r of
                 Some i \<Rightarrow> (case eq_get i True (equipments d) of
                              Some e \<Rightarrow> p\<lparr>pt_equipment_name := Some (Some (eq_name e))\<rparr>
                            | None \<Rightarrow> p\<lparr>pt_equipment_name := None\<rparr>)
               | None \<Rightarrow> p\<lparr>pt_equipment_name := None\<rparr>)
      | Some (Some i) \<Rightarrow> and_then (require_selectable i d) (\<lambda>e.
          Inr (p\<lparr>pt_equipment_ref := Some (Some (eq_id e)), pt_equipment_name := Some (Some (eq_name e))\<rparr>))
      | None \<Rightarrow> raise_if (pt_equipment_name p \<noteq> None \<and> or_equipment_ref r \<noteq> None) SnapshotServerManaged (Inr p))"

section \<open>The service: create\<close>

definition obs_change :: "time \<Rightarrow> change_operation \<Rightarrow> bool \<Rightarrow> observation_record \<Rightarrow> db \<Rightarrow> db" where
  "obs_change now operation tombstone r d =
     append_change now astro observation_resource (or_id r) operation (Some (or_revision r)) tombstone d"

definition demotion_events :: "time \<Rightarrow> observation_record list \<Rightarrow> db \<Rightarrow> db" where
  "demotion_events now demoted d = fold (obs_change now UPDATE False) demoted d"

text \<open>What a call meets: the time, the ids the database draws, and the other sessions.\<close>

record create_env =
  cx_now :: time
  cx_record_id :: string
  cx_job_id :: string
  cx_stale_link :: bool
  cx_stale_job :: bool
  cx_raced :: "observation_record list"

definition new_record :: "create_env \<Rightarrow> obs_payload \<Rightarrow> observation_record" where
  "new_record cx p =
     \<lparr>or_id = cx_record_id cx, or_file = op_file p, or_service = astro, or_client_id = op_client_id p,
      or_catalog = op_catalog p, or_captured_at = op_captured_at p, or_latitude = op_latitude p,
      or_longitude = op_longitude p, or_location_name = op_location_name p,
      or_equipment_id = op_equipment_id p, or_equipment_ref = op_equipment_ref p,
      or_equipment_name = op_equipment_name p, or_integration_seconds = op_integration_seconds p,
      or_address = op_address p, or_memo = op_memo p, or_favorite = op_favorite p,
      or_representative = op_representative p, or_solve_status = op_solve_status p,
      or_created_at = cx_now cx, or_updated_at = cx_now cx, or_deleted_at = None, or_revision = 1\<rparr>"

definition is_blank :: "string option \<Rightarrow> bool" where
  "is_blank s \<longleftrightarrow> s = None \<or> s = Some []"

text \<open>The transaction after the link: demote, insert, enqueue, record the events.\<close>

definition create_rows :: "create_env \<Rightarrow> obs_payload \<Rightarrow> db \<Rightarrow> db_error + observation_record \<times> db" where
  "create_rows cx p d =
     (let (demoted, rows) =
            (if op_representative p then clear_representative (cx_now cx) (the (op_catalog p)) None (records d)
             else ([], records d));
          rows = rows @ cx_raced cx;
          record = new_record cx p
      in if \<not> or_row_ok record rows then Inl IntegrityError
         else (case q_enqueue (cx_stale_job cx) True (cx_job_id cx) (cx_now cx) (op_file p)
                      (Some (cx_record_id cx)) (d\<lparr>records := rows @ [record]\<rparr>) of
                 Inl _ \<Rightarrow> Inl IntegrityError
               | Inr ((job, _), d1) \<Rightarrow>
                   let record = record\<lparr>or_solve_status := status_text (ps_status job)\<rparr>;
                       d2 = d1\<lparr>records := save_row or_id record (records d1)\<rparr>
                   in Inr (record, obs_change (cx_now cx) CREATE False record
                                     (demotion_events (cx_now cx) demoted d2))))"

definition create_rolled_back :: "create_env \<Rightarrow> obs_payload \<Rightarrow> db \<Rightarrow> obs_error + observation_record" where
  "create_rolled_back cx p d =
     (case (case op_client_id p of None \<Rightarrow> None | Some c \<Rightarrow> or_get_by_client c (records d)) of
        Some existing \<Rightarrow> Inr existing
      | None \<Rightarrow> Inl (if op_representative p then RepresentativeConflict (op_catalog p) else ObsIntegrityError))"

definition obs_create :: "create_env \<Rightarrow> obs_payload \<Rightarrow> db \<Rightarrow> (obs_error + observation_record) \<times> db" where
  "obs_create cx p d =
     (case (case op_client_id p of None \<Rightarrow> None | Some c \<Rightarrow> or_get_by_client c (records d)) of
        Some existing \<Rightarrow>
          (case q_enqueue (cx_stale_job cx) True (cx_job_id cx) (cx_now cx) (or_file existing)
                  (Some (or_id existing)) d of
             Inl _ \<Rightarrow> (Inl ObsIntegrityError, d)
           | Inr (_, d') \<Rightarrow> (Inr existing, d'))
      | None \<Rightarrow>
          (case find_row cf_id (op_file p) (files d) of
             None \<Rightarrow> (Inl FileNotFound, d)
           | Some f \<Rightarrow>
              if cf_deleted f then (Inl FileNotFound, d)
              else if op_representative p \<and> is_blank (op_catalog p) then (Inl RepresentativeNeedsCatalog, d)
              else (case prepare_created p d of
                  Inl e \<Rightarrow> (Inl e, d)
                | Inr p' \<Rightarrow>
                   (case ensure_link (cx_stale_link cx) (op_file p) astro d of
                      Inl _ \<Rightarrow> (Inl ObsIntegrityError, d)
                    | Inr (_, d1) \<Rightarrow>
                       (case create_rows cx p' d1 of
                          Inr (record, d2) \<Rightarrow> (Inr record, d2)
                        | Inl _ \<Rightarrow>
                            let d2 = d1\<lparr>records := records d1 @ cx_raced cx\<rparr>
                            in (create_rolled_back cx p' d2, d2))))))"

section \<open>The service: read, update, delete\<close>

definition obs_get :: "string \<Rightarrow> db \<Rightarrow> obs_error + observation_record" where
  "obs_get record_id d =
     (case or_get record_id False (records d) of None \<Rightarrow> Inl RecordNotFound | Some r \<Rightarrow> Inr r)"

record solve_projection =
  sp_status :: "string option"
  sp_job_id :: "string option"
  sp_result :: "solve_result option"

definition solve_projection_of :: "int \<Rightarrow> string option \<Rightarrow> bool \<Rightarrow> db \<Rightarrow> solve_projection" where
  "solve_projection_of common_file_id fallback include_result d =
     (case ps_get_by_file common_file_id (ps_jobs d) of
        None \<Rightarrow> \<lparr>sp_status = fallback, sp_job_id = None, sp_result = None\<rparr>
      | Some job \<Rightarrow>
          \<lparr>sp_status = Some (status_text (ps_status job)), sp_job_id = Some (ps_id job),
           sp_result = (if include_result then rs_result (q_response job d) else None)\<rparr>)"

definition obs_get_detail :: "string \<Rightarrow> db \<Rightarrow> obs_error + observation_record \<times> solve_projection" where
  "obs_get_detail record_id d =
     and_then (obs_get record_id d) (\<lambda>r. Inr (r, solve_projection_of (or_file r) (Some (or_solve_status r)) True d))"

text \<open>
  \<open>d0\<close> is what the first read saw; the writes act on \<open>d\<close>. \<open>raced\<close> commits between
  the demotion and the conditional UPDATE.
\<close>

definition obs_update ::
  "time \<Rightarrow> observation_record list \<Rightarrow> string \<Rightarrow> obs_patch \<Rightarrow> db \<Rightarrow> db \<Rightarrow> (obs_error + observation_record) \<times> db" where
  "obs_update now raced record_id patch d0 d =
     (case obs_get record_id d0 of
        Inl e \<Rightarrow> (Inl e, d)
      | Inr record \<Rightarrow>
         if or_revision record \<noteq> pt_revision patch
         then (Inl (RevisionConflict (pt_revision patch) (or_revision record)), d)
         else (case prepare_updated record patch d0 of
            Inl e \<Rightarrow> (Inl e, d)
          | Inr p \<Rightarrow>
             (let catalog = patch_of (pt_catalog p) (or_catalog record);
                  representative = patch_of (pt_representative p) (or_representative record)
              in if representative \<and> is_blank catalog then (Inl RepresentativeNeedsCatalog, d)
                 else
                   let (demoted, rows) =
                         (if representative then clear_representative now (the catalog) (Some record_id) (records d)
                          else ([], records d));
                       kept = d\<lparr>records := records d @ raced\<rparr>
                   in case update_if_revision now record_id p (rows @ raced) of
                        Inl _ \<Rightarrow> (Inl (RepresentativeConflict catalog), kept)
                      | Inr (Some (updated, rows')) \<Rightarrow>
                          (Inr updated, obs_change now UPDATE False updated
                                          (demotion_events now demoted (d\<lparr>records := rows'\<rparr>)))
                      | Inr None \<Rightarrow>
                          (case or_get record_id True (records kept) of
                             None \<Rightarrow> (Inl RecordNotFound, kept)
                           | Some current \<Rightarrow>
                               (Inl (RevisionConflict (pt_revision patch) (or_revision current)), kept)))))"

definition soft_delete_rows :: "time \<Rightarrow> observation_record \<Rightarrow> db \<Rightarrow> observation_record \<times> db" where
  "soft_delete_rows now r d =
     (if or_deleted_at r \<noteq> None then (r, d)
      else let r' = soft_deleted now r;
               d1 = d\<lparr>records := save_row or_id r' (records d)\<rparr>;
               (_, d2) = q_fail_waiting_if_file_unreferenced now (or_file r') d1
           in (r', obs_change now DELETE True r' d2))"

definition obs_soft_delete ::
  "storage_env \<Rightarrow> time \<Rightarrow> bool \<Rightarrow> string \<Rightarrow> db \<times> disk
     \<Rightarrow> (obs_error + observation_record \<times> cleanup_result) \<times> db \<times> disk" where
  "obs_soft_delete env now cleanup_ok record_id s =
     (case s of (d, k) \<Rightarrow>
      case or_get record_id True (records d) of
        None \<Rightarrow> (Inl RecordNotFound, d, k)
      | Some r \<Rightarrow>
         if or_service r \<noteq> astro then (Inl RecordNotFound, d, k)
         else let (r', d1) = soft_delete_rows now r d;
                  (cleanup, s') = cleanup_if_unreferenced env astro cleanup_ok (or_file r') (d1, k)
              in (Inr (r', cleanup), s'))"

end
