(* ===== verification/ObservationLaws.thy ===== *)
theory ObservationLaws
  imports ObservationRecords
begin

text \<open>
  What the observation-record service guarantees: the table's unique indexes hold after every
  call, an update is a compare-and-set on the revision, every changed record is announced in
  the change feed, creating and deleting can be repeated, and the equipment name of a linked
  record is the server's.
\<close>

section \<open>The table's constraints\<close>

definition records_ok :: "observation_record list \<Rightarrow> bool" where
  "records_ok rows \<longleftrightarrow> distinct (map or_id rows) \<and>
     (\<forall>r\<in>set rows. \<forall>x\<in>set rows. or_id r \<noteq> or_id x \<longrightarrow> records_compatible r x)"

lemma records_ok_distinct: "records_ok rows \<Longrightarrow> distinct (map or_id rows)"
  by (simp add: records_ok_def)

lemma records_ok_append_left: "records_ok (xs @ ys) \<Longrightarrow> records_ok xs"
  by (auto simp: records_ok_def)

lemma compatible_sym: "records_compatible r x \<longleftrightarrow> records_compatible x r"
  by (auto simp: records_compatible_def)

lemma records_ok_insert:
  assumes "records_ok rows" and "or_row_ok r rows"
  shows "records_ok (rows @ [r])"
proof -
  have "\<forall>x\<in>set rows. records_compatible r x" using assms(2) by (simp add: or_row_ok_def list_all_iff)
  moreover then have "or_id r \<notin> or_id ` set rows" by (auto simp: records_compatible_def)
  ultimately show ?thesis using assms(1) compatible_sym by (auto simp: records_ok_def)
qed

text \<open>A change that keeps the key columns and creates no representative keeps the constraints.\<close>

definition weaker_record :: "observation_record \<Rightarrow> observation_record \<Rightarrow> bool" where
  "weaker_record r r' \<longleftrightarrow> or_id r' = or_id r \<and> or_service r' = or_service r \<and> or_client_id r' = or_client_id r \<and>
     (active_representative r' \<longrightarrow> active_representative r \<and> or_catalog r' = or_catalog r)"

lemma weaker_compatible:
  "weaker_record r r' \<Longrightarrow> weaker_record x x' \<Longrightarrow> records_compatible r x \<Longrightarrow> records_compatible r' x'"
  by (auto simp: weaker_record_def records_compatible_def)

lemma records_ok_weaker:
  assumes "records_ok rows" and "list_all2 weaker_record rows rows'"
  shows "records_ok rows'"
proof -
  have "map or_id rows' = map or_id rows"
    using assms(2) by (auto simp: list_all2_conv_all_nth weaker_record_def intro!: nth_equalityI)
  moreover have "records_compatible r x" if rx: "r \<in> set rows'" "x \<in> set rows'" "or_id r \<noteq> or_id x" for r x
  proof -
    obtain i j where ij: "i < length rows'" "j < length rows'" "r = rows' ! i" "x = rows' ! j"
      using rx(1,2) by (auto simp: in_set_conv_nth)
    then have w: "weaker_record (rows ! i) r" "weaker_record (rows ! j) x" "i < length rows" "j < length rows"
      using assms(2) by (auto simp: list_all2_conv_all_nth)
    then have "or_id (rows ! i) \<noteq> or_id (rows ! j)" using rx(3) by (simp add: weaker_record_def)
    then have "records_compatible (rows ! i) (rows ! j)"
      using assms(1) w(3,4) by (auto simp: records_ok_def)
    then show ?thesis using weaker_compatible w by blast
  qed
  ultimately show ?thesis using assms(1) by (auto simp: records_ok_def)
qed

lemma weaker_update_where:
  "(\<And>r. r \<in> set rows \<Longrightarrow> P r \<Longrightarrow> weaker_record r (f r)) \<Longrightarrow> list_all2 weaker_record rows (update_where P f rows)"
  by (induction rows) (auto simp: weaker_record_def)

lemma weaker_save_row:
  assumes "\<And>r. r \<in> set rows \<Longrightarrow> or_id r = or_id r' \<Longrightarrow> weaker_record r r'"
  shows "list_all2 weaker_record rows (save_row or_id r' rows)"
  unfolding save_row_def by (rule weaker_update_where) (use assms in auto)

lemma records_ok_replace:
  assumes "records_ok rows" and "or_row_ok r' (filter (\<lambda>x. or_id x \<noteq> or_id r') rows)"
  shows "records_ok (save_row or_id r' rows)"
proof -
  have ok: "\<forall>x\<in>set rows. or_id x \<noteq> or_id r' \<longrightarrow> records_compatible r' x"
    using assms(2) by (auto simp: or_row_ok_def list_all_iff)
  have "records_compatible r x" if "r \<in> set (save_row or_id r' rows)" "x \<in> set (save_row or_id r' rows)"
      "or_id r \<noteq> or_id x" for r x
    using that(1,2)[unfolded set_save_row] that(3) ok assms(1) compatible_sym
    by (auto simp: records_ok_def split: if_splits)
  then show ?thesis using assms(1) by (simp add: records_ok_def)
qed

lemma weaker_refl [simp]: "weaker_record r r"
  by (simp add: weaker_record_def)

lemma weaker_append: "list_all2 weaker_record xs ys \<Longrightarrow> list_all2 weaker_record (xs @ zs) (ys @ zs)"
  by (simp add: list_all2_appendI list_all2_refl)

lemma clear_weaker:
  "clear_representative now c e rows = (dem, rows') \<Longrightarrow> list_all2 weaker_record rows rows'"
  by (auto simp: clear_representative_def demoted_record_def weaker_record_def active_representative_def
      intro!: weaker_update_where)

lemma records_ok_sync: "records_ok (records d) \<Longrightarrow> records_ok (records (sync_observation_status now fid st d))"
  by (rule records_ok_weaker, assumption)
    (auto simp: sync_records records_ok_distinct synced_record_def weaker_record_def active_representative_def
      intro!: weaker_update_where)

lemma records_fold_change [simp]: "records (demotion_events now dem d) = records d"
  "links (demotion_events now dem d) = links d" "files (demotion_events now dem d) = files d"
  "ps_jobs (demotion_events now dem d) = ps_jobs d" "equipments (demotion_events now dem d) = equipments d"
proof -
  show "records (demotion_events now dem d) = records d" "links (demotion_events now dem d) = links d"
    "files (demotion_events now dem d) = files d" "ps_jobs (demotion_events now dem d) = ps_jobs d"
    "equipments (demotion_events now dem d) = equipments d"
    unfolding demotion_events_def
    by (induction dem arbitrary: d) (simp_all add: obs_change_def append_change_def)
qed

lemma obs_change_fields [simp]: "records (obs_change now op tb r d) = records d"
  "links (obs_change now op tb r d) = links d" "files (obs_change now op tb r d) = files d"
  "ps_jobs (obs_change now op tb r d) = ps_jobs d" "equipments (obs_change now op tb r d) = equipments d"
  by (simp_all add: obs_change_def append_change_def)

lemma q_enqueue_fields:
  "q_enqueue st ok jid now fid rid d = Inr (res, d') \<Longrightarrow> \<exists>rows. d' = d\<lparr>ps_jobs := rows\<rparr>"
  by (auto simp: q_enqueue_def split: sum.splits)

lemma find_record_save:
  assumes "distinct (map or_id rows)" and "List.find P rows = Some r" and "or_id r' = or_id r"
  shows "r' \<in> set (save_row or_id r' rows)"
  using find_SomeD[OF assms(2)] assms(3) by (auto simp: set_save_row)

lemma create_rows_records:
  assumes "create_rows cx p d = Inr (r, d')" and "records_ok (records d @ cx_raced cx)"
  shows "records_ok (records d') \<and> r \<in> set (records d') \<and> or_client_id r = op_client_id p \<and> or_service r = astro \<and>
    or_deleted_at r = None \<and> or_id r = cx_record_id cx \<and> links d' = links d \<and> files d' = files d"
proof -
  obtain dem rows where clear: "(if op_representative p
      then clear_representative (cx_now cx) (the (op_catalog p)) None (records d) else ([], records d)) = (dem, rows)"
    by fastforce
  have ok: "or_row_ok (new_record cx p) (rows @ cx_raced cx)"
    using assms(1) clear by (auto simp: create_rows_def Let_def split: if_splits prod.splits)
  obtain job b d1 where enq: "q_enqueue (cx_stale_job cx) True (cx_job_id cx) (cx_now cx) (op_file p)
      (Some (cx_record_id cx)) (d\<lparr>records := (rows @ cx_raced cx) @ [new_record cx p]\<rparr>) = Inr ((job, b), d1)"
    and r: "r = new_record cx p\<lparr>or_solve_status := status_text (ps_status job)\<rparr>"
    and d': "d' = obs_change (cx_now cx) CREATE False r
       (demotion_events (cx_now cx) dem (d1\<lparr>records := save_row or_id r (records d1)\<rparr>))"
    using assms(1) clear ok by (auto simp: create_rows_def Let_def split: if_splits prod.splits sum.splits)
  have "list_all2 weaker_record (records d @ cx_raced cx) (rows @ cx_raced cx)"
  proof (rule weaker_append)
    show "list_all2 weaker_record (records d) rows"
      using clear clear_weaker by (cases "op_representative p") (simp_all, metis list_all2_refl weaker_refl)
  qed
  then have "records_ok (rows @ cx_raced cx)" using records_ok_weaker assms(2) by blast
  then have ins: "records_ok ((rows @ cx_raced cx) @ [new_record cx p])" using ok by (rule records_ok_insert)
  have d1: "records d1 = (rows @ cx_raced cx) @ [new_record cx p]" "links d1 = links d" "files d1 = files d"
    using q_enqueue_fields[OF enq] by auto
  have "records_ok (save_row or_id r (records d1))"
  proof (rule records_ok_weaker[OF ins[folded d1(1)] weaker_save_row])
    fix x assume "x \<in> set (records d1)" "or_id x = or_id r"
    moreover have "or_id r = or_id (new_record cx p)" by (simp add: r)
    ultimately have "x = new_record cx p"
      using ins by (auto simp: d1 records_ok_def image_iff)
    then show "weaker_record x r" by (simp add: r weaker_record_def active_representative_def)
  qed
  moreover have "r \<in> set (save_row or_id r (records d1))" by (auto simp: set_save_row d1 r)
  ultimately show ?thesis using d1 by (simp add: d' r new_record_def)
qed

lemma prepare_created_error: "prepare_created p d = Inl e \<Longrightarrow> e \<noteq> RepresentativeConflict c"
  by (auto simp: prepare_created_def require_selectable_def and_then_def split: option.splits sum.splits if_splits)

lemma obs_create_cases:
  assumes "obs_create cx p d = (res, d')"
  obtains (replayed) c existing rows where "op_client_id p = Some c" "or_get_by_client c (records d) = Some existing"
      "res = Inr existing" "d' = d\<lparr>ps_jobs := rows\<rparr>"
    | (created) p' d1 b rec where "prepare_created p d = Inr p'"
        "ensure_link (cx_stale_link cx) (op_file p) astro d = Inr (b, d1)"
        "create_rows cx p' d1 = Inr (rec, d')" "res = Inr rec"
        "op_client_id p = None \<or> or_get_by_client (the (op_client_id p)) (records d) = None"
        "op_representative p \<longrightarrow> \<not> is_blank (op_catalog p)"
    | (lost) p' d1 b where "prepare_created p d = Inr p'"
        "ensure_link (cx_stale_link cx) (op_file p) astro d = Inr (b, d1)"
        "d' = d1\<lparr>records := records d1 @ cx_raced cx\<rparr>" "res = create_rolled_back cx p' d'"
    | (refused) e where "d' = d" "res = Inl e" "\<forall>c. e \<noteq> RepresentativeConflict c"
proof -
  let ?found = "case op_client_id p of None \<Rightarrow> None | Some c \<Rightarrow> or_get_by_client c (records d)"
  show ?thesis
  proof (cases ?found)
    case (Some existing)
    then obtain c where c: "op_client_id p = Some c" "or_get_by_client c (records d) = Some existing"
      by (auto split: option.splits)
    then show ?thesis
      using assms replayed refused q_enqueue_fields
      by (cases "q_enqueue (cx_stale_job cx) True (cx_job_id cx) (cx_now cx) (or_file existing) (Some (or_id existing)) d")
        (fastforce simp: obs_create_def)+
  next
    case None
    then have fresh: "op_client_id p = None \<or> or_get_by_client (the (op_client_id p)) (records d) = None"
      by (auto split: option.splits)
    show ?thesis
      using assms None fresh refused created lost prepare_created_error
      by (auto simp: obs_create_def Let_def split: option.splits if_splits sum.splits)
  qed
qed

lemma prepare_created_fields:
  "prepare_created p d = Inr p' \<Longrightarrow> op_client_id p' = op_client_id p \<and> op_catalog p' = op_catalog p \<and>
     op_representative p' = op_representative p \<and> op_file p' = op_file p"
  by (auto simp: prepare_created_def split: option.splits)

lemma ensure_link_records:
  "ensure_link st i sv d = Inr (b, d') \<Longrightarrow> records d' = records d \<and> changes d' = changes d \<and> ps_jobs d' = ps_jobs d
     \<and> change_seq d' = change_seq d \<and> equipments d' = equipments d"
  by (cases b) (auto dest!: ensure_link_result)

lemma update_if_revision_Some:
  assumes "update_if_revision now i p rows = Inr (Some (r', rows'))"
  shows "\<exists>r\<in>set rows. or_id r = i \<and> or_deleted_at r = None \<and> or_revision r = pt_revision p \<and>
    apply_patch now p r = Some r' \<and> rows' = save_row or_id r' rows \<and> or_id r' = i \<and>
    or_row_ok r' (filter (\<lambda>x. or_id x \<noteq> i) rows)"
  using assms
  by (auto simp: update_if_revision_def apply_patch_def split: option.splits if_splits dest!: find_SomeD)

lemma records_ok_update:
  assumes "records_ok rows" and "update_if_revision now i p rows = Inr (Some (r', rows'))"
  shows "records_ok rows'"
  using update_if_revision_Some[OF assms(2)] records_ok_replace[OF assms(1), of r'] by auto

lemma obs_update_cases:
  assumes "obs_update now raced i p d0 d = (res, d')"
  obtains (refused) e where "res = Inl e" "d' = d \<or> d' = d\<lparr>records := records d @ raced\<rparr>"
    | (updated) rec p' dem rows r' rows' where "obs_get i d0 = Inr rec" "or_revision rec = pt_revision p"
        "prepare_updated rec p d0 = Inr p'" "list_all2 weaker_record (records d) rows"
        "dem = [] \<and> rows = records d \<or> (\<exists>c. clear_representative now c (Some i) (records d) = (dem, rows))"
        "update_if_revision now i p' (rows @ raced) = Inr (Some (r', rows'))"
        "res = Inr r'" "d' = obs_change now UPDATE False r' (demotion_events now dem (d\<lparr>records := rows'\<rparr>))"
proof (cases "obs_get i d0")
  case (Inl e)
  have "res = Inl e \<and> d' = d" using assms by (simp add: obs_update_def Inl)
  then show ?thesis using refused by blast
next
  case (Inr rec)
  show ?thesis
  proof (cases "or_revision rec = pt_revision p")
    case False
    then show ?thesis using assms Inr refused by (auto simp: obs_update_def)
  next
    case same: True
    show ?thesis
    proof (cases "prepare_updated rec p d0")
      case (Inl e)
      then show ?thesis using assms Inr same refused by (auto simp: obs_update_def)
    next
      case prep: (Inr p')
      let ?cat = "patch_of (pt_catalog p') (or_catalog rec)"
      let ?rep = "patch_of (pt_representative p') (or_representative rec)"
      obtain dem rows where clear: "(if ?rep then clear_representative now (the ?cat) (Some i) (records d)
          else ([], records d)) = (dem, rows)" by fastforce
      have weak: "list_all2 weaker_record (records d) rows"
        using clear clear_weaker by (cases ?rep) (simp_all, metis list_all2_refl weaker_refl)
      have dem: "dem = [] \<and> rows = records d \<or> (\<exists>c. clear_representative now c (Some i) (records d) = (dem, rows))"
        using clear by (auto split: if_splits)
      show ?thesis
      proof (cases "\<exists>r' rows'. update_if_revision now i p' (rows @ raced) = Inr (Some (r', rows')) \<and> \<not> (?rep \<and> is_blank ?cat)")
        case True
        then obtain r' rows' where u: "update_if_revision now i p' (rows @ raced) = Inr (Some (r', rows'))"
          "\<not> (?rep \<and> is_blank ?cat)" by blast
        show ?thesis
          by (rule updated[OF Inr same prep weak dem u(1)])
            (use assms Inr same prep clear u in \<open>simp_all add: obs_update_def Let_def\<close>)
      next
        case False
        then show ?thesis using assms Inr same prep clear refused
          by (auto simp: obs_update_def Let_def split: if_splits sum.splits option.splits prod.splits)
      qed
    qed
  qed
qed

lemma or_get_SomeD: "or_get i b rows = Some r \<Longrightarrow> r \<in> set rows \<and> or_id r = i \<and> (b \<or> or_deleted_at r = None)"
  unfolding or_get_def by (drule find_SomeD) auto

lemma soft_delete_rows_records:
  assumes "soft_delete_rows now r d = (r', d')" and "r \<in> set (records d)"
  shows "or_id r' = or_id r \<and> records d' = save_row or_id r' (records d) \<and> or_deleted_at r' \<noteq> None \<or>
    r' = r \<and> d' = d \<and> or_deleted_at r \<noteq> None"
  using assms
  by (auto simp: soft_delete_rows_def Let_def soft_deleted_def q_fail_waiting_if_file_unreferenced_def
      split: if_splits prod.splits)

lemma records_cleanup: "cleanup_for_reset env sv ok i (d, k) = (res, d', k') \<Longrightarrow> records d' = records d"
  by (erule cleanup_cases) (auto simp: cleanup_rows_def remove_own_link_def)

lemma records_ok_soft_delete:
  assumes "records_ok (records d)" and "r \<in> set (records d)" and "soft_delete_rows now r d = (r', d')"
  shows "records_ok (records d')"
proof (cases "or_deleted_at r = None")
  case False
  then show ?thesis using assms by (simp add: soft_delete_rows_def)
next
  case True
  then have r': "r' = soft_deleted now r" and rows: "records d' = save_row or_id r' (records d)"
    using assms(3) by (auto simp: soft_delete_rows_def Let_def q_fail_waiting_if_file_unreferenced_def
        split: if_splits prod.splits)
  show ?thesis unfolding rows
  proof (rule records_ok_weaker[OF assms(1) weaker_save_row])
    fix x assume "x \<in> set (records d)" "or_id x = or_id r'"
    then have "x = r" using assms(1,2) by (auto simp: records_ok_def distinct_map inj_on_def r' soft_deleted_def)
    then show "weaker_record x r'" by (simp add: r' soft_deleted_def weaker_record_def active_representative_def)
  qed
qed

section \<open>Properties\<close>


text \<open>An example state: one photo and its representative record, then patches of it.\<close>

definition demo_obs_db :: db where
  "demo_obs_db = empty_db\<lparr>files := [demo_file\<lparr>cf_width := Some 100\<rparr>],
     links := [\<lparr>fs_file = 7, fs_service = astro\<rparr>],
     records := [(hd (records q_demo))\<lparr>or_client_id := Some ''c1''\<rparr>]\<rparr>"

definition demo_payload :: obs_payload where
  "demo_payload = \<lparr>op_file = 7, op_client_id = Some ''c2'', op_catalog = Some ''M42'', op_captured_at = 9,
     op_latitude = None, op_longitude = None, op_location_name = None, op_equipment_id = None,
     op_equipment_ref = None, op_equipment_name = None, op_integration_seconds = None, op_address = None,
     op_memo = None, op_favorite = False, op_representative = True, op_solve_status = ''PENDING''\<rparr>"

definition demo_patch :: obs_patch where
  "demo_patch = \<lparr>pt_revision = 2, pt_catalog = None, pt_captured_at = None, pt_latitude = None,
     pt_longitude = None, pt_location_name = None, pt_equipment_id = None, pt_equipment_ref = None,
     pt_equipment_name = None, pt_integration_seconds = None, pt_address = None,
     pt_memo = Some (Some ''clear sky''), pt_favorite = Some True, pt_representative = None,
     pt_solve_status = None\<rparr>"

definition demo_cx :: create_env where
  "demo_cx = \<lparr>cx_now = 80, cx_record_id = ''r2'', cx_job_id = ''j2'', cx_stale_link = False,
     cx_stale_job = False, cx_raced = []\<rparr>"

lemmas obs_eval = demo_obs_db_def demo_payload_def demo_patch_def demo_cx_def q_demo_def empty_db_def
  obs_update_def obs_get_def or_get_def prepare_updated_def clear_representative_def represents_def
  update_if_revision_def apply_patch_def patch_of_def or_row_ok_def records_compatible_def
  active_representative_def save_row_def obs_change_def append_change_def demotion_events_def
  demoted_record_def obs_create_def or_get_by_client_def prepare_created_def ensure_link_def fs_get_def
  create_rows_def new_record_def q_enqueue_def ps_enqueue_def ps_get_by_file_def ps_insert_ok_def
  ps_new_job_def demo_file_def is_blank_def raise_if_def Let_def

lemma demo_records_ok: "records_ok (records demo_obs_db)"
  by (simp add: records_ok_def demo_obs_db_def q_demo_def)


text \<open>
  C15. No update is lost: a successful update found the record undeleted at exactly the revision
  the client sent and moves it one revision on; and whoever read the record before that, from
  whatever snapshot, and writes with the old revision is refused and leaves the database as it
  is.
\<close>

theorem update_is_compare_and_set:
  assumes "obs_update now [] i patch d0 d = (Inr r', d')" and "records_ok (records d)"
  shows "(\<exists>r\<in>set (records d). or_id r = i \<and> or_deleted_at r = None \<and> or_revision r = pt_revision patch) \<and>
    or_revision r' = pt_revision patch + 1 \<and> or_get i False (records d') = Some r' \<and>
    (pt_revision patch2 = pt_revision patch \<longrightarrow>
      (\<exists>e. obs_update now2 [] i patch2 d02 d' = (Inl e, d')))"
  using assms(1)
proof (cases rule: obs_update_cases)
  case (updated rec p' dem rows r1 rows')
  have r1: "r1 = r'" using updated(7) by simp
  have rev: "pt_revision p' = pt_revision patch" if "prepare_updated rec0 pp d00 = Inr p'" "pt_revision pp = pt_revision patch"
    for rec0 pp d00 p'
    using that by (auto simp: prepare_updated_def raise_if_def split: option.splits if_splits)
  obtain r0 where r0: "r0 \<in> set rows" "or_id r0 = i" "or_deleted_at r0 = None" "or_revision r0 = pt_revision patch"
      "apply_patch now p' r0 = Some r'" "rows' = save_row or_id r' rows" "or_id r' = i"
    using update_if_revision_Some[OF updated(6)] rev[OF updated(3)] r1 by auto
  have revision: "or_revision r' = pt_revision patch + 1" and undeleted: "or_deleted_at r' = None"
    using r0(3,5) rev[OF updated(3)] by (auto simp: apply_patch_def split: if_splits)
  have ok_rows: "records_ok rows" using records_ok_weaker[OF assms(2) updated(4)] .
  have "r0 \<in> set (records d)"
    using updated(5) r0(1,2) by (auto simp: clear_representative_def set_update_where represents_def demoted_record_def split: if_splits)
  moreover have records': "records d' = save_row or_id r' rows" by (simp add: updated(8) r0(6))
  have only: "x = r'" if "x \<in> set (records d')" "or_id x = i" for x
    using that r0(1,2,7) by (auto simp: records' set_save_row split: if_splits)
  have mem: "r' \<in> set (records d')" using r0 by (auto simp: records' set_save_row)
  have found: "or_get i False (records d') = Some r'"
  proof (cases "or_get i False (records d')")
    case None
    then show ?thesis using mem r0(7) undeleted unfolding or_get_def by (auto dest: find_NoneD)
  next
    case (Some x)
    then show ?thesis using only or_get_SomeD by blast
  qed
  moreover have "\<exists>e. obs_update now2 [] i patch2 d02 d' = (Inl e, d')" if same: "pt_revision patch2 = pt_revision patch"
  proof -
    obtain res d2 where u: "obs_update now2 [] i patch2 d02 d' = (res, d2)" by fastforce
    then show ?thesis
    proof (cases rule: obs_update_cases)
      case (refused e)
      then show ?thesis using u by auto
    next
      case second: (updated rec2 p2 dem2 rows2 r2 rows2')
      obtain x where x: "x \<in> set rows2" "or_id x = i" "or_revision x = pt_revision patch"
        using update_if_revision_Some[OF second(6)] rev[OF second(3) same] by auto
      then have "x \<in> set (records d')"
        using second(5) by (auto simp: clear_representative_def set_update_where represents_def demoted_record_def split: if_splits)
      then show ?thesis using only x revision by force
    qed
  qed
  ultimately show ?thesis using r0(2-4) revision by blast
qed simp

lemma demo_update:
  "\<exists>r' d'. obs_update 90 [] ''r1'' demo_patch demo_obs_db demo_obs_db = (Inr r', d')"
  by (simp add: obs_eval)

theorem update_is_compare_and_set_witness:
  "\<exists>r' d' e. obs_update 90 [] ''r1'' demo_patch demo_obs_db demo_obs_db = (Inr r', d') \<and> or_revision r' = 3 \<and>
     obs_update 91 [] ''r1'' (demo_patch\<lparr>pt_favorite := Some False\<rparr>) demo_obs_db d' = (Inl e, d')"
proof -
  obtain r' d' where u: "obs_update 90 [] ''r1'' demo_patch demo_obs_db demo_obs_db = (Inr r', d')"
    using demo_update by blast
  have "pt_revision (demo_patch\<lparr>pt_favorite := Some False\<rparr>) = pt_revision demo_patch" "pt_revision demo_patch = 2"
    by (simp_all add: demo_patch_def)
  then show ?thesis using update_is_compare_and_set[OF u demo_records_ok] u by fastforce
qed

text \<open>What a reader of the feed needs: the new events name every changed record and its revision.\<close>

definition announced :: "db \<Rightarrow> db \<Rightarrow> bool" where
  "announced d d' \<longleftrightarrow> (\<exists>events. changes d' = changes d @ events \<and>
     (\<forall>r\<in>set (records d') - set (records d).
        \<exists>e\<in>set events. ce_resource e = or_id r \<and> ce_revision e = Some (or_revision r) \<and>
          ce_tombstone e = (or_deleted_at r \<noteq> None)))"

lemma demotion_events_changes:
  "\<exists>events. changes (demotion_events now dem d) = changes d @ events \<and>
     (\<forall>r\<in>set dem. \<exists>e\<in>set events. ce_resource e = or_id r \<and> ce_revision e = Some (or_revision r) \<and> \<not> ce_tombstone e)"
  unfolding demotion_events_def
proof (induction dem arbitrary: d)
  case (Cons r rs)
  from Cons[of "obs_change now UPDATE False r d"] obtain events where
    "changes (fold (obs_change now UPDATE False) rs (obs_change now UPDATE False r d)) =
       changes (obs_change now UPDATE False r d) @ events"
    "\<forall>r\<in>set rs. \<exists>e\<in>set events. ce_resource e = or_id r \<and> ce_revision e = Some (or_revision r) \<and> \<not> ce_tombstone e"
    by blast
  moreover obtain e where "changes (obs_change now UPDATE False r d) = changes d @ [e]" "ce_resource e = or_id r"
      "ce_revision e = Some (or_revision r)" "\<not> ce_tombstone e"
    by (simp add: obs_change_def append_change_def)
  ultimately show ?case by (intro exI[of _ "e # events"]) auto
qed simp

lemma announced_intro:
  assumes "changes d1 = changes d" and "records d1 = rows"
    and "\<And>r. r \<in> set rows \<Longrightarrow> r \<notin> set (records d) \<Longrightarrow> r = chg \<or> r \<in> set dem"
    and "\<And>r. r \<in> set dem \<Longrightarrow> or_deleted_at r = None" and "tb = (or_deleted_at chg \<noteq> None)"
  shows "announced d (obs_change now op tb chg (demotion_events now dem d1))"
proof -
  obtain ev where ev: "changes (demotion_events now dem d1) = changes d1 @ ev"
    "\<forall>r\<in>set dem. \<exists>e\<in>set ev. ce_resource e = or_id r \<and> ce_revision e = Some (or_revision r) \<and> \<not> ce_tombstone e"
    using demotion_events_changes by blast
  have "changes (obs_change now op tb chg (demotion_events now dem d1)) = changes d @ ev @
      [\<lparr>ce_id = change_seq (demotion_events now dem d1) + 1, ce_service = astro, ce_type = observation_resource,
        ce_resource = or_id chg, ce_operation = op, ce_revision = Some (or_revision chg), ce_tombstone = tb,
        ce_changed_at = now\<rparr>]"
    using ev(1) assms(1) by (simp add: obs_change_def append_change_def)
  moreover have "\<exists>e\<in>set (ev @ [\<lparr>ce_id = change_seq (demotion_events now dem d1) + 1, ce_service = astro,
        ce_type = observation_resource, ce_resource = or_id chg, ce_operation = op,
        ce_revision = Some (or_revision chg), ce_tombstone = tb, ce_changed_at = now\<rparr>]).
      ce_resource e = or_id r \<and> ce_revision e = Some (or_revision r) \<and> ce_tombstone e = (or_deleted_at r \<noteq> None)"
    if "r \<in> set rows" "r \<notin> set (records d)" for r
    using assms(3)[OF that] ev(2) assms(4,5) by (cases "r = chg") auto
  ultimately show ?thesis unfolding announced_def using assms(2) by auto
qed

lemma clear_new_rows:
  assumes "clear_representative now c e rows = (dem, rows')"
  shows "r \<in> set rows' \<Longrightarrow> r \<notin> set rows \<Longrightarrow> r \<in> set dem" and "r \<in> set dem \<Longrightarrow> or_deleted_at r = None"
  using assms by (auto simp: clear_representative_def set_update_where represents_def demoted_record_def split: if_splits)

lemma announced_refl: "records d' = records d \<Longrightarrow> changes d' = changes d \<Longrightarrow> announced d d'"
  by (simp add: announced_def)

lemma apply_patch_deleted: "apply_patch now p r = Some r' \<Longrightarrow> or_deleted_at r' = or_deleted_at r"
  by (auto simp: apply_patch_def split: if_splits)

lemma announced_create_rows:
  assumes "create_rows cx p d = Inr (r, d')" and "cx_raced cx = []"
  shows "announced d d'"
proof -
  obtain dem rows where clear: "(if op_representative p
      then clear_representative (cx_now cx) (the (op_catalog p)) None (records d) else ([], records d)) = (dem, rows)"
    by fastforce
  obtain job b d1 where enq: "q_enqueue (cx_stale_job cx) True (cx_job_id cx) (cx_now cx) (op_file p)
      (Some (cx_record_id cx)) (d\<lparr>records := rows @ [new_record cx p]\<rparr>) = Inr ((job, b), d1)"
    and r: "r = new_record cx p\<lparr>or_solve_status := status_text (ps_status job)\<rparr>"
    and d': "d' = obs_change (cx_now cx) CREATE False r
       (demotion_events (cx_now cx) dem (d1\<lparr>records := save_row or_id r (records d1)\<rparr>))"
    and ok: "or_row_ok (new_record cx p) rows"
    using assms clear by (auto simp: create_rows_def Let_def split: if_splits prod.splits sum.splits)
  obtain js where d1: "d1 = d\<lparr>records := rows @ [new_record cx p], ps_jobs := js\<rparr>"
    using q_enqueue_fields[OF enq] by auto
  have dem: "x \<in> set rows \<Longrightarrow> x \<notin> set (records d) \<Longrightarrow> x \<in> set dem" "x \<in> set dem \<Longrightarrow> or_deleted_at x = None" for x
    using clear clear_new_rows by (cases "op_representative p"; simp; blast)+
  show ?thesis unfolding d'
  proof (rule announced_intro)
    fix x assume "x \<in> set (save_row or_id r (records d1))" "x \<notin> set (records d)"
    then show "x = r \<or> x \<in> set dem" using dem(1) by (auto simp: d1 set_save_row r split: if_splits)
  qed (use dem in \<open>simp_all add: d1 r new_record_def\<close>)
qed

lemma announced_update:
  assumes "obs_update now [] i patch d0 d = (res, d')"
  shows "announced d d'"
  using assms
proof (cases rule: obs_update_cases)
  case (refused e)
  then show ?thesis by (auto intro: announced_refl)
next
  case (updated rec p' dem rows r' rows')
  obtain r0 where r0: "or_deleted_at r0 = None" "apply_patch now p' r0 = Some r'" "rows' = save_row or_id r' rows"
    using update_if_revision_Some[OF updated(6)] by auto
  have dem: "x \<in> set dem" if "x \<in> set rows" "x \<notin> set (records d)" for x
    using updated(5) clear_new_rows(1) that by blast
  have dem0: "or_deleted_at x = None" if "x \<in> set dem" for x
    using updated(5) clear_new_rows(2) that by auto
  show ?thesis unfolding updated(8)
  proof (rule announced_intro)
    fix x assume "x \<in> set rows'" "x \<notin> set (records d)"
    then show "x = r' \<or> x \<in> set dem" using dem by (auto simp: r0(3) set_save_row split: if_splits)
  qed (use dem0 r0 apply_patch_deleted in \<open>auto\<close>)
qed

lemma announced_soft_delete:
  assumes "soft_delete_rows now r d = (r', d')" and "r \<in> set (records d)"
  shows "announced d d'"
proof (cases "or_deleted_at r = None")
  case False
  then show ?thesis using assms by (auto simp: soft_delete_rows_def intro: announced_refl)
next
  case True
  obtain j d2 where q: "q_fail_waiting_if_file_unreferenced now (or_file (soft_deleted now r))
      (d\<lparr>records := save_row or_id (soft_deleted now r) (records d)\<rparr>) = (j, d2)" by fastforce
  then have d2: "records d2 = save_row or_id (soft_deleted now r) (records d)" "changes d2 = changes d"
    by (auto simp: q_fail_waiting_if_file_unreferenced_def split: if_splits prod.splits)
  have d': "d' = obs_change now DELETE True (soft_deleted now r) (demotion_events now [] d2)"
    using assms(1) True q by (auto simp: soft_delete_rows_def Let_def demotion_events_def)
  show ?thesis unfolding d'
    by (rule announced_intro) (use d2 in \<open>auto simp: soft_deleted_def dest: set_save_rowD\<close>)
qed

text \<open>
  C16. The change feed misses no record: whatever a create, update or delete does, every record
  that differs afterwards - the one addressed and the ones that lost their representative role -
  is named by a new event with its new revision, as a tombstone exactly when it is deleted.
\<close>

theorem every_change_announced:
  assumes "cx_raced cx = []"
  shows "announced d (snd (obs_create cx p d)) \<and> announced d (snd (obs_update now [] i patch d0 d)) \<and>
    announced d (fst (snd (obs_soft_delete env now ok i (d, k))))"
proof (intro conjI)
  obtain res d' where c: "obs_create cx p d = (res, d')" by fastforce
  from c have "announced d d'"
  proof (cases rule: obs_create_cases)
    case (created p' d1 b rec)
    then have "announced d1 d'" using announced_create_rows assms by blast
    then show ?thesis using ensure_link_records[OF created(2)] by (simp add: announced_def)
  next
    case (lost p' d1 b)
    then show ?thesis using ensure_link_records[OF lost(2)] assms by (intro announced_refl) simp_all
  qed (auto intro: announced_refl)
  then show "announced d (snd (obs_create cx p d))" by (simp add: c)
  show "announced d (snd (obs_update now [] i patch d0 d))"
    using announced_update by (metis prod.collapse)
  show "announced d (fst (snd (obs_soft_delete env now ok i (d, k))))"
  proof (cases "or_get i True (records d)")
    case (Some r)
    obtain r' d1 where sd: "soft_delete_rows now r d = (r', d1)" by fastforce
    obtain res d2 k2 where cl: "cleanup_for_reset env astro ok (or_file r') (d1, k) = (res, d2, k2)"
      by (metis prod_cases3)
    have "changes d2 = changes d1" using cl
      by (cases rule: cleanup_cases) (auto simp: cleanup_rows_def remove_own_link_def)
    then have "announced d d1 \<Longrightarrow> announced d d2" using records_cleanup[OF cl] by (simp add: announced_def)
    then show ?thesis using Some sd cl announced_soft_delete[OF sd] or_get_SomeD[OF Some]
      by (auto simp: obs_soft_delete_def cleanup_if_unreferenced_def intro: announced_refl)
  qed (auto simp: obs_soft_delete_def intro: announced_refl)
qed

theorem every_change_announced_witness:
  "announced demo_obs_db (snd (obs_create demo_cx demo_payload demo_obs_db))"
  by (rule conjunct1[OF every_change_announced]) (simp add: demo_cx_def)

lemma or_get_by_client_unique:
  assumes "records_ok rows" and "r \<in> set rows" and "or_service r = astro" and "or_client_id r = Some c"
  shows "or_get_by_client c rows = Some r"
proof (cases "or_get_by_client c rows")
  case None
  then show ?thesis using assms(2-4) unfolding or_get_by_client_def by (auto dest: find_NoneD)
next
  case (Some x)
  then have x: "x \<in> set rows" "or_service x = astro" "or_client_id x = Some c"
    unfolding or_get_by_client_def by (auto dest: find_SomeD)
  have "\<not> records_compatible x r" using assms(3,4) x(2,3) by (simp add: records_compatible_def)
  then have "or_id x = or_id r" using assms(1,2) x(1) unfolding records_ok_def by blast
  then have "x = r" using assms(1,2) x(1) by (auto simp: records_ok_def distinct_map inj_on_def)
  then show ?thesis using Some by simp
qed

text \<open>
  Creating is idempotent: once a create with a client id succeeded, every retry with that
  client id - whatever else its payload says, whichever ids the database would draw - returns
  the same record, as it is now, and changes no record, link or event.
\<close>

theorem create_idempotent:
  assumes "obs_create cx p d = (Inr r, d')" and "records_ok (records d @ cx_raced cx)"
    and "op_client_id p = Some c" and "op_client_id p2 = Some c"
    and "obs_create cx2 p2 d' = (res, d2)" and "\<forall>e. res \<noteq> Inl e"
  shows "res = Inr r \<and> records d2 = records d' \<and> links d2 = links d' \<and> changes d2 = changes d'"
proof -
  have "or_get_by_client c (records d') = Some r"
    using assms(1)
  proof (cases rule: obs_create_cases)
    case (created p' d1 b rec)
    have same: "records d1 = records d" and client: "op_client_id p' = Some c" and res: "r = rec"
      using ensure_link_records[OF created(2)] prepare_created_fields[OF created(1)] assms(3) created(4) by auto
    from create_rows_records[OF created(3)] assms(2) have
      "records_ok (records d')" "rec \<in> set (records d')" "or_client_id rec = Some c" "or_service rec = astro"
      by (simp_all add: same client)
    then show ?thesis using or_get_by_client_unique res by simp
  next
    case (lost p' d1 b)
    then show ?thesis using prepare_created_fields[OF lost(1)] assms(3)
      by (auto simp: create_rolled_back_def split: option.splits)
  qed (use assms(3) in auto)
  then show ?thesis using assms(4-6)
    by (auto simp: obs_create_def q_enqueue_def split: sum.splits prod.splits)
qed

lemma demo_create: "\<exists>r d'. obs_create demo_cx demo_payload demo_obs_db = (Inr r, d') \<and>
    (\<exists>d2. obs_create demo_cx (demo_payload\<lparr>op_favorite := True\<rparr>) d' = (Inr r, d2))"
  by (simp add: obs_eval astro_def)

theorem create_idempotent_witness:
  "\<exists>r d' d2. obs_create demo_cx demo_payload demo_obs_db = (Inr r, d') \<and>
     obs_create demo_cx (demo_payload\<lparr>op_favorite := True\<rparr>) d' = (Inr r, d2) \<and>
     records d2 = records d' \<and> changes d2 = changes d'"
proof -
  obtain r d' d2 where c: "obs_create demo_cx demo_payload demo_obs_db = (Inr r, d')"
    and c2: "obs_create demo_cx (demo_payload\<lparr>op_favorite := True\<rparr>) d' = (Inr r, d2)"
    using demo_create by blast
  have "records_ok (records demo_obs_db @ cx_raced demo_cx)" using demo_records_ok by (simp add: demo_cx_def)
  from create_idempotent[OF c this, of "''c2''", OF _ _ c2] c c2 show ?thesis
    by (auto simp: demo_payload_def)
qed

text \<open>
  Deleting is idempotent and leaves a tombstone: a successful delete marks the record
  deleted with one revision more than it had, announces it, and never removes the row; deleting
  it again returns the same record and changes no record and no event, so a client may repeat
  it.
\<close>

theorem delete_idempotent:
  assumes "obs_soft_delete env now ok i (d, k) = (Inr (r', cl), d', k')" and "records_ok (records d)"
  shows "or_id r' = i \<and> or_deleted_at r' \<noteq> None \<and> or_get i True (records d') = Some r' \<and>
    (\<exists>cl2 d2 k2. obs_soft_delete env2 now2 ok2 i (d', k') = (Inr (r', cl2), d2, k2) \<and>
       records d2 = records d' \<and> changes d2 = changes d')"
proof -
  obtain r d1 where r: "or_get i True (records d) = Some r" "or_service r = astro"
    and sd: "soft_delete_rows now r d = (r', d1)"
    and cln: "cleanup_for_reset env astro ok (or_file r') (d1, k) = (cl, d', k')"
    using assms(1) by (auto simp: obs_soft_delete_def cleanup_if_unreferenced_def split: option.splits if_splits prod.splits)
  have mem: "r \<in> set (records d)" "or_id r = i" using or_get_SomeD[OF r(1)] by auto
  have rows: "records d' = records d1" using records_cleanup[OF cln] .
  have r': "or_id r' = i" "or_deleted_at r' \<noteq> None" "or_service r' = astro" "r' \<in> set (records d1)"
    using sd mem r(2) by (auto simp: soft_delete_rows_def Let_def soft_deleted_def set_save_row
        q_fail_waiting_if_file_unreferenced_def split: if_splits prod.splits)
  have "records_ok (records d1)" using records_ok_soft_delete[OF assms(2) mem(1) sd] .
  then have only: "x = r'" if "x \<in> set (records d1)" "or_id x = i" for x
    using that r' by (auto simp: records_ok_def distinct_map inj_on_def)
  have found: "or_get i True (records d') = Some r'"
  proof (cases "or_get i True (records d')")
    case None
    then show ?thesis using r' unfolding or_get_def rows by (auto dest: find_NoneD)
  next
    case (Some x)
    then show ?thesis using only or_get_SomeD[OF Some] rows by simp
  qed
  obtain cl2 d2 k2 where cl2: "cleanup_for_reset env2 astro ok2 (or_file r') (d', k') = (cl2, d2, k2)"
    by (metis prod_cases3)
  have "changes d2 = changes d'" using cl2
    by (cases rule: cleanup_cases) (auto simp: cleanup_rows_def remove_own_link_def)
  then have "obs_soft_delete env2 now2 ok2 i (d', k') = (Inr (r', cl2), d2, k2) \<and>
       records d2 = records d' \<and> changes d2 = changes d'"
    using found r' cl2 records_cleanup[OF cl2]
    by (auto simp: obs_soft_delete_def soft_delete_rows_def cleanup_if_unreferenced_def)
  then show ?thesis using found r' by blast
qed

theorem delete_idempotent_witness:
  "\<exists>r' cl s'. obs_soft_delete demo_env 95 True ''r1'' (demo_obs_db, demo_disk) = (Inr (r', cl), s') \<and>
     or_deleted_at r' \<noteq> None"
proof -
  have get: "or_get ''r1'' True (records demo_obs_db) = Some (hd (records demo_obs_db))"
      "or_service (hd (records demo_obs_db)) = astro"
    by (simp_all add: or_get_def demo_obs_db_def q_demo_def)
  obtain r' d1 where sd: "soft_delete_rows 95 (hd (records demo_obs_db)) demo_obs_db = (r', d1)" by fastforce
  obtain cl d' k' where "cleanup_if_unreferenced demo_env astro True (or_file r') (d1, demo_disk) = (cl, d', k')"
    by (metis prod_cases3)
  then have s: "obs_soft_delete demo_env 95 True ''r1'' (demo_obs_db, demo_disk) = (Inr (r', cl), d', k')"
    by (simp add: obs_soft_delete_def get sd)
  show ?thesis using delete_idempotent[OF s demo_records_ok] s by blast
qed

text \<open>
  The equipment name of a linked record is the server's: linking writes the name of an
  existing, active, undeleted equipment, whatever name the client sent; while the record stays
  linked its name cannot be changed; unlinking takes the equipment's last name.
\<close>

theorem snapshot_server_managed:
  assumes "obs_update now raced i patch d d = (Inr r', d')"
  shows "(\<forall>e. pt_equipment_ref patch = Some (Some e) \<longrightarrow>
      (\<exists>q\<in>set (equipments d). eq_id q = e \<and> eq_is_active q \<and> eq_deleted_at q = None \<and>
         or_equipment_ref r' = Some e \<and> or_equipment_name r' = Some (eq_name q))) \<and>
    (\<forall>rec e. or_get i False (records d) = Some rec \<and> or_equipment_ref rec = Some e \<longrightarrow>
      (pt_equipment_ref patch = None \<longrightarrow> pt_equipment_name patch = None) \<and>
      (pt_equipment_ref patch = Some None \<longrightarrow> or_equipment_ref r' = None \<and>
         (\<forall>q. eq_get e True (equipments d) = Some q \<longrightarrow> or_equipment_name r' = Some (eq_name q))))"
  using assms
proof (cases rule: obs_update_cases)
  case (updated rec p' dem rows r1 rows')
  obtain r0 where ap: "apply_patch now p' r0 = Some r'"
    using update_if_revision_Some[OF updated(6)] updated(7) by auto
  have fields: "or_equipment_ref r' = patch_of (pt_equipment_ref p') (or_equipment_ref r0)"
      "or_equipment_name r' = patch_of (pt_equipment_name p') (or_equipment_name r0)"
    using ap by (auto simp: apply_patch_def split: if_splits)
  have rec: "or_get i False (records d) = Some rec" using updated(1) by (auto simp: obs_get_def split: option.splits)
  have link: "\<exists>q\<in>set (equipments d). eq_id q = e \<and> eq_is_active q \<and> eq_deleted_at q = None \<and>
         or_equipment_ref r' = Some e \<and> or_equipment_name r' = Some (eq_name q)"
    if "pt_equipment_ref patch = Some (Some e)" for e
    using updated(3) that fields unfolding prepare_updated_def require_selectable_def eq_get_def
    by (auto simp: patch_of_def split: option.splits if_splits dest!: find_SomeD)
  moreover have "(pt_equipment_ref patch = None \<longrightarrow> pt_equipment_name patch = None) \<and>
      (pt_equipment_ref patch = Some None \<longrightarrow> or_equipment_ref r' = None \<and>
         (\<forall>q. eq_get e True (equipments d) = Some q \<longrightarrow> or_equipment_name r' = Some (eq_name q)))"
    if "or_equipment_ref rec = Some e" for e
    using updated(3) that fields
    by (auto simp: prepare_updated_def patch_of_def raise_if_def split: option.splits if_splits)
  ultimately show ?thesis using rec by auto
qed simp

theorem snapshot_server_managed_witness:
  "\<exists>d r' d'. obs_update 90 [] ''r1'' (demo_patch\<lparr>pt_equipment_ref := Some (Some ''e1''),
      pt_equipment_name := Some (Some ''mine'')\<rparr>) d d = (Inr r', d') \<and> or_equipment_ref r' = Some ''e1'' \<and>
      or_equipment_name r' \<noteq> Some ''mine''"
proof -
  define d where "d = demo_obs_db\<lparr>equipments := [\<lparr>eq_id = ''e1'', eq_name = ''S50'', eq_kind = ''smartTelescope'',
     eq_purpose = ''imaging'', eq_is_active = True, eq_focal_length = None, eq_aperture = None,
     eq_fov_width = None, eq_fov_height = None, eq_capture = None, eq_sort_order = 0, eq_revision = 1,
     eq_created_at = 1, eq_updated_at = 1, eq_deleted_at = None\<rparr>]\<rparr>"
  let ?p = "demo_patch\<lparr>pt_equipment_ref := Some (Some ''e1''), pt_equipment_name := Some (Some ''mine'')\<rparr>"
  have "\<exists>r' d'. obs_update 90 [] ''r1'' ?p d d = (Inr r', d')"
    by (simp add: obs_eval d_def require_selectable_def eq_get_def)
  then obtain r' d' where u: "obs_update 90 [] ''r1'' ?p d d = (Inr r', d')" by blast
  from snapshot_server_managed[OF u] have "\<exists>q\<in>set (equipments d). or_equipment_ref r' = Some ''e1'' \<and>
      or_equipment_name r' = Some (eq_name q)" by auto
  then show ?thesis using u by (auto simp: d_def intro!: exI[of _ d])
qed

text \<open>
  A patch that sets the plate-solve status to null - which the schema admits - is answered
  as a representative conflict, even when no record represents the object.
\<close>

theorem null_status_misreported:
  assumes "or_get i False (records d) = Some r" and "or_revision r = pt_revision patch"
    and "pt_solve_status patch = Some None" and "pt_equipment_ref patch = None" and "pt_equipment_name patch = None"
    and "\<not> patch_of (pt_representative patch) (or_representative r)"
  shows "obs_update now [] i patch d d =
    (Inl (RepresentativeConflict (patch_of (pt_catalog patch) (or_catalog r))), d)"
proof -
  have r: "r \<in> set (records d)" "or_id r = i" "or_deleted_at r = None" using or_get_SomeD[OF assms(1)] by auto
  have "List.find (\<lambda>x. or_id x = i \<and> or_deleted_at x = None \<and> or_revision x = pt_revision patch) (records d) \<noteq> None"
    using r assms(2) by (auto simp: find_None_iff)
  then have "update_if_revision now i patch (records d) = Inl IntegrityError"
    by (auto simp: update_if_revision_def apply_patch_def assms(3))
  moreover have "prepare_updated r patch d = Inr patch" using assms(4,5) by (simp add: prepare_updated_def raise_if_def)
  ultimately show ?thesis
    using assms(1,2,6) by (simp add: obs_update_def obs_get_def Let_def)
qed

theorem null_status_misreported_witness:
  "obs_update 90 [] ''r1'' (demo_patch\<lparr>pt_solve_status := Some None, pt_representative := Some False\<rparr>)
     demo_obs_db demo_obs_db = (Inl (RepresentativeConflict (Some ''M42'')), demo_obs_db)"
proof -
  have "or_get ''r1'' False (records demo_obs_db) = Some (hd (records demo_obs_db))"
    by (simp add: or_get_def demo_obs_db_def q_demo_def)
  from null_status_misreported[OF this, of "demo_patch\<lparr>pt_solve_status := Some None, pt_representative := Some False\<rparr>" 90]
  show ?thesis by (simp add: demo_patch_def patch_of_def demo_obs_db_def q_demo_def)
qed

text \<open>
  A create that loses the race for the representative role leaves the file linked to
  AstroJournal, since the link was committed on its own: the file then counts as used by
  AstroJournal although no record of the call exists.
\<close>

theorem failed_create_keeps_link:
  assumes "obs_create cx p d = (Inl (RepresentativeConflict c), d')"
  shows "\<lparr>fs_file = op_file p, fs_service = astro\<rparr> \<in> set (links d') \<and> records d' = records d @ cx_raced cx"
  using assms
proof (cases rule: obs_create_cases)
  case (lost p' d1 b)
  then show ?thesis using ensure_link_records[OF lost(2)] by (cases b) (auto dest!: ensure_link_result)
qed auto

theorem failed_create_keeps_link_witness:
  "\<exists>d'. obs_create (demo_cx\<lparr>cx_raced := records demo_obs_db\<rparr>) demo_payload
       (demo_obs_db\<lparr>records := [], links := []\<rparr>) = (Inl (RepresentativeConflict (Some ''M42'')), d') \<and>
     \<lparr>fs_file = 7, fs_service = astro\<rparr> \<in> set (links d')"
proof -
  obtain d' where c: "obs_create (demo_cx\<lparr>cx_raced := records demo_obs_db\<rparr>) demo_payload
       (demo_obs_db\<lparr>records := [], links := []\<rparr>) = (Inl (RepresentativeConflict (Some ''M42'')), d')"
    by (simp add: obs_eval fs_insert_ok_def create_rolled_back_def)
  have "op_file demo_payload = 7" by (simp add: demo_payload_def)
  then show ?thesis using failed_create_keeps_link[OF c] c by (intro exI[of _ d']) simp
qed

end
