(* ===== verification/VisionLaws.thy ===== *)
theory VisionLaws
  imports VisionQueue
begin

text \<open>
  What the analysis queue promises: well-formed rows and one live analysis per file for any
  sequence of steps of workers that keep their claims, claims in the order of priority that
  succeed once, and a recovery that spares the jobs of live workers.
\<close>

section \<open>Steps\<close>

definition vj_row_ok :: "vision_job \<Rightarrow> bool" where
  "vj_row_ok j \<longleftrightarrow> 0 \<le> vj_retry_count j \<and>
     (case vj_status j of
        WAITING \<Rightarrow> vj_started_at j = None \<and> vj_completed_at j = None \<and> vj_last_error j = None
      | PROCESSING \<Rightarrow> vj_started_at j \<noteq> None \<and> vj_completed_at j = None \<and> vj_last_error j = None
      | COMPLETED \<Rightarrow> vj_completed_at j \<noteq> None \<and> vj_last_error j = None
      | FAILED \<Rightarrow> vj_completed_at j \<noteq> None \<and> vj_last_error j \<noteq> None
      | SKIPPED \<Rightarrow> True)"

definition vj_active :: "vision_job \<Rightarrow> bool" where
  "vj_active j \<longleftrightarrow> \<not> vj_deleted j \<and> vj_blocks j"

text \<open>
  A worker that still holds its job finishes a PROCESSING row; a cleanup or a reset hides the
  jobs of a file.
\<close>

datatype vision_op =
    Enqueue "media_category option" bool bool int time common_file
  | Reuse "media_category option" bool int time common_file
  | ClaimVision time vision_job
  | FinishVision vision_env int
  | RecoverVision "int list" int string int int time "worker_status list"
  | HideVision int

fun vision_queue_step :: "vision_op \<Rightarrow> vision_job list \<Rightarrow> vision_job list" where
  "vision_queue_step (Enqueue media pv gps i now f) rows =
     (case enqueue_vision_job media pv gps i now f rows of Inl _ \<Rightarrow> rows | Inr (_, rows') \<Rightarrow> rows')"
| "vision_queue_step (Reuse media raw i now f) rows =
     (case reuse_or_enqueue_vision media raw i now f rows of Inl _ \<Rightarrow> rows | Inr (_, rows') \<Rightarrow> rows')"
| "vision_queue_step (ClaimVision now job) rows = snd (vj_mark_processing now job rows)"
| "vision_queue_step (FinishVision env i) rows =
     (case find_row vj_id i rows of
        None \<Rightarrow> rows
      | Some job \<Rightarrow> if vj_status job = PROCESSING then finish_vision_job env job rows else rows)"
| "vision_queue_step (RecoverVision locked secs prefix live limit now workers) rows =
     snd (vj_recover_stale locked secs prefix live limit now workers rows)"
| "vision_queue_step (HideVision i) rows = update_where (\<lambda>j. vj_file j = i) (\<lambda>j. j\<lparr>vj_deleted := True\<rparr>) rows"

definition vj_moves :: "vision_job \<Rightarrow> vision_job \<Rightarrow> bool" where
  "vj_moves r r' \<longleftrightarrow> vj_file r' = vj_file r \<and> vj_priority r' = vj_priority r \<and> vj_provider r' = vj_provider r \<and>
     vj_requested_at r' = vj_requested_at r \<and> (vj_deleted r \<longrightarrow> vj_deleted r') \<and>
     (vj_active r' \<longrightarrow> vj_active r) \<and> vj_retry_count r \<le> vj_retry_count r' \<and>
     (vj_status r = COMPLETED \<longrightarrow> vj_status r' = COMPLETED \<and> vj_completed_at r' = vj_completed_at r)"

definition vj_change :: "vision_job \<Rightarrow> vision_job \<Rightarrow> bool" where
  "vj_change r r' \<longleftrightarrow> vj_id r' = vj_id r \<and> vj_moves r r' \<and> (vj_row_ok r \<longrightarrow> vj_row_ok r')"

lemma vj_change_refl [simp]: "vj_change r r"
  by (simp add: vj_change_def vj_moves_def)

lemmas vj_change_defs = vj_change_def vj_moves_def vj_row_ok_def vj_active_def vj_blocks_def

lemma all2_update_where:
  assumes "\<And>r. R r r" and "\<And>r. r \<in> set rows \<Longrightarrow> P r \<Longrightarrow> R r (f r)"
  shows "list_all2 R rows (update_where P f rows)"
  using assms by (induction rows) auto

lemma vj_create_cases:
  assumes "vj_create True refs i now fid prio prov rows = Inr (j, rows')"
  shows "\<exists>job. j = Some job \<and> rows' = rows @ [job] \<and> vj_id job \<notin> vj_id ` set rows \<and> vj_row_ok job \<and> vj_file job = fid"
  using assms by (auto simp: vj_create_def Let_def vj_new_def vj_row_ok_def split: if_splits)

lemma enqueue_cases:
  assumes "enqueue_vision_job media pv gps i now f rows = Inr (msg, rows')"
  shows "rows' = rows \<or> vj_get_blocking_status (cf_id f) rows = None \<and>
    (\<exists>job. rows' = rows @ [job] \<and> vj_id job \<notin> vj_id ` set rows \<and> vj_row_ok job \<and> vj_file job = cf_id f)"
proof -
  have blocking: "st = WAITING \<or> st = PROCESSING \<or> st = COMPLETED" if "vj_get_blocking_status (cf_id f) rows = Some st" for st
    using that by (auto simp: vj_get_blocking_status_def vj_blocks_def dest!: first_by_SomeD)
  show ?thesis
  proof (cases "vj_get_blocking_status (cf_id f) rows")
    case None
    then show ?thesis using assms
      by (auto simp: enqueue_vision_job_def Let_def calculate_priority_def split: if_splits dest!: vj_create_cases)
  next
    case (Some st)
    then show ?thesis using assms blocking[OF Some]
      by (auto simp: enqueue_vision_job_def Let_def calculate_priority_def split: if_splits)
  qed
qed

lemma reuse_cases:
  assumes "reuse_or_enqueue_vision media raw i now f rows = Inr (msg, rows')"
  shows "rows' = rows \<or> vj_get_blocking_status (cf_id f) rows = None \<and>
    (\<exists>job. rows' = rows @ [job] \<and> vj_id job \<notin> vj_id ` set rows \<and> vj_row_ok job \<and> vj_file job = cf_id f)"
proof -
  have blocking: "st = WAITING \<or> st = PROCESSING \<or> st = COMPLETED" if "vj_get_blocking_status (cf_id f) rows = Some st" for st
    using that by (auto simp: vj_get_blocking_status_def vj_blocks_def dest!: first_by_SomeD)
  show ?thesis
  proof (cases "vj_get_blocking_status (cf_id f) rows")
    case None
    then show ?thesis using assms
      by (auto simp: reuse_or_enqueue_vision_def Let_def split: if_splits dest!: vj_create_cases)
  next
    case (Some st)
    then show ?thesis using assms blocking[OF Some]
      by (auto simp: reuse_or_enqueue_vision_def Let_def split: if_splits)
  qed
qed

lemma change_finish:
  assumes "job \<in> set rows" and "vj_status job = PROCESSING" and "distinct (map vj_id rows)"
  shows "list_all2 vj_change rows (finish_vision_job env job rows)"
proof -
  have same: "vj_status r = PROCESSING \<and> vj_retry_count r = vj_retry_count job"
    if "r \<in> set rows" "vj_id r = vj_id job" for r
  proof -
    have "r = job" using assms(1,3) that by (auto simp: distinct_map inj_on_def)
    then show ?thesis using assms(2) by simp
  qed
  have found: "find_row vj_id (vj_id job) rows = Some job" using assms(1,3) by (rule find_row_mem[rotated])
  show ?thesis
  proof (cases "ve_outcome env")
    case Analysed
    then show ?thesis using assms(2) same
      by (auto simp: finish_vision_job_def vj_mark_completed_def vj_write_def vj_change_defs intro!: all2_update_where)
  next
    case QuotaExceeded
    then show ?thesis using assms(2) same
      by (auto simp: finish_vision_job_def vj_mark_waiting_def vj_write_def vj_change_defs intro!: all2_update_where)
  next
    case (AnalysisFails msg)
    then show ?thesis using assms(2) same found
      by (auto simp: finish_vision_job_def vj_mark_failed_def vj_write_def vj_change_defs intro!: all2_update_where)
  qed
qed

lemma vision_step_cases:
  assumes "distinct (map vj_id rows)"
  shows "list_all2 vj_change rows (vision_queue_step op rows) \<or>
    (\<exists>job. vision_queue_step op rows = rows @ [job] \<and> vj_id job \<notin> vj_id ` set rows \<and> vj_row_ok job \<and>
       vj_get_blocking_status (vj_file job) rows = None)"
proof (cases op)
  case (Enqueue media pv gps i now f)
  then show ?thesis using enqueue_cases[of media pv gps i now f rows]
    by (cases "enqueue_vision_job media pv gps i now f rows") (auto simp: list_all2_refl)
next
  case (Reuse media raw i now f)
  then show ?thesis using reuse_cases[of media raw i now f rows]
    by (cases "reuse_or_enqueue_vision media raw i now f rows") (auto simp: list_all2_refl)
next
  case (ClaimVision now job)
  then show ?thesis
    by (auto simp: vj_mark_processing_def Let_def list_all2_refl vj_claimable_def vj_change_defs intro!: all2_update_where)
next
  case (FinishVision env i)
  then show ?thesis using change_finish[OF _ _ assms, of _ env]
    by (auto simp: list_all2_refl split: option.splits dest: find_row_SomeD)
next
  case (RecoverVision locked secs prefix live limit now workers)
  have stale: "vj_status r = PROCESSING \<and> vj_completed_at r = None"
    if mem: "r \<in> set rows" "x \<in> set (take m (order_by key (filter (\<lambda>j. vj_stale th ids j \<and> vj_id j \<notin> set locked) rows)))"
      "vj_id x = vj_id r" for r x m th ids and key :: "vision_job \<Rightarrow> int \<times> int"
  proof -
    have "x \<in> set rows" "vj_stale th ids x" using mem(2) by (auto dest: in_set_takeD)
    moreover then have "x = r" using assms mem(1,3) by (auto simp: distinct_map inj_on_def)
    ultimately show ?thesis by (simp add: vj_stale_def)
  qed
  have reset: "vj_change r (reset_stale_job r)" if "vj_status r = PROCESSING \<and> vj_completed_at r = None" for r
    using that by (simp add: reset_stale_job_def vj_change_defs)
  show ?thesis
    using RecoverVision stale reset
    by (auto simp: vj_recover_stale_def recover_stale_rows_def Let_def list_all2_refl intro!: all2_update_where)
next
  case (HideVision i)
  then show ?thesis
    by (auto simp: vj_change_defs split: job_status.splits intro!: all2_update_where)
qed

interpretation vjm: row_machine vision_queue_step vj_id vj_row_ok vj_moves
proof
  fix rows :: "vision_job list" and op r r'
  assume d: "distinct (map vj_id rows)" and ok: "\<And>r. r \<in> set rows \<Longrightarrow> vj_row_ok r"
  have ids: "list_all2 vj_change rows rows' \<Longrightarrow> map vj_id rows' = map vj_id rows" for rows'
    by (auto simp: list_all2_conv_all_nth vj_change_def intro!: nth_equalityI)
  show "distinct (map vj_id (vision_queue_step op rows))"
    using vision_step_cases[OF d, of op] ids d by fastforce
  show "r' \<in> set (vision_queue_step op rows) \<Longrightarrow> vj_row_ok r'"
    using vision_step_cases[OF d, of op] ok all2_mem_rightD[of vj_change rows "vision_queue_step op rows" r']
    by (fastforce simp: vj_change_def)
  show "r \<in> set rows \<Longrightarrow> \<exists>r'\<in>set (vision_queue_step op rows). vj_id r' = vj_id r \<and> vj_moves r r'"
    using vision_step_cases[OF d, of op] all2_memD[of vj_change rows "vision_queue_step op rows" r] vj_change_refl[of r]
    unfolding vj_change_def by fastforce
qed

section \<open>One analysis per file\<close>

definition one_active_per_file :: "vision_job list \<Rightarrow> bool" where
  "one_active_per_file rows \<longleftrightarrow> distinct (map vj_file (filter vj_active rows))"

lemma active_files_change:
  "list_all2 vj_change rows rows' \<Longrightarrow> set (map vj_file (filter vj_active rows')) \<subseteq> set (map vj_file (filter vj_active rows))
     \<and> (one_active_per_file rows \<longrightarrow> one_active_per_file rows')"
proof (induction rule: list_all2_induct)
  case (Cons x xs y ys)
  then have "vj_file y = vj_file x" "vj_active y \<longrightarrow> vj_active x" by (simp_all add: vj_change_def vj_moves_def)
  then show ?case using Cons.IH by (auto simp: one_active_per_file_def split: if_splits)
qed (simp add: one_active_per_file_def)

lemma no_blocking_iff:
  "vj_get_blocking_status i rows = None \<longleftrightarrow> i \<notin> set (map vj_file (filter vj_active rows))"
  by (auto simp: vj_get_blocking_status_def first_by_None_iff vj_active_def)

lemma one_active_step:
  assumes "distinct (map vj_id rows)" and "one_active_per_file rows"
  shows "one_active_per_file (vision_queue_step op rows)"
  using vision_step_cases[OF assms(1), of op]
proof
  assume "list_all2 vj_change rows (vision_queue_step op rows)"
  then show ?thesis using active_files_change assms(2) by blast
next
  assume "\<exists>job. vision_queue_step op rows = rows @ [job] \<and> vj_id job \<notin> vj_id ` set rows \<and> vj_row_ok job \<and>
       vj_get_blocking_status (vj_file job) rows = None"
  then show ?thesis using assms(2) by (auto simp: one_active_per_file_def no_blocking_iff)
qed

lemma one_active_run:
  "vjm.table_ok rows \<Longrightarrow> one_active_per_file rows \<Longrightarrow> one_active_per_file (fold vision_queue_step ops rows)"
proof (induction ops arbitrary: rows)
  case (Cons op ops)
  have "one_active_per_file (vision_queue_step op rows)"
    using Cons.prems by (intro one_active_step) (simp_all add: vjm.table_ok_def)
  then show ?case using Cons.IH vjm.step_table_ok[OF Cons.prems(1)] by simp
qed simp

section \<open>Properties\<close>


lemma next_waiting_best:
  assumes "vj_get_next_waiting rows = Some job"
  shows "job \<in> set rows" and "vj_waiting job" and "x \<in> set rows \<Longrightarrow> vj_waiting x \<Longrightarrow> vj_rank x \<le> vj_rank job"
proof -
  let ?sorted = "order_by vj_rank (filter vj_waiting rows)"
  obtain rest where rest: "rev ?sorted = job # rest"
    using assms unfolding vj_get_next_waiting_def vj_get_waiting_jobs_def first_row_def
    by (cases "rev ?sorted") simp_all
  have mem: "set (job # rest) = {x \<in> set rows. vj_waiting x}"
    unfolding rest[symmetric] by simp
  then show "job \<in> set rows" "vj_waiting job" by auto
  have "sorted (map vj_rank (rev (job # rest)))"
    unfolding rest[symmetric] rev_rev_ident by (rule sorted_order_by)
  then have "\<forall>y\<in>set rest. vj_rank y \<le> vj_rank job" by (simp add: sorted_append)
  then show "vj_rank x \<le> vj_rank job" if "x \<in> set rows" "vj_waiting x"
    using mem that by auto
qed

definition vj_started :: "time \<Rightarrow> vision_job \<Rightarrow> vision_job" where
  "vj_started now j = j\<lparr>vj_status := PROCESSING, vj_started_at := Some now, vj_completed_at := None, vj_last_error := None\<rparr>"

lemma vj_started_simps [simp]: "vj_id (vj_started now j) = vj_id j" "vj_status (vj_started now j) = PROCESSING"
  by (simp_all add: vj_started_def)

lemma claim_succeeds:
  assumes "distinct (map vj_id rows)" and "job \<in> set rows" and "vj_waiting job"
  shows "vj_mark_processing now job rows =
    (Some (vj_started now job), update_where (vj_claimable (vj_id job)) (vj_started now) rows)"
proof -
  have hit: "vj_claimable (vj_id job) job" using assms(3) by (simp add: vj_claimable_def vj_waiting_def)
  then have "List.find (vj_claimable (vj_id job)) rows \<noteq> None"
    using assms(2) find_NoneD[of "vj_claimable (vj_id job)" rows job] by auto
  then have one: "count_where (vj_claimable (vj_id job)) rows = 1"
    using count_where_pk[OF assms(1), of "vj_claimable (vj_id job)" "vj_id job"] by (simp add: vj_claimable_def)
  have "find_row vj_id (vj_id job) rows = Some job" using assms(1,2) by (rule find_row_mem)
  then have "find_row vj_id (vj_id job) (update_where (vj_claimable (vj_id job)) (vj_started now) rows) = Some (vj_started now job)"
    using hit by (simp add: find_row_update_where)
  then show ?thesis using one by (simp add: vj_mark_processing_def Let_def vj_started_def[abs_def])
qed

lemma claim_again_fails:
  "vj_mark_processing now2 job (update_where (vj_claimable (vj_id job)) (vj_started now) rows) =
     (None, update_where (vj_claimable (vj_id job)) (vj_started now) rows)"
proof -
  have "count_where (vj_claimable (vj_id job)) (update_where (vj_claimable (vj_id job)) (vj_started now) rows) = 0"
    by (auto simp: count_where_def filter_empty_conv set_update_where vj_claimable_def)
  then show ?thesis by (simp add: vj_mark_processing_def)
qed

text \<open>
  The most urgent job is claimed, once: the job the worker picks has the highest priority
  of those that wait, the newest request among equals; claiming it succeeds and makes it the
  running row; and every other worker that picked the same job then fails to claim it and
  changes nothing.
\<close>

theorem vision_claim_once:
  assumes "distinct (map vj_id rows)" and "vj_get_next_waiting rows = Some job"
  shows "(\<forall>x\<in>set rows. vj_waiting x \<longrightarrow> vj_rank x \<le> vj_rank job) \<and>
    (\<exists>j rows'. vj_mark_processing now job rows = (Some j, rows') \<and> vj_id j = vj_id job \<and>
       vj_status j = PROCESSING \<and> find_row vj_id (vj_id job) rows' = Some j \<and>
       vj_mark_processing now2 job rows' = (None, rows'))"
proof
  note best = next_waiting_best[OF assms(2)]
  show "\<forall>x\<in>set rows. vj_waiting x \<longrightarrow> vj_rank x \<le> vj_rank job" using best(3) by blast
  have claim: "vj_mark_processing now job rows =
      (Some (vj_started now job), update_where (vj_claimable (vj_id job)) (vj_started now) rows)"
    by (rule claim_succeeds[OF assms(1) best(1,2)])
  moreover have "find_row vj_id (vj_id job) (update_where (vj_claimable (vj_id job)) (vj_started now) rows)
      = Some (vj_started now job)"
    using claim by (simp add: vj_mark_processing_def Let_def vj_started_def[abs_def] split: if_splits)
  ultimately show "\<exists>j rows'. vj_mark_processing now job rows = (Some j, rows') \<and> vj_id j = vj_id job \<and>
       vj_status j = PROCESSING \<and> find_row vj_id (vj_id job) rows' = Some j \<and>
       vj_mark_processing now2 job rows' = (None, rows')"
    using claim_again_fails vj_started_simps by blast
qed

lemma live_id_listed:
  assumes "w \<in> set workers" and "live_worker prefix live_after w" and "ws_current_job w = Some (str_int i)" and "\<bar>i\<bar> < 2 ^ 31"
  shows "i \<in> set (live_processing_job_ids prefix live_after workers)"
proof -
  have "i \<in> set (case py_int (or_else (ws_current_job w) []) of None \<Rightarrow> [] | Some i \<Rightarrow> [i])"
    using assms(3) py_int_str_pk[OF assms(4)] by simp
  then show ?thesis using assms(1,2) by (auto simp: live_processing_job_ids_def)
qed

text \<open>
  Recovery spares the living: a job that a worker with a recent heartbeat names as its
  current one is left as it is however old its claim, and so is a job claimed recently; a
  job whose claim is old and that no live worker names is waiting again afterwards, at its old
  rank and without a retry counted, if the limit leaves room for it.
\<close>

theorem vision_recovery_spares_live:
  assumes "distinct (map vj_id rows)" and "0 < secs" and "0 < live" and "int (length rows) \<le> limit"
    and "r \<in> set rows" and "vj_status r = PROCESSING" and "vj_row_ok r" and "\<not> vj_deleted r"
  shows "((\<exists>w\<in>set workers. live_worker prefix (now - seconds live) w \<and>
              ws_current_job w = Some (str_int (vj_id r)) \<and> \<bar>vj_id r\<bar> < 2 ^ 31) \<longrightarrow>
        r \<in> set (snd (vj_recover_stale locked secs prefix live limit now workers rows))) \<and>
    (now - seconds secs \<le> the (vj_started_at r) \<longrightarrow>
        r \<in> set (snd (vj_recover_stale locked secs prefix live limit now workers rows))) \<and>
    (the (vj_started_at r) < now - seconds secs \<and> vj_id r \<notin> set locked \<and>
       vj_id r \<notin> set (live_processing_job_ids prefix (now - seconds live) workers) \<longrightarrow>
        reset_stale_job r \<in> set (snd (vj_recover_stale locked secs prefix live limit now workers rows)) \<and>
        vj_waiting (reset_stale_job r) \<and> vj_rank (reset_stale_job r) = vj_rank r \<and>
        vj_retry_count (reset_stale_job r) = vj_retry_count r)"
proof -
  let ?ids = "live_processing_job_ids prefix (now - seconds live) workers"
  let ?hits = "filter (\<lambda>j. vj_stale (now - seconds secs) ?ids j \<and> vj_id j \<notin> set locked) rows"
  have pos: "\<not> (secs \<le> 0 \<or> live \<le> 0 \<or> limit \<le> 0)"
  proof -
    have "0 < int (length rows)" using assms(5) by (auto simp: length_pos_if_in_set)
    then show ?thesis using assms(2-4) by linarith
  qed
  have "length ?hits \<le> nat limit" using assms(4) length_filter_le[of _ rows] by (metis le_trans nat_int nat_mono)
  then have rows': "snd (vj_recover_stale locked secs prefix live limit now workers rows) =
      update_where (\<lambda>j. vj_id j \<in> vj_id ` set ?hits) reset_stale_job rows"
    using pos by (simp add: vj_recover_stale_def recover_stale_rows_def Let_def)
  have hit: "vj_id r \<in> vj_id ` set ?hits \<longleftrightarrow> vj_stale (now - seconds secs) ?ids r \<and> vj_id r \<notin> set locked"
    using assms(1,5) by (auto simp: distinct_map inj_on_def)
  obtain t where t: "vj_started_at r = Some t" using assms(6,7) by (auto simp: vj_row_ok_def)
  have stale: "vj_stale (now - seconds secs) ?ids r \<longleftrightarrow> t < now - seconds secs \<and> vj_id r \<notin> set ?ids"
    using assms(6-8) t by (auto simp: vj_stale_def vj_row_ok_def)
  have kept: "r \<in> set (update_where (\<lambda>j. vj_id j \<in> vj_id ` set ?hits) reset_stale_job rows)"
    if "vj_id r \<notin> vj_id ` set ?hits"
    unfolding set_update_where using assms(5) that by (intro image_eqI[of _ _ r]) simp_all
  show ?thesis unfolding rows'
  proof (intro conjI impI)
    assume "\<exists>w\<in>set workers. live_worker prefix (now - seconds live) w \<and>
              ws_current_job w = Some (str_int (vj_id r)) \<and> \<bar>vj_id r\<bar> < 2 ^ 31"
    then have "vj_id r \<in> set ?ids" using live_id_listed by blast
    then show "r \<in> set (update_where (\<lambda>j. vj_id j \<in> vj_id ` set ?hits) reset_stale_job rows)"
      using kept hit stale by blast
  next
    assume "now - seconds secs \<le> the (vj_started_at r)"
    then show "r \<in> set (update_where (\<lambda>j. vj_id j \<in> vj_id ` set ?hits) reset_stale_job rows)"
      using kept hit stale t by fastforce
  next
    assume "the (vj_started_at r) < now - seconds secs \<and> vj_id r \<notin> set locked \<and> vj_id r \<notin> set ?ids"
    then have "vj_id r \<in> vj_id ` set ?hits" using hit stale t by simp
    then show "reset_stale_job r \<in> set (update_where (\<lambda>j. vj_id j \<in> vj_id ` set ?hits) reset_stale_job rows)"
      unfolding set_update_where using assms(5) by (intro image_eqI[of _ _ r]) simp_all
  qed (use assms(8) in \<open>simp_all add: reset_stale_job_def vj_waiting_def vj_rank_def\<close>)
qed

definition demo_vision :: "vision_job list" where
  "demo_vision = [vj_new 1 10 7 20 ''GOOGLE'', vj_new 2 5 8 80 ''GOOGLE'', vj_new 3 20 9 80 ''GOOGLE'']"

lemmas vj_eval = demo_vision_def vj_new_def vj_get_next_waiting_def vj_get_waiting_jobs_def vj_waiting_def vj_rank_def
  order_by_def first_row_def

theorem vision_claim_once_witness:
  "\<exists>j rows'. vj_mark_processing 30 (vj_new 3 20 9 80 ''GOOGLE'') demo_vision = (Some j, rows') \<and> vj_id j = 3 \<and>
     vj_mark_processing 31 (vj_new 3 20 9 80 ''GOOGLE'') rows' = (None, rows')"
proof -
  have next_job: "vj_get_next_waiting demo_vision = Some (vj_new 3 20 9 80 ''GOOGLE'')"
    by (simp add: vj_eval)
  have "distinct (map vj_id demo_vision)" by (simp add: demo_vision_def vj_new_def)
  from vision_claim_once[OF this next_job, of 30 31] show ?thesis by (auto simp: vj_new_def)
qed

definition demo_running :: vision_job where
  "demo_running = (vj_new 1 10 7 20 ''GOOGLE'')\<lparr>vj_status := PROCESSING, vj_started_at := Some 11\<rparr>"

definition demo_live :: worker_status where
  "demo_live = (ws_new ''VisionWorker'')\<lparr>ws_status := ''RUNNING'', ws_last_heartbeat := Some (seconds 30000),
     ws_current_job := Some (str_int 1)\<rparr>"

theorem vision_recovery_spares_live_witness:
  "demo_running \<in> set (snd (vj_recover_stale [] 21600 ''VisionWorker'' 90 50 (seconds 30010) [demo_live] [demo_running])) \<and>
   reset_stale_job demo_running \<in> set (snd (vj_recover_stale [] 21600 ''VisionWorker'' 90 50 (seconds 30010) [] [demo_running]))"
proof -
  have p: "distinct (map vj_id [demo_running])" "(0::int) < 21600" "(0::int) < 90" "int (length [demo_running]) \<le> 50"
    "demo_running \<in> set [demo_running]" "vj_status demo_running = PROCESSING" "vj_row_ok demo_running" "\<not> vj_deleted demo_running"
    by (simp_all add: demo_running_def vj_new_def vj_row_ok_def)
  have "live_worker ''VisionWorker'' (seconds 30010 - seconds 90) demo_live"
    by (simp add: live_worker_def demo_live_def ws_new_def vision_worker_like_def seconds_def)
  moreover have "ws_current_job demo_live = Some (str_int (vj_id demo_running)) \<and> \<bar>vj_id demo_running\<bar> < 2 ^ 31"
    by (simp add: demo_live_def demo_running_def vj_new_def)
  ultimately have live: "\<exists>w\<in>set [demo_live]. live_worker ''VisionWorker'' (seconds 30010 - seconds 90) w \<and>
      ws_current_job w = Some (str_int (vj_id demo_running)) \<and> \<bar>vj_id demo_running\<bar> < 2 ^ 31" by simp
  have old: "the (vj_started_at demo_running) < seconds 30010 - seconds 21600 \<and> vj_id demo_running \<notin> set [] \<and>
      vj_id demo_running \<notin> set (live_processing_job_ids ''VisionWorker'' (seconds 30010 - seconds 90) [])"
    by (simp add: demo_running_def vj_new_def seconds_def live_processing_job_ids_def)
  show ?thesis
    using vision_recovery_spares_live[OF p, where now = "seconds 30010" and prefix = "''VisionWorker''" and workers = "[demo_live]" and locked = "[]"] live
      vision_recovery_spares_live[OF p, where now = "seconds 30010" and prefix = "''VisionWorker''" and workers = "[]" and locked = "[]"] old
    by blast
qed

end
