(* ===== verification/HttpRange.thy ===== *)
theory HttpRange
  imports NumText
begin

text \<open>
  Byte ranges for the streaming of originals: \<open>src/app/common/services/http_range.py\<close> and the
  response built from it in \<open>src/app/common/routers/gallery.py\<close>. A file is the list of its
  bytes; \<open>stat\<close> and the later read are two looks at the file, so that the size and the
  bytes are separate arguments. The lemmas show that a satisfied range is the slice of the file
  the headers announce, and that a client that asks for consecutive ranges gets the file.
\<close>

section \<open>The Range header\<close>

record byte_range =
  br_first :: int
  br_last :: int

definition range_length :: "byte_range \<Rightarrow> int" where
  "range_length r = br_last r - br_first r + 1"

datatype range_error = NegativeSize | NotSatisfiable string

definition range_prefix :: string where
  "range_prefix = ''bytes=''"

text \<open>\<open>re.fullmatch\<close> of \<open>^bytes=([0-9]*)-([0-9]*)$\<close> with \<open>IGNORECASE\<close>.\<close>

definition match_byte_range :: "string \<Rightarrow> (string \<times> string) option" where
  "match_byte_range s =
     (if lower (take 6 s) = range_prefix then
        let rest = drop 6 s; a = takeWhile is_digit_char rest in
        case dropWhile is_digit_char rest of
          [] \<Rightarrow> None
        | c # b \<Rightarrow> if c = CHR ''-'' \<and> list_all is_digit_char b then Some (a, b) else None
      else None)"

definition parse_decimal :: "string \<Rightarrow> range_error + int" where
  "parse_decimal s = (case py_int s of None \<Rightarrow> Inl (NotSatisfiable ''invalid byte position'') | Some n \<Rightarrow> Inr n)"

definition parse_single_byte_range :: "string \<Rightarrow> int \<Rightarrow> range_error + byte_range" where
  "parse_single_byte_range header file_size =
     (if file_size < 0 then Inl NegativeSize
      else
        let normalized = strip header in
        if CHR '','' \<in> set normalized then Inl (NotSatisfiable ''multiple ranges are not supported'')
        else case match_byte_range normalized of
          None \<Rightarrow> Inl (NotSatisfiable ''malformed byte range'')
        | Some (start_text, end_text) \<Rightarrow>
            if start_text = [] \<and> end_text = [] then Inl (NotSatisfiable ''empty byte range'')
            else if file_size = 0 then Inl (NotSatisfiable ''empty file has no satisfiable range'')
            else if start_text = [] then
              and_then (parse_decimal end_text) (\<lambda>suffix_length.
                if suffix_length \<le> 0 then Inl (NotSatisfiable ''suffix length must be positive'')
                else Inr \<lparr>br_first = max (file_size - suffix_length) 0, br_last = file_size - 1\<rparr>)
            else
              and_then (parse_decimal start_text) (\<lambda>start.
                if file_size \<le> start then Inl (NotSatisfiable ''range starts after end of file'')
                else if end_text = [] then Inr \<lparr>br_first = start, br_last = file_size - 1\<rparr>
                else and_then (parse_decimal end_text) (\<lambda>end_pos.
                  if end_pos < start then Inl (NotSatisfiable ''range end precedes start'')
                  else Inr \<lparr>br_first = start, br_last = min end_pos (file_size - 1)\<rparr>)))"

section \<open>Streaming\<close>

definition default_stream_chunk_size :: nat where
  "default_stream_chunk_size = 64 * 1024"

text \<open>The loop of the generator; it ends because every chunk it yields has bytes.\<close>

function stream_chunks :: "nat \<Rightarrow> nat \<Rightarrow> 'b list \<Rightarrow> 'b list list" where
  "stream_chunks chunk_size remaining source =
     (if remaining = 0 then []
      else let chunk = take (min chunk_size remaining) source in
        if chunk = [] then []
        else chunk # stream_chunks chunk_size (remaining - length chunk) (drop (length chunk) source))"
  by pat_completeness auto
termination
  by (relation "measure (\<lambda>(_, remaining, _). remaining)") auto

declare stream_chunks.simps [simp del]

datatype stream_error = BadPosition | BadChunkSize

definition iter_file_range :: "'b list \<Rightarrow> int \<Rightarrow> int \<Rightarrow> nat \<Rightarrow> stream_error + 'b list list" where
  "iter_file_range content start len chunk_size =
     (if start < 0 \<or> len < 0 then Inl BadPosition
      else if chunk_size < 1 then Inl BadChunkSize
      else Inr (stream_chunks chunk_size (nat len) (drop (nat start) content)))"

record 'b media_response =
  mr_status :: nat
  mr_content_range :: "string option"
  mr_content_length :: "string option"
  mr_body :: "'b list list"

text \<open>
  \<open>FileResponse\<close> sends the file as it is; \<open>Accept-Ranges\<close> and the cache headers are
  constants of every response.
\<close>

definition build_original_response ::
  "int \<Rightarrow> 'b list \<Rightarrow> string option \<Rightarrow> bool \<Rightarrow> range_error + 'b media_response" where
  "build_original_response file_size content range_header head_only =
     (if head_only then Inr \<lparr>mr_status = 200, mr_content_range = None,
                             mr_content_length = Some (str_int file_size), mr_body = []\<rparr>
      else case range_header of
        None \<Rightarrow> Inr \<lparr>mr_status = 200, mr_content_range = None,
                     mr_content_length = Some (str_int file_size), mr_body = [content]\<rparr>
      | Some header \<Rightarrow>
         (case parse_single_byte_range header file_size of
            Inl NegativeSize \<Rightarrow> Inl NegativeSize
          | Inl (NotSatisfiable _) \<Rightarrow>
              Inr \<lparr>mr_status = 416, mr_content_range = Some (''bytes */'' @ str_int file_size),
                   mr_content_length = None, mr_body = []\<rparr>
          | Inr r \<Rightarrow>
              Inr \<lparr>mr_status = 206,
                   mr_content_range = Some (''bytes '' @ str_int (br_first r) @ ''-'' @ str_int (br_last r)
                                            @ ''/'' @ str_int file_size),
                   mr_content_length = Some (str_int (range_length r)),
                   mr_body = (case iter_file_range content (br_first r) (range_length r) default_stream_chunk_size of
                                Inl _ \<Rightarrow> [] | Inr chunks \<Rightarrow> chunks)\<rparr>))"

section \<open>Laws\<close>

lemma stream_chunks_stop:
  "remaining = 0 \<or> source = [] \<or> chunk_size = 0 \<Longrightarrow> stream_chunks chunk_size remaining source = []"
  by (subst stream_chunks.simps) (auto simp: Let_def)

lemma stream_chunks_more:
  assumes "0 < remaining" and "source \<noteq> []" and "0 < chunk_size"
  shows "stream_chunks chunk_size remaining source =
    (let n = min (length source) (min chunk_size remaining)
     in take n source # stream_chunks chunk_size (remaining - n) (drop n source))"
proof -
  have "length (take (min chunk_size remaining) source) = min (length source) (min chunk_size remaining)" by simp
  moreover have "take (min chunk_size remaining) source = take (min (length source) (min chunk_size remaining)) source"
    by (simp add: min_def)
  ultimately show ?thesis using assms by (subst stream_chunks.simps) (simp add: Let_def)
qed

lemma concat_stream_chunks:
  "0 < chunk_size \<Longrightarrow> concat (stream_chunks chunk_size remaining source) = take remaining source"
proof (induction remaining arbitrary: source rule: less_induct)
  case (less remaining)
  show ?case
  proof (cases "remaining = 0 \<or> source = []")
    case True
    then show ?thesis by (auto simp: stream_chunks_stop)
  next
    case False
    let ?n = "min (length source) (min chunk_size remaining)"
    have "remaining - ?n < remaining" using False less.prems by auto
    then have "concat (stream_chunks chunk_size remaining source) = take ?n source @ take (remaining - ?n) (drop ?n source)"
      using less False by (simp add: stream_chunks_more Let_def)
    also have "\<dots> = take (?n + (remaining - ?n)) source" by (rule take_add[symmetric])
    also have "?n + (remaining - ?n) = remaining" by simp
    finally show ?thesis .
  qed
qed

lemma stream_chunk_bounds:
  "0 < chunk_size \<Longrightarrow> c \<in> set (stream_chunks chunk_size remaining source) \<Longrightarrow> 0 < length c \<and> length c \<le> chunk_size"
proof (induction remaining arbitrary: source rule: less_induct)
  case (less remaining)
  show ?case
  proof (cases "remaining = 0 \<or> source = []")
    case True
    then show ?thesis using less.prems by (auto simp: stream_chunks_stop)
  next
    case False
    let ?n = "min (length source) (min chunk_size remaining)"
    have "c = take ?n source \<or> c \<in> set (stream_chunks chunk_size (remaining - ?n) (drop ?n source))"
      using less.prems False by (auto simp: stream_chunks_more Let_def)
    moreover have "remaining - ?n < remaining" "0 < ?n" using False less.prems by auto
    ultimately show ?thesis using less.IH less.prems by auto
  qed
qed

lemma parse_decimal_Inr: "parse_decimal s = Inr n \<Longrightarrow> py_int s = Some n"
  by (simp add: parse_decimal_def split: option.splits)

lemma parse_decimal_digits:
  "list_all is_digit_char s \<Longrightarrow> parse_decimal s = Inr n \<Longrightarrow> s \<noteq> [] \<Longrightarrow> 0 \<le> n"
  using parse_decimal_Inr[of s n] strip_digits[of s] digit_not
  by (cases s) (auto simp: py_int_def split: if_splits)

lemma match_byte_range_digits:
  "match_byte_range s = Some (a, b) \<Longrightarrow> list_all is_digit_char a \<and> list_all is_digit_char b"
  by (auto simp: match_byte_range_def Let_def list_all_iff dest: set_takeWhileD split: if_splits list.splits)

lemma parsed_range_inside:
  assumes "parse_single_byte_range header fsize = Inr r"
  shows "0 \<le> br_first r \<and> br_first r \<le> br_last r \<and> br_last r < fsize"
proof -
  obtain a b where ab: "match_byte_range (strip header) = Some (a, b)" and "0 < fsize" "a \<noteq> [] \<or> b \<noteq> []"
    using assms by (auto simp: parse_single_byte_range_def Let_def split: if_splits option.splits)
  note dig = match_byte_range_digits[OF ab]
  consider (suffix) n where "a = []" "parse_decimal b = Inr n" "0 < n" "r = \<lparr>br_first = max (fsize - n) 0, br_last = fsize - 1\<rparr>"
    | (tail) n where "a \<noteq> []" "parse_decimal a = Inr n" "n < fsize" "r = \<lparr>br_first = n, br_last = fsize - 1\<rparr>"
    | (both) n m where "a \<noteq> []" "parse_decimal a = Inr n" "n < fsize" "n \<le> m"
        "r = \<lparr>br_first = n, br_last = min m (fsize - 1)\<rparr>"
  proof (cases "a = []")
    case True
    then show ?thesis using assms ab suffix
      by (auto simp: parse_single_byte_range_def Let_def split: if_splits)
  next
    case False
    show ?thesis
    proof (cases "b = []")
      case True
      then show ?thesis using assms ab tail \<open>a \<noteq> []\<close>
        by (auto simp: parse_single_byte_range_def Let_def split: if_splits)
    next
      case False
      then have "\<exists>n m. parse_decimal a = Inr n \<and> n < fsize \<and> n \<le> m \<and> r = \<lparr>br_first = n, br_last = min m (fsize - 1)\<rparr>"
        using assms ab \<open>a \<noteq> []\<close> by (auto simp: parse_single_byte_range_def Let_def split: if_splits) (metis not_less)
      then show ?thesis using both \<open>a \<noteq> []\<close> by blast
    qed
  qed
  then show ?thesis
  proof cases
    case suffix
    then show ?thesis using \<open>0 < fsize\<close> by simp
  next
    case tail
    then show ?thesis using parse_decimal_digits[of a n] dig by simp
  next
    case both
    then show ?thesis using parse_decimal_digits[of a n] dig by simp
  qed
qed

definition range_header :: "nat \<Rightarrow> nat \<Rightarrow> string" where
  "range_header first last_byte = range_prefix @ show_nat first @ CHR ''-'' # show_nat last_byte"

lemma parse_decimal_show: "length (show_nat n) \<le> max_str_digits \<Longrightarrow> parse_decimal (show_nat n) = Inr (int n)"
  by (simp add: parse_decimal_def py_int_digits[OF show_nat_digits])

lemma takeWhile_digits:
  "list_all is_digit_char s \<Longrightarrow> \<not> is_digit_char c \<Longrightarrow>
     takeWhile is_digit_char (s @ c # t) = s \<and> dropWhile is_digit_char (s @ c # t) = c # t"
  by (induction s) auto

lemma match_range_header: "match_byte_range (range_header a b) = Some (show_nat a, show_nat b)"
proof -
  have "lower (take 6 (range_header a b)) = range_prefix"
    by (simp add: range_header_def range_prefix_def lower_char_def is_upper_ascii_def)
  moreover have "drop 6 (range_header a b) = show_nat a @ CHR ''-'' # show_nat b"
    by (simp add: range_header_def range_prefix_def)
  moreover have "\<not> is_digit_char (CHR ''-'')" by (simp add: is_digit_char_def)
  ultimately show ?thesis
    using takeWhile_digits[OF show_nat_digits[of a], of "CHR ''-''" "show_nat b"]
    by (simp add: match_byte_range_def Let_def show_nat_digits)
qed

lemma range_header_plain: "strip (range_header a b) = range_header a b \<and> CHR '','' \<notin> set (range_header a b)"
proof
  have "last (range_header a b) = last (show_nat b)" by (simp add: range_header_def)
  moreover have "last (show_nat b) \<in> set (show_nat b)" by simp
  ultimately have "is_digit_char (last (range_header a b))"
    using show_nat_digits[of b] by (simp add: list_all_iff)
  moreover have "hd (range_header a b) = CHR ''b''" by (simp add: range_header_def range_prefix_def)
  ultimately show "strip (range_header a b) = range_header a b"
    unfolding strip_def using digit_not by (intro strip_while_id) (auto simp: is_space_def)
  have "CHR '','' \<notin> set (show_nat n)" for n
    using show_nat_digits[of n] by (auto simp: list_all_iff is_digit_char_def)
  then show "CHR '','' \<notin> set (range_header a b)" by (simp add: range_header_def range_prefix_def)
qed

lemma parse_range_header:
  assumes "a \<le> b" and "a < fsize" and "length (show_nat a) \<le> max_str_digits" and "length (show_nat b) \<le> max_str_digits"
  shows "parse_single_byte_range (range_header a b) (int fsize) =
    Inr \<lparr>br_first = int a, br_last = min (int b) (int fsize - 1)\<rparr>"
  using assms by (simp add: parse_single_byte_range_def Let_def range_header_plain match_range_header parse_decimal_show)

section \<open>Properties\<close>


lemma short_number: "n < 10 ^ max_str_digits \<Longrightarrow> length (show_nat n) \<le> max_str_digits"
proof -
  assume n: "n < 10 ^ max_str_digits"
  have "0 < max_str_digits" by (simp add: max_str_digits_def)
  then obtain k where "max_str_digits = Suc k" using gr0_implies_Suc by blast
  then show ?thesis using length_show_nat[of n k] n by (simp del: power_Suc)
qed

definition fetch_range :: "'b list \<Rightarrow> nat \<Rightarrow> nat \<Rightarrow> 'b list" where
  "fetch_range content n k =
     (case build_original_response (int (length content)) content
             (Some (range_header (k * n) (k * n + n - 1))) False of
        Inl _ \<Rightarrow> [] | Inr m \<Rightarrow> concat (mr_body m))"

lemma fetch_range_slice:
  assumes "0 < n" and "k * n < length content" and "length content + n < 10 ^ max_str_digits"
  shows "fetch_range content n k = take n (drop (k * n) content)"
proof -
  have "length (show_nat (k * n)) \<le> max_str_digits" "length (show_nat (k * n + n - 1)) \<le> max_str_digits"
    using assms by (auto intro!: short_number)
  then have p: "parse_single_byte_range (range_header (k * n) (k * n + n - 1)) (int (length content)) =
      Inr \<lparr>br_first = int (k * n), br_last = min (int (k * n + n - 1)) (int (length content) - 1)\<rparr>"
    using assms by (intro parse_range_header) auto
  let ?len = "range_length \<lparr>br_first = int (k * n), br_last = min (int (k * n + n - 1)) (int (length content) - 1)\<rparr>"
  have "?len = int (min n (length content - k * n))"
  proof (cases "k * n + n - 1 < length content")
    case True
    then have "min (int (k * n + n - 1)) (int (length content) - 1) = int (k * n + n - 1)" by linarith
    then show ?thesis using True assms(1) by (simp add: range_length_def of_nat_diff)
  next
    case False
    then have "min (int (k * n + n - 1)) (int (length content) - 1) = int (length content) - 1" by linarith
    then show ?thesis using False assms(1,2) by (simp add: range_length_def of_nat_diff min_def) linarith
  qed
  then have "0 \<le> ?len" and len: "nat ?len = min n (length content - k * n)" by simp_all
  then have "fetch_range content n k = concat (stream_chunks default_stream_chunk_size (nat ?len) (drop (k * n) content))"
    using p by (simp add: fetch_range_def build_original_response_def iter_file_range_def default_stream_chunk_size_def
        nat_mult_distrib mult_less_0_iff)
  also have "\<dots> = take (nat ?len) (drop (k * n) content)"
    by (rule concat_stream_chunks) (simp add: default_stream_chunk_size_def)
  also have "\<dots> = take n (drop (k * n) content)" unfolding len by (simp add: min_def)
  finally show ?thesis .
qed

lemma concat_slices: "concat (map (\<lambda>k. take n (drop (k * n) xs)) [0..<m]) = take (m * n) xs"
proof (induction m)
  case (Suc m)
  then show ?case using take_add[of "m * n" n xs] by (simp add: add.commute)
qed simp

text \<open>
  Range requests read the whole file: a client that asks for consecutive ranges of any
  positive length, the last one reaching past the end, and joins the bodies gets the bytes of
  the file in order.
\<close>

theorem ranges_reassemble:
  assumes "0 < n" and "length content + n < 10 ^ max_str_digits"
  shows "concat (map (fetch_range content n) [0..<(length content + n - 1) div n]) = content"
proof -
  let ?m = "(length content + n - 1) div n"
  have "k * n < length content" if "k < ?m" for k
  proof -
    have "Suc k * n \<le> length content + n - 1"
      using that assms(1) by (metis Suc_leI div_times_less_eq_dividend le_trans mult_le_mono1)
    then show ?thesis using assms(1) by simp
  qed
  then have "map (fetch_range content n) [0..<?m] = map (\<lambda>k. take n (drop (k * n) content)) [0..<?m]"
    using fetch_range_slice[OF assms(1) _ assms(2)] by (intro map_cong) auto
  then have "concat (map (fetch_range content n) [0..<?m]) = take (?m * n) content"
    by (simp only: concat_slices)
  moreover have "length content \<le> ?m * n"
  proof -
    have "length content + n - 1 < (?m + 1) * n"
      using assms(1) by (metis Suc_eq_plus1 dividend_less_div_times mult.commute mult_Suc add.commute)
    then show ?thesis by simp
  qed
  ultimately show ?thesis by simp
qed


theorem ranges_reassemble_witness:
  "concat (map (fetch_range ''abcdefg'' 3) [0..<(length ''abcdefg'' + 3 - 1) div 3]) = ''abcdefg''"
proof (rule ranges_reassemble)
  have "length ''abcdefg'' + 3 < 10 ^ 2" by simp
  also have "(10::nat) ^ 2 \<le> 10 ^ max_str_digits" by (rule power_increasing) (simp_all add: max_str_digits_def)
  finally show "length ''abcdefg'' + 3 < 10 ^ max_str_digits" .
qed simp

end
