(* ===== verification/Equipment.thy ===== *)
theory Equipment
  imports EquipmentStore
begin

text \<open>
  Equipment: the request schemas (\<open>src/app/astrojournal/schemas/equipment.py\<close>) and
  \<open>EquipmentService\<close> (\<open>src/app/astrojournal/services/equipment_service.py\<close>). A request is
  validated first; the operations act on the validated payload. The first read of a create
  sees the state \<open>d0\<close>, its writes the state \<open>d\<close>: what other sessions commit in between is in
  \<open>d\<close> only. An update locks its row before reading it. Every operation returns its answer
  with the state it leaves, because an answer can fail after the commit.
\<close>

section \<open>Payloads\<close>

record eyepiece_in =
  yi_id :: string
  yi_equipment :: "string option"
  yi_name :: string
  yi_focal_length :: real
  yi_afov :: real
  yi_sort_order :: int

text \<open>
  \<open>'c\<close> is the JSON document of the capture capability before validation and the model
  after it.
\<close>

record 'c equipment_payload =
  qp_id :: string
  qp_name :: string
  qp_kind :: string
  qp_purpose :: string
  qp_is_active :: bool
  qp_focal_length :: "real option"
  qp_aperture :: "real option"
  qp_fov_width :: "real option"
  qp_fov_height :: "real option"
  qp_sort_order :: int
  qp_eyepieces :: "eyepiece_in list"
  qp_az :: "exposure option"
  qp_eq :: "exposure option"
  qp_capture :: "'c option"

text \<open>A patch: the fields the request has; a nullable field is set to an option.\<close>

record 'c equipment_patch =
  qu_revision :: int
  qu_name :: "string option"
  qu_kind :: "string option"
  qu_purpose :: "string option"
  qu_is_active :: "bool option"
  qu_focal_length :: "real option option"
  qu_aperture :: "real option option"
  qu_fov_width :: "real option option"
  qu_fov_height :: "real option option"
  qu_sort_order :: "int option"
  qu_eyepieces :: "eyepiece_in list option"
  qu_az :: "exposure option option"
  qu_eq :: "exposure option option"
  qu_capture :: "'c option option"

section \<open>Validation\<close>

fun validate_exposure :: "exposure \<Rightarrow> exposure option" where
  "validate_exposure (Discrete xs) =
     (if xs \<noteq> [] \<and> list_all (\<lambda>x. 0 < x) xs \<and> distinct xs then Some (Discrete (sort xs)) else None)"
| "validate_exposure (Steps a b s) =
     (if 0 < a \<and> 0 < b \<and> 0 < s \<and> a \<le> b then Some (Steps a b s) else None)"

text \<open>An optional part: absent and null stay as they are.\<close>

definition optional :: "('a \<Rightarrow> 'b option) \<Rightarrow> 'a option \<Rightarrow> 'b option option" where
  "optional f x = (case x of None \<Rightarrow> Some None | Some v \<Rightarrow> map_option Some (f v))"

definition validate_eyepiece :: "eyepiece_in \<Rightarrow> eyepiece_in option" where
  "validate_eyepiece y =
     (case valid_name 200 (yi_name y) of
        None \<Rightarrow> None
      | Some n \<Rightarrow> if 0 < yi_focal_length y \<and> 0 < yi_afov y then Some (y\<lparr>yi_name := n\<rparr>) else None)"

definition children_ok :: "string \<Rightarrow> eyepiece_in list \<Rightarrow> bool" where
  "children_ok equipment_id ys \<longleftrightarrow>
     list_all (\<lambda>y. yi_equipment y = None \<or> yi_equipment y = Some equipment_id) ys \<and>
     distinct (map yi_id ys)"

definition validate_equipment ::
  "(real \<Rightarrow> string) \<Rightarrow> json equipment_payload \<Rightarrow> capture_capability equipment_payload option" where
  "validate_equipment float_text p =
     (case (valid_name 200 (qp_name p), those (map validate_eyepiece (qp_eyepieces p)),
            optional validate_exposure (qp_az p), optional validate_exposure (qp_eq p),
            optional (parse_capture float_text) (qp_capture p)) of
        (Some n, Some ys, Some az, Some eq, Some c) \<Rightarrow>
          if qp_kind p \<in> set equipment_kinds \<and> qp_purpose p \<in> set equipment_purposes \<and>
             null_or_positive (qp_focal_length p) \<and> null_or_positive (qp_aperture p) \<and>
             null_or_positive (qp_fov_width p) \<and> null_or_positive (qp_fov_height p) \<and>
             children_ok (qp_id p) ys
          then Some \<lparr>qp_id = qp_id p, qp_name = n, qp_kind = qp_kind p, qp_purpose = qp_purpose p,
            qp_is_active = qp_is_active p, qp_focal_length = qp_focal_length p, qp_aperture = qp_aperture p,
            qp_fov_width = qp_fov_width p, qp_fov_height = qp_fov_height p, qp_sort_order = qp_sort_order p,
            qp_eyepieces = ys, qp_az = az, qp_eq = eq, qp_capture = c\<rparr>
          else None
      | _ \<Rightarrow> None)"

definition set_positive :: "real option option \<Rightarrow> bool" where
  "set_positive x = null_or_positive (or_else x None)"

definition equipment_patch_empty :: "'c equipment_patch \<Rightarrow> bool" where
  "equipment_patch_empty p \<longleftrightarrow> qu_name p = None \<and> qu_kind p = None \<and> qu_purpose p = None \<and> qu_is_active p = None \<and>
     qu_focal_length p = None \<and> qu_aperture p = None \<and> qu_fov_width p = None \<and> qu_fov_height p = None \<and>
     qu_sort_order p = None \<and> qu_eyepieces p = None \<and> qu_az p = None \<and> qu_eq p = None \<and>
     (case qu_capture p of None \<Rightarrow> True | Some _ \<Rightarrow> False)"

definition validate_equipment_patch ::
  "(real \<Rightarrow> string) \<Rightarrow> json equipment_patch \<Rightarrow> capture_capability equipment_patch option" where
  "validate_equipment_patch float_text p =
     (case (optional (valid_name 200) (qu_name p),
            optional (\<lambda>ys. those (map validate_eyepiece ys)) (qu_eyepieces p),
            optional (optional validate_exposure) (qu_az p), optional (optional validate_exposure) (qu_eq p),
            optional (optional (parse_capture float_text)) (qu_capture p)) of
        (Some n, Some ys, Some az, Some eq, Some c) \<Rightarrow>
          if 1 \<le> qu_revision p \<and> \<not> equipment_patch_empty p \<and>
             (case qu_kind p of None \<Rightarrow> True | Some k \<Rightarrow> k \<in> set equipment_kinds) \<and>
             (case qu_purpose p of None \<Rightarrow> True | Some k \<Rightarrow> k \<in> set equipment_purposes) \<and>
             set_positive (qu_focal_length p) \<and> set_positive (qu_aperture p) \<and>
             set_positive (qu_fov_width p) \<and> set_positive (qu_fov_height p)
          then Some \<lparr>qu_revision = qu_revision p, qu_name = n, qu_kind = qu_kind p, qu_purpose = qu_purpose p,
            qu_is_active = qu_is_active p, qu_focal_length = qu_focal_length p, qu_aperture = qu_aperture p,
            qu_fov_width = qu_fov_width p, qu_fov_height = qu_fov_height p, qu_sort_order = qu_sort_order p,
            qu_eyepieces = ys, qu_az = az, qu_eq = eq, qu_capture = c\<rparr>
          else None
      | _ \<Rightarrow> None)"

section \<open>Responses\<close>

record equipment_response =
  qr_row :: equipment
  qr_eyepieces :: "eyepiece list"
  qr_az :: "exposure option"
  qr_eq :: "exposure option"
  qr_capture :: "capture_capability option"

text \<open>\<open>_response\<close>: the response model validates what is stored; None when it refuses it.\<close>

definition equipment_response_of :: "(real \<Rightarrow> string) \<Rightarrow> db \<Rightarrow> equipment \<Rightarrow> equipment_response option" where
  "equipment_response_of float_text d e =
     (case (optional validate_exposure (capability_of (eq_id e) ''AZ'' d),
            optional validate_exposure (capability_of (eq_id e) ''EQ'' d),
            optional (parse_capture float_text) (eq_capture e)) of
        (Some az, Some eq, Some c) \<Rightarrow>
          Some \<lparr>qr_row = e, qr_eyepieces = eyepieces_of (eq_id e) (eyepieces d), qr_az = az, qr_eq = eq, qr_capture = c\<rparr>
      | _ \<Rightarrow> None)"

definition respond_equipment ::
  "(real \<Rightarrow> string) \<Rightarrow> db \<Rightarrow> equipment \<Rightarrow> master_error + equipment_response" where
  "respond_equipment float_text d e =
     (case equipment_response_of float_text d e of None \<Rightarrow> Inl UncaughtValidation | Some r \<Rightarrow> Inr r)"

definition get_equipment :: "(real \<Rightarrow> string) \<Rightarrow> string \<Rightarrow> db \<Rightarrow> master_error + equipment_response" where
  "get_equipment float_text equipment_id d =
     (case eq_get equipment_id False (equipments d) of
        None \<Rightarrow> Inl MasterNotFound | Some e \<Rightarrow> respond_equipment float_text d e)"

definition list_equipment :: "(real \<Rightarrow> string) \<Rightarrow> db \<Rightarrow> master_error + equipment_response list" where
  "list_equipment float_text d =
     (case those (map (equipment_response_of float_text d) (eq_list (equipments d))) of
        None \<Rightarrow> Inl UncaughtValidation | Some rs \<Rightarrow> Inr rs)"

section \<open>Create\<close>

definition equipment_change :: "time \<Rightarrow> change_operation \<Rightarrow> bool \<Rightarrow> equipment \<Rightarrow> db \<Rightarrow> db" where
  "equipment_change now operation tombstone e d =
     append_change now astro ''Equipment'' (eq_id e) operation (Some (eq_revision e)) tombstone d"

text \<open>The columns \<open>_parent_values\<close> sets.\<close>

definition set_parent :: "capture_capability equipment_payload \<Rightarrow> equipment \<Rightarrow> equipment" where
  "set_parent p e = e\<lparr>eq_name := qp_name p, eq_kind := qp_kind p, eq_purpose := qp_purpose p,
     eq_is_active := qp_is_active p, eq_focal_length := qp_focal_length p, eq_aperture := qp_aperture p,
     eq_fov_width := qp_fov_width p, eq_fov_height := qp_fov_height p, eq_sort_order := qp_sort_order p,
     eq_capture := map_option dump_capture (qp_capture p)\<rparr>"

definition new_equipment :: "time \<Rightarrow> capture_capability equipment_payload \<Rightarrow> equipment" where
  "new_equipment now p = set_parent p
     \<lparr>eq_id = qp_id p, eq_name = [], eq_kind = [], eq_purpose = [], eq_is_active = True, eq_focal_length = None,
      eq_aperture = None, eq_fov_width = None, eq_fov_height = None, eq_capture = None, eq_sort_order = 0,
      eq_revision = 1, eq_created_at = now, eq_updated_at = now, eq_deleted_at = None\<rparr>"

definition eyepiece_values :: "string \<Rightarrow> eyepiece_in list \<Rightarrow> eyepiece list" where
  "eyepiece_values equipment_id ys =
     map (\<lambda>y. \<lparr>ey_id = yi_id y, ey_equipment = equipment_id, ey_name = yi_name y,
               ey_focal_length = yi_focal_length y, ey_afov = yi_afov y, ey_sort_order = yi_sort_order y\<rparr>) ys"

definition insert_equipment :: "time \<Rightarrow> capture_capability equipment_payload \<Rightarrow> db \<Rightarrow> flush_error + db" where
  "insert_equipment now p d =
     and_then (equipment_insert (new_equipment now p) (equipments d)) (\<lambda>rows.
     and_then (replace_eyepieces (qp_id p) (eyepiece_values (qp_id p) (qp_eyepieces p)) (d\<lparr>equipments := rows\<rparr>)) (\<lambda>d.
     and_then (replace_capability (qp_id p) ''AZ'' (qp_az p) d) (\<lambda>d.
     and_then (replace_capability (qp_id p) ''EQ'' (qp_eq p) d) (\<lambda>d.
       Inr (equipment_change now CREATE False (new_equipment now p) d)))))"

definition create_equipment ::
  "(real \<Rightarrow> string) \<Rightarrow> time \<Rightarrow> capture_capability equipment_payload \<Rightarrow> db \<Rightarrow> db
     \<Rightarrow> (master_error + equipment_response) \<times> db" where
  "create_equipment float_text now p d0 d =
     (case eq_get (qp_id p) True (equipments d0) of
        Some e \<Rightarrow> (if eq_deleted_at e \<noteq> None then Inl (ResourceTombstoned (qp_id p))
                   else respond_equipment float_text d0 e, d)
      | None \<Rightarrow>
         (case insert_equipment now p d of
            Inr d' \<Rightarrow> (respond_equipment float_text d' (new_equipment now p), d')
          | Inl ConstraintViolated \<Rightarrow>
              (case eq_get (qp_id p) True (equipments d) of
                 Some e \<Rightarrow> (if eq_deleted_at e = None then respond_equipment float_text d e else Inl AggregateConflict, d)
               | None \<Rightarrow> (Inl AggregateConflict, d))
          | Inl NumberTooLarge \<Rightarrow> (Inl UncaughtDataError, d)))"

section \<open>Update\<close>

definition eyepiece_in_of :: "eyepiece \<Rightarrow> eyepiece_in" where
  "eyepiece_in_of y = \<lparr>yi_id = ey_id y, yi_equipment = Some (ey_equipment y), yi_name = ey_name y,
     yi_focal_length = ey_focal_length y, yi_afov = ey_afov y, yi_sort_order = ey_sort_order y\<rparr>"

text \<open>The current response with the patch's fields put over it, validated as a new payload.\<close>

definition merged_equipment :: "equipment_response \<Rightarrow> capture_capability equipment_patch \<Rightarrow> json equipment_payload" where
  "merged_equipment r p = \<lparr>qp_id = eq_id (qr_row r),
     qp_name = or_else (qu_name p) (eq_name (qr_row r)),
     qp_kind = or_else (qu_kind p) (eq_kind (qr_row r)),
     qp_purpose = or_else (qu_purpose p) (eq_purpose (qr_row r)),
     qp_is_active = or_else (qu_is_active p) (eq_is_active (qr_row r)),
     qp_focal_length = or_else (qu_focal_length p) (eq_focal_length (qr_row r)),
     qp_aperture = or_else (qu_aperture p) (eq_aperture (qr_row r)),
     qp_fov_width = or_else (qu_fov_width p) (eq_fov_width (qr_row r)),
     qp_fov_height = or_else (qu_fov_height p) (eq_fov_height (qr_row r)),
     qp_sort_order = or_else (qu_sort_order p) (eq_sort_order (qr_row r)),
     qp_eyepieces = or_else (qu_eyepieces p) (map eyepiece_in_of (qr_eyepieces r)),
     qp_az = or_else (qu_az p) (qr_az r),
     qp_eq = or_else (qu_eq p) (qr_eq r),
     qp_capture = (case qu_capture p of Some c \<Rightarrow> map_option dump_capture_set c
                   | None \<Rightarrow> map_option dump_capture (qr_capture r))\<rparr>"

definition when_set :: "'a option \<Rightarrow> ('s \<Rightarrow> 'e + 's) \<Rightarrow> 's \<Rightarrow> 'e + 's" where
  "when_set x f s = (if x = None then Inr s else f s)"

definition write_equipment ::
  "time \<Rightarrow> capture_capability equipment_patch \<Rightarrow> capture_capability equipment_payload \<Rightarrow> equipment \<Rightarrow> db
     \<Rightarrow> flush_error + db" where
  "write_equipment now u p e d =
     (let e' = (set_parent p e)\<lparr>eq_revision := eq_revision e + 1, eq_updated_at := now\<rparr>
      in and_then (equipment_write e') (\<lambda>e'.
         and_then (when_set (qu_eyepieces u) (replace_eyepieces (eq_id e) (eyepiece_values (eq_id e) (qp_eyepieces p)))
             (d\<lparr>equipments := save_row eq_id e' (equipments d)\<rparr>)) (\<lambda>d.
         and_then (when_set (qu_az u) (replace_capability (eq_id e) ''AZ'' (qp_az p)) d) (\<lambda>d.
         and_then (when_set (qu_eq u) (replace_capability (eq_id e) ''EQ'' (qp_eq p)) d) (\<lambda>d.
           Inr (equipment_change now UPDATE False e' d))))))"

definition update_equipment ::
  "(real \<Rightarrow> string) \<Rightarrow> time \<Rightarrow> string \<Rightarrow> capture_capability equipment_patch \<Rightarrow> db
     \<Rightarrow> (master_error + equipment_response) \<times> db" where
  "update_equipment float_text now equipment_id u d =
     (case eq_get equipment_id False (equipments d) of
        None \<Rightarrow> (Inl MasterNotFound, d)
      | Some e \<Rightarrow>
         if eq_revision e \<noteq> qu_revision u then (Inl (StaleRevision (eq_id e) (qu_revision u) (eq_revision e)), d)
         else (case equipment_response_of float_text d e of
            None \<Rightarrow> (Inl UncaughtValidation, d)
          | Some current \<Rightarrow>
             (case validate_equipment float_text (merged_equipment current u) of
                None \<Rightarrow> (Inl UncaughtValidation, d)
              | Some p \<Rightarrow>
                 (case write_equipment now u p e d of
                    Inl ConstraintViolated \<Rightarrow> (Inl AggregateConflict, d)
                  | Inl NumberTooLarge \<Rightarrow> (Inl UncaughtDataError, d)
                  | Inr d' \<Rightarrow>
                      (case eq_get equipment_id True (equipments d') of
                         Some e' \<Rightarrow> (respond_equipment float_text d' e', d')
                       | None \<Rightarrow> (Inl MasterNotFound, d'))))))"

section \<open>Delete\<close>

definition site_change :: "time \<Rightarrow> change_operation \<Rightarrow> bool \<Rightarrow> observation_site \<Rightarrow> db \<Rightarrow> db" where
  "site_change now operation tombstone s d =
     append_change now astro ''ObservationSite'' (os_id s) operation (Some (os_revision s)) tombstone d"

definition sites_using :: "string \<Rightarrow> observation_site list \<Rightarrow> observation_site list" where
  "sites_using equipment_id rows =
     order_by os_id (filter (\<lambda>s. os_deleted_at s = None \<and> os_equipment s = Some equipment_id) rows)"

definition detach_site :: "time \<Rightarrow> observation_site \<Rightarrow> db \<Rightarrow> db" where
  "detach_site now s d =
     (let s' = s\<lparr>os_equipment := None, os_revision := os_revision s + 1, os_updated_at := now\<rparr>
      in site_change now UPDATE False s' (d\<lparr>sites := save_row os_id s' (sites d)\<rparr>))"

definition delete_equipment ::
  "time \<Rightarrow> string \<Rightarrow> int \<Rightarrow> db \<Rightarrow> (master_error + equipment) \<times> db" where
  "delete_equipment now equipment_id expected_revision d =
     (case eq_get equipment_id False (equipments d) of
        None \<Rightarrow> (Inl MasterNotFound, d)
      | Some e \<Rightarrow>
         if eq_revision e \<noteq> expected_revision
         then (Inl (StaleRevision (eq_id e) expected_revision (eq_revision e)), d)
         else
           let d1 = fold (detach_site now) (sites_using (eq_id e) (sites d)) d;
               e' = e\<lparr>eq_deleted_at := Some now, eq_updated_at := now, eq_revision := eq_revision e + 1\<rparr>
           in case delete_equipment_children (eq_id e) d1 of
                Inl _ \<Rightarrow> (Inl UncaughtDataError, d)
              | Inr d2 \<Rightarrow>
                  (Inr e', equipment_change now DELETE True e' (d2\<lparr>equipments := save_row eq_id e' (equipments d2)\<rparr>)))"

section \<open>The endpoints\<close>

definition post_equipment ::
  "(real \<Rightarrow> string) \<Rightarrow> time \<Rightarrow> json equipment_payload \<Rightarrow> db \<Rightarrow> db \<Rightarrow> (master_error + equipment_response) \<times> db" where
  "post_equipment float_text now raw d0 d =
     (case validate_equipment float_text raw of
        None \<Rightarrow> (Inl Unprocessable, d) | Some p \<Rightarrow> create_equipment float_text now p d0 d)"

definition patch_equipment ::
  "(real \<Rightarrow> string) \<Rightarrow> time \<Rightarrow> string \<Rightarrow> json equipment_patch \<Rightarrow> db \<Rightarrow> (master_error + equipment_response) \<times> db" where
  "patch_equipment float_text now equipment_id raw d =
     (case validate_equipment_patch float_text raw of
        None \<Rightarrow> (Inl Unprocessable, d) | Some u \<Rightarrow> update_equipment float_text now equipment_id u d)"

end
