(* ===== verification/ObservationSites.thy ===== *)
theory ObservationSites
  imports Equipment
begin

text \<open>
  Observation sites: the repository, the request schemas and \<open>ObservationSiteService\<close>
  (\<open>observation_site_repository.py\<close>, \<open>schemas/observation_site.py\<close> and
  \<open>services/observation_site_service.py\<close> under \<open>src/app/astrojournal/\<close>) with the
  constraints of the site tables. Snapshots and answers are as in \<open>Equipment\<close>.
\<close>

section \<open>The repository\<close>

definition os_get :: "string \<Rightarrow> bool \<Rightarrow> observation_site list \<Rightarrow> observation_site option" where
  "os_get site_id include_deleted rows =
     List.find (\<lambda>s. os_id s = site_id \<and> (include_deleted \<or> os_deleted_at s = None)) rows"

text \<open>Favorites first, then by name and id.\<close>

definition os_list :: "observation_site list \<Rightarrow> observation_site list" where
  "os_list rows =
     order_by (\<lambda>s. (\<not> os_is_favorite s, os_name s, os_id s)) (filter (\<lambda>s. os_deleted_at s = None) rows)"

definition between :: "real \<Rightarrow> real \<Rightarrow> real \<Rightarrow> bool" where
  "between lo hi x \<longleftrightarrow> lo \<le> x \<and> x \<le> hi"

definition null_or :: "('a \<Rightarrow> bool) \<Rightarrow> 'a option \<Rightarrow> bool" where
  "null_or P x = (case x of None \<Rightarrow> True | Some v \<Rightarrow> P v)"

definition horizon_sources :: "string list" where
  "horizon_sources = [''manual'', ''camera_scan'', ''photo_import'', ''video_import'']"

definition tracking_modes :: "string list" where
  "tracking_modes = [''altAz'', ''eq'']"

definition site_checks :: "observation_site \<Rightarrow> bool" where
  "site_checks s \<longleftrightarrow> between (-90) 90 (os_latitude s) \<and> between (-180) 180 (os_longitude s) \<and>
     null_or (\<lambda>b. 1 \<le> b \<and> b \<le> 9) (os_bortle s) \<and> os_tracking_mode s \<in> set tracking_modes \<and>
     between (-90) 90 (os_min_altitude s) \<and>
     null_or (\<lambda>m. os_min_altitude s \<le> m \<and> m \<le> 90) (os_max_altitude s)"

definition site_write :: "equipment list \<Rightarrow> observation_site \<Rightarrow> flush_error + observation_site" where
  "site_write equipment_rows s =
     raise_if (\<not> site_checks s \<or> \<not> null_or (\<lambda>e. e \<in> eq_id ` set equipment_rows) (os_equipment s)) ConstraintViolated (Inr s)"

definition site_insert ::
  "equipment list \<Rightarrow> observation_site \<Rightarrow> observation_site list \<Rightarrow> flush_error + observation_site list" where
  "site_insert equipment_rows s rows = and_then (site_write equipment_rows s) (\<lambda>s.
     raise_if (os_id s \<in> os_id ` set rows) ConstraintViolated (Inr (rows @ [s])))"

definition horizon_insert :: "horizon_point \<Rightarrow> horizon_point list \<Rightarrow> flush_error + horizon_point list" where
  "horizon_insert h rows =
     (if \<not> fits_integer (hp_sort_order h) then Inl NumberTooLarge
      else if \<not> (0 \<le> hp_azimuth h \<and> hp_azimuth h < 360) \<or> \<not> between (-90) 90 (hp_min_altitude h) \<or>
              \<not> null_or (\<lambda>m. hp_min_altitude h \<le> m \<and> m \<le> 90) (hp_max_altitude h) \<or>
              hp_source h \<notin> set horizon_sources \<or> hp_id h \<in> hp_id ` set rows \<or>
              list_ex (\<lambda>x. hp_site x = hp_site h \<and> hp_azimuth x = hp_azimuth h) rows
      then Inl ConstraintViolated else Inr (rows @ [h]))"

definition blocked_insert :: "blocked_range \<Rightarrow> blocked_range list \<Rightarrow> flush_error + blocked_range list" where
  "blocked_insert b rows =
     (if \<not> (0 \<le> br_start b \<and> br_start b < 360) \<or> \<not> (0 \<le> br_end b \<and> br_end b < 360) \<or>
         br_source b \<notin> set horizon_sources \<or> br_id b \<in> br_id ` set rows
      then Inl ConstraintViolated else Inr (rows @ [b]))"

definition horizon_points_of :: "string \<Rightarrow> horizon_point list \<Rightarrow> horizon_point list" where
  "horizon_points_of site_id rows =
     order_by (\<lambda>h. (hp_sort_order h, hp_azimuth h, hp_id h)) (filter (\<lambda>h. hp_site h = site_id) rows)"

definition blocked_ranges_of :: "string \<Rightarrow> blocked_range list \<Rightarrow> blocked_range list" where
  "blocked_ranges_of site_id rows =
     order_by (\<lambda>b. (br_start b, br_end b, br_id b)) (filter (\<lambda>b. br_site b = site_id) rows)"

definition replace_horizon_points :: "string \<Rightarrow> horizon_point list \<Rightarrow> db \<Rightarrow> flush_error + db" where
  "replace_horizon_points site_id hs d =
     and_then (insert_all horizon_insert hs (delete_where (\<lambda>h. hp_site h = site_id) (horizon_points d)))
       (\<lambda>rows. Inr (d\<lparr>horizon_points := rows\<rparr>))"

definition replace_blocked_ranges :: "string \<Rightarrow> blocked_range list \<Rightarrow> db \<Rightarrow> flush_error + db" where
  "replace_blocked_ranges site_id bs d =
     and_then (insert_all blocked_insert bs (delete_where (\<lambda>b. br_site b = site_id) (blocked_ranges d)))
       (\<lambda>rows. Inr (d\<lparr>blocked_ranges := rows\<rparr>))"

definition delete_site_children :: "string \<Rightarrow> db \<Rightarrow> flush_error + db" where
  "delete_site_children site_id d =
     and_then (replace_horizon_points site_id [] d) (replace_blocked_ranges site_id [])"

section \<open>Payloads\<close>

text \<open>
  The children of a payload are rows whose parent is an option: the id the client sent, or
  nothing.
\<close>

record horizon_in =
  hi_id :: string
  hi_site :: "string option"
  hi_azimuth :: real
  hi_min_altitude :: real
  hi_max_altitude :: "real option"
  hi_sort_order :: int
  hi_source :: string

record blocked_in =
  bi_id :: string
  bi_site :: "string option"
  bi_start :: real
  bi_end :: real
  bi_reason :: "string option"
  bi_source :: string

record site_payload =
  sp_id :: string
  sp_name :: string
  sp_latitude :: real
  sp_longitude :: real
  sp_address :: "string option"
  sp_bortle :: "int option"
  sp_sqm :: "real option"
  sp_brightness :: "string option"
  sp_is_favorite :: bool
  sp_tracking_mode :: string
  sp_equipment :: "string option"
  sp_min_altitude :: real
  sp_max_altitude :: "real option"
  sp_preferred_start :: "string option"
  sp_preferred_end :: "string option"
  sp_memo :: string
  sp_horizon :: "horizon_in list"
  sp_blocked :: "blocked_in list"

record site_patch =
  su_revision :: int
  su_name :: "string option"
  su_latitude :: "real option"
  su_longitude :: "real option"
  su_address :: "string option option"
  su_bortle :: "int option option"
  su_sqm :: "real option option"
  su_brightness :: "string option option"
  su_is_favorite :: "bool option"
  su_tracking_mode :: "string option"
  su_equipment :: "string option option"
  su_min_altitude :: "real option"
  su_max_altitude :: "real option option"
  su_preferred_start :: "string option option"
  su_preferred_end :: "string option option"
  su_memo :: "string option"
  su_horizon :: "horizon_in list option"
  su_blocked :: "blocked_in list option"

section \<open>Validation\<close>

text \<open>A fullmatch of \<open>^(?:[01]\d|2[0-3]):[0-5]\d$\<close>.\<close>

definition local_time_ok :: "string \<Rightarrow> bool" where
  "local_time_ok s = (case s of
     [h1, h2, colon, m1, m2] \<Rightarrow>
       colon = CHR '':'' \<and> is_digit_char h2 \<and> is_digit_char m2 \<and>
       (h1 = CHR ''0'' \<or> h1 = CHR ''1'' \<or> h1 = CHR ''2'' \<and> h2 \<in> set ''0123'') \<and> m1 \<in> set ''012345''
   | _ \<Rightarrow> False)"

definition normalize_local_time :: "string option \<Rightarrow> string option option" where
  "normalize_local_time v = (case v of
     None \<Rightarrow> Some None
   | Some s \<Rightarrow> if strip s = [] then Some None
               else if local_time_ok (strip s) then Some (Some (strip s)) else None)"

text \<open>\<open>normalize_optional_text\<close> runs before the length check.\<close>

definition normalize_optional_text :: "nat \<Rightarrow> string option \<Rightarrow> string option option" where
  "normalize_optional_text n v = (case v of
     None \<Rightarrow> Some None
   | Some s \<Rightarrow> if strip s = [] then Some None
               else if length (strip s) \<le> n then Some (Some (strip s)) else None)"

definition horizon_in_ok :: "horizon_in \<Rightarrow> bool" where
  "horizon_in_ok h \<longleftrightarrow> 0 \<le> hi_azimuth h \<and> hi_azimuth h < 360 \<and> between (-90) 90 (hi_min_altitude h) \<and>
     null_or (between (-90) 90) (hi_max_altitude h) \<and> null_or (\<lambda>m. hi_min_altitude h \<le> m) (hi_max_altitude h) \<and>
     hi_source h \<in> set horizon_sources"

definition blocked_in_ok :: "blocked_in \<Rightarrow> bool" where
  "blocked_in_ok b \<longleftrightarrow> 0 \<le> bi_start b \<and> bi_start b < 360 \<and> 0 \<le> bi_end b \<and> bi_end b < 360 \<and>
     null_or (\<lambda>s. length s \<le> 500) (bi_reason b) \<and> bi_source b \<in> set horizon_sources"

text \<open>\<open>validate_aggregate\<close>.\<close>

definition site_aggregate_ok :: "site_payload \<Rightarrow> bool" where
  "site_aggregate_ok p \<longleftrightarrow>
     null_or (\<lambda>m. sp_min_altitude p \<le> m) (sp_max_altitude p) \<and>
     list_all (\<lambda>h. null_or (\<lambda>i. i = sp_id p) (hi_site h)) (sp_horizon p) \<and>
     list_all (\<lambda>b. null_or (\<lambda>i. i = sp_id p) (bi_site b)) (sp_blocked p) \<and>
     distinct (map hi_id (sp_horizon p)) \<and> distinct (map hi_azimuth (sp_horizon p)) \<and>
     distinct (map bi_id (sp_blocked p))"

definition validate_site :: "site_payload \<Rightarrow> site_payload option" where
  "validate_site p =
     (case (valid_name 200 (sp_name p), normalize_optional_text 500 (sp_address p),
            normalize_optional_text 100 (sp_brightness p), normalize_local_time (sp_preferred_start p),
            normalize_local_time (sp_preferred_end p)) of
        (Some n, Some a, Some b, Some ps, Some pe) \<Rightarrow>
          if between (-90) 90 (sp_latitude p) \<and> between (-180) 180 (sp_longitude p) \<and>
             null_or (\<lambda>b. 1 \<le> b \<and> b \<le> 9) (sp_bortle p) \<and> sp_tracking_mode p \<in> set tracking_modes \<and>
             between (-90) 90 (sp_min_altitude p) \<and> null_or (between (-90) 90) (sp_max_altitude p) \<and>
             list_all horizon_in_ok (sp_horizon p) \<and> list_all blocked_in_ok (sp_blocked p) \<and> site_aggregate_ok p
          then Some (p\<lparr>sp_name := n, sp_address := a, sp_brightness := b, sp_preferred_start := ps, sp_preferred_end := pe\<rparr>)
          else None
      | _ \<Rightarrow> None)"

definition site_patch_empty :: "site_patch \<Rightarrow> bool" where
  "site_patch_empty u \<longleftrightarrow> su_name u = None \<and> su_latitude u = None \<and> su_longitude u = None \<and> su_address u = None \<and>
     su_bortle u = None \<and> su_sqm u = None \<and> su_brightness u = None \<and> su_is_favorite u = None \<and>
     su_tracking_mode u = None \<and> su_equipment u = None \<and> su_min_altitude u = None \<and> su_max_altitude u = None \<and>
     su_preferred_start u = None \<and> su_preferred_end u = None \<and> su_memo u = None \<and> su_horizon u = None \<and> su_blocked u = None"

definition validate_site_patch :: "site_patch \<Rightarrow> site_patch option" where
  "validate_site_patch u =
     (case (optional (valid_name 200) (su_name u), optional (normalize_optional_text 500) (su_address u),
            optional (normalize_optional_text 100) (su_brightness u), optional normalize_local_time (su_preferred_start u),
            optional normalize_local_time (su_preferred_end u)) of
        (Some n, Some a, Some b, Some ps, Some pe) \<Rightarrow>
          if 1 \<le> su_revision u \<and> \<not> site_patch_empty u \<and>
             null_or (between (-90) 90) (su_latitude u) \<and> null_or (between (-180) 180) (su_longitude u) \<and>
             null_or (null_or (\<lambda>b. 1 \<le> b \<and> b \<le> 9)) (su_bortle u) \<and>
             null_or (\<lambda>m. m \<in> set tracking_modes) (su_tracking_mode u) \<and>
             null_or (between (-90) 90) (su_min_altitude u) \<and> null_or (null_or (between (-90) 90)) (su_max_altitude u) \<and>
             null_or (list_all horizon_in_ok) (su_horizon u) \<and> null_or (list_all blocked_in_ok) (su_blocked u)
          then Some (u\<lparr>su_name := n, su_address := a, su_brightness := b, su_preferred_start := ps, su_preferred_end := pe\<rparr>)
          else None
      | _ \<Rightarrow> None)"

section \<open>The service\<close>

record site_response =
  sr_row :: observation_site
  sr_horizon :: "horizon_point list"
  sr_blocked :: "blocked_range list"

text \<open>
  The response model repeats the checks the tables make, so a stored site always passes; its
  fields are the columns and the children in query order.
\<close>

definition site_response_of :: "db \<Rightarrow> observation_site \<Rightarrow> site_response" where
  "site_response_of d s = \<lparr>sr_row = s, sr_horizon = horizon_points_of (os_id s) (horizon_points d),
     sr_blocked = blocked_ranges_of (os_id s) (blocked_ranges d)\<rparr>"

definition get_site :: "string \<Rightarrow> db \<Rightarrow> master_error + site_response" where
  "get_site site_id d =
     (case os_get site_id False (sites d) of None \<Rightarrow> Inl MasterNotFound | Some s \<Rightarrow> Inr (site_response_of d s))"

definition list_sites :: "db \<Rightarrow> site_response list" where
  "list_sites d = map (site_response_of d) (os_list (sites d))"

definition default_equipment_ok :: "string option \<Rightarrow> db \<Rightarrow> bool" where
  "default_equipment_ok e d = (case e of None \<Rightarrow> True | Some i \<Rightarrow> eq_get i False (equipments d) \<noteq> None)"

definition set_site :: "site_payload \<Rightarrow> observation_site \<Rightarrow> observation_site" where
  "set_site p s = s\<lparr>os_name := sp_name p, os_latitude := sp_latitude p, os_longitude := sp_longitude p,
     os_address := sp_address p, os_bortle := sp_bortle p, os_sqm := sp_sqm p, os_brightness := sp_brightness p,
     os_is_favorite := sp_is_favorite p, os_tracking_mode := sp_tracking_mode p, os_equipment := sp_equipment p,
     os_min_altitude := sp_min_altitude p, os_max_altitude := sp_max_altitude p,
     os_preferred_start := sp_preferred_start p, os_preferred_end := sp_preferred_end p, os_memo := sp_memo p\<rparr>"

definition new_site :: "time \<Rightarrow> site_payload \<Rightarrow> observation_site" where
  "new_site now p = set_site p
     \<lparr>os_id = sp_id p, os_name = [], os_latitude = 0, os_longitude = 0, os_address = None, os_bortle = None,
      os_sqm = None, os_brightness = None, os_is_favorite = True, os_tracking_mode = ''altAz'', os_equipment = None,
      os_min_altitude = 20, os_max_altitude = None, os_preferred_start = None, os_preferred_end = None, os_memo = [],
      os_revision = 1, os_created_at = now, os_updated_at = now, os_deleted_at = None\<rparr>"

definition horizon_values :: "string \<Rightarrow> horizon_in list \<Rightarrow> horizon_point list" where
  "horizon_values site_id hs =
     map (\<lambda>h. \<lparr>hp_id = hi_id h, hp_site = site_id, hp_azimuth = hi_azimuth h, hp_min_altitude = hi_min_altitude h,
               hp_max_altitude = hi_max_altitude h, hp_sort_order = hi_sort_order h, hp_source = hi_source h\<rparr>) hs"

definition blocked_values :: "string \<Rightarrow> blocked_in list \<Rightarrow> blocked_range list" where
  "blocked_values site_id bs =
     map (\<lambda>b. \<lparr>br_id = bi_id b, br_site = site_id, br_start = bi_start b, br_end = bi_end b,
               br_reason = bi_reason b, br_source = bi_source b\<rparr>) bs"

definition insert_site :: "time \<Rightarrow> site_payload \<Rightarrow> db \<Rightarrow> flush_error + db" where
  "insert_site now p d =
     and_then (site_insert (equipments d) (new_site now p) (sites d)) (\<lambda>rows.
     and_then (replace_horizon_points (sp_id p) (horizon_values (sp_id p) (sp_horizon p)) (d\<lparr>sites := rows\<rparr>)) (\<lambda>d.
     and_then (replace_blocked_ranges (sp_id p) (blocked_values (sp_id p) (sp_blocked p)) d) (\<lambda>d.
       Inr (site_change now CREATE False (new_site now p) d))))"

definition create_site :: "time \<Rightarrow> site_payload \<Rightarrow> db \<Rightarrow> db \<Rightarrow> (master_error + site_response) \<times> db" where
  "create_site now p d0 d =
     (case os_get (sp_id p) True (sites d0) of
        Some s \<Rightarrow> (if os_deleted_at s \<noteq> None then Inl (ResourceTombstoned (sp_id p))
                   else Inr (site_response_of d0 s), d)
      | None \<Rightarrow>
         if \<not> default_equipment_ok (sp_equipment p) d0 then (Inl DefaultEquipmentNotFound, d)
         else (case insert_site now p d of
            Inr d' \<Rightarrow> (Inr (site_response_of d' (new_site now p)), d')
          | Inl ConstraintViolated \<Rightarrow>
              (case os_get (sp_id p) True (sites d) of
                 Some s \<Rightarrow> (if os_deleted_at s = None then Inr (site_response_of d s) else Inl AggregateConflict, d)
               | None \<Rightarrow> (Inl AggregateConflict, d))
          | Inl NumberTooLarge \<Rightarrow> (Inl UncaughtDataError, d)))"

definition horizon_in_of :: "horizon_point \<Rightarrow> horizon_in" where
  "horizon_in_of h = \<lparr>hi_id = hp_id h, hi_site = Some (hp_site h), hi_azimuth = hp_azimuth h,
     hi_min_altitude = hp_min_altitude h, hi_max_altitude = hp_max_altitude h, hi_sort_order = hp_sort_order h,
     hi_source = hp_source h\<rparr>"

definition blocked_in_of :: "blocked_range \<Rightarrow> blocked_in" where
  "blocked_in_of b = \<lparr>bi_id = br_id b, bi_site = Some (br_site b), bi_start = br_start b, bi_end = br_end b,
     bi_reason = br_reason b, bi_source = br_source b\<rparr>"

definition merged_site :: "site_response \<Rightarrow> site_patch \<Rightarrow> site_payload" where
  "merged_site r u = (let s = sr_row r in
     \<lparr>sp_id = os_id s, sp_name = or_else (su_name u) (os_name s), sp_latitude = or_else (su_latitude u) (os_latitude s),
      sp_longitude = or_else (su_longitude u) (os_longitude s), sp_address = or_else (su_address u) (os_address s),
      sp_bortle = or_else (su_bortle u) (os_bortle s), sp_sqm = or_else (su_sqm u) (os_sqm s),
      sp_brightness = or_else (su_brightness u) (os_brightness s),
      sp_is_favorite = or_else (su_is_favorite u) (os_is_favorite s),
      sp_tracking_mode = or_else (su_tracking_mode u) (os_tracking_mode s),
      sp_equipment = or_else (su_equipment u) (os_equipment s),
      sp_min_altitude = or_else (su_min_altitude u) (os_min_altitude s),
      sp_max_altitude = or_else (su_max_altitude u) (os_max_altitude s),
      sp_preferred_start = or_else (su_preferred_start u) (os_preferred_start s),
      sp_preferred_end = or_else (su_preferred_end u) (os_preferred_end s), sp_memo = or_else (su_memo u) (os_memo s),
      sp_horizon = or_else (su_horizon u) (map horizon_in_of (sr_horizon r)),
      sp_blocked = or_else (su_blocked u) (map blocked_in_of (sr_blocked r))\<rparr>)"

definition write_site ::
  "time \<Rightarrow> site_patch \<Rightarrow> site_payload \<Rightarrow> observation_site \<Rightarrow> db \<Rightarrow> flush_error + observation_site \<times> db" where
  "write_site now u p s d =
     (let s' = (set_site p s)\<lparr>os_revision := os_revision s + 1, os_updated_at := now\<rparr>
      in and_then (site_write (equipments d) s') (\<lambda>s'.
         and_then (when_set (su_horizon u) (replace_horizon_points (os_id s) (horizon_values (os_id s) (sp_horizon p)))
             (d\<lparr>sites := save_row os_id s' (sites d)\<rparr>)) (\<lambda>d.
         and_then (when_set (su_blocked u) (replace_blocked_ranges (os_id s) (blocked_values (os_id s) (sp_blocked p))) d) (\<lambda>d.
           Inr (s', site_change now UPDATE False s' d)))))"

text \<open>
  \<open>d0\<close> is what the equipment check reads, which comes before the writes; the site itself is
  locked.
\<close>

definition update_site :: "time \<Rightarrow> string \<Rightarrow> site_patch \<Rightarrow> db \<Rightarrow> db \<Rightarrow> (master_error + site_response) \<times> db" where
  "update_site now site_id u d0 d =
     (case os_get site_id False (sites d) of
        None \<Rightarrow> (Inl MasterNotFound, d)
      | Some s \<Rightarrow>
         if os_revision s \<noteq> su_revision u then (Inl (StaleRevision (os_id s) (su_revision u) (os_revision s)), d)
         else (case validate_site (merged_site (site_response_of d s) u) of
            None \<Rightarrow> (Inl UncaughtValidation, d)
          | Some p \<Rightarrow>
             if \<not> default_equipment_ok (sp_equipment p) d0 then (Inl DefaultEquipmentNotFound, d)
             else (case write_site now u p s d of
                Inl ConstraintViolated \<Rightarrow> (Inl AggregateConflict, d)
              | Inl NumberTooLarge \<Rightarrow> (Inl UncaughtDataError, d)
              | Inr (s', d') \<Rightarrow> (Inr (site_response_of d' s'), d'))))"

definition delete_site :: "time \<Rightarrow> string \<Rightarrow> int \<Rightarrow> db \<Rightarrow> (master_error + observation_site) \<times> db" where
  "delete_site now site_id expected_revision d =
     (case os_get site_id False (sites d) of
        None \<Rightarrow> (Inl MasterNotFound, d)
      | Some s \<Rightarrow>
         if os_revision s \<noteq> expected_revision
         then (Inl (StaleRevision (os_id s) expected_revision (os_revision s)), d)
         else (case delete_site_children (os_id s) d of
            Inl _ \<Rightarrow> (Inl UncaughtDataError, d)
          | Inr d1 \<Rightarrow>
              let s' = s\<lparr>os_deleted_at := Some now, os_updated_at := now, os_revision := os_revision s + 1\<rparr>
              in (Inr s', site_change now DELETE True s' (d1\<lparr>sites := save_row os_id s' (sites d1)\<rparr>))))"

definition post_site :: "time \<Rightarrow> site_payload \<Rightarrow> db \<Rightarrow> db \<Rightarrow> (master_error + site_response) \<times> db" where
  "post_site now raw d0 d =
     (case validate_site raw of None \<Rightarrow> (Inl Unprocessable, d) | Some p \<Rightarrow> create_site now p d0 d)"

definition patch_site :: "time \<Rightarrow> string \<Rightarrow> site_patch \<Rightarrow> db \<Rightarrow> db \<Rightarrow> (master_error + site_response) \<times> db" where
  "patch_site now site_id raw d0 d =
     (case validate_site_patch raw of None \<Rightarrow> (Inl Unprocessable, d) | Some u \<Rightarrow> update_site now site_id u d0 d)"

end
