(* ===== verification/FramingReferences.thy ===== *)
theory FramingReferences
  imports ObservationSites
begin

text \<open>
  Multi-night framing references: repository, schemas and service
  (\<open>multi_night_framing_reference\<close> files under \<open>src/app/astrojournal/\<close>). A reference names an
  observation site and an equipment, and at most one active reference exists for a catalog
  object and an equipment.
\<close>

section \<open>The repository\<close>

definition fr_get :: "string \<Rightarrow> bool \<Rightarrow> framing_reference list \<Rightarrow> framing_reference option" where
  "fr_get reference_id include_deleted rows =
     List.find (\<lambda>r. fr_id r = reference_id \<and> (include_deleted \<or> fr_deleted_at r = None)) rows"

text \<open>Newest capture first, then by id.\<close>

definition fr_list :: "string option \<Rightarrow> string option \<Rightarrow> framing_reference list \<Rightarrow> framing_reference list" where
  "fr_list catalog equipment_id rows =
     order_by (\<lambda>r. (- fr_captured_at r, fr_id r))
       (filter (\<lambda>r. fr_deleted_at r = None \<and> null_or (\<lambda>c. fr_catalog r = c) catalog \<and>
                    null_or (\<lambda>e. fr_equipment r = e) equipment_id) rows)"

definition same_identity :: "string \<Rightarrow> string \<Rightarrow> framing_reference \<Rightarrow> bool" where
  "same_identity catalog equipment_id r \<longleftrightarrow>
     fr_deleted_at r = None \<and> fr_catalog r = catalog \<and> fr_equipment r = equipment_id"

definition find_active_identity ::
  "string \<Rightarrow> string \<Rightarrow> string option \<Rightarrow> framing_reference list \<Rightarrow> framing_reference option" where
  "find_active_identity catalog equipment_id except_id rows =
     List.find (\<lambda>r. same_identity catalog equipment_id r \<and> null_or (\<lambda>i. fr_id r \<noteq> i) except_id) rows"

definition branches :: "string list" where
  "branches = [''rising'', ''setting'']"

definition reference_checks :: "framing_reference \<Rightarrow> bool" where
  "reference_checks r \<longleftrightarrow> between (-180) 180 (fr_hour_angle r) \<and> between (-180) 180 (fr_parallactic r) \<and>
     fr_branch r \<in> set branches"

text \<open>
  A row beside the other rows: the checks, the foreign keys and the partial unique index on
  the active references.
\<close>

definition reference_write ::
  "framing_reference list \<Rightarrow> db \<Rightarrow> framing_reference \<Rightarrow> flush_error + framing_reference" where
  "reference_write others d r =
     raise_if (\<not> reference_checks r \<or> fr_site r \<notin> os_id ` set (sites d) \<or> fr_equipment r \<notin> eq_id ` set (equipments d) \<or>
        fr_deleted_at r = None \<and> list_ex (same_identity (fr_catalog r) (fr_equipment r)) others)
       ConstraintViolated (Inr r)"

definition reference_insert :: "framing_reference \<Rightarrow> db \<Rightarrow> flush_error + db" where
  "reference_insert r d = and_then (reference_write (framing_references d) d r) (\<lambda>r.
     raise_if (fr_id r \<in> fr_id ` set (framing_references d)) ConstraintViolated
       (Inr (d\<lparr>framing_references := framing_references d @ [r]\<rparr>)))"

section \<open>Payloads\<close>

text \<open>
  An instant sent by a client: its UTC value and whether it carried an offset.
\<close>

record client_time =
  ct_instant :: time
  ct_has_offset :: bool

record reference_payload =
  rp_id :: string
  rp_catalog :: string
  rp_captured_at :: client_time
  rp_site :: string
  rp_equipment :: string
  rp_hour_angle :: real
  rp_parallactic :: real
  rp_branch :: string

record reference_patch =
  ru_revision :: int
  ru_captured_at :: "client_time option"
  ru_site :: "string option"
  ru_equipment :: "string option"
  ru_hour_angle :: "real option"
  ru_parallactic :: "real option"
  ru_branch :: "string option"

definition future_clock_skew :: time where
  "future_clock_skew = seconds (15 * 60)"

definition captured_at_ok :: "time \<Rightarrow> client_time \<Rightarrow> bool" where
  "captured_at_ok now t \<longleftrightarrow> ct_has_offset t \<and> \<not> now + future_clock_skew < ct_instant t"

definition validate_reference :: "time \<Rightarrow> reference_payload \<Rightarrow> reference_payload option" where
  "validate_reference now p =
     (case valid_name 255 (rp_catalog p) of
        None \<Rightarrow> None
      | Some c \<Rightarrow>
          if captured_at_ok now (rp_captured_at p) \<and> between (-180) 180 (rp_hour_angle p) \<and>
             between (-180) 180 (rp_parallactic p) \<and> rp_branch p \<in> set branches
          then Some (p\<lparr>rp_catalog := c\<rparr>) else None)"

definition reference_patch_empty :: "reference_patch \<Rightarrow> bool" where
  "reference_patch_empty u \<longleftrightarrow> ru_captured_at u = None \<and> ru_site u = None \<and> ru_equipment u = None \<and>
     ru_hour_angle u = None \<and> ru_parallactic u = None \<and> ru_branch u = None"

definition validate_reference_patch :: "time \<Rightarrow> reference_patch \<Rightarrow> reference_patch option" where
  "validate_reference_patch now u =
     (if 1 \<le> ru_revision u \<and> \<not> reference_patch_empty u \<and> null_or (captured_at_ok now) (ru_captured_at u) \<and>
         null_or (between (-180) 180) (ru_hour_angle u) \<and> null_or (between (-180) 180) (ru_parallactic u) \<and>
         null_or (\<lambda>b. b \<in> set branches) (ru_branch u)
      then Some u else None)"

section \<open>The service\<close>

definition reference_change :: "time \<Rightarrow> change_operation \<Rightarrow> bool \<Rightarrow> framing_reference \<Rightarrow> db \<Rightarrow> db" where
  "reference_change now operation tombstone r d =
     append_change now astro ''MultiNightFramingReference'' (fr_id r) operation (Some (fr_revision r)) tombstone d"

definition site_active :: "string \<Rightarrow> db \<Rightarrow> bool" where
  "site_active site_id d \<longleftrightarrow> os_get site_id False (sites d) \<noteq> None"

definition equipment_usable :: "string \<Rightarrow> db \<Rightarrow> bool" where
  "equipment_usable equipment_id d \<longleftrightarrow>
     (case eq_get equipment_id False (equipments d) of None \<Rightarrow> False | Some e \<Rightarrow> eq_is_active e)"

definition reference_exists :: "framing_reference \<Rightarrow> master_error" where
  "reference_exists r = ReferenceExists (fr_id r) (fr_catalog r) (fr_equipment r)"

definition new_reference :: "time \<Rightarrow> reference_payload \<Rightarrow> framing_reference" where
  "new_reference now p = \<lparr>fr_id = rp_id p, fr_catalog = rp_catalog p, fr_captured_at = ct_instant (rp_captured_at p),
     fr_site = rp_site p, fr_equipment = rp_equipment p, fr_hour_angle = rp_hour_angle p,
     fr_parallactic = rp_parallactic p, fr_branch = rp_branch p, fr_revision = 1, fr_created_at = now,
     fr_updated_at = now, fr_deleted_at = None\<rparr>"

definition create_reference ::
  "time \<Rightarrow> reference_payload \<Rightarrow> db \<Rightarrow> db \<Rightarrow> (master_error + framing_reference) \<times> db" where
  "create_reference now p d0 d =
     (case fr_get (rp_id p) True (framing_references d0) of
        Some r \<Rightarrow> (if fr_deleted_at r \<noteq> None then Inl (ResourceTombstoned (rp_id p)) else Inr r, d)
      | None \<Rightarrow>
         if \<not> site_active (rp_site p) d0 then (Inl ActiveSiteNotFound, d)
         else if \<not> equipment_usable (rp_equipment p) d0 then (Inl UsableEquipmentNotFound, d)
         else (case find_active_identity (rp_catalog p) (rp_equipment p) None (framing_references d0) of
            Some r \<Rightarrow> (Inl (reference_exists r), d)
          | None \<Rightarrow>
             (case reference_insert (new_reference now p) d of
                Inr d' \<Rightarrow> (Inr (new_reference now p), reference_change now CREATE False (new_reference now p) d')
              | Inl _ \<Rightarrow>
                  (case fr_get (rp_id p) False (framing_references d) of
                     Some r \<Rightarrow> (Inr r, d)
                   | None \<Rightarrow>
                      (case find_active_identity (rp_catalog p) (rp_equipment p) None (framing_references d) of
                         Some r \<Rightarrow> (Inl (reference_exists r), d)
                       | None \<Rightarrow> (Inl AggregateConflict, d))))))"

definition get_reference :: "string \<Rightarrow> db \<Rightarrow> master_error + framing_reference" where
  "get_reference reference_id d =
     (case fr_get reference_id False (framing_references d) of None \<Rightarrow> Inl MasterNotFound | Some r \<Rightarrow> Inr r)"

definition list_references ::
  "string option \<Rightarrow> string option \<Rightarrow> db \<Rightarrow> master_error + framing_reference list" where
  "list_references catalog equipment_id d =
     (case catalog of
        Some c \<Rightarrow> if strip c = [] then Inl BlankCatalogFilter
                  else Inr (fr_list (Some (strip c)) equipment_id (framing_references d))
      | None \<Rightarrow> Inr (fr_list None equipment_id (framing_references d)))"

definition patched_reference :: "time \<Rightarrow> reference_patch \<Rightarrow> framing_reference \<Rightarrow> framing_reference" where
  "patched_reference now u r = r\<lparr>
     fr_captured_at := (case ru_captured_at u of None \<Rightarrow> fr_captured_at r | Some t \<Rightarrow> ct_instant t),
     fr_site := or_else (ru_site u) (fr_site r), fr_equipment := or_else (ru_equipment u) (fr_equipment r),
     fr_hour_angle := or_else (ru_hour_angle u) (fr_hour_angle r),
     fr_parallactic := or_else (ru_parallactic u) (fr_parallactic r), fr_branch := or_else (ru_branch u) (fr_branch r),
     fr_revision := fr_revision r + 1, fr_updated_at := now\<rparr>"

definition update_reference ::
  "time \<Rightarrow> string \<Rightarrow> reference_patch \<Rightarrow> db \<Rightarrow> db \<Rightarrow> (master_error + framing_reference) \<times> db" where
  "update_reference now reference_id u d0 d =
     (case fr_get reference_id False (framing_references d) of
        None \<Rightarrow> (Inl MasterNotFound, d)
      | Some r \<Rightarrow>
         if fr_revision r \<noteq> ru_revision u then (Inl (StaleRevision (fr_id r) (ru_revision u) (fr_revision r)), d)
         else if \<not> null_or (\<lambda>i. site_active i d0) (ru_site u) then (Inl ActiveSiteNotFound, d)
         else if \<not> null_or (\<lambda>i. equipment_usable i d0) (ru_equipment u) then (Inl UsableEquipmentNotFound, d)
         else let equipment_id = or_else (ru_equipment u) (fr_equipment r);
                  others = filter (\<lambda>x. fr_id x \<noteq> fr_id r) (framing_references d);
                  r' = patched_reference now u r
         in (case find_active_identity (fr_catalog r) equipment_id (Some (fr_id r)) (framing_references d0) of
               Some x \<Rightarrow> (Inl (reference_exists x), d)
             | None \<Rightarrow>
                (case reference_write others d r' of
                   Inr r' \<Rightarrow> (Inr r', reference_change now UPDATE False r'
                                (d\<lparr>framing_references := save_row fr_id r' (framing_references d)\<rparr>))
                 | Inl _ \<Rightarrow>
                    (case find_active_identity (fr_catalog r) equipment_id (Some reference_id) (framing_references d) of
                       Some x \<Rightarrow> (Inl (reference_exists x), d)
                     | None \<Rightarrow> (Inl AggregateConflict, d)))))"

definition delete_reference :: "time \<Rightarrow> string \<Rightarrow> int \<Rightarrow> db \<Rightarrow> (master_error + framing_reference) \<times> db" where
  "delete_reference now reference_id expected_revision d =
     (case fr_get reference_id False (framing_references d) of
        None \<Rightarrow> (Inl MasterNotFound, d)
      | Some r \<Rightarrow>
         if fr_revision r \<noteq> expected_revision
         then (Inl (StaleRevision (fr_id r) expected_revision (fr_revision r)), d)
         else let r' = r\<lparr>fr_deleted_at := Some now, fr_updated_at := now, fr_revision := fr_revision r + 1\<rparr>
              in (Inr r', reference_change now DELETE True r'
                     (d\<lparr>framing_references := save_row fr_id r' (framing_references d)\<rparr>)))"

definition post_reference ::
  "time \<Rightarrow> reference_payload \<Rightarrow> db \<Rightarrow> db \<Rightarrow> (master_error + framing_reference) \<times> db" where
  "post_reference now raw d0 d =
     (case validate_reference now raw of None \<Rightarrow> (Inl Unprocessable, d) | Some p \<Rightarrow> create_reference now p d0 d)"

definition patch_reference ::
  "time \<Rightarrow> string \<Rightarrow> reference_patch \<Rightarrow> db \<Rightarrow> db \<Rightarrow> (master_error + framing_reference) \<times> db" where
  "patch_reference now reference_id raw d0 d =
     (case validate_reference_patch now raw of
        None \<Rightarrow> (Inl Unprocessable, d) | Some u \<Rightarrow> update_reference now reference_id u d0 d)"

end
