(* ===== verification/MasterFeed.thy ===== *)
theory MasterFeed
  imports FramingReferences
begin

text \<open>
  The three master-data services together: what a sequence of their operations can reach, and
  that the change feed is a faithful log of it. \<open>master_step\<close> is one request; \<open>fresh\<close> says
  whether the reads a request makes before its writes see the state it writes to, or any
  other state, so that \<open>fresh = False\<close> covers every interleaving of sessions.
\<close>

inductive master_step :: "bool \<Rightarrow> (real \<Rightarrow> string) \<Rightarrow> db \<Rightarrow> db \<Rightarrow> bool"
  for fresh :: bool and float_text :: "real \<Rightarrow> string"
where
  Post_equipment: "fresh \<longrightarrow> d0 = d \<Longrightarrow> master_step fresh float_text d (snd (post_equipment float_text now q d0 d))"
| Patch_equipment: "master_step fresh float_text d (snd (patch_equipment float_text now i qu d))"
| Delete_equipment: "master_step fresh float_text d (snd (delete_equipment now i n d))"
| Post_site: "fresh \<longrightarrow> d0 = d \<Longrightarrow> master_step fresh float_text d (snd (post_site now s d0 d))"
| Patch_site: "fresh \<longrightarrow> d0 = d \<Longrightarrow> master_step fresh float_text d (snd (patch_site now i su d0 d))"
| Delete_site: "master_step fresh float_text d (snd (delete_site now i n d))"
| Post_reference: "fresh \<longrightarrow> d0 = d \<Longrightarrow> master_step fresh float_text d (snd (post_reference now r d0 d))"
| Patch_reference: "fresh \<longrightarrow> d0 = d \<Longrightarrow> master_step fresh float_text d (snd (patch_reference now i ru d0 d))"
| Delete_reference: "master_step fresh float_text d (snd (delete_reference now i n d))"

inductive master_reach :: "bool \<Rightarrow> (real \<Rightarrow> string) \<Rightarrow> db \<Rightarrow> bool"
  for fresh :: bool and float_text :: "real \<Rightarrow> string"
where
  Start: "master_reach fresh float_text empty_db"
| Step: "master_reach fresh float_text d \<Longrightarrow> master_step fresh float_text d d' \<Longrightarrow> master_reach fresh float_text d'"

section \<open>What the writes touch\<close>

lemma append_change_frame [simp]:
  "equipments (append_change now s t i op n tb d) = equipments d"
  "sites (append_change now s t i op n tb d) = sites d"
  "framing_references (append_change now s t i op n tb d) = framing_references d"
  "eyepieces (append_change now s t i op n tb d) = eyepieces d"
  "capabilities (append_change now s t i op n tb d) = capabilities d"
  "exposure_values (append_change now s t i op n tb d) = exposure_values d"
  "horizon_points (append_change now s t i op n tb d) = horizon_points d"
  "blocked_ranges (append_change now s t i op n tb d) = blocked_ranges d"
  by (simp_all add: append_change_def)

interpretation eqt: revisioned_table equipments eq_id eq_revision eq_deleted_at "''Equipment''"
  by unfold_locales simp

interpretation ost: revisioned_table sites os_id os_revision os_deleted_at "''ObservationSite''"
  by unfold_locales simp

interpretation frt: revisioned_table framing_references fr_id fr_revision fr_deleted_at "''MultiNightFramingReference''"
  by unfold_locales simp

definition master_sync :: "db \<Rightarrow> bool" where
  "master_sync d \<longleftrightarrow> eqt.in_sync d \<and> ost.in_sync d \<and> frt.in_sync d"

definition master_evolves :: "db \<Rightarrow> db \<Rightarrow> bool" where
  "master_evolves d d' \<longleftrightarrow> eqt.evolves d d' \<and> ost.evolves d d' \<and> frt.evolves d d'"

lemma master_evolves_refl [simp]: "master_sync d \<Longrightarrow> master_evolves d d"
  by (simp add: master_sync_def master_evolves_def eqt.evolves_refl ost.evolves_refl frt.evolves_refl)

lemma master_evolves_trans: "master_evolves d1 d2 \<Longrightarrow> master_evolves d2 d3 \<Longrightarrow> master_evolves d1 d3"
  unfolding master_evolves_def by (meson eqt.evolves_trans ost.evolves_trans frt.evolves_trans)

lemma master_evolves_sync: "master_evolves d d' \<Longrightarrow> master_sync d'"
  by (simp add: master_sync_def master_evolves_def eqt.evolves_def ost.evolves_def frt.evolves_def)

text \<open>Writing children leaves the parents and the feed alone.\<close>

definition same_parents :: "db \<Rightarrow> db \<Rightarrow> bool" where
  "same_parents d d' \<longleftrightarrow> equipments d' = equipments d \<and> sites d' = sites d \<and>
     framing_references d' = framing_references d \<and> changes d' = changes d"

lemma same_parents_refl [simp]: "same_parents d d"
  by (simp add: same_parents_def)

lemma same_parents_trans: "same_parents d1 d2 \<Longrightarrow> same_parents d2 d3 \<Longrightarrow> same_parents d1 d3"
  by (simp add: same_parents_def)

lemma replace_eyepieces_parents: "replace_eyepieces i ys d = Inr d' \<Longrightarrow> same_parents d d'"
  by (auto simp: replace_eyepieces_def same_parents_def)

lemma replace_capability_parents: "replace_capability i m x d = Inr d' \<Longrightarrow> same_parents d d'"
  by (auto simp: replace_capability_def same_parents_def Let_def split: option.splits)

lemma replace_horizon_points_parents: "replace_horizon_points i hs d = Inr d' \<Longrightarrow> same_parents d d'"
  by (auto simp: replace_horizon_points_def same_parents_def)

lemma replace_blocked_ranges_parents: "replace_blocked_ranges i bs d = Inr d' \<Longrightarrow> same_parents d d'"
  by (auto simp: replace_blocked_ranges_def same_parents_def)

lemma when_set_parents:
  "when_set x f d = Inr d' \<Longrightarrow> (\<And>d'. f d = Inr d' \<Longrightarrow> same_parents d d') \<Longrightarrow> same_parents d d'"
  by (auto simp: when_set_def split: if_splits)

lemma when_set_children_parents:
  "when_set x (replace_eyepieces i ys) d = Inr d' \<Longrightarrow> same_parents d d'"
  "when_set x (replace_capability i m v) d = Inr d' \<Longrightarrow> same_parents d d'"
  "when_set x (replace_horizon_points i hs) d = Inr d' \<Longrightarrow> same_parents d d'"
  "when_set x (replace_blocked_ranges i bs) d = Inr d' \<Longrightarrow> same_parents d d'"
  by (auto elim!: when_set_parents intro: replace_eyepieces_parents replace_capability_parents
      replace_horizon_points_parents replace_blocked_ranges_parents)

lemmas children_parents = replace_eyepieces_parents replace_capability_parents
  replace_horizon_points_parents replace_blocked_ranges_parents when_set_children_parents

lemma delete_children_parents:
  "delete_equipment_children i d = Inr d' \<Longrightarrow> same_parents d d'"
  "delete_site_children i d = Inr d' \<Longrightarrow> same_parents d d'"
  by (auto simp: delete_equipment_children_def delete_site_children_def
      dest!: children_parents elim!: same_parents_trans)

text \<open>The shape of a successful write: the parent row, then its event.\<close>

lemma insert_equipment_shape:
  assumes "insert_equipment now p d = Inr d'"
  shows "\<exists>d1. d' = equipment_change now CREATE False (new_equipment now p) d1 \<and>
    same_parents (d\<lparr>equipments := equipments d @ [new_equipment now p]\<rparr>) d1 \<and>
    qp_id p \<notin> eq_id ` set (equipments d)"
proof -
  have new: "eq_id (new_equipment now p) = qp_id p" by (simp add: new_equipment_def set_parent_def)
  show ?thesis using assms
    by (auto simp: insert_equipment_def equipment_insert_def equipment_write_def new split: if_splits dest!: children_parents)
      (metis same_parents_trans)
qed

lemma write_equipment_shape:
  assumes "write_equipment now u p e d = Inr d'"
  defines "e' \<equiv> (set_parent p e)\<lparr>eq_revision := eq_revision e + 1, eq_updated_at := now\<rparr>"
  shows "\<exists>d1. d' = equipment_change now UPDATE False e' d1 \<and>
    same_parents (d\<lparr>equipments := save_row eq_id e' (equipments d)\<rparr>) d1"
  using assms(1) unfolding write_equipment_def Let_def e'_def[symmetric] equipment_write_def
  by (auto split: if_splits dest!: children_parents) (metis same_parents_trans)

lemma insert_site_shape:
  assumes "insert_site now p d = Inr d'"
  shows "\<exists>d1. d' = site_change now CREATE False (new_site now p) d1 \<and>
    same_parents (d\<lparr>sites := sites d @ [new_site now p]\<rparr>) d1 \<and> sp_id p \<notin> os_id ` set (sites d) \<and>
    null_or (\<lambda>e. e \<in> eq_id ` set (equipments d)) (sp_equipment p)"
proof -
  have new: "os_id (new_site now p) = sp_id p" "os_equipment (new_site now p) = sp_equipment p"
    by (simp_all add: new_site_def set_site_def)
  show ?thesis using assms
    by (auto simp: insert_site_def site_insert_def site_write_def new dest!: children_parents)
      (metis same_parents_trans)
qed

lemma write_site_shape:
  assumes "write_site now u p s d = Inr (s', d')"
  defines "r \<equiv> (set_site p s)\<lparr>os_revision := os_revision s + 1, os_updated_at := now\<rparr>"
  shows "s' = r \<and> (\<exists>d1. d' = site_change now UPDATE False r d1 \<and>
    same_parents (d\<lparr>sites := save_row os_id r (sites d)\<rparr>) d1)"
  using assms(1) unfolding write_site_def Let_def r_def[symmetric] site_write_def
  by (auto dest!: children_parents) (metis same_parents_trans)

section \<open>Every operation keeps the feed and the tables together\<close>

lemma os_get_SomeD: "os_get i inc rows = Some s \<Longrightarrow> s \<in> set rows \<and> os_id s = i \<and> (inc \<or> os_deleted_at s = None)"
  by (auto simp: os_get_def dest: find_SomeD)

lemma eq_get_SomeD: "eq_get i inc rows = Some e \<Longrightarrow> e \<in> set rows \<and> eq_id e = i \<and> (inc \<or> eq_deleted_at e = None)"
  by (auto simp: eq_get_def dest: find_SomeD)

lemma fr_get_SomeD: "fr_get i inc rows = Some r \<Longrightarrow> r \<in> set rows \<and> fr_id r = i \<and> (inc \<or> fr_deleted_at r = None)"
  by (auto simp: fr_get_def dest: find_SomeD)

lemma key_mem: "x \<in> set rows \<Longrightarrow> key x = k \<Longrightarrow> k \<in> key ` set rows"
  by auto

lemma equipment_insert_evolves:
  assumes "master_sync d" and "same_parents (d\<lparr>equipments := equipments d @ [e]\<rparr>) d1"
    and "eq_id e \<notin> eq_id ` set (equipments d)" and "eq_deleted_at e = None" and "eq_revision e = 1"
  shows "master_evolves d (equipment_change now CREATE False e d1)"
  using assms unfolding master_sync_def master_evolves_def equipment_change_def same_parents_def
  by (intro conjI eqt.evolves_insert ost.evolves_other frt.evolves_other) simp_all

lemma equipment_save_evolves:
  assumes "master_sync d" and "same_parents (d\<lparr>equipments := save_row eq_id e (equipments d)\<rparr>) d1"
    and "old \<in> set (equipments d)" and "eq_id old = eq_id e" and "eq_deleted_at old = None"
    and "eq_revision e = eq_revision old + 1" and "tb = (eq_deleted_at e \<noteq> None)"
  shows "master_evolves d (equipment_change now op tb e d1)"
  using assms unfolding master_sync_def master_evolves_def equipment_change_def same_parents_def
  by (intro conjI eqt.evolves_save[of _ _ _ old] ost.evolves_other frt.evolves_other) simp_all

lemma site_insert_evolves:
  assumes "master_sync d" and "same_parents (d\<lparr>sites := sites d @ [s]\<rparr>) d1"
    and "os_id s \<notin> os_id ` set (sites d)" and "os_deleted_at s = None" and "os_revision s = 1"
  shows "master_evolves d (site_change now CREATE False s d1)"
  using assms unfolding master_sync_def master_evolves_def site_change_def same_parents_def
  by (intro conjI ost.evolves_insert eqt.evolves_other frt.evolves_other) simp_all

lemma site_save_evolves:
  assumes "master_sync d" and "same_parents (d\<lparr>sites := save_row os_id s (sites d)\<rparr>) d1"
    and "old \<in> set (sites d)" and "os_id old = os_id s" and "os_deleted_at old = None"
    and "os_revision s = os_revision old + 1" and "tb = (os_deleted_at s \<noteq> None)"
  shows "master_evolves d (site_change now op tb s d1)"
  using assms unfolding master_sync_def master_evolves_def site_change_def same_parents_def
  by (intro conjI ost.evolves_save[of _ _ _ old] eqt.evolves_other frt.evolves_other) simp_all

lemma reference_save_evolves:
  assumes "master_sync d" and "old \<in> set (framing_references d)" and "fr_id old = fr_id r"
    and "fr_deleted_at old = None" and "fr_revision r = fr_revision old + 1" and "tb = (fr_deleted_at r \<noteq> None)"
  shows "master_evolves d
    (reference_change now op tb r (d\<lparr>framing_references := save_row fr_id r (framing_references d)\<rparr>))"
  using assms unfolding master_sync_def master_evolves_def reference_change_def
  by (intro conjI frt.evolves_save[of _ _ _ old] eqt.evolves_other ost.evolves_other) simp_all

lemma reference_insert_evolves:
  assumes "master_sync d" and "fr_id r \<notin> fr_id ` set (framing_references d)" and "fr_deleted_at r = None"
    and "fr_revision r = 1"
  shows "master_evolves d
    (reference_change now CREATE False r (d\<lparr>framing_references := framing_references d @ [r]\<rparr>))"
  using assms unfolding master_sync_def master_evolves_def reference_change_def
  by (intro conjI frt.evolves_insert eqt.evolves_other ost.evolves_other) simp_all

lemma new_row_keys [simp]:
  "eq_id (new_equipment now q) = qp_id q" "eq_deleted_at (new_equipment now q) = None"
  "eq_revision (new_equipment now q) = 1" "eq_id (set_parent q e) = eq_id e"
  "eq_deleted_at (set_parent q e) = eq_deleted_at e" "eq_revision (set_parent q e) = eq_revision e"
  "os_id (new_site now p) = sp_id p" "os_deleted_at (new_site now p) = None" "os_revision (new_site now p) = 1"
  "os_equipment (new_site now p) = sp_equipment p" "os_id (set_site p s) = os_id s"
  "os_deleted_at (set_site p s) = os_deleted_at s" "os_revision (set_site p s) = os_revision s"
  "os_equipment (set_site p s) = sp_equipment p"
  "fr_id (new_reference now r) = rp_id r" "fr_deleted_at (new_reference now r) = None"
  "fr_revision (new_reference now r) = 1" "fr_id (patched_reference now u x) = fr_id x"
  "fr_deleted_at (patched_reference now u x) = fr_deleted_at x"
  "fr_revision (patched_reference now u x) = fr_revision x + 1"
  by (simp_all add: new_equipment_def set_parent_def new_site_def set_site_def new_reference_def patched_reference_def)

lemma post_equipment_evolves: "master_sync d \<Longrightarrow> master_evolves d (snd (post_equipment ft now q d0 d))"
  by (auto simp: post_equipment_def create_equipment_def split: option.splits sum.splits flush_error.splits
      dest!: insert_equipment_shape intro: equipment_insert_evolves)

lemma patch_equipment_evolves: "master_sync d \<Longrightarrow> master_evolves d (snd (patch_equipment ft now i u d))"
  by (auto simp: patch_equipment_def update_equipment_def split: option.splits sum.splits flush_error.splits
      dest!: write_equipment_shape eq_get_SomeD intro: equipment_save_evolves)

lemma sites_using_mem: "s \<in> set (sites_using i rows) \<longleftrightarrow> s \<in> set rows \<and> os_deleted_at s = None \<and> os_equipment s = Some i"
  by (auto simp: sites_using_def)

lemma detach_site_evolves:
  assumes "master_sync d" and "s \<in> set (sites d)" and "os_deleted_at s = None"
  shows "master_evolves d (detach_site now s d)"
  using assms unfolding detach_site_def Let_def by (auto intro!: site_save_evolves[of _ _ _ s])

lemma detach_site_frame [simp]:
  "equipments (detach_site now s d) = equipments d" "framing_references (detach_site now s d) = framing_references d"
  "x \<in> set (sites d) \<Longrightarrow> os_id x \<noteq> os_id s \<Longrightarrow> x \<in> set (sites (detach_site now s d))"
  by (auto simp: detach_site_def Let_def site_change_def set_save_row)

lemma fold_detach_frame [simp]:
  "equipments (fold (detach_site now) ss d) = equipments d"
  "framing_references (fold (detach_site now) ss d) = framing_references d"
  by (induction ss arbitrary: d) simp_all

lemma fold_detach_evolves:
  assumes "master_sync d" and "list_all (\<lambda>s. s \<in> set (sites d) \<and> os_deleted_at s = None) ss"
    and "distinct (map os_id ss)"
  shows "master_evolves d (fold (detach_site now) ss d)"
  using assms
proof (induction ss arbitrary: d)
  case (Cons s ss)
  then have first: "master_evolves d (detach_site now s d)" by (intro detach_site_evolves) auto
  have "os_id x \<noteq> os_id s" if "x \<in> set ss" for x using Cons.prems that by (auto simp: image_iff)
  then have "list_all (\<lambda>x. x \<in> set (sites (detach_site now s d)) \<and> os_deleted_at x = None) ss"
    using Cons.prems by (auto simp: list_all_iff)
  with Cons first show ?case using master_evolves_sync master_evolves_trans by fastforce
qed simp

lemma delete_equipment_evolves:
  assumes "master_sync d"
  shows "master_evolves d (snd (delete_equipment now i n d))"
proof (cases "eq_get i False (equipments d)")
  case (Some e)
  let ?d1 = "fold (detach_site now) (sites_using (eq_id e) (sites d)) d"
  have "distinct (map os_id (sites_using (eq_id e) (sites d)))"
    using assms by (simp add: sites_using_def master_sync_def ost.in_sync_def distinct_map_filter)
  then have detached: "master_evolves d ?d1"
    using assms by (intro fold_detach_evolves) (auto simp: sites_using_mem list_all_iff)
  have "master_evolves ?d1 (equipment_change now DELETE True e'
      (d2\<lparr>equipments := save_row eq_id e' (equipments d2)\<rparr>))"
    if "same_parents ?d1 d2" and "e' = e\<lparr>eq_deleted_at := Some now, eq_updated_at := now, eq_revision := eq_revision e + 1\<rparr>"
    for d2 e'
    using that eq_get_SomeD[OF Some] master_evolves_sync[OF detached]
    by (intro equipment_save_evolves[of _ _ _ e]) (auto simp: same_parents_def)
  with detached assms Some show ?thesis
    by (auto simp: delete_equipment_def Let_def split: sum.splits dest!: delete_children_parents
        intro: master_evolves_trans)
qed (simp add: delete_equipment_def assms)

lemma post_site_evolves: "master_sync d \<Longrightarrow> master_evolves d (snd (post_site now q d0 d))"
  by (auto simp: post_site_def create_site_def split: option.splits sum.splits flush_error.splits
      dest!: insert_site_shape intro: site_insert_evolves)

lemma patch_site_evolves: "master_sync d \<Longrightarrow> master_evolves d (snd (patch_site now i u d0 d))"
  by (auto simp: patch_site_def update_site_def split: option.splits sum.splits flush_error.splits prod.splits
      dest!: write_site_shape os_get_SomeD intro: site_save_evolves)

lemma delete_site_evolves: "master_sync d \<Longrightarrow> master_evolves d (snd (delete_site now i n d))"
  by (auto simp: delete_site_def Let_def same_parents_def split: option.splits sum.splits
      dest!: delete_children_parents os_get_SomeD intro: site_save_evolves)

lemma post_reference_evolves: "master_sync d \<Longrightarrow> master_evolves d (snd (post_reference now r d0 d))"
  by (auto simp: post_reference_def create_reference_def reference_insert_def reference_write_def
      split: option.splits sum.splits intro: reference_insert_evolves)

lemma patch_reference_evolves: "master_sync d \<Longrightarrow> master_evolves d (snd (patch_reference now i u d0 d))"
  by (auto simp: patch_reference_def update_reference_def reference_write_def Let_def
      split: option.splits sum.splits dest!: fr_get_SomeD intro: reference_save_evolves)

lemma delete_reference_evolves: "master_sync d \<Longrightarrow> master_evolves d (snd (delete_reference now i n d))"
  by (auto simp: delete_reference_def Let_def split: option.splits
      dest!: fr_get_SomeD intro: reference_save_evolves)

lemmas requests_evolve = post_equipment_evolves patch_equipment_evolves delete_equipment_evolves post_site_evolves
  patch_site_evolves delete_site_evolves post_reference_evolves patch_reference_evolves delete_reference_evolves

lemma master_step_evolves: "master_step fresh ft d d' \<Longrightarrow> master_sync d \<Longrightarrow> master_evolves d d'"
  by (induction rule: master_step.induct) (simp_all add: requests_evolve)

lemma master_reach_sync: "master_reach fresh ft d \<Longrightarrow> master_sync d"
proof (induction rule: master_reach.induct)
  case Start
  show ?case by (simp add: master_sync_def eqt.in_sync_def ost.in_sync_def frt.in_sync_def empty_db_def
      feed_ledger_def row_ledger_def fun_eq_iff)
next
  case (Step d d')
  then show ?case using master_step_evolves master_evolves_sync by blast
qed

end
