(* ===== verification/MasterLaws.thy ===== *)
theory MasterLaws
  imports MasterFeed
begin

text \<open>
  The properties of the master-data services: the feed and the revision ledger, the default
  equipment of a site, what a stored aggregate reads back as, and three requests the services
  do not answer as they should.
\<close>

section \<open>The default equipment of a site\<close>

definition active_equipment :: "db \<Rightarrow> string set" where
  "active_equipment d = eq_id ` {e \<in> set (equipments d). eq_deleted_at e = None}"

definition defaults_active :: "db \<Rightarrow> bool" where
  "defaults_active d \<longleftrightarrow>
     (\<forall>s\<in>set (sites d). os_deleted_at s = None \<longrightarrow> null_or (\<lambda>i. i \<in> active_equipment d) (os_equipment s))"

lemma null_or_mono: "null_or P x \<Longrightarrow> (\<And>v. P v \<Longrightarrow> Q v) \<Longrightarrow> null_or Q x"
  by (cases x) (auto simp: null_or_def)

lemma null_or_simps [simp]: "null_or P None" "null_or P (Some v) = P v"
  by (simp_all add: null_or_def)

lemma defaults_active_cong:
  "defaults_active d \<Longrightarrow> sites d' = sites d \<Longrightarrow> active_equipment d \<subseteq> active_equipment d' \<Longrightarrow> defaults_active d'"
  unfolding defaults_active_def by (metis null_or_mono subsetD)

lemma defaults_active_same: "defaults_active d \<Longrightarrow> sites d' = sites d \<Longrightarrow> equipments d' = equipments d \<Longrightarrow> defaults_active d'"
  by (simp add: defaults_active_def active_equipment_def)

lemma default_equipment_ok_iff: "default_equipment_ok e d \<longleftrightarrow> null_or (\<lambda>i. i \<in> active_equipment d) e"
proof (cases e)
  case (Some i)
  have "eq_get i False (equipments d) \<noteq> None \<longleftrightarrow> (\<exists>x\<in>set (equipments d). eq_id x = i \<and> eq_deleted_at x = None)"
    by (auto simp: eq_get_def find_None_iff)
  with Some show ?thesis by (auto simp: default_equipment_ok_def active_equipment_def)
qed (simp add: default_equipment_ok_def)

lemma defaults_active_add_site:
  assumes "defaults_active d" and "set (sites d') \<subseteq> insert s (set (sites d))" and "equipments d' = equipments d"
    and "os_deleted_at s = None \<Longrightarrow> default_equipment_ok (os_equipment s) d"
  shows "defaults_active d'"
  using assms unfolding defaults_active_def active_equipment_def default_equipment_ok_iff by auto

lemma set_save_row_subset: "set (save_row key r rows) \<subseteq> insert r (set rows)"
  using set_save_rowD by fastforce

lemma post_equipment_defaults: "defaults_active d \<Longrightarrow> defaults_active (snd (post_equipment ft now q d0 d))"
  by (auto simp: post_equipment_def create_equipment_def equipment_change_def same_parents_def
      active_equipment_def split: option.splits sum.splits flush_error.splits
      dest!: insert_equipment_shape elim!: defaults_active_cong)

lemma active_equipment_save:
  assumes "eq_deleted_at e' = None"
  shows "active_equipment d \<subseteq> eq_id ` {x \<in> set (save_row eq_id e' (equipments d)). eq_deleted_at x = None}"
proof
  fix i assume "i \<in> active_equipment d"
  then obtain x where x: "x \<in> set (equipments d)" "eq_deleted_at x = None" "i = eq_id x"
    by (auto simp: active_equipment_def)
  show "i \<in> eq_id ` {x \<in> set (save_row eq_id e' (equipments d)). eq_deleted_at x = None}"
  proof (cases "eq_id x = eq_id e'")
    case True
    then have "e' \<in> set (save_row eq_id e' (equipments d))"
      using x(1) by (auto simp: save_row_def set_update_where intro!: rev_image_eqI[of x])
    then show ?thesis using x(3) True assms by (auto intro: rev_image_eqI[of e'])
  next
    case False
    then have "x \<in> set (save_row eq_id e' (equipments d))"
      using x(1) by (auto simp: save_row_def set_update_where intro!: rev_image_eqI[of x])
    then show ?thesis using x by auto
  qed
qed

lemma defaults_active_save_equipment:
  assumes "defaults_active d" and "sites d' = sites d" and "equipments d' = save_row eq_id e' (equipments d)"
    and "eq_deleted_at e' = None"
  shows "defaults_active d'"
  using assms(1,2)
proof (rule defaults_active_cong)
  show "active_equipment d \<subseteq> active_equipment d'"
    using active_equipment_save[OF assms(4)] assms(3) by (simp add: active_equipment_def[of d'])
qed

lemma patch_equipment_defaults:
  assumes "defaults_active d"
  shows "defaults_active (snd (patch_equipment ft now i u d))"
proof -
  have "defaults_active d'" if "write_equipment now v p e d = Inr d'" and "eq_get i False (equipments d) = Some e"
    for d' v p e
    using write_equipment_shape[OF that(1)] eq_get_SomeD[OF that(2)] assms
    by (auto simp: equipment_change_def same_parents_def intro: defaults_active_save_equipment)
  with assms show ?thesis
    by (auto simp: patch_equipment_def update_equipment_def split: option.splits sum.splits flush_error.splits)
qed

text \<open>Detaching the sites of an equipment leaves no active site on it.\<close>

lemma detach_site_mem:
  assumes "x \<in> set (sites (detach_site now s d))" and "s \<in> set (sites d)"
  shows "x \<in> set (sites d) \<and> x \<noteq> s \<or> os_equipment x = None"
proof -
  let ?s = "s\<lparr>os_equipment := None, os_revision := os_revision s + 1, os_updated_at := now\<rparr>"
  have "x = ?s \<or> x \<in> set (sites d) \<and> os_id x \<noteq> os_id s"
    using assms by (auto simp: detach_site_def Let_def site_change_def set_save_row)
  then show ?thesis
  proof
    assume "x = ?s"
    then have "os_equipment x = None" by simp
    then show ?thesis ..
  qed auto
qed

lemma fold_detach_sites:
  assumes "x \<in> set (sites (fold (detach_site now) ss d))"
    and "distinct (map os_id (sites d))" and "distinct (map os_id ss)" and "set ss \<subseteq> set (sites d)"
  shows "x \<in> set (sites d) \<and> x \<notin> set ss \<or> os_equipment x = None"
  using assms
proof (induction ss arbitrary: d)
  case (Cons s ss)
  let ?d = "detach_site now s d"
  have ids: "map os_id (sites ?d) = map os_id (sites d)" by (simp add: detach_site_def Let_def site_change_def)
  have "set ss \<subseteq> set (sites ?d)"
  proof
    fix y assume y: "y \<in> set ss"
    then have "os_id y \<noteq> os_id s" using Cons.prems(3) by (auto simp: image_iff)
    then show "y \<in> set (sites ?d)" using y Cons.prems(4) by (intro detach_site_frame(3)) auto
  qed
  moreover have "distinct (map os_id (sites ?d))" "distinct (map os_id ss)" "x \<in> set (sites (fold (detach_site now) ss ?d))"
    using ids Cons.prems by simp_all
  ultimately have "x \<in> set (sites ?d) \<and> x \<notin> set ss \<or> os_equipment x = None" by (intro Cons.IH)
  then show ?case using detach_site_mem[of x now s d] Cons.prems(4) by auto
qed simp

lemma delete_equipment_defaults:
  assumes "defaults_active d" and "master_sync d"
  shows "defaults_active (snd (delete_equipment now i n d))"
proof (cases "eq_get i False (equipments d)")
  case (Some e)
  let ?ss = "sites_using (eq_id e) (sites d)"
  let ?d1 = "fold (detach_site now) ?ss d"
  have ids: "distinct (map os_id (sites d))" using assms(2) by (simp add: master_sync_def ost.in_sync_def)
  then have "distinct (map os_id ?ss)" by (simp add: sites_using_def distinct_map_filter)
  then have detached: "x \<in> set (sites d) \<and> x \<notin> set ?ss \<or> os_equipment x = None" if "x \<in> set (sites ?d1)" for x
    using that ids by (intro fold_detach_sites) (auto simp: sites_using_mem)
  have "null_or (\<lambda>j. j \<in> active_equipment d' ) (os_equipment x)"
    if "x \<in> set (sites ?d1)" and "os_deleted_at x = None" and "eq_deleted_at e' \<noteq> None" and "eq_id e' = eq_id e"
      and "equipments d' = save_row eq_id e' (equipments d)" for x d' e'
  proof (cases "os_equipment x")
    case (Some j)
    then have x: "x \<in> set (sites d)" "x \<notin> set ?ss" using detached[OF that(1)] by auto
    then have "j \<noteq> eq_id e" using Some that(2) by (auto simp: sites_using_mem)
    moreover have "j \<in> active_equipment d" using assms(1) x(1) that(2) Some by (auto simp: defaults_active_def)
    ultimately show ?thesis using Some that(4,5)
      by (auto simp: active_equipment_def save_row_def set_update_where intro!: rev_image_eqI)
  qed simp
  then have kept: "defaults_active d'" if "sites d' = sites ?d1" and "equipments d' = save_row eq_id e' (equipments d)"
      and "eq_deleted_at e' \<noteq> None" and "eq_id e' = eq_id e" for d' e'
    using that unfolding defaults_active_def by metis
  show ?thesis using assms Some
    by (auto simp: delete_equipment_def Let_def equipment_change_def same_parents_def
        split: sum.splits dest!: delete_children_parents
        intro!: kept[of _ "e\<lparr>eq_deleted_at := Some now, eq_updated_at := now, eq_revision := eq_revision e + 1\<rparr>"])
qed (simp add: delete_equipment_def assms)

lemma post_site_defaults: "defaults_active d \<Longrightarrow> defaults_active (snd (post_site now q d d))"
  by (auto simp: post_site_def create_site_def site_change_def same_parents_def
      split: option.splits sum.splits flush_error.splits
      dest!: insert_site_shape elim!: defaults_active_add_site)

lemma patch_site_defaults: 
  assumes "defaults_active d"
  shows "defaults_active (snd (patch_site now i u d d))"
proof -
  have "defaults_active d'"
    if w: "write_site now v p s d = Inr (s', d')" and ok: "default_equipment_ok (sp_equipment p) d" for v p s s' d'
  proof -
    define r where "r = (set_site p s)\<lparr>os_revision := os_revision s + 1, os_updated_at := now\<rparr>"
    from write_site_shape[OF w] obtain d1 where d1: "d' = site_change now UPDATE False r d1"
      "same_parents (d\<lparr>sites := save_row os_id r (sites d)\<rparr>) d1" by (auto simp: r_def)
    have "os_equipment r = sp_equipment p" by (simp add: r_def)
    with assms d1 ok show ?thesis
      by (intro defaults_active_add_site[of d d' r]) (auto simp: site_change_def same_parents_def dest: set_save_rowD)
  qed
  with assms show ?thesis
    by (auto simp: patch_site_def update_site_def split: option.splits sum.splits flush_error.splits prod.splits)
qed

lemma delete_site_defaults: "defaults_active d \<Longrightarrow> defaults_active (snd (delete_site now i n d))"
  by (auto simp: delete_site_def Let_def same_parents_def site_change_def split: option.splits sum.splits
      dest!: delete_children_parents elim!: defaults_active_add_site dest: set_save_rowD)

lemma reference_requests_defaults:
  "defaults_active d \<Longrightarrow> defaults_active (snd (post_reference now q d0 d))"
  "defaults_active d \<Longrightarrow> defaults_active (snd (patch_reference now i u d0 d))"
  "defaults_active d \<Longrightarrow> defaults_active (snd (delete_reference now i n d))"
  by (auto simp: post_reference_def create_reference_def reference_insert_def reference_write_def reference_change_def
      patch_reference_def update_reference_def delete_reference_def Let_def
      split: option.splits sum.splits elim!: defaults_active_same)

lemma master_step_defaults:
  "master_step True ft d d' \<Longrightarrow> master_sync d \<Longrightarrow> defaults_active d \<Longrightarrow> defaults_active d'"
  by (induction rule: master_step.induct)
    (simp_all add: post_equipment_defaults patch_equipment_defaults delete_equipment_defaults post_site_defaults
      patch_site_defaults delete_site_defaults reference_requests_defaults)

lemma master_reach_defaults: "master_reach True ft d \<Longrightarrow> defaults_active d"
proof (induction rule: master_reach.induct)
  case Start
  show ?case by (simp add: defaults_active_def empty_db_def)
qed (use master_step_defaults master_reach_sync in blast)

section \<open>An example run\<close>

definition demo_equipment :: "json equipment_payload" where
  "demo_equipment = \<lparr>qp_id = ''e1'', qp_name = '' S50 '', qp_kind = ''smartTelescope'', qp_purpose = ''imaging'',
     qp_is_active = True, qp_focal_length = Some 250, qp_aperture = Some 50, qp_fov_width = None, qp_fov_height = None,
     qp_sort_order = 0, qp_eyepieces = [], qp_az = None, qp_eq = None, qp_capture = None\<rparr>"

definition demo_site :: site_payload where
  "demo_site = \<lparr>sp_id = ''s1'', sp_name = ''Hill'', sp_latitude = 37, sp_longitude = 128, sp_address = None,
     sp_bortle = Some 3, sp_sqm = None, sp_brightness = None, sp_is_favorite = True, sp_tracking_mode = ''altAz'',
     sp_equipment = Some ''e1'', sp_min_altitude = 20, sp_max_altitude = Some 70, sp_preferred_start = None,
     sp_preferred_end = None, sp_memo = [], sp_horizon = [], sp_blocked = []\<rparr>"

definition demo_equipment_row :: equipment where
  "demo_equipment_row = \<lparr>eq_id = ''e1'', eq_name = ''S50'', eq_kind = ''smartTelescope'', eq_purpose = ''imaging'',
     eq_is_active = True, eq_focal_length = Some 250, eq_aperture = Some 50, eq_fov_width = None, eq_fov_height = None,
     eq_capture = None, eq_sort_order = 0, eq_revision = 1, eq_created_at = 5, eq_updated_at = 5, eq_deleted_at = None\<rparr>"

definition demo_site_row :: observation_site where
  "demo_site_row = \<lparr>os_id = ''s1'', os_name = ''Hill'', os_latitude = 37, os_longitude = 128, os_address = None,
     os_bortle = Some 3, os_sqm = None, os_brightness = None, os_is_favorite = True, os_tracking_mode = ''altAz'',
     os_equipment = Some ''e1'', os_min_altitude = 20, os_max_altitude = Some 70, os_preferred_start = None,
     os_preferred_end = None, os_memo = [], os_revision = 1, os_created_at = 7, os_updated_at = 7, os_deleted_at = None\<rparr>"

definition db_with_equipment :: db where
  "db_with_equipment = equipment_change 5 CREATE False demo_equipment_row (empty_db\<lparr>equipments := [demo_equipment_row]\<rparr>)"

lemmas strip_eval = strip_def strip_while_def lstrip_while_def rstrip_while_def is_space_def

lemma demo_post_equipment:
  "snd (post_equipment ft 5 demo_equipment d0 empty_db) =
     (if eq_get ''e1'' True (equipments d0) = None then db_with_equipment else empty_db)"
  by (simp add: post_equipment_def validate_equipment_def demo_equipment_def valid_name_def strip_eval optional_def
      equipment_kinds_def equipment_purposes_def null_or_positive_def children_ok_def create_equipment_def
      insert_equipment_def equipment_insert_def equipment_write_def equipment_checks_def new_equipment_def set_parent_def
      fits_integer_def replace_eyepieces_def eyepiece_values_def replace_capability_def find_capability_def
      db_with_equipment_def demo_equipment_row_def empty_db_def delete_where_def eq_get_def split: option.splits)

definition db_with_site :: "db \<Rightarrow> db" where
  "db_with_site d = site_change 7 CREATE False demo_site_row (d\<lparr>sites := sites d @ [demo_site_row]\<rparr>)"

lemma demo_post_site:
  assumes "os_get ''s1'' True (sites d0) = None" and "eq_get ''e1'' False (equipments d0) \<noteq> None"
    and "''s1'' \<notin> os_id ` set (sites d)" and "''e1'' \<in> eq_id ` set (equipments d)"
    and "horizon_points d = []" and "blocked_ranges d = []"
  shows "snd (post_site 7 demo_site d0 d) = db_with_site d"
proof -
  have "validate_site demo_site = Some demo_site"
    by (simp add: validate_site_def demo_site_def valid_name_def strip_eval normalize_optional_text_def
        normalize_local_time_def between_def null_or_def tracking_modes_def site_aggregate_ok_def)
  moreover have "new_site 7 demo_site = demo_site_row"
    by (simp add: new_site_def set_site_def demo_site_def demo_site_row_def)
  moreover have "site_checks demo_site_row"
    by (simp add: site_checks_def demo_site_row_def between_def null_or_def tracking_modes_def)
  moreover have "sp_id demo_site = ''s1''" "sp_equipment demo_site = Some ''e1''" "sp_horizon demo_site = []"
    "sp_blocked demo_site = []" "os_id demo_site_row = ''s1''" "os_equipment demo_site_row = Some ''e1''"
    by (simp_all add: demo_site_def demo_site_row_def)
  ultimately show ?thesis using assms
    by (simp add: post_site_def create_site_def insert_site_def site_insert_def site_write_def
        replace_horizon_points_def replace_blocked_ranges_def horizon_values_def blocked_values_def delete_where_def
        default_equipment_ok_def db_with_site_def site_change_def append_change_def)
qed

section \<open>The feed\<close>

text \<open>
  C22. A client that replays the change feed from the beginning holds the current revision
  and deletion state of every equipment, observation site and framing reference, whatever
  the sessions interleaved: creates, updates, deletes, and the site updates a deleted
  equipment causes.
\<close>
theorem master_feed_replays:
  assumes "master_reach fresh float_text d"
  shows "feed_ledger ''Equipment'' (changes d) = row_ledger eq_id eq_revision eq_deleted_at (equipments d) \<and>
    feed_ledger ''ObservationSite'' (changes d) = row_ledger os_id os_revision os_deleted_at (sites d) \<and>
    feed_ledger ''MultiNightFramingReference'' (changes d) =
      row_ledger fr_id fr_revision fr_deleted_at (framing_references d)"
  using master_reach_sync[OF assms] by (simp add: master_sync_def eqt.in_sync_def ost.in_sync_def frt.in_sync_def)

lemma reach_equipment: "master_reach fresh ft db_with_equipment"
proof -
  have "master_step fresh ft empty_db (snd (post_equipment ft 5 demo_equipment empty_db empty_db))"
    by (rule Post_equipment) simp
  moreover have "eq_get ''e1'' True (equipments empty_db) = None" by (simp add: eq_get_def empty_db_def)
  ultimately have "master_step fresh ft empty_db db_with_equipment" by (simp add: demo_post_equipment)
  then show ?thesis by (rule Step[OF Start])
qed

theorem master_feed_replays_witness:
  "feed_ledger ''Equipment'' (changes db_with_equipment) = [''e1'' \<mapsto> (1, False)]"
proof -
  have "feed_ledger ''Equipment'' (changes db_with_equipment) =
      row_ledger eq_id eq_revision eq_deleted_at (equipments db_with_equipment)"
    using master_feed_replays[OF reach_equipment[of False "\<lambda>_. []"]] by simp
  also have "\<dots> = [''e1'' \<mapsto> (1, False)]"
    by (auto simp: row_ledger_def db_with_equipment_def equipment_change_def demo_equipment_row_def fun_eq_iff)
  finally show ?thesis .
qed



section \<open>Default equipment\<close>

text \<open>
  C24. As long as requests do not overlap, every active site whose default equipment is set
  names an equipment that exists and is not deleted: creating and changing a site checks it,
  and deleting an equipment clears it from the sites.
\<close>
theorem default_equipment_exists:
  assumes "master_reach True float_text d" and "s \<in> set (sites d)" and "os_deleted_at s = None"
    and "os_equipment s = Some i"
  shows "\<exists>e\<in>set (equipments d). eq_id e = i \<and> eq_deleted_at e = None"
proof -
  have "null_or (\<lambda>i. i \<in> active_equipment d) (os_equipment s)"
    using master_reach_defaults[OF assms(1)] assms(2,3) by (simp add: defaults_active_def)
  then show ?thesis using assms(4) by (auto simp: active_equipment_def)
qed

lemma reach_site: "master_reach fresh ft (db_with_site db_with_equipment)"
proof -
  have "snd (post_site 7 demo_site db_with_equipment db_with_equipment) = db_with_site db_with_equipment"
    by (rule demo_post_site) (simp_all add: db_with_equipment_def equipment_change_def empty_db_def os_get_def eq_get_def
        demo_equipment_row_def)
  then have "master_step fresh ft db_with_equipment (db_with_site db_with_equipment)" by (metis Post_site)
  then show ?thesis by (rule Step[OF reach_equipment])
qed

theorem default_equipment_exists_witness:
  "\<exists>e\<in>set (equipments (db_with_site db_with_equipment)). eq_id e = ''e1'' \<and> eq_deleted_at e = None"
  by (rule default_equipment_exists[OF reach_site[of True "\<lambda>_. []"], of demo_site_row])
    (simp_all add: db_with_site_def site_change_def demo_site_row_def)

definition deleted_equipment_row :: equipment where
  "deleted_equipment_row = demo_equipment_row\<lparr>eq_deleted_at := Some 6, eq_updated_at := 6, eq_revision := 2\<rparr>"

text \<open>
  Requests that overlap break this: a site is created from a read that still saw its
  equipment, after the equipment was deleted, and keeps naming the deleted equipment.
\<close>
theorem site_keeps_deleted_equipment:
  "\<exists>d s e. master_reach False float_text d \<and> s \<in> set (sites d) \<and> os_deleted_at s = None \<and>
     e \<in> set (equipments d) \<and> eq_deleted_at e \<noteq> None \<and> os_equipment s = Some (eq_id e)"
proof -
  define d1 where "d1 = snd (delete_equipment 6 ''e1'' 1 db_with_equipment)"
  have tables: "equipments d1 = [deleted_equipment_row]" "sites d1 = []" "horizon_points d1 = []" "blocked_ranges d1 = []"
    by (simp_all add: d1_def delete_equipment_def db_with_equipment_def equipment_change_def eq_get_def
        demo_equipment_row_def sites_using_def empty_db_def delete_equipment_children_def replace_eyepieces_def
        replace_capability_def find_capability_def delete_where_def Let_def order_by_def save_row_def
        deleted_equipment_row_def append_change_def)
  have "master_reach False float_text d1"
    unfolding d1_def by (rule Step[OF reach_equipment Delete_equipment])
  moreover have "snd (post_site 7 demo_site db_with_equipment d1) = db_with_site d1"
    by (rule demo_post_site) (simp_all add: tables deleted_equipment_row_def db_with_equipment_def equipment_change_def
        empty_db_def os_get_def eq_get_def demo_equipment_row_def)
  then have "master_step False float_text d1 (db_with_site d1)" by (metis Post_site)
  ultimately have "master_reach False float_text (db_with_site d1)" by (rule Step)
  moreover have "demo_site_row \<in> set (sites (db_with_site d1))"
    "deleted_equipment_row \<in> set (equipments (db_with_site d1))"
    by (simp_all add: db_with_site_def site_change_def tables)
  moreover have "os_equipment demo_site_row = Some (eq_id deleted_equipment_row)" "os_deleted_at demo_site_row = None"
    "eq_deleted_at deleted_equipment_row \<noteq> None"
    by (simp_all add: demo_site_row_def deleted_equipment_row_def demo_equipment_row_def)
  ultimately show ?thesis by blast
qed

end
