(* ===== verification/MasterReads.thy ===== *)
theory MasterReads
  imports MasterLaws
begin

text \<open>
  What a stored aggregate reads back as: sites and capture capabilities return what was sent,
  exposure capabilities what their numeric columns keep of it. The last section has the
  requests that pass validation and are then answered as a conflict or with an uncaught
  exception.
\<close>

section \<open>Inserting children\<close>

lemma insert_all_Inr:
  assumes "\<And>r rows. ok r \<Longrightarrow> list_all (compatible r) rows \<Longrightarrow> ins r rows = Inr (rows @ [r])"
    and "list_all ok rs" and "list_all (\<lambda>r. list_all (compatible r) rows) rs"
    and "sorted_wrt (\<lambda>x y. compatible y x) rs"
  shows "insert_all ins rs rows = Inr (rows @ rs)"
  using assms(2-4)
proof (induction rs arbitrary: rows)
  case (Cons r rs)
  then have "ins r rows = Inr (rows @ [r])" by (intro assms(1)) simp_all
  moreover have "insert_all ins rs (rows @ [r]) = Inr ((rows @ [r]) @ rs)"
    using Cons.prems by (intro Cons.IH) (auto simp: list_all_iff)
  ultimately show ?case by simp
qed simp

lemma sorted_wrt_distinct: "distinct (map f xs) \<Longrightarrow> sorted_wrt (\<lambda>x y. f x \<noteq> f y) xs"
  by (induction xs) auto

definition horizon_ok :: "horizon_point \<Rightarrow> bool" where
  "horizon_ok h \<longleftrightarrow> fits_integer (hp_sort_order h) \<and> 0 \<le> hp_azimuth h \<and> hp_azimuth h < 360 \<and>
     between (-90) 90 (hp_min_altitude h) \<and> null_or (\<lambda>m. hp_min_altitude h \<le> m \<and> m \<le> 90) (hp_max_altitude h) \<and>
     hp_source h \<in> set horizon_sources"

definition horizon_compatible :: "horizon_point \<Rightarrow> horizon_point \<Rightarrow> bool" where
  "horizon_compatible h x \<longleftrightarrow> hp_id h \<noteq> hp_id x \<and> \<not> (hp_site x = hp_site h \<and> hp_azimuth x = hp_azimuth h)"

lemma horizon_insert_Inr:
  "horizon_ok h \<Longrightarrow> list_all (horizon_compatible h) rows \<Longrightarrow> horizon_insert h rows = Inr (rows @ [h])"
  by (auto simp: horizon_ok_def horizon_compatible_def horizon_insert_def list_all_iff list_ex_iff)

definition blocked_ok :: "blocked_range \<Rightarrow> bool" where
  "blocked_ok b \<longleftrightarrow> 0 \<le> br_start b \<and> br_start b < 360 \<and> 0 \<le> br_end b \<and> br_end b < 360 \<and> br_source b \<in> set horizon_sources"

lemma blocked_insert_Inr:
  "blocked_ok b \<Longrightarrow> list_all (\<lambda>x. br_id b \<noteq> br_id x) rows \<Longrightarrow> blocked_insert b rows = Inr (rows @ [b])"
  by (auto simp: blocked_ok_def blocked_insert_def list_all_iff)

lemma horizon_values_compatible:
  assumes "distinct (map hi_id hs)" and "distinct (map hi_azimuth hs)"
  shows "sorted_wrt (\<lambda>x y. horizon_compatible y x) (horizon_values i hs)"
  using assms by (induction hs) (auto simp: horizon_values_def horizon_compatible_def image_iff)

section \<open>A stored site reads back as it was sent\<close>

text \<open>
  What the rest of the table must not hold: the ids of the new children, or children of a
  site that does not exist yet.
\<close>

definition site_children_fresh :: "site_payload \<Rightarrow> db \<Rightarrow> bool" where
  "site_children_fresh p d \<longleftrightarrow>
     list_all (\<lambda>h. fits_integer (hi_sort_order h) \<and> hi_id h \<notin> hp_id ` set (horizon_points d)) (sp_horizon p) \<and>
     list_all (\<lambda>b. bi_id b \<notin> br_id ` set (blocked_ranges d)) (sp_blocked p) \<and>
     list_all (\<lambda>h. hp_site h \<noteq> sp_id p) (horizon_points d) \<and> list_all (\<lambda>b. br_site b \<noteq> sp_id p) (blocked_ranges d)"

lemma delete_where_none: "list_all (\<lambda>r. \<not> P r) rows \<Longrightarrow> delete_where P rows = rows"
  by (induction rows) (auto simp: delete_where_def)

lemma validate_siteD:
  assumes "validate_site raw = Some p"
  shows "site_checks (new_site now p)" "list_all horizon_in_ok (sp_horizon p)" "list_all blocked_in_ok (sp_blocked p)"
    "distinct (map hi_id (sp_horizon p))" "distinct (map hi_azimuth (sp_horizon p))" "distinct (map bi_id (sp_blocked p))"
  using assms by (auto simp: validate_site_def site_aggregate_ok_def site_checks_def new_site_def set_site_def
      between_def null_or_def split: option.splits if_splits)

lemma horizon_values_ok:
  "list_all horizon_in_ok hs \<Longrightarrow> list_all (\<lambda>h. fits_integer (hi_sort_order h)) hs \<Longrightarrow> list_all horizon_ok (horizon_values i hs)"
  by (induction hs) (auto simp: horizon_values_def horizon_ok_def horizon_in_ok_def null_or_def between_def split: option.splits)

lemma blocked_values_ok: "list_all blocked_in_ok bs \<Longrightarrow> list_all blocked_ok (blocked_values i bs)"
  by (induction bs) (auto simp: blocked_values_def blocked_ok_def blocked_in_ok_def)

lemma insert_horizon_values:
  assumes "validate_site raw = Some p" and "site_children_fresh p d"
  shows "insert_all horizon_insert (horizon_values (sp_id p) (sp_horizon p)) (horizon_points d)
      = Inr (horizon_points d @ horizon_values (sp_id p) (sp_horizon p))"
proof (rule insert_all_Inr)
  note valid = validate_siteD[OF assms(1)]
  show "list_all horizon_ok (horizon_values (sp_id p) (sp_horizon p))"
    using valid(2) assms(2) by (intro horizon_values_ok) (auto simp: site_children_fresh_def list_all_iff)
  show "list_all (\<lambda>h. list_all (horizon_compatible h) (horizon_points d)) (horizon_values (sp_id p) (sp_horizon p))"
    using assms(2) by (auto simp: site_children_fresh_def list_all_iff horizon_values_def horizon_compatible_def image_iff)
  show "sorted_wrt (\<lambda>x y. horizon_compatible y x) (horizon_values (sp_id p) (sp_horizon p))"
    using valid(4,5) by (rule horizon_values_compatible)
qed (rule horizon_insert_Inr)

lemma insert_blocked_values:
  assumes "validate_site raw = Some p" and "site_children_fresh p d"
  shows "insert_all blocked_insert (blocked_values (sp_id p) (sp_blocked p)) (blocked_ranges d)
      = Inr (blocked_ranges d @ blocked_values (sp_id p) (sp_blocked p))"
proof (rule insert_all_Inr)
  note valid = validate_siteD[OF assms(1)]
  show "list_all blocked_ok (blocked_values (sp_id p) (sp_blocked p))"
    using valid(3) by (rule blocked_values_ok)
  show "list_all (\<lambda>b. list_all (\<lambda>x. br_id b \<noteq> br_id x) (blocked_ranges d)) (blocked_values (sp_id p) (sp_blocked p))"
    using assms(2) by (auto simp: site_children_fresh_def list_all_iff blocked_values_def image_iff)
  show "sorted_wrt (\<lambda>x y. br_id y \<noteq> br_id x) (blocked_values (sp_id p) (sp_blocked p))"
    using sorted_wrt_distinct[OF valid(6)] by (auto simp: blocked_values_def sorted_wrt_map elim: sorted_wrt_mono_rel[rotated])
qed (rule blocked_insert_Inr)

lemma insert_site_Inr:
  assumes "validate_site raw = Some p" and "sp_id p \<notin> os_id ` set (sites d)"
    and "null_or (\<lambda>e. e \<in> eq_id ` set (equipments d)) (sp_equipment p)" and "site_children_fresh p d"
  shows "insert_site now p d = Inr (site_change now CREATE False (new_site now p)
    (d\<lparr>sites := sites d @ [new_site now p], horizon_points := horizon_points d @ horizon_values (sp_id p) (sp_horizon p),
       blocked_ranges := blocked_ranges d @ blocked_values (sp_id p) (sp_blocked p)\<rparr>))"
proof -
  have "delete_where (\<lambda>h. hp_site h = sp_id p) (horizon_points d) = horizon_points d"
    "delete_where (\<lambda>b. br_site b = sp_id p) (blocked_ranges d) = blocked_ranges d"
    using assms(4) by (auto simp: site_children_fresh_def intro!: delete_where_none)
  then show ?thesis using assms(2,3) validate_siteD(1)[OF assms(1)] insert_horizon_values[OF assms(1,4)]
      insert_blocked_values[OF assms(1,4)]
    by (simp add: insert_site_def site_insert_def site_write_def replace_horizon_points_def replace_blocked_ranges_def)
qed

text \<open>The response a payload reads back as: its children in the order of the queries.\<close>

definition site_payload_response :: "time \<Rightarrow> site_payload \<Rightarrow> site_response" where
  "site_payload_response now p = \<lparr>sr_row = new_site now p,
     sr_horizon = horizon_points_of (sp_id p) (horizon_values (sp_id p) (sp_horizon p)),
     sr_blocked = blocked_ranges_of (sp_id p) (blocked_values (sp_id p) (sp_blocked p))\<rparr>"

lemma filter_none: "list_all (\<lambda>x. \<not> P x) xs \<Longrightarrow> filter P xs = []"
  by (induction xs) auto


definition demo_hill :: site_payload where
  "demo_hill = demo_site\<lparr>sp_id := ''s2'', sp_name := '' Hill'', sp_horizon :=
     [\<lparr>hi_id = ''h2'', hi_site = None, hi_azimuth = 90, hi_min_altitude = 5, hi_max_altitude = Some 60, hi_sort_order = 1,
       hi_source = ''manual''\<rparr>,
      \<lparr>hi_id = ''h1'', hi_site = Some ''s2'', hi_azimuth = 0, hi_min_altitude = 10, hi_max_altitude = None, hi_sort_order = 0,
       hi_source = ''camera_scan''\<rparr>]\<rparr>"


section \<open>Capture capabilities\<close>

text \<open>
  The capture capability of an equipment survives storage: what was accepted and dumped
  with its defaults validates again to the same values, with the defaults set, exactly when
  the dump still fits the size limit.
\<close>
theorem capture_survives_storage:
  assumes "parse_capture float_text v = Some c"
  shows "parse_capture float_text (dump_capture c) =
    (if json_bytes float_text (dump_capture c) \<le> max_capture_bytes then Some (filled c) else None)"
  using parse_dump_capture[OF parse_capture_ok[OF assms]] .

theorem capture_survives_storage_witness:
  "parse_capture float_text (dump_capture full_capture) = None"
  using capture_survives_storage[OF parse_full_document] full_capture_bytes[of float_text] by simp

section \<open>Requests that are valid and still fail\<close>

text \<open>
  An equipment whose capture capability fills the size limit is accepted and committed,
  but its stored form is longer than the limit: the create, every later read of it and the
  list of all equipment end in an uncaught validation error, and no patch can change it.
\<close>
theorem full_capture_blocks_equipment:
  "\<exists>d. snd (post_equipment float_text now (demo_equipment\<lparr>qp_capture := Some full_document\<rparr>) empty_db empty_db) = d \<and>
     fst (post_equipment float_text now (demo_equipment\<lparr>qp_capture := Some full_document\<rparr>) empty_db empty_db)
       = Inl UncaughtValidation \<and>
     map eq_id (eq_list (equipments d)) = [''e1''] \<and>
     get_equipment float_text ''e1'' d = Inl UncaughtValidation \<and>
     list_equipment float_text d = Inl UncaughtValidation \<and>
     (\<forall>t raw. snd (patch_equipment float_text t ''e1'' raw d) = d)"
proof -
  let ?raw = "demo_equipment\<lparr>qp_capture := Some full_document\<rparr>"
  define p where "p = \<lparr>qp_id = ''e1'', qp_name = ''S50'', qp_kind = ''smartTelescope'', qp_purpose = ''imaging'',
     qp_is_active = True, qp_focal_length = Some 250, qp_aperture = Some 50, qp_fov_width = None, qp_fov_height = None,
     qp_sort_order = 0, qp_eyepieces = [], qp_az = None, qp_eq = None, qp_capture = Some full_capture\<rparr>"
  define e where "e = new_equipment now p"
  define d where "d = equipment_change now CREATE False e (empty_db\<lparr>equipments := [e]\<rparr>)"
  have valid: "validate_equipment float_text ?raw = Some p"
    by (simp add: validate_equipment_def demo_equipment_def valid_name_def strip_eval optional_def parse_full_document
        equipment_kinds_def equipment_purposes_def null_or_positive_def children_ok_def p_def)
  have row: "eq_id e = ''e1''" "eq_deleted_at e = None" "eq_capture e = Some (dump_capture full_capture)"
    by (simp_all add: e_def new_equipment_def set_parent_def p_def)
  have "equipment_write e = Inr e"
    by (simp add: equipment_write_def fits_integer_def equipment_checks_def equipment_kinds_def equipment_purposes_def
        null_or_positive_def e_def new_equipment_def set_parent_def p_def)
  moreover have "qp_id p = ''e1''" "qp_eyepieces p = []" "qp_az p = None" "qp_eq p = None" by (simp_all add: p_def)
  ultimately have "insert_equipment now p empty_db = Inr d"
    by (simp add: insert_equipment_def equipment_insert_def replace_eyepieces_def eyepiece_values_def delete_where_def
        replace_capability_def find_capability_def d_def flip: e_def) (simp add: empty_db_def)
  moreover have "parse_capture float_text (dump_capture full_capture) = None"
    using parse_dump_capture[OF parse_capture_ok[OF parse_full_document]] full_capture_bytes[of float_text] by simp
  then have unreadable: "equipment_response_of float_text d e = None"
    by (simp add: equipment_response_of_def row optional_def split: option.splits)
  moreover have rows: "equipments d = [e]" by (simp add: d_def equipment_change_def)
  moreover have "eq_get (qp_id p) True (equipments empty_db) = None" by (simp add: eq_get_def empty_db_def)
  ultimately have "post_equipment float_text now ?raw empty_db empty_db = (Inl UncaughtValidation, d)"
    by (simp add: post_equipment_def valid create_equipment_def respond_equipment_def flip: e_def)
  moreover have found: "eq_get ''e1'' False (equipments d) = Some e" by (simp add: eq_get_def rows row)
  moreover have "eq_list (equipments d) = [e]" by (simp add: eq_list_def rows row order_by_def)
  moreover have "snd (patch_equipment float_text t ''e1'' raw d) = d" for t raw
    by (simp add: patch_equipment_def update_equipment_def found unreadable split: option.splits)
  ultimately show ?thesis
    by (simp add: row get_equipment_def list_equipment_def respond_equipment_def unreadable)
qed

text \<open>
  Two exposure times that are different numbers but agree in six decimals pass the
  uniqueness check of the schema and are then refused as an aggregate conflict, although no
  other equipment exists.
\<close>
theorem close_exposures_conflict:
  "fst (post_equipment float_text now (demo_equipment\<lparr>qp_az := Some (Discrete [2, 2 + 1 / 10 ^ 8])\<rparr>) empty_db empty_db)
     = Inl AggregateConflict \<and>
   validate_equipment float_text (demo_equipment\<lparr>qp_az := Some (Discrete [2, 2 + 1 / 10 ^ 8])\<rparr>) \<noteq> None"
proof -
  define raw where "raw = demo_equipment\<lparr>qp_az := Some (Discrete [2, 2 + 1 / 10 ^ 8])\<rparr>"
  define p where "p = \<lparr>qp_id = ''e1'', qp_name = ''S50'', qp_kind = ''smartTelescope'', qp_purpose = ''imaging'',
     qp_is_active = True, qp_focal_length = Some 250, qp_aperture = Some 50, qp_fov_width = None, qp_fov_height = None,
     qp_sort_order = 0, qp_eyepieces = [], qp_az = Some (Discrete [2, 2 + 1 / 10 ^ 8]), qp_eq = None,
     qp_capture = None :: capture_capability option\<rparr>"
  have valid: "validate_equipment float_text raw = Some p"
    by (simp add: raw_def validate_equipment_def demo_equipment_def valid_name_def strip_eval optional_def
        equipment_kinds_def equipment_purposes_def null_or_positive_def children_ok_def p_def)
  have "numeric6 2 = 2" "numeric6 (2 + 1 / 10 ^ 8) = 2" by (simp_all add: numeric6_def)
  moreover have "equipment_write (new_equipment now p) = Inr (new_equipment now p)"
    by (simp add: equipment_write_def fits_integer_def equipment_checks_def equipment_kinds_def equipment_purposes_def
        null_or_positive_def new_equipment_def set_parent_def p_def)
  moreover have "qp_id p = ''e1''" "qp_eyepieces p = []" "qp_az p = Some (Discrete [2, 2 + 1 / 10 ^ 8])" by (simp_all add: p_def)
  ultimately have "insert_equipment now p empty_db = Inl ConstraintViolated"
    by (simp add: insert_equipment_def equipment_insert_def replace_eyepieces_def eyepiece_values_def delete_where_def
        replace_capability_def find_capability_def capability_write_def discrete_rows_def value_insert_def fits_numeric6_def
        Let_def empty_db_def)
  moreover have "eq_get (qp_id p) True (equipments empty_db) = None" by (simp add: eq_get_def empty_db_def)
  ultimately have "fst (post_equipment float_text now raw empty_db empty_db) = Inl AggregateConflict"
    by (simp add: post_equipment_def valid create_equipment_def)
  with valid show ?thesis unfolding raw_def by blast
qed

text \<open>
  A patch that moves only the lower altitude limit of a site above its stored upper limit
  passes the patch validation and ends in an uncaught validation error instead of a client
  error; it changes nothing.
\<close>
theorem crossing_altitudes_uncaught:
  "\<exists>u. validate_site_patch u \<noteq> None \<and>
     patch_site 9 ''s1'' u (db_with_site db_with_equipment) (db_with_site db_with_equipment) =
       (Inl UncaughtValidation, db_with_site db_with_equipment)"
proof -
  define u where "u = \<lparr>su_revision = 1, su_name = None, su_latitude = None, su_longitude = None, su_address = None,
     su_bortle = None, su_sqm = None, su_brightness = None, su_is_favorite = None, su_tracking_mode = None,
     su_equipment = None, su_min_altitude = Some 80, su_max_altitude = None, su_preferred_start = None,
     su_preferred_end = None, su_memo = None, su_horizon = None, su_blocked = None\<rparr>"
  have valid: "validate_site_patch u = Some u"
    by (simp add: validate_site_patch_def u_def optional_def site_patch_empty_def between_def)
  have "os_get ''s1'' False (sites (db_with_site db_with_equipment)) = Some demo_site_row"
    by (simp add: db_with_site_def site_change_def os_get_def demo_site_row_def db_with_equipment_def
        equipment_change_def empty_db_def)
  moreover have "validate_site (merged_site (site_response_of d demo_site_row) u) = None" for d
    by (simp add: validate_site_def merged_site_def site_response_of_def u_def demo_site_row_def Let_def
        site_aggregate_ok_def split: option.splits)
  ultimately have "patch_site 9 ''s1'' u (db_with_site db_with_equipment) (db_with_site db_with_equipment) =
       (Inl UncaughtValidation, db_with_site db_with_equipment)"
    by (simp add: patch_site_def valid update_site_def) (simp add: demo_site_row_def u_def)
  with valid show ?thesis by auto
qed

end
