(* ===== verification/FastGallery.thy ===== *)
theory FastGallery
  imports MkTables PyText
begin

text \<open>
  The fast gallery of MemoryKeeper: the location expressions
  (\<open>place_cleanup_repository.py\<close>), the queries (\<open>fast_gallery_repository.py\<close>) and the
  service (\<open>fast_gallery_service.py\<close>, all under \<open>src/app/memorykeeper/\<close>). A query joins the
  state of a file with its metadata and its place, so its rows are \<open>gallery_row\<close>s. The opaque
  texts of cursors and location keys are not modelled: a cursor is the value it carries, a
  location key the identity it encodes. \<open>canonical_uuid\<close> is Python's \<open>str(UUID(text))\<close>.
\<close>

section \<open>Location expressions\<close>

fun coalesce :: "'a option list \<Rightarrow> 'a option" where
  "coalesce [] = None"
| "coalesce (None # xs) = coalesce xs"
| "coalesce (Some v # xs) = Some v"

record gallery_row =
  gr_state :: file_state
  gr_meta :: "file_metadata option"
  gr_place :: "mk_place option"

definition gr_country :: "gallery_row \<Rightarrow> string option" where
  "gr_country r = coalesce [Option.bind (gr_place r) pl_country, Option.bind (gr_meta r) md_country]"

definition gr_region :: "gallery_row \<Rightarrow> string option" where
  "gr_region r = coalesce [Option.bind (gr_place r) pl_city, Option.bind (gr_place r) pl_province,
     Option.bind (gr_meta r) md_city, Option.bind (gr_meta r) md_province]"

definition gr_label :: "gallery_row \<Rightarrow> string option" where
  "gr_label r = coalesce [map_option pl_display_name (gr_place r), Option.bind (gr_meta r) md_place_name]"

definition gr_place_id :: "gallery_row \<Rightarrow> string option" where
  "gr_place_id r = Option.bind (gr_meta r) md_place_id"

text \<open>\<open>trim\<close> of SQL removes spaces only.\<close>

definition missing_label :: "string option \<Rightarrow> bool" where
  "missing_label x = (case x of None \<Rightarrow> True | Some s \<Rightarrow> strip_while (\<lambda>c. c = CHR '' '') s = [])"

definition location_complete :: "gallery_row \<Rightarrow> bool" where
  "location_complete r \<longleftrightarrow>
     \<not> missing_label (gr_country r) \<and> \<not> missing_label (gr_region r) \<and> \<not> missing_label (gr_label r)"

definition normal_photo :: "gallery_row \<Rightarrow> bool" where
  "normal_photo r \<longleftrightarrow> st_category (gr_state r) = ''NORMAL''"

definition location_incomplete :: "gallery_row \<Rightarrow> bool" where
  "location_incomplete r \<longleftrightarrow> normal_photo r \<and> \<not> location_complete r"

definition gr_has_gps :: "gallery_row \<Rightarrow> bool" where
  "gr_has_gps r = (case gr_meta r of None \<Rightarrow> False | Some m \<Rightarrow> md_gps_lat m \<noteq> None \<and> md_gps_lon m \<noteq> None)"

definition joined_place :: "mk_state \<Rightarrow> file_metadata option \<Rightarrow> mk_place option" where
  "joined_place d m =
     (case Option.bind m md_place_id of
        None \<Rightarrow> None
      | Some i \<Rightarrow> (case find_row pl_id i (mk_places d) of
           None \<Rightarrow> None | Some p \<Rightarrow> if pl_deleted_at p = None then Some p else None))"

definition join_row :: "mk_state \<Rightarrow> file_state \<Rightarrow> gallery_row" where
  "join_row d s =
     (let m = find_row md_file (st_file s) (metadata_rows d)
      in \<lparr>gr_state = s, gr_meta = m, gr_place = joined_place d m\<rparr>)"

text \<open>\<open>_base_query\<close>: the files that are not deleted, linked and have a year.\<close>

definition gallery_rows :: "mk_state \<Rightarrow> gallery_row list" where
  "gallery_rows d = map (join_row d)
     (filter (\<lambda>s. active_file d (st_file s) \<and> mk_linked d (st_file s) \<and> st_year s \<noteq> None) (file_states d))"

section \<open>Filters\<close>

datatype location_identity =
    Registered string
  | RawLocation "string option" "string option" "string option"   \<comment> \<open>country, region, place\<close>

record gallery_filters =
  gf_year :: "int option"
  gf_country :: "string option"
  gf_region :: "string option"
  gf_place_id :: "string option"
  gf_unclassified :: bool
  gf_date_unclassified :: bool
  gf_favorite :: "bool option"
  gf_has_gps :: "bool option"
  gf_date_from :: "wall_date option"
  gf_date_to :: "wall_date option"
  gf_category :: "string option"
  gf_location :: "location_identity option"

definition no_filters :: gallery_filters where
  "no_filters = \<lparr>gf_year = None, gf_country = None, gf_region = None, gf_place_id = None, gf_unclassified = False,
     gf_date_unclassified = False, gf_favorite = None, gf_has_gps = None, gf_date_from = None, gf_date_to = None,
     gf_category = None, gf_location = None\<rparr>"

definition if_set :: "'a option \<Rightarrow> ('a \<Rightarrow> bool) \<Rightarrow> bool" where
  "if_set x P = (case x of None \<Rightarrow> True | Some v \<Rightarrow> P v)"

definition date_unclassified :: "gallery_row \<Rightarrow> bool" where
  "date_unclassified r \<longleftrightarrow> st_date (gr_state r) = None \<and> st_precision (gr_state r) = Some ''YEAR''"

text \<open>
  The location conditions hold of an existing metadata row. Without a location key the
  country, region and place parameters apply, and without any of them no condition does.
\<close>

definition location_match :: "gallery_filters \<Rightarrow> gallery_row \<Rightarrow> bool" where
  "location_match f r =
     (case gf_location f of
        Some (Registered p) \<Rightarrow>
          normal_photo r \<and> gr_meta r \<noteq> None \<and> gr_place_id r = Some p \<and>
          if_set (gf_country f) (\<lambda>c. gr_country r = Some c) \<and> if_set (gf_region f) (\<lambda>c. gr_region r = Some c)
      | Some (RawLocation c g p) \<Rightarrow>
          if c = None \<and> g = None \<and> p = None then location_incomplete r
          else normal_photo r \<and> gr_meta r \<noteq> None \<and> gr_place_id r = None \<and>
               gr_country r = c \<and> gr_region r = g \<and> gr_label r = p
      | None \<Rightarrow>
          if gf_country f = None \<and> gf_region f = None \<and> gf_place_id f = None then True
          else normal_photo r \<and> gr_meta r \<noteq> None \<and> if_set (gf_country f) (\<lambda>c. gr_country r = Some c) \<and>
               if_set (gf_region f) (\<lambda>c. gr_region r = Some c) \<and> if_set (gf_place_id f) (\<lambda>p. gr_place_id r = Some p))"

definition gallery_match :: "gallery_filters \<Rightarrow> gallery_row \<Rightarrow> bool" where
  "gallery_match f r \<longleftrightarrow>
     (gf_date_unclassified f \<longrightarrow> date_unclassified r) \<and>
     if_set (gf_year f) (\<lambda>y. st_year (gr_state r) = Some y) \<and>
     if_set (gf_favorite f) (\<lambda>b. st_favorite (gr_state r) = b) \<and>
     if_set (gf_date_from f) (\<lambda>a. case st_date (gr_state r) of None \<Rightarrow> False | Some x \<Rightarrow> a \<le> x) \<and>
     if_set (gf_date_to f) (\<lambda>b. case st_date (gr_state r) of None \<Rightarrow> False | Some x \<Rightarrow> x \<le> b) \<and>
     if_set (gf_category f) (\<lambda>c. st_category (gr_state r) = c) \<and>
     (gf_unclassified f \<longrightarrow> location_incomplete r) \<and>
     location_match f r \<and>
     if_set (gf_has_gps f) (\<lambda>b. gr_has_gps r = b)"

section \<open>Keyset pages\<close>

datatype gallery_cursor =
    CardCursor int "wall_time option" int       \<comment> \<open>year, datetime, file id\<close>
  | YearOnlyCursor int

text \<open>Year downwards, datetime downwards with NULLs last, file id downwards.\<close>

definition gallery_key :: "gallery_row \<Rightarrow> int \<times> bool \<times> (int \<times> int \<times> int \<times> int) \<times> int" where
  "gallery_key r = (let s = gr_state r in
     (- or_else (st_year s) 0, st_datetime s = None,
      (case st_datetime s of None \<Rightarrow> (0, 0, 0, 0) | Some (y, m, d, u) \<Rightarrow> (- y, - m, - d, - u)), - st_file s))"

definition after_gallery_cursor :: "gallery_cursor option \<Rightarrow> gallery_row \<Rightarrow> bool" where
  "after_gallery_cursor cursor r = (let s = gr_state r in
     case cursor of
       None \<Rightarrow> True
     | Some (YearOnlyCursor i) \<Rightarrow> st_file s < i
     | Some (CardCursor y t i) \<Rightarrow>
         or_else (st_year s) 0 < y \<or>
         or_else (st_year s) 0 = y \<and>
           (case t of
              None \<Rightarrow> st_datetime s = None \<and> st_file s < i
            | Some u \<Rightarrow> (case st_datetime s of
                 None \<Rightarrow> True
               | Some v \<Rightarrow> v < u \<or> v = u \<and> st_file s < i)))"

definition photo_rows :: "gallery_filters \<Rightarrow> nat \<Rightarrow> gallery_cursor option \<Rightarrow> gallery_row list \<Rightarrow> gallery_row list" where
  "photo_rows f limit cursor rows =
     (let hits = filter (\<lambda>r. gallery_match f r \<and> after_gallery_cursor cursor r) rows;
          candidates = (if gf_date_unclassified f then take (limit + 1) (order_by (\<lambda>r. - st_file (gr_state r)) hits)
                        else take (limit + 1) (order_by gallery_key hits))
      in order_by gallery_key candidates)"

record photo_item =
  pi_common_file_id :: int
  pi_file_id :: string
  pi_filename :: string
  pi_extension :: "string option"
  pi_mime_type :: "string option"
  pi_preview_url :: "string option"
  pi_thumbnail_url :: "string option"
  pi_favorite :: bool
  pi_has_gps :: bool
  pi_datetime :: "wall_time option"
  pi_date :: "wall_date option"
  pi_year :: int
  pi_precision :: "string option"
  pi_basis :: "string option"
  pi_user_datetime :: "wall_time option"
  pi_user_precision :: "string option"
  pi_source_year :: "int option"
  pi_source_basis :: "string option"
  pi_date_revision :: int
  pi_category :: string
  pi_category_revision :: int
  pi_place_id :: "string option"
  pi_place_label :: "string option"
  pi_country :: "string option"
  pi_region :: "string option"

definition gallery_media_url :: "string \<Rightarrow> string \<Rightarrow> string option \<Rightarrow> string option" where
  "gallery_media_url file_id kind storage_path =
     (case storage_path of None \<Rightarrow> None
      | Some p \<Rightarrow> if p = [] then None else Some (''/api/common/gallery/'' @ file_id @ ''/'' @ kind))"

definition photo_item_of :: "mk_state \<Rightarrow> gallery_row \<Rightarrow> photo_item option" where
  "photo_item_of d r =
     (let s = gr_state r; daily = (st_category s = ''DAILY'');
          unless_daily = (\<lambda>x. if daily then None else x)
      in map_option (\<lambda>f. \<lparr>pi_common_file_id = st_file s, pi_file_id = cf_file_id f, pi_filename = cf_original_name f,
           pi_extension = cf_extension f, pi_mime_type = cf_mime_type f,
           pi_preview_url = gallery_media_url (cf_file_id f) ''preview'' (cf_preview_path f),
           pi_thumbnail_url = gallery_media_url (cf_file_id f) ''thumbnail'' (cf_thumb_path f),
           pi_favorite = st_favorite s, pi_has_gps = gr_has_gps r, pi_datetime = st_datetime s, pi_date = st_date s,
           pi_year = or_else (st_year s) 0, pi_precision = st_precision s, pi_basis = st_basis s,
           pi_user_datetime = st_user_datetime s, pi_user_precision = st_user_precision s,
           pi_source_year = st_source_year s, pi_source_basis = st_source_basis s, pi_date_revision = st_revision s,
           pi_category = st_category s, pi_category_revision = st_category_revision s,
           pi_place_id = unless_daily (gr_place_id r), pi_place_label = unless_daily (gr_label r),
           pi_country = unless_daily (gr_country r), pi_region = unless_daily (gr_region r)\<rparr>)
         (find_row cf_id (st_file s) (files (base d))))"

section \<open>The photos endpoint\<close>

datatype gallery_error =
    InvalidDateRange | YearRequired | DateRangeNotAllowed | CategoryConflict | UnclassifiedConflict
  | LocationConflict | InvalidGalleryCursor

definition category_conflict :: "gallery_filters \<Rightarrow> location_identity option \<Rightarrow> bool" where
  "category_conflict f location \<longleftrightarrow> gf_category f = Some ''DAILY'' \<and>
     (gf_unclassified f \<or> gf_country f \<noteq> None \<or> gf_region f \<noteq> None \<or> gf_place_id f \<noteq> None \<or> location \<noteq> None)"

definition location_conflict ::
  "(string \<Rightarrow> string option) \<Rightarrow> string option \<Rightarrow> location_identity option \<Rightarrow> bool" where
  "location_conflict canonical_uuid place_id location =
     (case (place_id, location) of
        (Some p, Some (Registered q)) \<Rightarrow> canonical_uuid p \<noteq> Some q
      | (Some p, Some (RawLocation _ _ _)) \<Rightarrow> True
      | _ \<Rightarrow> False)"

definition validate_gallery ::
  "(string \<Rightarrow> string option) \<Rightarrow> gallery_filters \<Rightarrow> location_identity option \<Rightarrow> gallery_error + gallery_filters" where
  "validate_gallery canonical_uuid f location =
     (if (case (gf_date_from f, gf_date_to f) of (Some a, Some b) \<Rightarrow> b < a | _ \<Rightarrow> False) then Inl InvalidDateRange
      else if gf_date_unclassified f \<and> gf_year f = None then Inl YearRequired
      else if gf_date_unclassified f \<and> (gf_date_from f \<noteq> None \<or> gf_date_to f \<noteq> None) then Inl DateRangeNotAllowed
      else if category_conflict f location then Inl CategoryConflict
      else if gf_unclassified f \<and> (gf_place_id f \<noteq> None \<or> location \<noteq> None) then Inl UnclassifiedConflict
      else if location_conflict canonical_uuid (gf_place_id f) location then Inl LocationConflict
      else Inr (f\<lparr>gf_location := (case location of None \<Rightarrow> gf_location f | Some l \<Rightarrow> Some l)\<rparr>))"

text \<open>Each mode decodes its own cursors only.\<close>

definition cursor_fits :: "gallery_filters \<Rightarrow> gallery_cursor option \<Rightarrow> bool" where
  "cursor_fits f cursor =
     (case cursor of None \<Rightarrow> True | Some (YearOnlyCursor _) \<Rightarrow> gf_date_unclassified f
      | Some (CardCursor _ _ _) \<Rightarrow> \<not> gf_date_unclassified f)"

record photos_response =
  pr_items :: "photo_item list"
  pr_next :: "gallery_cursor option"
  pr_more :: bool

definition next_gallery_cursor :: "gallery_filters \<Rightarrow> photo_item \<Rightarrow> gallery_cursor" where
  "next_gallery_cursor f i =
     (if gf_date_unclassified f then YearOnlyCursor (pi_common_file_id i)
      else CardCursor (pi_year i) (pi_datetime i) (pi_common_file_id i))"

definition photos_page :: "mk_state \<Rightarrow> gallery_filters \<Rightarrow> nat \<Rightarrow> gallery_cursor option \<Rightarrow> photos_response" where
  "photos_page d f limit cursor =
     (let found = List.map_filter (photo_item_of d) (photo_rows f limit cursor (gallery_rows d));
          more = limit < length found; page = take limit found
      in \<lparr>pr_items = page,
          pr_next = (if more \<and> page \<noteq> [] then Some (next_gallery_cursor f (last page)) else None), pr_more = more\<rparr>)"

definition gallery_photos ::
  "(string \<Rightarrow> string option) \<Rightarrow> mk_state \<Rightarrow> gallery_cursor option \<Rightarrow> nat \<Rightarrow> gallery_filters \<Rightarrow> location_identity option
     \<Rightarrow> gallery_error + photos_response" where
  "gallery_photos canonical_uuid d cursor limit f location =
     and_then (validate_gallery canonical_uuid f location) (\<lambda>f.
       raise_if (\<not> cursor_fits f cursor) InvalidGalleryCursor (Inr (photos_page d f limit cursor)))"

end
