(* ===== verification/GalleryHierarchy.thy ===== *)
theory GalleryHierarchy
  imports FastGallery PyDict
begin

text \<open>
  The aggregates of the fast gallery: \<open>hierarchy\<close> and \<open>summary\<close> of
  \<open>fast_gallery_repository.py\<close> and \<open>fast_gallery_service.py\<close>, and the cleanup counts of
  \<open>place_cleanup_repository.py\<close> (all under \<open>src/app/memorykeeper/\<close>). A GROUP BY is the list
  of the distinct keys with the number of their rows, in the order of the statement; groups
  that tie there come in the order of their first row. Place ids are UUIDs in canonical form, so a registered
  location key is the identity it encodes.
\<close>

section \<open>Grouping\<close>

definition group_counts :: "('r \<Rightarrow> 'k) \<Rightarrow> 'r list \<Rightarrow> ('k \<times> nat) list" where
  "group_counts key rows = map (\<lambda>k. (k, count_where (\<lambda>r. key r = k) rows)) (rev (remdups (rev (map key rows))))"

text \<open>The sort key of \<open>asc().nulls_last()\<close>.\<close>

definition nulls_last :: "string option \<Rightarrow> bool \<times> string" where
  "nulls_last x = (x = None, or_else x [])"

section \<open>The hierarchy query\<close>

record hierarchy_key =
  hk_year :: int
  hk_category :: string
  hk_location_unclassified :: bool
  hk_date_unclassified :: bool
  hk_country :: "string option"
  hk_region :: "string option"
  hk_place_id :: "string option"
  hk_label :: "string option"

definition hierarchy_key_of :: "gallery_row \<Rightarrow> hierarchy_key" where
  "hierarchy_key_of r =
     (let s = gr_state r;
          hidden = (st_category s = ''DAILY'' \<or> location_incomplete r);
          shown = (\<lambda>x. if hidden then None else x)
      in \<lparr>hk_year = or_else (st_year s) 0, hk_category = st_category s,
          hk_location_unclassified = location_incomplete r, hk_date_unclassified = date_unclassified r,
          hk_country = shown (gr_country r), hk_region = shown (gr_region r),
          hk_place_id = shown (gr_place_id r), hk_label = shown (gr_label r)\<rparr>)"

definition hierarchy_rows :: "mk_state \<Rightarrow> (hierarchy_key \<times> nat) list" where
  "hierarchy_rows d =
     order_by (\<lambda>(k, n). (- hk_year k, nulls_last (hk_country k), nulls_last (hk_region k),
         nulls_last (hk_label k), nulls_last (hk_place_id k)))
       (group_counts hierarchy_key_of (gallery_rows d))"

section \<open>The hierarchy response\<close>

record place_node =
  pn_place_id :: "string option"
  pn_key :: location_identity
  pn_label :: "string option"
  pn_count :: nat

record region_bucket =
  rb_count :: nat
  rb_places :: "(location_identity \<times> place_node) list"

record country_bucket =
  cb_count :: nat
  cb_regions :: "(string option \<times> region_bucket) list"

record year_bucket =
  yb_count :: nat
  yb_daily :: nat
  yb_unclassified :: nat
  yb_date_unclassified :: nat
  yb_countries :: "(string option \<times> country_bucket) list"

definition leaf_key :: "hierarchy_key \<Rightarrow> location_identity" where
  "leaf_key k = (case hk_place_id k of Some p \<Rightarrow> Registered p
                 | None \<Rightarrow> RawLocation (hk_country k) (hk_region k) (hk_label k))"

definition add_place :: "hierarchy_key \<times> nat \<Rightarrow> place_node option \<Rightarrow> place_node" where
  "add_place g old = (case old of
     None \<Rightarrow> \<lparr>pn_place_id = hk_place_id (fst g), pn_key = leaf_key (fst g), pn_label = hk_label (fst g), pn_count = snd g\<rparr>
   | Some p \<Rightarrow> p\<lparr>pn_count := pn_count p + snd g\<rparr>)"

definition add_region :: "hierarchy_key \<times> nat \<Rightarrow> region_bucket option \<Rightarrow> region_bucket" where
  "add_region g old = (let b = or_else old \<lparr>rb_count = 0, rb_places = []\<rparr>
     in \<lparr>rb_count = rb_count b + snd g, rb_places = dict_update (leaf_key (fst g)) (add_place g) (rb_places b)\<rparr>)"

definition add_country :: "hierarchy_key \<times> nat \<Rightarrow> country_bucket option \<Rightarrow> country_bucket" where
  "add_country g old = (let b = or_else old \<lparr>cb_count = 0, cb_regions = []\<rparr>
     in \<lparr>cb_count = cb_count b + snd g, cb_regions = dict_update (hk_region (fst g)) (add_region g) (cb_regions b)\<rparr>)"

definition empty_year :: year_bucket where
  "empty_year = \<lparr>yb_count = 0, yb_daily = 0, yb_unclassified = 0, yb_date_unclassified = 0, yb_countries = []\<rparr>"

definition add_year :: "hierarchy_key \<times> nat \<Rightarrow> year_bucket option \<Rightarrow> year_bucket" where
  "add_year g old =
     (let k = fst g; n = snd g; b = or_else old empty_year;
          b = b\<lparr>yb_count := yb_count b + n,
                yb_date_unclassified := (if hk_date_unclassified k then yb_date_unclassified b + n
                                         else yb_date_unclassified b)\<rparr>
      in if hk_category k = ''DAILY'' then b\<lparr>yb_daily := yb_daily b + n\<rparr>
         else b\<lparr>yb_unclassified := (if hk_location_unclassified k then yb_unclassified b + n else yb_unclassified b),
                yb_countries := dict_update (hk_country k) (add_country g) (yb_countries b)\<rparr>)"

text \<open>The response lists the items of the dicts, a leaf by its key.\<close>

definition gallery_hierarchy :: "mk_state \<Rightarrow> (int \<times> year_bucket) list" where
  "gallery_hierarchy d = fold (\<lambda>g. dict_update (hk_year (fst g)) (add_year g)) (hierarchy_rows d) []"

section \<open>The summary\<close>

record gallery_summary =
  gs_total :: nat
  gs_favorite :: nat
  gs_recent :: nat
  gs_pending :: nat
  gs_place_cleanup :: nat
  gs_daily :: nat
  gs_gps :: nat
  gs_date_min :: "wall_date option"
  gs_date_max :: "wall_date option"
  gs_by_year :: "(int \<times> nat) list"
  gs_by_country :: "(string option \<times> nat) list"

definition recent_shortcut_limit :: nat where
  "recent_shortcut_limit = 48"

text \<open>
  The cleanup queries start from the files: a file without a state counts as NORMAL, and a
  metadata row may be missing.
\<close>

record cleanup_row =
  cr_file :: int
  cr_state :: "file_state option"
  cr_meta :: "file_metadata option"
  cr_place :: "mk_place option"

definition place_cleanup_rows :: "mk_state \<Rightarrow> cleanup_row list" where
  "place_cleanup_rows d = map (\<lambda>f. let m = find_row md_file (cf_id f) (metadata_rows d)
       in \<lparr>cr_file = cf_id f, cr_state = find_row st_file (cf_id f) (file_states d), cr_meta = m, cr_place = joined_place d m\<rparr>)
     (filter (\<lambda>f. mk_linked d (cf_id f) \<and> \<not> cf_deleted f) (files (base d)))"

definition cleanup_normal :: "cleanup_row \<Rightarrow> bool" where
  "cleanup_normal r \<longleftrightarrow> or_else (map_option st_category (cr_state r)) ''NORMAL'' = ''NORMAL''"

definition cleanup_pending :: "cleanup_row \<Rightarrow> bool" where
  "cleanup_pending r \<longleftrightarrow> cleanup_normal r \<and> Option.bind (cr_meta r) md_place_id = None"

definition cleanup_complete :: "cleanup_row \<Rightarrow> bool" where
  "cleanup_complete r \<longleftrightarrow>
     \<not> missing_label (coalesce [Option.bind (cr_place r) pl_country, Option.bind (cr_meta r) md_country]) \<and>
     \<not> missing_label (coalesce [Option.bind (cr_place r) pl_city, Option.bind (cr_place r) pl_province,
          Option.bind (cr_meta r) md_city, Option.bind (cr_meta r) md_province]) \<and>
     \<not> missing_label (coalesce [map_option pl_display_name (cr_place r), Option.bind (cr_meta r) md_place_name])"

definition cleanup_unclassified :: "cleanup_row \<Rightarrow> bool" where
  "cleanup_unclassified r \<longleftrightarrow> cleanup_normal r \<and> \<not> cleanup_complete r \<and> Option.bind (cr_state r) st_datetime \<noteq> None"

definition place_cleanup :: "cleanup_row \<Rightarrow> bool" where
  "place_cleanup r \<longleftrightarrow> cleanup_pending r \<or> cleanup_unclassified r"

definition summary_counts :: "mk_state \<Rightarrow> nat \<times> nat \<times> nat" where
  "summary_counts d = (let rows = place_cleanup_rows d
     in (length rows, count_where cleanup_pending rows, count_where place_cleanup rows))"

definition gallery_summary_of :: "mk_state \<Rightarrow> gallery_summary" where
  "gallery_summary_of d =
     (let rows = gallery_rows d; dates = List.map_filter (\<lambda>r. st_date (gr_state r)) rows
      in \<lparr>gs_total = length rows, gs_favorite = count_where (\<lambda>r. st_favorite (gr_state r)) rows,
          gs_recent = min (fst (summary_counts d)) recent_shortcut_limit,
          gs_pending = count_where location_incomplete rows,
          gs_place_cleanup = snd (snd (summary_counts d)),
          gs_daily = count_where (\<lambda>r. st_category (gr_state r) = ''DAILY'') rows,
          gs_gps = count_where gr_has_gps rows,
          gs_date_min = (if dates = [] then None else Some (Min (set dates))),
          gs_date_max = (if dates = [] then None else Some (Max (set dates))),
          gs_by_year = order_by (\<lambda>(y, n). - y) (group_counts (\<lambda>r. or_else (st_year (gr_state r)) 0) rows),
          gs_by_country = order_by (\<lambda>(c, n). nulls_last c) (group_counts gr_country (filter normal_photo rows))\<rparr>)"

section \<open>The legacy cleanup list\<close>

text \<open>
  Offset pages over the cleanup set, newest original datetime first, NULLs last, then the
  file id downwards.
\<close>

definition cleanup_key :: "cleanup_row \<Rightarrow> bool \<times> int \<times> int" where
  "cleanup_key r = (case Option.bind (cr_meta r) md_datetime_original of
      None \<Rightarrow> (True, 0, - cr_file r) | Some t \<Rightarrow> (False, - t, - cr_file r))"

definition cleanup_list :: "mk_state \<Rightarrow> nat \<Rightarrow> nat \<Rightarrow> cleanup_row list \<times> nat" where
  "cleanup_list d page page_size =
     (let hits = filter place_cleanup (place_cleanup_rows d)
      in (take page_size (drop ((page - 1) * page_size) (order_by cleanup_key hits)), length hits))"

end
