(* ===== verification/FastGalleryLaws.thy ===== *)
theory FastGalleryLaws
  imports GalleryHierarchy
begin

text \<open>
  What the fast gallery promises: a client that follows the cursors of the photos endpoint
  reads the matching photos once and in order, and every count of the hierarchy is the number
  of photos such a client reads with the corresponding filters.
\<close>

section \<open>Rows and keys\<close>

lemma gallery_rowD:
  assumes "r \<in> set (gallery_rows d)"
  shows "gr_state r \<in> set (file_states d)" "active_file d (st_file (gr_state r))"
    "st_year (gr_state r) \<noteq> None"
  using assms by (auto simp: gallery_rows_def join_row_def Let_def)

lemma photo_item_Some:
  assumes "r \<in> set (gallery_rows d)"
  obtains i where "photo_item_of d r = Some i"
    "pi_common_file_id i = st_file (gr_state r)" "pi_year i = or_else (st_year (gr_state r)) 0"
    "pi_datetime i = st_datetime (gr_state r)"
  using gallery_rowD(2)[OF assms]
  by (auto simp: photo_item_of_def active_file_def Let_def split: option.splits)

lemma gallery_key_file: "gallery_key a = gallery_key b \<Longrightarrow> st_file (gr_state a) = st_file (gr_state b)"
  by (simp add: gallery_key_def Let_def)

lemma distinct_gallery_files:
  "distinct (map st_file (file_states d)) \<Longrightarrow> distinct (map (\<lambda>r. st_file (gr_state r)) (gallery_rows d))"
  by (simp add: gallery_rows_def join_row_def Let_def distinct_map_filter comp_def)

lemma distinct_gallery_keys:
  assumes "distinct (map st_file (file_states d))"
  shows "distinct (map gallery_key (filter P (gallery_rows d)))"
proof -
  have "distinct (map (\<lambda>r. st_file (gr_state r)) (filter P (gallery_rows d)))"
    using distinct_gallery_files[OF assms] by (rule distinct_map_filter)
  then show ?thesis by (auto simp: distinct_map inj_on_def dest!: gallery_key_file)
qed

text \<open>The cursor of a card resumes exactly after the card.\<close>

definition cursor_key :: "int \<Rightarrow> wall_time option \<Rightarrow> int \<Rightarrow> int \<times> bool \<times> (int \<times> int \<times> int \<times> int) \<times> int" where
  "cursor_key y t i = (- y, t = None,
      (case t of None \<Rightarrow> (0, 0, 0, 0) | Some (a, b, c, u) \<Rightarrow> (- a, - b, - c, - u)), - i)"

lemma card_cursor_resumes:
  "after_gallery_cursor (Some (CardCursor y t i)) x \<longleftrightarrow> cursor_key y t i < gallery_key x"
  by (cases t; cases "st_datetime (gr_state x)")
    (auto simp: after_gallery_cursor_def cursor_key_def gallery_key_def Let_def less_prod_def')

lemma cursor_key_row:
  "cursor_key (or_else (st_year (gr_state r)) 0) (st_datetime (gr_state r)) (st_file (gr_state r)) = gallery_key r"
  by (auto simp: cursor_key_def gallery_key_def Let_def)

section \<open>Validated filters\<close>

lemma validate_gallery_Inr:
  assumes "validate_gallery cu f loc = Inr f'"
  shows "f' = f\<lparr>gf_location := (case loc of None \<Rightarrow> gf_location f | Some l \<Rightarrow> Some l)\<rparr>"
    "gf_date_unclassified f \<Longrightarrow> gf_year f \<noteq> None"
  using assms by (auto simp: validate_gallery_def split: if_splits)

lemma year_only_cursor_resumes:
  assumes "gallery_match f r" "gallery_match f x" "gf_date_unclassified f" "gf_year f \<noteq> None"
  shows "after_gallery_cursor (Some (YearOnlyCursor (st_file (gr_state r)))) x \<longleftrightarrow> gallery_key r < gallery_key x"
  using assms
  by (auto simp: after_gallery_cursor_def gallery_key_def gallery_match_def date_unclassified_def if_set_def
      st_date_def Let_def less_prod_def' split: option.splits)

text \<open>Both orders of the candidates agree with the order of the cards.\<close>

lemma insort_key_cong_key:
  "(\<And>b. b \<in> set ys \<Longrightarrow> f x \<le> f b \<longleftrightarrow> g x \<le> g b) \<Longrightarrow> insort_key f x ys = insort_key g x ys"
  by (induction ys) auto

lemma order_by_cong_key:
  "(\<And>a b. a \<in> set xs \<Longrightarrow> b \<in> set xs \<Longrightarrow> f a \<le> f b \<longleftrightarrow> g a \<le> g b) \<Longrightarrow> order_by f xs = order_by g xs"
proof (induction xs)
  case (Cons x xs)
  then have "sort_key f xs = sort_key g xs" by (simp add: order_by_def)
  with Cons.prems insort_key_cong_key[of "sort_key g xs" f x g] show ?case by (simp add: order_by_def)
qed (simp add: order_by_def)

lemma order_by_take_sorted: "order_by key (take n (order_by key xs)) = take n (order_by key xs)"
  using sorted_order_by[of key xs]
  by (simp add: order_by_def sort_key_id_if_sorted take_map[symmetric] sorted_wrt_take)

lemma photo_rows_sorted:
  assumes "gf_date_unclassified f \<Longrightarrow> gf_year f \<noteq> None"
  shows "photo_rows f limit cursor rows =
    take (limit + 1) (order_by gallery_key (filter (\<lambda>r. gallery_match f r \<and> after_gallery_cursor cursor r) rows))"
proof (cases "gf_date_unclassified f")
  case True
  let ?hits = "filter (\<lambda>r. gallery_match f r \<and> after_gallery_cursor cursor r) rows"
  have "order_by (\<lambda>r. - st_file (gr_state r)) ?hits = order_by gallery_key ?hits"
    using True assms
    by (intro order_by_cong_key)
      (auto simp: gallery_key_def gallery_match_def date_unclassified_def if_set_def st_date_def Let_def
        less_eq_prod_def split: option.splits)
  then show ?thesis using True by (simp add: photo_rows_def Let_def order_by_take_sorted del: One_nat_def)
qed (simp add: photo_rows_def Let_def order_by_take_sorted)

section \<open>Pages\<close>

definition card_of :: "mk_state \<Rightarrow> gallery_row \<Rightarrow> photo_item" where
  "card_of d r = the (photo_item_of d r)"

lemma card_of_fields:
  assumes "r \<in> set (gallery_rows d)"
  shows "photo_item_of d r = Some (card_of d r)" "pi_common_file_id (card_of d r) = st_file (gr_state r)"
    "pi_year (card_of d r) = or_else (st_year (gr_state r)) 0"
    "pi_datetime (card_of d r) = st_datetime (gr_state r)"
  using photo_item_Some[OF assms] unfolding card_of_def by (metis option.sel)+

lemma map_filter_cards:
  "set xs \<subseteq> set (gallery_rows d) \<Longrightarrow> List.map_filter (photo_item_of d) xs = map (card_of d) xs"
  by (induction xs) (auto simp: map_filter_simps card_of_fields(1))

definition hits_after :: "mk_state \<Rightarrow> gallery_filters \<Rightarrow> gallery_cursor option \<Rightarrow> gallery_row list" where
  "hits_after d f cursor = order_by gallery_key
     (filter (\<lambda>r. gallery_match f r \<and> after_gallery_cursor cursor r) (gallery_rows d))"

lemma hits_after_subset: "set (hits_after d f cursor) \<subseteq> set (gallery_rows d)"
  by (auto simp: hits_after_def)

lemma photos_page_hits:
  assumes "gf_date_unclassified f \<Longrightarrow> gf_year f \<noteq> None"
  shows "photos_page d f limit cursor =
    \<lparr>pr_items = map (card_of d) (take limit (hits_after d f cursor)),
     pr_next = (if limit < length (hits_after d f cursor) \<and> 0 < limit
        then Some (next_gallery_cursor f (card_of d (last (take limit (hits_after d f cursor))))) else None),
     pr_more = (limit < length (hits_after d f cursor))\<rparr>"
proof -
  have "set (take (limit + 1) (hits_after d f cursor)) \<subseteq> set (gallery_rows d)"
    using hits_after_subset by (meson order_trans set_take_subset)
  then have "List.map_filter (photo_item_of d) (photo_rows f limit cursor (gallery_rows d)) =
      map (card_of d) (take (limit + 1) (hits_after d f cursor))"
    using photo_rows_sorted[OF assms] by (simp add: hits_after_def map_filter_cards)
  then show ?thesis
    by (auto simp: photos_page_def Let_def take_map min_def last_map)
qed

text \<open>The rows after a cursor of the right kind are closed upwards.\<close>

lemma after_cursor_upwards:
  assumes "cursor_fits f cursor" and "gf_date_unclassified f \<Longrightarrow> gf_year f \<noteq> None"
    and "gallery_match f r" "after_gallery_cursor cursor r" and "gallery_match f x" "gallery_key r < gallery_key x"
  shows "after_gallery_cursor cursor x"
proof (cases cursor)
  case None
  then show ?thesis by (simp add: after_gallery_cursor_def)
next
  case (Some c)
  show ?thesis
  proof (cases c)
    case (CardCursor y t i)
    then show ?thesis using Some assms(4,6) by (auto simp: card_cursor_resumes)
  next
    case (YearOnlyCursor i)
    then have "st_file (gr_state x) < st_file (gr_state r)"
      using Some assms year_only_cursor_resumes[of f r x]
      by (simp add: cursor_fits_def) (simp add: after_gallery_cursor_def)
    then show ?thesis using Some YearOnlyCursor assms(4) by (simp add: after_gallery_cursor_def)
  qed
qed

lemma next_cursor_resumes:
  assumes "gf_date_unclassified f \<Longrightarrow> gf_year f \<noteq> None"
    and "r \<in> set (gallery_rows d)" "gallery_match f r" "gallery_match f x"
  shows "after_gallery_cursor (Some (next_gallery_cursor f (card_of d r))) x \<longleftrightarrow> gallery_key r < gallery_key x"
  using assms card_of_fields[OF assms(2)] year_only_cursor_resumes[of f r x]
  by (simp add: next_gallery_cursor_def card_cursor_resumes cursor_key_row)

lemma last_hit:
  assumes "limit < length (hits_after d f cursor)" and "0 < limit"
  shows "last (take limit (hits_after d f cursor)) \<in> set (gallery_rows d) \<and>
    gallery_match f (last (take limit (hits_after d f cursor))) \<and>
    after_gallery_cursor cursor (last (take limit (hits_after d f cursor)))"
proof -
  have "last (take limit (hits_after d f cursor)) \<in> set (take limit (hits_after d f cursor))"
    using assms by (intro last_in_set) auto
  then have "last (take limit (hits_after d f cursor)) \<in> set (hits_after d f cursor)" by (rule in_set_takeD)
  then show ?thesis by (auto simp: hits_after_def)
qed

lemma hits_after_next:
  assumes "distinct (map st_file (file_states d))" and "gf_date_unclassified f \<Longrightarrow> gf_year f \<noteq> None"
    and "cursor_fits f cursor" and "limit < length (hits_after d f cursor)" and "0 < limit"
  shows "hits_after d f (Some (next_gallery_cursor f (card_of d (last (take limit (hits_after d f cursor))))))
    = drop limit (hits_after d f cursor)"
proof -
  define r where "r = last (take limit (hits_after d f cursor))"
  have r: "r \<in> set (gallery_rows d)" "gallery_match f r" "after_gallery_cursor cursor r"
    unfolding r_def using last_hit[OF assms(4,5)] by auto
  have "(gallery_match f x \<and> after_gallery_cursor (Some (next_gallery_cursor f (card_of d r))) x)
      = ((gallery_match f x \<and> after_gallery_cursor cursor x) \<and> gallery_key r < gallery_key x)" for x
    using next_cursor_resumes[OF assms(2) r(1,2)] after_cursor_upwards[OF assms(3,2) r(2,3)] by blast
  then have "hits_after d f (Some (next_gallery_cursor f (card_of d r)))
      = filter (\<lambda>x. gallery_key r < gallery_key x) (hits_after d f cursor)"
    unfolding hits_after_def order_by_def filter_sort filter_filter by presburger
  also have "\<dots> = drop limit (hits_after d f cursor)"
    unfolding r_def using assms(4,5) distinct_gallery_keys[OF assms(1)]
    by (intro filter_above_last) (auto simp: hits_after_def intro!: sorted_wrt_order_by)
  finally show ?thesis unfolding r_def .
qed

lemma hits_shrink:
  assumes "gf_date_unclassified f \<Longrightarrow> gf_year f \<noteq> None" and "cursor_fits f cursor"
    and "limit < length (hits_after d f cursor)" and "0 < limit"
  shows "length (hits_after d f (Some (next_gallery_cursor f (card_of d (last (take limit (hits_after d f cursor)))))))
    < length (hits_after d f cursor)"
proof -
  define r where "r = last (take limit (hits_after d f cursor))"
  have r: "r \<in> set (gallery_rows d)" "gallery_match f r" "after_gallery_cursor cursor r"
    unfolding r_def using last_hit[OF assms(3,4)] by auto
  let ?later = "\<lambda>x. gallery_match f x \<and> after_gallery_cursor (Some (next_gallery_cursor f (card_of d r))) x"
  let ?hit = "\<lambda>x. gallery_match f x \<and> after_gallery_cursor cursor x"
  have "?later x \<Longrightarrow> ?hit x" for x
    using next_cursor_resumes[OF assms(1) r(1,2), of x] after_cursor_upwards[OF assms(2,1) r(2,3), of x] by blast
  moreover have "\<not> ?later r" using next_cursor_resumes[OF assms(1) r(1,2,2)] by blast
  ultimately have "length (filter ?later (gallery_rows d)) < length (filter ?hit (gallery_rows d))"
    using r by (intro length_filter_subset_less) blast+
  then show ?thesis unfolding r_def[symmetric] by (simp add: hits_after_def)
qed

section \<open>Reading to the end\<close>

lemma gallery_photos_Inr:
  "gallery_photos cu d cursor limit f loc = Inr page \<longleftrightarrow>
     (\<exists>f'. validate_gallery cu f loc = Inr f' \<and> cursor_fits f' cursor \<and> page = photos_page d f' limit cursor)"
  by (auto simp: gallery_photos_def and_then_def raise_if_def split: sum.splits if_splits)

text \<open>A client that sends the cursor of each page back until none comes.\<close>

function (sequential) read_gallery ::
  "(string \<Rightarrow> string option) \<Rightarrow> mk_state \<Rightarrow> nat \<Rightarrow> gallery_filters \<Rightarrow> location_identity option
     \<Rightarrow> gallery_cursor option \<Rightarrow> gallery_error + photo_item list" where
  "read_gallery cu d limit f loc cursor =
     (case gallery_photos cu d cursor limit f loc of
        Inl e \<Rightarrow> Inl e
      | Inr page \<Rightarrow> (case pr_next page of
           None \<Rightarrow> Inr (pr_items page)
         | Some c \<Rightarrow> (case read_gallery cu d limit f loc (Some c) of
              Inl e \<Rightarrow> Inl e | Inr later \<Rightarrow> Inr (pr_items page @ later))))"
  by pat_completeness auto


text \<open>Each page leaves fewer rows after its cursor.\<close>

termination
proof (relation "measure (\<lambda>(cu, d, limit, f, loc, cursor).
    case validate_gallery cu f loc of Inl _ \<Rightarrow> 0 | Inr f' \<Rightarrow> length (hits_after d f' cursor))", simp)
  fix cu d limit f loc cursor page c
  assume "gallery_photos cu d cursor limit f loc = Inr page" and nxt: "pr_next page = Some c"
  then obtain f' where f': "validate_gallery cu f loc = Inr f'" "cursor_fits f' cursor"
    and page: "page = photos_page d f' limit cursor" by (auto simp: gallery_photos_Inr)
  have mode: "gf_date_unclassified f' \<Longrightarrow> gf_year f' \<noteq> None" using validate_gallery_Inr[OF f'(1)] by auto
  have "limit < length (hits_after d f' cursor)" "0 < limit"
    and "c = next_gallery_cursor f' (card_of d (last (take limit (hits_after d f' cursor))))"
    using nxt photos_page_hits[OF mode] by (simp_all add: page split: if_splits)
  then show "((cu, d, limit, f, loc, Some c), (cu, d, limit, f, loc, cursor)) \<in> measure (\<lambda>(cu, d, limit, f, loc, cursor).
      case validate_gallery cu f loc of Inl _ \<Rightarrow> 0 | Inr f' \<Rightarrow> length (hits_after d f' cursor))"
    using hits_shrink[OF mode f'(2)] f'(1) by simp
qed

declare read_gallery.simps [simp del]

lemma read_gallery_hits:
  assumes "distinct (map st_file (file_states d))" and "0 < limit"
    and "validate_gallery cu f loc = Inr f'" and "cursor_fits f' cursor"
  shows "read_gallery cu d limit f loc cursor = Inr (map (card_of d) (hits_after d f' cursor))"
  using assms
proof (induction cu d limit f loc cursor rule: read_gallery.induct)
  case (1 cu d limit f loc cursor)
  have mode: "gf_date_unclassified f' \<Longrightarrow> gf_year f' \<noteq> None"
    using validate_gallery_Inr[OF "1.prems"(3)] by auto
  let ?hits = "hits_after d f' cursor"
  have page: "gallery_photos cu d cursor limit f loc = Inr (photos_page d f' limit cursor)"
    using "1.prems"(3,4) by (simp add: gallery_photos_Inr)
  show ?case
  proof (cases "limit < length ?hits")
    case True
    let ?c = "next_gallery_cursor f' (card_of d (last (take limit ?hits)))"
    have nxt: "pr_next (photos_page d f' limit cursor) = Some ?c"
      using True "1.prems"(2) by (simp add: photos_page_hits[OF mode])
    have "cursor_fits f' (Some ?c)" by (simp add: cursor_fits_def next_gallery_cursor_def)
    with "1.IH"[OF page nxt] "1.prems"
    have "read_gallery cu d limit f loc (Some ?c) = Inr (map (card_of d) (drop limit ?hits))"
      using hits_after_next[OF "1.prems"(1) mode "1.prems"(4) True "1.prems"(2)] by simp
    then show ?thesis
      using nxt by (subst read_gallery.simps)
        (simp add: page photos_page_hits[OF mode] map_append[symmetric] del: map_append)
  next
    case False
    then show ?thesis by (subst read_gallery.simps) (simp add: page photos_page_hits[OF mode])
  qed
qed

end
