(* ===== verification/GalleryCounts.thy ===== *)
theory GalleryCounts
  imports FastGalleryLaws
begin

text \<open>
  The aggregates of the fast gallery against its pages: every count of the hierarchy and of
  the summary is the number of photos a client reads with the corresponding filters.
\<close>

section \<open>Groups\<close>

lemma sum_bump:
  "distinct ks \<Longrightarrow> sum_list (map (\<lambda>k. if a = k then Suc (c k) else c k) ks)
     = sum_list (map c ks) + (if a \<in> set ks then 1 else (0 :: nat))"
  by (induction ks) auto

lemma sum_counts:
  assumes "distinct ks" and "key ` set rows \<subseteq> set ks"
  shows "sum_list (map (\<lambda>k. count_where (\<lambda>r. key r = k) rows) (filter P ks)) = count_where (\<lambda>r. P (key r)) rows"
  using assms(2)
proof (induction rows)
  case Nil
  show ?case by (induction ks) auto
next
  case (Cons r rows)
  then show ?case using sum_bump[of "filter P ks" "key r"] assms(1) by auto
qed

lemma filter_pairs: "filter (\<lambda>g. P (fst g)) (map (\<lambda>k. (k, n k)) ks) = map (\<lambda>k. (k, n k)) (filter P ks)"
  by (induction ks) auto

lemma group_sum:
  "sum_list (map snd (filter (\<lambda>g. P (fst g)) (group_counts key rows))) = count_where (\<lambda>r. P (key r)) rows"
  using sum_counts[of "rev (remdups (rev (map key rows)))" key rows P]
  by (simp add: group_counts_def filter_pairs[where P = P] comp_def)

lemma sum_insort: "sum_list (map f (insort_key k x xs)) = f x + (sum_list (map f xs) :: nat)"
  by (induction xs) auto

lemma sum_order_by: "sum_list (map f (filter P (order_by k xs))) = (sum_list (map f (filter P xs)) :: nat)"
proof -
  have "sum_list (map f (sort_key k ys)) = sum_list (map f ys)" for ys
    by (induction ys) (auto simp: sum_insort)
  then show ?thesis by (simp add: order_by_def filter_sort)
qed

lemma hierarchy_sum:
  "sum_list (map snd (filter (\<lambda>g. P (fst g)) (hierarchy_rows d)))
     = count_where (\<lambda>r. P (hierarchy_key_of r)) (gallery_rows d)"
  by (simp add: hierarchy_rows_def sum_order_by group_sum)

section \<open>Buckets\<close>

text \<open>The elements of a bucket, as a condition on the group key.\<close>

lemma sum_shares: "sum_list (map (\<lambda>g. if P g then snd g else (0::nat)) gs) = sum_list (map snd (filter P gs))"
  by (induction gs) auto

lemma year_bucketD:
  assumes "(y, b) \<in> set (gallery_hierarchy d)"
  shows "yb_count b = count_where (\<lambda>r. hk_year (hierarchy_key_of r) = y) (gallery_rows d)" (is ?count)
    and "yb_daily b = count_where (\<lambda>r. hk_year (hierarchy_key_of r) = y
           \<and> hk_category (hierarchy_key_of r) = ''DAILY'') (gallery_rows d)" (is ?daily)
    and "yb_unclassified b = count_where (\<lambda>r. hk_year (hierarchy_key_of r) = y \<and>
           hk_category (hierarchy_key_of r) \<noteq> ''DAILY'' \<and> hk_location_unclassified (hierarchy_key_of r))
         (gallery_rows d)" (is ?uncl)
    and "yb_date_unclassified b = count_where (\<lambda>r. hk_year (hierarchy_key_of r) = y \<and>
           hk_date_unclassified (hierarchy_key_of r)) (gallery_rows d)" (is ?dates)
    and "yb_countries b = fold (\<lambda>g. dict_update (hk_country (fst g)) (add_country g))
           (filter (\<lambda>g. hk_year (fst g) = y \<and> hk_category (fst g) \<noteq> ''DAILY'') (hierarchy_rows d)) []" (is ?inner)
proof -
  let ?gs = "filter (\<lambda>g. hk_year (fst g) = y) (hierarchy_rows d)"
  have b: "fold (\<lambda>g v. Some (add_year g v)) ?gs None = Some b"
    using assms unfolding gallery_hierarchy_def by (rule dict_itemD)
  note counter = fold_counter[where gs = ?gs and v = None and f = add_year, unfolded b]
  show ?count
    using counter[where measured = "\<lambda>v. case v of None \<Rightarrow> 0 | Some b \<Rightarrow> yb_count b" and share = snd]
      hierarchy_sum[of "\<lambda>k. hk_year k = y" d]
    by (auto simp: add_year_def Let_def empty_year_def or_else_def split: option.splits)
  show ?daily
    using counter[where measured = "\<lambda>v. case v of None \<Rightarrow> 0 | Some b \<Rightarrow> yb_daily b"
        and share = "\<lambda>g. if hk_category (fst g) = ''DAILY'' then snd g else 0"]
      hierarchy_sum[of "\<lambda>k. hk_year k = y \<and> hk_category k = ''DAILY''" d]
    by (auto simp: add_year_def Let_def empty_year_def or_else_def sum_shares conj_commute split: option.splits)
  show ?uncl
    using counter[where measured = "\<lambda>v. case v of None \<Rightarrow> 0 | Some b \<Rightarrow> yb_unclassified b"
        and share = "\<lambda>g. if hk_category (fst g) \<noteq> ''DAILY'' \<and> hk_location_unclassified (fst g) then snd g else 0"]
      hierarchy_sum[of "\<lambda>k. hk_year k = y \<and> hk_category k \<noteq> ''DAILY'' \<and> hk_location_unclassified k" d]
    by (auto simp: add_year_def Let_def empty_year_def or_else_def sum_shares conj_ac split: option.splits)
  show ?dates
    using counter[where measured = "\<lambda>v. case v of None \<Rightarrow> 0 | Some b \<Rightarrow> yb_date_unclassified b"
        and share = "\<lambda>g. if hk_date_unclassified (fst g) then snd g else 0"]
      hierarchy_sum[of "\<lambda>k. hk_year k = y \<and> hk_date_unclassified k" d]
    by (auto simp: add_year_def Let_def empty_year_def or_else_def sum_shares conj_commute split: option.splits)
  show ?inner
    using fold_inner[where gs = ?gs and v = None and f = add_year
        and inner = "\<lambda>v. case v of None \<Rightarrow> [] | Some b \<Rightarrow> yb_countries b"
        and P = "\<lambda>g. hk_category (fst g) \<noteq> ''DAILY''"
        and step = "\<lambda>g. dict_update (hk_country (fst g)) (add_country g)", unfolded b]
    by (auto simp: add_year_def Let_def empty_year_def or_else_def conj_commute split: option.splits)
qed


lemma country_bucketD:
  assumes "(c, b) \<in> set (fold (\<lambda>g. dict_update (hk_country (fst g)) (add_country g)) gs [])"
  shows "cb_count b = sum_list (map snd (filter (\<lambda>g. hk_country (fst g) = c) gs))" (is ?count)
    and "cb_regions b = fold (\<lambda>g. dict_update (hk_region (fst g)) (add_region g))
           (filter (\<lambda>g. hk_country (fst g) = c) gs) []" (is ?inner)
proof -
  let ?gs = "filter (\<lambda>g. hk_country (fst g) = c) gs"
  have b: "fold (\<lambda>g v. Some (add_country g v)) ?gs None = Some b" using assms by (rule dict_itemD)
  show ?count
    using fold_counter[where gs = ?gs and v = None and f = add_country and share = snd
        and measured = "\<lambda>v. case v of None \<Rightarrow> 0 | Some b \<Rightarrow> cb_count b", unfolded b]
    by (auto simp: add_country_def Let_def or_else_def split: option.splits)
  show ?inner
    using fold_inner[where gs = ?gs and v = None and f = add_country and P = "\<lambda>_. True"
        and inner = "\<lambda>v. case v of None \<Rightarrow> [] | Some b \<Rightarrow> cb_regions b"
        and step = "\<lambda>g. dict_update (hk_region (fst g)) (add_region g)", unfolded b]
    by (auto simp: add_country_def Let_def or_else_def split: option.splits)
qed

lemma region_bucketD:
  assumes "(c, b) \<in> set (fold (\<lambda>g. dict_update (hk_region (fst g)) (add_region g)) gs [])"
  shows "rb_count b = sum_list (map snd (filter (\<lambda>g. hk_region (fst g) = c) gs))" (is ?count)
    and "rb_places b = fold (\<lambda>g. dict_update (leaf_key (fst g)) (add_place g))
           (filter (\<lambda>g. hk_region (fst g) = c) gs) []" (is ?inner)
proof -
  let ?gs = "filter (\<lambda>g. hk_region (fst g) = c) gs"
  have b: "fold (\<lambda>g v. Some (add_region g v)) ?gs None = Some b" using assms by (rule dict_itemD)
  show ?count
    using fold_counter[where gs = ?gs and v = None and f = add_region and share = snd
        and measured = "\<lambda>v. case v of None \<Rightarrow> 0 | Some b \<Rightarrow> rb_count b", unfolded b]
    by (auto simp: add_region_def Let_def or_else_def split: option.splits)
  show ?inner
    using fold_inner[where gs = ?gs and v = None and f = add_region and P = "\<lambda>_. True"
        and inner = "\<lambda>v. case v of None \<Rightarrow> [] | Some b \<Rightarrow> rb_places b"
        and step = "\<lambda>g. dict_update (leaf_key (fst g)) (add_place g)", unfolded b]
    by (auto simp: add_region_def Let_def or_else_def split: option.splits)
qed

lemma place_nodeD:
  assumes "(l, n) \<in> set (fold (\<lambda>g. dict_update (leaf_key (fst g)) (add_place g)) gs [])"
  shows "pn_count n = sum_list (map snd (filter (\<lambda>g. leaf_key (fst g) = l) gs))"
    and "filter (\<lambda>g. leaf_key (fst g) = l) gs \<noteq> []"
proof -
  let ?gs = "filter (\<lambda>g. leaf_key (fst g) = l) gs"
  have b: "fold (\<lambda>g v. Some (add_place g v)) ?gs None = Some n" using assms by (rule dict_itemD)
  show "pn_count n = sum_list (map snd ?gs)"
    using fold_counter[where gs = ?gs and v = None and f = add_place and share = snd
        and measured = "\<lambda>v. case v of None \<Rightarrow> 0 | Some b \<Rightarrow> pn_count b", unfolded b]
    by (auto simp: add_place_def split: option.splits)
  show "?gs \<noteq> []" using b by (cases "?gs") auto
qed

section \<open>Reading with a filter\<close>

definition read_count ::
  "(string \<Rightarrow> string option) \<Rightarrow> mk_state \<Rightarrow> nat \<Rightarrow> gallery_filters \<Rightarrow> location_identity option \<Rightarrow> nat option" where
  "read_count cu d limit f loc =
     (case read_gallery cu d limit f loc None of Inl _ \<Rightarrow> None | Inr photos \<Rightarrow> Some (length photos))"

lemma read_count_where:
  assumes "distinct (map st_file (file_states d))" and "0 < limit" and "validate_gallery cu f loc = Inr f'"
  shows "read_count cu d limit f loc = Some (count_where (gallery_match f') (gallery_rows d))"
  using read_gallery_hits[OF assms(1-3), of None]
  by (simp add: read_count_def cursor_fits_def hits_after_def count_where_def after_gallery_cursor_def)

lemma count_where_cong:
  "(\<And>r. r \<in> set rows \<Longrightarrow> P r \<longleftrightarrow> Q r) \<Longrightarrow> count_where P rows = count_where Q rows"
  by (simp add: count_where_def cong: filter_cong)

text \<open>The two categories of photos, and the labels a row can show.\<close>

definition categories_ok :: "mk_state \<Rightarrow> bool" where
  "categories_ok d \<longleftrightarrow> list_all (\<lambda>s. st_category s \<in> {''NORMAL'', ''DAILY''}) (file_states d)"

lemma category_cases:
  assumes "categories_ok d" and "r \<in> set (gallery_rows d)"
  shows "st_category (gr_state r) = ''DAILY'' \<longleftrightarrow> \<not> normal_photo r"
  using assms gallery_rowD(1)[OF assms(2)] by (auto simp: categories_ok_def list_all_iff normal_photo_def)

lemma year_known: "r \<in> set (gallery_rows d) \<Longrightarrow> st_year (gr_state r) = Some (or_else (st_year (gr_state r)) 0)"
  by (drule gallery_rowD(3)) auto

lemma year_shown:
  "r \<in> set (gallery_rows d) \<Longrightarrow> st_year (gr_state r) = Some y \<longleftrightarrow> or_else (st_year (gr_state r)) 0 = y"
  by (drule year_known) (metis option.inject)

lemma shown_metadata:
  assumes "r \<in> set (gallery_rows d)" and "gr_meta r = None"
  shows "gr_country r = None" "gr_region r = None" "gr_label r = None" "gr_place_id r = None"
  using assms
  by (auto simp: gallery_rows_def join_row_def joined_place_def Let_def gr_country_def gr_region_def gr_label_def
      gr_place_id_def)

lemma complete_shown:
  assumes "location_complete r"
  shows "gr_country r \<noteq> None" "gr_region r \<noteq> None" "gr_label r \<noteq> None"
  using assms by (auto simp: location_complete_def missing_label_def split: option.splits)

lemma no_filter_match: "gallery_match no_filters r"
  by (simp add: gallery_match_def no_filters_def if_set_def location_match_def)


section \<open>An example\<close>

definition demo_photo :: "int \<Rightarrow> wall_time option \<Rightarrow> string \<Rightarrow> file_state" where
  "demo_photo i t cat = \<lparr>st_file = i, st_favorite = False, st_memo = None, st_revision = 0, st_category = cat,
     st_category_revision = 0, st_user_datetime = None, st_user_precision = None, st_source_year = Some 2020,
     st_source_basis = None, st_datetime = t, st_year = Some 2020,
     st_precision = Some (if t = None then ''YEAR'' else ''DATETIME''), st_basis = None, st_updated_at = 0\<rparr>"

definition demo_metadata :: "int \<Rightarrow> string option \<Rightarrow> file_metadata" where
  "demo_metadata i x = \<lparr>md_file = i, md_datetime_original = None, md_original_capture = None, md_gps_lat = None,
     md_gps_lon = None, md_country = x, md_province = x, md_city = None, md_district = None, md_place_name = x,
     md_place_id = None, md_match_source = None, md_match_distance = None, md_match_revision = 0, md_locked = False, md_other = (\<lambda>_. FNone)\<rparr>"

definition demo_common :: "int \<Rightarrow> common_file" where
  "demo_common i = \<lparr>cf_id = i, cf_file_id = ''f'', cf_original_name = ''n'', cf_extension = None, cf_mime_type = None,
     cf_file_size = None, cf_width = None, cf_height = None, cf_original_path = None, cf_preview_path = None,
     cf_thumb_path = None, cf_favorite = False, cf_service = memorykeeper, cf_created_at = 0, cf_deleted = False\<rparr>"

text \<open>Four photos of 2020: a classified one, an unclassified one without a date, a daily one and a second
  classified one.\<close>

definition demo_gallery :: mk_state where
  "demo_gallery = \<lparr>base = empty_db\<lparr>files := map demo_common [1, 2, 3, 4],
       links := map (\<lambda>i. \<lparr>fs_file = i, fs_service = memorykeeper\<rparr>) [1, 2, 3, 4]\<rparr>,
     file_states = [demo_photo 1 (Some (2020, 5, 1, 0)) ''NORMAL'', demo_photo 2 None ''NORMAL'',
       demo_photo 3 (Some (2020, 6, 1, 0)) ''DAILY'', demo_photo 4 (Some (2020, 5, 1, 0)) ''NORMAL''],
     metadata_rows = [demo_metadata 1 (Some ''x''), demo_metadata 3 (Some ''x''), demo_metadata 4 (Some ''x'')],
     mk_places = [], histories = [], linked_at = (\<lambda>_. 0)\<rparr>"

lemma demo_ok: "distinct (map st_file (file_states demo_gallery))" "categories_ok demo_gallery"
  by (simp_all add: demo_gallery_def demo_photo_def categories_ok_def)

lemma demo_hierarchy: "map (\<lambda>(y, b). (y, yb_count b, yb_daily b, yb_unclassified b, yb_date_unclassified b))
   (gallery_hierarchy demo_gallery) = [(2020, 4, 1, 1, 1)]"
  by code_simp

lemma demo_leaf:
  "map (\<lambda>(y, b). (y, map (\<lambda>(c, cb). (c, map (\<lambda>(g, rb). (g, map (\<lambda>(l, n). (l, pn_count n)) (rb_places rb))) (cb_regions cb)))
     (yb_countries b))) (gallery_hierarchy demo_gallery)
   = [(2020, [(Some ''x'', [(Some ''x'', [(RawLocation (Some ''x'') (Some ''x'') (Some ''x''), 2)])]),
       (None, [(None, [(RawLocation None None None, 1)])])])]"
  by code_simp

section \<open>Properties\<close>

text \<open>
  C29. A client that reads the photos endpoint with any accepted filters and any page size,
  sending each cursor back until none comes, gets exactly the matching photos, each once and
  in the order of the gallery, and the reading ends.
\<close>

theorem gallery_pages_complete:
  assumes "distinct (map st_file (file_states d))" and "0 < limit" and "validate_gallery cu f loc = Inr f'"
  shows "read_gallery cu d limit f loc None =
    Inr (map (card_of d) (order_by gallery_key (filter (gallery_match f') (gallery_rows d))))"
  using read_gallery_hits[OF assms, of None]
  by (simp add: cursor_fits_def hits_after_def after_gallery_cursor_def)

theorem gallery_pages_complete_witness:
  "read_gallery Some demo_gallery 1 no_filters None None =
    Inr (map (card_of demo_gallery) (order_by gallery_key (filter (gallery_match no_filters) (gallery_rows demo_gallery))))"
  by (rule gallery_pages_complete[OF demo_ok(1)])
    (simp_all add: validate_gallery_def no_filters_def category_conflict_def location_conflict_def)

text \<open>
  C30. The four counts of a year in the hierarchy are the numbers of photos that a client
  reads, with any page size, by paging that year without another filter, with
  photo_category=DAILY, with unclassified=true and with date_unclassified=true.
\<close>

theorem hierarchy_year_counts:
  assumes "distinct (map st_file (file_states d))" and "categories_ok d" and "0 < limit"
    and "(y, b) \<in> set (gallery_hierarchy d)"
  shows "[read_count cu d limit (no_filters\<lparr>gf_year := Some y\<rparr>) None,
      read_count cu d limit (no_filters\<lparr>gf_year := Some y, gf_category := Some ''DAILY''\<rparr>) None,
      read_count cu d limit (no_filters\<lparr>gf_year := Some y, gf_unclassified := True\<rparr>) None,
      read_count cu d limit (no_filters\<lparr>gf_year := Some y, gf_date_unclassified := True\<rparr>) None]
    = [Some (yb_count b), Some (yb_daily b), Some (yb_unclassified b), Some (yb_date_unclassified b)]"
proof -
  note match = gallery_match_def no_filters_def if_set_def location_match_def hierarchy_key_of_def Let_def
  have "read_count cu d limit (no_filters\<lparr>gf_year := Some y\<rparr>) None = Some (yb_count b)"
    unfolding year_bucketD(1)[OF assms(4)]
    by (subst read_count_where[OF assms(1,3), of _ _ _ "no_filters\<lparr>gf_year := Some y\<rparr>"])
      (auto simp: validate_gallery_def category_conflict_def location_conflict_def year_shown match intro!: count_where_cong)
  moreover have "read_count cu d limit (no_filters\<lparr>gf_year := Some y, gf_category := Some ''DAILY''\<rparr>) None
      = Some (yb_daily b)"
    unfolding year_bucketD(2)[OF assms(4)]
    by (subst read_count_where[OF assms(1,3), of _ _ _ "no_filters\<lparr>gf_year := Some y, gf_category := Some ''DAILY''\<rparr>"])
      (auto simp: validate_gallery_def category_conflict_def location_conflict_def year_shown match intro!: count_where_cong)
  moreover have "read_count cu d limit (no_filters\<lparr>gf_year := Some y, gf_unclassified := True\<rparr>) None
      = Some (yb_unclassified b)"
    unfolding year_bucketD(3)[OF assms(4)]
    by (subst read_count_where[OF assms(1,3), of _ _ _ "no_filters\<lparr>gf_year := Some y, gf_unclassified := True\<rparr>"])
      (auto simp: validate_gallery_def category_conflict_def location_conflict_def year_shown match
        category_cases[OF assms(2)] location_incomplete_def intro!: count_where_cong)
  moreover have "read_count cu d limit (no_filters\<lparr>gf_year := Some y, gf_date_unclassified := True\<rparr>) None
      = Some (yb_date_unclassified b)"
    unfolding year_bucketD(4)[OF assms(4)]
    by (subst read_count_where[OF assms(1,3), of _ _ _ "no_filters\<lparr>gf_year := Some y, gf_date_unclassified := True\<rparr>"])
      (auto simp: validate_gallery_def category_conflict_def location_conflict_def year_shown match intro!: count_where_cong)
  ultimately show ?thesis by simp
qed

theorem hierarchy_year_counts_witness:
  "[read_count Some demo_gallery 1 (no_filters\<lparr>gf_year := Some 2020\<rparr>) None,
      read_count Some demo_gallery 1 (no_filters\<lparr>gf_year := Some 2020, gf_category := Some ''DAILY''\<rparr>) None,
      read_count Some demo_gallery 1 (no_filters\<lparr>gf_year := Some 2020, gf_unclassified := True\<rparr>) None,
      read_count Some demo_gallery 1 (no_filters\<lparr>gf_year := Some 2020, gf_date_unclassified := True\<rparr>) None]
    = [Some 4, Some 1, Some 1, Some 1]"
proof -
  obtain b where b: "gallery_hierarchy demo_gallery = [(2020, b)]"
    "yb_count b = 4" "yb_daily b = 1" "yb_unclassified b = 1" "yb_date_unclassified b = 1"
    using demo_hierarchy by auto
  then show ?thesis using hierarchy_year_counts[OF demo_ok, of 1 2020 b Some] by simp
qed

text \<open>Under one place id every photo shows a usable place label.\<close>

definition place_labels_ok :: "mk_state \<Rightarrow> bool" where
  "place_labels_ok d \<longleftrightarrow> list_all (\<lambda>r. gr_place_id r \<noteq> None \<longrightarrow> \<not> missing_label (gr_label r)) (gallery_rows d)"

definition leaf_filters :: "int \<Rightarrow> string option \<Rightarrow> string option \<Rightarrow> gallery_filters" where
  "leaf_filters y c g = no_filters\<lparr>gf_year := Some y, gf_country := c, gf_region := g\<rparr>"

lemma key_incomplete:
  assumes "location_incomplete r"
  shows "hk_country (hierarchy_key_of r) = None" "hk_region (hierarchy_key_of r) = None"
    "leaf_key (hierarchy_key_of r) = RawLocation None None None"
  using assms by (simp_all add: hierarchy_key_of_def leaf_key_def Let_def)

lemma key_complete:
  assumes "normal_photo r" and "location_complete r"
  shows "hk_country (hierarchy_key_of r) = gr_country r" "hk_region (hierarchy_key_of r) = gr_region r"
    "leaf_key (hierarchy_key_of r) = (case gr_place_id r of Some p \<Rightarrow> Registered p
       | None \<Rightarrow> RawLocation (gr_country r) (gr_region r) (gr_label r))"
  using assms
  by (simp_all add: hierarchy_key_of_def leaf_key_def location_incomplete_def normal_photo_def Let_def split: option.split)

lemma leaf_rowD:
  assumes "categories_ok d" and "r \<in> set (gallery_rows d)"
    and "hk_category (hierarchy_key_of r) \<noteq> ''DAILY''"
  shows "normal_photo r"
  using category_cases[OF assms(1,2)] assms(3) by (simp add: hierarchy_key_of_def Let_def)

lemma leaf_matches:
  assumes ok: "categories_ok d" "place_labels_ok d" and r: "r \<in> set (gallery_rows d)" and s: "s \<in> set (gallery_rows d)"
    and s': "hk_category (hierarchy_key_of s) \<noteq> ''DAILY''" "leaf_key (hierarchy_key_of s) = l"
      "hk_country (hierarchy_key_of s) = c" "hk_region (hierarchy_key_of s) = g"
  shows "location_match ((leaf_filters y c g)\<lparr>gf_location := Some l\<rparr>) r \<longleftrightarrow>
    hk_category (hierarchy_key_of r) \<noteq> ''DAILY'' \<and>
    hk_country (hierarchy_key_of r) = c \<and> hk_region (hierarchy_key_of r) = g \<and> leaf_key (hierarchy_key_of r) = l"
    (is "?match \<longleftrightarrow> ?key")
proof -
  have normal: "normal_photo s" by (rule leaf_rowD[OF ok(1) s s'(1)])
  have category: "hk_category (hierarchy_key_of r) \<noteq> ''DAILY'' \<longleftrightarrow> normal_photo r"
    using category_cases[OF ok(1) r] by (simp add: hierarchy_key_of_def Let_def)
  have label: "gr_place_id r = Some p \<Longrightarrow> \<not> missing_label (gr_label r)" for p
    using ok(2) r by (auto simp: place_labels_ok_def list_all_iff)
  note meta = shown_metadata[OF r]
  show ?thesis
  proof (cases "location_complete s")
    case False
    then have l: "l = RawLocation None None None" "c = None" "g = None"
      using key_incomplete[of s] normal s' by (auto simp: location_incomplete_def)
    then have "?match \<longleftrightarrow> location_incomplete r" by (simp add: location_match_def leaf_filters_def)
    moreover have "?key" if "location_incomplete r"
      using key_incomplete[OF that] that category l by (simp add: location_incomplete_def)
    moreover have "location_incomplete r" if "?key"
    proof (rule ccontr)
      assume "\<not> location_incomplete r"
      then have "normal_photo r" "location_complete r" using that category by (auto simp: location_incomplete_def)
      then show False using key_complete[of r] complete_shown[of r] that l by simp
    qed
    ultimately show ?thesis by blast
  next
    case True
    note s_key = key_complete[OF normal True] complete_shown[OF True]
    have c: "c = gr_country s" "g = gr_region s" "c \<noteq> None" "g \<noteq> None" using s_key s' by auto
    have key: "?key \<longleftrightarrow> normal_photo r \<and> location_complete r \<and> gr_country r = c \<and> gr_region r = g \<and>
        (case gr_place_id r of Some p \<Rightarrow> Registered p
         | None \<Rightarrow> RawLocation (gr_country r) (gr_region r) (gr_label r)) = l"
      using category key_complete[of r] key_incomplete[of r] c(3)
      by (cases "location_complete r"; cases "normal_photo r") (auto simp: location_incomplete_def)
    have labels: "\<not> missing_label c" "\<not> missing_label g" "\<not> missing_label (gr_label s)"
      using True c by (auto simp: location_complete_def)
    show ?thesis
    proof (cases "gr_place_id s")
      case None
      then have "l = RawLocation c g (gr_label s)" using s_key(3) s'(2) c by simp
      then show ?thesis unfolding key using c labels meta
        by (cases "gr_meta r") (auto simp: location_match_def leaf_filters_def location_complete_def split: option.splits)
    next
      case (Some p)
      then have "l = Registered p" using s_key(3) s'(2) by simp
      then show ?thesis unfolding key using c labels meta label
        by (cases "gr_meta r")
          (auto simp: location_match_def leaf_filters_def no_filters_def if_set_def location_complete_def
            split: option.splits)
    qed
  qed
qed

text \<open>
  The count of a place leaf is the number of photos that a client reads by paging its
  year with its location_key and the country and region it stands under, as long as every
  photo assigned to a place shows a usable place label.
\<close>

theorem hierarchy_leaf_counts:
  assumes "distinct (map st_file (file_states d))" and "categories_ok d" and "place_labels_ok d" and "0 < limit"
    and "(y, b) \<in> set (gallery_hierarchy d)" and "(c, cb) \<in> set (yb_countries b)"
    and "(g, rb) \<in> set (cb_regions cb)" and "(l, n) \<in> set (rb_places rb)"
  shows "read_count cu d limit (leaf_filters y c g) (Some l) = Some (pn_count n)"
proof -
  let ?P = "\<lambda>k. hk_year k = y \<and> hk_category k \<noteq> ''DAILY'' \<and> hk_country k = c \<and> hk_region k = g \<and> leaf_key k = l"
  let ?gs = "filter (\<lambda>x. ?P (fst x)) (hierarchy_rows d)"
  note nodes = assms(8)[unfolded region_bucketD(2)[OF assms(7)[unfolded country_bucketD(2)[OF
      assms(6)[unfolded year_bucketD(5)[OF assms(5)]]]]]]
  have "pn_count n = sum_list (map snd ?gs)" and "?gs \<noteq> []"
    using place_nodeD[OF nodes] by (simp_all add: conj_ac)
  then have n: "pn_count n = count_where (\<lambda>r. ?P (hierarchy_key_of r)) (gallery_rows d)"
    using hierarchy_sum[of ?P d] by simp
  from \<open>?gs \<noteq> []\<close> obtain x where "x \<in> set (hierarchy_rows d)" "?P (fst x)"
    by (auto simp: filter_empty_conv)
  then obtain s where s: "s \<in> set (gallery_rows d)" "?P (hierarchy_key_of s)"
    by (auto simp: hierarchy_rows_def group_counts_def)
  have "validate_gallery cu (leaf_filters y c g) (Some l) = Inr ((leaf_filters y c g)\<lparr>gf_location := Some l\<rparr>)"
    by (simp add: validate_gallery_def leaf_filters_def no_filters_def category_conflict_def location_conflict_def)
  from read_count_where[OF assms(1,4) this]
  have "read_count cu d limit (leaf_filters y c g) (Some l)
      = Some (count_where (gallery_match ((leaf_filters y c g)\<lparr>gf_location := Some l\<rparr>)) (gallery_rows d))" .
  moreover have "gallery_match ((leaf_filters y c g)\<lparr>gf_location := Some l\<rparr>) r \<longleftrightarrow> ?P (hierarchy_key_of r)"
    if r: "r \<in> set (gallery_rows d)" for r
  proof -
    have "st_year (gr_state r) = Some y \<longleftrightarrow> hk_year (hierarchy_key_of r) = y"
      using year_shown[OF r] by (simp add: hierarchy_key_of_def Let_def)
    then show ?thesis
      using leaf_matches[OF assms(2,3) r s(1), of l c g y] s(2)
      by (simp add: gallery_match_def leaf_filters_def no_filters_def if_set_def)
  qed
  ultimately show ?thesis using n by (simp cong: count_where_cong)
qed


theorem hierarchy_leaf_counts_witness:
  "read_count Some demo_gallery 1 (leaf_filters 2020 (Some ''x'') (Some ''x''))
     (Some (RawLocation (Some ''x'') (Some ''x'') (Some ''x''))) = Some 2"
proof -
  obtain b cb rb n where "(2020, b) \<in> set (gallery_hierarchy demo_gallery)" "(Some ''x'', cb) \<in> set (yb_countries b)"
    "(Some ''x'', rb) \<in> set (cb_regions cb)" "(RawLocation (Some ''x'') (Some ''x'') (Some ''x''), n) \<in> set (rb_places rb)"
    and n: "pn_count n = 2"
    using demo_leaf by (auto simp: map_eq_Cons_conv)
  moreover have "place_labels_ok demo_gallery" by code_simp
  ultimately show ?thesis
    using hierarchy_leaf_counts[OF demo_ok, of 1 2020 b "Some ''x''" cb "Some ''x''" rb _ n Some] by simp
qed

end
