(* ===== verification/PlaceInvariant.thy ===== *)
theory PlaceInvariant
  imports MkFiles
begin

text \<open>
  What every request on MemoryKeeper photos and places keeps: keys are unique, the place of a
  photo exists and is not deleted, and a DAILY photo has no place. The invariant is stated
  over three views of the state, and a lemma per primitive says what it does to them.
\<close>

section \<open>Views\<close>

definition live_places :: "mk_state \<Rightarrow> string set" where
  "live_places d = {pl_id p | p. p \<in> set (mk_places d) \<and> pl_deleted_at p = None}"

definition daily_files :: "mk_state \<Rightarrow> int set" where
  "daily_files d = {st_file s | s. s \<in> set (file_states d) \<and> st_category s = ''DAILY''}"

definition placements :: "mk_state \<Rightarrow> (int \<times> string) set" where
  "placements d = {(md_file m, i) | m i. m \<in> set (metadata_rows d) \<and> md_place_id m = Some i}"

definition keys_ok :: "mk_state \<Rightarrow> bool" where
  "keys_ok d \<longleftrightarrow> distinct (map md_file (metadata_rows d)) \<and> distinct (map st_file (file_states d)) \<and>
     distinct (map pl_id (mk_places d)) \<and> distinct (map cf_id (files (base d))) \<and>
     md_file ` set (metadata_rows d) \<subseteq> cf_id ` set (files (base d))"

definition relations_ok :: "mk_state \<Rightarrow> bool" where
  "relations_ok d \<longleftrightarrow> snd ` placements d \<subseteq> live_places d \<and> fst ` placements d \<inter> daily_files d = {}"

definition mk_ok :: "mk_state \<Rightarrow> bool" where
  "mk_ok d \<longleftrightarrow> keys_ok d \<and> relations_ok d"

named_theorems view_simps "the views of the state after a primitive"

lemma relations_ok_cong:
  "placements d' \<subseteq> placements d \<Longrightarrow> live_places d \<subseteq> live_places d' \<Longrightarrow> daily_files d' \<subseteq> daily_files d
   \<Longrightarrow> relations_ok d \<Longrightarrow> relations_ok d'"
  unfolding relations_ok_def by blast

section \<open>Primitives that no view sees\<close>

lemma add_histories_views [view_simps]:
  "placements (add_histories hs d) = placements d" "live_places (add_histories hs d) = live_places d"
  "daily_files (add_histories hs d) = daily_files d" "keys_ok (add_histories hs d) = keys_ok d"
  "metadata_rows (add_histories hs d) = metadata_rows d" "file_states (add_histories hs d) = file_states d"
  "mk_places (add_histories hs d) = mk_places d" "files (base (add_histories hs d)) = files (base d)"
  "links (base (add_histories hs d)) = links (base d)"
  by (simp_all add: add_histories_def placements_def live_places_def daily_files_def keys_ok_def)

lemma mk_change_views [view_simps]:
  "placements (mk_change now r k op n t d) = placements d" "live_places (mk_change now r k op n t d) = live_places d"
  "daily_files (mk_change now r k op n t d) = daily_files d" "keys_ok (mk_change now r k op n t d) = keys_ok d"
  "metadata_rows (mk_change now r k op n t d) = metadata_rows d" "file_states (mk_change now r k op n t d) = file_states d"
  "mk_places (mk_change now r k op n t d) = mk_places d" "files (base (mk_change now r k op n t d)) = files (base d)"
  "links (base (mk_change now r k op n t d)) = links (base d)"
  by (simp_all add: mk_change_def append_change_def placements_def live_places_def daily_files_def keys_ok_def)

lemma file_place_change_views [view_simps]:
  "placements (file_place_change now i n d) = placements d" "live_places (file_place_change now i n d) = live_places d"
  "daily_files (file_place_change now i n d) = daily_files d" "keys_ok (file_place_change now i n d) = keys_ok d"
  "metadata_rows (file_place_change now i n d) = metadata_rows d" "file_states (file_place_change now i n d) = file_states d"
  "mk_places (file_place_change now i n d) = mk_places d" "files (base (file_place_change now i n d)) = files (base d)"
  "links (base (file_place_change now i n d)) = links (base d)"
  by (simp_all add: file_place_change_def view_simps split: option.splits)

lemma live_places_map:
  "live_places d = fst ` {x \<in> set (map (\<lambda>p. (pl_id p, pl_deleted_at p)) (mk_places d)). snd x = None}"
  by (force simp: live_places_def)

lemma live_places_update:
  assumes "\<And>p. P p \<Longrightarrow> pl_id (f p) = pl_id p \<and> pl_deleted_at (f p) = pl_deleted_at p"
  shows "live_places (d\<lparr>mk_places := update_where P f (mk_places d)\<rparr>) = live_places d"
proof -
  have "map (\<lambda>p. (pl_id p, pl_deleted_at p)) (update_where P f (mk_places d)) = map (\<lambda>p. (pl_id p, pl_deleted_at p)) (mk_places d)"
    using assms by (intro map_update_where) simp
  then show ?thesis by (simp add: live_places_map)
qed

lemma update_place_views:
  assumes "\<And>p. P p \<Longrightarrow> pl_id (f p) = pl_id p \<and> pl_deleted_at (f p) = pl_deleted_at p"
  shows "placements (d\<lparr>mk_places := update_where P f (mk_places d)\<rparr>) = placements d"
    "live_places (d\<lparr>mk_places := update_where P f (mk_places d)\<rparr>) = live_places d"
    "daily_files (d\<lparr>mk_places := update_where P f (mk_places d)\<rparr>) = daily_files d"
    "keys_ok (d\<lparr>mk_places := update_where P f (mk_places d)\<rparr>) = keys_ok d"
  using live_places_update[of P f d] assms
  by (simp_all add: placements_def daily_files_def keys_ok_def map_update_where)

lemma touch_usage_views [view_simps]:
  "placements (touch_usage now i d) = placements d" "live_places (touch_usage now i d) = live_places d"
  "daily_files (touch_usage now i d) = daily_files d" "keys_ok (touch_usage now i d) = keys_ok d"
  "metadata_rows (touch_usage now i d) = metadata_rows d" "file_states (touch_usage now i d) = file_states d"
  "files (base (touch_usage now i d)) = files (base d)" "links (base (touch_usage now i d)) = links (base d)"
  unfolding touch_usage_def by (simp_all add: update_place_views)

section \<open>Primitives that write a view\<close>

lemma placements_put_metadata:
  assumes "md_file m \<in> md_file ` set (metadata_rows d)"
  shows "placements (put_metadata m d) =
    {x \<in> placements d. fst x \<noteq> md_file m} \<union> (case md_place_id m of None \<Rightarrow> {} | Some i \<Rightarrow> {(md_file m, i)})"
  using assms by (auto simp: placements_def put_metadata_def set_save_row split: option.splits)

lemma put_metadata_views [view_simps]:
  "live_places (put_metadata m d) = live_places d" "daily_files (put_metadata m d) = daily_files d"
  "file_states (put_metadata m d) = file_states d" "mk_places (put_metadata m d) = mk_places d"
  "files (base (put_metadata m d)) = files (base d)" "links (base (put_metadata m d)) = links (base d)"
  "map md_file (metadata_rows (put_metadata m d)) = map md_file (metadata_rows d)"
  by (simp_all add: put_metadata_def live_places_def daily_files_def)

lemma keys_ok_put_metadata [view_simps]: "keys_ok (put_metadata m d) = keys_ok d"
proof -
  have "md_file ` set (metadata_rows (put_metadata m d)) = md_file ` set (metadata_rows d)"
    by (metis put_metadata_views(7) set_map)
  then show ?thesis by (simp add: keys_ok_def view_simps)
qed

lemma put_state_views [view_simps]:
  "live_places (put_state s d) = live_places d" "placements (put_state s d) = placements d"
  "metadata_rows (put_state s d) = metadata_rows d" "mk_places (put_state s d) = mk_places d"
  "files (base (put_state s d)) = files (base d)" "links (base (put_state s d)) = links (base d)"
  by (simp_all add: put_state_def live_places_def placements_def)

lemma state_of_None: "state_of d i = None \<longleftrightarrow> i \<notin> st_file ` set (file_states d)"
  by (simp add: state_of_def find_row_None_iff)

lemma state_of_SomeD: "state_of d i = Some s \<Longrightarrow> s \<in> set (file_states d) \<and> st_file s = i"
  unfolding state_of_def by (rule find_row_SomeD)

lemma daily_put_state:
  "daily_files (put_state s d) = {i \<in> daily_files d. i \<noteq> st_file s} \<union> (if st_category s = ''DAILY'' then {st_file s} else {})"
proof (cases "state_of d (st_file s) = None")
  case True
  then have "st_file x \<noteq> st_file s" if "x \<in> set (file_states d)" for x using that by (metis state_of_None imageI)
  then show ?thesis using True by (auto simp: daily_files_def put_state_def)
next
  case False
  then show ?thesis by (auto simp: daily_files_def put_state_def set_save_row state_of_None)
qed

lemma keys_ok_put_state [view_simps]: "keys_ok (put_state s d) = keys_ok d"
  by (auto simp: keys_ok_def put_state_def state_of_None)

lemma placements_insert_metadata:
  "placements (insert_metadata m d) = placements d \<union> (case md_place_id m of None \<Rightarrow> {} | Some i \<Rightarrow> {(md_file m, i)})"
  by (auto simp: placements_def insert_metadata_def split: option.splits)

lemma metadata_of_None: "metadata_of d i = None \<longleftrightarrow> i \<notin> md_file ` set (metadata_rows d)"
  by (simp add: metadata_of_def find_row_None_iff)

lemma metadata_of_SomeD: "metadata_of d i = Some m \<Longrightarrow> m \<in> set (metadata_rows d) \<and> md_file m = i"
  unfolding metadata_of_def by (rule find_row_SomeD)

lemma ensure_metadata_views [view_simps]:
  "placements (ensure_metadata i d) = placements d" "live_places (ensure_metadata i d) = live_places d"
  "daily_files (ensure_metadata i d) = daily_files d" "file_states (ensure_metadata i d) = file_states d"
  "mk_places (ensure_metadata i d) = mk_places d" "files (base (ensure_metadata i d)) = files (base d)"
  "links (base (ensure_metadata i d)) = links (base d)"
  by (auto simp: ensure_metadata_def placements_insert_metadata new_metadata_def)
    (auto simp: insert_metadata_def live_places_def daily_files_def)

lemma keys_ok_ensure_metadata:
  "keys_ok d \<Longrightarrow> i \<in> cf_id ` set (files (base d)) \<Longrightarrow> keys_ok (ensure_metadata i d)"
  by (auto simp: ensure_metadata_def keys_ok_def insert_metadata_def metadata_of_None new_metadata_def)

lemma mk_file_SomeD:
  assumes "mk_file d i = Some f"
  shows "f \<in> set (files (base d))" "cf_file_id f = i" "\<not> cf_deleted f" "mk_linked d (cf_id f)"
  using find_row_SomeD[OF assms[unfolded mk_file_def]] by auto

section \<open>States and relations\<close>

lemma with_projection_kept [simp]:
  "st_file (with_projection p s) = st_file s" "st_category (with_projection p s) = st_category s"
  by (simp_all add: with_projection_def)

lemma synchronize_views:
  assumes "synchronize now f m s d = Some d'"
  shows "keys_ok d' = keys_ok d" "live_places d' = live_places d" "placements d' = placements d"
    "daily_files d' = {i \<in> daily_files d. i \<noteq> st_file s} \<union> (if st_category s = ''DAILY'' then {st_file s} else {})"
    "files (base d') = files (base d)" "metadata_rows d' = metadata_rows d" "mk_places d' = mk_places d"
    "links (base d') = links (base d)"
  using assms by (auto simp: synchronize_def Let_def view_simps daily_put_state split: if_splits)

lemma create_state_views:
  assumes "create_state now f d = Some d'"
  shows "keys_ok d' = keys_ok d" "live_places d' = live_places d" "placements d' = placements d"
    "daily_files d' \<subseteq> daily_files d" "files (base d') = files (base d)" "metadata_rows d' = metadata_rows d"
    "mk_places d' = mk_places d" "links (base d') = links (base d)"
  using synchronize_views[OF assms[unfolded create_state_def]] by (auto simp: new_state_def)

lemma create_state_ok: "create_state now f d = Some d' \<Longrightarrow> mk_ok d \<Longrightarrow> mk_ok d'"
  using create_state_views relations_ok_cong[of d' d] by (simp add: mk_ok_def)

lemma synchronize_ok:
  assumes "synchronize now f m s' d = Some d'" and "state_of d (st_file s') = Some s" and "st_category s' = st_category s"
    and "mk_ok d"
  shows "mk_ok d'"
proof -
  have "daily_files d' \<subseteq> daily_files d"
    using synchronize_views(4)[OF assms(1)] assms(3) state_of_SomeD[OF assms(2)]
    unfolding daily_files_def by (auto split: if_splits) metis
  then show ?thesis
    using synchronize_views[OF assms(1)] assms(4) relations_ok_cong[of d' d] by (simp add: mk_ok_def)
qed

text \<open>
  Writing the relation of a photo keeps the invariant when the place is live and the photo is
  not DAILY.
\<close>

lemma write_relation_views [view_simps]:
  "keys_ok (write_relation now m place src dst touch d) = keys_ok d"
  "live_places (write_relation now m place src dst touch d) = live_places d"
  "daily_files (write_relation now m place src dst touch d) = daily_files d"
  "file_states (write_relation now m place src dst touch d) = file_states d"
  "files (base (write_relation now m place src dst touch d)) = files (base d)"
  "links (base (write_relation now m place src dst touch d)) = links (base d)"
  by (simp_all add: write_relation_def Let_def view_simps split: option.splits)

lemma write_relation_places:
  "map (\<lambda>p. (pl_id p, pl_deleted_at p, pl_active p, pl_latitude p, pl_longitude p, pl_revision p))
     (mk_places (write_relation now m place src dst touch d))
   = map (\<lambda>p. (pl_id p, pl_deleted_at p, pl_active p, pl_latitude p, pl_longitude p, pl_revision p)) (mk_places d)"
  by (simp add: write_relation_def Let_def view_simps touch_usage_def map_update_where split: option.splits)

lemma write_relation_row:
  "m \<in> set (metadata_rows d) \<Longrightarrow> metadata_rows (write_relation now m place src dst touch d) =
    (if md_place_id m = place \<and> md_match_source m = Some src \<and> md_match_distance m = dst then metadata_rows d
     else save_row md_file (m\<lparr>md_place_id := place, md_match_source := Some src, md_match_distance := dst,
            md_match_revision := md_match_revision m + 1\<rparr>) (metadata_rows d))"
  by (simp add: write_relation_def Let_def view_simps put_metadata_def split: option.splits)

lemma write_relation_placements:
  assumes "m \<in> set (metadata_rows d)" and "distinct (map md_file (metadata_rows d))"
  shows "placements (write_relation now m place src dst touch d) =
    {x \<in> placements d. fst x \<noteq> md_file m} \<union> (case place of None \<Rightarrow> {} | Some i \<Rightarrow> {(md_file m, i)})"
proof (cases "md_place_id m = place \<and> md_match_source m = Some src \<and> md_match_distance m = dst")
  case True
  have same: "x = m" if "x \<in> set (metadata_rows d)" "md_file x = md_file m" for x
    using that assms by (auto simp: distinct_map inj_on_def)
  have at: "(md_file m, i) \<in> placements d \<longleftrightarrow> place = Some i" for i
  proof
    assume "(md_file m, i) \<in> placements d"
    then obtain x where "x \<in> set (metadata_rows d)" "md_file x = md_file m" "md_place_id x = Some i"
      unfolding placements_def by auto
    with same True show "place = Some i" by metis
  next
    assume "place = Some i"
    then show "(md_file m, i) \<in> placements d" using assms(1) True unfolding placements_def by auto
  qed
  have "(a, i) \<in> placements d \<longleftrightarrow> (a, i) \<in> {x \<in> placements d. fst x \<noteq> md_file m} \<union>
      (case place of None \<Rightarrow> {} | Some i \<Rightarrow> {(md_file m, i)})" for a i
    using at[of i] by (cases "a = md_file m"; cases place) auto
  then have "placements d = {x \<in> placements d. fst x \<noteq> md_file m} \<union>
      (case place of None \<Rightarrow> {} | Some i \<Rightarrow> {(md_file m, i)})" by (simp only: set_eq_iff split_paired_All) simp
  moreover have "write_relation now m place src dst touch d = d" using True by (simp add: write_relation_def)
  ultimately show ?thesis by simp
next
  case False
  let ?m = "m\<lparr>md_place_id := place, md_match_source := Some src, md_match_distance := dst,
    md_match_revision := md_match_revision m + 1\<rparr>"
  have "placements (write_relation now m place src dst touch d) = placements (put_metadata ?m d)"
    unfolding write_relation_def Let_def if_not_P[OF False] by (simp add: view_simps split: option.split)
  moreover have "md_file ?m \<in> md_file ` set (metadata_rows d)" using assms(1) by simp
  note placements_put_metadata[OF this]
  ultimately show ?thesis by (simp split: option.split)
qed

lemma place_get_live: "place_get i d = None \<longleftrightarrow> i \<notin> live_places d"
  by (auto simp: place_get_def find_row_None_iff live_places_def)

lemma place_get_SomeD: "place_get i d = Some p \<Longrightarrow> p \<in> set (mk_places d) \<and> pl_id p = i \<and> pl_deleted_at p = None"
  unfolding place_get_def using find_row_SomeD by fastforce

lemma set_relation_Inr:
  "set_relation now m place src dst touch d = Inr d' \<longleftrightarrow>
     d' = write_relation now m place src dst touch d \<and>
     (case place of None \<Rightarrow> True | Some i \<Rightarrow> (\<exists>p. place_get i d = Some p \<and> pl_active p))"
  by (auto simp: set_relation_def split: option.splits if_splits)

lemma set_relation_ok:
  assumes "set_relation now m place src dst touch d = Inr d'" and "mk_ok d" and "m \<in> set (metadata_rows d)"
    and "place = None \<or> md_file m \<notin> daily_files d"
  shows "mk_ok d'"
proof -
  have d': "d' = write_relation now m place src dst touch d"
    and live: "place = Some i \<Longrightarrow> i \<in> live_places d" for i
    using assms(1) place_get_live[of i d] by (auto simp: set_relation_Inr)
  have keys: "distinct (map md_file (metadata_rows d))" using assms(2) by (simp add: mk_ok_def keys_ok_def)
  have "relations_ok d'"
    using assms(2,4) live unfolding relations_ok_def d' view_simps write_relation_placements[OF assms(3) keys] mk_ok_def
    by (auto split: option.splits)
  then show ?thesis using assms(2) by (simp add: mk_ok_def d' view_simps)
qed

end
