(* ===== verification/PlaceRequests.thy ===== *)
theory PlaceRequests
  imports PlaceInvariant
begin

text \<open>
  Every request of \<open>PlaceService\<close>, \<open>CaptureDates\<close> and \<open>MkFiles\<close> keeps the invariant
  \<open>mk_ok\<close>; the steps between committed states and the states they reach.
\<close>

section \<open>Places\<close>

lemma mk_ok_unseen [intro]:
  assumes "mk_ok d"
  shows "mk_ok (mk_change now r k op n t d)" "mk_ok (add_histories hs d)" "mk_ok (file_place_change now i v d)"
  using assms by (simp_all add: mk_ok_def relations_ok_def view_simps)

lemma mk_ok_place_change [intro]: "mk_ok d \<Longrightarrow> mk_ok (place_change now p op t d)"
  by (auto simp: place_change_def)

lemma insert_place_ok:
  assumes "insert_place p d = Some d'" and "mk_ok d"
  shows "mk_ok d'"
proof -
  have d': "d' = d\<lparr>mk_places := mk_places d @ [p]\<rparr>" and new: "pl_id p \<notin> pl_id ` set (mk_places d)"
    using assms(1) by (auto simp: insert_place_def split: if_splits)
  then have "live_places d \<subseteq> live_places d'" by (auto simp: live_places_def)
  moreover have "placements d' = placements d" "daily_files d' = daily_files d"
    by (simp_all add: d' placements_def daily_files_def)
  ultimately show ?thesis
    using assms(2) new relations_ok_cong[of d' d] by (auto simp: mk_ok_def keys_ok_def d')
qed

lemma create_place_ok: "create_place now i payload d = Inr (d', p) \<Longrightarrow> mk_ok d \<Longrightarrow> mk_ok d'"
  by (auto simp: create_place_def Let_def split: option.splits intro: insert_place_ok)

lemma patch_place_kept [simp]:
  "pl_id (patch_place t p) = pl_id p" "pl_deleted_at (patch_place t p) = pl_deleted_at p"
  by (simp_all add: patch_place_def)

lemma update_rows_ok:
  "mk_ok d \<Longrightarrow> (\<And>p. P p \<Longrightarrow> pl_id (f p) = pl_id p \<and> pl_deleted_at (f p) = pl_deleted_at p)
   \<Longrightarrow> mk_ok (d\<lparr>mk_places := update_where P f (mk_places d)\<rparr>)"
  by (simp add: mk_ok_def relations_ok_def update_place_views)

lemma update_place_ok:
  assumes "update_place now i payload d = Inr (d', p)" and "mk_ok d"
  shows "mk_ok d'"
proof -
  let ?d = "snd (update_place_if_revision now i (pt_revision payload) (patch_place payload) d)"
  have "mk_ok ?d"
    unfolding update_place_if_revision_def Let_def snd_conv by (rule update_rows_ok[OF assms(2)]) simp
  moreover obtain n d2 where u: "update_place_if_revision now i (pt_revision payload) (patch_place payload) d = (n, d2)"
    by force
  then obtain c where "d' = place_change now c UPDATE False d2"
    using assms(1) by (auto simp: update_place_def Let_def)
  ultimately show ?thesis using u by auto
qed

lemma put_place_views:
  "placements (put_place p d) = placements d" "daily_files (put_place p d) = daily_files d"
  "keys_ok (put_place p d) = keys_ok d" "live_places d - {pl_id p} \<subseteq> live_places (put_place p d)"
  by (simp_all add: put_place_def placements_def daily_files_def keys_ok_def)
    (auto simp: live_places_def set_save_row)

lemma live_put_place:
  assumes "pl_id p \<in> pl_id ` set (mk_places d)"
  shows "live_places (put_place p d) = live_places d - {pl_id p} \<union> (if pl_deleted_at p = None then {pl_id p} else {})"
proof -
  have "set (mk_places (put_place p d)) = insert p {x \<in> set (mk_places d). pl_id x \<noteq> pl_id p}"
    using assms by (simp add: put_place_def set_save_row)
  then show ?thesis unfolding live_places_def by auto
qed

lemma live_places_cong: "mk_places d' = mk_places d \<Longrightarrow> live_places d' = live_places d"
  by (simp add: live_places_def)

lemma retired_place_ok:
  assumes "mk_ok d" and "pl_id p \<notin> snd ` placements d"
  shows "mk_ok (put_place p d)"
proof -
  have "snd ` placements d \<subseteq> live_places d - {pl_id p}"
    using assms unfolding mk_ok_def relations_ok_def by blast
  then have "snd ` placements d \<subseteq> live_places (put_place p d)" using put_place_views(4) by (rule subset_trans)
  then show ?thesis using assms(1) by (simp add: mk_ok_def relations_ok_def put_place_views)
qed

lemma unreferenced: "total_reference_count d i = 0 \<longleftrightarrow> i \<notin> snd ` placements d"
  by (force simp: total_reference_count_def count_where_def filter_empty_conv placements_def)

lemma place_get_any_SomeD: "place_get_any i d = Some p \<Longrightarrow> p \<in> set (mk_places d) \<and> pl_id p = i"
  unfolding place_get_any_def by (rule find_row_SomeD)

lemma delete_place_ok:
  assumes "delete_place now i e d = Inr d'" and "mk_ok d"
  shows "mk_ok d'"
proof -
  obtain p where p: "place_get_any i d = Some p" "total_reference_count d i = 0"
    and d': "d' = place_change now (retire_place now p) DELETE True (put_place (retire_place now p) d)"
    using assms(1) by (auto simp: delete_place_def split: option.splits)
  have "pl_id (retire_place now p) = i" using place_get_any_SomeD[OF p(1)] by (simp add: retire_place_def)
  then have "mk_ok (put_place (retire_place now p) d)"
    using p(2) assms(2) by (intro retired_place_ok) (simp_all add: unreferenced)
  then show ?thesis unfolding d' by (rule mk_ok_place_change)
qed

section \<open>The photos of a merged place\<close>

definition moved_row :: "mk_place \<Rightarrow> file_metadata \<Rightarrow> file_metadata" where
  "moved_row target m = m\<lparr>md_place_id := Some (pl_id target), md_match_source := Some (moved_source m),
     md_match_distance := photo_distance m (Some target), md_match_revision := md_match_revision m + 1\<rparr>"

lemma moved_row_file [simp]: "md_file (moved_row t m) = md_file m" "md_place_id (moved_row t m) = Some (pl_id t)"
  by (simp_all add: moved_row_def)

lemma move_relation_step:
  assumes "m \<in> set (metadata_rows d)" and "md_place_id m \<noteq> Some (pl_id target)"
    and "place_get (pl_id target) d = Some p" and "pl_active p"
  obtains d' where "move_relation now target m d = Inr d'"
    "metadata_rows d' = save_row md_file (moved_row target m) (metadata_rows d)"
    "mk_places d' = mk_places d" "file_states d' = file_states d" "files (base d') = files (base d)"
    "links (base d') = links (base d)"
proof
  let ?d = "write_relation now m (Some (pl_id target)) (moved_source m) (photo_distance m (Some target)) False d"
  show "move_relation now target m d = Inr ?d"
    using assms(3,4) by (simp add: move_relation_def set_relation_def)
  show "metadata_rows ?d = save_row md_file (moved_row target m) (metadata_rows d)"
    using assms(1,2) by (simp add: write_relation_row moved_row_def)
  show "mk_places ?d = mk_places d" by (simp add: write_relation_def Let_def view_simps)
qed (simp_all add: view_simps)

lemma place_get_cong: "mk_places d' = mk_places d \<Longrightarrow> place_get i d' = place_get i d"
  by (simp add: place_get_def)

text \<open>The loop of a merge cannot fail, and it moves exactly its rows.\<close>

lemma move_all:
  assumes "distinct (map md_file rows)" and "distinct (map md_file (metadata_rows d))"
    and "set rows \<subseteq> set (metadata_rows d)" and "\<forall>m\<in>set rows. md_place_id m \<noteq> Some (pl_id target)"
    and "place_get (pl_id target) d = Some p" and "pl_active p"
  shows "\<exists>d'. for_each (move_relation now target) rows d = Inr d' \<and>
    metadata_rows d' = map (\<lambda>x. if x \<in> set rows then moved_row target x else x) (metadata_rows d) \<and>
    mk_places d' = mk_places d \<and> file_states d' = file_states d \<and> files (base d') = files (base d) \<and>
    links (base d') = links (base d)"
  using assms
proof (induction rows arbitrary: d)
  case (Cons m ms)
  then obtain d1 where d1: "move_relation now target m d = Inr d1"
    "metadata_rows d1 = save_row md_file (moved_row target m) (metadata_rows d)" "mk_places d1 = mk_places d"
    "file_states d1 = file_states d" "files (base d1) = files (base d)" "links (base d1) = links (base d)"
    using move_relation_step[of m d target p now] by auto
  have same: "x = m" if "x \<in> set (metadata_rows d)" "md_file x = md_file m" for x
    using that Cons.prems(2,3) by (auto simp: distinct_map inj_on_def)
  have rest: "x \<noteq> m \<and> md_file x \<noteq> md_file m" if "x \<in> set ms" for x
    using that Cons.prems(1) by (auto simp: image_iff)
  have "distinct (map md_file (metadata_rows d1))" using Cons.prems(2) by (simp add: d1(2))
  moreover have "set ms \<subseteq> set (metadata_rows d1)"
    using Cons.prems(3) rest by (auto simp: d1(2) set_save_row)
  ultimately obtain d2 where d2: "for_each (move_relation now target) ms d1 = Inr d2"
    "metadata_rows d2 = map (\<lambda>x. if x \<in> set ms then moved_row target x else x) (metadata_rows d1)"
    "mk_places d2 = mk_places d1" "file_states d2 = file_states d1" "files (base d2) = files (base d1)"
    "links (base d2) = links (base d1)"
    using Cons.IH[of d1] Cons.prems by (auto simp: place_get_cong[OF d1(3)])
  have "moved_row target m \<notin> set ms" using rest[of "moved_row target m"] by auto
  then have "(if y \<in> set ms then moved_row target y else y) = (if x \<in> set (m # ms) then moved_row target x else x)"
    if "x \<in> set (metadata_rows d)" "y = (if md_file x = md_file m then moved_row target m else x)" for x y
    using that same[of x] rest[of x] by auto
  then have "metadata_rows d2 = map (\<lambda>x. if x \<in> set (m # ms) then moved_row target x else x) (metadata_rows d)"
    by (simp add: d2(2) d1(2) save_row_def update_where_def)
  then show ?case using d1 d2 by simp
qed simp

lemma set_source_rows:
  assumes "mk_ok d"
  shows "set (source_rows d source target) = {m \<in> set (metadata_rows d). md_place_id m = Some (pl_id source)}"
  using assms by (auto simp: source_rows_def relation_rows_def mk_ok_def keys_ok_def find_row_None_iff)

lemma distinct_source_rows:
  assumes "mk_ok d"
  shows "distinct (map md_file (source_rows d source target))"
  using assms by (auto simp: source_rows_def relation_rows_def mk_ok_def keys_ok_def intro!: distinct_map_filter)

lemma length_source_rows:
  assumes "mk_ok d"
  shows "length (source_rows d source target) = total_reference_count d (pl_id source)"
proof -
  have "distinct (source_rows d source target)" using distinct_source_rows[OF assms] by (simp add: distinct_map)
  then have "length (source_rows d source target) = card {m \<in> set (metadata_rows d). md_place_id m = Some (pl_id source)}"
    using set_source_rows[OF assms] distinct_card by metis
  moreover have "distinct (filter (\<lambda>m. md_place_id m = Some (pl_id source)) (metadata_rows d))"
    using assms by (simp add: mk_ok_def keys_ok_def distinct_map)
  from distinct_card[OF this] have "total_reference_count d (pl_id source)
      = card {m \<in> set (metadata_rows d). md_place_id m = Some (pl_id source)}"
    by (simp add: total_reference_count_def count_where_def)
  ultimately show ?thesis by simp
qed

text \<open>What a merge that passes its checks does.\<close>

definition merge_ready :: "merge_payload \<Rightarrow> mk_state \<Rightarrow> mk_place \<Rightarrow> mk_place \<Rightarrow> bool" where
  "merge_ready payload d source target \<longleftrightarrow>
     mp_source payload \<noteq> mp_target payload \<and> place_get_any (mp_source payload) d = Some source \<and>
     place_get_any (mp_target payload) d = Some target \<and> pl_deleted_at source = None \<and> pl_active source \<and>
     pl_deleted_at target = None \<and> pl_active target \<and> pl_revision source = mp_source_revision payload \<and>
     pl_revision target = mp_target_revision payload"

lemma merge_ready_ids:
  assumes "merge_ready payload d source target"
  shows "pl_id source = mp_source payload" "pl_id target = mp_target payload" "pl_id source \<noteq> pl_id target"
    "source \<in> set (mk_places d)" "target \<in> set (mk_places d)"
  using assms place_get_any_SomeD unfolding merge_ready_def by metis+

lemma merge_Inr_ready:
  assumes "merge_places now payload d = Inr r"
  obtains source target where "merge_ready payload d source target"
  using assms
  by (auto simp: merge_places_def merge_ready_def merge_blocking_reasons_def Let_def split: option.splits if_splits)

lemma place_get_any_live:
  assumes "distinct (map pl_id (mk_places d))" and "place_get_any i d = Some p" and "pl_deleted_at p = None"
  shows "place_get i d = Some p"
  using find_row_mem[of pl_id "filter (\<lambda>p. pl_deleted_at p = None) (mk_places d)" p]
    place_get_any_SomeD[OF assms(2)] assms(1,3)
  by (simp add: place_get_def distinct_map_filter)

lemma finish_merge_views:
  "metadata_rows (finish_merge now s t d) = metadata_rows d" "file_states (finish_merge now s t d) = file_states d"
  "files (base (finish_merge now s t d)) = files (base d)" "links (base (finish_merge now s t d)) = links (base d)"
  "mk_places (finish_merge now s t d) = save_row pl_id (merged_target now t) (save_row pl_id (retire_place now s) (mk_places d))"
  by (simp_all add: finish_merge_def place_change_def view_simps put_place_def)

lemma merge_effect:
  assumes "mk_ok d" and "merge_ready payload d source target"
  shows "\<exists>d'. merge_places now payload d = Inr (d', merge_response_of now source target d d') \<and>
    metadata_rows d' = map (\<lambda>x. if md_place_id x = Some (pl_id source) then moved_row target x else x) (metadata_rows d) \<and>
    mk_places d' = save_row pl_id (merged_target now target) (save_row pl_id (retire_place now source) (mk_places d)) \<and>
    file_states d' = file_states d \<and> files (base d') = files (base d) \<and> links (base d') = links (base d)"
proof -
  note ids = merge_ready_ids[OF assms(2)]
  have ready: "place_get_any (mp_source payload) d = Some source" "place_get_any (mp_target payload) d = Some target"
    "pl_deleted_at source = None" "pl_active source" "pl_deleted_at target = None" "pl_active target"
    "pl_revision source = mp_source_revision payload" "pl_revision target = mp_target_revision payload"
    "mp_source payload \<noteq> mp_target payload"
    using assms(2) by (simp_all add: merge_ready_def)
  have keys: "distinct (map md_file (metadata_rows d))" "distinct (map pl_id (mk_places d))"
    using assms(1) by (simp_all add: mk_ok_def keys_ok_def)
  define rows where "rows = source_rows d source target"
  have rows: "set rows = {m \<in> set (metadata_rows d). md_place_id m = Some (pl_id source)}" "distinct (map md_file rows)"
    using set_source_rows[OF assms(1)] distinct_source_rows[OF assms(1)] by (simp_all add: rows_def)
  have "place_get (pl_id target) d = Some target"
    using place_get_any_live[OF keys(2) ready(2,5)] ids(2) by simp
  then obtain d1 where d1: "for_each (move_relation now target) rows d = Inr d1"
    "metadata_rows d1 = map (\<lambda>x. if x \<in> set rows then moved_row target x else x) (metadata_rows d)"
    "mk_places d1 = mk_places d" "file_states d1 = file_states d" "files (base d1) = files (base d)"
    "links (base d1) = links (base d)"
    using move_all[of rows d target target now] keys(1) ids(3) ready(6) rows by auto
  let ?d = "finish_merge now source target d1"
  have "merge_blocking_reasons source target = []" using ready ids(3) by (simp add: merge_blocking_reasons_def)
  then have "merge_places now payload d = Inr (?d, merge_response_of now source target d ?d)"
    using ready d1(1) unfolding rows_def by (simp add: merge_places_def)
  moreover have "metadata_rows ?d = map (\<lambda>x. if md_place_id x = Some (pl_id source) then moved_row target x else x) (metadata_rows d)"
    unfolding finish_merge_views d1(2) rows(1) by simp
  ultimately show ?thesis using d1 by (intro exI[of _ ?d]) (simp add: finish_merge_views)
qed

lemma merge_effectD:
  assumes "mk_ok d" and "merge_ready payload d source target" and "merge_places now payload d = Inr (d', r)"
  shows "r = merge_response_of now source target d d'"
    "metadata_rows d' = map (\<lambda>x. if md_place_id x = Some (pl_id source) then moved_row target x else x) (metadata_rows d)"
    "mk_places d' = save_row pl_id (merged_target now target) (save_row pl_id (retire_place now source) (mk_places d))"
    "file_states d' = file_states d" "files (base d') = files (base d)" "links (base d') = links (base d)"
  using merge_effect[OF assms(1,2), of now] assms(3) by auto

lemma merged_target_kept [simp]:
  "pl_id (merged_target now t) = pl_id t" "pl_deleted_at (merged_target now t) = pl_deleted_at t"
  "pl_active (merged_target now t) = pl_active t"
  by (simp_all add: merged_target_def)

lemma retire_place_kept [simp]: "pl_id (retire_place now p) = pl_id p"
  by (simp add: retire_place_def)

lemma placementE:
  assumes "(f, i) \<in> placements d"
  obtains m where "m \<in> set (metadata_rows d)" "md_file m = f" "md_place_id m = Some i"
  using assms by (auto simp: placements_def)

lemma merge_placements:
  assumes rows: "metadata_rows d' = map (\<lambda>x. if md_place_id x = Some s then moved_row target x else x) (metadata_rows d)"
    and "(f, i) \<in> placements d'"
  obtains j where "(f, j) \<in> placements d" "i = (if j = s then pl_id target else j)"
proof -
  obtain y where y: "y \<in> set (metadata_rows d')" "md_file y = f" "md_place_id y = Some i"
    using assms(2) by (rule placementE)
  then obtain m where m: "m \<in> set (metadata_rows d)" "y = (if md_place_id m = Some s then moved_row target m else m)"
    unfolding rows by auto
  show thesis
  proof (cases "md_place_id m = Some s")
    case True
    then show thesis using m y by (intro that[of s]) (auto simp: placements_def)
  next
    case False
    then show thesis using m y by (intro that[of i]) (auto simp: placements_def)
  qed
qed

lemma merge_places_ok:
  assumes "merge_places now payload d = Inr (d', r)" and "mk_ok d"
  shows "mk_ok d'"
proof -
  obtain source target where ready: "merge_ready payload d source target"
    using merge_Inr_ready[OF assms(1)] by blast
  note ids = merge_ready_ids[OF ready]
  note effect = merge_effectD[OF assms(2) ready assms(1)]
  note rows = effect(2) and places = effect(3) and rest = effect(4,5)
  have "map md_file (metadata_rows d') = map md_file (metadata_rows d)"
    unfolding rows by (simp add: comp_def if_distrib cong: if_cong)
  moreover from this have "md_file ` set (metadata_rows d') = md_file ` set (metadata_rows d)" by (metis set_map)
  moreover have "map pl_id (mk_places d') = map pl_id (mk_places d)" by (simp add: places)
  ultimately have keys: "keys_ok d'" using assms(2) rest by (simp add: mk_ok_def keys_ok_def)
  define d1 where "d1 = put_place (retire_place now source) d"
  have retired: "pl_deleted_at (retire_place now source) \<noteq> None" by (simp add: retire_place_def)
  have "pl_id (retire_place now source) \<in> pl_id ` set (mk_places d)" using ids(4) by simp
  from live_put_place[OF this] have "live_places d1 = live_places d - {pl_id source}"
    using retired unfolding d1_def by simp
  moreover have "map pl_id (mk_places d1) = map pl_id (mk_places d)" by (simp add: d1_def put_place_def)
  then have "pl_id ` set (mk_places d1) = pl_id ` set (mk_places d)" by (metis set_map)
  ultimately have d1: "live_places d1 = live_places d - {pl_id source}" "pl_id ` set (mk_places d1) = pl_id ` set (mk_places d)"
    by simp_all
  have "live_places d' = live_places (put_place (merged_target now target) d1)"
    by (rule live_places_cong) (simp add: places put_place_def d1_def)
  moreover have "pl_id target \<in> pl_id ` set (mk_places d1)" unfolding d1(2) using ids(5) by simp
  then have "live_places (put_place (merged_target now target) d1) = live_places d1 - {pl_id target} \<union> {pl_id target}"
    using live_put_place[of "merged_target now target" d1] ready by (simp add: merge_ready_def)
  ultimately have live: "live_places d - {pl_id source} \<subseteq> live_places d'" "pl_id target \<in> live_places d'"
    using d1(1) by auto
  have daily: "daily_files d' = daily_files d" by (simp add: daily_files_def rest)
  have moved: "f \<in> fst ` placements d \<and> i \<in> insert (pl_id target) (snd ` placements d - {pl_id source})"
    if placed: "(f, i) \<in> placements d'" for f i
  proof -
    obtain j where j: "(f, j) \<in> placements d" "i = (if j = pl_id source then pl_id target else j)"
      using merge_placements[OF rows placed] by blast
    then have "f \<in> fst ` placements d" "j \<in> snd ` placements d" by force+
    then show ?thesis using j(2) by auto
  qed
  have moved'': "fst x \<in> fst ` placements d" "snd x \<in> insert (pl_id target) (snd ` placements d - {pl_id source})"
    if "x \<in> placements d'" for x
    using moved[of "fst x" "snd x"] that by simp_all
  have views: "fst ` placements d' \<subseteq> fst ` placements d"
    "snd ` placements d' \<subseteq> insert (pl_id target) (snd ` placements d - {pl_id source})"
    by (rule image_subsetI, erule moved'')+
  have before: "snd ` placements d \<subseteq> live_places d" "fst ` placements d \<inter> daily_files d = {}"
    using assms(2) by (simp_all add: mk_ok_def relations_ok_def)
  have "snd ` placements d - {pl_id source} \<subseteq> live_places d'"
    by (rule subset_trans[OF Diff_mono[OF before(1) subset_refl] live(1)])
  then have "insert (pl_id target) (snd ` placements d - {pl_id source}) \<subseteq> live_places d'" using live(2) by simp
  from subset_trans[OF views(2) this] have "snd ` placements d' \<subseteq> live_places d'" .
  moreover have "fst ` placements d' \<inter> daily_files d' \<subseteq> fst ` placements d \<inter> daily_files d"
    unfolding daily by (rule Int_mono[OF views(1) subset_refl])
  ultimately have "relations_ok d'" using before(2) unfolding relations_ok_def by simp
  then show ?thesis using keys by (simp add: mk_ok_def)
qed


section \<open>The relation of a photo\<close>

lemma not_daily:
  assumes "mk_ok d"
  shows "i \<in> daily_files d \<longleftrightarrow> is_daily_photo (state_of d i)"
proof (cases "state_of d i")
  case None
  then have "i \<notin> daily_files d" unfolding state_of_None daily_files_def by auto
  then show ?thesis using None by (simp add: is_daily_photo_def effective_category_def)
next
  case (Some s)
  have keys: "distinct (map st_file (file_states d))" using assms by (simp add: mk_ok_def keys_ok_def)
  note s = state_of_SomeD[OF Some]
  have "i \<in> daily_files d \<longleftrightarrow> st_category s = ''DAILY''"
  proof
    assume "i \<in> daily_files d"
    then obtain x where "x \<in> set (file_states d)" "st_file x = i" "st_category x = ''DAILY''" by (auto simp: daily_files_def)
    moreover from this have "x = s" using s keys by (simp add: distinct_map inj_on_def)
    ultimately show "st_category s = ''DAILY''" by simp
  next
    assume "st_category s = ''DAILY''"
    with s show "i \<in> daily_files d" by (auto simp: daily_files_def)
  qed
  then show ?thesis using Some by (simp add: is_daily_photo_def effective_category_def)
qed

lemma ensure_metadata_ok: "mk_ok d \<Longrightarrow> i \<in> cf_id ` set (files (base d)) \<Longrightarrow> mk_ok (ensure_metadata i d)"
  by (simp add: mk_ok_def relations_ok_def view_simps keys_ok_ensure_metadata)

lemma mk_file_id: "mk_file d i = Some f \<Longrightarrow> cf_id f \<in> cf_id ` set (files (base d))"
  by (drule mk_file_SomeD(1)) (rule imageI)

lemma mk_file_cong: "files (base d') = files (base d) \<Longrightarrow> links (base d') = links (base d) \<Longrightarrow> mk_file d' i = mk_file d i"
  by (simp add: mk_file_def mk_linked_def)

text \<open>Writing a category that is not DAILY, or any category of a photo without a place.\<close>

lemma write_category_ok:
  assumes "mk_ok d" and "state_of d (cf_id f) = Some s" and "new \<noteq> ''DAILY'' \<or> cf_id f \<notin> fst ` placements d"
  shows "mk_ok (write_category now by f s old new d)"
    "cf_id f \<in> daily_files (write_category now by f s old new d) \<longleftrightarrow> new = ''DAILY''"
  using assms state_of_SomeD[OF assms(2)]
  by (auto simp: write_category_def view_simps daily_put_state mk_ok_def relations_ok_def)

lemma write_category_views [view_simps]:
  "metadata_rows (write_category now by f s old new d) = metadata_rows d"
  "mk_places (write_category now by f s old new d) = mk_places d"
  "files (base (write_category now by f s old new d)) = files (base d)"
  "links (base (write_category now by f s old new d)) = links (base d)"
  "placements (write_category now by f s old new d) = placements d"
  "keys_ok (write_category now by f s old new d) = keys_ok d"
  by (simp_all add: write_category_def view_simps)

lemma created_state:
  assumes "create_state now f d = Some d'"
  shows "\<exists>s. state_of d' (cf_id f) = Some s"
proof -
  obtain p s where d': "d' = put_state s d" and s: "st_file s = cf_id f"
    using assms by (auto simp: create_state_def synchronize_def Let_def new_state_def)
  have "cf_id f \<in> st_file ` set (file_states d')"
    unfolding d' put_state_def using s by (cases "state_of d (cf_id f)") (force simp: set_save_row dest!: state_of_SomeD)+
  then show ?thesis using state_of_None by blast
qed

lemma set_category_normal_known:
  assumes "set_category_normal now f d = Inr d'" and "mk_ok d" and "state_of d (cf_id f) = Some s"
  shows "mk_ok d'" "cf_id f \<notin> daily_files d'" "metadata_rows d' = metadata_rows d" "mk_places d' = mk_places d"
    "files (base d') = files (base d)" "links (base d') = links (base d)" "placements d' = placements d"
proof -
  have "mk_ok d' \<and> cf_id f \<notin> daily_files d' \<and> metadata_rows d' = metadata_rows d \<and> mk_places d' = mk_places d \<and>
    files (base d') = files (base d) \<and> links (base d') = links (base d) \<and> placements d' = placements d"
  proof (cases "st_category s = ''NORMAL''")
    case True
    then have "d' = d" using assms(1,3) by (simp add: set_category_normal_def)
    moreover have "cf_id f \<notin> daily_files d"
      using not_daily[OF assms(2)] True assms(3) by (simp add: is_daily_photo_def effective_category_def)
    ultimately show ?thesis using assms(2) by simp
  next
    case False
    then have d': "d' = write_category now ''MemoryKeeperPlaceService'' f s
        (if st_category s = [] then ''NORMAL'' else st_category s) ''NORMAL'' d"
      using assms(1,3) by (simp add: set_category_normal_def)
    have "mk_ok d'" unfolding d' by (rule write_category_ok(1)[OF assms(2,3)]) simp
    moreover have "cf_id f \<notin> daily_files d'"
      unfolding d' using write_category_ok(2)[OF assms(2,3), of "''NORMAL''"] by simp
    ultimately show ?thesis by (simp add: d' view_simps)
  qed
  then show "mk_ok d'" "cf_id f \<notin> daily_files d'" "metadata_rows d' = metadata_rows d" "mk_places d' = mk_places d"
    "files (base d') = files (base d)" "links (base d') = links (base d)" "placements d' = placements d" by simp_all
qed

lemma set_category_normal_ok:
  assumes "set_category_normal now f d = Inr d'" and "mk_ok d"
  shows "mk_ok d'" "cf_id f \<notin> daily_files d'" "metadata_rows d' = metadata_rows d" "mk_places d' = mk_places d"
    "files (base d') = files (base d)" "links (base d') = links (base d)" "placements d' = placements d"
proof -
  have "mk_ok d' \<and> cf_id f \<notin> daily_files d' \<and> metadata_rows d' = metadata_rows d \<and> mk_places d' = mk_places d \<and>
    files (base d') = files (base d) \<and> links (base d') = links (base d) \<and> placements d' = placements d"
  proof (cases "state_of d (cf_id f)")
    case None
    then obtain d1 where d1: "create_state now f d = Some d1"
      using assms(1) by (cases "create_state now f d") (simp_all add: set_category_normal_def split: if_splits)
    obtain s where "synchronize now f (metadata_of d (cf_id f)) (new_state now (cf_id f) (cf_favorite f)) d = Some d1"
      and s: "state_of d1 (cf_id f) = Some s"
      using created_state[OF d1] d1 by (auto simp: create_state_def)
    then have "set_category_normal now f d1 = Inr d'"
      using assms(1) None d1 by (simp add: set_category_normal_def split: if_splits)
    note known = set_category_normal_known[OF this create_state_ok[OF d1 assms(2)] s]
    then show ?thesis using create_state_views[OF d1] by simp
  next
    case (Some s)
    then show ?thesis using set_category_normal_known[OF assms Some] by simp
  qed
  then show "mk_ok d'" "cf_id f \<notin> daily_files d'" "metadata_rows d' = metadata_rows d" "mk_places d' = mk_places d"
    "files (base d') = files (base d)" "links (base d') = links (base d)" "placements d' = placements d" by simp_all
qed

text \<open>One photo assigned by a request.\<close>

lemma assign_one_ok:
  assumes "assign_one now p i d = Inr d'" and "mk_ok d"
  shows "mk_ok d'"
proof (cases "mk_file d i")
  case (Some f)
  then obtain d1 where d1: "set_category_normal now f (ensure_metadata (cf_id f) d) = Inr d1"
    and d': "(case metadata_of d1 (cf_id f) of None \<Rightarrow> Inr d1
        | Some m \<Rightarrow> set_relation now m (Some (pl_id p)) ''USER'' (photo_distance m (Some p)) True d1) = Inr d'"
    using assms(1) by (auto simp: assign_one_def)
  note normal = set_category_normal_ok[OF d1 ensure_metadata_ok[OF assms(2) mk_file_id[OF Some]]]
  show ?thesis
  proof (cases "metadata_of d1 (cf_id f)")
    case None
    then show ?thesis using d' normal(1) by simp
  next
    case (Some m)
    then show ?thesis using d' normal(1,2) metadata_of_SomeD[OF Some] set_relation_ok[of now m _ _ _ _ d1 d'] by simp
  qed
qed (use assms in \<open>simp add: assign_one_def\<close>)

lemma assign_file_ok:
  assumes "assign_file now i place e d = Inr d'" and "mk_ok d"
  shows "mk_ok d'"
proof -
  obtain p where p: "(case mk_file d i of None \<Rightarrow> Inl MkFileNotFound
       | Some f \<Rightarrow> let d = ensure_metadata (cf_id f) d
           in (case metadata_of d (cf_id f) of None \<Rightarrow> Inl MkFileNotFound
               | Some m \<Rightarrow> raise_if (md_match_revision m \<noteq> e) (RelationConflict e (md_match_revision m))
                     (and_then (if p = None then Inr d else set_category_normal now f d)
                        (set_relation now m (map_option pl_id p) ''USER'' (photo_distance m p) True)))) = Inr d'"
    using assms(1) unfolding assign_file_def and_then_Inr_iff by blast
  then obtain f where f: "mk_file d i = Some f" by (cases "mk_file d i") auto
  then obtain m where m: "metadata_of (ensure_metadata (cf_id f) d) (cf_id f) = Some m"
    using p by (cases "metadata_of (ensure_metadata (cf_id f) d) (cf_id f)") (auto simp: Let_def)
  then have d': "and_then (if p = None then Inr (ensure_metadata (cf_id f) d) else set_category_normal now f (ensure_metadata (cf_id f) d))
      (set_relation now m (map_option pl_id p) ''USER'' (photo_distance m p) True) = Inr d'"
    using p f by (simp only: Let_def option.case raise_if_Inr_iff)
  let ?d = "ensure_metadata (cf_id f) d"
  have ok: "mk_ok ?d" by (rule ensure_metadata_ok[OF assms(2) mk_file_id[OF f]])
  show ?thesis
  proof (cases p)
    case None
    then have "set_relation now m None ''USER'' (photo_distance m p) True ?d = Inr d'" using d' by simp
    from set_relation_ok[OF this ok] show ?thesis using metadata_of_SomeD[OF m] by blast
  next
    case (Some x)
    then obtain d1 where d1: "set_category_normal now f ?d = Inr d1"
      and d': "set_relation now m (Some (pl_id x)) ''USER'' (photo_distance m p) True d1 = Inr d'"
      using d' by (simp add: and_then_Inr_iff) blast
    note normal = set_category_normal_ok[OF d1 ok]
    have "m \<in> set (metadata_rows d1)" "md_file m \<notin> daily_files d1" using metadata_of_SomeD[OF m] normal(2,3) by simp_all
    then show ?thesis using set_relation_ok[OF d' normal(1)] by blast
  qed
qed

lemma batch_assign_ok: "batch_assign now ids place e d = Inr d' \<Longrightarrow> mk_ok d \<Longrightarrow> mk_ok d'"
  unfolding batch_assign_def and_then_Inr_iff raise_if_Inr_iff
  by (blast intro: for_each_invariant[where I = mk_ok] assign_one_ok)

lemma assign_pending_ok: "assign_pending now ids place e d = Inr d' \<Longrightarrow> mk_ok d \<Longrightarrow> mk_ok d'"
  unfolding assign_pending_def and_then_Inr_iff raise_if_Inr_iff
  by (blast intro: for_each_invariant[where I = mk_ok] assign_one_ok)

end
