(* ===== verification/MkSteps.thy ===== *)
theory MkSteps
  imports PlaceRequests
begin

text \<open>
  The remaining requests keep \<open>mk_ok\<close>: automatic matching, reclassification, categories,
  capture dates and metadata patches. \<open>mk_step\<close> is one committed request, \<open>mk_reach\<close> a
  sequence of them.
\<close>

section \<open>Automatic changes\<close>

lemma unblocked_not_daily: "mk_ok d \<Longrightarrow> \<not> blocks_automatic_change m (state_of d i) \<Longrightarrow> i \<notin> daily_files d"
  by (simp add: not_daily blocks_automatic_change_def)

lemma resolve_candidate_ok:
  assumes "resolve_candidate now i c lat lon d = Inr (d', p, created, source)" and "mk_ok d"
  shows "mk_ok d'" "metadata_rows d' = metadata_rows d" "daily_files d' = daily_files d" "files (base d') = files (base d)"
proof -
  have "d' = d \<or> (\<exists>q d1. insert_place q d = Some d1 \<and> d' = place_change now q CREATE False d1)"
    using assms(1) by (auto simp: resolve_candidate_def split: option.splits)
  then have "mk_ok d' \<and> metadata_rows d' = metadata_rows d \<and> daily_files d' = daily_files d \<and> files (base d') = files (base d)"
  proof
    assume "\<exists>q d1. insert_place q d = Some d1 \<and> d' = place_change now q CREATE False d1"
    then obtain q d1 where q: "insert_place q d = Some d1" and d': "d' = place_change now q CREATE False d1" by blast
    have "d1 = d\<lparr>mk_places := mk_places d @ [q]\<rparr>" using q by (simp add: insert_place_def split: if_splits)
    then show ?thesis using insert_place_ok[OF q assms(2)] unfolding d'
      by (auto simp: place_change_def view_simps daily_files_def)
  qed (simp add: assms(2))
  then show "mk_ok d'" "metadata_rows d' = metadata_rows d" "daily_files d' = daily_files d" "files (base d') = files (base d)"
    by simp_all
qed

text \<open>A match leaves the state, or writes the relation of its photo after adding a place at most.\<close>

definition match_source :: "time \<Rightarrow> string \<Rightarrow> place_candidate \<Rightarrow> mk_state \<Rightarrow> mk_state \<Rightarrow> bool" where
  "match_source now i c d d1 \<longleftrightarrow> d1 = d \<or>
     (\<exists>lat lon p created source. resolve_candidate now i c lat lon d = Inr (d1, p, created, source))"

lemma match_source_ok:
  assumes "match_source now i c d d1" and "mk_ok d"
  shows "mk_ok d1" "metadata_rows d1 = metadata_rows d" "daily_files d1 = daily_files d"
  using assms resolve_candidate_ok[OF _ assms(2)] unfolding match_source_def by metis+

lemma auto_match_cases:
  assumes "auto_match_file now i pick file create d = Inr (d', b)"
  shows "d' = d \<or> (\<exists>m place src distance touch d1. metadata_of d file = Some m \<and>
    \<not> blocks_automatic_change (Some m) (state_of d file) \<and> match_source now i (pick m) d d1 \<and>
    set_relation now m place src distance touch d1 = Inr d')" (is "_ \<or> ?moved")
proof (cases "metadata_of d file")
  case None
  then show ?thesis using assms by (simp add: auto_match_file_def)
next
  case m: (Some m)
  show ?thesis
  proof (cases "md_gps_lat m = None \<or> md_gps_lon m = None \<or> \<not> mk_linked d file \<or> blocks_automatic_change (Some m) (state_of d file)")
    case True
    then show ?thesis using assms m by (auto simp: auto_match_file_def split: option.splits)
  next
    case False
    then obtain lat lon where gps: "md_gps_lat m = Some lat" "md_gps_lon m = Some lon"
      and free: "mk_linked d file" "\<not> blocks_automatic_change (Some m) (state_of d file)" by auto
    let ?found = "match_place d lat lon None (md_place_name m)"
    note body = assms[unfolded auto_match_file_def m option.case gps prod.case Let_def]
    have here: "match_source now i (pick m) d d" by (simp add: match_source_def)
    show ?thesis
    proof (cases "pm_place ?found")
      case (Some p)
      then have "set_relation now m (Some (pl_id p)) (pm_source ?found) (pm_distance ?found) True d = Inr d'"
        using body free by (auto simp: and_then_Inr_iff)
      then show ?thesis using m free here by blast
    next
      case none: None
      show ?thesis
      proof (cases create)
        case True
        then obtain d1 p created source where d1: "resolve_candidate now i (pick m) lat lon d = Inr (d1, p, created, source)"
          "set_relation now m (Some (pl_id p)) (if created then ''AUTO_CREATED'' else source) (photo_distance m (Some p)) True d1 = Inr d'"
          using body free none by (auto simp: and_then_Inr_iff)
        then have "match_source now i (pick m) d d1" unfolding match_source_def by blast
        then show ?thesis using m free d1(2) by blast
      next
        case False
        then have "d' = d \<or> set_relation now m None ''AUTO_PLACE_MATCH'' None False d = Inr d'"
          using body free none by (auto simp: and_then_Inr_iff split: if_splits)
        then show ?thesis using m free here by blast
      qed
    qed
  qed
qed

lemma auto_match_ok:
  assumes "auto_match_file now i pick file create d = Inr (d', b)" and "mk_ok d"
  shows "mk_ok d'"
  using auto_match_cases[OF assms(1)]
proof
  assume "\<exists>m place src distance touch d1. metadata_of d file = Some m \<and>
    \<not> blocks_automatic_change (Some m) (state_of d file) \<and> match_source now i (pick m) d d1 \<and>
    set_relation now m place src distance touch d1 = Inr d'"
  then obtain m place src distance touch d1 where m: "metadata_of d file = Some m"
    "\<not> blocks_automatic_change (Some m) (state_of d file)" "match_source now i (pick m) d d1"
    "set_relation now m place src distance touch d1 = Inr d'" by blast
  have "file \<notin> daily_files d" by (rule unblocked_not_daily[OF assms(2) m(2)])
  then show ?thesis
    using set_relation_ok[OF m(4)] metadata_of_SomeD[OF m(1)] match_source_ok[OF m(3) assms(2)] by simp
qed (simp add: assms(2))

lemma reclassify_photo_cases:
  assumes "reclassify_photo now p r m (d, c) = Inr (d', c')"
  obtains "d' = d"
  | place src distance touch where "\<not> blocks_automatic_change (Some m) (state_of d (md_file m))"
    "set_relation now m place src distance touch d = Inr d'"
  using assms
  by (auto simp: reclassify_photo_def Let_def split: option.splits if_splits)

text \<open>
  During a reclassification the rows still to come are as they were read: each step writes
  the row of its own photo only.
\<close>

lemma set_relation_other_rows:
  assumes "set_relation now m place src distance touch d = Inr d'" and "m \<in> set (metadata_rows d)"
    and "x \<in> set (metadata_rows d)" and "md_file x \<noteq> md_file m"
  shows "x \<in> set (metadata_rows d')"
  using assms by (auto simp: set_relation_Inr write_relation_row set_save_row)

lemma reclassify_rows_ok:
  assumes "for_each (reclassify_photo now p r) rows (d, c) = Inr (d', c')" and "mk_ok d"
    and "set rows \<subseteq> set (metadata_rows d)" and "distinct (map md_file rows)"
  shows "mk_ok d'"
  using assms
proof (induction rows arbitrary: d c)
  case (Cons m ms)
  then obtain d1 c1 where step: "reclassify_photo now p r m (d, c) = Inr (d1, c1)"
    and rest: "for_each (reclassify_photo now p r) ms (d1, c1) = Inr (d', c')"
    by (auto split: sum.splits)
  have m: "m \<in> set (metadata_rows d)" using Cons.prems(3) by simp
  have "mk_ok d1 \<and> set ms \<subseteq> set (metadata_rows d1)"
    using step
  proof (cases rule: reclassify_photo_cases)
    case 1
    then show ?thesis using Cons.prems by simp
  next
    case (2 place src distance touch)
    have "mk_ok d1"
      using set_relation_ok[OF 2(2) Cons.prems(2) m] unblocked_not_daily[OF Cons.prems(2) 2(1)] by blast
    moreover have "x \<in> set (metadata_rows d1)" if "x \<in> set ms" for x
    proof -
      have "md_file x \<noteq> md_file m" using that Cons.prems(4) by (auto simp: image_iff)
      moreover have "x \<in> set (metadata_rows d)" using that Cons.prems(3) by auto
      ultimately show ?thesis using set_relation_other_rows[OF 2(2) m] by blast
    qed
    ultimately show ?thesis by blast
  qed
  then show ?case using Cons.IH[OF rest] Cons.prems(4) by simp
qed simp

lemma files_with_gps_rows:
  assumes "mk_ok d"
  shows "set (files_with_gps d) \<subseteq> set (metadata_rows d)" "distinct (map md_file (files_with_gps d))"
  using assms by (auto simp: files_with_gps_def mk_ok_def keys_ok_def intro: distinct_map_filter)

lemma reclassify_ok:
  assumes "reclassify now i r d = Inr (d', c)" and "mk_ok d"
  shows "mk_ok d'"
proof -
  obtain p where "for_each (reclassify_photo now p r) (files_with_gps d)
      (d, \<lparr>rc_scanned = 0, rc_assigned = 0, rc_reassigned = 0, rc_outside = 0, rc_unchanged = 0\<rparr>) = Inr (d', c)"
    using assms(1) by (auto simp: reclassify_def)
  from reclassify_rows_ok[OF this assms(2) files_with_gps_rows[OF assms(2)]] show ?thesis .
qed

section \<open>Categories\<close>

lemma prepare_category_ok:
  assumes "prepare_category now i d = Inr d'" and "mk_ok d"
  shows "mk_ok d'"
proof (cases "mk_file d i")
  case f: (Some f)
  show ?thesis
  proof (cases "state_of d (cf_id f)")
    case None
    then obtain d1 where d1: "create_state now f d = Some d1"
      using assms(1) f by (cases "create_state now f d") (simp_all add: prepare_category_def)
    then have "d' = ensure_metadata (cf_id f) d1" using assms(1) f None by (simp add: prepare_category_def)
    then show ?thesis using ensure_metadata_ok[OF create_state_ok[OF d1 assms(2)]] mk_file_id[OF f] create_state_views(5)[OF d1]
      by simp
  next
    case (Some s)
    then have "d' = ensure_metadata (cf_id f) d" using assms(1) f by (simp add: prepare_category_def)
    then show ?thesis using ensure_metadata_ok[OF assms(2) mk_file_id[OF f]] by simp
  qed
qed (use assms in \<open>simp add: prepare_category_def\<close>)

lemma set_category_views:
  "metadata_rows (set_category now f s c d) = metadata_rows d" "files (base (set_category now f s c d)) = files (base d)"
  "placements (set_category now f s c d) = placements d" "keys_ok (set_category now f s c d) = keys_ok d"
  "live_places (set_category now f s c d) = live_places d"
  by (simp_all add: set_category_def view_simps) (simp add: write_category_def view_simps)

text \<open>Only the photo itself can become DAILY.\<close>

lemma set_category_daily:
  assumes "state_of d (cf_id f) = Some s"
  shows "daily_files (set_category now f s c d) \<subseteq> daily_files d \<union> (if c = ''DAILY'' then {cf_id f} else {})"
  using state_of_SomeD[OF assms]
  by (cases "effective_category (Some s) = c")
    (auto simp: set_category_def write_category_def view_simps daily_put_state)

lemma categorize_ok:
  assumes "categorize now c i d = Inr d'" and "mk_ok d"
  shows "mk_ok d'"
proof (cases "mk_file d i")
  case f: (Some f)
  show ?thesis
  proof (cases "state_of d (cf_id f)")
    case None
    then show ?thesis using assms f by (simp add: categorize_def)
  next
    case s: (Some s)
    show ?thesis
    proof (cases "metadata_of d (cf_id f)")
      case None
      then show ?thesis using assms f s by (simp add: categorize_def)
    next
      case m: (Some m)
      let ?d = "set_category now f s c d"
      have row: "m \<in> set (metadata_rows ?d)" "md_file m = cf_id f"
        using metadata_of_SomeD[OF m] by (simp_all add: set_category_views)
      have keys: "keys_ok ?d" using assms(2) by (simp add: set_category_views mk_ok_def)
      then have unique: "distinct (map md_file (metadata_rows ?d))" by (simp only: keys_ok_def)
      have before: "snd ` placements d \<subseteq> live_places d" "fst ` placements d \<inter> daily_files d = {}"
        using assms(2) by (simp_all add: mk_ok_def relations_ok_def)
      have daily: "daily_files ?d \<subseteq> daily_files d \<union> (if c = ''DAILY'' then {cf_id f} else {})"
        by (rule set_category_daily[OF s])
      show ?thesis
      proof (cases "c = ''DAILY''")
        case True
        then have d': "d' = write_relation now m None ''USER'' None False ?d"
          using assms(1) f s m by (simp add: categorize_def set_relation_def)
        have placed: "placements d' = {x \<in> placements d. fst x \<noteq> cf_id f}"
          unfolding d' write_relation_placements[OF row(1) unique] by (simp add: set_category_views row(2))
        have "relations_ok d'" unfolding relations_ok_def placed
          using before daily True by (auto simp: d' view_simps set_category_views)
        then show ?thesis using keys by (simp add: mk_ok_def d' view_simps)
      next
        case False
        then have "daily_files ?d \<subseteq> daily_files d" using daily by simp
        then have ok: "mk_ok ?d" using assms(2) relations_ok_cong[of ?d d]
          by (simp add: mk_ok_def set_category_views)
        have "d' = ?d \<or> set_relation now m None ''AUTO_PLACE_MATCH'' None False ?d = Inr d'"
          using assms(1) f s m False by (simp add: categorize_def Let_def split: if_splits)
        then show ?thesis using ok set_relation_ok[OF _ ok row(1)] by blast
      qed
    qed
  qed
qed (use assms in \<open>simp add: categorize_def\<close>)

lemma update_categories_ok:
  assumes "update_categories now ids c e d = Inr d'" and "mk_ok d"
  shows "mk_ok d'"
proof -
  obtain d1 where d1: "for_each (prepare_category now) ids d = Inr d1" "for_each (categorize now c) ids d1 = Inr d'"
    using assms(1) by (auto simp: update_categories_def)
  have "mk_ok d1" using for_each_invariant[where I = mk_ok, OF d1(1) assms(2)] prepare_category_ok by blast
  then show ?thesis using for_each_invariant[where I = mk_ok, OF d1(2)] categorize_ok by blast
qed

section \<open>Capture dates\<close>

lemma ensure_state_ok: "ensure_state now i d = Inr d' \<Longrightarrow> mk_ok d \<Longrightarrow> mk_ok d'"
  by (auto simp: ensure_state_def or_value_error_def split: option.splits if_splits intro: create_state_ok)

lemma bump_state_ok: "mk_ok d \<Longrightarrow> mk_ok (bump_state now i d)"
proof -
  have "map (\<lambda>s. (st_file s, st_category s)) (file_states (bump_state now i d)) = map (\<lambda>s. (st_file s, st_category s)) (file_states d)"
    by (simp add: bump_state_def map_update_where)
  then have "set (map (\<lambda>s. (st_file s, st_category s)) (file_states (bump_state now i d)))
      = set (map (\<lambda>s. (st_file s, st_category s)) (file_states d))" by simp
  moreover have "daily_files d = {i. (i, ''DAILY'') \<in> set (map (\<lambda>s. (st_file s, st_category s)) (file_states d))}" for d
    by (auto simp: daily_files_def)
  ultimately have "daily_files (bump_state now i d) = daily_files d" by simp
  then show "mk_ok d \<Longrightarrow> mk_ok (bump_state now i d)"
    by (simp add: mk_ok_def relations_ok_def keys_ok_def bump_state_def map_update_where placements_def live_places_def)
qed

lemma override_file_ok:
  assumes "override_file now t i d = Inr d'" and "mk_ok d"
  shows "mk_ok d'"
proof -
  have "d' = d \<or> (\<exists>f s s' d1 d2 h. state_of d (cf_id f) = Some s \<and> st_file s' = st_file s \<and> st_category s' = st_category s \<and>
      (d1 = d \<or> d1 = add_histories h d) \<and> synchronize now f (metadata_of d1 (cf_id f)) s' d1 = Some d2 \<and>
      d' = mk_change now ''MemoryKeeperCaptureDate'' (cf_file_id f) UPDATE (Some (st_revision s + 1)) False (bump_state now (cf_id f) d2))"
  proof (cases "mk_file d i")
    case None
    then show ?thesis using assms(1) by (simp add: override_file_def)
  next
    case f: (Some f)
    show ?thesis
    proof (cases "state_of d (cf_id f)")
      case None
      then show ?thesis using assms(1) f by (simp add: override_file_def)
    next
      case s: (Some s)
      let ?d = "if st_user_datetime s \<noteq> t then add_histories [override_history (cf_id f) (st_user_datetime s) t] d else d"
      let ?s = "s\<lparr>st_user_datetime := t, st_user_precision := (if t = None then None else Some ''DATE'')\<rparr>"
      obtain d2 where "synchronize now f (metadata_of ?d (cf_id f)) ?s ?d = Some d2"
        and "d' = mk_change now ''MemoryKeeperCaptureDate'' (cf_file_id f) UPDATE (Some (st_revision s + 1)) False
              (bump_state now (cf_id f) d2)"
        using assms(1) f s by (auto simp: override_file_def Let_def or_value_error_def split: option.splits)
      then show ?thesis using s by (intro disjI2 exI[of _ f] exI[of _ s] exI[of _ ?s] exI[of _ ?d] exI[of _ d2]) auto
    qed
  qed
  then show ?thesis
  proof
    assume "\<exists>f s s' d1 d2 h. state_of d (cf_id f) = Some s \<and> st_file s' = st_file s \<and> st_category s' = st_category s \<and>
      (d1 = d \<or> d1 = add_histories h d) \<and> synchronize now f (metadata_of d1 (cf_id f)) s' d1 = Some d2 \<and>
      d' = mk_change now ''MemoryKeeperCaptureDate'' (cf_file_id f) UPDATE (Some (st_revision s + 1)) False (bump_state now (cf_id f) d2)"
    then obtain f s s' d1 d2 h where s: "state_of d (cf_id f) = Some s" "st_file s' = st_file s" "st_category s' = st_category s"
      and d1: "d1 = d \<or> d1 = add_histories h d" and d2: "synchronize now f (metadata_of d1 (cf_id f)) s' d1 = Some d2"
      and d': "d' = mk_change now ''MemoryKeeperCaptureDate'' (cf_file_id f) UPDATE (Some (st_revision s + 1)) False (bump_state now (cf_id f) d2)"
      by blast
    have "mk_ok d1" using d1 assms(2) by auto
    moreover have "state_of d1 (st_file s') = Some s"
      using d1 s state_of_SomeD[OF s(1)] by (auto simp: state_of_def view_simps)
    ultimately have "mk_ok d2" using synchronize_ok[OF d2] s(3) by blast
    then show ?thesis unfolding d' by (intro mk_ok_unseen bump_state_ok)
  qed (simp add: assms(2))
qed

lemma update_capture_dates_ok:
  assumes "update_capture_dates now ids t e d = Inr d'" and "mk_ok d"
  shows "mk_ok d'"
proof -
  obtain d1 where d1: "for_each (ensure_state now) ids d = Inr d1"
    "for_each (override_file now (map_option date_midnight t)) ids d1 = Inr d'"
    using assms(1) by (auto simp: update_capture_dates_def)
  have "mk_ok d1" using for_each_invariant[where I = mk_ok, OF d1(1) assms(2)] ensure_state_ok by blast
  then show ?thesis using for_each_invariant[where I = mk_ok, OF d1(2)] override_file_ok by blast
qed

section \<open>Metadata patches\<close>

lemma put_state_ok:
  assumes "state_of d (st_file s') = Some s" and "st_category s' = st_category s" and "mk_ok d"
  shows "mk_ok (put_state s' d)"
proof -
  have "st_file s' \<in> daily_files d" if "st_category s' = ''DAILY''"
    using that assms(2) state_of_SomeD[OF assms(1)] unfolding daily_files_def by auto metis
  then have "daily_files (put_state s' d) \<subseteq> daily_files d" by (simp add: daily_put_state)
  then show ?thesis using assms(3) relations_ok_cong[of "put_state s' d" d] by (simp add: mk_ok_def view_simps)
qed

lemma state_of_put_state:
  assumes "state_of d (st_file s') = Some s"
  shows "state_of (put_state s' d) (st_file s') = Some s'"
proof -
  have "st_file s' \<in> st_file ` set (file_states d)" using state_of_SomeD[OF assms] by (metis imageI)
  then have "find_row st_file (st_file s') (save_row st_file s' (file_states d)) = Some s'"
    by (simp add: find_row_save_row)
  then show ?thesis using assms by (simp add: put_state_def state_of_def)
qed

lemma put_metadata_ok:
  assumes "m \<in> set (metadata_rows d)" and "md_file m' = md_file m" and "md_place_id m' = md_place_id m" and "mk_ok d"
  shows "mk_ok (put_metadata m' d)" "m' \<in> set (metadata_rows (put_metadata m' d))"
proof -
  have "md_file m' \<in> md_file ` set (metadata_rows d)" using assms(1,2) by simp
  from placements_put_metadata[OF this] have "placements (put_metadata m' d) \<subseteq> placements d"
    using assms(1-3) by (auto simp: placements_def split: option.splits)
  then show "mk_ok (put_metadata m' d)"
    using assms(4) relations_ok_cong[of "put_metadata m' d" d] by (simp add: mk_ok_def view_simps)
  show "m' \<in> set (metadata_rows (put_metadata m' d))"
    using assms(1,2) by (simp add: put_metadata_def set_save_row)
qed

text \<open>New coordinates write the relation of the photo, unless it is DAILY.\<close>

lemma reconcile_place_cases:
  assumes "reconcile_place now m s d = Inr d'"
  shows "d' = d \<or> (\<exists>place src distance touch. \<not> is_daily_photo (Some s) \<and> set_relation now m place src distance touch d = Inr d')"
proof (cases "is_daily_photo (Some s)")
  case True
  then show ?thesis using assms by (simp add: reconcile_place_def)
next
  case daily: False
  show ?thesis
  proof (cases "is_user_place_decision (Some m)")
    case True
    then show ?thesis using assms daily by (auto simp: reconcile_place_def split: option.splits)
  next
    case False
    note body = assms[unfolded reconcile_place_def if_not_P[OF daily] if_not_P[OF False] Let_def]
    have "\<exists>place src distance touch. set_relation now m place src distance touch d = Inr d'"
      using body by (cases "md_gps_lat m"; cases "md_gps_lon m") (auto split: option.splits)
    then show ?thesis using daily by blast
  qed
qed

lemma reconcile_place_ok:
  assumes "reconcile_place now m s d = Inr d'" and "mk_ok d" and "m \<in> set (metadata_rows d)"
    and "state_of d (md_file m) = Some s"
  shows "mk_ok d'" "state_of d' i = state_of d i"
proof -
  have "mk_ok d' \<and> file_states d' = file_states d"
    using reconcile_place_cases[OF assms(1)]
  proof
    assume "\<exists>place src distance touch. \<not> is_daily_photo (Some s) \<and> set_relation now m place src distance touch d = Inr d'"
    then obtain place src distance touch where free: "\<not> is_daily_photo (Some s)"
      and set: "set_relation now m place src distance touch d = Inr d'" by blast
    have "md_file m \<notin> daily_files d" using free assms(4) by (simp add: not_daily[OF assms(2)])
    moreover have "file_states d' = file_states d" using set by (simp add: set_relation_Inr view_simps)
    ultimately show ?thesis using set_relation_ok[OF set assms(2,3)] by simp
  qed (simp add: assms(2))
  then show "mk_ok d'" "state_of d' i = state_of d i" by (simp_all add: state_of_def)
qed

lemma get_or_create_state_ok:
  assumes "get_or_create_state now f d = Some d'" and "mk_ok d"
  shows "mk_ok d'" "files (base d') = files (base d)"
proof -
  have "mk_ok d' \<and> files (base d') = files (base d)"
  proof (cases "state_of d (cf_id f)")
    case None
    then have "create_state now f d = Some d'" using assms(1) by (simp add: get_or_create_state_def)
    then show ?thesis using create_state_ok[OF _ assms(2)] create_state_views(5) by simp
  next
    case (Some s)
    then have "synchronize now f (metadata_of d (cf_id f)) s d = Some d' \<or> d' = d"
      using assms(1) by (auto simp: get_or_create_state_def split: if_splits)
    moreover have "state_of d (st_file s) = Some s" using Some state_of_SomeD[OF Some] by simp
    ultimately show ?thesis using synchronize_ok[of now f _ s d d' s] synchronize_views(5)[of now f _ s d d'] assms(2) by blast
  qed
  then show "mk_ok d'" "files (base d') = files (base d)" by simp_all
qed

lemma patched_metadata_kept [simp]:
  "md_file (patched_metadata t m) = md_file m" "md_place_id (patched_metadata t m) = md_place_id m"
  "md_match_source (patched_metadata t m) = md_match_source m" "md_match_revision (patched_metadata t m) = md_match_revision m"
  by (simp_all add: patched_metadata_def)

lemma patched_state_kept [simp]:
  "st_file (patched_state t s) = st_file s" "st_category (patched_state t s) = st_category s"
  "st_revision (patched_state t s) = st_revision s"
  by (simp_all add: patched_state_def)

lemma write_patch_ok:
  assumes "mk_ok d" and "state_of d (cf_id f) = Some s" and "metadata_of d (cf_id f) = Some m"
  shows "mk_ok (write_patch t s m d)" "patched_metadata t m \<in> set (metadata_rows (write_patch t s m d))"
    "state_of (write_patch t s m d) (cf_id f) = Some (patched_state t s)"
proof -
  note row = metadata_of_SomeD[OF assms(3)] and srow = state_of_SomeD[OF assms(2)]
  have known: "state_of d (st_file (patched_state t s)) = Some s" using assms(2) srow by simp
  have ok: "mk_ok (put_state (patched_state t s) d)" by (rule put_state_ok[OF known _ assms(1)]) simp
  have "m \<in> set (metadata_rows (put_state (patched_state t s) d))" using row by (simp add: view_simps)
  note put = put_metadata_ok[OF this _ _ ok, of "patched_metadata t m", simplified]
  show "mk_ok (write_patch t s m d)" "patched_metadata t m \<in> set (metadata_rows (write_patch t s m d))"
    unfolding write_patch_def using put by (simp_all add: view_simps mk_ok_unseen)
  show "state_of (write_patch t s m d) (cf_id f) = Some (patched_state t s)"
    using state_of_put_state[OF known] srow by (simp add: write_patch_def state_of_def view_simps)
qed

lemma finish_patch_ok:
  assumes "mk_ok d" and "state_of d (st_file s) = Some s"
  shows "mk_ok (finish_patch now f s d)"
  unfolding finish_patch_def using assms by (intro mk_ok_unseen put_state_ok[where s = s]) simp_all

lemma patch_row_ok:
  assumes "patch_row now f t d = Inr d'" and "mk_ok d"
  shows "mk_ok d'"
proof (cases "state_of d (cf_id f)")
  case s: (Some s)
  show ?thesis
  proof (cases "metadata_of d (cf_id f)")
    case m: (Some m)
    note writes = write_patch_ok[OF assms(2) s m, of t]
    obtain d1 where d1: "(if ft_gps t = None then Inr (write_patch t s m d)
        else reconcile_place now (patched_metadata t m) (patched_state t s) (write_patch t s m d)) = Inr d1"
      and d': "d' = finish_patch now f (patched_state t s) d1"
      using assms(1) unfolding patch_row_def s m prod.case option.case raise_if_Inr_iff and_then_Inr_iff by auto
    have ids: "md_file (patched_metadata t m) = cf_id f" "st_file (patched_state t s) = cf_id f"
      using metadata_of_SomeD[OF m] state_of_SomeD[OF s] by simp_all
    have "mk_ok d1 \<and> state_of d1 (cf_id f) = Some (patched_state t s)"
    proof (cases "ft_gps t = None")
      case True
      then show ?thesis using d1 writes by simp
    next
      case False
      then have "reconcile_place now (patched_metadata t m) (patched_state t s) (write_patch t s m d) = Inr d1"
        using d1 by (simp only: if_False)
      from reconcile_place_ok[OF this writes(1,2)] show ?thesis using writes(3) ids(1) by simp
    qed
    then show ?thesis unfolding d' using ids(2) by (intro finish_patch_ok) simp_all
  qed (use assms s in \<open>simp add: patch_row_def\<close>)
qed (use assms in \<open>simp add: patch_row_def\<close>)

lemma patch_file_ok:
  assumes "patch_file now i t d = Inr d'" and "mk_ok d"
  shows "mk_ok d'"
proof (cases "mk_file d i")
  case f: (Some f)
  obtain d1 where d1: "get_or_create_state now f d = Some d1"
    using assms(1) f by (cases "get_or_create_state now f d") (simp_all add: patch_file_def)
  have "mk_ok (ensure_metadata (cf_id f) d1)"
    using ensure_metadata_ok[OF get_or_create_state_ok(1)[OF d1 assms(2)]] mk_file_id[OF f]
      get_or_create_state_ok(2)[OF d1 assms(2)] by simp
  moreover have "patch_row now f t (ensure_metadata (cf_id f) d1) = Inr d'" using assms(1) f d1 by (simp add: patch_file_def)
  ultimately show ?thesis by (rule patch_row_ok[rotated])
qed (use assms in \<open>simp add: patch_file_def\<close>)

section \<open>Committed requests\<close>

inductive mk_step :: "mk_state \<Rightarrow> mk_state \<Rightarrow> bool" where
  create: "create_place now i payload d = Inr (d', p) \<Longrightarrow> mk_step d d'"
| update: "update_place now i patch d = Inr (d', p) \<Longrightarrow> mk_step d d'"
| delete: "delete_place now i expected d = Inr d' \<Longrightarrow> mk_step d d'"
| merge: "merge_places now pairs d = Inr (d', response) \<Longrightarrow> mk_step d d'"
| assign: "assign_file now file place revision d = Inr d' \<Longrightarrow> mk_step d d'"
| batch: "batch_assign now ids i revisions d = Inr d' \<Longrightarrow> mk_step d d'"
| pending: "assign_pending now ids i revisions d = Inr d' \<Longrightarrow> mk_step d d'"
| auto_match: "auto_match_file now i pick row missing d = Inr (d', matched) \<Longrightarrow> mk_step d d'"
| reclassified: "reclassify now i reassign d = Inr (d', counts) \<Longrightarrow> mk_step d d'"
| categories: "update_categories now ids category revisions d = Inr d' \<Longrightarrow> mk_step d d'"
| dates: "update_capture_dates now ids date revisions d = Inr d' \<Longrightarrow> mk_step d d'"
| patch: "patch_file now file t d = Inr d' \<Longrightarrow> mk_step d d'"

lemma mk_step_ok: "mk_step d d' \<Longrightarrow> mk_ok d \<Longrightarrow> mk_ok d'"
  by (induction rule: mk_step.induct)
    (blast intro: create_place_ok update_place_ok delete_place_ok merge_places_ok assign_file_ok batch_assign_ok
      assign_pending_ok auto_match_ok reclassify_ok update_categories_ok update_capture_dates_ok patch_file_ok)+

inductive mk_reach :: "mk_state \<Rightarrow> mk_state \<Rightarrow> bool" for d where
  start: "mk_reach d d"
| then_step: "mk_reach d d' \<Longrightarrow> mk_step d' d'' \<Longrightarrow> mk_reach d d''"

lemma mk_reach_ok: "mk_reach d d' \<Longrightarrow> mk_ok d \<Longrightarrow> mk_ok d'"
  by (induction rule: mk_reach.induct) (auto intro: mk_step_ok)

end
