(* ===== verification/PlaceLaws.thy ===== *)
theory PlaceLaws
  imports MkSteps
begin

text \<open>
  The properties of places: valid relations, merging, decisions of the user, the change feed of
  an update, and the errors of automatic matching.
\<close>

section \<open>Rows of other photos\<close>

lemma blocked_other:
  assumes "mk_ok d" and "x \<in> set (metadata_rows d)" and "blocks_automatic_change (Some x) (state_of d (md_file x))"
    and "m \<in> set (metadata_rows d)" and "\<not> blocks_automatic_change (Some m) (state_of d (md_file m))"
  shows "md_file x \<noteq> md_file m"
proof
  assume "md_file x = md_file m"
  then have "x = m" using assms(1,2,4) by (simp add: mk_ok_def keys_ok_def distinct_map inj_on_def)
  then show False using assms(3,5) by simp
qed

lemma auto_match_keeps:
  assumes "auto_match_file now i pick file create d = Inr (d', b)" and "mk_ok d"
    and "x \<in> set (metadata_rows d)" and "blocks_automatic_change (Some x) (state_of d (md_file x))"
  shows "x \<in> set (metadata_rows d')"
  using auto_match_cases[OF assms(1)]
proof
  assume "\<exists>m place src distance touch d1. metadata_of d file = Some m \<and>
    \<not> blocks_automatic_change (Some m) (state_of d file) \<and> match_source now i (pick m) d d1 \<and>
    set_relation now m place src distance touch d1 = Inr d'"
  then obtain m place src distance touch d1 where m: "metadata_of d file = Some m"
    "\<not> blocks_automatic_change (Some m) (state_of d file)" "match_source now i (pick m) d d1"
    and set: "set_relation now m place src distance touch d1 = Inr d'" by blast
  note row = metadata_of_SomeD[OF m(1)] and same = match_source_ok(2)[OF m(3) assms(2)]
  have "md_file x \<noteq> md_file m" using blocked_other[OF assms(2-4), of m] row m(2) by simp
  then show ?thesis using set_relation_other_rows[OF set, of x] row assms(3) same by simp
qed (simp add: assms(3))

lemma reclassify_rows_keep:
  assumes "for_each (reclassify_photo now p r) rows (d, c) = Inr (d', c')" and "mk_ok d"
    and "set rows \<subseteq> set (metadata_rows d)" and "distinct (map md_file rows)"
    and "x \<in> set (metadata_rows d)" and "blocks_automatic_change (Some x) (state_of d (md_file x))"
  shows "x \<in> set (metadata_rows d')"
  using assms
proof (induction rows arbitrary: d c)
  case (Cons m ms)
  then obtain d1 c1 where step: "reclassify_photo now p r m (d, c) = Inr (d1, c1)"
    and rest: "for_each (reclassify_photo now p r) ms (d1, c1) = Inr (d', c')"
    by (auto split: sum.splits)
  have m: "m \<in> set (metadata_rows d)" using Cons.prems(3) by simp
  have one: "for_each (reclassify_photo now p r) [m] (d, c) = Inr (d1, c1)" using step by simp
  have ok: "mk_ok d1" using reclassify_rows_ok[OF one Cons.prems(2)] m by simp
  have "set ms \<subseteq> set (metadata_rows d1) \<and> x \<in> set (metadata_rows d1) \<and> file_states d1 = file_states d"
    using step
  proof (cases rule: reclassify_photo_cases)
    case 1
    then show ?thesis using Cons.prems by simp
  next
    case (2 place src distance touch)
    have "y \<in> set (metadata_rows d1)" if "y \<in> set ms" for y
    proof -
      have "md_file y \<noteq> md_file m" using that Cons.prems(4) by (auto simp: image_iff)
      then show ?thesis using set_relation_other_rows[OF 2(2) m] that Cons.prems(3) by auto
    qed
    moreover have "md_file x \<noteq> md_file m" by (rule blocked_other[OF Cons.prems(2,5,6) m 2(1)])
    then have "x \<in> set (metadata_rows d1)" by (rule set_relation_other_rows[OF 2(2) m Cons.prems(5)])
    ultimately show ?thesis using 2(2) by (auto simp: set_relation_Inr view_simps)
  qed
  then show ?case using Cons.IH[OF rest ok] Cons.prems(4,6) by (simp add: state_of_def)
qed simp

lemma reclassify_keeps:
  assumes "reclassify now i r d = Inr (d', c)" and "mk_ok d"
    and "x \<in> set (metadata_rows d)" and "blocks_automatic_change (Some x) (state_of d (md_file x))"
  shows "x \<in> set (metadata_rows d')"
proof -
  obtain p where "for_each (reclassify_photo now p r) (files_with_gps d)
      (d, \<lparr>rc_scanned = 0, rc_assigned = 0, rc_reassigned = 0, rc_outside = 0, rc_unchanged = 0\<rparr>) = Inr (d', c)"
    using assms(1) by (auto simp: reclassify_def)
  from reclassify_rows_keep[OF this assms(2) files_with_gps_rows[OF assms(2)] assms(3,4)] show ?thesis .
qed

section \<open>References of a merge\<close>

lemma reference_count_map:
  "total_reference_count d i = length (filter (\<lambda>m. md_place_id m = Some i) (metadata_rows d))"
  by (simp add: total_reference_count_def count_where_def)

lemma merged_counts:
  assumes "s \<noteq> pl_id t"
  shows "length (filter (\<lambda>m. md_place_id m = Some s) (map (\<lambda>x. if md_place_id x = Some s then moved_row t x else x) ms)) = 0"
    "length (filter (\<lambda>m. md_place_id m = Some (pl_id t)) (map (\<lambda>x. if md_place_id x = Some s then moved_row t x else x) ms)) =
     length (filter (\<lambda>m. md_place_id m = Some s) ms) + length (filter (\<lambda>m. md_place_id m = Some (pl_id t)) ms)"
  using assms by (auto simp: filter_empty_conv) (induction ms, auto)

section \<open>A small photo library\<close>

definition demo_place :: "string \<Rightarrow> real \<Rightarrow> mk_place" where
  "demo_place i lat = \<lparr>pl_id = i, pl_display_name = i, pl_canonical_name = None, pl_address = None,
     pl_postal_code = None, pl_country = None, pl_province = None, pl_city = None, pl_district = None,
     pl_latitude = lat, pl_longitude = 0, pl_radius = 100, pl_provider_place_id = None, pl_category = None,
     pl_creation_source = ''USER'', pl_dedup_key = None, pl_active = True, pl_favorite = False, pl_usage = 0,
     pl_last_used = None, pl_revision = 1, pl_updated_at = 0, pl_deleted_at = None\<rparr>"

definition placed_file :: "int \<Rightarrow> string \<Rightarrow> common_file" where
  "placed_file i k = \<lparr>cf_id = i, cf_file_id = k, cf_original_name = ''x.jpg'', cf_extension = None, cf_mime_type = None,
     cf_file_size = None, cf_width = None, cf_height = None, cf_original_path = None, cf_preview_path = None,
     cf_thumb_path = None, cf_favorite = False, cf_service = memorykeeper, cf_created_at = 0, cf_deleted = False\<rparr>"

definition user_photo :: file_metadata where
  "user_photo = (new_metadata 1)\<lparr>md_gps_lat := Some 0, md_gps_lon := Some 0, md_place_id := Some ''p'',
     md_match_source := Some ''USER'', md_match_revision := 1\<rparr>"

definition matched_photo :: file_metadata where
  "matched_photo = (new_metadata 2)\<lparr>md_gps_lat := Some 0, md_gps_lon := Some 0, md_place_id := Some ''p'',
     md_match_source := Some ''RADIUS'', md_match_revision := 1\<rparr>"

lemma demo_photos [simp]:
  "md_file user_photo = 1" "md_gps_lat user_photo = Some 0" "md_gps_lon user_photo = Some 0"
  "md_place_id user_photo = Some ''p''" "md_match_source user_photo = Some ''USER''"
  "md_file matched_photo = 2" "md_gps_lat matched_photo = Some 0" "md_gps_lon matched_photo = Some 0"
  "md_place_id matched_photo = Some ''p''" "md_match_source matched_photo = Some ''RADIUS''"
  by (simp_all add: user_photo_def matched_photo_def new_metadata_def)

text \<open>Two places, and a photo assigned to the first by the user and one by its coordinates.\<close>

definition demo_library :: mk_state where
  "demo_library = \<lparr>base = empty_db\<lparr>files := [placed_file 1 ''f1'', placed_file 2 ''f2''],
       links := [\<lparr>fs_file = 1, fs_service = memorykeeper\<rparr>, \<lparr>fs_file = 2, fs_service = memorykeeper\<rparr>]\<rparr>,
     file_states = [],
     metadata_rows = [user_photo, matched_photo],
     mk_places = [demo_place ''p'' 0, demo_place ''q'' 0], histories = [], linked_at = (\<lambda>_. 0)\<rparr>"

lemma demo_library_ok: "mk_ok demo_library"
proof -
  have "''p'' \<in> live_places demo_library" unfolding live_places_def
    by (intro CollectI exI[of _ "demo_place ''p'' 0"]) (simp add: demo_library_def demo_place_def)
  moreover have "snd ` placements demo_library \<subseteq> {''p''}" "daily_files demo_library = {}"
    by (auto simp: demo_library_def placements_def daily_files_def)
  ultimately have "relations_ok demo_library" by (auto simp: relations_ok_def)
  then show ?thesis
    by (simp add: mk_ok_def keys_ok_def demo_library_def placed_file_def demo_place_def new_metadata_def)
qed

section \<open>Distances\<close>

lemma haversine_sum:
  "(sin ((a - b) / 2))\<^sup>2 + cos a * cos b = (1 + cos (a + b)) / (2::real)"
proof -
  have "cos (a - b) = 1 - 2 * (sin ((a - b) / 2))\<^sup>2" 
  proof -
    have "2 * ((a - b) / 2) = a - b" by simp
    then show ?thesis using cos_double_sin[of "(a - b) / 2"] by (simp only:)
  qed
  moreover have "2 * (cos a * cos b) = cos (a - b) + cos (a + b)" by (simp add: cos_add cos_diff)
  ultimately show ?thesis by simp
qed

lemma cos_radians: "- 90 \<le> x \<Longrightarrow> x \<le> 90 \<Longrightarrow> 0 \<le> cos (radians x)"
  using mult_right_mono[of "-90" x "pi / 180"] mult_right_mono[of x 90 "pi / 180"]
  by (intro cos_ge_zero) (simp_all add: radians_def)

lemma haversine_le:
  assumes "- 90 \<le> lat1" "lat1 \<le> 90" "- 90 \<le> lat2" "lat2 \<le> 90"
  shows "0 \<le> haversine lat1 lon1 lat2 lon2" "haversine lat1 lon1 lat2 lon2 \<le> 1"
proof -
  have c: "0 \<le> cos (radians lat1) * cos (radians lat2)" using assms by (simp add: cos_radians)
  then show "0 \<le> haversine lat1 lon1 lat2 lon2" by (simp add: haversine_def)
  have "(sin x)\<^sup>2 \<le> 1" for x :: real by (simp add: abs_square_le_1)
  then have "cos (radians lat1) * cos (radians lat2) * (sin ((radians lon2 - radians lon1) / 2))\<^sup>2
      \<le> cos (radians lat1) * cos (radians lat2) * 1" by (intro mult_left_mono c)
  then have "haversine lat1 lon1 lat2 lon2 \<le> (1 + cos (radians lat2 + radians lat1)) / 2"
    using haversine_sum[of "radians lat2" "radians lat1"] by (simp add: haversine_def mult.commute)
  also have "\<dots> \<le> 1" using cos_le_one[of "radians lat2 + radians lat1"] by simp
  finally show "haversine lat1 lon1 lat2 lon2 \<le> 1" .
qed

lemma haversine_sym: "haversine lat1 lon1 lat2 lon2 = haversine lat2 lon2 lat1 lon1"
proof -
  have "(sin ((a - b) / 2))\<^sup>2 = (sin ((b - a) / 2))\<^sup>2" for a b :: real
  proof -
    have "(a - b) / 2 = - ((b - a) / 2)" by (simp add: field_simps)
    then show ?thesis by (simp only: sin_minus power2_minus)
  qed
  from this[of "radians lat2" "radians lat1"] this[of "radians lon2" "radians lon1"] show ?thesis
    by (simp add: haversine_def mult.commute)
qed

section \<open>Properties\<close>

text \<open>
  C26. Whatever requests on photos and places commit, the place of a photo exists and is not
  deleted, and a photo whose category is DAILY has no place.
\<close>

theorem place_relations_valid:
  assumes "mk_ok d" and "mk_reach d d'" and "metadata_of d' i = Some m" and "md_place_id m = Some k"
  shows "place_get k d' \<noteq> None \<and> \<not> is_daily_photo (state_of d' i)"
proof -
  have ok: "mk_ok d'" using mk_reach_ok assms(1,2) by blast
  have "(i, k) \<in> placements d'" using metadata_of_SomeD[OF assms(3)] assms(4) by (auto simp: placements_def)
  then have "k \<in> snd ` placements d'" "i \<in> fst ` placements d'" by force+
  then have "k \<in> live_places d'" "i \<notin> daily_files d'" using ok by (auto simp: mk_ok_def relations_ok_def)
  then show ?thesis by (simp add: place_get_live not_daily[OF ok])
qed

definition demo_deleted :: mk_state where
  "demo_deleted = place_change 5 (retire_place 5 (demo_place ''q'' 0)) DELETE True
     (put_place (retire_place 5 (demo_place ''q'' 0)) demo_library)"

lemma demo_place_delete: "delete_place 5 ''q'' (Some 1) demo_library = Inr demo_deleted"
  by (simp add: delete_place_def place_get_any_def demo_deleted_def demo_library_def demo_place_def
      total_reference_count_def count_where_def)

theorem place_relations_valid_witness:
  "place_get ''p'' demo_deleted \<noteq> None \<and> \<not> is_daily_photo (state_of demo_deleted 1)"
  by (rule place_relations_valid[OF demo_library_ok
        mk_reach.then_step[OF mk_reach.start mk_step.delete[OF demo_place_delete]],
        where m = user_photo])
    (simp_all add: demo_deleted_def metadata_of_def place_change_def view_simps put_place_def demo_library_def)

text \<open>
  C27. A merge of two different active places whose revisions the client knows always succeeds:
  every reference to the source, of listed and unlisted files alike, moves to the target and
  no other row of a photo changes, the response counts the moved references, and the source is
  gone while the target is there.
\<close>

theorem merge_moves_references:
  assumes "mk_ok d" and "merge_ready payload d s t"
  shows "\<exists>d' r. merge_places now payload d = Inr (d', r) \<and>
    total_reference_count d' (pl_id s) = 0 \<and>
    total_reference_count d' (pl_id t) = total_reference_count d (pl_id s) + total_reference_count d (pl_id t) \<and>
    mr_moved_references r = total_reference_count d (pl_id s) \<and>
    {m \<in> set (metadata_rows d). md_place_id m \<noteq> Some (pl_id s)} \<subseteq> set (metadata_rows d') \<and>
    place_get (pl_id s) d' = None \<and> place_get (pl_id t) d' \<noteq> None"
proof -
  obtain d' where merge: "merge_places now payload d = Inr (d', merge_response_of now s t d d')"
    and rows: "metadata_rows d' = map (\<lambda>x. if md_place_id x = Some (pl_id s) then moved_row t x else x) (metadata_rows d)"
    and places: "mk_places d' = save_row pl_id (merged_target now t) (save_row pl_id (retire_place now s) (mk_places d))"
    using merge_effect[OF assms, of now] by blast
  note ids = merge_ready_ids[OF assms(2)]
  have counts: "total_reference_count d' (pl_id s) = 0"
    "total_reference_count d' (pl_id t) = total_reference_count d (pl_id s) + total_reference_count d (pl_id t)"
    unfolding reference_count_map rows by (rule merged_counts[OF ids(3)])+
  have others: "{m \<in> set (metadata_rows d). md_place_id m \<noteq> Some (pl_id s)} \<subseteq> set (metadata_rows d')"

  proof
    fix m assume "m \<in> {m \<in> set (metadata_rows d). md_place_id m \<noteq> Some (pl_id s)}"
    then show "m \<in> set (metadata_rows d')" unfolding rows set_map by (intro image_eqI[where x = m]) simp_all
  qed
  have "pl_id s \<in> pl_id ` set (mk_places d)" using ids(4) by simp
  then have retired: "set (save_row pl_id (retire_place now s) (mk_places d)) =
      insert (retire_place now s) {x \<in> set (mk_places d). pl_id x \<noteq> pl_id s}" by (simp add: set_save_row)
  have "t \<in> set (save_row pl_id (retire_place now s) (mk_places d))" unfolding retired using ids(3,5) by simp
  then have "pl_id (merged_target now t) \<in> pl_id ` set (save_row pl_id (retire_place now s) (mk_places d))" by simp
  note found = this
  have set: "set (mk_places d') = insert (merged_target now t)
      {x \<in> insert (retire_place now s) {x \<in> set (mk_places d). pl_id x \<noteq> pl_id s}. pl_id x \<noteq> pl_id t}"
    unfolding places set_save_row[where r = "merged_target now t"] if_P[OF found] unfolding retired by simp
  have "pl_deleted_at t = None" using assms(2) by (simp add: merge_ready_def)
  then have "pl_id t \<in> live_places d'" unfolding live_places_def set
    by (intro CollectI exI[of _ "merged_target now t"]) simp
  moreover have "pl_id s \<notin> live_places d'" 
  proof
    assume "pl_id s \<in> live_places d'"
    then obtain p where p: "p \<in> set (mk_places d')" "pl_id p = pl_id s" "pl_deleted_at p = None"
      by (auto simp: live_places_def)
    then have "p = retire_place now s" using ids(3) by (auto simp: set)
    then show False using p(3) by (simp add: retire_place_def)
  qed
  ultimately have "place_get (pl_id s) d' = None" "place_get (pl_id t) d' \<noteq> None" by (simp_all only: place_get_live not_not simp_thms)
  moreover have "mr_moved_references (merge_response_of now s t d d') = total_reference_count d (pl_id s)"
    by (simp add: merge_response_of_def length_source_rows[OF assms(1)])
  ultimately show ?thesis using merge counts others by blast
qed

theorem merge_moves_references_witness:
  "\<exists>d' r. merge_places 5 \<lparr>mp_source = ''p'', mp_target = ''q'', mp_source_revision = 1, mp_target_revision = 1\<rparr> demo_library = Inr (d', r) \<and>
    total_reference_count d' ''p'' = 0 \<and> total_reference_count d' ''q'' = 2 + 0 \<and> mr_moved_references r = 2 \<and>
    {m \<in> set (metadata_rows demo_library). md_place_id m \<noteq> Some ''p''} \<subseteq> set (metadata_rows d') \<and>
    place_get ''p'' d' = None \<and> place_get ''q'' d' \<noteq> None"
proof -
  have ids: "pl_id (demo_place i x) = i" for i x by (simp add: demo_place_def)
  have ready: "merge_ready \<lparr>mp_source = ''p'', mp_target = ''q'', mp_source_revision = 1, mp_target_revision = 1\<rparr>
      demo_library (demo_place ''p'' 0) (demo_place ''q'' 0)"
    by (simp add: merge_ready_def place_get_any_def demo_library_def demo_place_def)
  have counts: "total_reference_count demo_library ''p'' = 2" "total_reference_count demo_library ''q'' = 0"
    by (simp_all add: total_reference_count_def count_where_def demo_library_def)
  show ?thesis using merge_moves_references[OF demo_library_ok ready, of 5] unfolding ids counts .
qed

text \<open>
  C28. Automatic work respects the user: matching a photo by its coordinates, and reclassifying
  the photos around a place, leave the row of every photo whose place the user decided, and of
  every DAILY photo, exactly as it was.
\<close>

theorem user_decisions_survive:
  assumes "mk_ok d" and "x \<in> set (metadata_rows d)"
    and "md_match_source x = Some ''USER'' \<or> is_daily_photo (state_of d (md_file x))"
    and "(\<exists>b. auto_match_file now i pick file create d = Inr (d', b)) \<or> (\<exists>c. reclassify now i reassign d = Inr (d', c))"
  shows "x \<in> set (metadata_rows d')"
proof -
  have "blocks_automatic_change (Some x) (state_of d (md_file x))"
    using assms(3) by (auto simp: blocks_automatic_change_def is_user_place_decision_def)
  then show ?thesis using assms(4) auto_match_keeps[OF _ assms(1,2)] reclassify_keeps[OF _ assms(1,2)] by blast
qed

text \<open>The photos are at the equator and their place at the pole, so the automatic one leaves it.\<close>

definition far_place :: mk_place where
  "far_place = demo_place ''p'' 90"

definition far_library :: mk_state where
  "far_library = demo_library\<lparr>mk_places := [far_place]\<rparr>"

lemma far_place_simps [simp]:
  "pl_id far_place = ''p''" "pl_active far_place" "pl_deleted_at far_place = None" "pl_latitude far_place = 90"
  "pl_longitude far_place = 0" "pl_radius far_place = 100"
  by (simp_all add: far_place_def demo_place_def)

lemma far_library_ok: "mk_ok far_library"
proof -
  have "''p'' \<in> live_places far_library" unfolding live_places_def
    by (intro CollectI exI[of _ far_place]) (simp add: far_library_def)
  moreover have "snd ` placements far_library \<subseteq> {''p''}" "daily_files far_library = {}"
    by (auto simp: far_library_def demo_library_def placements_def daily_files_def)
  ultimately have "relations_ok far_library" by (auto simp: relations_ok_def)
  then show ?thesis by (simp add: mk_ok_def keys_ok_def far_library_def demo_library_def placed_file_def)
qed

lemma quarter: "distance_m 0 0 90 0 = earth_radius * pi / 2"
proof -
  have "0 \<le> sin (pi / 4)" using pi_ge_zero by (intro sin_ge_zero) simp_all
  moreover have "haversine 0 0 90 0 = (sin (pi / 4))\<^sup>2" by (simp add: haversine_def radians_def)
  ultimately have "sqrt (haversine 0 0 90 0) = sin (pi / 4)" by simp
  then have "arcsin (sqrt (haversine 0 0 90 0)) = pi / 4" by (simp add: arcsin_sin)
  then show ?thesis by (simp add: distance_m_def)
qed

lemma quarter_far: "100 < distance_m 0 0 90 0"
proof -
  have "earth_radius * 2 / 2 \<le> earth_radius * pi / 2" using pi_ge_two by (simp add: earth_radius_def)
  then show ?thesis unfolding quarter by (simp add: earth_radius_def)
qed

lemma far_photos: "files_with_gps far_library = [user_photo, matched_photo]"
  by (simp add: files_with_gps_def far_library_def demo_library_def linked_photo_def active_file_def mk_linked_def
      placed_file_def order_by_def)

lemma far_reclassified: "reclassify 5 ''p'' True far_library =
  Inr (write_relation 5 matched_photo None ''AUTO_PLACE_MATCH'' None False far_library,
    \<lparr>rc_scanned = 2, rc_assigned = 0, rc_reassigned = 0, rc_outside = 1, rc_unchanged = 1\<rparr>)"
proof -
  have "get_place ''p'' far_library = Inr far_place" by (simp add: get_place_def place_get_def far_library_def)
  moreover have "state_of far_library i = None" for i by (simp add: state_of_def far_library_def demo_library_def)
  ultimately show ?thesis using quarter_far
    by (simp add: reclassify_def far_photos reclassify_photo_def blocks_automatic_change_def is_daily_photo_def
        effective_category_def is_user_place_decision_def photo_distance_def set_relation_def)
qed

theorem user_decisions_survive_witness:
  "user_photo \<in> set (metadata_rows (write_relation 5 matched_photo None ''AUTO_PLACE_MATCH'' None False far_library))"
proof -
  have step: "\<exists>c. reclassify 5 ''p'' True far_library =
      Inr (write_relation 5 matched_photo None ''AUTO_PLACE_MATCH'' None False far_library, c)"
    using far_reclassified by blast
  show ?thesis
    by (rule user_decisions_survive[OF far_library_ok _ _ disjI2[OF step]]) (simp_all add: far_library_def demo_library_def)
qed

text \<open>
  An update of a place commits the revision the client sent plus one, and the change event
  it appends carries the old revision: a client that applies events by revision takes the
  update for one it has seen.
\<close>

theorem place_update_event_stale:
  assumes "mk_ok d" and "update_place now i patch d = Inr (d', p)"
  shows "pl_revision p = pt_revision patch + 1 \<and>
    changes (base d') = changes (base d) @ [\<lparr>ce_id = change_seq (base d) + 1, ce_service = memorykeeper,
      ce_type = ''MemoryKeeperPlace'', ce_resource = i, ce_operation = UPDATE,
      ce_revision = Some (pt_revision patch), ce_tombstone = False, ce_changed_at = now\<rparr>]"
proof -
  define d1 where "d1 = snd (update_place_if_revision now i (pt_revision patch) (patch_place patch) d)"
  obtain n where n: "update_place_if_revision now i (pt_revision patch) (patch_place patch) d = (n, d1)"
    unfolding d1_def by (metis prod.collapse)
  obtain c where c: "get_place i d = Inr c" "pl_revision c = pt_revision patch"
    and d': "d' = place_change now c UPDATE False d1" "get_place i d' = Inr p"
    using assms(2) unfolding update_place_def and_then_Inr_iff raise_if_Inr_iff n Let_def prod.case by auto
  have "place_get i d = Some c" "place_get i d' = Some p" using c d' by (simp_all add: get_place_def split: option.splits)
  note found = place_get_SomeD[OF this(1)] place_get_SomeD[OF this(2)]
  have "p \<in> set (mk_places d1)" using found(2) by (simp add: d' place_change_def view_simps)
  then obtain r where r: "r \<in> set (mk_places d)" "p = (if pl_id r = i \<and> pl_deleted_at r = None \<and> pl_revision r = pt_revision patch
      then (patch_place patch r)\<lparr>pl_revision := pt_revision patch + 1, pl_updated_at := now\<rparr> else r)"
    by (auto simp: d1_def update_place_if_revision_def Let_def set_update_where)
  then have "pl_id r = i" using found(2) by (auto split: if_splits)
  moreover have "inj_on pl_id (set (mk_places d))" using assms(1) by (simp add: mk_ok_def keys_ok_def distinct_map)
  ultimately have "r = c" using found(1) r(1) by (auto dest: inj_onD)
  then have "pl_revision p = pt_revision patch + 1" using r(2) found(1) c(2) by simp
  then show ?thesis using found(1) c(2)
    by (simp add: d'(1) d1_def update_place_if_revision_def Let_def place_change_def mk_change_def append_change_def)
qed

definition favorite_patch :: place_patch where
  "favorite_patch = \<lparr>pt_revision = 1, pt_display_name = None, pt_canonical_name = None, pt_address = None,
     pt_postal_code = None, pt_country = None, pt_province = None, pt_city = None, pt_district = None,
     pt_latitude = None, pt_longitude = None, pt_radius = None, pt_provider_place_id = None, pt_category = None,
     pt_active = None, pt_favorite = Some True\<rparr>"

lemma demo_place_update: "\<exists>d. update_place 5 ''p'' favorite_patch demo_library =
  Inr (d, (demo_place ''p'' 0)\<lparr>pl_favorite := True, pl_revision := 2, pl_updated_at := 5\<rparr>) \<and>
  change_seq (base d) = 1"
  by (simp add: update_place_def get_place_def place_get_def demo_library_def demo_place_def favorite_patch_def
      update_place_if_revision_def patch_place_def count_where_def update_where_def place_change_def mk_change_def
      append_change_def empty_db_def)

theorem place_update_event_stale_witness:
  "\<exists>d'. map ce_revision (changes (base d')) = [Some 1] \<and>
     update_place 5 ''p'' favorite_patch demo_library =
       Inr (d', (demo_place ''p'' 0)\<lparr>pl_favorite := True, pl_revision := 2, pl_updated_at := 5\<rparr>)"
proof -
  obtain d' where d': "update_place 5 ''p'' favorite_patch demo_library =
      Inr (d', (demo_place ''p'' 0)\<lparr>pl_favorite := True, pl_revision := 2, pl_updated_at := 5\<rparr>)"
    using demo_place_update by blast
  have "changes (base demo_library) = []" "pt_revision favorite_patch = 1"
    by (simp_all add: demo_library_def empty_db_def favorite_patch_def)
  then show ?thesis using d' place_update_event_stale[OF demo_library_ok d'] by (intro exI[of _ d']) simp
qed

text \<open>
  When no active place matches the coordinates of a photo and the deduplication key of the
  place to create belongs to a place that was deactivated, the automatic match ends in
  PLACE_NOT_ASSIGNABLE: an inactive place makes every photo taken there fail in the worker.
\<close>

theorem inactive_duplicate_blocks_match:
  assumes "metadata_of d file = Some m" and "md_gps_lat m = Some lat" and "md_gps_lon m = Some lon"
    and "mk_linked d file" and "\<not> blocks_automatic_change (Some m) (state_of d file)"
    and "pm_place (match_place d lat lon None (md_place_name m)) = None"
    and "candidate_duplicate d (pick m) lat lon = None"
    and "place_by_dedup_key (auto_dedup_key (pick m)) d = Some p" and "\<not> pl_active p"
    and "distinct (map pl_id (mk_places d))"
  shows "auto_match_file now i pick file True d = Inl (PlaceNotAssignable (pl_id p))"
proof -
  have p: "p \<in> set (mk_places d)" "pl_dedup_key p = Some (auto_dedup_key (pick m))" "pl_deleted_at p = None"
    using find_row_SomeD[OF assms(8)[unfolded place_by_dedup_key_def]] by auto
  then have "insert_place (candidate_place now i (pick m)) d = None"
    by (auto simp: insert_place_def candidate_place_def intro: rev_image_eqI)
  then have "resolve_candidate now i (pick m) lat lon d = Inr (d, p, False, duplicate_source p (pick m))"
    using assms(7,8) by (simp add: resolve_candidate_def)
  moreover have "place_get (pl_id p) d = Some p"
    using find_row_mem[of pl_id "filter (\<lambda>p. pl_deleted_at p = None) (mk_places d)" p] p assms(10)
    by (simp add: place_get_def distinct_map_filter)
  ultimately show ?thesis using assms(1-6,9) by (simp add: auto_match_file_def set_relation_def)
qed

definition demo_candidate :: place_candidate where
  "demo_candidate = \<lparr>pc_display_name = ''A'', pc_canonical_name = ''A'', pc_address = None, pc_latitude = 0,
     pc_longitude = 0, pc_radius = 100, pc_provider_place_id = Some ''g'', pc_category = ''park'',
     pc_creation_source = ''GOOGLE'', pc_country = None, pc_province = None, pc_city = None, pc_district = None\<rparr>"

definition inactive_place :: mk_place where
  "inactive_place = (demo_place ''q'' 0)\<lparr>pl_dedup_key := Some (''provider:'' @ strip ''g''), pl_active := False\<rparr>"

definition inactive_library :: mk_state where
  "inactive_library = demo_library\<lparr>metadata_rows := [matched_photo], mk_places := [inactive_place]\<rparr>"

theorem inactive_duplicate_blocks_match_witness:
  "auto_match_file 5 ''n'' (\<lambda>_. demo_candidate) 2 True inactive_library = Inl (PlaceNotAssignable ''q'')"
proof -
  have none: "active_places inactive_library = []"
    by (simp add: active_places_def inactive_library_def inactive_place_def order_by_def)
  have matches: "pm_place (match_place inactive_library 0 0 x y) = None" for x y
    by (simp add: match_place_def none Let_def)
  have free: "state_of inactive_library 2 = None" "metadata_of inactive_library 2 = Some matched_photo"
    "mk_linked inactive_library 2" "mk_places inactive_library = [inactive_place]"
    by (simp_all add: state_of_def metadata_of_def mk_linked_def inactive_library_def demo_library_def)
  have key: "place_by_dedup_key (auto_dedup_key demo_candidate) inactive_library = Some inactive_place"
    by (simp add: place_by_dedup_key_def free auto_dedup_key_def demo_candidate_def inactive_place_def demo_place_def)
  have "auto_match_file 5 ''n'' (\<lambda>_. demo_candidate) 2 True inactive_library = Inl (PlaceNotAssignable (pl_id inactive_place))"
    by (rule inactive_duplicate_blocks_match[where m = matched_photo and lat = 0 and lon = 0])
      (simp_all add: free matches key candidate_duplicate_def none blocks_automatic_change_def is_daily_photo_def
        effective_category_def is_user_place_decision_def, simp add: inactive_place_def)
  then show ?thesis by (simp add: inactive_place_def demo_place_def)
qed

text \<open>
  For coordinates a place or a photo may have, the haversine term stays within the domain
  of the arcsine, so distances are defined; they are symmetric, zero from a point to itself,
  and at most half the circumference of the earth.
\<close>

theorem distance_bounds:
  assumes "- 90 \<le> lat1" "lat1 \<le> 90" "- 90 \<le> lat2" "lat2 \<le> 90"
  shows "haversine lat1 lon1 lat2 lon2 \<in> {0..1} \<and> distance_m lat1 lon1 lat2 lon2 \<in> {0..earth_radius * pi} \<and>
    distance_m lat1 lon1 lat2 lon2 = distance_m lat2 lon2 lat1 lon1 \<and> distance_m lat1 lon1 lat1 lon1 = 0"
proof -
  note h = haversine_le[OF assms, of lon1 lon2]
  let ?a = "arcsin (sqrt (haversine lat1 lon1 lat2 lon2))"
  have s: "0 \<le> sqrt (haversine lat1 lon1 lat2 lon2)" "sqrt (haversine lat1 lon1 lat2 lon2) \<le> 1" using h by simp_all
  have "?a \<le> pi / 2" using s by (intro arcsin_ubound) linarith+
  moreover have "0 \<le> ?a" using s arcsin_le_arcsin[of 0 "sqrt (haversine lat1 lon1 lat2 lon2)"] by simp
  ultimately have "0 \<le> earth_radius * ?a" "earth_radius * ?a \<le> earth_radius * (pi / 2)"
    by (simp_all add: earth_radius_def)
  then have "0 \<le> distance_m lat1 lon1 lat2 lon2" "distance_m lat1 lon1 lat2 lon2 \<le> earth_radius * pi"
    by (simp_all add: distance_m_def)
  moreover have "distance_m lat1 lon1 lat2 lon2 = distance_m lat2 lon2 lat1 lon1"
    unfolding distance_m_def haversine_sym[of lat1 lon1 lat2 lon2] ..
  moreover have "distance_m lat1 lon1 lat1 lon1 = 0" by (simp add: distance_m_def haversine_def)
  ultimately show ?thesis using h by simp
qed

theorem distance_bounds_witness:
  "haversine 0 0 90 180 \<in> {0..1} \<and> distance_m 0 0 90 180 \<in> {0..earth_radius * pi} \<and>
    distance_m 0 0 90 180 = distance_m 90 180 0 0 \<and> distance_m 0 0 0 0 = 0"
  by (rule distance_bounds) simp_all

end
