(* ===== verification/CaptureDateLaws.thy ===== *)
theory CaptureDateLaws
  imports MkSteps
begin

text \<open>
  The properties of capture dates: the shape of a projection, what an override writes, and that
  clearing it restores the date the photo had.
\<close>

section \<open>What a request on dates reads\<close>

definition same_photos :: "mk_state \<Rightarrow> mk_state \<Rightarrow> bool" where
  "same_photos d d' \<longleftrightarrow> files (base d') = files (base d) \<and> links (base d') = links (base d) \<and>
     metadata_rows d' = metadata_rows d \<and> linked_at d' = linked_at d"

lemma same_photos_refl [simp]: "same_photos d d"
  by (simp add: same_photos_def)

lemma same_photos_trans: "same_photos d d' \<Longrightarrow> same_photos d' d'' \<Longrightarrow> same_photos d d''"
  by (simp add: same_photos_def)

lemma same_photosD:
  assumes "same_photos d d'"
  shows "mk_file d' i = mk_file d i" "metadata_of d' k = metadata_of d k" "state_projection d' f m s = state_projection d f m s"
  using assms by (simp_all add: same_photos_def mk_file_def mk_linked_def metadata_of_def state_projection_def)

lemma same_photos_primitives [simp]:
  "same_photos d (mk_change now r k op n t d') = same_photos d d'" "same_photos d (add_histories hs d') = same_photos d d'"
  "same_photos d (put_state s d') = same_photos d d'" "same_photos d (bump_state now i d') = same_photos d d'"
  by (simp_all add: same_photos_def mk_change_def append_change_def add_histories_def put_state_def bump_state_def)

lemma synchronize_same: "synchronize now f m s d = Some d' \<Longrightarrow> same_photos d d'"
  by (auto simp: synchronize_def Let_def)

lemma create_state_same: "create_state now f d = Some d' \<Longrightarrow> same_photos d d'"
  by (simp add: create_state_def synchronize_same)

section \<open>One state\<close>

lemma state_of_views [simp]:
  "state_of (mk_change now r k op n t d) i = state_of d i" "state_of (add_histories hs d) i = state_of d i"
  by (simp_all add: state_of_def view_simps)

lemma state_of_put: "state_of (put_state s d) i = (if i = st_file s then Some s else state_of d i)"
proof (cases "state_of d (st_file s)")
  case None
  then show ?thesis by (auto simp: put_state_def state_of_def find_row_append split: option.splits)
next
  case (Some s')
  then have "st_file s \<in> st_file ` set (file_states d)" using state_of_SomeD[OF Some] by (metis imageI)
  then show ?thesis using Some by (simp add: put_state_def state_of_def find_row_save_row)
qed

lemma state_of_bump: "state_of (bump_state now i d) j = map_option
    (\<lambda>s. if st_file s = i then s\<lparr>st_revision := st_revision s + 1, st_updated_at := now\<rparr> else s) (state_of d j)"
  by (simp add: bump_state_def state_of_def find_row_update_where)

definition overridden :: "wall_time option \<Rightarrow> file_state \<Rightarrow> file_state" where
  "overridden t s = s\<lparr>st_user_datetime := t, st_user_precision := (if t = None then None else Some ''DATE'')\<rparr>"

definition after_override :: "time \<Rightarrow> wall_time option \<Rightarrow> projection \<Rightarrow> file_state \<Rightarrow> file_state" where
  "after_override now t p s =
     (with_projection p (overridden t s))\<lparr>st_revision := st_revision s + 1, st_updated_at := now\<rparr>"

lemma override_file_effect:
  assumes "override_file now t i d = Inr d'" and "mk_file d i = Some f" and "state_of d (cf_id f) = Some s"
  shows "\<exists>p. state_projection d f (metadata_of d (cf_id f)) (overridden t s) = Some p \<and>
    state_of d' (cf_id f) = Some (after_override now t p s)"
    "j \<noteq> cf_id f \<Longrightarrow> state_of d' j = state_of d j" "same_photos d d'"
proof -
  let ?d = "if st_user_datetime s \<noteq> t then add_histories [override_history (cf_id f) (st_user_datetime s) t] d else d"
  have d: "metadata_of ?d k = metadata_of d k" "state_projection ?d f m x = state_projection d f m x"
    "state_of ?d k = state_of d k" "same_photos d ?d" for k m x
    by (simp_all add: metadata_of_def state_projection_def add_histories_def state_of_def same_photos_def)
  obtain d2 where d2: "synchronize now f (metadata_of ?d (cf_id f)) (overridden t s) ?d = Some d2"
    and d': "d' = mk_change now ''MemoryKeeperCaptureDate'' (cf_file_id f) UPDATE (Some (st_revision s + 1)) False
          (bump_state now (cf_id f) d2)"
  proof -
    obtain d2 where step: "or_value_error (synchronize now f (metadata_of ?d (cf_id f)) (overridden t s) ?d) = Inr d2"
      "Inr (mk_change now ''MemoryKeeperCaptureDate'' (cf_file_id f) UPDATE (Some (st_revision s + 1)) False
          (bump_state now (cf_id f) d2)) = (Inr d' :: files_error + mk_state)"
      using assms(1) unfolding override_file_def assms(2,3) option.case Let_def and_then_Inr_iff overridden_def by blast
    then have "synchronize now f (metadata_of ?d (cf_id f)) (overridden t s) ?d = Some d2"
      unfolding or_value_error_def by (cases "synchronize now f (metadata_of ?d (cf_id f)) (overridden t s) ?d") (simp_all only: option.case sum.simps)
    moreover have "d' = mk_change now ''MemoryKeeperCaptureDate'' (cf_file_id f) UPDATE (Some (st_revision s + 1)) False
          (bump_state now (cf_id f) d2)" using step(2) by (simp only: sum.simps)
    ultimately show thesis by (rule that)
  qed
  define written where "written = (\<lambda>p. if with_projection p (overridden t s) = overridden t s then overridden t s
        else (with_projection p (overridden t s))\<lparr>st_updated_at := now\<rparr>)"
  have id: "st_file s = cf_id f" using state_of_SomeD[OF assms(3)] by simp
  have written: "st_file (written p) = cf_id f"
    "(written p)\<lparr>st_revision := st_revision (written p) + 1, st_updated_at := now\<rparr> = after_override now t p s" for p
    using id by (simp_all add: written_def after_override_def overridden_def with_projection_def)
  from d2 obtain p where p: "state_projection d f (metadata_of d (cf_id f)) (overridden t s) = Some p"
    and put: "d2 = put_state (written p) ?d"
    unfolding synchronize_def d Let_def map_option_eq_Some written_def by blast
  have at: "state_of d2 k = (if k = cf_id f then Some (written p) else state_of d k)" for k
    unfolding put state_of_put written(1) d(3) ..
  have "state_of d' (cf_id f) = Some (after_override now t p s)"
    unfolding d' state_of_views state_of_bump at by (simp add: written)
  then show "\<exists>p. state_projection d f (metadata_of d (cf_id f)) (overridden t s) = Some p \<and>
    state_of d' (cf_id f) = Some (after_override now t p s)" using p by blast
  show "state_of d' j = state_of d j" if "j \<noteq> cf_id f"
    unfolding d' state_of_views state_of_bump at using that state_of_SomeD[of d j]
    by (cases "state_of d j") simp_all
  show "same_photos d d'" using d(4) unfolding d' put same_photos_primitives .
qed

section \<open>The loops\<close>

lemma mk_file_distinct:
  assumes "keys_ok d" and "mk_file d i = Some f" and "mk_file d j = Some g" and "cf_id f = cf_id g"
  shows "i = j"
proof -
  have "inj_on cf_id (set (files (base d)))" using assms(1) by (simp add: keys_ok_def distinct_map)
  from inj_onD[OF this assms(4) mk_file_SomeD(1)[OF assms(2)] mk_file_SomeD(1)[OF assms(3)]] have "f = g" .
  then show ?thesis using mk_file_SomeD(2)[OF assms(2)] mk_file_SomeD(2)[OF assms(3)] by simp
qed

lemma override_file_frame:
  assumes "override_file now t i d = Inr d'"
  shows "same_photos d d'" "(\<And>f. mk_file d i = Some f \<Longrightarrow> cf_id f \<noteq> j) \<Longrightarrow> state_of d' j = state_of d j"
proof -
  have "same_photos d d' \<and> ((\<forall>f. mk_file d i = Some f \<longrightarrow> cf_id f \<noteq> j) \<longrightarrow> state_of d' j = state_of d j)"
  proof (cases "mk_file d i")
    case None
    then show ?thesis using assms by (simp add: override_file_def)
  next
    case f: (Some f)
    show ?thesis
    proof (cases "state_of d (cf_id f)")
      case None
      then show ?thesis using assms f by (simp add: override_file_def)
    next
      case (Some s)
      from override_file_effect[OF assms f this] f show ?thesis by simp
    qed
  qed
  then show "same_photos d d'" "(\<And>f. mk_file d i = Some f \<Longrightarrow> cf_id f \<noteq> j) \<Longrightarrow> state_of d' j = state_of d j" by auto
qed

lemma override_file_keys:
  assumes "override_file now t i d = Inr d'" and "keys_ok d"
  shows "keys_ok d'"
proof -
  have "map st_file (file_states (bump_state now k x)) = map st_file (file_states x)" for k x
    by (simp add: bump_state_def map_update_where)
  then have bump: "keys_ok (bump_state now k x) = keys_ok x" for k x by (simp add: keys_ok_def) (simp add: bump_state_def)
  show ?thesis using assms
    by (auto simp: override_file_def Let_def or_value_error_def and_then_Inr_iff view_simps bump
        dest!: synchronize_views(1) split: option.splits if_splits)
qed

lemma override_all_frame:
  assumes "for_each (override_file now t) ids d = Inr d'"
  shows "same_photos d d'" "(\<And>i f. i \<in> set ids \<Longrightarrow> mk_file d i = Some f \<Longrightarrow> cf_id f \<noteq> j) \<Longrightarrow> state_of d' j = state_of d j"
proof -
  have "same_photos d d' \<and> ((\<forall>i f. i \<in> set ids \<longrightarrow> mk_file d i = Some f \<longrightarrow> cf_id f \<noteq> j) \<longrightarrow> state_of d' j = state_of d j)"
    using assms
  proof (induction ids arbitrary: d)
    case (Cons i ids)
    then obtain d1 where d1: "override_file now t i d = Inr d1" "for_each (override_file now t) ids d1 = Inr d'"
      by (auto split: sum.splits)
    note one = override_file_frame[OF d1(1)] and rest = Cons.IH[OF d1(2)]
    have "same_photos d d'" by (rule same_photos_trans[OF one(1) conjunct1[OF rest]])
    moreover have "state_of d' j = state_of d j" if "\<forall>x f. x \<in> set (i # ids) \<longrightarrow> mk_file d x = Some f \<longrightarrow> cf_id f \<noteq> j"
    proof -
      have "state_of d1 j = state_of d j" using that by (intro one(2)) simp
      moreover have "state_of d' j = state_of d1 j" using rest that same_photosD(1)[OF one(1)] by simp
      ultimately show ?thesis by simp
    qed
    ultimately show ?case by blast
  qed simp
  then show "same_photos d d'" "(\<And>i f. i \<in> set ids \<Longrightarrow> mk_file d i = Some f \<Longrightarrow> cf_id f \<noteq> j) \<Longrightarrow> state_of d' j = state_of d j"
    by auto
qed

lemma override_all_effect:
  assumes "for_each (override_file now t) ids d = Inr d'" and "keys_ok d" and "distinct ids" and "i \<in> set ids"
    and "mk_file d i = Some f" and "state_of d (cf_id f) = Some s"
  shows "\<exists>p. state_projection d f (metadata_of d (cf_id f)) (overridden t s) = Some p \<and>
    state_of d' (cf_id f) = Some (after_override now t p s)"
  using assms
proof (induction ids arbitrary: d)
  case (Cons k ids)
  then obtain d1 where d1: "override_file now t k d = Inr d1" "for_each (override_file now t) ids d1 = Inr d'"
    by (auto split: sum.splits)
  note same = override_file_frame(1)[OF d1(1)]
  note D = same_photosD[OF same]
  show ?case
  proof (cases "i = k")
    case True
    then have "mk_file d k = Some f" using Cons.prems(5) by simp
    from override_file_effect(1)[OF d1(1) this Cons.prems(6)] obtain p
      where p: "state_projection d f (metadata_of d (cf_id f)) (overridden t s) = Some p"
        "state_of d1 (cf_id f) = Some (after_override now t p s)" by blast
    have "cf_id g \<noteq> cf_id f" if "x \<in> set ids" "mk_file d1 x = Some g" for x g
      using mk_file_distinct[OF Cons.prems(2) _ Cons.prems(5), of x g] that True Cons.prems(3) D(1) by auto
    from override_all_frame(2)[OF d1(2) this] p show ?thesis by auto
  next
    case False
    then have "cf_id g \<noteq> cf_id f" if "mk_file d k = Some g" for g
      using mk_file_distinct[OF Cons.prems(2) that Cons.prems(5)] by auto
    then have "state_of d1 (cf_id f) = Some s" using override_file_frame(2)[OF d1(1)] Cons.prems(6) by metis
    moreover have "keys_ok d1"
      using Cons.prems(2) by (rule override_file_keys[OF d1(1)])
    ultimately show ?thesis
      using Cons.IH[OF d1(2)] Cons.prems(3-5) False D by simp
  qed
qed simp

section \<open>The missing states\<close>

lemma ensure_state_effect:
  assumes "ensure_state now i d = Inr d'"
  shows "same_photos d d'" "state_of d j = Some s \<Longrightarrow> state_of d' j = Some s"
    "keys_ok d' = keys_ok d" "mk_file d i = Some f \<Longrightarrow> \<exists>s. state_of d' (cf_id f) = Some s"
proof -
  have "d' = d \<and> (\<forall>f. mk_file d i = Some f \<longrightarrow> state_of d (cf_id f) \<noteq> None) \<or>
    (\<exists>f. mk_file d i = Some f \<and> state_of d (cf_id f) = None \<and> create_state now f d = Some d')"
    using assms by (auto simp: ensure_state_def or_value_error_def split: option.splits if_splits)
  then have all: "same_photos d d' \<and> (state_of d j = Some s \<longrightarrow> state_of d' j = Some s) \<and> keys_ok d' = keys_ok d \<and>
    (mk_file d i = Some f \<longrightarrow> (\<exists>s. state_of d' (cf_id f) = Some s))"
  proof
    assume "\<exists>f. mk_file d i = Some f \<and> state_of d (cf_id f) = None \<and> create_state now f d = Some d'"
    then obtain g where g: "mk_file d i = Some g" "state_of d (cf_id g) = None" "create_state now g d = Some d'" by blast
    obtain p where "d' = put_state p d" "st_file p = cf_id g"
      using g(3) by (auto simp: create_state_def synchronize_def Let_def new_state_def)
    then have "state_of d j = Some s \<longrightarrow> state_of d' j = Some s" using g(2) by (auto simp: state_of_put)
    then show ?thesis using create_state_same[OF g(3)] create_state_views(1)[OF g(3)] created_state[OF g(3)] g(1) by auto
  qed auto
  then show "same_photos d d'" "state_of d j = Some s \<Longrightarrow> state_of d' j = Some s"
    "keys_ok d' = keys_ok d" "mk_file d i = Some f \<Longrightarrow> \<exists>s. state_of d' (cf_id f) = Some s" by blast+
qed

lemma ensure_all_effect:
  assumes "for_each (ensure_state now) ids d = Inr d'"
  shows "same_photos d d' \<and> (\<forall>j s. state_of d j = Some s \<longrightarrow> state_of d' j = Some s) \<and> keys_ok d' = keys_ok d \<and>
    (\<forall>i f. i \<in> set ids \<longrightarrow> mk_file d i = Some f \<longrightarrow> (\<exists>s. state_of d' (cf_id f) = Some s))"
  using assms
proof (induction ids arbitrary: d)
  case (Cons i ids)
  then obtain d1 where d1: "ensure_state now i d = Inr d1" "for_each (ensure_state now) ids d1 = Inr d'"
    by (auto split: sum.splits)
  note one = ensure_state_effect[OF d1(1)] and rest = Cons.IH[OF d1(2)]
  have "same_photos d d'" by (rule same_photos_trans[OF one(1) conjunct1[OF rest]])
  moreover have "\<exists>s. state_of d' (cf_id f) = Some s" if "x \<in> set (i # ids)" "mk_file d x = Some f" for x f
    using that rest one(4)[of f] same_photosD(1)[OF one(1)] by auto
  ultimately show ?case using one(2,3) rest by blast
qed simp

section \<open>The request\<close>

lemma no_conflict:
  assumes "revision_conflicts rv d e ids = []" and "i \<in> set ids" and "mk_file d i = Some f" and "state_of d (cf_id f) = Some s"
  shows "rv s = e i"
proof (rule ccontr)
  let ?g = "\<lambda>i. Option.bind (mk_file d i) (\<lambda>f. Option.bind (state_of d (cf_id f)) (\<lambda>s.
        if rv s \<noteq> e i then Some (i, e i, rv s) else None))"
  assume "rv s \<noteq> e i"
  then have "?g i = Some (i, e i, rv s)" using assms(3,4) by simp
  then have "(i, e i, rv s) \<in> set (List.map_filter ?g ids)"
    using assms(2) by (force simp: List.map_filter_def)
  then show False using assms(1) by (simp add: revision_conflicts_def)
qed

lemma dates_effect:
  assumes "update_capture_dates now ids date e d = Inr d'" and "keys_ok d" and "distinct ids" and "i \<in> set ids"
    and "mk_file d i = Some f" and "state_of d (cf_id f) = None \<or> state_of d (cf_id f) = Some s0"
  shows "\<exists>s p. (state_of d (cf_id f) = Some s0 \<longrightarrow> s = s0) \<and> st_revision s = e i \<and>
    state_projection d f (metadata_of d (cf_id f)) (overridden (map_option date_midnight date) s) = Some p \<and>
    state_of d' (cf_id f) = Some (after_override now (map_option date_midnight date) p s)"
    "same_photos d d'"
proof -
  obtain d1 where d1: "for_each (ensure_state now) ids d = Inr d1" "revision_conflicts st_revision d1 e ids = []"
    "for_each (override_file now (map_option date_midnight date)) ids d1 = Inr d'"
    using assms(1) unfolding update_capture_dates_def raise_if_Inr_iff and_then_Inr_iff by auto
  note pre = ensure_all_effect[OF d1(1)]
  note D = same_photosD[OF conjunct1[OF pre]]
  obtain s where s: "state_of d1 (cf_id f) = Some s" using pre assms(4,5) by blast
  have "state_of d (cf_id f) = Some s0 \<longrightarrow> s = s0" using pre s by force
  moreover have here: "mk_file d1 i = Some f" using assms(5) D(1) by simp
  have "st_revision s = e i" by (rule no_conflict[OF d1(2) assms(4) here s])
  moreover have "keys_ok d1" using pre assms(2) by simp
  note override_all_effect[OF d1(3) this assms(3,4) here s]
  ultimately show "\<exists>s p. (state_of d (cf_id f) = Some s0 \<longrightarrow> s = s0) \<and> st_revision s = e i \<and>
    state_projection d f (metadata_of d (cf_id f)) (overridden (map_option date_midnight date) s) = Some p \<and>
    state_of d' (cf_id f) = Some (after_override now (map_option date_midnight date) p s)"
    unfolding D by blast
  show "same_photos d d'"
    using same_photos_trans[OF conjunct1[OF pre] override_all_frame(1)[OF d1(3)]] .
qed

section \<open>Properties\<close>

text \<open>
  The capture date of a state always has a year and a basis; it has a date and time unless
  only the year of the source is known, and then its precision is YEAR; the year of a date is
  the year column.
\<close>

theorem projection_well_formed:
  assumes "state_projection d f m s = Some p"
  shows "cp_year p \<noteq> None \<and> cp_basis p \<in> Some ` {''USER'', ''EXIF'', ''SOURCE_YEAR'', ''IMPORTED''} \<and>
    (cp_datetime p = None \<longleftrightarrow> cp_basis p = Some ''SOURCE_YEAR'') \<and>
    (cp_datetime p = None \<longrightarrow> cp_precision p = Some ''YEAR'') \<and>
    cp_year p = (case cp_datetime p of None \<Rightarrow> st_source_year s | Some t \<Rightarrow> Some (wall_year t))"
  using assms
  by (auto simp: state_projection_def calculate_projection_def exact_projection_def split: option.splits if_splits)

definition dated_state :: file_state where
  "dated_state = (new_state 0 1 False)\<lparr>st_source_year := Some 1999\<rparr>"

definition year_projection :: projection where
  "year_projection = \<lparr>cp_datetime = None, cp_year = Some 1999, cp_precision = Some ''YEAR'', cp_basis = Some ''SOURCE_YEAR''\<rparr>"

lemma dated_projection: "state_projection d f None dated_state = Some year_projection"
  by (simp add: state_projection_def calculate_projection_def dated_state_def new_state_def year_projection_def)

theorem projection_well_formed_witness:
  "cp_year year_projection \<noteq> None \<and> cp_datetime year_projection = None \<and> cp_precision year_projection = Some ''YEAR''"
proof -
  have "cp_datetime year_projection = None" by (simp add: year_projection_def)
  then show ?thesis using projection_well_formed[OF dated_projection] by blast
qed

text \<open>
  C31. A request for capture dates that succeeds has found the revision the client sent for every
  file, and leaves each with the requested date, the next revision, and a projection that is
  current; states of other photos, metadata and places stay as they were.
\<close>

theorem capture_dates_applied:
  assumes "update_capture_dates now ids date e d = Inr d'" and "mk_ok d" and "distinct ids" and "i \<in> set ids"
    and "mk_file d i = Some f"
  shows "\<exists>s p. state_of d' (cf_id f) = Some s \<and> st_user_datetime s = map_option date_midnight date \<and>
    st_revision s = e i + 1 \<and> state_projection d' f (metadata_of d' (cf_id f)) s = Some p \<and> with_projection p s = s \<and>
    metadata_rows d' = metadata_rows d"
proof -
  have keys: "keys_ok d" using assms(2) by (simp add: mk_ok_def)
  have "state_of d (cf_id f) = None \<or> state_of d (cf_id f) = Some (the (state_of d (cf_id f)))"
    by (cases "state_of d (cf_id f)") simp_all
  note effect = dates_effect[OF assms(1) keys assms(3-5) this]
  let ?t = "map_option date_midnight date"
  obtain s p where s: "st_revision s = e i"
    "state_projection d f (metadata_of d (cf_id f)) (overridden ?t s) = Some p"
    "state_of d' (cf_id f) = Some (after_override now ?t p s)" using effect(1) by blast
  let ?s = "after_override now ?t p s"
  have "state_projection d' f (metadata_of d' (cf_id f)) ?s = Some p"
    unfolding same_photosD[OF effect(2)] using s(2)
    by (simp add: state_projection_def after_override_def overridden_def with_projection_def)
  moreover have "with_projection p ?s = ?s" "st_user_datetime ?s = ?t" "st_revision ?s = e i + 1"
    using s(1) by (simp_all add: after_override_def overridden_def with_projection_def)
  moreover have "metadata_rows d' = metadata_rows d" using effect(2) by (simp add: same_photos_def)
  ultimately show ?thesis using s(3) by blast
qed

text \<open>
  C32. Clearing a capture date undoes setting it: a photo without a date of the user, whose
  projection is current, is after both requests as it was, but for the revision and the time of
  the last update.
\<close>

theorem capture_date_roundtrip:
  assumes "update_capture_dates t1 ids (Some date) e1 d = Inr d1" and "update_capture_dates t2 ids None e2 d1 = Inr d2"
    and "mk_ok d" and "distinct ids" and "i \<in> set ids" and "mk_file d i = Some f" and "state_of d (cf_id f) = Some s"
    and "st_user_datetime s = None" and "st_user_precision s = None"
    and "state_projection d f (metadata_of d (cf_id f)) s = Some p" and "with_projection p s = s"
  shows "state_of d2 (cf_id f) = Some (s\<lparr>st_revision := st_revision s + 2, st_updated_at := t2\<rparr>)"
proof -
  have keys: "keys_ok d" using assms(3) by (simp add: mk_ok_def)
  note first = dates_effect[OF assms(1) keys assms(4-6) disjI2[OF assms(7)]]
  then obtain q where q: "state_of d1 (cf_id f) = Some (after_override t1 (Some (date_midnight date)) q s)"
    using assms(7) by auto
  have keys1: "keys_ok d1" using update_capture_dates_ok[OF assms(1,3)] by (simp add: mk_ok_def)
  note D = same_photosD[OF first(2)]
  have "mk_file d1 i = Some f" using assms(6) D(1) by simp
  from dates_effect(1)[OF assms(2) keys1 assms(4,5) this disjI2[OF q]] obtain r where
    r: "state_projection d1 f (metadata_of d1 (cf_id f)) (overridden None (after_override t1 (Some (date_midnight date)) q s)) = Some r"
      "state_of d2 (cf_id f) = Some (after_override t2 None r (after_override t1 (Some (date_midnight date)) q s))"
    using q by auto
  have "state_projection d f (metadata_of d (cf_id f)) (overridden None (after_override t1 (Some (date_midnight date)) q s))
      = state_projection d f (metadata_of d (cf_id f)) s"
    using assms(8,9) by (simp add: state_projection_def overridden_def after_override_def with_projection_def)
  then have "r = p" using r(1) assms(10) unfolding D by simp
  moreover have "after_override t2 None p (after_override t1 (Some (date_midnight date)) q s)
      = (with_projection p s)\<lparr>st_revision := st_revision s + 2, st_updated_at := t2\<rparr>"
    using assms(8,9) by (simp add: after_override_def overridden_def with_projection_def)
  ultimately show ?thesis using r(2) assms(11) by simp
qed

section \<open>A dated photo\<close>

definition dated_file :: common_file where
  "dated_file = \<lparr>cf_id = 1, cf_file_id = ''f1'', cf_original_name = ''x.jpg'', cf_extension = None, cf_mime_type = None,
     cf_file_size = None, cf_width = None, cf_height = None, cf_original_path = None, cf_preview_path = None,
     cf_thumb_path = None, cf_favorite = False, cf_service = memorykeeper, cf_created_at = 0, cf_deleted = False\<rparr>"

definition dated_library :: mk_state where
  "dated_library = \<lparr>base = empty_db\<lparr>files := [dated_file], links := [\<lparr>fs_file = 1, fs_service = memorykeeper\<rparr>]\<rparr>,
     file_states = [with_projection year_projection dated_state], metadata_rows = [], mk_places = [], histories = [],
     linked_at = (\<lambda>_. 0)\<rparr>"

lemma dated_library_ok: "mk_ok dated_library"
  by (auto simp: mk_ok_def keys_ok_def relations_ok_def placements_def dated_library_def)

lemma set_succeeds: "\<exists>d'. update_capture_dates 5 [''f1''] (Some (2020, 1, 2)) (\<lambda>_. 0) dated_library = Inr d'"
proof -
  have "\<not> isl (update_capture_dates 5 [''f1''] (Some (2020, 1, 2)) (\<lambda>_. 0) dated_library)" by code_simp
  then show ?thesis by (cases "update_capture_dates 5 [''f1''] (Some (2020, 1, 2)) (\<lambda>_. 0) dated_library") simp_all
qed

theorem capture_dates_applied_witness:
  "\<exists>d' s p. update_capture_dates 5 [''f1''] (Some (2020, 1, 2)) (\<lambda>_. 0) dated_library = Inr d' \<and>
    state_of d' 1 = Some s \<and> st_user_datetime s = Some (2020, 1, 2, 0) \<and> st_revision s = 1 \<and>
    state_projection d' dated_file (metadata_of d' 1) s = Some p \<and> with_projection p s = s"
proof -
  obtain d' where d': "update_capture_dates 5 [''f1''] (Some (2020, 1, 2)) (\<lambda>_. 0) dated_library = Inr d'"
    using set_succeeds by blast
  have "mk_file dated_library ''f1'' = Some dated_file" "cf_id dated_file = 1"
    by (simp_all add: mk_file_def dated_library_def dated_file_def mk_linked_def)
  note capture_dates_applied[OF d' dated_library_ok _ _ this(1), unfolded this(2)]
  then show ?thesis using d' by (auto simp: date_midnight_def)
qed

lemma clear_succeeds:
  "\<not> isl (and_then (update_capture_dates 5 [''f1''] (Some (2020, 1, 2)) (\<lambda>_. 0) dated_library)
     (update_capture_dates 9 [''f1''] None (\<lambda>_. 1)))"
  by code_simp

theorem capture_date_roundtrip_witness:
  "\<exists>d1 d2. update_capture_dates 5 [''f1''] (Some (2020, 1, 2)) (\<lambda>_. 0) dated_library = Inr d1 \<and>
    update_capture_dates 9 [''f1''] None (\<lambda>_. 1) d1 = Inr d2 \<and>
    state_of d2 1 = Some ((with_projection year_projection dated_state)\<lparr>st_revision := 0 + 2, st_updated_at := 9\<rparr>)"
proof -
  obtain d1 where d1: "update_capture_dates 5 [''f1''] (Some (2020, 1, 2)) (\<lambda>_. 0) dated_library = Inr d1"
    using set_succeeds by blast
  then have "\<not> isl (update_capture_dates 9 [''f1''] None (\<lambda>_. 1) d1)" using clear_succeeds by simp
  then obtain d2 where d2: "update_capture_dates 9 [''f1''] None (\<lambda>_. 1) d1 = Inr d2"
    by (cases "update_capture_dates 9 [''f1''] None (\<lambda>_. 1) d1") simp_all
  let ?s = "with_projection year_projection dated_state"
  have row: "mk_file dated_library ''f1'' = Some dated_file" "cf_id dated_file = 1"
    by (simp_all add: mk_file_def dated_library_def dated_file_def mk_linked_def)
  have state: "state_of dated_library (cf_id dated_file) = Some ?s" "st_user_datetime ?s = None" "st_user_precision ?s = None"
    "with_projection year_projection ?s = ?s" "st_revision ?s = 0"
    by (simp_all add: state_of_def dated_library_def row dated_state_def new_state_def with_projection_def)
  have "state_projection dated_library dated_file (metadata_of dated_library (cf_id dated_file)) ?s = Some year_projection"
    by (simp add: metadata_of_def dated_library_def state_projection_def calculate_projection_def dated_state_def
        new_state_def year_projection_def with_projection_def)
  from capture_date_roundtrip[OF d1 d2 dated_library_ok _ _ row(1) state(1-3) this state(4)]
  show ?thesis using d1 d2 unfolding state(5) row(2) by auto
qed

end
