(* ===== verification/MkRemoval.thy ===== *)
theory MkRemoval
  imports TagSteps FileCleanup
begin

text \<open>
  Removing photos from MemoryKeeper: the deletion of one photo (\<open>delete\<close> of
  \<open>src/app/memorykeeper/services/file_service.py\<close>) and the reset of the service
  (\<open>reset_service.py\<close>). A deletion works on the database and the disk; when the cleanup of
  the file fails, the database is rolled back and the disk stays as the cleanup left it. The
  locks of the reset order it with uploads; the legacy table \<open>mk_photo_tags\<close> is left out.
\<close>

section \<open>Deleting a photo\<close>

datatype removal_error =
    NoSuchPhoto                        \<comment> \<open>404\<close>
  | CleanupConflict cleanup_status     \<comment> \<open>409\<close>
  | CleanupUnavailable cleanup_status  \<comment> \<open>503\<close>

definition unplace :: "time \<Rightarrow> common_file \<Rightarrow> tag_state \<Rightarrow> tag_state" where
  "unplace now f d =
     (case metadata_of (core d) (cf_id f) of
        None \<Rightarrow> d
      | Some m \<Rightarrow> if md_place_id m = None then d else d\<lparr>core := write_relation now m None ''USER'' None False (core d)\<rparr>)"

definition untag :: "time \<Rightarrow> common_file \<Rightarrow> int \<Rightarrow> tag_state \<Rightarrow> tag_state" where
  "untag now f revision d =
     (let mine = filter (\<lambda>r. rl_file r = cf_id f \<and> rl_source r = UserSource \<and> \<not> rl_deleted r) (file_tags d)
      in fold (\<lambda>r d. tag_event now ''MemoryKeeperFileTag'' (cf_file_id f @ '':'' @ str_int (or_else (rl_tag r) (rl_id r))) DELETE
                 (Some revision) True (put_relation (r\<lparr>rl_deleted := True\<rparr>) d)) mine d)"

definition unsuppress :: "common_file \<Rightarrow> tag_state \<Rightarrow> tag_state" where
  "unsuppress f d = d\<lparr>suppressions := update_where (\<lambda>s. su_file s = cf_id f \<and> \<not> su_deleted s)
     (\<lambda>s. s\<lparr>su_deleted := True, su_revision := su_revision s + 1\<rparr>) (suppressions d)\<rparr>"

definition forget_state :: "common_file \<Rightarrow> tag_state \<Rightarrow> tag_state" where
  "forget_state f d = d\<lparr>core := (core d)\<lparr>file_states := delete_where (\<lambda>s. st_file s = cf_id f) (file_states (core d))\<rparr>\<rparr>"

text \<open>The rows of the file that a completed cleanup removes.\<close>

definition cleaned_rows :: "common_file \<Rightarrow> cleanup_status \<Rightarrow> tag_state \<Rightarrow> tag_state" where
  "cleaned_rows f status d =
     (if status = CLEANED
      then d\<lparr>core := (core d)\<lparr>metadata_rows := delete_where (\<lambda>m. md_file m = cf_id f) (metadata_rows (core d))\<rparr>,
             file_tags := delete_where (\<lambda>r. rl_file r = cf_id f) (file_tags d)\<rparr>
      else d)"

definition successful_cleanup :: "cleanup_status \<Rightarrow> bool" where
  "successful_cleanup st \<longleftrightarrow> st = CLEANED \<or> st = ALREADY_CLEANED \<or> st = PRESERVED_OTHER_SERVICE"

definition stage_removal :: "time \<Rightarrow> common_file \<Rightarrow> tag_state \<Rightarrow> tag_state" where
  "stage_removal now f d =
     (let revision = (case state_of (core d) (cf_id f) of None \<Rightarrow> 1 | Some s \<Rightarrow> st_revision s + 1)
      in tag_event now ''MemoryKeeperFile'' (cf_file_id f) DELETE (Some revision) True
           (forget_state f (unsuppress f (untag now f revision (unplace now f d)))))"

definition delete_photo :: "storage_env \<Rightarrow> bool \<Rightarrow> time \<Rightarrow> string \<Rightarrow> tag_state \<times> disk \<Rightarrow> (removal_error + cleanup_result) \<times> tag_state \<times> disk" where
  "delete_photo env db_ok now file s =
     (case s of (d, k) \<Rightarrow>
      case mk_file (core d) file of
        None \<Rightarrow> (Inl NoSuchPhoto, d, k)
      | Some f \<Rightarrow>
          let d1 = stage_removal now f d;
              (result, b, k1) = cleanup_if_unreferenced env memorykeeper db_ok (cf_id f) (base (core d1), k)
          in if successful_cleanup (cr_status result)
             then (Inr result, cleaned_rows f (cr_status result) (d1\<lparr>core := (core d1)\<lparr>base := b\<rparr>\<rparr>), k1)
             else (Inl ((if cr_status result \<in> {PRESERVED_ACTIVE_RECORD, PRESERVED_PROCESSING_VISION}
                         then CleanupConflict else CleanupUnavailable) (cr_status result)), d, k1))"

section \<open>The reset\<close>

definition mk_file_ids :: "tag_state \<Rightarrow> int list" where
  "mk_file_ids d = map fs_file (filter (\<lambda>l. fs_service l = memorykeeper) (links (base (core d))))"

definition mk_only_ids :: "tag_state \<Rightarrow> int list" where
  "mk_only_ids d = filter (\<lambda>i. \<not> exists_row (\<lambda>l. fs_file l = i \<and> fs_service l \<noteq> memorykeeper) (links (base (core d)))) (mk_file_ids d)"

definition active_mk_uploads :: "tag_state \<Rightarrow> upload_job list" where
  "active_mk_uploads d = filter (\<lambda>j. uj_service j = memorykeeper \<and> (uj_status j = WAITING \<or> uj_status j = PROCESSING))
     (upload_jobs (base (core d)))"

definition processing_mk_vision :: "tag_state \<Rightarrow> vision_job list" where
  "processing_mk_vision d = filter (\<lambda>j. vj_file j \<in> set (mk_only_ids d) \<and> \<not> vj_deleted j \<and> vj_status j = PROCESSING)
     (vision_jobs (base (core d)))"

definition mk_relation :: "tag_state \<Rightarrow> file_tag \<Rightarrow> bool" where
  "mk_relation d r \<longleftrightarrow> rl_tag r \<noteq> None \<or> (rl_source r = UserSource \<and> rl_file r \<in> set (mk_file_ids d))"

record mk_reset_preview =
  kp_files :: nat
  kp_places :: nat
  kp_tags :: nat
  kp_favorites :: nat
  kp_memos :: nat
  kp_relations :: nat
  kp_suppressions :: nat
  kp_pending :: nat
  kp_raw_vision :: nat
  kp_shared :: nat
  kp_uploads :: nat
  kp_active_uploads :: nat
  kp_processing_vision :: nat

definition trim_spaces :: "string \<Rightarrow> string" where
  "trim_spaces s = rev (dropWhile (\<lambda>c. c = CHR '' '') (rev (dropWhile (\<lambda>c. c = CHR '' '') s)))"

definition mk_reset_preview_of :: "tag_state \<Rightarrow> mk_reset_preview" where
  "mk_reset_preview_of d =
     \<lparr>kp_files = length (mk_file_ids d), kp_places = length (mk_places (core d)), kp_tags = length (tags d),
      kp_favorites = count_where st_favorite (file_states (core d)),
      kp_memos = count_where (\<lambda>s. trim_spaces (or_else (st_memo s) []) \<noteq> []) (file_states (core d)),
      kp_relations = count_where (mk_relation d) (file_tags d), kp_suppressions = length (suppressions d),
      kp_pending = count_where (\<lambda>f. cf_id f \<in> set (mk_file_ids d) \<and> \<not> cf_deleted f \<and>
          Option.bind (metadata_of (core d) (cf_id f)) md_place_id = None) (files (base (core d))),
      kp_raw_vision = length (remdups (map rl_file (filter (\<lambda>r. rl_file r \<in> set (mk_file_ids d) \<and> rl_source r = AiSource \<and>
            \<not> rl_deleted r) (file_tags d)) @
          map vj_file (filter (\<lambda>j. vj_file j \<in> set (mk_file_ids d) \<and> vj_status j = COMPLETED \<and> \<not> vj_deleted j)
            (vision_jobs (base (core d)))))),
      kp_shared = length (remdups (map fs_file (filter (\<lambda>l. fs_file l \<in> set (mk_file_ids d) \<and> fs_service l \<noteq> memorykeeper)
          (links (base (core d)))))),
      kp_uploads = count_where (\<lambda>j. uj_service j = memorykeeper) (upload_jobs (base (core d))),
      kp_active_uploads = length (active_mk_uploads d), kp_processing_vision = length (processing_mk_vision d)\<rparr>"

definition semantic_fields :: "string list" where
  "semantic_fields = [''memorykeeper_favorite'', ''memorykeeper_memo'', ''memorykeeper_place_id'', ''place_match_source'',
     ''place_match_distance_m'', ''place_match_revision'']"

definition retire_vision :: "int list \<Rightarrow> vision_job list \<Rightarrow> vision_job list" where
  "retire_vision only = update_where (\<lambda>j. vj_file j \<in> set only \<and> \<not> vj_deleted j \<and>
      (vj_status j = WAITING \<or> vj_status j = FAILED \<or> vj_status j = SKIPPED)) (\<lambda>j. j\<lparr>vj_deleted := True\<rparr>)"

definition unmatched :: "file_metadata \<Rightarrow> file_metadata" where
  "unmatched m = m\<lparr>md_place_id := None, md_match_source := None, md_match_distance := None, md_match_revision := 0\<rparr>"

definition has_match :: "file_metadata \<Rightarrow> bool" where
  "has_match m \<longleftrightarrow> md_place_id m \<noteq> None \<or> md_match_source m \<noteq> None \<or> md_match_distance m \<noteq> None \<or> md_match_revision m \<noteq> 0"

definition reset_tables :: "tag_state \<Rightarrow> tag_state" where
  "reset_tables d =
     (let kept = delete_where (mk_relation d) (file_tags d); b = base (core d)
      in \<lparr>core = (core d)\<lparr>
            base := b\<lparr>vision_jobs := retire_vision (mk_only_ids d) (vision_jobs b), tag_files := map rl_file kept,
              upload_jobs := delete_where (\<lambda>j. uj_service j = memorykeeper) (upload_jobs b),
              links := delete_where (\<lambda>l. fs_service l = memorykeeper) (links b)\<rparr>,
            metadata_rows := update_where has_match unmatched (metadata_rows (core d)),
            histories := delete_where (\<lambda>h. mh_field h \<in> set semantic_fields) (histories (core d)),
            file_states := [], mk_places := []\<rparr>,
          tags = [], file_tags = kept, overrides = [], stored_overrides = [], suppressions = []\<rparr>)"

record mk_reset_response =
  kr_files :: nat
  kr_places :: nat
  kr_tags :: nat
  kr_states :: nat
  kr_raw_vision :: nat
  kr_cursor :: int

text \<open>The blocked reset tells how many uploads and analyses run.\<close>

definition mk_reset_execute :: "time \<Rightarrow> tag_state \<Rightarrow> (nat \<times> nat) + tag_state \<times> mk_reset_response" where
  "mk_reset_execute now d =
     raise_if (active_mk_uploads d \<noteq> [] \<or> processing_mk_vision d \<noteq> []) (length (active_mk_uploads d), length (processing_mk_vision d))
       (let snapshot = mk_reset_preview_of d;
            d' = tag_event now ''MemoryKeeperReset'' ''MemoryKeeper'' UPDATE None False (reset_tables d)
        in Inr (d', \<lparr>kr_files = kp_files snapshot, kr_places = length (mk_places (core d)), kr_tags = kp_tags snapshot,
             kr_states = length (file_states (core d)), kr_raw_vision = kp_raw_vision snapshot,
             kr_cursor = change_seq (base (core d'))\<rparr>))"

end
