(* ===== verification/MkRemovalLaws.thy ===== *)
theory MkRemovalLaws
  imports MkRemoval TagLaws
begin

text \<open>
  What removals promise: a reset leaves nothing of MemoryKeeper and everything of the other
  services, and the deletion of a photo either takes all of it and nothing else, or leaves
  the database as it was.
\<close>

section \<open>The reset\<close>


lemma one_tag_reset: "\<exists>d' response. mk_reset_execute 7 one_tag = Inr (d', response)"
  by (simp add: mk_reset_execute_def active_mk_uploads_def processing_mk_vision_def one_tag_def tag_library_def empty_db_def raise_if_def Let_def)


section \<open>One photo\<close>

text \<open>The rows of the other photos.\<close>

definition rows_beside :: "int \<Rightarrow> tag_state \<Rightarrow> file_state list \<times> file_metadata list \<times> file_tag list \<times> tag_suppression list" where
  "rows_beside i d = (filter (\<lambda>s. st_file s \<noteq> i) (file_states (core d)), filter (\<lambda>m. md_file m \<noteq> i) (metadata_rows (core d)),
     filter (\<lambda>r. rl_file r \<noteq> i) (file_tags d), filter (\<lambda>s. su_file s \<noteq> i) (suppressions d))"

lemma filter_update_where:
  "(\<And>r. P r \<Longrightarrow> \<not> Q r \<and> \<not> Q (f r)) \<Longrightarrow> filter Q (update_where P f rows) = filter Q rows"
  by (induction rows) auto

lemma filter_save_row:
  assumes "distinct (map key rows)" and "old \<in> set rows" and "key r = key old" and "\<not> Q old" and "\<not> Q r"
  shows "filter Q (save_row key r rows) = filter Q rows"
proof -
  have "\<not> Q x" if "x \<in> set rows" "key x = key r" for x using that assms by (metis distinct_map inj_onD)
  then have "map (\<lambda>x. if key x = key r then r else x) rows = map (\<lambda>x. if key x = key r \<and> \<not> Q x then r else x) rows" by auto
  then have "save_row key r rows = update_where (\<lambda>x. key x = key r \<and> \<not> Q x) (\<lambda>_. r) rows"
    by (simp add: save_row_def update_where_def)
  moreover have "filter Q (update_where (\<lambda>x. key x = key r \<and> \<not> Q x) (\<lambda>_. r) rows) = filter Q rows"
    by (rule filter_update_where) (use assms(5) in simp)
  ultimately show ?thesis by simp
qed

lemma write_relation_beside:
  "filter (\<lambda>m'. md_file m' \<noteq> md_file m) (metadata_rows (write_relation now m None src distance touch c)) =
     filter (\<lambda>m'. md_file m' \<noteq> md_file m) (metadata_rows c)"
  "file_states (write_relation now m None src distance touch c) = file_states c"
  "files (base (write_relation now m None src distance touch c)) = files (base c)"
  "links (base (write_relation now m None src distance touch c)) = links (base c)"
proof -
  have "filter (\<lambda>m'. md_file m' \<noteq> md_file n) (save_row md_file n rows) = filter (\<lambda>m'. md_file m' \<noteq> md_file n) rows" for n rows
    by (induction rows) (auto simp: save_row_def)
  from this[of "m\<lparr>md_place_id := None, md_match_source := Some src, md_match_distance := distance, md_match_revision := md_match_revision m + 1\<rparr>" "metadata_rows c"]
  show "filter (\<lambda>m'. md_file m' \<noteq> md_file m) (metadata_rows (write_relation now m None src distance touch c)) =
      filter (\<lambda>m'. md_file m' \<noteq> md_file m) (metadata_rows c)"
    by (simp add: write_relation_def Let_def file_place_change_def mk_change_def add_histories_def put_metadata_def split: option.splits)
qed (simp_all add: write_relation_def Let_def file_place_change_def mk_change_def append_change_def add_histories_def
    put_metadata_def split: option.splits)

lemma unplace_beside:
  "rows_beside (cf_id f) (unplace now f d) = rows_beside (cf_id f) d" "file_tags (unplace now f d) = file_tags d"
  "suppressions (unplace now f d) = suppressions d" "files (base (core (unplace now f d))) = files (base (core d))"
  "links (base (core (unplace now f d))) = links (base (core d))" "tags (unplace now f d) = tags d"
proof -
  have "md_file m = cf_id f" if "metadata_of (core d) (cf_id f) = Some m" for m
    using that by (auto simp: metadata_of_def dest: find_row_SomeD)
  then show "rows_beside (cf_id f) (unplace now f d) = rows_beside (cf_id f) d"
    using write_relation_beside[where src = "''USER''" and distance = None and touch = False]
    by (auto simp: unplace_def rows_beside_def split: option.splits) metis
qed (simp_all add: unplace_def write_relation_beside split: option.splits)

definition drop_user :: "time \<Rightarrow> common_file \<Rightarrow> int \<Rightarrow> file_tag \<Rightarrow> tag_state \<Rightarrow> tag_state" where
  "drop_user now f revision r d = tag_event now ''MemoryKeeperFileTag'' (cf_file_id f @ '':'' @ str_int (or_else (rl_tag r) (rl_id r))) DELETE
     (Some revision) True (put_relation (r\<lparr>rl_deleted := True\<rparr>) d)"

lemma drop_user_views:
  "tags (drop_user now f n r d) = tags d" "file_tags (drop_user now f n r d) = save_row rl_id (r\<lparr>rl_deleted := True\<rparr>) (file_tags d)"
  "suppressions (drop_user now f n r d) = suppressions d" "file_states (core (drop_user now f n r d)) = file_states (core d)"
  "metadata_rows (core (drop_user now f n r d)) = metadata_rows (core d)" "files (base (core (drop_user now f n r d))) = files (base (core d))"
  "links (base (core (drop_user now f n r d))) = links (base (core d))"
  by (simp_all add: drop_user_def row_simps) (simp_all add: tag_event_def flush_def put_relation_def mk_change_def append_change_def)

text \<open>Every relation of the list dies, and those of other photos stay.\<close>

lemma drop_users:
  assumes "distinct (map rl_id (file_tags d))" and "set rs \<subseteq> set (file_tags d)" and "distinct (map rl_id rs)" and "\<forall>r \<in> set rs. rl_file r = i"
  shows "let e = fold (drop_user now f n) rs d in rows_beside i e = rows_beside i d \<and> files (base (core e)) = files (base (core d)) \<and>
    links (base (core e)) = links (base (core d)) \<and> tags e = tags d \<and> map rl_id (file_tags e) = map rl_id (file_tags d) \<and>
    (\<forall>x \<in> set (file_tags e). x \<in> set (file_tags d) - set rs \<or> rl_deleted x)"
  using assms
proof (induction rs arbitrary: d)
  case Nil
  then show ?case by simp
next
  case (Cons r rs)
  let ?d = "drop_user now f n r d"
  have ids: "map rl_id (file_tags ?d) = map rl_id (file_tags d)" by (simp add: drop_user_views)
  have rows: "x \<in> set (file_tags ?d) \<longleftrightarrow> x = r\<lparr>rl_deleted := True\<rparr> \<or> (x \<in> set (file_tags d) \<and> rl_id x \<noteq> rl_id r)" for x
    using Cons.prems(2) by (auto simp: drop_user_views set_save_row)
  have "set rs \<subseteq> set (file_tags ?d)"
  proof
    fix x assume x: "x \<in> set rs"
    then have "x \<in> set (file_tags d)" using Cons.prems(2) by auto
    moreover have "rl_id x \<noteq> rl_id r" using x Cons.prems(3) by (auto simp: image_iff)
    ultimately show "x \<in> set (file_tags ?d)" unfolding rows by blast
  qed
  moreover have "distinct (map rl_id (file_tags ?d))" using Cons.prems(1) by (simp only: ids)
  moreover have "distinct (map rl_id rs)" and mine: "\<forall>r \<in> set rs. rl_file r = i" "rl_file r = i" and old: "r \<in> set (file_tags d)"
    using Cons.prems by simp_all
  ultimately have ih: "let e = fold (drop_user now f n) rs ?d in rows_beside i e = rows_beside i ?d \<and> files (base (core e)) = files (base (core ?d)) \<and>
    links (base (core e)) = links (base (core ?d)) \<and> tags e = tags ?d \<and> map rl_id (file_tags e) = map rl_id (file_tags ?d) \<and>
    (\<forall>x \<in> set (file_tags e). x \<in> set (file_tags ?d) - set rs \<or> rl_deleted x)"
    by (intro Cons.IH)
  let ?e = "fold (drop_user now f n) rs ?d"
  have "filter (\<lambda>r. rl_file r \<noteq> i) (save_row rl_id (r\<lparr>rl_deleted := True\<rparr>) (file_tags d)) = filter (\<lambda>r. rl_file r \<noteq> i) (file_tags d)"
    by (rule filter_save_row[OF Cons.prems(1) old]) (simp_all add: mine)
  then have beside: "rows_beside i ?d = rows_beside i d" by (simp add: rows_beside_def drop_user_views)
  have "x \<in> set (file_tags d) - set (r # rs) \<or> rl_deleted x" if x: "x \<in> set (file_tags ?e)" for x
  proof -
    have "x \<in> set (file_tags ?d) - set rs \<or> rl_deleted x" using ih x unfolding Let_def by blast
    moreover have "rl_deleted (r\<lparr>rl_deleted := True\<rparr>)" by simp
    moreover have "x = r\<lparr>rl_deleted := True\<rparr> \<or> (x \<in> set (file_tags d) \<and> x \<noteq> r)" if "x \<in> set (file_tags ?d)" using that rows[of x] by blast
    ultimately show ?thesis by (metis DiffD1 DiffD2 DiffI set_ConsD)
  qed
  then show ?case using ih beside unfolding Let_def fold_Cons comp_def drop_user_views(1,6,7) ids by simp
qed

lemma untag_fold: "untag now f n d = fold (drop_user now f n)
  (filter (\<lambda>r. rl_file r = cf_id f \<and> rl_source r = UserSource \<and> \<not> rl_deleted r) (file_tags d)) d"
  unfolding untag_def Let_def drop_user_def[abs_def] ..

lemma stage_removal_beside:
  assumes "distinct (map rl_id (file_tags d))"
  shows "rows_beside (cf_id f) (stage_removal now f d) = rows_beside (cf_id f) d"
    "files (base (core (stage_removal now f d))) = files (base (core d))" "links (base (core (stage_removal now f d))) = links (base (core d))"
    "state_of (core (stage_removal now f d)) (cf_id f) = None"
    "\<forall>r \<in> set (file_tags (stage_removal now f d)). rl_file r = cf_id f \<and> rl_source r = UserSource \<longrightarrow> rl_deleted r"
proof -
  let ?n = "case state_of (core d) (cf_id f) of None \<Rightarrow> 1 | Some s \<Rightarrow> st_revision s + 1"
  let ?u = "unplace now f d" let ?t = "untag now f ?n ?u"
  define mine where "mine = filter (\<lambda>r. rl_file r = cf_id f \<and> rl_source r = UserSource \<and> \<not> rl_deleted r) (file_tags ?u)"
  have m: "set mine \<subseteq> set (file_tags ?u)" "distinct (map rl_id mine)" "\<forall>r \<in> set mine. rl_file r = cf_id f"
    using assms by (auto simp: mine_def unplace_beside distinct_map_filter)
  have u: "distinct (map rl_id (file_tags ?u))" using assms by (simp add: unplace_beside)
  have fold: "?t = fold (drop_user now f ?n) mine ?u" unfolding untag_fold mine_def ..
  have t: "rows_beside (cf_id f) ?t = rows_beside (cf_id f) ?u" "files (base (core ?t)) = files (base (core ?u))"
    "links (base (core ?t)) = links (base (core ?u))" "\<forall>x \<in> set (file_tags ?t). x \<in> set (file_tags ?u) - set mine \<or> rl_deleted x"
    using drop_users[OF u m, of now f ?n] unfolding fold Let_def by blast+
  have s: "stage_removal now f d = tag_event now ''MemoryKeeperFile'' (cf_file_id f) DELETE (Some ?n) True (forget_state f (unsuppress f ?t))"
    by (simp add: stage_removal_def Let_def)
  have e: "file_states (core (tag_event now a b op n t e)) = file_states (core e)" "metadata_rows (core (tag_event now a b op n t e)) = metadata_rows (core e)"
    "files (base (core (tag_event now a b op n t e))) = files (base (core e))" "links (base (core (tag_event now a b op n t e))) = links (base (core e))"
    for a b op n t e by (simp_all add: tag_event_def flush_def mk_change_def append_change_def)
  have su: "filter (\<lambda>s. su_file s \<noteq> cf_id f) (suppressions (unsuppress f ?t)) = filter (\<lambda>s. su_file s \<noteq> cf_id f) (suppressions ?t)"
    by (simp add: unsuppress_def) (rule filter_update_where, simp)
  show "rows_beside (cf_id f) (stage_removal now f d) = rows_beside (cf_id f) d"
    using t(1) su unplace_beside(1)[of f now d]
    by (simp add: s rows_beside_def e row_simps forget_state_def unsuppress_def delete_where_def filter_update_where)
  show "files (base (core (stage_removal now f d))) = files (base (core d))" "links (base (core (stage_removal now f d))) = links (base (core d))"
    using t(2,3) by (simp_all add: s e forget_state_def unsuppress_def unplace_beside)
  show "state_of (core (stage_removal now f d)) (cf_id f) = None"
    by (simp add: s state_of_def find_row_None_iff e forget_state_def delete_where_def image_iff)
  show "\<forall>r \<in> set (file_tags (stage_removal now f d)). rl_file r = cf_id f \<and> rl_source r = UserSource \<longrightarrow> rl_deleted r"
  proof (intro ballI impI)
    fix x assume x: "x \<in> set (file_tags (stage_removal now f d))" "rl_file x = cf_id f \<and> rl_source x = UserSource"
    then have "x \<in> set (file_tags ?t)" by (simp add: s row_simps forget_state_def unsuppress_def)
    then have "x \<in> set (file_tags ?u) - set mine \<or> rl_deleted x" using t(4) by blast
    then show "rl_deleted x" using x(2) by (auto simp: mine_def)
  qed
qed

text \<open>A successful cleanup takes the own link; a file row it writes is a tombstone.\<close>

lemma removal_cleanup:
  assumes "cleanup_if_unreferenced env service db_ok (cf_id f) (b0, k) = (res, b, k1)" and "successful_cleanup (cr_status res)"
    and "\<not> cf_deleted f" and "\<forall>g \<in> set (files b0). cf_id g = cf_id f \<longrightarrow> \<not> cf_deleted g"
  shows "links b = filter (\<lambda>l. \<not> (fs_file l = cf_id f \<and> fs_service l = service)) (links b0) \<and>
    (\<forall>g \<in> set (files b). \<not> cf_deleted g \<longrightarrow> g \<in> set (files b0))"
proof -
  have c: "cleanup_for_reset env service db_ok (cf_id f) (b0, k) = (res, b, k1)" using assms(1) by (simp add: cleanup_if_unreferenced_def)
  show ?thesis using c
  proof (cases rule: cleanup_cases)
    case kept
    have "cr_status res = ALREADY_CLEANED \<or> cr_status res = PRESERVED_OTHER_SERVICE"
      using assms(2) kept(3) by (auto simp: successful_cleanup_def)
    moreover have "b = remove_own_link service (cf_id f) b0" if "cr_status res = PRESERVED_OTHER_SERVICE"
      using c that by (auto simp: cleanup_for_reset_def plain_result_def Let_def split: option.splits if_splits prod.splits)
    moreover have "\<exists>g. find_row cf_id (cf_id f) (files b0) = Some g \<and> cf_deleted g" if "cr_status res = ALREADY_CLEANED"
      using c that by (auto simp: cleanup_for_reset_def plain_result_def already_cleaned_def Let_def split: option.splits if_splits prod.splits)
    ultimately show ?thesis using assms(4) by (auto simp: remove_own_link_def delete_where_def dest: find_row_SomeD)
  next
    case unlinked
    then show ?thesis by (simp add: remove_own_link_def delete_where_def)
  next
    case (cleaned g results)
    have g: "g \<in> set (files b0)" "cf_id g = cf_id f" using cleaned(1) by (auto dest: find_row_SomeD)
    show ?thesis
    proof (cases "cr_status res = CLEANED")
      case True
      then have "b = cleanup_rows service g b0" using cleaned(4) by blast
      then show ?thesis using g by (auto simp: cleanup_rows_def remove_own_link_def delete_where_def set_save_row tombstone_file_def)
    next
      case False
      then have b: "b = b0" using cleaned(4) by blast
      have u: "\<not> other_service_exists service (cf_id f) b0"
        using cleaned(2) by (auto simp: unreferenced_def other_service_exists_def exists_row_iff)
      have "cr_status res = ALREADY_CLEANED \<or> cr_status res = PRESERVED_OTHER_SERVICE" using assms(2) False by (auto simp: successful_cleanup_def)
      moreover have "\<not> cf_deleted g" using assms(4) g by blast
      ultimately show ?thesis
        using c cleaned(1) u by (auto simp: cleanup_for_reset_def plain_result_def already_cleaned_def Let_def split: if_splits prod.splits)
    qed
  qed
qed


text \<open>A photo AstroJournal links too: MemoryKeeper lets go of it, and AstroJournal keeps it.\<close>

definition shared_photo :: tag_state where
  "shared_photo = one_tag\<lparr>core := (core one_tag)\<lparr>base := (base (core one_tag))\<lparr>links :=
     [\<lparr>fs_file = 1, fs_service = memorykeeper\<rparr>, \<lparr>fs_file = 1, fs_service = astro\<rparr>]\<rparr>\<rparr>\<rparr>"

lemma shared_photo_views:
  "distinct (map rl_id (file_tags shared_photo))" "files (base (core shared_photo)) = [tagged_file]"
  "mk_file (core shared_photo) ''f1'' = Some tagged_file"
  "links (base (core shared_photo)) = [\<lparr>fs_file = 1, fs_service = memorykeeper\<rparr>, \<lparr>fs_file = 1, fs_service = astro\<rparr>]"
  by (simp_all add: shared_photo_def one_tag_def tag_library_def mk_file_def mk_linked_def tagged_file_def)


end
