(* ===== verification/MetadataRepo.thy ===== *)
theory MetadataRepo
  imports MkTables PyDict
begin

text \<open>
  The writes to the metadata of a file: \<open>MetadataRepository\<close>
  (\<open>src/app/common/repositories/metadata_repository.py\<close>) with the history
  (\<open>history_repository.py\<close>) and the priority of sources (\<open>metadata_priority.py\<close>). The values of a
  request have the type of their column, as the readers and forms give them; ids of histories
  follow the order of the list. The commit of a call is its caller's.
\<close>

section \<open>Sources\<close>

definition source_priority :: "string \<Rightarrow> int" where
  "source_priority source =
     (if source = ''USER'' then 100 else if source = ''PLATESOLVE'' then 90 else if source = ''GPS'' then 80
      else if source = ''VISION'' then 70 else if source = ''EXIF'' then 60 else 50)"

section \<open>Columns by name\<close>

definition allowed_fields :: "string list" where
  "allowed_fields = [''camera_make'', ''camera_model'', ''lens'', ''datetime_original'', ''gps_lat'', ''gps_lon'', ''gps_alt'',
     ''iso'', ''f_number'', ''exposure_time'', ''focal_length'', ''orientation'', ''image_width'', ''image_height'',
     ''country'', ''province'', ''city'', ''district'', ''place_name'', ''reserved'', ''astro_target'', ''astro_catalog'',
     ''astro_ra'', ''astro_dec'', ''astro_rotation'', ''astro_fov'', ''astro_object_type'']"

fun as_text :: "field_value \<Rightarrow> string option" where
  "as_text (FText s) = Some s"
| "as_text _ = None"

fun as_real :: "field_value \<Rightarrow> real option" where
  "as_real (FReal r) = Some r"
| "as_real (FInt n) = Some (of_int n)"
| "as_real _ = None"

fun as_time :: "field_value \<Rightarrow> time option" where
  "as_time (FTime t) = Some t"
| "as_time _ = None"

definition opt_time :: "time option \<Rightarrow> field_value" where
  "opt_time x = (case x of None \<Rightarrow> FNone | Some t \<Rightarrow> FTime t)"

definition get_field :: "string \<Rightarrow> file_metadata \<Rightarrow> field_value" where
  "get_field name m =
     (if name = ''datetime_original'' then opt_time (md_datetime_original m)
      else if name = ''gps_lat'' then opt_real (md_gps_lat m) else if name = ''gps_lon'' then opt_real (md_gps_lon m)
      else if name = ''country'' then opt_text (md_country m) else if name = ''province'' then opt_text (md_province m)
      else if name = ''city'' then opt_text (md_city m) else if name = ''district'' then opt_text (md_district m)
      else if name = ''place_name'' then opt_text (md_place_name m) else md_other m name)"

definition set_field :: "string \<Rightarrow> field_value \<Rightarrow> file_metadata \<Rightarrow> file_metadata" where
  "set_field name v m =
     (if name = ''datetime_original'' then m\<lparr>md_datetime_original := as_time v\<rparr>
      else if name = ''gps_lat'' then m\<lparr>md_gps_lat := as_real v\<rparr> else if name = ''gps_lon'' then m\<lparr>md_gps_lon := as_real v\<rparr>
      else if name = ''country'' then m\<lparr>md_country := as_text v\<rparr> else if name = ''province'' then m\<lparr>md_province := as_text v\<rparr>
      else if name = ''city'' then m\<lparr>md_city := as_text v\<rparr> else if name = ''district'' then m\<lparr>md_district := as_text v\<rparr>
      else if name = ''place_name'' then m\<lparr>md_place_name := as_text v\<rparr> else m\<lparr>md_other := (md_other m)(name := v)\<rparr>)"

text \<open>The type of a column.\<close>

definition field_ok :: "string \<Rightarrow> field_value \<Rightarrow> bool" where
  "field_ok name v \<longleftrightarrow>
     (if v = FNone then True
      else if name = ''datetime_original'' then as_time v \<noteq> None
      else if name = ''gps_lat'' \<or> name = ''gps_lon'' then (case v of FReal _ \<Rightarrow> True | _ \<Rightarrow> False)
      else if name \<in> {''country'', ''province'', ''city'', ''district'', ''place_name''} then as_text v \<noteq> None
      else True)"

section \<open>Histories\<close>

definition latest_history :: "mk_history list \<Rightarrow> int \<Rightarrow> string \<Rightarrow> mk_history option" where
  "latest_history hs i name = List.find (\<lambda>h. mh_file h = i \<and> mh_field h = name) (rev hs)"

definition latest_priority :: "mk_history list \<Rightarrow> int \<Rightarrow> string \<Rightarrow> int" where
  "latest_priority hs i name = (case latest_history hs i name of None \<Rightarrow> 0 | Some h \<Rightarrow> mh_priority h)"

section \<open>Upserts\<close>

record upsert =
  up_values :: "(string \<times> field_value) list"
  up_source :: string
  up_modified_by :: string
  up_approved :: bool
  up_restore :: bool

definition candidates :: "upsert \<Rightarrow> (string \<times> field_value) list" where
  "candidates u = filter (\<lambda>(name, v). name \<in> set allowed_fields \<and> v \<noteq> FNone \<and> v \<noteq> FText []) (up_values u)"

text \<open>What a restored row gets back: the last decisions of the user, an explicit null included.\<close>

definition user_decision :: "mk_history list \<Rightarrow> int \<Rightarrow> string \<Rightarrow> mk_history option" where
  "user_decision hs i name =
     (case latest_history hs i name of None \<Rightarrow> None | Some h \<Rightarrow> if mh_source h = ''USER'' then Some h else None)"

definition replay_user :: "mk_history list \<Rightarrow> file_metadata \<Rightarrow> file_metadata" where
  "replay_user hs m =
     (let m' = fold (\<lambda>name n. case user_decision hs (md_file m) name of None \<Rightarrow> n | Some h \<Rightarrow> set_field name (mh_new h) n)
                 allowed_fields m
      in if list_ex (\<lambda>name. user_decision hs (md_file m) name \<noteq> None) allowed_fields then m'\<lparr>md_locked := True\<rparr> else m')"

definition field_history :: "upsert \<Rightarrow> int \<Rightarrow> string \<Rightarrow> field_value \<Rightarrow> field_value \<Rightarrow> mk_history" where
  "field_history u i name old new = \<lparr>mh_file = i, mh_field = name, mh_old = old, mh_new = new, mh_source = up_source u,
     mh_priority = source_priority (up_source u), mh_modified_by = up_modified_by u, mh_approved = up_approved u\<rparr>"

text \<open>Whether a candidate is written, given the histories before the call.\<close>

definition accepts :: "mk_history list \<Rightarrow> upsert \<Rightarrow> file_metadata \<Rightarrow> string \<Rightarrow> field_value \<Rightarrow> bool" where
  "accepts hs u m name v =
     (if up_restore u \<and> user_decision hs (md_file m) name \<noteq> None then False
      else if \<not> (up_restore u \<and> get_field name m = FNone) \<and>
         (source_priority (up_source u) < latest_priority hs (md_file m) name \<or>
          source_priority (up_source u) = latest_priority hs (md_file m) name \<and> up_source u \<noteq> ''USER'') then False
      else get_field name m \<noteq> v)"

fun write_fields :: "mk_history list \<Rightarrow> upsert \<Rightarrow> (string \<times> field_value) list \<Rightarrow> file_metadata \<Rightarrow> file_metadata \<times> mk_history list" where
  "write_fields hs u [] m = (m, [])"
| "write_fields hs u ((name, v) # rest) m =
     (if accepts hs u m name v
      then let m1 = set_field name v m;
               m2 = (if up_source u = ''USER'' then m1\<lparr>md_locked := True\<rparr> else m1);
               (m3, added) = write_fields hs u rest m2
           in (m3, field_history u (md_file m) name (get_field name m) v # added)
      else write_fields hs u rest m)"

definition upsert_row :: "mk_history list \<Rightarrow> upsert \<Rightarrow> file_metadata \<Rightarrow> file_metadata \<times> mk_history list" where
  "upsert_row hs u m =
     (let m1 = (if up_restore u then replay_user hs m else m)
      in if candidates u = [] then (m1, [])
         else if \<not> up_restore u \<and> md_locked m1 \<and> up_source u \<noteq> ''USER'' then (m1, [])
         else write_fields hs u (candidates u) m1)"

definition save_metadata :: "file_metadata \<Rightarrow> mk_state \<Rightarrow> mk_state" where
  "save_metadata m d = d\<lparr>metadata_rows := save_row md_file m (metadata_rows d)\<rparr>"

definition upsert_fields :: "int \<Rightarrow> upsert \<Rightarrow> mk_state \<Rightarrow> mk_state" where
  "upsert_fields i u d =
     (let d1 = ensure_metadata i d
      in case metadata_of d1 i of
           None \<Rightarrow> d1
         | Some m \<Rightarrow> let (m', added) = upsert_row (histories d1) u m in add_histories added (save_metadata m' d1))"

text \<open>The immutable capture time of the file itself.\<close>

definition capture_history :: "string \<Rightarrow> int \<Rightarrow> wall_time \<Rightarrow> mk_history" where
  "capture_history modified_by i t = \<lparr>mh_file = i, mh_field = ''original_capture_datetime'', mh_old = FNone, mh_new = FWall t,
     mh_source = ''EXIF'', mh_priority = source_priority ''EXIF'', mh_modified_by = modified_by, mh_approved = False\<rparr>"

definition set_original_capture :: "string \<Rightarrow> int \<Rightarrow> wall_time option \<Rightarrow> mk_state \<Rightarrow> mk_state" where
  "set_original_capture modified_by i value d =
     (case (value, metadata_of d i) of
        (Some t, Some m) \<Rightarrow>
          if md_original_capture m \<noteq> None then d
          else add_histories [capture_history modified_by i t] (save_metadata (m\<lparr>md_original_capture := Some t\<rparr>) d)
      | _ \<Rightarrow> d)"

definition delete_metadata :: "int \<Rightarrow> mk_state \<Rightarrow> bool \<times> mk_state" where
  "delete_metadata i d =
     (if metadata_of d i = None then (False, d)
      else (True, d\<lparr>metadata_rows := delete_where (\<lambda>m. md_file m = i) (metadata_rows d),
                    base := (base d)\<lparr>metadata_files := delete_where (\<lambda>j. j = i) (metadata_files (base d))\<rparr>\<rparr>))"

end
