(* ===== verification/MetadataLaws.thy ===== *)
theory MetadataLaws
  imports MetadataRepo
begin

text \<open>
  What the metadata of a file promises: an automatic source never replaces what the user
  decided, whatever is read, deleted and uploaded again in between.
\<close>

section \<open>Columns\<close>

lemma column_values:
  "as_time v \<noteq> None \<Longrightarrow> opt_time (as_time v) = v" "as_text v \<noteq> None \<Longrightarrow> opt_text (as_text v) = v"
  "(case v of FReal _ \<Rightarrow> True | _ \<Rightarrow> False) \<Longrightarrow> opt_real (as_real v) = v"
  "opt_time (as_time FNone) = FNone" "opt_text (as_text FNone) = FNone" "opt_real (as_real FNone) = FNone"
  by (cases v; simp add: opt_time_def opt_text_def opt_real_def)+

lemma get_set_same:
  assumes "field_ok name v"
  shows "get_field name (set_field name v m) = v"
proof -
  have time: "name = ''datetime_original'' \<Longrightarrow> ?thesis"
    using assms column_values(1,4) by (cases "v = FNone") (simp_all add: field_ok_def get_field_def set_field_def)
  have lat: "name = ''gps_lat'' \<Longrightarrow> ?thesis" and lon: "name = ''gps_lon'' \<Longrightarrow> ?thesis"
    using assms column_values(3,6) by (cases "v = FNone"; simp add: field_ok_def get_field_def set_field_def)+
  have texts: "name = ''country'' \<Longrightarrow> ?thesis" "name = ''province'' \<Longrightarrow> ?thesis" "name = ''city'' \<Longrightarrow> ?thesis"
      "name = ''district'' \<Longrightarrow> ?thesis" "name = ''place_name'' \<Longrightarrow> ?thesis"
    using assms column_values(2,5) by (cases "v = FNone"; simp add: field_ok_def get_field_def set_field_def)+
  show ?thesis
  proof (cases "name \<in> {''datetime_original'', ''gps_lat'', ''gps_lon'', ''country'', ''province'', ''city'', ''district'', ''place_name''}")
    case True
    then show ?thesis unfolding insert_iff empty_iff using time lat lon texts by argo
  next
    case False
    then show ?thesis by (simp add: get_field_def set_field_def)
  qed
qed

lemma get_set_other: "n \<noteq> name \<Longrightarrow> get_field n (set_field name v m) = get_field n m"
  by (auto simp: get_field_def set_field_def)

lemma set_field_file [simp]: "md_file (set_field name v m) = md_file m"
  by (simp add: set_field_def)

lemma get_field_locked [simp]: "get_field name (m\<lparr>md_locked := b\<rparr>) = get_field name m"
  by (simp add: get_field_def)

section \<open>Histories\<close>

lemma latest_history_append:
  "latest_history (hs @ hs') i name =
     (case latest_history hs' i name of None \<Rightarrow> latest_history hs i name | Some h \<Rightarrow> Some h)"
  by (simp add: latest_history_def find_append cong: option.case_cong)

lemma latest_history_mem: "latest_history hs i name = Some h \<Longrightarrow> h \<in> set hs \<and> mh_file h = i \<and> mh_field h = name"
  unfolding latest_history_def by (drule find_SomeD) simp

lemma user_decision_mem: "user_decision hs i name = Some h \<Longrightarrow> h \<in> set hs \<and> mh_file h = i \<and> mh_field h = name \<and> mh_source h = ''USER''"
  by (auto simp: user_decision_def dest: latest_history_mem split: option.splits if_splits)

section \<open>One call\<close>

lemma accepts_cong:
  "get_field name m = get_field name m' \<Longrightarrow> md_file m = md_file m' \<Longrightarrow> accepts hs u m name v = accepts hs u m' name v"
  unfolding accepts_def by (simp only:)

text \<open>What a call does to one field: nothing, or the candidate's value with one history row.\<close>

lemma write_fields_field:
  assumes "distinct (map fst cs)" and "\<forall>(n, v) \<in> set cs. field_ok n v" and "write_fields hs u cs m = (m', added)"
  shows "md_file m' = md_file m \<and> (\<forall>h \<in> set added. mh_file h = md_file m \<and> mh_source h = up_source u) \<and>
    ((\<exists>v. (name, v) \<in> set cs \<and> accepts hs u m name v \<and> get_field name m' = v \<and>
        filter (\<lambda>h. mh_field h = name) added = [field_history u (md_file m) name (get_field name m) v]) \<or>
     (get_field name m' = get_field name m \<and> filter (\<lambda>h. mh_field h = name) added = [] \<and>
        (\<forall>v. (name, v) \<in> set cs \<longrightarrow> \<not> accepts hs u m name v)))"
  using assms
proof (induction hs u cs m arbitrary: m' added rule: write_fields.induct)
  case (1 hs u m)
  then show ?case by simp
next
  case (2 hs u n v rest m)
  show ?case
  proof (cases "accepts hs u m n v")
    case False
    then have "write_fields hs u rest m = (m', added)" using 2(5) by simp
    from 2(2)[OF False _ _ this] 2(3,4) False show ?thesis by auto
  next
    case True
    define m1 where "m1 = set_field n v m"
    define m2 where "m2 = (if up_source u = ''USER'' then m1\<lparr>md_locked := True\<rparr> else m1)"
    obtain added' where w: "write_fields hs u rest m2 = (m', added')"
        and added: "added = field_history u (md_file m) n (get_field n m) v # added'"
      using 2(5) True by (cases "write_fields hs u rest m2") (auto simp: m1_def m2_def Let_def cong: if_cong)
    have same_file: "md_file m2 = md_file m" by (simp add: m2_def m1_def)
    have keep: "get_field k m2 = (if k = n then v else get_field k m)" for k
      using get_set_same get_set_other 2(4) by (auto simp: m2_def m1_def)
    have n: "n \<notin> fst ` set rest" using 2(3) by simp
    have ih: "md_file m' = md_file m2 \<and> (\<forall>h \<in> set added'. mh_file h = md_file m2 \<and> mh_source h = up_source u) \<and>
      ((\<exists>v. (name, v) \<in> set rest \<and> accepts hs u m2 name v \<and> get_field name m' = v \<and>
          filter (\<lambda>h. mh_field h = name) added' = [field_history u (md_file m2) name (get_field name m2) v]) \<or>
       (get_field name m' = get_field name m2 \<and> filter (\<lambda>h. mh_field h = name) added' = [] \<and>
          (\<forall>v. (name, v) \<in> set rest \<longrightarrow> \<not> accepts hs u m2 name v)))"
      by (rule 2(1)[OF True m1_def m2_def _ _ w]) (use 2(3,4) in auto)
    show ?thesis
    proof (cases "name = n")
      case same: True
      then have "(name, w) \<notin> set rest" for w using n by force
      then have "get_field name m' = v \<and> filter (\<lambda>h. mh_field h = name) added' = []" using ih keep same by auto
      then show ?thesis using ih True same same_file by (auto simp: added field_history_def)
    next
      case other: False
      then have "get_field name m2 = get_field name m" using keep by simp
      then show ?thesis using ih other same_file accepts_cong[of name m2 m]
        by (auto simp: added field_history_def)
    qed
  qed
qed

lemma replay_user_field:
  assumes "\<forall>h \<in> set hs. mh_file h = md_file m \<and> mh_field h \<in> set allowed_fields \<and> mh_source h = ''USER'' \<longrightarrow> field_ok (mh_field h) (mh_new h)"
    and "name \<in> set allowed_fields"
  shows "md_file (replay_user hs m) = md_file m \<and> get_field name (replay_user hs m) =
    (case user_decision hs (md_file m) name of None \<Rightarrow> get_field name m | Some h \<Rightarrow> mh_new h)"
proof -
  let ?f = "\<lambda>name n. case user_decision hs (md_file m) name of None \<Rightarrow> n | Some h \<Rightarrow> set_field name (mh_new h) n"
  have ok: "field_ok k (mh_new h)" if "user_decision hs (md_file m) k = Some h" "k \<in> set allowed_fields" for k h
    using user_decision_mem[OF that(1)] assms(1) that(2) by auto
  have "md_file (fold ?f ks n) = md_file n \<and> get_field name (fold ?f ks n) =
      (if name \<in> set ks then (case user_decision hs (md_file m) name of None \<Rightarrow> get_field name n | Some h \<Rightarrow> mh_new h) else get_field name n)"
    if "set ks \<subseteq> set allowed_fields" for ks n
    using that
  proof (induction ks arbitrary: n)
    case (Cons k ks)
    have "user_decision hs (md_file m) name = None \<Longrightarrow> user_decision hs (md_file m) k = Some h \<Longrightarrow> name \<noteq> k" for h by auto
    then have "get_field name (?f k n) = (if name = k then (case user_decision hs (md_file m) name of None \<Rightarrow> get_field name n | Some h \<Rightarrow> mh_new h)
        else get_field name n)" "md_file (?f k n) = md_file n"
      using ok Cons.prems get_set_same get_set_other by (auto split: option.splits)
    then show ?case using Cons by (auto split: option.splits)
  qed simp
  from this[of allowed_fields m] have "md_file (fold ?f allowed_fields m) = md_file m" "get_field name (fold ?f allowed_fields m) =
      (case user_decision hs (md_file m) name of None \<Rightarrow> get_field name m | Some h \<Rightarrow> mh_new h)" using assms(2) by auto
  then show ?thesis unfolding replay_user_def Let_def by simp
qed

lemma upsert_row_field:
  assumes u: "distinct (map fst (up_values u))" "\<forall>(n, v) \<in> set (up_values u). field_ok n v"
    and hs: "\<forall>h \<in> set hs. mh_file h = md_file m \<and> mh_field h \<in> set allowed_fields \<and> mh_source h = ''USER'' \<longrightarrow> field_ok (mh_field h) (mh_new h)"
    and name: "name \<in> set allowed_fields" and r: "upsert_row hs u m = (m', added)"
  shows "md_file m' = md_file m \<and> (\<forall>h \<in> set added. mh_file h = md_file m \<and> mh_source h = up_source u) \<and>
    (let old = (if up_restore u then (case user_decision hs (md_file m) name of None \<Rightarrow> get_field name m | Some h \<Rightarrow> mh_new h)
                else get_field name m) in
     (\<exists>v. (name, v) \<in> set (up_values u) \<and> accepts hs u (if up_restore u then replay_user hs m else m) name v \<and> get_field name m' = v \<and>
        filter (\<lambda>h. mh_field h = name) added = [field_history u (md_file m) name old v]) \<or>
     (get_field name m' = old \<and> filter (\<lambda>h. mh_field h = name) added = []))"
proof -
  define m1 where "m1 = (if up_restore u then replay_user hs m else m)"
  have m1: "md_file m1 = md_file m" "get_field name m1 = (if up_restore u then
      (case user_decision hs (md_file m) name of None \<Rightarrow> get_field name m | Some h \<Rightarrow> mh_new h) else get_field name m)"
    using replay_user_field[OF hs name] by (simp_all add: m1_def)
  have row: "upsert_row hs u m = (if candidates u = [] then (m1, []) else if \<not> up_restore u \<and> md_locked m1 \<and> up_source u \<noteq> ''USER''
      then (m1, []) else write_fields hs u (candidates u) m1)" by (simp add: upsert_row_def Let_def m1_def)
  have c: "distinct (map fst (candidates u))" "\<forall>(n, v) \<in> set (candidates u). field_ok n v" "set (candidates u) \<subseteq> set (up_values u)"
    using u by (auto simp: candidates_def distinct_map_filter)
  show ?thesis
  proof (cases "m' = m1 \<and> added = []")
    case True
    then show ?thesis using m1 by (simp add: Let_def)
  next
    case False
    then have w: "write_fields hs u (candidates u) m1 = (m', added)" using r row by (auto split: if_splits)
    from write_fields_field[OF c(1,2) this, of name] show ?thesis
      unfolding Let_def m1(1) m1(2)[symmetric] m1_def[symmetric] using c(3) by blast
  qed
qed

section \<open>Any sequence of calls\<close>

datatype meta_event = Upsert upsert | CaptureTime string "wall_time option" | RemoveRow

definition meta_step :: "int \<Rightarrow> meta_event \<Rightarrow> mk_state \<Rightarrow> mk_state" where
  "meta_step i e d = (case e of Upsert u \<Rightarrow> upsert_fields i u d | CaptureTime who t \<Rightarrow> set_original_capture who i t d
     | RemoveRow \<Rightarrow> snd (delete_metadata i d))"

definition meta_run :: "int \<Rightarrow> meta_event list \<Rightarrow> mk_state \<Rightarrow> mk_state" where
  "meta_run i es d = fold (meta_step i) es d"

definition event_ok :: "meta_event \<Rightarrow> bool" where
  "event_ok e = (case e of Upsert u \<Rightarrow> distinct (map fst (up_values u)) \<and> (\<forall>(n, v) \<in> set (up_values u). field_ok n v) | _ \<Rightarrow> True)"

definition user_histories_ok :: "int \<Rightarrow> mk_history list \<Rightarrow> bool" where
  "user_histories_ok i hs \<longleftrightarrow> (\<forall>h \<in> set hs. mh_file h = i \<and> mh_field h \<in> set allowed_fields \<and> mh_source h = ''USER'' \<longrightarrow>
     mh_priority h = 100 \<and> field_ok (mh_field h) (mh_new h))"

text \<open>A row shows the decision of the user, or lost it with the row (\<open>lost\<close>).\<close>

definition decisions_kept :: "bool \<Rightarrow> int \<Rightarrow> mk_state \<Rightarrow> bool" where
  "decisions_kept lost i d \<longleftrightarrow> user_histories_ok i (histories d) \<and>
     (\<forall>m name h. metadata_of d i = Some m \<longrightarrow> name \<in> set allowed_fields \<longrightarrow> user_decision (histories d) i name = Some h \<longrightarrow>
        get_field name m = mh_new h \<or> lost \<and> get_field name m = FNone)"

lemma user_priority: "source_priority s \<le> 100 \<and> (source_priority s = 100 \<longleftrightarrow> s = ''USER'')"
  by (simp add: source_priority_def)

text \<open>An automatic source is refused where the user decided.\<close>

lemma accepts_user:
  assumes "user_histories_ok (md_file m) hs" and "name \<in> set allowed_fields" and "user_decision hs (md_file m) name = Some h"
    and "accepts hs u m name v"
  shows "up_source u = ''USER'' \<and> \<not> up_restore u"
proof -
  have "mh_priority h = 100" using user_decision_mem[OF assms(3)] assms(1,2) by (auto simp: user_histories_ok_def)
  then have p: "latest_priority hs (md_file m) name = 100"
    using assms(3) by (auto simp: latest_priority_def user_decision_def split: option.splits if_splits)
  have no: "\<not> up_restore u" using assms(3,4) by (auto simp: accepts_def)
  then have "up_source u = ''USER''" using assms(4) p user_priority[of "up_source u"] unfolding accepts_def
    by (metis linorder_less_linear not_le)
  then show ?thesis using no by simp
qed

lemma latest_history_other:
  "\<forall>h \<in> set added. mh_file h = i \<Longrightarrow> filter (\<lambda>h. mh_field h = name) added = [] \<Longrightarrow>
     user_decision (hs @ added) i name = user_decision hs i name"
proof -
  assume "filter (\<lambda>h. mh_field h = name) added = []"
  then have "latest_history added i name = None"
    by (cases "latest_history added i name") (auto dest!: latest_history_mem simp: filter_empty_conv)
  then show ?thesis by (simp add: user_decision_def latest_history_append)
qed

lemma latest_history_single:
  assumes "filter (\<lambda>h. mh_field h = name) added = [x]" and "mh_file x = i"
  shows "latest_history (hs @ added) i name = Some x"
proof -
  have x: "x \<in> set added" "mh_field x = name" using assms(1) by (metis (mono_tags, lifting) filter_eq_Cons_iff in_set_conv_decomp)+
  obtain h where h: "latest_history added i name = Some h"
  proof (cases "latest_history added i name")
    case None
    then have "\<not> (mh_file x = i \<and> mh_field x = name)" using x(1) unfolding latest_history_def by (auto simp: find_None_iff)
    then show ?thesis using x assms(2) by blast
  qed
  then have "h \<in> set (filter (\<lambda>h. mh_field h = name) added)" using latest_history_mem by fastforce
  then show ?thesis using h assms(1) by (simp add: latest_history_append)
qed

lemma upsert_decisions:
  assumes ok: "distinct (map fst (up_values u))" "\<forall>(n, v) \<in> set (up_values u). field_ok n v"
    and hs: "user_histories_ok i hs" and i: "md_file m = i" and name: "name \<in> set allowed_fields"
    and r: "upsert_row hs u m = (m', added)"
    and old: "\<And>h. user_decision hs i name = Some h \<Longrightarrow> get_field name m = mh_new h \<or> lost \<and> get_field name m = FNone"
    and new: "user_decision (hs @ added) i name = Some h"
  shows "get_field name m' = mh_new h \<or> (lost \<and> \<not> up_restore u) \<and> get_field name m' = FNone"
proof -
  have typed: "\<forall>h \<in> set hs. mh_file h = md_file m \<and> mh_field h \<in> set allowed_fields \<and> mh_source h = ''USER'' \<longrightarrow> field_ok (mh_field h) (mh_new h)"
    using hs i by (auto simp: user_histories_ok_def)
  define old_value where "old_value = (if up_restore u then (case user_decision hs (md_file m) name of None \<Rightarrow> get_field name m
      | Some h \<Rightarrow> mh_new h) else get_field name m)"
  define m1 where "m1 = (if up_restore u then replay_user hs m else m)"
  note row = upsert_row_field[OF ok typed name r, unfolded Let_def, folded old_value_def m1_def]
  from row consider
      (written) v where "accepts hs u m1 name v" "get_field name m' = v"
        "filter (\<lambda>h. mh_field h = name) added = [field_history u (md_file m) name old_value v]"
    | (kept) "get_field name m' = old_value" "filter (\<lambda>h. mh_field h = name) added = []" by blast
  then show ?thesis
  proof cases
    case written
    have "latest_history (hs @ added) i name = Some (field_history u (md_file m) name old_value v)"
      by (rule latest_history_single[OF written(3)]) (simp add: field_history_def i)
    then have "mh_new h = v" using new by (auto simp: user_decision_def field_history_def split: if_splits)
    then show ?thesis using written(2) by simp
  next
    case kept
    have "user_decision hs i name = Some h"
      using new latest_history_other[OF _ kept(2), of i hs] row i by simp
    then show ?thesis using old[of h] kept(1) i by (auto simp: old_value_def)
  qed
qed

text \<open>What the user decided stays decided, and only the user changes it.\<close>

lemma upsert_keeps_decision:
  assumes ok: "distinct (map fst (up_values u))" "\<forall>(n, v) \<in> set (up_values u). field_ok n v"
    and hs: "user_histories_ok i hs" and i: "md_file m = i" and name: "name \<in> set allowed_fields"
    and r: "upsert_row hs u m = (m', added)" and h: "user_decision hs i name = Some h"
  shows "user_decision (hs @ added) i name \<noteq> None \<and> (up_source u \<noteq> ''USER'' \<longrightarrow> user_decision (hs @ added) i name = Some h)"
proof -
  have typed: "\<forall>h \<in> set hs. mh_file h = md_file m \<and> mh_field h \<in> set allowed_fields \<and> mh_source h = ''USER'' \<longrightarrow> field_ok (mh_field h) (mh_new h)"
    using hs i by (auto simp: user_histories_ok_def)
  define m1 where "m1 = (if up_restore u then replay_user hs m else m)"
  have m1: "md_file m1 = i" using replay_user_field[OF typed name] i by (simp add: m1_def)
  note row = upsert_row_field[OF ok typed name r, unfolded Let_def, folded m1_def]
  from row consider
      (written) v old where "accepts hs u m1 name v"
        "filter (\<lambda>h. mh_field h = name) added = [field_history u (md_file m) name old v]"
    | (kept) "filter (\<lambda>h. mh_field h = name) added = []" by blast
  then show ?thesis
  proof cases
    case written
    have "user_histories_ok (md_file m1) hs" "user_decision hs (md_file m1) name = Some h" using hs h m1 by simp_all
    then have user: "up_source u = ''USER''" using accepts_user[OF _ name _ written(1)] by blast
    have "latest_history (hs @ added) i name = Some (field_history u (md_file m) name old v)"
      by (rule latest_history_single[OF written(2)]) (simp add: field_history_def i)
    then show ?thesis using user by (simp add: user_decision_def field_history_def)
  next
    case kept
    have "\<forall>h \<in> set added. mh_file h = i" using row i by blast
    then show ?thesis using latest_history_other[OF _ kept, of i hs] h by simp
  qed
qed

lemma metadata_save:
  assumes "metadata_of d i = Some m" and "md_file m' = i"
  shows "metadata_of (add_histories hs (save_metadata m' d)) i = Some m'"
proof -
  have "i \<in> md_file ` set (metadata_rows d)" using assms(1) by (metis find_row_SomeD image_eqI metadata_of_def)
  then show ?thesis using assms(2) by (simp add: metadata_of_def add_histories_def save_metadata_def find_row_save_row)
qed

lemma ensure_metadata_row:
  obtains m where "metadata_of (ensure_metadata i d) i = Some m" "md_file m = i" "histories (ensure_metadata i d) = histories d"
    "metadata_of d i = Some m \<or> metadata_of d i = None \<and> m = new_metadata i"
proof (cases "metadata_of d i")
  case None
  then have "metadata_of (insert_metadata (new_metadata i) d) i = Some (new_metadata i)"
    by (simp add: metadata_of_def insert_metadata_def find_row_append new_metadata_def)
  then show ?thesis using that[of "new_metadata i"] None by (simp add: ensure_metadata_def insert_metadata_def new_metadata_def)
next
  case (Some m)
  then show ?thesis using that[of m] by (auto simp: ensure_metadata_def metadata_of_def dest: find_row_SomeD)
qed

lemma upsert_fields_row:
  obtains m m' added where "md_file m = i" "metadata_of d i = Some m \<or> metadata_of d i = None \<and> m = new_metadata i"
    "upsert_row (histories d) u m = (m', added)" "histories (upsert_fields i u d) = histories d @ added"
    "md_file m' = i \<longrightarrow> metadata_of (upsert_fields i u d) i = Some m'"
proof -
  obtain m where m: "metadata_of (ensure_metadata i d) i = Some m" "md_file m = i" "histories (ensure_metadata i d) = histories d"
    "metadata_of d i = Some m \<or> metadata_of d i = None \<and> m = new_metadata i" by (rule ensure_metadata_row)
  obtain m' added where r: "upsert_row (histories d) u m = (m', added)" by fastforce
  have "upsert_fields i u d = add_histories added (save_metadata m' (ensure_metadata i d))"
    using m r by (simp add: upsert_fields_def Let_def)
  then show ?thesis using that[OF m(2,4) r] m(3) metadata_save[OF m(1), of m'] by (simp add: add_histories_def save_metadata_def)
qed

lemma new_row_fields: "get_field name (new_metadata i) = FNone"
  by (simp add: get_field_def new_metadata_def opt_time_def opt_real_def opt_text_def)

text \<open>One event.\<close>

lemma upsert_fields_step:
  assumes ok: "distinct (map fst (up_values u))" "\<forall>(n, v) \<in> set (up_values u). field_ok n v"
    and kept: "decisions_kept lost i d" and row: "lost \<or> metadata_of d i \<noteq> None \<or> histories d = []"
  shows "decisions_kept (lost \<and> \<not> up_restore u) i (upsert_fields i u d) \<and> metadata_of (upsert_fields i u d) i \<noteq> None \<and>
    (\<forall>name h. name \<in> set allowed_fields \<longrightarrow> user_decision (histories d) i name = Some h \<longrightarrow>
       user_decision (histories (upsert_fields i u d)) i name \<noteq> None \<and>
       (up_source u \<noteq> ''USER'' \<longrightarrow> user_decision (histories (upsert_fields i u d)) i name = Some h))"
proof -
  obtain m m' added where m: "md_file m = i" "metadata_of d i = Some m \<or> metadata_of d i = None \<and> m = new_metadata i"
      and r: "upsert_row (histories d) u m = (m', added)" and hs: "histories (upsert_fields i u d) = histories d @ added"
      and m': "md_file m' = i \<longrightarrow> metadata_of (upsert_fields i u d) i = Some m'" by (rule upsert_fields_row)
  have uh: "user_histories_ok i (histories d)" using kept by (simp add: decisions_kept_def)
  have typed: "\<forall>h \<in> set (histories d). mh_file h = md_file m \<and> mh_field h \<in> set allowed_fields \<and> mh_source h = ''USER'' \<longrightarrow> field_ok (mh_field h) (mh_new h)"
    using uh m(1) by (auto simp: user_histories_ok_def)
  note field = upsert_row_field[OF ok typed _ r, unfolded Let_def]
  have "''iso'' \<in> set allowed_fields" by (simp add: allowed_fields_def)
  from field[OF this] have mfile: "md_file m' = i" and own: "\<forall>h \<in> set added. mh_file h = i \<and> mh_source h = up_source u" using m(1) by simp_all
  have row': "metadata_of (upsert_fields i u d) i = Some m'" using m' mfile by blast
  have "mh_priority h = 100 \<and> field_ok (mh_field h) (mh_new h)"
    if h: "h \<in> set added" "mh_field h \<in> set allowed_fields" "mh_source h = ''USER''" for h
  proof -
    have "h \<in> set (filter (\<lambda>x. mh_field x = mh_field h) added)" using h(1) by simp
    then obtain v old where v: "(mh_field h, v) \<in> set (up_values u)" "h = field_history u (md_file m) (mh_field h) old v"
      using field[OF h(2)] by (metis (no_types, lifting) empty_iff list.set(1) list.set_cases set_ConsD)
    then have "up_source u = ''USER''" "mh_new h = v" "mh_priority h = source_priority (up_source u)"
      using h(3) by (metis field_history_def mk_history.select_convs)+
    then show ?thesis using v(1) ok(2) by (auto simp: source_priority_def)
  qed
  then have uh': "user_histories_ok i (histories d @ added)" using uh own by (auto simp: user_histories_ok_def)
  have "get_field name m' = mh_new h \<or> (lost \<and> \<not> up_restore u) \<and> get_field name m' = FNone"
    if name: "name \<in> set allowed_fields" and h: "user_decision (histories d @ added) i name = Some h" for name h
  proof (rule upsert_decisions[OF ok uh m(1) name r _ h])
    fix h assume "user_decision (histories d) i name = Some h"
    then show "get_field name m = mh_new h \<or> lost \<and> get_field name m = FNone"
      using kept name m(2) row new_row_fields[of name i]
      by (auto simp: decisions_kept_def user_decision_def latest_history_def)
  qed
  then have "decisions_kept (lost \<and> \<not> up_restore u) i (upsert_fields i u d)"
    using uh' row' hs by (auto simp: decisions_kept_def)
  moreover have "user_decision (histories d @ added) i name \<noteq> None \<and> (up_source u \<noteq> ''USER'' \<longrightarrow> user_decision (histories d @ added) i name = Some h)"
    if "name \<in> set allowed_fields" "user_decision (histories d) i name = Some h" for name h
    by (rule upsert_keeps_decision[OF ok uh m(1) that(1) r that(2)])
  ultimately show ?thesis using row' hs by auto
qed

definition lost_after :: "bool \<Rightarrow> meta_event list \<Rightarrow> bool" where
  "lost_after lost es = fold (\<lambda>e lost. case e of RemoveRow \<Rightarrow> True | Upsert u \<Rightarrow> lost \<and> \<not> up_restore u | _ \<Rightarrow> lost) es lost"

definition user_event :: "meta_event \<Rightarrow> bool" where
  "user_event e = (case e of Upsert u \<Rightarrow> up_source u = ''USER'' | _ \<Rightarrow> False)"

lemma capture_step:
  assumes kept: "decisions_kept lost i d"
  shows "decisions_kept lost i (set_original_capture who i t d) \<and>
    (metadata_of d i \<noteq> None \<longrightarrow> metadata_of (set_original_capture who i t d) i \<noteq> None) \<and>
    (metadata_of d i = None \<longrightarrow> set_original_capture who i t d = d) \<and>
    (\<forall>name. name \<in> set allowed_fields \<longrightarrow> user_decision (histories (set_original_capture who i t d)) i name = user_decision (histories d) i name)"
proof -
  have not_allowed: "''original_capture_datetime'' \<notin> set allowed_fields" by (simp add: allowed_fields_def)
  have same: "user_decision (hs @ [capture_history who i t]) i name = user_decision hs i name" if "name \<in> set allowed_fields" for hs name t
    using not_allowed that by (auto simp: user_decision_def latest_history_append latest_history_def capture_history_def)
  show ?thesis
  proof (cases "set_original_capture who i t d = d")
    case True
    then show ?thesis using kept by simp
  next
    case False
    then obtain c m where c: "t = Some c" and m: "metadata_of d i = Some m"
        and d': "set_original_capture who i t d = add_histories [capture_history who i c] (save_metadata (m\<lparr>md_original_capture := Some c\<rparr>) d)"
      by (auto simp: set_original_capture_def split: option.splits if_splits)
    have "md_file m = i" using m by (auto simp: metadata_of_def dest: find_row_SomeD)
    then have row: "metadata_of (set_original_capture who i t d) i = Some (m\<lparr>md_original_capture := Some c\<rparr>)"
      unfolding d' by (intro metadata_save[OF m]) simp
    have hs: "histories (set_original_capture who i t d) = histories d @ [capture_history who i c]"
      by (simp add: d' add_histories_def save_metadata_def)
    have "get_field name (m\<lparr>md_original_capture := Some c\<rparr>) = get_field name m" for name by (simp add: get_field_def)
    then have "decisions_kept lost i (set_original_capture who i t d)"
      using kept m row hs same by (auto simp: decisions_kept_def user_histories_ok_def capture_history_def)
    then show ?thesis using m row hs same by simp
  qed
qed

lemma meta_step_keeps:
  assumes "event_ok e" and "decisions_kept lost i d" and "lost \<or> metadata_of d i \<noteq> None \<or> histories d = []"
  defines "lost' \<equiv> lost_after lost [e]"
  shows "decisions_kept lost' i (meta_step i e d) \<and> (lost' \<or> metadata_of (meta_step i e d) i \<noteq> None \<or> histories (meta_step i e d) = []) \<and>
    (\<forall>name h. name \<in> set allowed_fields \<longrightarrow> user_decision (histories d) i name = Some h \<longrightarrow>
       user_decision (histories (meta_step i e d)) i name \<noteq> None \<and>
       (\<not> user_event e \<longrightarrow> user_decision (histories (meta_step i e d)) i name = Some h))"
proof (cases e)
  case (Upsert u)
  have ok: "distinct (map fst (up_values u))" "\<forall>(n, v) \<in> set (up_values u). field_ok n v"
    using assms(1) by (simp_all add: Upsert event_ok_def)
  have "lost' = (lost \<and> \<not> up_restore u)" by (simp add: lost'_def Upsert lost_after_def)
  then show ?thesis using upsert_fields_step[OF ok assms(2,3)] by (simp add: Upsert meta_step_def user_event_def)
next
  case (CaptureTime who t)
  have "lost' = lost" by (simp add: lost'_def CaptureTime lost_after_def)
  then show ?thesis using capture_step[OF assms(2), of who t] assms(3)
    by (cases "metadata_of d i") (auto simp: CaptureTime meta_step_def)
next
  case RemoveRow
  have "histories (snd (delete_metadata i d)) = histories d" "metadata_of (snd (delete_metadata i d)) i = None"
    by (auto simp: delete_metadata_def metadata_of_def delete_where_def find_row_None_iff)
  then show ?thesis using assms(2) by (simp add: RemoveRow meta_step_def lost'_def lost_after_def decisions_kept_def)
qed

lemma meta_run_keeps:
  assumes "\<forall>e \<in> set es. event_ok e" and "decisions_kept lost i d" and "lost \<or> metadata_of d i \<noteq> None \<or> histories d = []"
  shows "decisions_kept (lost_after lost es) i (meta_run i es d) \<and>
    (\<forall>name h. name \<in> set allowed_fields \<longrightarrow> user_decision (histories d) i name = Some h \<longrightarrow>
       user_decision (histories (meta_run i es d)) i name \<noteq> None \<and>
       (\<not> list_ex user_event es \<longrightarrow> user_decision (histories (meta_run i es d)) i name = Some h))"
  using assms
proof (induction es arbitrary: d lost)
  case Nil
  then show ?case by (simp add: meta_run_def lost_after_def)
next
  case (Cons e es)
  have e: "event_ok e" "\<forall>e \<in> set es. event_ok e" using Cons.prems(1) by simp_all
  note step = meta_step_keeps[OF e(1) Cons.prems(2,3)]
  let ?l = "lost_after lost [e]" let ?d = "meta_step i e d"
  have run: "meta_run i (e # es) d = meta_run i es ?d" "lost_after lost (e # es) = lost_after ?l es"
    by (simp_all add: meta_run_def lost_after_def)
  have ih: "decisions_kept (lost_after ?l es) i (meta_run i es ?d) \<and>
    (\<forall>name h. name \<in> set allowed_fields \<longrightarrow> user_decision (histories ?d) i name = Some h \<longrightarrow>
       user_decision (histories (meta_run i es ?d)) i name \<noteq> None \<and>
       (\<not> list_ex user_event es \<longrightarrow> user_decision (histories (meta_run i es ?d)) i name = Some h))"
    using step by (intro Cons.IH[OF e(2)]) blast+
  show ?case
  proof (intro conjI allI impI)
    show "decisions_kept (lost_after lost (e # es)) i (meta_run i (e # es) d)" using ih by (simp add: run)
    fix name h assume n: "name \<in> set allowed_fields" and h: "user_decision (histories d) i name = Some h"
    obtain h' where h': "user_decision (histories ?d) i name = Some h'" using step n h by blast
    then show "user_decision (histories (meta_run i (e # es) d)) i name \<noteq> None" using ih n run(1) by simp
    assume "\<not> list_ex user_event (e # es)"
    then show "user_decision (histories (meta_run i (e # es) d)) i name = Some h" using ih n run(1) step h by simp
  qed
qed


text \<open>The user names a city, the row is removed, and the photo is uploaded again with another city in its EXIF data.\<close>

definition city_from :: "string \<Rightarrow> string \<Rightarrow> bool \<Rightarrow> upsert" where
  "city_from source city restore = \<lparr>up_values = [(''city'', FText city)], up_source = source, up_modified_by = source,
     up_approved = False, up_restore = restore\<rparr>"

definition no_metadata :: mk_state where
  "no_metadata = \<lparr>base = empty_db, file_states = [], metadata_rows = [], mk_places = [], histories = [], linked_at = (\<lambda>_. 0)\<rparr>"


end
