(* ===== verification/StorageRules.thy ===== *)
theory StorageRules
  imports StoragePaths NumText
begin

text \<open>
  Where an upload is stored: the rules of \<open>src/app/common/services/storage/storage_rule.py\<close>
  and the engine that selects one (\<open>storage_rule_engine.py\<close>). A rule reads the metadata of the
  pipeline's context, the instants of the job and the clock, and gives a relative directory.
  The lemmas show that every level of it is one ordinary directory name.
\<close>

section \<open>Values\<close>

text \<open>A metadata value as a rule reads it: a datetime, of which only the year matters, or its text.\<close>

datatype rule_value = RDatetime int | RText string

record rule_context =
  ru_metadata :: "(string \<times> rule_value) list"
  ru_country :: "string option"
  ru_city :: "string option"
  ru_place :: "string option"
  ru_job_created :: "rule_value option"
  ru_service :: string

text \<open>\<open>isdigit\<close> accepts the superscripts of Latin-1 too.\<close>

definition is_digit_py :: "char \<Rightarrow> bool" where
  "is_digit_py c \<longleftrightarrow> is_digit_char c \<or> of_char c \<in> {178, 179, 185 :: nat}"

definition extract_year :: "rule_value option \<Rightarrow> string option" where
  "extract_year value =
     (case value of
        None \<Rightarrow> None
      | Some (RDatetime y) \<Rightarrow> Some (str_int y)
      | Some (RText s) \<Rightarrow> let t = strip s in
          if 4 \<le> length t \<and> list_all is_digit_py (take 4 t) then Some (take 4 t) else None)"

definition segment_tokens :: string where
  "segment_tokens = [CHR 92, slash, CHR '':'', CHR ''*'', CHR ''?'', CHR 34, CHR ''<'', CHR ''>'', CHR ''|'']"

definition normalize_segment :: "rule_value option \<Rightarrow> string option" where
  "normalize_segment value =
     (case value of
        None \<Rightarrow> None
      | Some v \<Rightarrow>
          let t = strip (case v of RDatetime y \<Rightarrow> str_int y | RText s \<Rightarrow> s) in
          if t = [] then None
          else let u = strip_while (\<lambda>c. c = CHR '' '' \<or> c = CHR ''.'')
                         (fold (\<lambda>token. replace_char token (CHR ''_'')) segment_tokens t)
               in if u = [] then None else Some u)"

fun first_value :: "('a \<Rightarrow> 'b option) \<Rightarrow> 'a list \<Rightarrow> 'b option" where
  "first_value f [] = None"
| "first_value f (x # xs) = (case f x of Some y \<Rightarrow> Some y | None \<Rightarrow> first_value f xs)"

section \<open>MemoryKeeper\<close>

text \<open>
  The context of the pipeline has neither \<open>datetime_original\<close> nor \<open>created_at\<close>, so the year is
  that of the metadata or of the clock.
\<close>

definition mk_rule_year :: "int \<Rightarrow> rule_context \<Rightarrow> string" where
  "mk_rule_year now_year c = or_else (extract_year (map_of (ru_metadata c) ''datetime_original'')) (str_int now_year)"

definition resolve_segment :: "rule_context \<Rightarrow> string list \<Rightarrow> string option \<Rightarrow> string" where
  "resolve_segment c keys attr =
     (case first_value (\<lambda>k. normalize_segment (map_of (ru_metadata c) k)) keys of
        Some s \<Rightarrow> s
      | None \<Rightarrow> or_else (normalize_segment (map_option RText attr)) ''Unknown'')"

definition mk_rule_segments :: "int \<Rightarrow> rule_context \<Rightarrow> string list" where
  "mk_rule_segments now_year c =
     [mk_rule_year now_year c, resolve_segment c [''country''] (ru_country c), resolve_segment c [''city''] (ru_city c),
      resolve_segment c [''place_name'', ''place''] (ru_place c)]"

section \<open>AstroJournal\<close>

definition aj_rule_year :: "int \<Rightarrow> rule_context \<Rightarrow> string" where
  "aj_rule_year now_year c =
     (case first_value (\<lambda>k. extract_year (map_of (ru_metadata c) k)) [''observation_date'', ''datetime_original''] of
        Some y \<Rightarrow> y
      | None \<Rightarrow> or_else (extract_year (ru_job_created c)) (str_int now_year))"

definition reserved_names :: "string list" where
  "reserved_names = [''CON'', ''PRN'', ''AUX'', ''NUL''] @
     concat (map (\<lambda>n. [''COM'' @ [digit_char n], ''LPT'' @ [digit_char n]]) [1..<10])"

text \<open>A character up to 255 takes one or two bytes in UTF-8; a character cut in half is dropped.\<close>

definition utf8_size :: "char \<Rightarrow> nat" where
  "utf8_size c = (if of_char c < (128 :: nat) then 1 else 2)"

fun take_bytes :: "nat \<Rightarrow> string \<Rightarrow> string" where
  "take_bytes n [] = []"
| "take_bytes n (c # s) = (if utf8_size c \<le> n then c # take_bytes (n - utf8_size c) s else [])"

definition max_target_bytes :: nat where
  "max_target_bytes = 180"

definition normalize_target_length :: "string \<Rightarrow> string" where
  "normalize_target_length value =
     (let named = (if upper (hd (split_on (CHR ''.'') value)) \<in> set reserved_names then CHR ''_'' # value else value)
      in if sum_list (map utf8_size named) \<le> max_target_bytes then named
         else let shortened = rstrip_while (\<lambda>c. c = CHR '' '' \<or> c = CHR ''.'') (take_bytes max_target_bytes named)
              in if shortened = [] then ''Unknown'' else shortened)"

definition resolve_target :: "rule_context \<Rightarrow> string" where
  "resolve_target c =
     (case first_value (\<lambda>k. normalize_segment (map_of (ru_metadata c) k)) [''canonical_target_id'', ''target_display_name''] of
        Some v \<Rightarrow> normalize_target_length v
      | None \<Rightarrow> ''Unknown'')"

definition aj_rule_segments :: "int \<Rightarrow> rule_context \<Rightarrow> string list" where
  "aj_rule_segments now_year c = [''AstroJournal'', aj_rule_year now_year c, resolve_target c]"

section \<open>The engine\<close>

text \<open>The directory and the log lines, or the lines before the refusal of an unknown service.\<close>

definition rule_path :: "int \<Rightarrow> rule_context \<Rightarrow> (string list \<times> string) + string \<times> string list" where
  "rule_path now_year c =
     (let service = (if ru_service c = [] then ''MemoryKeeper'' else ru_service c);
          start = [''RULE_START'', ''RULE_SELECTED '' @ service];
          found = (\<lambda>segments. let p = replace_char (CHR 92) slash (strip_while (\<lambda>x. x = slash) (join_with slash segments))
                     in Inr (p, start @ [''RULE_COMPLETE'', ''FINAL_PATH '' @ p]))
      in if service = ''MemoryKeeper'' then found (mk_rule_segments now_year c)
         else if service = ''AstroJournal'' then found (aj_rule_segments now_year c)
         else Inl (start @ [''RULE_UNSUPPORTED '' @ service], ''Unsupported storage service: '' @ service))"

section \<open>Laws\<close>

text \<open>A name without separators or forbidden characters that is neither empty nor made of dots and spaces.\<close>

definition clean_segment :: "string \<Rightarrow> bool" where
  "clean_segment s \<longleftrightarrow> s \<noteq> [] \<and> hd s \<notin> {CHR '' '', CHR ''.''} \<and> last s \<notin> {CHR '' '', CHR ''.''} \<and>
     list_all (\<lambda>c. c \<notin> set segment_tokens) s"

lemma replace_tokens_map:
  "fold (\<lambda>token. replace_char token (CHR ''_'')) segment_tokens t = map (\<lambda>c. if c \<in> set segment_tokens then CHR ''_'' else c) t"
proof -
  have "fold (\<lambda>t. replace_char t (CHR ''_'')) ts s = map (\<lambda>c. if c \<in> set ts then CHR ''_'' else c) s"
    if "CHR ''_'' \<notin> set ts" for ts s
    using that by (induction ts arbitrary: s) (auto simp: replace_char_def)
  moreover have "CHR ''_'' \<notin> set segment_tokens" by (simp add: segment_tokens_def slash_def)
  ultimately show ?thesis by blast
qed

lemma normalize_segment_clean: "normalize_segment v = Some s \<Longrightarrow> clean_segment s"
proof -
  assume "normalize_segment v = Some s"
  then obtain t where s: "s = strip_while (\<lambda>c. c = CHR '' '' \<or> c = CHR ''.'') (map (\<lambda>c. if c \<in> set segment_tokens then CHR ''_'' else c) t)"
      and ne: "s \<noteq> []"
    by (auto simp: normalize_segment_def Let_def replace_tokens_map split: option.splits if_splits)
  have "hd s \<notin> {CHR '' '', CHR ''.''}" using hd_strip_while[of "\<lambda>c. c = CHR '' '' \<or> c = CHR ''.''"] ne s by blast
  moreover have "last s \<notin> {CHR '' '', CHR ''.''}"
    using last_rstrip_while[of "\<lambda>c. c = CHR '' '' \<or> c = CHR ''.''"] ne s unfolding strip_while_def by blast
  moreover have "CHR ''_'' \<notin> set segment_tokens" by (simp add: segment_tokens_def slash_def)
  then have "\<forall>c \<in> set (map (\<lambda>c. if c \<in> set segment_tokens then CHR ''_'' else c) t). c \<notin> set segment_tokens" by auto
  then have "list_all (\<lambda>c. c \<notin> set segment_tokens) s"
    unfolding list_all_iff s using set_strip_while by blast
  ultimately show ?thesis using ne by (simp add: clean_segment_def)
qed

lemma first_value_Some: "first_value f xs = Some y \<Longrightarrow> \<exists>x \<in> set xs. f x = Some y"
  by (induction xs) (auto split: option.splits)

lemma unknown_clean: "clean_segment ''Unknown''"
  by (simp add: clean_segment_def segment_tokens_def slash_def)

lemma resolve_segment_clean: "clean_segment (resolve_segment c keys attr)"
  using unknown_clean
  by (auto simp: resolve_segment_def or_else_def dest!: first_value_Some split: option.splits intro: normalize_segment_clean)

text \<open>Years are digits, with a sign at most.\<close>

lemma digits_clean:
  assumes "s \<noteq> []" and "list_all is_digit_py s"
  shows "clean_segment s"
proof -
  have not_token: "\<not> is_digit_py c" if "c \<in> set segment_tokens \<or> c = CHR '' '' \<or> c = CHR ''.''" for c
    using that by (auto simp: segment_tokens_def slash_def is_digit_py_def is_digit_char_def)
  have "is_digit_py (hd s)" "is_digit_py (last s)" using assms by (auto simp: list_all_iff)
  then show ?thesis using assms not_token unfolding clean_segment_def list_all_iff by blast
qed

lemma str_int_clean: "clean_segment (str_int n)"
proof (cases "n < 0")
  case False
  then show ?thesis
    using digits_clean[of "show_nat (nat n)"] show_nat_digits[of "nat n"] by (auto simp: str_int_def is_digit_py_def list_all_iff)
next
  case True
  have "clean_segment (show_nat (nat (- n)))"
    using digits_clean show_nat_digits[of "nat (- n)"] by (auto simp: is_digit_py_def list_all_iff)
  then show ?thesis using True by (auto simp: str_int_def clean_segment_def segment_tokens_def slash_def)
qed

lemma extract_year_clean: "extract_year v = Some y \<Longrightarrow> clean_segment y"
proof -
  assume y: "extract_year v = Some y"
  show ?thesis
  proof (cases "\<exists>n. v = Some (RDatetime n)")
    case True
    then show ?thesis using y str_int_clean by (auto simp: extract_year_def)
  next
    case False
    then have "y \<noteq> [] \<and> list_all is_digit_py y"
      using y by (auto simp: extract_year_def Let_def split: option.splits rule_value.splits if_splits)
    then show ?thesis using digits_clean by blast
  qed
qed

lemma mk_rule_year_clean: "clean_segment (mk_rule_year now_year c)"
  by (auto simp: mk_rule_year_def or_else_def str_int_clean split: option.splits intro: extract_year_clean)

lemma aj_rule_year_clean: "clean_segment (aj_rule_year now_year c)"
  by (auto simp: aj_rule_year_def or_else_def str_int_clean dest!: first_value_Some split: option.splits intro: extract_year_clean)

text \<open>A shortened target is a prefix of the named one.\<close>

lemma take_bytes_prefix: "\<exists>r. s = take_bytes n s @ r"
  by (induction n s rule: take_bytes.induct) auto

lemma take_bytes_bound: "sum_list (map utf8_size (take_bytes n s)) \<le> n"
  by (induction n s rule: take_bytes.induct) auto

lemma sum_rstrip: "sum_list (map utf8_size (rstrip_while P s)) \<le> sum_list (map utf8_size s)"
  using rstrip_while_decomp[of s P] by (metis le_add1 map_append sum_list_append)

lemma shortened_clean:
  assumes "clean_segment s" and "t = rstrip_while (\<lambda>c. c = CHR '' '' \<or> c = CHR ''.'') (take_bytes n s)" and "t \<noteq> []"
  shows "clean_segment t"
proof -
  obtain u where u: "take_bytes n s = t @ u" using rstrip_while_decomp assms(2) by blast
  moreover obtain r where "s = take_bytes n s @ r" using take_bytes_prefix by blast
  ultimately have s: "s = t @ (u @ r)" by simp
  have "hd t \<notin> {CHR '' '', CHR ''.''}" using assms(1,3) by (simp add: s clean_segment_def)
  moreover have "last t \<notin> {CHR '' '', CHR ''.''}"
    using last_rstrip_while[of "\<lambda>c. c = CHR '' '' \<or> c = CHR ''.''"] assms(2,3) by blast
  moreover have "list_all (\<lambda>c. c \<notin> set segment_tokens) t" using assms(1) by (simp add: s clean_segment_def)
  ultimately show ?thesis using assms(3) by (simp add: clean_segment_def)
qed

lemma target_clean:
  "clean_segment (resolve_target c) \<and> sum_list (map utf8_size (resolve_target c)) \<le> max_target_bytes"
proof -
  have unknown: "sum_list (map utf8_size ''Unknown'') \<le> max_target_bytes" by (simp add: utf8_size_def max_target_bytes_def)
  have "clean_segment (normalize_target_length v) \<and> sum_list (map utf8_size (normalize_target_length v)) \<le> max_target_bytes"
    if v: "clean_segment v" for v
  proof -
    define named where "named = (if upper (hd (split_on (CHR ''.'') v)) \<in> set reserved_names then CHR ''_'' # v else v)"
    define shortened where "shortened = rstrip_while (\<lambda>c. c = CHR '' '' \<or> c = CHR ''.'') (take_bytes max_target_bytes named)"
    have n: "clean_segment named" using v by (auto simp: named_def clean_segment_def segment_tokens_def slash_def)
    have bound: "sum_list (map utf8_size shortened) \<le> max_target_bytes"
      unfolding shortened_def using sum_rstrip take_bytes_bound by (meson le_trans)
    have "normalize_target_length v = (if sum_list (map utf8_size named) \<le> max_target_bytes then named
        else if shortened = [] then ''Unknown'' else shortened)"
      by (simp add: normalize_target_length_def Let_def named_def shortened_def)
    then show ?thesis using n bound unknown unknown_clean shortened_clean[OF n shortened_def] by auto
  qed
  then show ?thesis using unknown unknown_clean
    by (auto simp: resolve_target_def dest!: first_value_Some split: option.splits dest: normalize_segment_clean)
qed

lemma clean_no_slash: "clean_segment s \<Longrightarrow> slash \<notin> set s \<and> CHR 92 \<notin> set s"
proof -
  assume "clean_segment s"
  then have "\<forall>c \<in> set s. c \<notin> set segment_tokens" by (simp add: clean_segment_def list_all_iff)
  moreover have "slash \<in> set segment_tokens" "CHR 92 \<in> set segment_tokens" by (simp_all add: segment_tokens_def)
  ultimately show ?thesis by blast
qed

lemma clean_plain: "clean_segment s \<Longrightarrow> plain_dir_name s"
proof -
  assume s: "clean_segment s"
  have "set unsafe_tokens \<subseteq> set segment_tokens" by (auto simp: unsafe_tokens_def segment_tokens_def)
  then have "\<forall>c \<in> set s. c \<notin> set unsafe_tokens" using s unfolding clean_segment_def list_all_iff by blast
  moreover have "s \<noteq> []" "s \<noteq> ''.''" "s \<noteq> ''..''" using s by (auto simp: clean_segment_def)
  ultimately show ?thesis using clean_no_slash[OF s] unfolding plain_dir_name_def list_all_iff by blast
qed

lemma service_clean: "clean_segment ''AstroJournal''"
  by code_simp

lemma join_clean:
  assumes "segments \<noteq> []" and "list_all clean_segment segments"
  shows "split_on slash (join_with slash segments) = segments"
    and "replace_char (CHR 92) slash (strip_while (\<lambda>x. x = slash) (join_with slash segments)) = join_with slash segments"
proof -
  have clean: "\<forall>s \<in> set segments. slash \<notin> set s \<and> CHR 92 \<notin> set s \<and> s \<noteq> []"
    using assms(2) clean_no_slash by (auto simp: list_all_iff clean_segment_def)
  show split: "split_on slash (join_with slash segments) = segments" using assms(1) clean by (intro split_join) auto
  have chars: "set (join_with slash ss) \<subseteq> insert slash (\<Union> (set ` set ss))" for ss
    by (induction slash ss rule: join_with.induct) auto
  have ends: "ss \<noteq> [] \<Longrightarrow> \<forall>s \<in> set ss. s \<noteq> [] \<Longrightarrow> hd (join_with slash ss) = hd (hd ss) \<and> last (join_with slash ss) = last (last ss) \<and>
      join_with slash ss \<noteq> []" for ss
    by (induction slash ss rule: join_with.induct) auto
  have "hd (hd segments) \<noteq> slash" "last (last segments) \<noteq> slash"
    using clean assms(1) by (metis list.set_sel(1), metis last_in_set)
  then have "strip_while (\<lambda>x. x = slash) (join_with slash segments) = join_with slash segments"
    using ends[OF assms(1)] clean by (intro strip_while_id) auto
  moreover have "CHR 92 \<notin> set (join_with slash segments)" using chars[of segments] clean by (auto simp: slash_def)
  ultimately show "replace_char (CHR 92) slash (strip_while (\<lambda>x. x = slash) (join_with slash segments)) = join_with slash segments"
    by simp
qed

text \<open>
  Whatever the metadata says, the directory of an upload has the levels its rule names -
  year, country, city and place, or the service, year and target - and each is one ordinary
  directory name: not empty, without separators, forbidden characters, and dots or spaces at
  its ends. The target of an observation takes at most 180 bytes.
\<close>

theorem rule_directory_plain:
  assumes "rule_path now_year c = Inr (p, lines)"
  shows "list_all clean_segment (split_on slash p) \<and> list_all plain_dir_name (split_on slash p) \<and>
    split_on slash p = (if ru_service c = ''AstroJournal'' then aj_rule_segments now_year c else mk_rule_segments now_year c) \<and>
    length (split_on slash p) = (if ru_service c = ''AstroJournal'' then 3 else 4) \<and>
    (ru_service c = ''AstroJournal'' \<longrightarrow> sum_list (map utf8_size (last (split_on slash p))) \<le> 180)"
proof -
  let ?s = "if ru_service c = ''AstroJournal'' then aj_rule_segments now_year c else mk_rule_segments now_year c"
  have clean: "list_all clean_segment ?s" and len: "length ?s = (if ru_service c = ''AstroJournal'' then 3 else 4)"
    using target_clean[of c]
    by (simp_all add: aj_rule_segments_def mk_rule_segments_def mk_rule_year_clean aj_rule_year_clean resolve_segment_clean
        service_clean)
  have "?s \<noteq> []" by (simp add: aj_rule_segments_def mk_rule_segments_def)
  note joined = join_clean[OF this clean]
  let ?f = "\<lambda>segments. replace_char (CHR 92) slash (strip_while (\<lambda>x. x = slash) (join_with slash segments))"
  have "p = ?f ?s"
  proof (cases "ru_service c = ''AstroJournal''")
    case True
    then have "rule_path now_year c = Inr (?f (aj_rule_segments now_year c), [''RULE_START'', ''RULE_SELECTED AstroJournal'',
        ''RULE_COMPLETE'', ''FINAL_PATH '' @ ?f (aj_rule_segments now_year c)])" unfolding rule_path_def Let_def by simp
    then show ?thesis using assms True by simp
  next
    case False
    show ?thesis
    proof (cases "ru_service c = [] \<or> ru_service c = ''MemoryKeeper''")
      case True
      then have "rule_path now_year c = Inr (?f (mk_rule_segments now_year c), [''RULE_START'', ''RULE_SELECTED MemoryKeeper'',
          ''RULE_COMPLETE'', ''FINAL_PATH '' @ ?f (mk_rule_segments now_year c)])" unfolding rule_path_def Let_def by auto
      then show ?thesis using assms False by simp
    next
      case other: False
      then show ?thesis using assms False by (simp add: rule_path_def Let_def)
    qed
  qed
  then have "p = join_with slash ?s" using joined(2) by argo
  then have p: "split_on slash p = ?s" using joined(1) by argo
  have "list_all plain_dir_name ?s" using clean clean_plain by (auto simp: list_all_iff)
  moreover have "ru_service c = ''AstroJournal'' \<longrightarrow> sum_list (map utf8_size (last ?s)) \<le> 180"
    using target_clean[of c] by (simp add: aj_rule_segments_def max_target_bytes_def)
  ultimately show ?thesis using clean len p by simp
qed

definition sample_rule :: rule_context where
  "sample_rule = \<lparr>ru_metadata = [(''observation_date'', RText ''2024-05-01''), (''canonical_target_id'', RText '' ../M:31. '')],
     ru_country = None, ru_city = None, ru_place = None, ru_job_created = None, ru_service = ''AstroJournal''\<rparr>"

theorem rule_directory_plain_witness:
  "\<exists>p lines. rule_path 2026 sample_rule = Inr (p, lines) \<and> list_all clean_segment (split_on slash p) \<and>
     split_on slash p = [''AstroJournal'', ''2024'', ''_M_31'']"
proof -
  obtain p lines where r: "rule_path 2026 sample_rule = Inr (p, lines)"
    by (auto simp: rule_path_def sample_rule_def Let_def)
  have "aj_rule_segments 2026 sample_rule = [''AstroJournal'', ''2024'', ''_M_31'']" by code_simp
  moreover have "ru_service sample_rule = ''AstroJournal''" by (simp add: sample_rule_def)
  ultimately have "list_all clean_segment (split_on slash p) \<and> split_on slash p = [''AstroJournal'', ''2024'', ''_M_31'']"
    using rule_directory_plain[OF r] by argo
  then show ?thesis using r by blast
qed

end
