(* ===== verification/UploadIntake.thy ===== *)
theory UploadIntake
  imports StorageRules StorageAssets FileLinks UploadJobs
begin

text \<open>
  The entry of the upload pipeline: \<open>src/app/common/routers/upload.py\<close> with the safe file name of
  \<open>storage_service.py\<close>. A request is validated, answered again if its client id is known, and
  otherwise its bytes are written to the incoming directory, probed, and a waiting job is
  inserted. The decoding of header words in a file name, the media probe and the JSON of the
  metadata are parameters; the reset locks keep resets out and leave no trace here.
\<close>

section \<open>Safe file names\<close>

text \<open>\<open>Path(s).name\<close>: the last component, empty for a root.\<close>

definition path_name :: "string \<Rightarrow> string" where
  "path_name s = (let p = path_parts s in if p = [] \<or> last p = ''/'' \<or> last p = ''//'' then [] else last p)"

text \<open>\<open>Path(name).stem\<close> and \<open>suffix\<close>: cut at the last dot, unless it is the first or the last character.\<close>

definition split_suffix :: "string \<Rightarrow> string \<times> string" where
  "split_suffix name =
     (let r = rev name; ext = takeWhile (\<lambda>c. c \<noteq> CHR ''.'') r; rest = drop (length ext) r
      in if ext = [] \<or> length rest \<le> 1 then (name, []) else (rev (tl rest), CHR ''.'' # rev ext))"

text \<open>The letters of Hangul the source admits too have no character here.\<close>

definition safe_char :: "char \<Rightarrow> bool" where
  "safe_char c \<longleftrightarrow> is_upper_ascii c \<or> is_lower_ascii c \<or> is_digit_char c \<or> c \<in> set ''._-''"

text \<open>A run of other characters becomes one underscore.\<close>

fun squash_unsafe :: "bool \<Rightarrow> string \<Rightarrow> string" where
  "squash_unsafe after [] = []"
| "squash_unsafe after (c # s) =
     (if safe_char c then c # squash_unsafe False s else (if after then [] else ''_'') @ squash_unsafe True s)"

definition max_incoming_bytes :: nat where
  "max_incoming_bytes = 180"

definition strip_dots :: "string \<Rightarrow> string" where
  "strip_dots = strip_while (\<lambda>c. c = CHR '' '' \<or> c = CHR ''.'')"

definition or_unknown :: "string \<Rightarrow> string" where
  "or_unknown s = (if s = [] then ''unknown'' else s)"

definition text_bytes :: "string \<Rightarrow> nat" where
  "text_bytes s = sum_list (map utf8_size s)"

definition truncate_filename :: "string \<Rightarrow> string" where
  "truncate_filename name =
     (if text_bytes name \<le> max_incoming_bytes then name
      else let suffix = snd (split_suffix name);
               suffix = (if max_incoming_bytes \<le> text_bytes suffix then [] else suffix);
               stem = take (length name - length suffix) name;
               shortened = rstrip_while (\<lambda>c. c = CHR '' '' \<or> c = CHR ''.'') (take_bytes (max_incoming_bytes - text_bytes suffix) stem)
           in or_unknown shortened @ suffix)"

definition sanitize_filename :: "string \<Rightarrow> string" where
  "sanitize_filename filename =
     (let name = or_unknown (strip_dots (squash_unsafe False (or_unknown (strip (path_name filename)))));
          name = (if upper (fst (split_suffix name)) \<in> set reserved_names then CHR ''_'' # name else name)
      in truncate_filename name)"

section \<open>The request\<close>

record upload_request =
  rq_filename :: string
  rq_bytes :: string
  rq_service :: string
  rq_source :: "string option"
  rq_client_id :: "string option"
  rq_client_sha :: "string option"
  rq_observed :: "string option"
  rq_target_id :: "string option"
  rq_target_name :: "string option"

datatype intake_error =
    MissingFilename                         \<comment> \<open>400\<close>
  | InvalidField string                     \<comment> \<open>422\<close>
  | SourceConflict                          \<comment> \<open>409\<close>
  | HashConflict                            \<comment> \<open>409\<close>
  | AlreadyRegistered                       \<comment> \<open>409: DUPLICATE_CONTENT\<close>
  | UnsupportedMedia string                 \<comment> \<open>415\<close>
  | ProbeUnavailable string                 \<comment> \<open>503\<close>
  | UploadFailed                            \<comment> \<open>500\<close>

definition validate_service_name :: "string \<Rightarrow> intake_error + string" where
  "validate_service_name value =
     (let s = strip value in if s = ''MemoryKeeper'' \<or> s = ''AstroJournal'' then Inr s else Inl (InvalidField ''service_name''))"

definition validate_upload_source :: "string option \<Rightarrow> string \<Rightarrow> intake_error + string" where
  "validate_upload_source value service =
     (case value of
        None \<Rightarrow> Inr ''UPLOAD''
      | Some v \<Rightarrow> raise_if (lower (strip v) \<noteq> ''mobile'') (InvalidField ''upload_source'')
          (raise_if (service \<noteq> ''MemoryKeeper'') (InvalidField ''upload_source'') (Inr ''UPLOAD_MOBILE'')))"

definition normalize_client_file_id :: "string option \<Rightarrow> intake_error + string option" where
  "normalize_client_file_id value =
     (case value of
        None \<Rightarrow> Inr None
      | Some v \<Rightarrow> let s = strip v in raise_if (s = [] \<or> 255 < length s) (InvalidField ''client_file_id'') (Inr (Some s)))"

definition is_lower_hex :: "char \<Rightarrow> bool" where
  "is_lower_hex c \<longleftrightarrow> is_digit_char c \<or> c \<in> set ''abcdef''"

definition normalize_client_sha :: "string option \<Rightarrow> intake_error + string option" where
  "normalize_client_sha value =
     (case value of
        None \<Rightarrow> Inr None
      | Some v \<Rightarrow> if v = [] then Inr None
          else raise_if (length v \<noteq> 64 \<or> \<not> list_all is_lower_hex v) (InvalidField ''client_content_sha256'') (Inr (Some v)))"

definition normalize_optional_metadata :: "string \<Rightarrow> string option \<Rightarrow> intake_error + string option" where
  "normalize_optional_metadata field_name value =
     (case value of
        None \<Rightarrow> Inr None
      | Some v \<Rightarrow> let s = strip v in if s = [] then Inr None else raise_if (255 < length s) (InvalidField field_name) (Inr (Some s)))"

text \<open>\<open>encode_upload_metadata\<close>; \<open>json\<close> is \<open>json.dumps\<close> of the pairs.\<close>

definition encode_upload_metadata :: "((string \<times> string) list \<Rightarrow> string) \<Rightarrow> (string \<times> string option) list \<Rightarrow> string option" where
  "encode_upload_metadata json values =
     (let payload = concat (map (\<lambda>(k, v). case v of None \<Rightarrow> [] | Some s \<Rightarrow> if strip s = [] then [] else [(k, s)]) values)
      in if payload = [] then None else Some (log_line (''UPLOAD_METADATA '' @ json payload)))"

section \<open>The reply\<close>

text \<open>The last five columns are missing for a new MemoryKeeper upload without a client id.\<close>

record upload_details =
  ud_service :: string
  ud_client_id :: "string option"
  ud_backend_file_id :: "string option"
  ud_common_file_id :: "int option"
  ud_replay :: bool

record upload_reply =
  ur_id :: int
  ur_job_id :: string
  ur_status :: job_status
  ur_incoming :: string
  ur_details :: "upload_details option"

definition details_of :: "common_file list \<Rightarrow> bool \<Rightarrow> upload_job \<Rightarrow> upload_details" where
  "details_of file_rows replay j = \<lparr>ud_service = uj_service j, ud_client_id = uj_client_id j, ud_backend_file_id = uj_file_id j,
     ud_common_file_id = resolve_common_file_id (uj_file_id j) file_rows, ud_replay = replay\<rparr>"

definition reply_of :: "upload_details option \<Rightarrow> upload_job \<Rightarrow> upload_reply" where
  "reply_of details j = \<lparr>ur_id = uj_id j, ur_job_id = uj_job_id j, ur_status = uj_status j, ur_incoming = uj_incoming j,
     ur_details = details\<rparr>"

definition idempotent_response :: "upload_job \<Rightarrow> string option \<Rightarrow> string \<Rightarrow> db \<Rightarrow> (intake_error + upload_reply) \<times> db" where
  "idempotent_response j requested_hash source_type d =
     (let existing = (if uj_client_sha j = Some [] then None else uj_client_sha j) in
      if uj_source j \<noteq> source_type then (Inl SourceConflict, d)
      else if existing \<noteq> None \<and> requested_hash \<noteq> None \<and> existing \<noteq> requested_hash then (Inl HashConflict, d)
      else let (j', rows) = (case requested_hash of
                 Some sha \<Rightarrow> if existing = None then uj_set_client_sha j sha (upload_jobs d) else (j, upload_jobs d)
               | None \<Rightarrow> (j, upload_jobs d))
           in (Inr (reply_of (Some (details_of (files d) True j')) j'), d\<lparr>upload_jobs := rows\<rparr>))"

section \<open>The upload\<close>

text \<open>
  What happens outside: the write of the bytes may fail half way, and another session may insert
  a job (\<open>iv_rival\<close>) after the request looked its client id up.
\<close>

datatype write_outcome = Written | WriteFails string
datatype probe_outcome = Probed | ProbeUnsupported string | ProbeToolMissing string | ProbeRaises

record intake_env =
  iv_storage :: storage_env
  iv_now :: time
  iv_job_id :: string
  iv_row_id :: int
  iv_decode :: "string \<Rightarrow> string"
  iv_json :: "(string \<times> string) list \<Rightarrow> string"
  iv_write :: write_outcome
  iv_probe :: "path \<Rightarrow> string \<Rightarrow> string \<Rightarrow> disk \<Rightarrow> probe_outcome"
  iv_rival :: "upload_job option"

definition incoming_file :: "intake_env \<Rightarrow> upload_request \<Rightarrow> path" where
  "incoming_file env rq = path_join (se_incoming (iv_storage env)) (iv_job_id env @ ''_'' @ sanitize_filename (iv_decode env (rq_filename rq)))"

definition save_incoming :: "intake_env \<Rightarrow> upload_request \<Rightarrow> disk \<Rightarrow> string option \<times> disk" where
  "save_incoming env rq k =
     (let p = incoming_file env rq in
      case make_dirs (on_volume (iv_storage env) (butlast p)) k of
        None \<Rightarrow> (None, k)
      | Some k1 \<Rightarrow>
          (case iv_write env of
             WriteFails part \<Rightarrow> (None, write_file (on_volume (iv_storage env) p) part k1)
           | Written \<Rightarrow>
               let k2 = write_file (on_volume (iv_storage env) p) (rq_bytes rq) k1 in
               (case to_relative_path (iv_storage env) p of Inl _ \<Rightarrow> (None, k2) | Inr s \<Rightarrow> (Some s, k2))))"

text \<open>The handlers that remove the incoming file; a failure to remove it is answered with 500.\<close>

definition refuse :: "intake_env \<Rightarrow> string \<Rightarrow> intake_error \<Rightarrow> db \<Rightarrow> disk \<Rightarrow> (intake_error + upload_reply) \<times> db \<times> disk" where
  "refuse env incoming e d k =
     (case delete_incoming (iv_storage env) incoming k of
        (Inl _, k') \<Rightarrow> (Inl UploadFailed, d, k')
      | (Inr _, k') \<Rightarrow> (Inl e, d, k'))"

definition insert_upload :: "intake_env \<Rightarrow> upload_job \<Rightarrow> string option \<Rightarrow> db \<Rightarrow> disk \<Rightarrow> (intake_error + upload_reply) \<times> db \<times> disk" where
  "insert_upload env j requested_hash d k =
     (let d = (case iv_rival env of None \<Rightarrow> d | Some r \<Rightarrow> d\<lparr>upload_jobs := upload_jobs d @ [r]\<rparr>) in
      case uj_create_waiting j (upload_jobs d) of
        Inr (j, rows) \<Rightarrow>
          (let d = d\<lparr>upload_jobs := rows\<rparr>;
               details = (if uj_client_id j \<noteq> None \<or> uj_service j \<noteq> ''MemoryKeeper'' then Some (details_of (files d) False j) else None)
           in (Inr (reply_of details j), d, k))
      | Inl _ \<Rightarrow>
          (case delete_incoming (iv_storage env) (uj_incoming j) k of
             (Inl _, k') \<Rightarrow> (Inl UploadFailed, d, k')
           | (Inr _, k') \<Rightarrow>
               (case Option.bind (uj_client_id j) (\<lambda>c. uj_get_by_client (uj_service j) c (upload_jobs d)) of
                  None \<Rightarrow> (Inl UploadFailed, d, k')
                | Some existing \<Rightarrow> (let (r, d') = idempotent_response existing requested_hash (uj_source j) d in (r, d', k')))))"

definition receive_upload :: "intake_env \<Rightarrow> upload_request \<Rightarrow> (string \<Rightarrow> upload_job) \<Rightarrow> db \<Rightarrow> disk \<Rightarrow> (intake_error + upload_reply) \<times> db \<times> disk" where
  "receive_upload env rq new_job d k =
     (case save_incoming env rq k of
        (None, k1) \<Rightarrow> (Inl UploadFailed, d, k1)
      | (Some incoming, k1) \<Rightarrow>
          (case resolve_storage_path (iv_storage env) incoming of
             Inl _ \<Rightarrow> refuse env incoming UploadFailed d k1
           | Inr p \<Rightarrow>
               (case iv_probe env p (iv_decode env (rq_filename rq)) (uj_service (new_job incoming)) k1 of
                  ProbeUnsupported m \<Rightarrow> refuse env incoming (UnsupportedMedia m) d k1
                | ProbeToolMissing m \<Rightarrow> refuse env incoming (ProbeUnavailable m) d k1
                | ProbeRaises \<Rightarrow> refuse env incoming UploadFailed d k1
                | Probed \<Rightarrow> insert_upload env (new_job incoming) (uj_client_sha (new_job incoming)) d k1)))"

text \<open>The validated fields of a request: service, source, client id, client hash and the metadata line.\<close>

definition validate_upload :: "intake_env \<Rightarrow> upload_request \<Rightarrow> intake_error + string \<times> string \<times> string option \<times> string option \<times> string option" where
  "validate_upload env rq =
     raise_if (rq_filename rq = []) MissingFilename
      (and_then (validate_service_name (rq_service rq)) (\<lambda>service.
       and_then (validate_upload_source (rq_source rq) service) (\<lambda>source.
       and_then (normalize_client_file_id (rq_client_id rq)) (\<lambda>client_id.
       and_then (normalize_client_sha (rq_client_sha rq)) (\<lambda>sha.
       and_then (normalize_optional_metadata ''canonical_target_id'' (rq_target_id rq)) (\<lambda>target_id.
       and_then (normalize_optional_metadata ''target_display_name'' (rq_target_name rq)) (\<lambda>target_name.
         Inr (service, source, client_id, sha, encode_upload_metadata (iv_json env)
           [(''observation_date'', rq_observed rq), (''canonical_target_id'', target_id), (''target_display_name'', target_name)]))))))))"

definition upload_file :: "intake_env \<Rightarrow> upload_request \<Rightarrow> db \<Rightarrow> disk \<Rightarrow> (intake_error + upload_reply) \<times> db \<times> disk" where
  "upload_file env rq d k =
     (case validate_upload env rq of
        Inl e \<Rightarrow> (Inl e, d, k)
      | Inr (service, source, client_id, sha, log_text) \<Rightarrow>
          (case Option.bind client_id (\<lambda>c. uj_get_by_client service c (upload_jobs d)) of
             Some existing \<Rightarrow> (let (r, d') = idempotent_response existing sha source d in (r, d', k))
           | None \<Rightarrow>
               if source = ''UPLOAD_MOBILE'' \<and> (case sha of None \<Rightarrow> False | Some h \<Rightarrow> has_active_file_by_sha h ''MemoryKeeper'' d)
               then (Inl AlreadyRegistered, d, k)
               else receive_upload env rq
                 (\<lambda>incoming. uj_new (iv_row_id env) (iv_now env) (iv_job_id env) source incoming service client_id sha log_text) d k))"

text \<open>The check a mobile client makes before it sends the bytes.\<close>

definition preflight_upload :: "string \<Rightarrow> string \<Rightarrow> db \<Rightarrow> bool \<times> bool \<times> string option" where
  "preflight_upload service sha d =
     (let duplicate = has_active_file_by_sha sha service d
      in (duplicate, \<not> duplicate, if duplicate then Some ''DUPLICATE_CONTENT'' else None))"

end
