(* ===== verification/PipelineBase.thy ===== *)
theory PipelineBase
  imports MetadataRepo StorageRules StorageAssets FileLinks UploadJobs VisionQueue TagTables
begin

text \<open>
  What the plugins of the upload worker share (\<open>src/worker/plugins/base.py\<close>): the session of
  the worker with what it has committed, the disk, the context the plugins hand on, and the log
  of the job. A step returns, raises, or the process dies in it. SQLAlchemy sends the changes
  of the job's row with the next commit and forgets them at a rollback, the log included.
\<close>

section \<open>The environment\<close>

text \<open>
  What the pipeline takes from outside the modelled code: SHA-256, the media probe, the derivative
  images, the EXIF reader, the geocoder, new ids, and what other sessions do - a file row with
  the same content (\<open>pv_rival\<close>) and a link (\<open>pv_stale\<close>) committed in between.
\<close>

record media_info =
  mi_category :: media_category
  mi_extension :: string
  mi_mime :: string
  mi_width :: "int option"
  mi_height :: "int option"

record derivatives =
  de_preview :: "path option"
  de_thumb :: "path option"
  de_width :: "int option"
  de_height :: "int option"
  de_failures :: "string list"

record exif_facts =
  ex_values :: "(string \<times> field_value) list"
  ex_captured :: "wall_time option"

record address =
  ad_country :: "string option"
  ad_province :: "string option"
  ad_city :: "string option"
  ad_district :: "string option"
  ad_place :: "string option"
  ad_lat :: real
  ad_lon :: real

record pipe_env =
  pv_storage :: storage_env
  pv_faults :: move_faults
  pv_now :: time
  pv_year :: int
  pv_sha :: "string \<Rightarrow> string"
  pv_probe :: "path \<Rightarrow> string \<Rightarrow> string \<Rightarrow> disk \<Rightarrow> string + media_info"
  pv_derive :: "path \<Rightarrow> string \<Rightarrow> media_info \<Rightarrow> disk \<Rightarrow> (string + derivatives) \<times> disk"
  pv_exif :: "path \<Rightarrow> disk \<Rightarrow> string + exif_facts"
  pv_geocode :: "real \<Rightarrow> real \<Rightarrow> string + address"
  pv_round :: "real \<Rightarrow> real"
  pv_metadata :: "string option \<Rightarrow> (string \<times> string) list"
  pv_candidate :: "file_metadata \<Rightarrow> place_candidate"
  pv_file_id :: int
  pv_vision_id :: int
  pv_place_id :: string
  pv_rival :: "common_file option"
  pv_stale :: bool
  pv_os_text :: string

section \<open>Steps\<close>

datatype pipe_error = Rejected string string | Failure string
datatype 'a outcome = Done 'a | Fails pipe_error | Dies

definition error_text :: "pipe_error \<Rightarrow> string" where
  "error_text e = (case e of Rejected code message \<Rightarrow> validation_error_text code message | Failure s \<Rightarrow> s)"

record pipe_context =
  cx_job :: string
  cx_service :: string
  cx_mobile :: bool
  cx_incoming :: string
  cx_path :: path
  cx_original_name :: string
  cx_media :: media_info
  cx_width :: "int option"
  cx_height :: "int option"
  cx_metadata :: "(string \<times> string) list"
  cx_file_id :: string
  cx_size :: int
  cx_preview :: "path option"
  cx_thumb :: "path option"
  cx_original :: "path option"
  cx_file :: "int option"
  cx_restore :: bool
  cx_stop :: bool
  cx_gps :: "(real \<times> real) option"

text \<open>The cache of geocoded addresses is a table of its own.\<close>

record pipe =
  px_db :: tag_state
  px_saved :: tag_state
  px_geocache :: "((real \<times> real) \<times> address) list"
  px_disk :: disk
  px_cx :: pipe_context

type_synonym 'a step = "pipe \<Rightarrow> 'a outcome \<times> pipe"

definition return_step :: "'a \<Rightarrow> 'a step" where
  "return_step x s = (Done x, s)"

definition fail_step :: "pipe_error \<Rightarrow> 'a step" where
  "fail_step e s = (Fails e, s)"

definition then_do :: "'a step \<Rightarrow> ('a \<Rightarrow> 'b step) \<Rightarrow> 'b step" where
  "then_do m f s = (case m s of (Done x, s') \<Rightarrow> f x s' | (Fails e, s') \<Rightarrow> (Fails e, s') | (Dies, s') \<Rightarrow> (Dies, s'))"

text \<open>An exception handler sees the exception and the state it left; a dead process has none.\<close>

definition handle :: "'a step \<Rightarrow> (pipe_error \<Rightarrow> 'a step) \<Rightarrow> 'a step" where
  "handle m h s = (case m s of (Done x, s') \<Rightarrow> (Done x, s') | (Fails e, s') \<Rightarrow> h e s' | (Dies, s') \<Rightarrow> (Dies, s'))"

definition read_step :: "(pipe \<Rightarrow> 'a) \<Rightarrow> 'a step" where
  "read_step f s = (Done (f s), s)"

definition change_step :: "(pipe \<Rightarrow> pipe) \<Rightarrow> unit step" where
  "change_step f s = (Done (), f s)"

definition when_do :: "bool \<Rightarrow> unit step \<Rightarrow> unit step" where
  "when_do b m = (if b then m else return_step ())"

fun each_do :: "('a \<Rightarrow> unit step) \<Rightarrow> 'a list \<Rightarrow> unit step" where
  "each_do f [] = return_step ()"
| "each_do f (x # xs) = then_do (f x) (\<lambda>_. each_do f xs)"

definition commit :: "unit step" where
  "commit = change_step (\<lambda>s. s\<lparr>px_saved := px_db s\<rparr>)"

definition rollback :: "unit step" where
  "rollback = change_step (\<lambda>s. s\<lparr>px_db := px_saved s\<rparr>)"

definition set_context :: "(pipe_context \<Rightarrow> pipe_context) \<Rightarrow> unit step" where
  "set_context f = change_step (\<lambda>s. s\<lparr>px_cx := f (px_cx s)\<rparr>)"

definition set_db :: "(tag_state \<Rightarrow> tag_state) \<Rightarrow> unit step" where
  "set_db f = change_step (\<lambda>s. s\<lparr>px_db := f (px_db s)\<rparr>)"

definition with_core :: "(mk_state \<Rightarrow> mk_state) \<Rightarrow> tag_state \<Rightarrow> tag_state" where
  "with_core f d = d\<lparr>core := f (core d)\<rparr>"

definition with_base :: "(db \<Rightarrow> db) \<Rightarrow> tag_state \<Rightarrow> tag_state" where
  "with_base f = with_core (\<lambda>c. c\<lparr>base := f (base c)\<rparr>)"

definition on_job :: "string \<Rightarrow> (upload_job \<Rightarrow> upload_job) \<Rightarrow> tag_state \<Rightarrow> tag_state" where
  "on_job job_id f = with_base (\<lambda>b. b\<lparr>upload_jobs := update_where (\<lambda>j. uj_job_id j = job_id) f (upload_jobs b)\<rparr>)"

definition log_message :: "string \<Rightarrow> unit step" where
  "log_message message = change_step (\<lambda>s. s\<lparr>px_db := on_job (cx_job (px_cx s)) (uj_append_log message) (px_db s)\<rparr>)"

section \<open>The shared calls\<close>

text \<open>\<open>UploadValidationError\<close> after the incoming file was removed, or the failure to remove it.\<close>

definition storage_failure :: "pipe_env \<Rightarrow> storage_error \<Rightarrow> pipe_error" where
  "storage_failure env e = Failure (case e of ValueError s \<Rightarrow> s | OSError \<Rightarrow> pv_os_text env)"

definition drop_incoming :: "pipe_env \<Rightarrow> unit step" where
  "drop_incoming env s =
     (case delete_incoming (pv_storage env) (cx_incoming (px_cx s)) (px_disk s) of
        (Inl e, k) \<Rightarrow> (Fails (storage_failure env e), s\<lparr>px_disk := k\<rparr>)
      | (Inr _, k) \<Rightarrow> (Done (), s\<lparr>px_disk := k\<rparr>))"

definition reject_upload :: "pipe_env \<Rightarrow> string \<Rightarrow> string \<Rightarrow> 'a step" where
  "reject_upload env code message =
     then_do (log_message code) (\<lambda>_. then_do (drop_incoming env) (\<lambda>_. fail_step (Rejected code message)))"

definition duplicate_message :: string where
  "duplicate_message = ''The file is already registered in MemoryKeeper.''"

definition is_mk_service :: "string \<Rightarrow> bool" where
  "is_mk_service service \<longleftrightarrow> lower service = ''memorykeeper''"

text \<open>The link of a file, with the instant MemoryKeeper imported it.\<close>

definition link_file :: "pipe_env \<Rightarrow> int \<Rightarrow> string \<Rightarrow> bool step" where
  "link_file env i service s =
     (case ensure_link (pv_stale env) i service (base (core (px_db s))) of
        Inl _ \<Rightarrow> (Fails (Failure ''IntegrityError''), s)
      | Inr ((link, created), b) \<Rightarrow>
          (Done created, s\<lparr>px_db := with_core (\<lambda>c. c\<lparr>base := b,
             linked_at := (if created \<and> service = memorykeeper then (linked_at c)(i := pv_now env) else linked_at c)\<rparr>) (px_db s)\<rparr>))"

text \<open>
  \<open>synchronize\<close> with the state it finds, or a new one. The caller that just created the link
  says that there is none; if there is one all the same, its key is taken.
\<close>

definition sync_capture :: "pipe_env \<Rightarrow> int \<Rightarrow> file_metadata option \<Rightarrow> bool \<Rightarrow> unit step" where
  "sync_capture env i m missing_known s =
     (let c = core (px_db s) in
      case find_row cf_id i (files (base c)) of
        None \<Rightarrow> (Fails (Failure ''file row is gone''), s)
      | Some f \<Rightarrow>
          if missing_known \<and> state_of c i \<noteq> None then (Fails (Failure ''IntegrityError''), s)
          else (case synchronize (pv_now env) f m (or_else (state_of c i) (new_state (pv_now env) i False)) c of
                  None \<Rightarrow> (Fails (Failure ''source_capture_year must be between 1 and 9999''), s)
                | Some c' \<Rightarrow> (Done (), s\<lparr>px_db := with_core (\<lambda>_. c') (px_db s)\<rparr>)))"

definition match_place_step :: "pipe_env \<Rightarrow> int \<Rightarrow> bool step" where
  "match_place_step env i s =
     (case auto_match_file (pv_now env) (pv_place_id env) (pv_candidate env) i True (core (px_db s)) of
        Inl _ \<Rightarrow> (Fails (Failure ''automatic matching failed''), s)
      | Inr (c, matched) \<Rightarrow> (Done matched, s\<lparr>px_db := with_core (\<lambda>_. c) (px_db s)\<rparr>))"

text \<open>
  \<open>auto_match_file\<close> commits when it writes; the calls that match nothing write nothing, and the
  log lines they leave are committed with the next commit.
\<close>

definition auto_match_step :: "pipe_env \<Rightarrow> int \<Rightarrow> bool step" where
  "auto_match_step env i =
     then_do (match_place_step env i) (\<lambda>matched. then_do (when_do matched commit) (\<lambda>_. return_step matched))"

end
