(* ===== verification/UploadPlugins.thy ===== *)
theory UploadPlugins
  imports PipelineBase
begin

text \<open>
  The first three plugins of the upload worker (\<open>src/worker/plugins/\<close>): the hash and the search
  for a file with the same content (\<open>hash_plugin.py\<close>), the derivative images
  (\<open>preview_plugin.py\<close>), and the move into the store with the file row and its link
  (\<open>storage_plugin.py\<close>). The advisory lock on the hash is taken as given; where it does not hold,
  \<open>pv_rival\<close> is the row another worker commits first.
\<close>

section \<open>HashPlugin\<close>

text \<open>The plugins' own lookups (both files define them alike).\<close>

definition is_mobile_mk :: "pipe_context \<Rightarrow> bool" where
  "is_mobile_mk cx \<longleftrightarrow> cx_mobile cx \<and> cx_service cx = memorykeeper"

definition file_by_sha :: "string \<Rightarrow> pipe \<Rightarrow> common_file option" where
  "file_by_sha sha s = find_row cf_file_id sha (files (base (core (px_db s))))"

definition has_service_link :: "int \<Rightarrow> string \<Rightarrow> pipe \<Rightarrow> bool" where
  "has_service_link i service s \<longleftrightarrow> exists_row (\<lambda>l. fs_file l = i \<and> fs_service l = service) (links (base (core (px_db s))))"

text \<open>The size is counted in the bytes of the file; a missing file raises before it is read.\<close>

definition hash_incoming :: "pipe_env \<Rightarrow> unit step" where
  "hash_incoming env s =
     (case dk_files (px_disk s) (on_volume (pv_storage env) (cx_path (px_cx s))) of
        None \<Rightarrow> (Fails (Failure (''Incoming file not found: '' @ as_posix (cx_path (px_cx s)))), s)
      | Some bytes \<Rightarrow>
          then_do (set_context (\<lambda>c. c\<lparr>cx_size := int (length bytes), cx_file_id := pv_sha env bytes\<rparr>))
            (\<lambda>_. log_message ''SHA256_COMPLETE'') s)"

definition client_sha_differs :: "pipe \<Rightarrow> bool" where
  "client_sha_differs s \<longleftrightarrow>
     (case uj_get (cx_job (px_cx s)) (upload_jobs (base (core (px_db s)))) of
        None \<Rightarrow> False
      | Some j \<Rightarrow> (case uj_client_sha j of None \<Rightarrow> False | Some sha \<Rightarrow> sha \<noteq> cx_file_id (px_cx s)))"

definition raw_labels_exist :: "int \<Rightarrow> tag_state \<Rightarrow> bool" where
  "raw_labels_exist i d \<longleftrightarrow> exists_row (\<lambda>r. rl_file r = i \<and> rl_source r = AiSource \<and> \<not> rl_deleted r) (file_tags d)"

text \<open>\<open>_reuse_or_enqueue_vision\<close>: creating the job commits.\<close>

definition vision_result :: "db_error + string \<times> vision_job list \<Rightarrow> unit step" where
  "vision_result r =
     (case r of
        Inl _ \<Rightarrow> fail_step (Failure ''IntegrityError'')
      | Inr (message, rows) \<Rightarrow>
          then_do (read_step (\<lambda>s. vision_jobs (base (core (px_db s))) \<noteq> rows)) (\<lambda>created.
          then_do (set_db (with_base (\<lambda>b. b\<lparr>vision_jobs := rows\<rparr>))) (\<lambda>_.
          then_do (when_do created commit) (\<lambda>_. log_message message))))"

definition reuse_vision_step :: "pipe_env \<Rightarrow> common_file \<Rightarrow> unit step" where
  "reuse_vision_step env f s =
     vision_result (reuse_or_enqueue_vision (Some (mi_category (cx_media (px_cx s)))) (raw_labels_exist (cf_id f) (px_db s))
       (pv_vision_id env) (pv_now env) f (vision_jobs (base (core (px_db s))))) s"

text \<open>The link of an existing file and its projection: one transaction, rolled back on any error.\<close>

definition project_link :: "pipe_env \<Rightarrow> int \<Rightarrow> string \<Rightarrow> bool \<Rightarrow> bool \<Rightarrow> unit step" where
  "project_link env i service load_metadata created =
     when_do (is_mk_service service)
       (then_do (read_step (\<lambda>s. if load_metadata then metadata_of (core (px_db s)) i else None)) (\<lambda>m. sync_capture env i m created))"

definition link_and_project :: "pipe_env \<Rightarrow> int \<Rightarrow> bool \<Rightarrow> bool \<Rightarrow> bool step" where
  "link_and_project env i load_metadata allow_existing =
     handle
       (then_do (read_step (\<lambda>s. px_cx s)) (\<lambda>cx.
        then_do (link_file env i (cx_service cx)) (\<lambda>created.
        then_do (when_do (\<not> allow_existing \<and> is_mobile_mk cx \<and> \<not> created)
                   (then_do rollback (\<lambda>_. reject_upload env ''DUPLICATE_CONTENT'' duplicate_message))) (\<lambda>_.
        then_do (project_link env i (cx_service cx) load_metadata created) (\<lambda>_.
        then_do commit (\<lambda>_. return_step created))))))
       (\<lambda>e. then_do rollback (\<lambda>_. fail_step e))"

definition log_link :: "bool \<Rightarrow> unit step" where
  "log_link created = log_message (if created then ''LINK_CREATED'' else ''LINK_EXISTS'')"

definition match_and_log :: "pipe_env \<Rightarrow> int \<Rightarrow> unit step" where
  "match_and_log env i =
     then_do (auto_match_step env i) (\<lambda>matched. when_do matched (log_message ''MEMORYKEEPER_PLACE_MATCHED''))"

definition use_existing :: "pipe_env \<Rightarrow> common_file \<Rightarrow> unit step" where
  "use_existing env f =
     then_do (read_step (\<lambda>s. px_cx s)) (\<lambda>cx.
     then_do (read_step (has_service_link (cf_id f) (cx_service cx))) (\<lambda>linked.
     then_do (when_do (is_mobile_mk cx \<and> linked) (reject_upload env ''DUPLICATE_CONTENT'' duplicate_message)) (\<lambda>_.
     then_do (link_and_project env (cf_id f) True False) (\<lambda>created.
     then_do (set_context (\<lambda>c. c\<lparr>cx_file := Some (cf_id f)\<rparr>)) (\<lambda>_.
     then_do (drop_incoming env) (\<lambda>_.
     then_do (set_context (\<lambda>c. c\<lparr>cx_stop := True\<rparr>)) (\<lambda>_.
     then_do (log_message ''DUPLICATE_FOUND'') (\<lambda>_.
     then_do (log_message (''DUPLICATE_FOUND existing_service='' @ (if cf_service f = [] then ''MemoryKeeper'' else cf_service f) @
        '' requested_service='' @ cx_service cx)) (\<lambda>_.
     then_do (log_link created) (\<lambda>_.
     when_do (is_mk_service (cx_service cx))
       (then_do (when_do created (reuse_vision_step env f)) (\<lambda>_. match_and_log env (cf_id f)))))))))))))"

definition hash_plugin :: "pipe_env \<Rightarrow> unit step" where
  "hash_plugin env =
     then_do (hash_incoming env) (\<lambda>_.
     then_do (read_step (\<lambda>s. is_mobile_mk (px_cx s) \<and> client_sha_differs s)) (\<lambda>mismatch.
     then_do (when_do mismatch (reject_upload env ''CONTENT_SHA256_MISMATCH''
                ''The client SHA-256 does not match the uploaded content.'')) (\<lambda>_.
     then_do (read_step (\<lambda>s. file_by_sha (cx_file_id (px_cx s)) s)) (\<lambda>existing.
     then_do (log_message ''DUPLICATE_CHECK_COMPLETE'') (\<lambda>_.
       case existing of
         None \<Rightarrow> return_step ()
       | Some f \<Rightarrow>
           if cf_deleted f
           then then_do (set_context (\<lambda>c. c\<lparr>cx_file := Some (cf_id f), cx_restore := True\<rparr>)) (\<lambda>_. log_message ''DELETED_FILE_REUPLOAD'')
           else use_existing env f)))))"

section \<open>PreviewPlugin\<close>

definition derive_step :: "pipe_env \<Rightarrow> derivatives step" where
  "derive_step env s =
     (case pv_derive env (cx_path (px_cx s)) (cx_file_id (px_cx s)) (cx_media (px_cx s)) (px_disk s) of
        (Inl message, k) \<Rightarrow> (Fails (Failure message), s\<lparr>px_disk := k\<rparr>)
      | (Inr r, k) \<Rightarrow> (Done r, s\<lparr>px_disk := k\<rparr>))"

definition preview_plugin :: "pipe_env \<Rightarrow> unit step" where
  "preview_plugin env =
     then_do (derive_step env) (\<lambda>r.
     then_do (set_context (\<lambda>c. c\<lparr>cx_width := de_width r, cx_height := de_height r, cx_preview := de_preview r,
                cx_thumb := de_thumb r\<rparr>)) (\<lambda>_.
     then_do (log_message (if de_preview r = None then ''PREVIEW_SKIPPED'' else ''PREVIEW_CREATED'')) (\<lambda>_.
     then_do (log_message (if de_thumb r = None then ''THUMB_SKIPPED'' else ''THUMB_CREATED'')) (\<lambda>_.
       each_do (\<lambda>failure. log_message (''DERIVATIVE_FAILED:'' @ failure)) (de_failures r)))))"

section \<open>StoragePlugin\<close>

definition storage_rule_context :: "pipe \<Rightarrow> rule_context" where
  "storage_rule_context s = \<lparr>ru_metadata = map (\<lambda>(k, v). (k, RText v)) (cx_metadata (px_cx s)), ru_country = None, ru_city = None,
     ru_place = None,
     ru_job_created = map_option (\<lambda>j. RDatetime (wall_year (utc_wall (uj_created_at j))))
       (uj_get (cx_job (px_cx s)) (upload_jobs (base (core (px_db s))))),
     ru_service = cx_service (px_cx s)\<rparr>"

definition choose_directory :: "pipe_env \<Rightarrow> string step" where
  "choose_directory env =
     then_do (read_step storage_rule_context) (\<lambda>rc.
       case rule_path (pv_year env) rc of
         Inl (lines, message) \<Rightarrow> then_do (each_do log_message lines) (\<lambda>_. fail_step (Failure message))
       | Inr (p, lines) \<Rightarrow> then_do (each_do log_message lines) (\<lambda>_. return_step p))"

definition or_storage_failure :: "pipe_env \<Rightarrow> storage_error + 'a \<Rightarrow> 'a step" where
  "or_storage_failure env r = (case r of Inl e \<Rightarrow> fail_step (storage_failure env e) | Inr x \<Rightarrow> return_step x)"

definition destination_root :: "pipe_env \<Rightarrow> pipe_context \<Rightarrow> path option step" where
  "destination_root env cx =
     (if cx_mobile cx
      then then_do (or_storage_failure env (original_root_for_upload (pv_storage env) ''UPLOAD_MOBILE'' (cx_service cx)))
             (\<lambda>r. return_step (Some r))
      else return_step None)"

definition move_step :: "pipe_env \<Rightarrow> string \<Rightarrow> path option \<Rightarrow> path step" where
  "move_step env dir dest s =
     (case move_to_storage (pv_storage env) (pv_faults env) (cx_incoming (px_cx s)) (cx_file_id (px_cx s))
             (mi_extension (cx_media (px_cx s))) (Some dir) dest (px_disk s) of
        (Returned p, k) \<Rightarrow> (Done p, s\<lparr>px_disk := k\<rparr>)
      | (Raised e, k) \<Rightarrow> (Fails (storage_failure env e), s\<lparr>px_disk := k\<rparr>)
      | (Died, k) \<Rightarrow> (Dies, s\<lparr>px_disk := k\<rparr>))"

definition relative_step :: "pipe_env \<Rightarrow> path option \<Rightarrow> string option step" where
  "relative_step env p =
     (case p of None \<Rightarrow> return_step None
      | Some q \<Rightarrow> then_do (or_storage_failure env (to_relative_path (pv_storage env) q)) (\<lambda>r. return_step (Some r)))"

text \<open>The columns of the stored file; a new row gets the id of the sequence and the clock.\<close>

definition stored_file :: "pipe_env \<Rightarrow> pipe_context \<Rightarrow> string option \<Rightarrow> string option \<Rightarrow> string option \<Rightarrow> common_file" where
  "stored_file env cx original preview thumb =
     \<lparr>cf_id = pv_file_id env, cf_file_id = cx_file_id cx, cf_original_name = cx_original_name cx,
      cf_extension = Some (mi_extension (cx_media cx)), cf_mime_type = Some (mi_mime (cx_media cx)),
      cf_file_size = Some (cx_size cx), cf_width = cx_width cx, cf_height = cx_height cx,
      cf_original_path = original, cf_preview_path = preview, cf_thumb_path = thumb, cf_favorite = False,
      cf_service = cx_service cx, cf_created_at = pv_now env, cf_deleted = False\<rparr>"

definition restored_file :: "common_file \<Rightarrow> common_file \<Rightarrow> common_file" where
  "restored_file stored old = stored\<lparr>cf_id := cf_id old, cf_file_id := cf_file_id old, cf_favorite := cf_favorite old,
     cf_created_at := cf_created_at old\<rparr>"

definition change_files :: "(common_file list \<Rightarrow> common_file list) \<Rightarrow> unit step" where
  "change_files f = set_db (with_base (\<lambda>b. b\<lparr>files := f (files b)\<rparr>))"

definition restore_step :: "pipe_env \<Rightarrow> common_file \<Rightarrow> unit step" where
  "restore_step env stored =
     then_do (read_step (\<lambda>s. Option.bind (cx_file (px_cx s)) (\<lambda>i. find_row cf_id i (files (base (core (px_db s))))))) (\<lambda>old.
       case old of
         None \<Rightarrow> fail_step (Failure ''deleted CommonFile is required for restore'')
       | Some f \<Rightarrow>
           then_do (change_files (save_row cf_id (restored_file stored f))) (\<lambda>_.
           then_do commit (\<lambda>_.
           then_do (link_and_project env (cf_id f) True True) (\<lambda>created.
           then_do (log_message ''COMMON_FILE_RESTORED'') (\<lambda>_. log_link created)))))"

text \<open>The insert; the unique content hash refuses it when another session committed first.\<close>

definition insert_file :: "pipe_env \<Rightarrow> common_file \<Rightarrow> bool step" where
  "insert_file env stored s =
     (let rivals = (case pv_rival env of None \<Rightarrow> id | Some r \<Rightarrow> with_base (\<lambda>b. b\<lparr>files := files b @ [r]\<rparr>));
          s = s\<lparr>px_db := rivals (px_db s), px_saved := rivals (px_saved s)\<rparr>
      in if exists_row (\<lambda>f. cf_file_id f = cf_file_id stored \<or> cf_id f = cf_id stored) (files (base (core (px_db s))))
         then then_do rollback (\<lambda>_. return_step False) s
         else then_do (change_files (\<lambda>fs. fs @ [stored])) (\<lambda>_. then_do commit (\<lambda>_. return_step True)) s)"

definition drop_losing_original :: "pipe_env \<Rightarrow> common_file \<Rightarrow> path \<Rightarrow> unit step" where
  "drop_losing_original env existing own s =
     (let winner = (case cf_original_path existing of
            None \<Rightarrow> Inr None
          | Some p \<Rightarrow> if p = [] then Inr None
                     else and_then (resolve_storage_path (pv_storage env) p) (\<lambda>q. and_then (resolve (pv_storage env) q) (\<lambda>w. Inr (Some w))))
      in case winner of
           Inl e \<Rightarrow> (Fails (storage_failure env e), s)
         | Inr None \<Rightarrow> (Done (), s)
         | Inr (Some w) \<Rightarrow>
             (case resolve (pv_storage env) own of
                Inl e \<Rightarrow> (Fails (storage_failure env e), s)
              | Inr mine \<Rightarrow>
                  if w = mine then (Done (), s)
                  else (case delete_unreferenced_original (pv_storage env) (as_posix own) (px_disk s) of
                          (Inl e, k) \<Rightarrow> (Fails (storage_failure env e), s\<lparr>px_disk := k\<rparr>)
                        | (Inr _, k) \<Rightarrow> (Done (), s\<lparr>px_disk := k\<rparr>))))"

definition lost_race_step :: "pipe_env \<Rightarrow> path \<Rightarrow> unit step" where
  "lost_race_step env own =
     then_do (read_step (\<lambda>s. (px_cx s, file_by_sha (cx_file_id (px_cx s)) s))) (\<lambda>(cx, existing).
       case existing of
         None \<Rightarrow> fail_step (Failure ''IntegrityError'')
       | Some f \<Rightarrow>
           then_do (drop_losing_original env f own) (\<lambda>_.
           then_do (set_context (\<lambda>c. c\<lparr>cx_file := Some (cf_id f)\<rparr>)) (\<lambda>_.
           then_do (read_step (has_service_link (cf_id f) memorykeeper)) (\<lambda>linked.
           then_do (when_do (is_mobile_mk cx \<and> linked) (reject_upload env ''DUPLICATE_CONTENT'' duplicate_message)) (\<lambda>_.
           then_do (link_and_project env (cf_id f) True False) (\<lambda>created.
           then_do (set_context (\<lambda>c. c\<lparr>cx_stop := True\<rparr>)) (\<lambda>_.
           then_do (log_message ''DUPLICATE_FOUND'') (\<lambda>_.
           then_do (log_link created) (\<lambda>_. when_do (is_mk_service (cx_service cx)) (match_and_log env (cf_id f)))))))))))"

definition create_step :: "pipe_env \<Rightarrow> common_file \<Rightarrow> path \<Rightarrow> unit step" where
  "create_step env stored own =
     then_do (insert_file env stored) (\<lambda>inserted.
       if \<not> inserted then lost_race_step env own
       else then_do (set_context (\<lambda>c. c\<lparr>cx_file := Some (cf_id stored)\<rparr>)) (\<lambda>_.
            then_do (log_message ''COMMON_FILE_CREATED'') (\<lambda>_.
            then_do (link_and_project env (cf_id stored) False False) (\<lambda>created. log_link created))))"

definition storage_plugin :: "pipe_env \<Rightarrow> unit step" where
  "storage_plugin env =
     then_do (choose_directory env) (\<lambda>dir.
     then_do (read_step (\<lambda>s. px_cx s)) (\<lambda>cx.
     then_do (destination_root env cx) (\<lambda>dest.
     then_do (move_step env dir dest) (\<lambda>own.
     then_do (set_context (\<lambda>c. c\<lparr>cx_original := Some own\<rparr>)) (\<lambda>_.
     then_do (log_message ''MOVE_STORAGE_COMPLETE'') (\<lambda>_.
     then_do (relative_step env (Some own)) (\<lambda>original.
     then_do (relative_step env (cx_preview cx)) (\<lambda>preview.
     then_do (relative_step env (cx_thumb cx)) (\<lambda>thumb.
       if cx_restore cx then restore_step env (stored_file env cx original preview thumb)
       else create_step env (stored_file env cx original preview thumb) own)))))))))"

end
