(* ===== verification/UploadPipeline.thy ===== *)
theory UploadPipeline
  imports UploadPlugins
begin

text \<open>
  The last three plugins of the upload worker - metadata, EXIF and GPS
  (\<open>src/worker/plugins/metadata_plugin.py\<close>, \<open>exif_plugin.py\<close>, \<open>gps_plugin.py\<close>) -, the plugin
  manager (\<open>plugin_manager.py\<close>) and the processing of one job
  (\<open>src/worker/background_worker.py\<close>). Heartbeats write other tables and are left out.
\<close>

section \<open>MetadataPlugin\<close>

definition opt_int :: "int option \<Rightarrow> field_value" where
  "opt_int x = (case x of None \<Rightarrow> FNone | Some n \<Rightarrow> FInt n)"

definition plugin_upsert :: "string \<Rightarrow> string \<Rightarrow> (string \<times> field_value) list \<Rightarrow> bool \<Rightarrow> upsert" where
  "plugin_upsert source plugin values restore = \<lparr>up_values = values, up_source = source, up_modified_by = plugin,
     up_approved = False, up_restore = restore\<rparr>"

definition on_file :: "(int \<Rightarrow> unit step) \<Rightarrow> string \<Rightarrow> unit step" where
  "on_file m message = then_do (read_step (\<lambda>s. cx_file (px_cx s))) (\<lambda>i.
     case i of None \<Rightarrow> fail_step (Failure message) | Some i \<Rightarrow> m i)"

definition change_core :: "(mk_state \<Rightarrow> mk_state) \<Rightarrow> unit step" where
  "change_core f = set_db (with_core f)"

definition metadata_plugin :: "pipe_env \<Rightarrow> unit step" where
  "metadata_plugin env =
     on_file (\<lambda>i. then_do (read_step (\<lambda>s. px_cx s)) (\<lambda>cx.
       then_do (change_core (upsert_fields i (plugin_upsert ''SYSTEM'' ''MetadataPlugin''
          ([(''image_width'', opt_int (cx_width cx)), (''image_height'', opt_int (cx_height cx))] @
             map (\<lambda>(k, v). (k, FText v)) (cx_metadata cx)) (cx_restore cx)))) (\<lambda>_.
         log_message ''METADATA_COMPLETE''))) ''common_file is required before metadata save''"

section \<open>ExifPlugin\<close>

definition gps_of :: "file_metadata option \<Rightarrow> (real \<times> real) option" where
  "gps_of m = Option.bind m (\<lambda>m. case (md_gps_lat m, md_gps_lon m) of (Some lat, Some lon) \<Rightarrow> Some (lat, lon) | _ \<Rightarrow> None)"

definition exif_gps :: "exif_facts \<Rightarrow> (real \<times> real) option" where
  "exif_gps x = (case (map_of (ex_values x) ''gps_lat'', map_of (ex_values x) ''gps_lon'') of
     (Some (FReal lat), Some (FReal lon)) \<Rightarrow> Some (lat, lon) | _ \<Rightarrow> None)"

definition read_exif :: "pipe_env \<Rightarrow> exif_facts step" where
  "read_exif env s =
     (case cx_original (px_cx s) of
        None \<Rightarrow> (Fails (Failure ''original_path is required before EXIF extraction''), s)
      | Some p \<Rightarrow> (case pv_exif env p (px_disk s) of Inl message \<Rightarrow> (Fails (Failure message), s) | Inr x \<Rightarrow> (Done x, s)))"

definition user_cleared :: "mk_history list \<Rightarrow> int \<Rightarrow> string \<Rightarrow> bool" where
  "user_cleared hs i name \<longleftrightarrow> (case user_decision hs i name of None \<Rightarrow> False | Some h \<Rightarrow> mh_new h = FNone)"

definition restored_gps :: "int \<Rightarrow> bool \<Rightarrow> unit step" where
  "restored_gps i extracted =
     then_do (read_step (\<lambda>s. (gps_of (metadata_of (core (px_db s)) i), histories (core (px_db s))))) (\<lambda>(persisted, hs).
     then_do (when_do (extracted \<and> persisted = None)
        (if user_cleared hs i ''gps_lat'' \<and> user_cleared hs i ''gps_lon'' then log_message ''GPS_RESTORE_USER_CLEAR_PRESERVED''
         else then_do (log_message ''GPS_RESTORE_PERSISTENCE_FAILED'')
                (\<lambda>_. fail_step (Failure ''restored GPS metadata was not persisted'')))) (\<lambda>_.
     then_do (set_context (\<lambda>c. c\<lparr>cx_gps := persisted\<rparr>)) (\<lambda>_.
       when_do (persisted \<noteq> None \<and> (user_decision hs i ''gps_lat'' \<noteq> None \<or> user_decision hs i ''gps_lon'' \<noteq> None))
         (log_message ''GPS_RESTORE_USER_VALUE_PRESERVED''))))"

definition exif_body :: "pipe_env \<Rightarrow> int \<Rightarrow> unit step" where
  "exif_body env i =
     then_do (read_exif env) (\<lambda>x.
     then_do (set_context (\<lambda>c. c\<lparr>cx_gps := exif_gps x\<rparr>)) (\<lambda>_.
     then_do (read_step (\<lambda>s. px_cx s)) (\<lambda>cx.
     then_do (change_core (upsert_fields i (plugin_upsert ''EXIF'' ''ExifPlugin'' (ex_values x) (cx_restore cx)))) (\<lambda>_.
     then_do (change_core (set_original_capture ''ExifPlugin'' i (ex_captured x))) (\<lambda>_.
     then_do (when_do (cx_restore cx) (restored_gps i (exif_gps x \<noteq> None))) (\<lambda>_.
     then_do (read_step (\<lambda>s. (mk_linked (core (px_db s)) i, metadata_of (core (px_db s)) i))) (\<lambda>(linked, m).
     then_do (when_do (is_mk_service (cx_service cx) \<and> linked) (sync_capture env i m False)) (\<lambda>_.
     then_do (read_step (\<lambda>s. cx_gps (px_cx s) \<noteq> None)) (\<lambda>has_gps.
       when_do (\<not> (cx_restore cx \<and> has_gps)) commit)))))))))"

definition exif_plugin :: "pipe_env \<Rightarrow> unit step" where
  "exif_plugin env =
     on_file (\<lambda>i. then_do (read_step (\<lambda>s. cx_original (px_cx s) = None)) (\<lambda>missing.
       then_do (when_do missing (fail_step (Failure ''original_path is required before EXIF extraction''))) (\<lambda>_.
       then_do (handle (exif_body env i) (\<lambda>e. then_do rollback (\<lambda>_. fail_step e)))
         (\<lambda>_. log_message ''EXIF_COMPLETE'')))) ''common_file is required before EXIF extraction''"

section \<open>GpsPlugin\<close>

text \<open>The cache keeps the address under the rounded position; saving it commits the session.\<close>

definition geocode_step :: "pipe_env \<Rightarrow> real \<Rightarrow> real \<Rightarrow> address step" where
  "geocode_step env lat lon =
     (let key = (pv_round env lat, pv_round env lon) in
      then_do (read_step (\<lambda>s. map_of (px_geocache s) key)) (\<lambda>cached.
        case cached of
          Some a \<Rightarrow> then_do (log_message ''GPS_CACHE_HIT'') (\<lambda>_. return_step (a\<lparr>ad_lat := fst key, ad_lon := snd key\<rparr>))
        | None \<Rightarrow>
            (case pv_geocode env lat lon of
               Inl message \<Rightarrow> fail_step (Failure message)
             | Inr a \<Rightarrow>
                 then_do (change_step (\<lambda>s. s\<lparr>px_geocache := (key, a) # px_geocache s\<rparr>)) (\<lambda>_.
                 then_do commit (\<lambda>_. then_do (log_message ''GPS_CACHE_MISS'') (\<lambda>_. return_step a))))))"

definition address_values :: "address \<Rightarrow> (string \<times> field_value) list" where
  "address_values a = [(''country'', opt_text (ad_country a)), (''province'', opt_text (ad_province a)), (''city'', opt_text (ad_city a)),
     (''district'', opt_text (ad_district a)), (''place_name'', opt_text (ad_place a)), (''gps_lat'', FReal (ad_lat a)),
     (''gps_lon'', FReal (ad_lon a))]"

definition gps_body :: "pipe_env \<Rightarrow> int \<Rightarrow> bool \<Rightarrow> real \<Rightarrow> real \<Rightarrow> unit step" where
  "gps_body env i restore lat lon =
     then_do (geocode_step env lat lon) (\<lambda>a.
     then_do (change_core (upsert_fields i (plugin_upsert ''GPS'' ''GpsPlugin'' (address_values a) restore))) (\<lambda>_.
     then_do (when_do (\<not> restore) commit) (\<lambda>_.
     then_do (read_step (\<lambda>s. gps_of (metadata_of (core (px_db s)) i))) (\<lambda>persisted.
     then_do (when_do restore
        (if persisted = None
         then then_do (log_message ''GPS_RESTORE_PERSISTENCE_FAILED'')
                (\<lambda>_. fail_step (Failure ''restored GPS metadata was not persisted''))
         else log_message ''GPS_RESTORE_PERSISTED'')) (\<lambda>_.
     then_do (auto_match_step env i) (\<lambda>matched.
     then_do (log_message (if matched then ''MEMORYKEEPER_PLACE_MATCHED'' else ''MEMORYKEEPER_PLACE_UNMATCHED'')) (\<lambda>_.
     then_do (when_do restore commit) (\<lambda>_. log_message ''GPS_COMPLETE''))))))))"

definition gps_plugin :: "pipe_env \<Rightarrow> unit step" where
  "gps_plugin env =
     then_do (read_step (\<lambda>s. px_cx s)) (\<lambda>cx.
       case cx_gps cx of
         None \<Rightarrow> log_message ''GPS_SKIPPED''
       | Some (lat, lon) \<Rightarrow>
           (case cx_file cx of
              None \<Rightarrow> log_message ''GPS_FAILED:common_file is required''
            | Some i \<Rightarrow> handle (gps_body env i (cx_restore cx) lat lon) (\<lambda>e.
                 then_do (log_message (''GPS_FAILED:'' @ error_text e)) (\<lambda>_.
                   when_do (cx_restore cx) (then_do rollback (\<lambda>_. fail_step e))))))"

section \<open>The plugin manager\<close>

type_synonym plugin = "string \<times> nat \<times> (pipe_env \<Rightarrow> unit step)"

text \<open>The upload plugins in the order their modules are imported, with their priority.\<close>

definition registered_plugins :: "plugin list" where
  "registered_plugins = [(''ExifPlugin'', 50, exif_plugin), (''GpsPlugin'', 60, gps_plugin), (''HashPlugin'', 10, hash_plugin),
     (''MetadataPlugin'', 40, metadata_plugin), (''PreviewPlugin'', 20, preview_plugin), (''StoragePlugin'', 30, storage_plugin)]"

definition load_plugins :: "plugin list" where
  "load_plugins = sort_key (\<lambda>(_, priority, _). priority) registered_plugins"

definition failure_history :: "int \<Rightarrow> string \<Rightarrow> pipe_error \<Rightarrow> mk_history" where
  "failure_history i plugin e = \<lparr>mh_file = i, mh_field = ''plugin_error'', mh_old = FNone,
     mh_new = FText (plugin @ '': '' @ error_text e), mh_source = ''SYSTEM'', mh_priority = source_priority ''SYSTEM'',
     mh_modified_by = ''worker'', mh_approved = False\<rparr>"

definition save_failure :: "string \<Rightarrow> pipe_error \<Rightarrow> unit step" where
  "save_failure plugin e =
     then_do (read_step (\<lambda>s. cx_file (px_cx s))) (\<lambda>i.
       case i of
         None \<Rightarrow> return_step ()
       | Some i \<Rightarrow> then_do (change_core (add_histories [failure_history i plugin e])) (\<lambda>_. commit))"

definition plugin_failed :: "string \<Rightarrow> pipe_error \<Rightarrow> unit step" where
  "plugin_failed plugin e =
     then_do (log_message (''PLUGIN_FAILED '' @ plugin @ '' v1.0.0:'' @ error_text e)) (\<lambda>_.
     then_do (case e of Rejected _ _ \<Rightarrow> return_step () | Failure _ \<Rightarrow> save_failure plugin e) (\<lambda>_. fail_step e))"

fun run_plugins :: "pipe_env \<Rightarrow> plugin list \<Rightarrow> unit step" where
  "run_plugins env [] = return_step ()"
| "run_plugins env ((plugin, priority, run) # rest) =
     then_do (read_step (\<lambda>s. cx_stop (px_cx s))) (\<lambda>stop.
       if stop then return_step ()
       else then_do (log_message (''PLUGIN_START '' @ plugin @ '' v1.0.0'')) (\<lambda>_.
            then_do (handle (then_do (run env) (\<lambda>_. log_message (''PLUGIN_COMPLETE '' @ plugin @ '' v1.0.0''))) (plugin_failed plugin))
              (\<lambda>_. run_plugins env rest)))"

section \<open>One job\<close>

definition extract_original_name :: "string \<Rightarrow> string \<Rightarrow> string" where
  "extract_original_name incoming_name job_id =
     (let prefix = job_id @ ''_'' in if starts_with prefix incoming_name then drop (length prefix) incoming_name else incoming_name)"

definition job_service :: "upload_job \<Rightarrow> string" where
  "job_service j = (if uj_service j = [] then memorykeeper else uj_service j)"

definition start_context :: "upload_job \<Rightarrow> path \<Rightarrow> string \<Rightarrow> media_info \<Rightarrow> (string \<times> string) list \<Rightarrow> pipe_context" where
  "start_context j p name media metadata =
     \<lparr>cx_job = uj_job_id j, cx_service = job_service j, cx_mobile = (uj_source j = ''UPLOAD_MOBILE''), cx_incoming = uj_incoming j,
      cx_path = p, cx_original_name = name, cx_media = media, cx_width = mi_width media, cx_height = mi_height media,
      cx_metadata = metadata, cx_file_id = [], cx_size = 0, cx_preview = None, cx_thumb = None, cx_original = None,
      cx_file = None, cx_restore = False, cx_stop = False, cx_gps = None\<rparr>"

definition open_job :: "pipe_env \<Rightarrow> upload_job \<Rightarrow> unit step" where
  "open_job env j s =
     (case resolve_storage_path (pv_storage env) (uj_incoming j) of
        Inl e \<Rightarrow> (Fails (storage_failure env e), s)
      | Inr p \<Rightarrow>
          (let name = extract_original_name (if p = [] then [] else last p) (uj_job_id j) in
           case pv_probe env p name (job_service j) (px_disk s) of
             Inl message \<Rightarrow> (Fails (Failure message), s)
           | Inr media \<Rightarrow> (Done (), s\<lparr>px_cx := start_context j p name media (pv_metadata env (uj_log j))\<rparr>)))"

definition enqueue_vision_step :: "pipe_env \<Rightarrow> unit step" where
  "enqueue_vision_step env s =
     (case Option.bind (cx_file (px_cx s)) (\<lambda>i. find_row cf_id i (files (base (core (px_db s))))) of
        None \<Rightarrow> (Done (), s)
      | Some f \<Rightarrow> vision_result (enqueue_vision_job (Some (mi_category (cx_media (px_cx s)))) (cx_preview (px_cx s) \<noteq> None)
          (cx_gps (px_cx s) \<noteq> None) (pv_vision_id env) (pv_now env) f (vision_jobs (base (core (px_db s))))) s)"

definition job_rows :: "pipe \<Rightarrow> upload_job list" where
  "job_rows s = upload_jobs (base (core (px_db s)))"

definition put_jobs :: "upload_job list \<Rightarrow> unit step" where
  "put_jobs rows = set_db (with_base (\<lambda>b. b\<lparr>upload_jobs := rows\<rparr>))"

definition complete_step :: "pipe_env \<Rightarrow> upload_job \<Rightarrow> unit step" where
  "complete_step env j =
     then_do (read_step (\<lambda>s. (px_cx s, job_rows s))) (\<lambda>(cx, rows).
       let (done, rows') = uj_mark_completed (or_else (uj_get (uj_job_id j) rows) j) (cx_file_id cx) (pv_now env) rows
       in if done = None
          then fail_step (Failure (''Upload job completed by another worker or invalid state: '' @ uj_job_id j))
          else then_do (put_jobs rows') (\<lambda>_. commit))"

definition process_upload_job :: "pipe_env \<Rightarrow> upload_job \<Rightarrow> unit step" where
  "process_upload_job env j =
     then_do (open_job env j) (\<lambda>_.
     then_do (log_message (''SERVICE_NAME '' @ job_service j)) (\<lambda>_.
     then_do (run_plugins env load_plugins) (\<lambda>_.
     then_do (read_step (\<lambda>s. px_cx s)) (\<lambda>cx.
       if cx_file cx = None then fail_step (Failure ''Plugin pipeline completed without common_file'')
       else then_do (when_do (\<not> cx_stop cx) (enqueue_vision_step env)) (\<lambda>_. complete_step env j)))))"

text \<open>A failed job keeps the log it had when it failed.\<close>

definition record_failure :: "pipe_env \<Rightarrow> upload_job \<Rightarrow> pipe_error \<Rightarrow> unit step" where
  "record_failure env j e =
     then_do (read_step (\<lambda>s. Option.bind (uj_get (uj_job_id j) (job_rows s)) uj_log)) (\<lambda>snapshot.
     then_do rollback (\<lambda>_.
     then_do (read_step job_rows) (\<lambda>rows.
       let fresh = or_else (uj_get (uj_job_id j) rows) j;
           fresh = (if snapshot = None \<or> snapshot = Some [] then fresh else fresh\<lparr>uj_log := snapshot\<rparr>)
       in then_do (put_jobs (snd (uj_mark_failed fresh (error_text e) (pv_now env) rows))) (\<lambda>_. commit))))"

definition process_next_job :: "pipe_env \<Rightarrow> int list \<Rightarrow> string \<Rightarrow> bool step" where
  "process_next_job env locked worker_id =
     then_do rollback (\<lambda>_.
     then_do (read_step job_rows) (\<lambda>rows.
       let (claimed, rows') = uj_claim_postgres locked worker_id (pv_now env) rows
       in case claimed of
            None \<Rightarrow> return_step False
          | Some j \<Rightarrow>
              then_do (put_jobs rows') (\<lambda>_.
              then_do commit (\<lambda>_.
              then_do (handle (process_upload_job env j) (record_failure env j)) (\<lambda>_. return_step True)))))"

end
