(* ===== verification/PipelineSteps.thy ===== *)
theory PipelineSteps
  imports UploadPipeline PlaceInvariant
begin

text \<open>
  Rules for the steps of the upload worker. \<open>preserves I m\<close>: whatever \<open>m\<close> does - return, raise or
  die -, \<open>I\<close> still holds; one rule per combinator, collected in \<open>step_intros\<close>. The two invariants
  used are the frame of the later plugins, which see neither the file rows and links nor the
  fields of the context that name the file, and the status of the jobs, which no plugin writes.
\<close>

section \<open>Rules\<close>

definition preserves :: "(pipe \<Rightarrow> bool) \<Rightarrow> 'a step \<Rightarrow> bool" where
  "preserves I m \<longleftrightarrow> (\<forall>s. I s \<longrightarrow> I (snd (m s)))"

named_theorems step_intros "how a step preserves an invariant"

lemma preservesD: "preserves I m \<Longrightarrow> m s = (r, s') \<Longrightarrow> I s \<Longrightarrow> I s'"
  by (metis preserves_def snd_conv)

lemma preserves_return [step_intros]: "preserves I (return_step x)"
  and preserves_fail [step_intros]: "preserves I (fail_step e)"
  and preserves_read [step_intros]: "preserves I (read_step f)"
  by (simp_all add: preserves_def return_step_def fail_step_def read_step_def)

lemma preserves_then [step_intros]:
  assumes "preserves I m" and "\<And>x. preserves I (f x)"
  shows "preserves I (then_do m f)"
  using assms unfolding preserves_def then_do_def by (fastforce split: prod.splits outcome.splits)

lemma preserves_handle [step_intros]:
  assumes "preserves I m" and "\<And>e. preserves I (h e)"
  shows "preserves I (handle m h)"
  using assms unfolding preserves_def handle_def by (fastforce split: prod.splits outcome.splits)

lemma preserves_when [step_intros]: "preserves I m \<Longrightarrow> preserves I (when_do b m)"
  by (simp add: when_do_def preserves_return)

lemma preserves_each [step_intros]: "(\<And>x. preserves I (f x)) \<Longrightarrow> preserves I (each_do f xs)"
  by (induction xs) (auto intro!: step_intros)

lemma preserves_if [step_intros]: "preserves I m \<Longrightarrow> preserves I n \<Longrightarrow> preserves I (if b then m else n)"
  by simp

lemma preserves_option [step_intros]:
  "preserves I m \<Longrightarrow> (\<And>x. preserves I (n x)) \<Longrightarrow> preserves I (case y of None \<Rightarrow> m | Some x \<Rightarrow> n x)"
  by (cases y) simp_all

lemma preserves_prod [step_intros]: "(\<And>a b. preserves I (f a b)) \<Longrightarrow> preserves I (case p of (a, b) \<Rightarrow> f a b)"
  by (cases p) simp

lemma preserves_sum [step_intros]:
  "(\<And>x. preserves I (m x)) \<Longrightarrow> (\<And>x. preserves I (n x)) \<Longrightarrow> preserves I (case y of Inl x \<Rightarrow> m x | Inr x \<Rightarrow> n x)"
  by (cases y) simp_all

lemma preserves_error [step_intros]:
  "(\<And>c m. preserves I (f c m)) \<Longrightarrow> (\<And>m. preserves I (g m)) \<Longrightarrow> preserves I (case e of Rejected c m \<Rightarrow> f c m | Failure m \<Rightarrow> g m)"
  by (cases e) simp_all

lemma preserves_change: "(\<And>s. I s \<Longrightarrow> I (f s)) \<Longrightarrow> preserves I (change_step f)"
  by (simp add: preserves_def change_step_def)

section \<open>Views of the tables\<close>

text \<open>An invariant that speaks of a view of the session and of what is committed.\<close>

definition both :: "(tag_state \<Rightarrow> 'b) \<Rightarrow> 'b \<Rightarrow> pipe \<Rightarrow> bool" where
  "both v x s \<longleftrightarrow> v (px_db s) = x \<and> v (px_saved s) = x"

definition file_view :: "tag_state \<Rightarrow> common_file list \<times> file_service_link list" where
  "file_view d = (files (base (core d)), links (base (core d)))"

definition job_view :: "tag_state \<Rightarrow> (int \<times> string \<times> job_status) list" where
  "job_view d = map (\<lambda>j. (uj_id j, uj_job_id j, uj_status j)) (upload_jobs (base (core d)))"

definition named_file :: "pipe \<Rightarrow> int option \<times> string \<times> string \<times> string \<times> bool \<times> bool" where
  "named_file s = (cx_file (px_cx s), cx_file_id (px_cx s), cx_service (px_cx s), cx_job (px_cx s), cx_restore (px_cx s), cx_stop (px_cx s))"

lemma core_views:
  "file_view (with_core f d) = (files (base (f (core d))), links (base (f (core d))))"
  "job_view (with_core f d) = map (\<lambda>j. (uj_id j, uj_job_id j, uj_status j)) (upload_jobs (base (f (core d))))"
  by (simp_all add: file_view_def job_view_def with_core_def)

lemma on_job_views: "file_view (on_job i (uj_append_log m) d) = file_view d" "job_view (on_job i (uj_append_log m) d) = job_view d"
proof -
  have "map (\<lambda>j. (uj_id j, uj_job_id j, uj_status j)) (update_where P (uj_append_log m) rows) = map (\<lambda>j. (uj_id j, uj_job_id j, uj_status j)) rows" for P rows
    by (simp add: update_where_def uj_append_log_def)
  then show "job_view (on_job i (uj_append_log m) d) = job_view d" by (simp add: on_job_def with_base_def core_views) (simp add: job_view_def)
qed (simp add: on_job_def with_base_def core_views, simp add: file_view_def)

section \<open>Primitives\<close>

text \<open>Both invariants below are closed under these.\<close>

locale frame =
  fixes I :: "pipe \<Rightarrow> bool"
  assumes commits: "I s \<Longrightarrow> I (s\<lparr>px_saved := px_db s\<rparr>)"
    and rolls_back: "I s \<Longrightarrow> I (s\<lparr>px_db := px_saved s\<rparr>)"
    and disk_free: "I s \<Longrightarrow> I (s\<lparr>px_disk := k\<rparr>)"
    and cache_free: "I s \<Longrightarrow> I (s\<lparr>px_geocache := g\<rparr>)"
    and same_views: "I s \<Longrightarrow> file_view d = file_view (px_db s) \<Longrightarrow> job_view d = job_view (px_db s) \<Longrightarrow> I (s\<lparr>px_db := d\<rparr>)"
    and same_name: "I s \<Longrightarrow> named_file (s\<lparr>px_cx := c\<rparr>) = named_file s \<Longrightarrow> I (s\<lparr>px_cx := c\<rparr>)"
begin

lemma commit_kept: "preserves I commit" and rollback_kept: "preserves I rollback"
  by (simp_all add: commit_def rollback_def preserves_change commits rolls_back)

lemma log_kept: "preserves I (log_message m)"
  unfolding log_message_def by (rule preserves_change) (simp add: same_views on_job_views)

lemma logs_kept: "preserves I (each_do log_message ms)"
  by (intro step_intros log_kept)

lemma core_kept:
  assumes "\<And>c. files (base (f c)) = files (base c) \<and> links (base (f c)) = links (base c) \<and> upload_jobs (base (f c)) = upload_jobs (base c)"
  shows "preserves I (change_core f)"
  unfolding change_core_def set_db_def
  by (rule preserves_change, rule same_views, assumption) (simp_all add: core_views assms, simp_all add: file_view_def job_view_def)

lemma context_kept:
  assumes "\<And>c. cx_file (f c) = cx_file c \<and> cx_file_id (f c) = cx_file_id c \<and> cx_service (f c) = cx_service c \<and> cx_job (f c) = cx_job c \<and>
    cx_restore (f c) = cx_restore c \<and> cx_stop (f c) = cx_stop c"
  shows "preserves I (set_context f)"
  unfolding set_context_def by (rule preserves_change, rule same_name, assumption) (simp add: named_file_def assms)

lemma vision_kept: "preserves I (vision_result r)"
proof -
  have "preserves I (set_db (with_base (\<lambda>b. b\<lparr>vision_jobs := rows\<rparr>)))" for rows
    unfolding set_db_def with_base_def
    by (rule preserves_change, rule same_views, assumption) (simp_all add: core_views, simp_all add: file_view_def job_view_def)
  then show ?thesis unfolding vision_result_def by (intro step_intros commit_kept log_kept)
qed

lemma sync_kept: "preserves I (sync_capture env i m known)"
proof -
  have "I (s\<lparr>px_db := with_core (\<lambda>_. c) (px_db s)\<rparr>)" if "I s" "synchronize now f m st (core (px_db s)) = Some c" for s c now f st
  proof -
    have "base c = base (core (px_db s))" using that(2) by (auto simp: synchronize_def put_state_def Let_def)
    then show ?thesis by (intro same_views[OF that(1)]) (simp_all add: core_views, simp_all add: file_view_def job_view_def)
  qed
  then show ?thesis unfolding preserves_def sync_capture_def Let_def by (auto split: option.splits)
qed

lemma drop_kept: "preserves I (drop_incoming env)"
  unfolding preserves_def drop_incoming_def by (auto simp: disk_free split: prod.splits sum.splits)

lemma reject_kept: "preserves I (reject_upload env code message)"
  unfolding reject_upload_def by (intro step_intros log_kept drop_kept)

end

text \<open>Automatic matching writes places, metadata, histories and the feed.\<close>

lemma set_relation_base:
  "set_relation now m place source distance touch d = Inr d' \<Longrightarrow>
     files (base d') = files (base d) \<and> links (base d') = links (base d) \<and> upload_jobs (base d') = upload_jobs (base d)"
  by (auto simp: set_relation_def write_relation_def Let_def put_metadata_def add_histories_def file_place_change_def mk_change_def
      append_change_def touch_usage_def raise_if_def split: option.splits if_splits)

lemma resolve_candidate_base:
  "resolve_candidate now i c lat lon d = Inr (d', p, created, source) \<Longrightarrow>
     files (base d') = files (base d) \<and> links (base d') = links (base d) \<and> upload_jobs (base d') = upload_jobs (base d)"
  by (auto simp: resolve_candidate_def insert_place_def place_change_def mk_change_def append_change_def Let_def
      split: option.splits if_splits)

lemma auto_match_base:
  assumes "auto_match_file now i pick row create d = Inr (d', b)"
  shows "files (base d') = files (base d) \<and> links (base d') = links (base d) \<and> upload_jobs (base d') = upload_jobs (base d)"
  using assms
  by (auto simp: auto_match_file_def Let_def dest!: set_relation_base resolve_candidate_base split: option.splits if_splits)

context frame
begin

lemma match_kept: "preserves I (auto_match_step env i)"
proof -
  have "preserves I (match_place_step env i)"
  proof -
    have "I (s\<lparr>px_db := with_core (\<lambda>_. c) (px_db s)\<rparr>)" if "I s" "auto_match_file now j pick i True (core (px_db s)) = Inr (c, b)" for s c b now j pick
      using auto_match_base[OF that(2)] by (intro same_views[OF that(1)]) (simp_all add: core_views, simp_all add: file_view_def job_view_def)
    then show ?thesis unfolding preserves_def match_place_step_def by (auto split: sum.splits)
  qed
  then show ?thesis unfolding auto_match_step_def by (intro step_intros commit_kept)
qed

lemma match_log_kept: "preserves I (match_and_log env i)"
  unfolding match_and_log_def by (intro step_intros match_kept log_kept)

lemma reuse_kept: "preserves I (reuse_vision_step env f)"
  using vision_kept unfolding preserves_def reuse_vision_step_def by blast

lemma upsert_base:
  "files (base (upsert_fields i u c)) = files (base c) \<and> links (base (upsert_fields i u c)) = links (base c) \<and>
     upload_jobs (base (upsert_fields i u c)) = upload_jobs (base c)"
  by (simp add: upsert_fields_def Let_def ensure_metadata_def insert_metadata_def save_metadata_def add_histories_def split: option.splits prod.splits)

lemma capture_base:
  "files (base (set_original_capture who i t c)) = files (base c) \<and> links (base (set_original_capture who i t c)) = links (base c) \<and>
     upload_jobs (base (set_original_capture who i t c)) = upload_jobs (base c)"
  by (simp add: set_original_capture_def save_metadata_def add_histories_def split: option.splits)

lemma on_file_kept: "(\<And>i. preserves I (m i)) \<Longrightarrow> preserves I (on_file m message)"
  unfolding on_file_def by (intro step_intros)

lemma metadata_kept: "preserves I (metadata_plugin env)"
  unfolding metadata_plugin_def by (intro step_intros on_file_kept log_kept core_kept upsert_base)

lemma restored_gps_kept: "preserves I (restored_gps i extracted)"
  unfolding restored_gps_def by (intro step_intros log_kept context_kept) simp_all

lemma read_exif_kept: "preserves I (read_exif env)"
  unfolding preserves_def read_exif_def by (auto split: option.splits sum.splits)

lemma exif_kept: "preserves I (exif_plugin env)"
  unfolding exif_plugin_def exif_body_def
  by (intro step_intros on_file_kept log_kept commit_kept rollback_kept core_kept upsert_base capture_base restored_gps_kept
      read_exif_kept sync_kept context_kept) simp_all

lemma geocode_kept: "preserves I (geocode_step env lat lon)"
  unfolding geocode_step_def Let_def
  by (intro step_intros log_kept commit_kept preserves_change) (rule cache_free)

lemma gps_kept: "preserves I (gps_plugin env)"
  unfolding gps_plugin_def gps_body_def
  by (intro step_intros log_kept commit_kept rollback_kept core_kept upsert_base geocode_kept match_kept)

lemma failed_kept: "preserves I (plugin_failed plugin e)"
  unfolding plugin_failed_def save_failure_def
  by (intro step_intros log_kept commit_kept core_kept) (simp add: add_histories_def)

lemma derive_kept: "preserves I (derive_step env)"
  unfolding preserves_def derive_step_def by (auto simp: disk_free split: prod.splits sum.splits)

lemma preview_kept: "preserves I (preview_plugin env)"
  unfolding preview_plugin_def by (intro step_intros log_kept derive_kept context_kept) simp_all

lemma enqueue_kept: "preserves I (enqueue_vision_step env)"
  using vision_kept unfolding preserves_def enqueue_vision_step_def by (simp split: option.splits)

lemma choose_kept: "preserves I (choose_directory env)"
  unfolding choose_directory_def by (intro step_intros logs_kept)

lemma or_failure_kept: "preserves I (or_storage_failure env r)"
  unfolding or_storage_failure_def by (intro step_intros)

lemma destination_kept: "preserves I (destination_root env cx)"
  unfolding destination_root_def by (intro step_intros or_failure_kept)

lemma move_kept: "preserves I (move_step env dir dest)"
  unfolding preserves_def move_step_def by (auto simp: disk_free split: prod.splits run.splits)

lemma relative_kept: "preserves I (relative_step env p)"
  unfolding relative_step_def by (intro step_intros or_failure_kept)

lemma log_link_kept: "preserves I (log_link created)"
  unfolding log_link_def by (rule log_kept)

lemma drop_losing_kept: "preserves I (drop_losing_original env f own)"
  unfolding preserves_def drop_losing_original_def Let_def by (auto simp: disk_free split: option.splits sum.splits prod.splits)

end

section \<open>Steps that write files and links\<close>

text \<open>What speaks of the jobs alone also survives the plugins that write file rows and links.\<close>

locale job_frame = frame +
  assumes files_free: "I s \<Longrightarrow> job_view d = job_view (px_db s) \<Longrightarrow> I (s\<lparr>px_db := d\<rparr>)"
    and rows_free: "I s \<Longrightarrow> job_view d = job_view (px_db s) \<Longrightarrow> job_view d' = job_view (px_saved s) \<Longrightarrow> I (s\<lparr>px_db := d, px_saved := d'\<rparr>)"
    and context_free: "I s \<Longrightarrow> cx_service c = cx_service (px_cx s) \<Longrightarrow> cx_job c = cx_job (px_cx s) \<Longrightarrow> I (s\<lparr>px_cx := c\<rparr>)"
begin

lemma any_context_kept:
  assumes "\<And>c. cx_service (f c) = cx_service c \<and> cx_job (f c) = cx_job c"
  shows "preserves I (set_context f)"
  unfolding set_context_def by (rule preserves_change) (simp add: context_free assms)

lemma link_kept: "preserves I (link_file env i service)"
proof -
  have "job_view (with_core (\<lambda>c. c\<lparr>base := b, linked_at := g c\<rparr>) d) = job_view d" if "ensure_link stale i service (base (core d)) = Inr ((l, c), b)" for d b g stale l c
  proof -
    have "upload_jobs b = upload_jobs (base (core d))" using ensure_link_result[OF that] by (auto split: if_splits)
    then show ?thesis by (simp add: core_views) (simp add: job_view_def)
  qed
  then show ?thesis unfolding preserves_def link_file_def by (auto intro!: files_free split: sum.splits)
qed

lemma project_link_kept: "preserves I (project_link env i service load created)"
  unfolding project_link_def by (intro step_intros sync_kept)

lemma link_and_project_kept: "preserves I (link_and_project env i load allow)"
  unfolding link_and_project_def by (intro step_intros link_kept rollback_kept commit_kept reject_kept project_link_kept)

lemma use_existing_kept: "preserves I (use_existing env f)"
  unfolding use_existing_def
  by (intro step_intros reject_kept link_and_project_kept any_context_kept drop_kept log_kept log_link_kept reuse_kept match_log_kept) simp_all

lemma hash_incoming_kept: "preserves I (hash_incoming env)"
proof -
  have "preserves I (then_do (set_context (\<lambda>c. c\<lparr>cx_size := n, cx_file_id := sha\<rparr>)) (\<lambda>_. log_message m))" for n sha m
    by (intro step_intros any_context_kept log_kept) simp
  then show ?thesis by (auto simp: preserves_def hash_incoming_def split: option.splits)
qed

lemma hash_kept: "preserves I (hash_plugin env)"
  unfolding hash_plugin_def
  by (intro step_intros hash_incoming_kept reject_kept log_kept any_context_kept use_existing_kept) simp_all

lemma change_files_kept: "preserves I (change_files f)"
  unfolding change_files_def set_db_def with_base_def
  by (rule preserves_change, rule files_free, assumption) (simp add: core_views, simp add: job_view_def)

lemma insert_file_kept: "preserves I (insert_file env stored)"
proof -
  define rivals where "rivals = (case pv_rival env of None \<Rightarrow> id | Some r \<Rightarrow> with_base (\<lambda>b. b\<lparr>files := files b @ [r]\<rparr>))"
  have rows: "job_view (rivals d) = job_view d" for d
    by (simp add: rivals_def with_base_def core_views split: option.splits) (simp add: job_view_def)
  have "preserves I (then_do rollback (\<lambda>_. return_step False))"
      and "preserves I (then_do (change_files (\<lambda>fs. fs @ [stored])) (\<lambda>_. then_do commit (\<lambda>_. return_step True)))"
    by (intro step_intros rollback_kept commit_kept change_files_kept)+
  moreover have "I (s\<lparr>px_db := rivals (px_db s), px_saved := rivals (px_saved s)\<rparr>)" if "I s" for s
    using that by (intro rows_free rows)
  ultimately show ?thesis unfolding preserves_def insert_file_def rivals_def[symmetric] Let_def by simp
qed

lemma lost_race_kept: "preserves I (lost_race_step env own)"
  unfolding lost_race_step_def
  by (intro step_intros drop_losing_kept any_context_kept reject_kept link_and_project_kept log_kept log_link_kept match_log_kept) simp_all

lemma storage_kept: "preserves I (storage_plugin env)"
  unfolding storage_plugin_def restore_step_def create_step_def
  by (intro step_intros choose_kept destination_kept move_kept any_context_kept log_kept relative_kept change_files_kept commit_kept
      link_and_project_kept log_link_kept insert_file_kept lost_race_kept) simp_all

end

section \<open>Instances\<close>

text \<open>The jobs of the session and of what is committed, and what the context says of the job.\<close>

definition of_job :: "(int \<times> string \<times> job_status) list \<Rightarrow> string \<Rightarrow> string \<Rightarrow> pipe \<Rightarrow> bool" where
  "of_job x service job s \<longleftrightarrow> both job_view x s \<and> cx_service (px_cx s) = service \<and> cx_job (px_cx s) = job"

interpretation jobs: job_frame "of_job x service job" for x service job
  by unfold_locales (auto simp: of_job_def both_def named_file_def)

interpretation stopped: frame "\<lambda>s. cx_stop (px_cx s)"
  by unfold_locales (auto simp: named_file_def)

lemma frame_conj: "frame I \<Longrightarrow> frame J \<Longrightarrow> frame (\<lambda>s. I s \<and> J s)"
  unfolding frame_def by simp

end
