(* ===== verification/PipelineLaws.thy ===== *)
theory PipelineLaws
  imports PipelineSteps
begin

text \<open>
  What the upload worker promises for the job it claimed: the job ends, and when it ends as
  completed, the content that was uploaded has a live file row, linked to the service of the job.
\<close>

section \<open>Steps that return\<close>

lemma then_done: "then_do m f s = (Done y, s') \<longleftrightarrow> (\<exists>x t. m s = (Done x, t) \<and> f x t = (Done y, s'))"
  by (auto simp: then_do_def split: prod.splits outcome.splits)

lemma step_done [simp]:
  "return_step x s = (Done y, s') \<longleftrightarrow> y = x \<and> s' = s" "fail_step e s \<noteq> (Done y, s')" "read_step f s = (Done z, s') \<longleftrightarrow> z = f s \<and> s' = s"
  "change_step g s = (Done u, s') \<longleftrightarrow> s' = g s"
  by (auto simp: return_step_def fail_step_def read_step_def change_step_def)

lemma when_done: "when_do b m s = (Done u, s') \<longleftrightarrow> (if b then m s = (Done u, s') else s' = s)"
  by (simp add: when_do_def)

lemma handle_done: "handle m h s = (Done y, s') \<longleftrightarrow> m s = (Done y, s') \<or> (\<exists>e t. m s = (Fails e, t) \<and> h e t = (Done y, s'))"
  by (auto simp: handle_def split: prod.splits outcome.splits)

lemma refail_done: "then_do m (\<lambda>_. fail_step e) s \<noteq> (Done y, s')"
  by (simp add: then_done)

lemma reject_done: "reject_upload env c m s \<noteq> (Done y, s')"
  by (simp add: reject_upload_def then_done)

lemma basic_done:
  "commit s = (Done u, s') \<longleftrightarrow> s' = s\<lparr>px_saved := px_db s\<rparr>" "rollback s = (Done u, s') \<longleftrightarrow> s' = s\<lparr>px_db := px_saved s\<rparr>"
  "set_context f s = (Done u, s') \<longleftrightarrow> s' = s\<lparr>px_cx := f (px_cx s)\<rparr>" "set_db g s = (Done u, s') \<longleftrightarrow> s' = s\<lparr>px_db := g (px_db s)\<rparr>"
  by (simp_all add: commit_def rollback_def set_context_def set_db_def)

section \<open>Where a step leaves the file\<close>

text \<open>The content is stored: the session and what is committed hold a live file row of it, linked to the service.\<close>

definition ready :: "string \<Rightarrow> string \<Rightarrow> pipe \<Rightarrow> bool" where
  "ready sha service s \<longleftrightarrow> cx_file_id (px_cx s) = sha \<and> (\<exists>fs ls f. both file_view (fs, ls) s \<and> f \<in> set fs \<and>
     cx_file (px_cx s) = Some (cf_id f) \<and> cf_file_id f = sha \<and> \<not> cf_deleted f \<and> \<lparr>fs_file = cf_id f, fs_service = service\<rparr> \<in> set ls)"

text \<open>Before it is stored: the context names a tombstone of the content, or there is no row of it.\<close>

definition unstored :: "string \<Rightarrow> string \<Rightarrow> bool \<Rightarrow> pipe \<Rightarrow> bool" where
  "unstored sha service restore s \<longleftrightarrow> \<not> cx_stop (px_cx s) \<and> cx_file_id (px_cx s) = sha \<and> cx_service (px_cx s) = service \<and>
     cx_restore (px_cx s) = restore \<and> (\<exists>fs ls. both file_view (fs, ls) s \<and> distinct (map cf_id fs) \<and>
       (if restore then \<exists>f \<in> set fs. cx_file (px_cx s) = Some (cf_id f) \<and> cf_file_id f = sha
        else \<forall>f \<in> set fs. cf_file_id f \<noteq> sha))"

lemma both_frame:
  "both file_view x s \<Longrightarrow> both file_view x (s\<lparr>px_saved := px_db s\<rparr>)" "both file_view x s \<Longrightarrow> both file_view x (s\<lparr>px_db := px_saved s\<rparr>)"
  "both file_view x (s\<lparr>px_disk := k\<rparr>) = both file_view x s" "both file_view x (s\<lparr>px_geocache := g\<rparr>) = both file_view x s"
  "both file_view x (s\<lparr>px_cx := c\<rparr>) = both file_view x s"
  "both file_view x s \<Longrightarrow> file_view d = file_view (px_db s) \<Longrightarrow> both file_view x (s\<lparr>px_db := d\<rparr>)"
  by (simp_all add: both_def)

text \<open>Whatever is said of the file rows and links and of the context's file is kept by the other plugins.\<close>

lemma view_frame:
  assumes "\<And>s. I s \<longleftrightarrow> (\<exists>x. both file_view x s \<and> P x (named_file s))"
  shows "frame I"
proof
  fix s k g d c
  assume "I s"
  then obtain x where x: "both file_view x s" "P x (named_file s)" using assms by blast
  have "named_file (s\<lparr>px_saved := px_db s\<rparr>) = named_file s" "named_file (s\<lparr>px_db := d\<rparr>) = named_file s"
      "named_file (s\<lparr>px_disk := k\<rparr>) = named_file s" "named_file (s\<lparr>px_geocache := g\<rparr>) = named_file s" for d
    by (simp_all add: named_file_def)
  then show "I (s\<lparr>px_saved := px_db s\<rparr>)" "I (s\<lparr>px_db := px_saved s\<rparr>)" "I (s\<lparr>px_disk := k\<rparr>)" "I (s\<lparr>px_geocache := g\<rparr>)"
      "file_view d = file_view (px_db s) \<Longrightarrow> I (s\<lparr>px_db := d\<rparr>)"
      "named_file (s\<lparr>px_cx := c\<rparr>) = named_file s \<Longrightarrow> I (s\<lparr>px_cx := c\<rparr>)"
    unfolding assms using x both_frame by metis+
qed

interpretation ready: frame "ready sha service" for sha service
  by (rule view_frame[where P = "\<lambda>(fs, ls) (i, id', _). id' = sha \<and> (\<exists>f. f \<in> set fs \<and> i = Some (cf_id f) \<and> cf_file_id f = sha \<and>
        \<not> cf_deleted f \<and> \<lparr>fs_file = cf_id f, fs_service = service\<rparr> \<in> set ls)"])
    (auto simp: ready_def named_file_def)

interpretation unstored: frame "unstored sha service restore" for sha service restore
  by (rule view_frame[where P = "\<lambda>(fs, ls) (i, id', v, _, r, stop). \<not> stop \<and> id' = sha \<and> v = service \<and> r = restore \<and>
        distinct (map cf_id fs) \<and> (if restore then \<exists>f \<in> set fs. i = Some (cf_id f) \<and> cf_file_id f = sha else \<forall>f \<in> set fs. cf_file_id f \<noteq> sha)"])
    (auto simp: unstored_def named_file_def)

interpretation settled: frame "\<lambda>s. ready sha service s \<and> cx_stop (px_cx s)" for sha service
  by (rule frame_conj[OF ready.frame_axioms stopped.frame_axioms])

text \<open>The link of a file, however it came about.\<close>

lemma link_file_done:
  assumes "link_file env i service s = (Done created, s')"
  shows "px_saved s' = px_saved s \<and> px_cx s' = px_cx s \<and> files (base (core (px_db s'))) = files (base (core (px_db s))) \<and>
    \<lparr>fs_file = i, fs_service = service\<rparr> \<in> set (links (base (core (px_db s'))))"
proof (cases "ensure_link (pv_stale env) i service (base (core (px_db s)))")
  case (Inr r)
  obtain l c b where r: "r = ((l, c), b)" by (metis prod.collapse)
  note e = ensure_link_result[OF Inr[unfolded r]]
  then have "files b = files (base (core (px_db s)))" by (auto split: if_splits)
  then show ?thesis using assms e by (auto simp: link_file_def Inr r with_core_def)
qed (use assms in \<open>simp add: link_file_def\<close>)

lemma sync_done:
  assumes "sync_capture env i m known s = (Done u, s')"
  shows "px_saved s' = px_saved s \<and> px_cx s' = px_cx s \<and> file_view (px_db s') = file_view (px_db s)"
proof -
  have "base c = base (core (px_db s))" if "synchronize now f m st (core (px_db s)) = Some c" for c now f st
    using that by (auto simp: synchronize_def put_state_def Let_def)
  then show ?thesis using assms
    by (auto simp: sync_capture_def Let_def core_views file_view_def with_core_def split: option.splits if_splits)
qed

lemma link_and_project_done:
  assumes "link_and_project env i load allow s = (Done created, s')" and "both file_view (fs, ls) s"
  shows "\<exists>ls'. both file_view (fs, ls') s' \<and> \<lparr>fs_file = i, fs_service = cx_service (px_cx s)\<rparr> \<in> set ls' \<and> px_cx s' = px_cx s"
proof -
  obtain t u where l: "link_file env i (cx_service (px_cx s)) s = (Done created, t)"
      and p: "project_link env i (cx_service (px_cx s)) load created t = (Done (), u)" and s': "s' = u\<lparr>px_saved := px_db u\<rparr>"
    using assms(1) by (auto simp: link_and_project_def handle_done refail_done then_done when_done basic_done reject_done split: if_splits)
  note t = link_file_done[OF l]
  have u: "px_cx u = px_cx t \<and> file_view (px_db u) = file_view (px_db t)"
    using p sync_done by (auto simp: project_link_def when_done then_done split: if_splits)
  have "files (base (core (px_db t))) = fs" using t assms(2) by (auto simp: both_def file_view_def)
  then have "both file_view (fs, links (base (core (px_db t)))) s'" using u by (simp add: s' both_def) (simp add: file_view_def)
  then show ?thesis using t u by (auto simp: s')
qed

lemma log_context: "log_message m s = (Done u, s') \<Longrightarrow> px_cx s' = px_cx s \<and> px_disk s' = px_disk s"
  by (auto simp: log_message_def)

lemma kept_done: "preserves I m \<Longrightarrow> I s \<Longrightarrow> m s = (Done u, s') \<Longrightarrow> I s'"
  by (rule preservesD)

lemma ready_after_link:
  assumes "link_and_project env (cf_id f) load allow s = (Done created, t)" and "both file_view (fs, ls) s" and "f \<in> set fs"
    and "\<not> cf_deleted f" and "cf_file_id f = sha" and "cx_file_id (px_cx s) = sha" and "cx_service (px_cx s) = service"
  shows "cx_file c = Some (cf_id f) \<Longrightarrow> cx_file_id c = sha \<Longrightarrow> ready sha service (t\<lparr>px_cx := c\<rparr>)"
    and "px_cx t = px_cx s"
proof -
  obtain ls' where t: "both file_view (fs, ls') t" "\<lparr>fs_file = cf_id f, fs_service = service\<rparr> \<in> set ls'" "px_cx t = px_cx s"
    using link_and_project_done[OF assms(1,2)] assms(7) by auto
  then show "px_cx t = px_cx s" by simp
  show "ready sha service (t\<lparr>px_cx := c\<rparr>)" if "cx_file c = Some (cf_id f)" "cx_file_id c = sha"
    unfolding ready_def using t assms(3-5) that by (intro conjI exI[of _ fs] exI[of _ ls'] exI[of _ f]) (simp_all add: both_frame(5))
qed

lemma ready_named:
  "ready sha service s \<Longrightarrow> cx_file c = cx_file (px_cx s) \<Longrightarrow> cx_file_id c = sha \<Longrightarrow> ready sha service (s\<lparr>px_cx := c\<rparr>)"
  by (auto simp: ready_def both_frame(5))

section \<open>HashPlugin\<close>

lemma use_existing_done:
  assumes "use_existing env f s = (Done u, s')" and "both file_view (fs, ls) s" and "f \<in> set fs" and "\<not> cf_deleted f"
    and "cf_file_id f = cx_file_id (px_cx s)"
  shows "ready (cf_file_id f) (cx_service (px_cx s)) s' \<and> cx_stop (px_cx s')"
proof -
  let ?rest = "\<lambda>created. then_do (log_message ''DUPLICATE_FOUND'') (\<lambda>_.
        then_do (log_message (''DUPLICATE_FOUND existing_service='' @ (if cf_service f = [] then ''MemoryKeeper'' else cf_service f) @
          '' requested_service='' @ cx_service (px_cx s))) (\<lambda>_.
        then_do (log_link created) (\<lambda>_.
        when_do (is_mk_service (cx_service (px_cx s)))
          (then_do (when_do created (reuse_vision_step env f)) (\<lambda>_. match_and_log env (cf_id f))))))"
  let ?I = "\<lambda>s'. ready (cf_file_id f) (cx_service (px_cx s)) s'"
  obtain created t1 t2 v where l: "link_and_project env (cf_id f) True False s = (Done created, t1)"
      and d: "drop_incoming env (t1\<lparr>px_cx := (px_cx t1)\<lparr>cx_file := Some (cf_id f)\<rparr>\<rparr>) = (Done v, t2)"
      and r: "?rest created
          (t2\<lparr>px_cx := (px_cx t2)\<lparr>cx_stop := True\<rparr>\<rparr>) = (Done u, s')"
    using assms(1) unfolding use_existing_def
    by (auto simp: then_done[of "read_step _"] then_done[of "when_do _ _"] then_done[of "link_and_project _ _ _ _"]
        then_done[of "set_context _"] then_done[of "drop_incoming _"] when_done reject_done basic_done split: if_splits)
  note t1 = ready_after_link[OF l assms(2-4) refl assms(5)[symmetric] refl]
  have "?I (t1\<lparr>px_cx := (px_cx t1)\<lparr>cx_file := Some (cf_id f)\<rparr>\<rparr>)" by (rule t1(1)) (simp_all add: t1(2) assms(5))
  then have "?I t2" by (rule kept_done[OF ready.drop_kept _ d])
  then have "?I (t2\<lparr>px_cx := (px_cx t2)\<lparr>cx_stop := True\<rparr>\<rparr>) \<and> cx_stop (px_cx (t2\<lparr>px_cx := (px_cx t2)\<lparr>cx_stop := True\<rparr>\<rparr>))"
    by (intro conjI ready_named) (simp_all add: ready_def)
  moreover have kept: "preserves (\<lambda>t. ?I t \<and> cx_stop (px_cx t)) (?rest created)"
    by (intro step_intros settled.log_kept settled.log_link_kept settled.reuse_kept settled.match_log_kept)
  ultimately show ?thesis using preservesD[OF kept r] by blast
qed

text \<open>After a returning \<open>HashPlugin\<close> the content is settled, or still to be stored.\<close>

definition fresh_upload_context :: "string \<Rightarrow> pipe \<Rightarrow> bool" where
  "fresh_upload_context service s \<longleftrightarrow> \<not> cx_stop (px_cx s) \<and> \<not> cx_restore (px_cx s) \<and> cx_service (px_cx s) = service \<and>
     (\<exists>fs ls. both file_view (fs, ls) s \<and> distinct (map cf_id fs))"

interpretation fresh_context: frame "fresh_upload_context service" for service
  by (rule view_frame[where P = "\<lambda>(fs, ls) (i, id', v, _, r, stop). \<not> stop \<and> \<not> r \<and> v = service \<and> distinct (map cf_id fs)"])
    (auto simp: fresh_upload_context_def named_file_def)

lemma hash_incoming_done:
  assumes "hash_incoming env s = (Done u, t)" and "fresh_upload_context service s"
  obtains bytes where "dk_files (px_disk s) (on_volume (pv_storage env) (cx_path (px_cx s))) = Some bytes"
    and "fresh_upload_context service t" and "cx_file_id (px_cx t) = pv_sha env bytes"
proof -
  obtain bytes where b: "dk_files (px_disk s) (on_volume (pv_storage env) (cx_path (px_cx s))) = Some bytes"
    using assms(1) by (auto simp: hash_incoming_def split: option.splits)
  let ?m = "(px_cx s)\<lparr>cx_size := int (length bytes), cx_file_id := pv_sha env bytes\<rparr>"
  have l: "log_message ''SHA256_COMPLETE'' (s\<lparr>px_cx := ?m\<rparr>) = (Done u, t)"
    using assms(1) by (simp add: hash_incoming_def b then_done basic_done)
  have "fresh_upload_context service (s\<lparr>px_cx := ?m\<rparr>)" using assms(2) by (auto simp: fresh_upload_context_def both_frame(5))
  then have "fresh_upload_context service t" by (rule kept_done[OF fresh_context.log_kept _ l])
  moreover have "cx_file_id (px_cx t) = pv_sha env bytes" using log_context[OF l] by simp
  ultimately show ?thesis using b that by blast
qed

lemma file_by_sha_cases:
  assumes "both file_view (fs, ls) s"
  shows "file_by_sha sha s = None \<Longrightarrow> \<forall>f \<in> set fs. cf_file_id f \<noteq> sha"
    and "file_by_sha sha s = Some f \<Longrightarrow> f \<in> set fs \<and> cf_file_id f = sha"
proof -
  have "files (base (core (px_db s))) = fs" using assms by (simp add: both_def file_view_def)
  then show "file_by_sha sha s = None \<Longrightarrow> \<forall>f \<in> set fs. cf_file_id f \<noteq> sha"
      "file_by_sha sha s = Some f \<Longrightarrow> f \<in> set fs \<and> cf_file_id f = sha"
    by (auto simp: file_by_sha_def dest: find_row_NoneD find_row_SomeD)
qed

lemma hash_done:
  assumes "hash_plugin env s = (Done u, s')" and "fresh_upload_context service s"
  obtains bytes restore where "dk_files (px_disk s) (on_volume (pv_storage env) (cx_path (px_cx s))) = Some bytes"
    and "(ready (pv_sha env bytes) service s' \<and> cx_stop (px_cx s')) \<or> unstored (pv_sha env bytes) service restore s'"
proof -
  obtain t t2 where h: "hash_incoming env s = (Done (), t)" and l: "log_message ''DUPLICATE_CHECK_COMPLETE'' t = (Done (), t2)"
      and r: "(case file_by_sha (cx_file_id (px_cx t)) t of
         None \<Rightarrow> return_step ()
       | Some f \<Rightarrow>
           if cf_deleted f
           then then_do (set_context (\<lambda>c. c\<lparr>cx_file := Some (cf_id f), cx_restore := True\<rparr>)) (\<lambda>_. log_message ''DELETED_FILE_REUPLOAD'')
           else use_existing env f) t2 = (Done u, s')"
    using assms(1) unfolding hash_plugin_def
    by (auto simp: then_done[of "hash_incoming _"] then_done[of "read_step _"] then_done[of "when_do _ _"]
        then_done[of "log_message _"] when_done reject_done split: if_splits)
  obtain bytes where b: "dk_files (px_disk s) (on_volume (pv_storage env) (cx_path (px_cx s))) = Some bytes"
      and t: "fresh_upload_context service t" "cx_file_id (px_cx t) = pv_sha env bytes"
    using hash_incoming_done[OF h assms(2)] by blast
  let ?sha = "pv_sha env bytes"
  have t2: "fresh_upload_context service t2" "cx_file_id (px_cx t2) = ?sha" and found: "file_by_sha ?sha t = file_by_sha ?sha t2"
    using kept_done[OF fresh_context.log_kept t(1) l] log_context[OF l] t(2) l on_job_views(1)
    by (auto simp: log_message_def file_by_sha_def file_view_def)
  obtain fs ls where v: "both file_view (fs, ls) t2" "distinct (map cf_id fs)" "\<not> cx_stop (px_cx t2)" "\<not> cx_restore (px_cx t2)"
      "cx_service (px_cx t2) = service"
    using t2(1) by (auto simp: fresh_upload_context_def)
  note cases = file_by_sha_cases[OF v(1), of ?sha]
  have "\<exists>restore. (ready ?sha service s' \<and> cx_stop (px_cx s')) \<or> unstored ?sha service restore s'"
  proof (cases "file_by_sha ?sha t2")
    case None
    then have "s' = t2" using r found t(2) by simp
    then have "unstored ?sha service False s'" using v t2(2) cases(1)[OF None] by (auto simp: unstored_def)
    then show ?thesis by blast
  next
    case (Some f)
    note f = cases(2)[OF Some]
    show ?thesis
    proof (cases "cf_deleted f")
      case True
      let ?c = "(px_cx t2)\<lparr>cx_file := Some (cf_id f), cx_restore := True\<rparr>"
      have m: "log_message ''DELETED_FILE_REUPLOAD'' (t2\<lparr>px_cx := ?c\<rparr>) = (Done u, s')"
        using r found t(2) Some True by (simp add: then_done basic_done)
      have "unstored ?sha service True (t2\<lparr>px_cx := ?c\<rparr>)" using v t2(2) f by (auto simp: unstored_def both_frame(5))
      then show ?thesis using kept_done[OF unstored.log_kept _ m] by blast
    next
      case False
      then have "use_existing env f t2 = (Done u, s')" using r found t(2) Some by simp
      from use_existing_done[OF this v(1)] f False t2(2) v(5) show ?thesis by auto
    qed
  qed
  then show ?thesis using b that by blast
qed

section \<open>StoragePlugin\<close>

lemma change_files_done:
  assumes "change_files g s = (Done u, t)" and "both file_view (fs, ls) s"
  shows "both file_view (g fs, ls) (t\<lparr>px_saved := px_db t\<rparr>)" and "px_cx t = px_cx s"
  using assms by (auto simp: change_files_def basic_done both_def with_base_def core_views) (simp_all add: file_view_def)

text \<open>A tombstone that is saved as live and linked again is ready.\<close>

lemma restore_done:
  assumes "restore_step env stored s = (Done u, s')" and "unstored sha service True s" and "\<not> cf_deleted stored"
  shows "ready sha service s'"
proof -
  obtain fs ls f where v: "both file_view (fs, ls) s" "distinct (map cf_id fs)" "f \<in> set fs" "cx_file (px_cx s) = Some (cf_id f)"
      "cf_file_id f = sha" "cx_file_id (px_cx s) = sha" "cx_service (px_cx s) = service"
    using assms(2) by (auto simp: unstored_def)
  let ?f = "restored_file stored f"
  have "files (base (core (px_db s))) = fs" using v(1) by (simp add: both_def file_view_def)
  then have "Option.bind (cx_file (px_cx s)) (\<lambda>i. find_row cf_id i (files (base (core (px_db s))))) = Some f"
    by (simp add: v(4) find_row_mem[OF v(2,3)])
  then obtain t created w where c: "change_files (save_row cf_id ?f) s = (Done (), t)"
      and l: "link_and_project env (cf_id ?f) True True (t\<lparr>px_saved := px_db t\<rparr>) = (Done created, w)"
      and r: "then_do (log_message ''COMMON_FILE_RESTORED'') (\<lambda>_. log_link created) w = (Done u, s')"
    using assms(1) unfolding restore_step_def
    by (auto simp: then_done[of "read_step _"] then_done[of "change_files _"] then_done[of commit] then_done[of "link_and_project _ _ _ _"]
        basic_done restored_file_def)
  have m: "?f \<in> set (save_row cf_id ?f fs)" using v(3) by (auto simp: set_save_row restored_file_def)
  have cx: "px_cx (t\<lparr>px_saved := px_db t\<rparr>) = px_cx s" using change_files_done(2)[OF c v(1)] by simp
  have live: "\<not> cf_deleted ?f" "cf_file_id ?f = sha" using assms(3) v(5) by (simp_all add: restored_file_def)
  note link = ready_after_link[OF l change_files_done(1)[OF c v(1)] m live, unfolded cx, OF v(6,7)]
  have "ready sha service (w\<lparr>px_cx := px_cx w\<rparr>)" by (rule link(1)) (simp_all add: link(2) v restored_file_def)
  then have "ready sha service w" by simp
  moreover have kept: "preserves (ready sha service) (then_do (log_message ''COMMON_FILE_RESTORED'') (\<lambda>_. log_link created))"
    by (intro step_intros ready.log_kept ready.log_link_kept)
  ultimately show ?thesis using preservesD[OF kept r] by blast
qed

text \<open>The insert: the row is there and committed, or another session's row of the content was first.\<close>

lemma insert_done:
  assumes "insert_file env stored s = (Done inserted, t)" and "both file_view (fs, ls) s"
  obtains fs' where "both file_view (fs', ls) t" and "px_cx t = px_cx s" and "inserted \<Longrightarrow> stored \<in> set fs'"
    and "\<And>f. f \<in> set fs' \<Longrightarrow> f \<in> set fs \<or> pv_rival env = Some f \<or> inserted \<and> f = stored"
proof -
  define rivals where "rivals = (case pv_rival env of None \<Rightarrow> id | Some r \<Rightarrow> with_base (\<lambda>b. b\<lparr>files := files b @ [r]\<rparr>))"
  define more_fs where "more_fs = fs @ (case pv_rival env of None \<Rightarrow> [] | Some r \<Rightarrow> [r])"
  let ?s = "s\<lparr>px_db := rivals (px_db s), px_saved := rivals (px_saved s)\<rparr>"
  have b: "both file_view (more_fs, ls) ?s"
    using assms(2) by (auto simp: both_def rivals_def more_fs_def with_base_def core_views split: option.splits) (simp_all add: file_view_def)
  show ?thesis
  proof (cases inserted)
    case True
    then obtain w where w: "change_files (\<lambda>fs. fs @ [stored]) ?s = (Done (), w)" "t = w\<lparr>px_saved := px_db w\<rparr>"
      using assms(1) by (auto simp: insert_file_def rivals_def[symmetric] Let_def then_done basic_done split: if_splits)
    show ?thesis
      by (rule that[of "more_fs @ [stored]"]) (use w change_files_done[OF w(1) b] True in \<open>auto simp: more_fs_def split: option.splits\<close>)
  next
    case False
    then have "t = ?s\<lparr>px_db := px_saved ?s\<rparr>"
      using assms(1) by (auto simp: insert_file_def rivals_def[symmetric] Let_def then_done basic_done split: if_splits)
    then show ?thesis
      by (intro that[of more_fs]) (use both_frame(2)[OF b] False in \<open>auto simp: more_fs_def split: option.splits\<close>)
  qed
qed

lemma lost_race_done:
  assumes "lost_race_step env own s = (Done u, s')" and "both file_view (fs, ls) s" and "cx_file_id (px_cx s) = sha"
    and "cx_service (px_cx s) = service" and "\<And>f. f \<in> set fs \<Longrightarrow> cf_file_id f = sha \<Longrightarrow> \<not> cf_deleted f"
  shows "ready sha service s' \<and> cx_stop (px_cx s')"
proof -
  let ?rest = "\<lambda>f created. then_do (log_message ''DUPLICATE_FOUND'') (\<lambda>_.
     then_do (log_link created) (\<lambda>_. when_do (is_mk_service (cx_service (px_cx s))) (match_and_log env (cf_id f))))"
  let ?J = "\<lambda>t. ready sha service t \<and> cx_stop (px_cx t)"
  obtain f t1 created t2 where f: "file_by_sha sha s = Some f" and d: "drop_losing_original env f own s = (Done (), t1)"
      and l: "link_and_project env (cf_id f) True False (t1\<lparr>px_cx := (px_cx t1)\<lparr>cx_file := Some (cf_id f)\<rparr>\<rparr>) = (Done created, t2)"
      and r: "?rest f created (t2\<lparr>px_cx := (px_cx t2)\<lparr>cx_stop := True\<rparr>\<rparr>) = (Done u, s')"
    using assms(1,3) unfolding lost_race_step_def
    by (auto simp: then_done[of "read_step _"] then_done[of "when_do _ _"] then_done[of "link_and_project _ _ _ _"]
        then_done[of "set_context _"] then_done[of "drop_losing_original _ _ _"] when_done reject_done basic_done
        split: if_splits option.splits)
  note mem = file_by_sha_cases(2)[OF assms(2) f]
  have t1: "both file_view (fs, ls) t1" "px_cx t1 = px_cx s"
    using d assms(2) by (auto simp: drop_losing_original_def Let_def both_frame(3) split: sum.splits option.splits if_splits prod.splits)
  let ?s = "t1\<lparr>px_cx := (px_cx t1)\<lparr>cx_file := Some (cf_id f)\<rparr>\<rparr>"
  have b: "both file_view (fs, ls) ?s" using t1(1) by (simp add: both_frame(5))
  have name: "cx_file_id (px_cx ?s) = sha" "cx_service (px_cx ?s) = service" "cx_file (px_cx ?s) = Some (cf_id f)"
    using assms(3,4) t1(2) by simp_all
  note link = ready_after_link[OF l b conjunct1[OF mem] assms(5)[OF conjunct1[OF mem] conjunct2[OF mem]] conjunct2[OF mem] name(1,2)]
  have "ready sha service (t2\<lparr>px_cx := (px_cx t2)\<lparr>cx_stop := True\<rparr>\<rparr>)" using name by (intro link(1)) (simp_all add: link(2))
  moreover have kept: "preserves ?J (?rest f created)"
    by (intro step_intros settled.log_kept settled.log_link_kept settled.match_log_kept)
  ultimately show ?thesis using preservesD[OF kept r] by simp
qed

lemma create_done:
  assumes "create_step env stored own s = (Done u, s')" and "unstored sha service False s" and "\<not> cf_deleted stored"
    and "cf_file_id stored = sha" and "\<And>r. pv_rival env = Some r \<Longrightarrow> \<not> cf_deleted r"
  shows "ready sha service s'"
proof -
  obtain fs ls where v: "both file_view (fs, ls) s" "\<And>f. f \<in> set fs \<Longrightarrow> cf_file_id f \<noteq> sha" "cx_file_id (px_cx s) = sha"
      "cx_service (px_cx s) = service"
    using assms(2) by (auto simp: unstored_def)
  obtain inserted t where i: "insert_file env stored s = (Done inserted, t)"
      and r: "(if \<not> inserted then lost_race_step env own
        else then_do (set_context (\<lambda>c. c\<lparr>cx_file := Some (cf_id stored)\<rparr>)) (\<lambda>_.
            then_do (log_message ''COMMON_FILE_CREATED'') (\<lambda>_.
            then_do (link_and_project env (cf_id stored) False False) (\<lambda>created. log_link created)))) t = (Done u, s')"
    using assms(1) by (auto simp: create_step_def then_done[of "insert_file _ _"])
  obtain fs' where t: "both file_view (fs', ls) t" "px_cx t = px_cx s" "inserted \<Longrightarrow> stored \<in> set fs'"
      and new: "\<And>f. f \<in> set fs' \<Longrightarrow> f \<in> set fs \<or> pv_rival env = Some f \<or> inserted \<and> f = stored"
    using insert_done[OF i v(1)] by blast
  show ?thesis
  proof (cases inserted)
    case False
    have "\<not> cf_deleted f" if "f \<in> set fs'" "cf_file_id f = sha" for f using new[OF that(1)] that(2) v(2) False assms(5) by blast
    then show ?thesis using lost_race_done[OF _ t(1), of env own u s' sha service] r False v(3,4) t(2) by simp
  next
    case True
    let ?s = "t\<lparr>px_cx := (px_cx t)\<lparr>cx_file := Some (cf_id stored)\<rparr>\<rparr>"
    obtain w w2 created where l: "log_message ''COMMON_FILE_CREATED'' ?s = (Done (), w)"
        and p: "link_and_project env (cf_id stored) False False w = (Done created, w2)" and e: "log_link created w2 = (Done u, s')"
      using r True by (auto simp: then_done[of "set_context _"] then_done[of "log_message _"] then_done[of "link_and_project _ _ _ _"] basic_done)
    have cx: "px_cx w = px_cx ?s" using log_context[OF l] by simp
    have b: "both file_view (fs', ls) w"
      using l t(1) by (auto simp: log_message_def both_def on_job_views)
    have name: "cx_file_id (px_cx w) = sha" "cx_service (px_cx w) = service" using cx v(3,4) t(2) by simp_all
    note link = ready_after_link[OF p b t(3)[OF True] assms(3,4) name]
    have "ready sha service (w2\<lparr>px_cx := px_cx w2\<rparr>)" using cx name by (intro link(1)) (simp_all add: link(2))
    then have "ready sha service w2" by simp
    then show ?thesis by (rule kept_done[OF ready.log_link_kept _ e])
  qed
qed

lemma storage_done:
  assumes "storage_plugin env s = (Done u, s')" and "unstored sha service restore s"
    and "\<And>r. pv_rival env = Some r \<Longrightarrow> \<not> cf_deleted r"
  shows "ready sha service s'"
proof -
  let ?U = "unstored sha service restore"
  obtain dir t1 dest t2 own t3 v t4 w t5 original t6 preview t7 thumb t8 where
      c: "choose_directory env s = (Done dir, t1)"
      and d: "destination_root env (px_cx t1) t1 = (Done dest, t2)"
      and m: "move_step env dir dest t2 = (Done own, t3)"
      and o: "set_context (\<lambda>c. c\<lparr>cx_original := Some own\<rparr>) t3 = (Done v, t4)"
      and l: "log_message ''MOVE_STORAGE_COMPLETE'' t4 = (Done w, t5)"
      and p: "relative_step env (Some own) t5 = (Done original, t6)"
      and q: "relative_step env (cx_preview (px_cx t1)) t6 = (Done preview, t7)"
      and r: "relative_step env (cx_thumb (px_cx t1)) t7 = (Done thumb, t8)"
      and body: "(if cx_restore (px_cx t1) then restore_step env (stored_file env (px_cx t1) original preview thumb)
        else create_step env (stored_file env (px_cx t1) original preview thumb) own) t8 = (Done u, s')"
    using assms(1) unfolding storage_plugin_def by (auto simp only: then_done step_done)
  have t1: "?U t1" by (rule kept_done[OF unstored.choose_kept assms(2) c])
  have "?U t4" by (rule kept_done[OF unstored.context_kept kept_done[OF unstored.move_kept kept_done[OF unstored.destination_kept t1 d] m] o]) simp
  then have "?U t5" by (rule kept_done[OF unstored.log_kept _ l])
  then have t8: "?U t8" by (rule kept_done[OF unstored.relative_kept kept_done[OF unstored.relative_kept kept_done[OF unstored.relative_kept _ p] q] r])
  have cx: "cx_restore (px_cx t1) = restore" "cx_file_id (px_cx t1) = sha" using t1 by (simp_all add: unstored_def)
  let ?stored = "stored_file env (px_cx t1) original preview thumb"
  have stored: "\<not> cf_deleted ?stored" "cf_file_id ?stored = sha" using cx by (simp_all add: stored_file_def)
  show ?thesis
  proof (cases restore)
    case True
    then show ?thesis using restore_done[OF _ _ stored(1)] body cx t8 by simp
  next
    case False
    then show ?thesis using create_done[OF _ _ stored assms(3)] body cx t8 by simp
  qed
qed

text \<open>
  The keys an upload may carry are not those the rule of MemoryKeeper reads, and the plugins that
  find a place run after the file was moved: no MemoryKeeper upload is sorted by place.
\<close>

lemma mk_uploads_unsorted:
  assumes "fst ` set (cx_metadata (px_cx s)) \<subseteq> {''observation_date'', ''canonical_target_id'', ''target_display_name''}"
  shows "mk_rule_segments y (storage_rule_context s) = [str_int y, ''Unknown'', ''Unknown'', ''Unknown'']"
proof -
  have none: "map_of (ru_metadata (storage_rule_context s)) k = None"
    if "k \<notin> {''observation_date'', ''canonical_target_id'', ''target_display_name''}" for k
  proof -
    have "k \<notin> fst ` set (cx_metadata (px_cx s))" using assms that by (rule contra_subsetD)
    then show ?thesis by (simp add: storage_rule_context_def map_of_eq_None_iff image_image case_prod_beta del: insert_iff)
  qed
  have "map_of (ru_metadata (storage_rule_context s)) ''datetime_original'' = None"
      "map_of (ru_metadata (storage_rule_context s)) ''country'' = None" "map_of (ru_metadata (storage_rule_context s)) ''city'' = None"
      "map_of (ru_metadata (storage_rule_context s)) ''place_name'' = None" "map_of (ru_metadata (storage_rule_context s)) ''place'' = None"
    by (rule none, simp)+
  moreover have "ru_country (storage_rule_context s) = None" "ru_city (storage_rule_context s) = None" "ru_place (storage_rule_context s) = None"
    by (simp_all add: storage_rule_context_def)
  ultimately show ?thesis
    by (simp add: mk_rule_segments_def mk_rule_year_def resolve_segment_def normalize_segment_def extract_year_def)
qed

section \<open>The pipeline\<close>

lemma run_plugin_done:
  assumes "run_plugins env ((plugin, priority, run) # rest) s = (Done u, s')"
  obtains "cx_stop (px_cx s)" and "s' = s"
  | t1 t2 t3 where "\<not> cx_stop (px_cx s)" and "log_message (''PLUGIN_START '' @ plugin @ '' v1.0.0'') s = (Done (), t1)"
      and "run env t1 = (Done (), t2)" and "log_message (''PLUGIN_COMPLETE '' @ plugin @ '' v1.0.0'') t2 = (Done (), t3)"
      and "run_plugins env rest t3 = (Done u, s')"
proof -
  have "plugin_failed plugin e t \<noteq> (Done y, t')" for e t y t' by (simp add: plugin_failed_def then_done)
  then show ?thesis using assms that by (auto simp: then_done handle_done split: if_splits)
qed

lemma run_stopped: "cx_stop (px_cx s) \<Longrightarrow> run_plugins env ps s = (Done u, s') \<Longrightarrow> s' = s"
proof (cases ps)
  case (Cons p rest)
  then show "cx_stop (px_cx s) \<Longrightarrow> run_plugins env ps s = (Done u, s') \<Longrightarrow> s' = s" by (cases p) (auto simp: then_done)
qed (simp add: then_done)

lemma load_plugins_order:
  "load_plugins = [(''HashPlugin'', 10, hash_plugin), (''PreviewPlugin'', 20, preview_plugin), (''StoragePlugin'', 30, storage_plugin),
     (''MetadataPlugin'', 40, metadata_plugin), (''ExifPlugin'', 50, exif_plugin), (''GpsPlugin'', 60, gps_plugin)]"
  by (simp add: load_plugins_def registered_plugins_def)

lemma run_kept:
  assumes "frame I" and "\<And>plugin priority run. (plugin, priority, run) \<in> set ps \<Longrightarrow> preserves I (run env)"
  shows "preserves I (run_plugins env ps)"
  using assms(2)
proof (induction ps)
  case Nil
  show ?case by (simp add: preserves_return)
next
  case (Cons p ps)
  obtain plugin priority run where p: "p = (plugin, priority, run)" by (metis prod.collapse)
  have "preserves I (run env)" "preserves I (run_plugins env ps)" using Cons by (auto simp: p)
  then show ?case by (auto simp: p intro!: step_intros frame.log_kept[OF assms(1)] frame.failed_kept[OF assms(1)])
qed

lemma pipeline_done:
  assumes "run_plugins env load_plugins s = (Done u, s')" and "fresh_upload_context service s"
    and "\<And>r. pv_rival env = Some r \<Longrightarrow> \<not> cf_deleted r"
  obtains bytes where "dk_files (px_disk s) (on_volume (pv_storage env) (cx_path (px_cx s))) = Some bytes"
    and "ready (pv_sha env bytes) service s'"
proof -
  let ?late = "[(''MetadataPlugin'', 40, metadata_plugin), (''ExifPlugin'', 50, exif_plugin), (''GpsPlugin'', 60, gps_plugin)]"
  let ?storage = "(''StoragePlugin'', 30, storage_plugin) # ?late"
  have late: "preserves (ready sha service) (run_plugins env ?late)" for sha
    by (rule run_kept[OF ready.frame_axioms]) (auto intro: ready.metadata_kept ready.exif_kept ready.gps_kept)
  have running: "\<not> cx_stop (px_cx s)" using assms(2) by (simp add: fresh_upload_context_def)
  obtain t1 t2 t3 where l1: "log_message (''PLUGIN_START '' @ ''HashPlugin'' @ '' v1.0.0'') s = (Done (), t1)"
      and h: "hash_plugin env t1 = (Done (), t2)" and l2: "log_message (''PLUGIN_COMPLETE '' @ ''HashPlugin'' @ '' v1.0.0'') t2 = (Done (), t3)"
      and rest: "run_plugins env ((''PreviewPlugin'', 20, preview_plugin) # ?storage) t3 = (Done u, s')"
    using run_plugin_done[OF assms(1)[unfolded load_plugins_order]] running by blast
  have t1: "fresh_upload_context service t1" "px_cx t1 = px_cx s" "px_disk t1 = px_disk s"
    using kept_done[OF fresh_context.log_kept assms(2) l1] log_context[OF l1] by blast+
  obtain bytes restore where b: "dk_files (px_disk t1) (on_volume (pv_storage env) (cx_path (px_cx t1))) = Some bytes"
      and t2: "(ready (pv_sha env bytes) service t2 \<and> cx_stop (px_cx t2)) \<or> unstored (pv_sha env bytes) service restore t2"
    using hash_done[OF h t1(1)] by blast
  let ?sha = "pv_sha env bytes"
  have "ready ?sha service s'"
  proof (cases "ready ?sha service t2 \<and> cx_stop (px_cx t2)")
    case True
    then have "ready ?sha service t3 \<and> cx_stop (px_cx t3)" using preservesD[OF settled.log_kept l2] by blast
    then show ?thesis using run_stopped[OF _ rest] by simp
  next
    case False
    then have t3: "unstored ?sha service restore t3" using t2 kept_done[OF unstored.log_kept _ l2] by blast
    have running: "\<not> cx_stop (px_cx t)" if "unstored ?sha service restore t" for t using that by (simp add: unstored_def)
    obtain p1 p2 p3 where p: "log_message (''PLUGIN_START '' @ ''PreviewPlugin'' @ '' v1.0.0'') t3 = (Done (), p1)"
        "preview_plugin env p1 = (Done (), p2)" "log_message (''PLUGIN_COMPLETE '' @ ''PreviewPlugin'' @ '' v1.0.0'') p2 = (Done (), p3)"
        and rest2: "run_plugins env ?storage p3 = (Done u, s')"
      using run_plugin_done[OF rest] running[OF t3] by blast
    have p3: "unstored ?sha service restore p3"
      by (rule kept_done[OF unstored.log_kept kept_done[OF unstored.preview_kept kept_done[OF unstored.log_kept t3 p(1)] p(2)] p(3)])
    obtain q1 q2 q3 where q: "log_message (''PLUGIN_START '' @ ''StoragePlugin'' @ '' v1.0.0'') p3 = (Done (), q1)"
        "storage_plugin env q1 = (Done (), q2)" "log_message (''PLUGIN_COMPLETE '' @ ''StoragePlugin'' @ '' v1.0.0'') q2 = (Done (), q3)"
        and rest3: "run_plugins env ?late q3 = (Done u, s')"
      using run_plugin_done[OF rest2] running[OF p3] by blast
    have "ready ?sha service q2" by (rule storage_done[OF q(2) kept_done[OF unstored.log_kept p3 q(1)] assms(3)])
    then show ?thesis by (rule kept_done[OF late kept_done[OF ready.log_kept _ q(3)] rest3])
  qed
  then show ?thesis using b t1 that by simp
qed

section \<open>One job\<close>

text \<open>A step that raises leaves the invariant; what it leaves when it returns is not said.\<close>

definition kept_on_failure :: "(pipe \<Rightarrow> bool) \<Rightarrow> 'a step \<Rightarrow> bool" where
  "kept_on_failure I m \<longleftrightarrow> (\<forall>s e s'. I s \<longrightarrow> m s = (Fails e, s') \<longrightarrow> I s')"

lemma failure_kept: "preserves I m \<Longrightarrow> kept_on_failure I m"
  unfolding kept_on_failure_def by (blast intro: preservesD)

lemma failure_then: "preserves I m \<Longrightarrow> (\<And>x. kept_on_failure I (f x)) \<Longrightarrow> kept_on_failure I (then_do m f)"
  unfolding kept_on_failure_def by (fastforce simp: then_do_def split: prod.splits outcome.splits dest: preservesD)

lemma pipeline_jobs: "preserves (of_job W service job) (run_plugins env load_plugins)"
  by (rule run_kept[OF jobs.frame_axioms])
    (auto simp: load_plugins_order intro: jobs.hash_kept jobs.preview_kept jobs.storage_kept jobs.metadata_kept jobs.exif_kept jobs.gps_kept)

lemma complete_failed: "kept_on_failure I (complete_step env j)"
  by (auto simp: kept_on_failure_def complete_step_def then_do_def read_step_def fail_step_def put_jobs_def set_db_def commit_def
      change_step_def Let_def split: prod.splits if_splits)

lemma open_job_result:
  assumes "open_job env j s = (r, t)"
  obtains e where "r = Fails e" and "t = s"
  | p name media m where "r = Done ()" and "resolve_storage_path (pv_storage env) (uj_incoming j) = Inr p"
      and "t = s\<lparr>px_cx := start_context j p name media m\<rparr>"
proof (cases "resolve_storage_path (pv_storage env) (uj_incoming j)")
  case (Inl e)
  then have "r = Fails (storage_failure env e)" "t = s" using assms by (simp_all add: open_job_def)
  then show ?thesis by (rule that(1))
next
  case (Inr p)
  define name where "name = extract_original_name (if p = [] then [] else last p) (uj_job_id j)"
  have o: "(case pv_probe env p name (job_service j) (px_disk s) of
      Inl message \<Rightarrow> (Fails (Failure message), s)
    | Inr media \<Rightarrow> (Done (), s\<lparr>px_cx := start_context j p name media (pv_metadata env (uj_log j))\<rparr>)) = (r, t)"
    using assms by (simp only: open_job_def Inr name_def Let_def sum.case)
  show ?thesis
    by (cases "pv_probe env p name (job_service j) (px_disk s)") (use o Inr that in simp_all, blast+)
qed

lemma process_failed:
  assumes "process_upload_job env j s = (Fails e, s')" and "both job_view W s"
  shows "both job_view W s'"
proof -
  let ?I = "of_job W (job_service j) (uj_job_id j)"
  let ?work = "then_do (log_message (''SERVICE_NAME '' @ job_service j)) (\<lambda>_.
     then_do (run_plugins env load_plugins) (\<lambda>_.
     then_do (read_step (\<lambda>s. px_cx s)) (\<lambda>cx.
       if cx_file cx = None then fail_step (Failure ''Plugin pipeline completed without common_file'')
       else then_do (when_do (\<not> cx_stop cx) (enqueue_vision_step env)) (\<lambda>_. complete_step env j))))"
  have work: "kept_on_failure ?I ?work"
  proof (intro failure_then step_intros jobs.log_kept pipeline_jobs)
    fix cx
    have "kept_on_failure ?I (then_do (when_do (\<not> cx_stop cx) (enqueue_vision_step env)) (\<lambda>_. complete_step env j))"
      by (intro failure_then step_intros jobs.enqueue_kept complete_failed)
    then show "kept_on_failure ?I (if cx_file cx = None then fail_step (Failure ''Plugin pipeline completed without common_file'')
       else then_do (when_do (\<not> cx_stop cx) (enqueue_vision_step env)) (\<lambda>_. complete_step env j))"
      by (simp add: failure_kept preserves_fail)
  qed
  show ?thesis
  proof (cases "open_job env j s")
    case (Pair r t)
    note run = assms(1)[unfolded process_upload_job_def then_do_def[of "open_job env j"] Pair]
    from Pair show ?thesis
    proof (cases rule: open_job_result)
      case (2 p name media m)
      then have "?I t" using assms(2) by (simp add: of_job_def both_def start_context_def)
      moreover have "?work t = (Fails e, s')" using run 2(1) by simp
      ultimately have "?I s'" using work unfolding kept_on_failure_def by blast
      then show ?thesis by (simp add: of_job_def)
    qed (use run assms(2) in simp)
  qed
qed

lemma job_view_processing:
  assumes "(i, job_id, PROCESSING) \<in> set (job_view d)"
  obtains k where "k \<in> set (upload_jobs (base (core d)))" and "uj_id k = i" and "uj_processing job_id k"
  using assms by (auto simp: job_view_def uj_processing_def)

lemma or_else_get_job: "uj_job_id (or_else (uj_get (uj_job_id j) rows) j) = uj_job_id j"
  by (cases "uj_get (uj_job_id j) rows") (auto simp: uj_get_def dest: find_row_SomeD)

lemma complete_done:
  assumes "complete_step env j s = (Done u, s')" and "(uj_id j, uj_job_id j, PROCESSING) \<in> set (job_view (px_db s))"
  shows "px_db s' = px_saved s' \<and> file_view (px_saved s') = file_view (px_db s) \<and>
    (\<exists>k \<in> set (upload_jobs (base (core (px_saved s')))). uj_id k = uj_id j \<and> uj_status k = COMPLETED \<and> uj_file_id k = Some (cx_file_id (px_cx s))) \<and>
    map uj_id (upload_jobs (base (core (px_saved s')))) = map uj_id (upload_jobs (base (core (px_db s))))"
proof -
  let ?rows = "upload_jobs (base (core (px_db s)))"
  let ?j = "or_else (uj_get (uj_job_id j) ?rows) j"
  obtain finished rows' where m: "uj_mark_completed ?j (cx_file_id (px_cx s)) (pv_now env) ?rows = (Some finished, rows')"
      and s': "s' = s\<lparr>px_db := with_base (\<lambda>b. b\<lparr>upload_jobs := rows'\<rparr>) (px_db s), px_saved := with_base (\<lambda>b. b\<lparr>upload_jobs := rows'\<rparr>) (px_db s)\<rparr>"
    using assms(1) by (auto simp: complete_step_def then_done put_jobs_def basic_done job_rows_def Let_def split: prod.splits if_splits)
  obtain k where k: "k \<in> set ?rows" "uj_id k = uj_id j" "uj_processing (uj_job_id ?j) k"
    using job_view_processing[OF assms(2)] unfolding or_else_get_job by blast
  define f :: "upload_job \<Rightarrow> upload_job" where "f = (\<lambda>r. r\<lparr>uj_status := COMPLETED, uj_file_id := Some (cx_file_id (px_cx s)),
     uj_completed_at := Some (pv_now env), uj_error := None, uj_log := Some (or_else (uj_log ?j) [] @ log_line ''COMPLETED'')\<rparr>)"
  have f: "\<And>r. uj_id (f r) = uj_id r \<and> uj_status (f r) = COMPLETED \<and> uj_file_id (f r) = Some (cx_file_id (px_cx s))"
      "rows' = update_where (uj_processing (uj_job_id ?j)) f ?rows"
    using m unfolding f_def uj_mark_completed_def Let_def by (simp_all split: if_splits)
  have "f k \<in> set rows'" using k by (force simp: f(2) set_update_where)
  moreover have "map uj_id rows' = map uj_id ?rows" unfolding f(2) by (rule map_update_where) (simp add: f(1))
  ultimately show ?thesis using f(1)[of k] k(2)
    by (auto simp: s' with_base_def core_views) (simp_all add: with_core_def file_view_def, blast)
qed

lemma process_done:
  assumes "process_upload_job env j s = (Done u, s')" and "both job_view W s" and "(uj_id j, uj_job_id j, PROCESSING) \<in> set W"
    and "both file_view (fs, ls) s" and "distinct (map cf_id fs)" and "\<And>f. pv_rival env = Some f \<Longrightarrow> \<not> cf_deleted f"
  shows "\<exists>p bytes k f. resolve_storage_path (pv_storage env) (uj_incoming j) = Inr p \<and>
    dk_files (px_disk s) (on_volume (pv_storage env) p) = Some bytes \<and> px_db s' = px_saved s' \<and>
    map uj_id (upload_jobs (base (core (px_saved s')))) = map fst W \<and> k \<in> set (upload_jobs (base (core (px_saved s')))) \<and>
    uj_id k = uj_id j \<and> uj_status k = COMPLETED \<and> uj_file_id k = Some (pv_sha env bytes) \<and>
    f \<in> set (files (base (core (px_saved s')))) \<and> cf_file_id f = pv_sha env bytes \<and> \<not> cf_deleted f \<and>
    \<lparr>fs_file = cf_id f, fs_service = job_service j\<rparr> \<in> set (links (base (core (px_saved s'))))"
proof -
  let ?I = "of_job W (job_service j) (uj_job_id j)"
  obtain t1 t2 t3 t4 where o: "open_job env j s = (Done (), t1)"
      and l: "log_message (''SERVICE_NAME '' @ job_service j) t1 = (Done (), t2)"
      and r: "run_plugins env load_plugins t2 = (Done (), t3)"
      and e: "when_do (\<not> cx_stop (px_cx t3)) (enqueue_vision_step env) t3 = (Done (), t4)"
      and c: "complete_step env j t4 = (Done u, s')"
    using assms(1) by (auto simp: process_upload_job_def then_done split: if_splits)
  obtain p name media m where p: "resolve_storage_path (pv_storage env) (uj_incoming j) = Inr p"
      and t1: "t1 = s\<lparr>px_cx := start_context j p name media m\<rparr>"
    using o by (cases rule: open_job_result) auto
  have I1: "?I t1" using assms(2) by (simp add: t1 of_job_def both_def start_context_def)
  have late: "preserves ?I (when_do b (enqueue_vision_step env))" "preserves (ready sha service) (when_do b (enqueue_vision_step env))" for b sha service
    by (intro step_intros jobs.enqueue_kept ready.enqueue_kept)+
  have I4: "?I t4" by (rule kept_done[OF late(1) kept_done[OF pipeline_jobs kept_done[OF jobs.log_kept I1 l] r] e])
  have "fresh_upload_context (job_service j) t1"
    unfolding fresh_upload_context_def using assms(4,5) by (auto simp: t1 start_context_def both_frame(5))
  then have "fresh_upload_context (job_service j) t2" by (rule kept_done[OF fresh_context.log_kept _ l])
  then obtain bytes where b: "dk_files (px_disk t2) (on_volume (pv_storage env) (cx_path (px_cx t2))) = Some bytes"
      and t3: "ready (pv_sha env bytes) (job_service j) t3"
    using pipeline_done[OF r _ assms(6)] by blast
  have start: "px_disk t2 = px_disk s" "cx_path (px_cx t2) = p" using log_context[OF l] by (simp_all add: t1 start_context_def)
  have "ready (pv_sha env bytes) (job_service j) t4"
    by (rule kept_done[OF late(2) t3 e])
  then obtain f where f: "cx_file_id (px_cx t4) = pv_sha env bytes" "f \<in> set (fst (file_view (px_db t4)))" "cf_file_id f = pv_sha env bytes"
      "\<not> cf_deleted f" "\<lparr>fs_file = cf_id f, fs_service = job_service j\<rparr> \<in> set (snd (file_view (px_db t4)))"
    unfolding ready_def both_def by (metis fst_conv snd_conv)
  have "job_view (px_db t4) = W" using I4 by (simp add: of_job_def both_def)
  moreover from this have "map uj_id (upload_jobs (base (core (px_db t4)))) = map fst W" by (auto simp: job_view_def)
  ultimately show ?thesis using complete_done[OF c] assms(3) f p b start
    by (auto simp: file_view_def intro!: exI[of _ p] exI[of _ bytes])
qed

lemma record_failure_done:
  assumes "both job_view W s" and "(uj_id j, uj_job_id j, PROCESSING) \<in> set W"
  obtains s' where "record_failure env j e s = (Done (), s')" and "px_db s' = px_saved s'"
    and "\<exists>k \<in> set (upload_jobs (base (core (px_saved s')))). uj_id k = uj_id j \<and> uj_status k = FAILED \<and> uj_error k = Some (error_text e)"
    and "map uj_id (upload_jobs (base (core (px_saved s')))) = map fst W"
proof -
  let ?rows = "upload_jobs (base (core (px_saved s)))"
  let ?snapshot = "Option.bind (uj_get (uj_job_id j) (job_rows s)) uj_log"
  define fresh where "fresh = (let j = or_else (uj_get (uj_job_id j) ?rows) j in if ?snapshot = None \<or> ?snapshot = Some [] then j else j\<lparr>uj_log := ?snapshot\<rparr>)"
  define rows' where "rows' = snd (uj_mark_failed fresh (error_text e) (pv_now env) ?rows)"
  let ?d = "with_base (\<lambda>b. b\<lparr>upload_jobs := rows'\<rparr>) (px_saved s)"
  have run: "record_failure env j e s = (Done (), s\<lparr>px_db := ?d, px_saved := ?d\<rparr>)"
    by (simp add: record_failure_def then_do_def read_step_def rollback_def change_step_def put_jobs_def set_db_def commit_def job_rows_def
        Let_def rows'_def fresh_def)
  have name: "uj_job_id fresh = uj_job_id j" using or_else_get_job[of j ?rows] by (simp add: fresh_def Let_def)
  have W: "job_view (px_saved s) = W" using assms(1) by (simp add: both_def)
  then obtain k where k: "k \<in> set ?rows" "uj_id k = uj_id j" "uj_processing (uj_job_id fresh) k"
    using job_view_processing[of "uj_id j" "uj_job_id j" "px_saved s"] assms(2) unfolding name by blast
  then have hit: "count_where (uj_processing (uj_job_id fresh)) ?rows \<noteq> 0" by (auto simp: count_where_def filter_empty_conv)
  have "\<exists>f. rows' = update_where (uj_processing (uj_job_id fresh)) f ?rows \<and>
      (\<forall>r. uj_id (f r) = uj_id r \<and> uj_status (f r) = FAILED \<and> uj_error (f r) = Some (error_text e))"
    unfolding rows'_def uj_mark_failed_def Let_def if_not_P[OF hit] snd_conv by (intro exI conjI, rule refl) simp
  then obtain f where f: "\<And>r. uj_id (f r) = uj_id r \<and> uj_status (f r) = FAILED \<and> uj_error (f r) = Some (error_text e)"
      "rows' = update_where (uj_processing (uj_job_id fresh)) f ?rows" by blast
  have "f k \<in> set rows'" using k by (force simp: f(2) set_update_where)
  then have "\<exists>k \<in> set rows'. uj_id k = uj_id j \<and> uj_status k = FAILED \<and> uj_error k = Some (error_text e)" using f(1)[of k] k(2) by metis
  moreover have "map uj_id rows' = map fst W" unfolding f(2) W[symmetric] job_view_def by (simp add: map_update_where f(1))
  ultimately show ?thesis using that[OF run] by (simp add: with_base_def with_core_def)
qed

text \<open>A live file row of the content that is linked to the service.\<close>

definition stored_for :: "string \<Rightarrow> string \<Rightarrow> tag_state \<Rightarrow> bool" where
  "stored_for sha service d \<longleftrightarrow> (\<exists>f. f \<in> set (files (base (core d))) \<and> cf_file_id f = sha \<and> \<not> cf_deleted f \<and>
     \<lparr>fs_file = cf_id f, fs_service = service\<rparr> \<in> set (links (base (core d))))"

lemma upload_lands_at:
  fixes s :: pipe
  assumes "uj_claim_postgres locked worker_id (pv_now env) (upload_jobs (base (core (px_saved s)))) = (Some j, rows)"
    and "process_next_job env locked worker_id s = (r, s')" and "r \<noteq> Dies"
    and "distinct (map uj_id (upload_jobs (base (core (px_saved s)))))" and "distinct (map cf_id (files (base (core (px_saved s)))))"
    and "\<And>f. pv_rival env = Some f \<Longrightarrow> \<not> cf_deleted f"
  shows "r = Done True \<and> px_db s' = px_saved s' \<and>
    (\<exists>k. find_row uj_id (uj_id j) (upload_jobs (base (core (px_saved s')))) = Some k \<and>
       (uj_status k = FAILED \<and> uj_error k \<noteq> None \<or>
        uj_status k = COMPLETED \<and>
        (\<exists>p bytes. resolve_storage_path (pv_storage env) (uj_incoming j) = Inr p \<and>
           dk_files (px_disk s) (on_volume (pv_storage env) p) = Some bytes \<and> uj_file_id k = Some (pv_sha env bytes) \<and>
           stored_for (pv_sha env bytes) (job_service j) (px_saved s'))))"
proof -
  define d where "d = with_base (\<lambda>b. b\<lparr>upload_jobs := rows\<rparr>) (px_saved s)"
  define t where "t = s\<lparr>px_db := d, px_saved := d\<rparr>"
  have run: "process_next_job env locked worker_id s =
      then_do (handle (process_upload_job env j) (record_failure env j)) (\<lambda>_. return_step True) t"
    by (simp add: process_next_job_def then_do_def rollback_def change_step_def read_step_def job_rows_def assms(1) put_jobs_def set_db_def
        commit_def t_def d_def)
  obtain w where w: "first_by uj_rank (uj_waiting locked) (upload_jobs (base (core (px_saved s)))) = Some w"
      and j: "j = uj_claimed worker_id (pv_now env) w" and rows: "rows = save_row uj_id j (upload_jobs (base (core (px_saved s))))"
    using assms(1) by (auto simp: uj_claim_postgres_def Let_def split: option.splits)
  have "uj_id j = uj_id w" "uj_status j = PROCESSING" by (simp_all add: j uj_claimed_def)
  then have mem: "j \<in> set rows" using first_by_SomeD[OF w] by (auto simp: rows set_save_row)
  have ids: "map uj_id rows = map uj_id (upload_jobs (base (core (px_saved s))))" by (simp add: rows)
  let ?W = "job_view d"
  have W: "both job_view ?W t" "(uj_id j, uj_job_id j, PROCESSING) \<in> set ?W" "map fst ?W = map uj_id rows"
    using mem \<open>uj_status j = PROCESSING\<close> by (force simp: both_def t_def d_def with_base_def core_views)+
  have V: "both file_view (files (base (core (px_saved s))), links (base (core (px_saved s)))) t"
    by (simp add: both_def t_def d_def with_base_def core_views)
  have found: "find_row uj_id (uj_id k) rs = Some k" if "k \<in> set rs" "map uj_id rs = map fst ?W" for k rs
    by (rule find_row_mem) (use that assms(4) W(3) ids in simp_all)
  show ?thesis
  proof (cases "process_upload_job env j t")
    case (Pair q u)
    note run = run[unfolded then_do_def handle_def Pair] assms(2)
    show ?thesis
    proof (cases q)
      case (Done x)
      then have "r = Done True" "s' = u" using run by (simp_all add: return_step_def)
      moreover have "px_disk t = px_disk s" by (simp add: t_def)
      ultimately show ?thesis
        using process_done[OF Pair[unfolded Done] W(1,2) V assms(5,6)] found unfolding stored_for_def by metis
    next
      case (Fails e)
      obtain v where v: "record_failure env j e u = (Done (), v)" "px_db v = px_saved v" "map uj_id (upload_jobs (base (core (px_saved v)))) = map fst ?W"
          and k: "\<exists>k \<in> set (upload_jobs (base (core (px_saved v)))). uj_id k = uj_id j \<and> uj_status k = FAILED \<and> uj_error k = Some (error_text e)"
        using record_failure_done[OF process_failed[OF Pair[unfolded Fails] W(1)] W(2)] by blast
      have "r = Done True" "s' = v" using run v(1) by (simp_all add: Fails return_step_def)
      then show ?thesis using v(2,3) k found by (metis option.distinct(1))
    next
      case Dies
      then show ?thesis using run assms(3) by simp
    qed
  qed
qed


text \<open>
  A round on concrete data: a job of AstroJournal uploads bytes of which there is a file row
  already. The round links that row and the job is COMPLETED.
\<close>

definition landing_env :: pipe_env where
  "landing_env = \<lparr>pv_storage = demo_env, pv_faults = demo_across Copied, pv_now = seconds 100, pv_year = 2026,
     pv_sha = (\<lambda>bytes. if bytes = ''bytes'' then ''ab'' else bytes),
     pv_probe = (\<lambda>_ _ _ _. Inr \<lparr>mi_category = Image, mi_extension = ''jpg'', mi_mime = ''image/jpeg'', mi_width = None, mi_height = None\<rparr>),
     pv_derive = (\<lambda>_ _ _ k. (Inl ''no decoder'', k)), pv_exif = (\<lambda>_ _. Inl ''no exif''), pv_geocode = (\<lambda>_ _. Inl ''offline''),
     pv_round = id, pv_metadata = (\<lambda>_. []),
     pv_candidate = (\<lambda>m. \<lparr>pc_display_name = [], pc_canonical_name = [], pc_address = None, pc_latitude = 0, pc_longitude = 0, pc_radius = 0,
        pc_provider_place_id = None, pc_category = [], pc_creation_source = [], pc_country = None, pc_province = None, pc_city = None,
        pc_district = None\<rparr>),
     pv_file_id = 8, pv_vision_id = 3, pv_place_id = ''p'', pv_rival = None, pv_stale = False, pv_os_text = ''os''\<rparr>"


lemma landing_env_simps:
  "pv_storage landing_env = demo_env" "pv_now landing_env = seconds 100" "pv_sha landing_env b = (if b = ''bytes'' then ''ab'' else b)"
  "pv_probe landing_env q n v k = Inr \<lparr>mi_category = Image, mi_extension = ''jpg'', mi_mime = ''image/jpeg'', mi_width = None, mi_height = None\<rparr>"
  "pv_metadata landing_env l = []" "pv_stale landing_env = False" "pv_rival landing_env = None"
  by (simp_all add: landing_env_def)

definition landing_job :: upload_job where
  "landing_job = uj_new 1 (seconds 10) ''job'' ''UPLOAD'' ''incoming/job_u.jpg'' ''AstroJournal'' None None None"

definition landing_rows :: "upload_job list \<Rightarrow> file_service_link list \<Rightarrow> tag_state" where
  "landing_rows js ls = \<lparr>core = \<lparr>base = empty_db\<lparr>files := [demo_file], upload_jobs := js, links := ls\<rparr>, file_states = [], metadata_rows = [],
      mk_places = [], histories = [], linked_at = (\<lambda>_. 0)\<rparr>, tags = [], file_tags = [], overrides = [], stored_overrides = [], suppressions = []\<rparr>"

definition landing_disk :: disk where
  "landing_disk = \<lparr>dk_files = [[''/'', ''pp'', ''incoming'', ''job_u.jpg''] \<mapsto> ''bytes''],
     dk_dirs = [[''/''], [''/'', ''pp''], [''/'', ''pp'', ''incoming'']], dk_stuck = []\<rparr>"

lemma landing_paths:
  "resolve_storage_path demo_env ''incoming/job_u.jpg'' = Inr [''/'', ''pp'', ''incoming'', ''job_u.jpg'']"
  "on_volume demo_env [''/'', ''pp'', ''incoming'', ''job_u.jpg''] = [''/'', ''pp'', ''incoming'', ''job_u.jpg'']"
  by (simp_all add: move_eval)

definition landing_start :: pipe where
  "landing_start = \<lparr>px_db = landing_rows [landing_job] [], px_saved = landing_rows [landing_job] [], px_geocache = [], px_disk = landing_disk,
      px_cx = start_context landing_job [] []
        \<lparr>mi_category = Image, mi_extension = [], mi_mime = [], mi_width = None, mi_height = None\<rparr> []\<rparr>"

lemmas step_eval = then_do_def handle_def return_step_def fail_step_def read_step_def change_step_def when_do_def commit_def rollback_def
  set_context_def set_db_def put_jobs_def

lemma landing_claim:
  "uj_claim_postgres [] ''w1'' (seconds 100) [landing_job] = (Some (uj_claimed ''w1'' (seconds 100) landing_job), [uj_claimed ''w1'' (seconds 100) landing_job])"
  by (simp add: uj_claim_postgres_def landing_job_def uj_new_def first_by_def uj_waiting_def order_by_def uj_claimed_def Let_def save_row_def first_row_def)

lemma landing_views:
  "upload_jobs (base (core (landing_rows js ls))) = js" "files (base (core (landing_rows js ls))) = [demo_file]"
  "links (base (core (landing_rows js ls))) = ls"
  "with_base (\<lambda>b. b\<lparr>upload_jobs := js'\<rparr>) (landing_rows js ls) = landing_rows js' ls"
  "on_job i g (landing_rows js ls) = landing_rows (update_where (\<lambda>j. uj_job_id j = i) g js) ls"
  "with_core (\<lambda>c. c\<lparr>base := (base c)\<lparr>links := ls'\<rparr>\<rparr>) (landing_rows js ls) = landing_rows js ls'"
  by (simp_all add: landing_rows_def with_base_def with_core_def on_job_def)


lemma landing_job_simps:
  "uj_job_id (uj_append_log m j) = uj_job_id j" "uj_status (uj_append_log m j) = uj_status j"
  "uj_client_sha (uj_append_log m j) = uj_client_sha j"
  "uj_job_id (uj_claimed w n j) = uj_job_id j" "uj_status (uj_claimed w n j) = PROCESSING" "uj_incoming (uj_claimed w n j) = uj_incoming j"
  "uj_service (uj_claimed w n j) = uj_service j" "uj_source (uj_claimed w n j) = uj_source j"
  "uj_job_id landing_job = ''job''" "uj_incoming landing_job = ''incoming/job_u.jpg''" "uj_service landing_job = ''AstroJournal''"
  "uj_source landing_job = ''UPLOAD''"
  by (simp_all add: uj_append_log_def uj_claimed_def landing_job_def uj_new_def)

lemma landing_disk_facts:
  "dk_files landing_disk [''/'', ''pp'', ''incoming'', ''job_u.jpg''] = Some ''bytes''"
  "\<exists>k. delete_incoming demo_env ''incoming/job_u.jpg'' landing_disk = (Inr (), k)"
  by (simp_all add: landing_disk_def delete_incoming_def delete_resolved_def landing_paths unlink_missing_ok_def path_exists_def unlink_def Let_def)


lemma landing_link:
  "link_file landing_env 7 ''AstroJournal'' \<lparr>px_db = landing_rows js [], px_saved = d, px_geocache = [], px_disk = q, px_cx = c\<rparr> =
    (Done True, \<lparr>px_db = landing_rows js [\<lparr>fs_file = 7, fs_service = ''AstroJournal''\<rparr>], px_saved = d, px_geocache = [], px_disk = q, px_cx = c\<rparr>)"
  by (simp add: link_file_def landing_env_simps landing_rows_def ensure_link_def fs_get_def fs_insert_ok_def demo_file_def with_core_def memorykeeper_def empty_db_def Let_def)

lemma landing_file: "cf_id demo_file = 7" "cf_file_id demo_file = ''ab''" "cf_deleted demo_file = False" "cf_service demo_file = ''AstroJournal''"
  and landing_service: "is_mk_service ''AstroJournal'' = False"
  by (simp_all add: demo_file_def is_mk_service_def lower_def lower_char_def is_upper_ascii_def)

lemma landing_round:
  "\<exists>k ls s'. process_next_job landing_env [] ''w1'' landing_start = (Done True, s') \<and> uj_status k = COMPLETED \<and> px_saved s' = landing_rows [k] ls"
proof -
  obtain k where k: "delete_incoming demo_env ''incoming/job_u.jpg'' landing_disk = (Inr (), k)" using landing_disk_facts(2) by blast
  show ?thesis
  by (simp add: process_next_job_def step_eval landing_start_def landing_env_simps landing_views landing_claim job_rows_def
   process_upload_job_def open_job_def landing_paths load_plugins_order
    hash_plugin_def hash_incoming_def log_message_def landing_disk_facts start_context_def
     landing_job_simps job_service_def is_mobile_mk_def file_by_sha_def use_existing_def has_service_link_def exists_row_def
landing_file landing_service link_and_project_def landing_link memorykeeper_def project_link_def
    drop_incoming_def k log_link_def complete_step_def Let_def uj_get_def uj_mark_completed_def count_where_def uj_processing_def)
    (rule exI, rule conjI[rotated], rule exI, rule refl, simp)
qed



end
