(* ===== verification/IntakeLaws.thy ===== *)
theory IntakeLaws
  imports UploadIntake PipelineLaws
begin

text \<open>
  What the upload request promises: the name it stores bytes under is harmless, an accepted
  upload has its bytes on the disk and a waiting job, a refused one leaves nothing, a repeated one is
  answered alike, and what was accepted ends up as a file of the service.
\<close>

section \<open>Safe names\<close>

lemma squash_safe: "c \<in> set (squash_unsafe b s) \<Longrightarrow> safe_char c"
proof (induction b s rule: squash_unsafe.induct)
  case (2 after c' s)
  then show ?case by (auto simp: safe_char_def split: if_splits)
qed simp

lemma or_unknown_safe: "\<forall>c \<in> set s. safe_char c \<Longrightarrow> or_unknown s \<noteq> [] \<and> (\<forall>c \<in> set (or_unknown s). safe_char c)"
  by (auto simp: or_unknown_def safe_char_def is_lower_ascii_def)

lemma take_bytes_set: "set (take_bytes n s) \<subseteq> set s"
  by (induction n s rule: take_bytes.induct) auto

lemma split_suffix_append: "fst (split_suffix s) @ snd (split_suffix s) = s"
proof -
  let ?e = "takeWhile (\<lambda>c. c \<noteq> CHR ''.'') (rev s)"
  let ?r = "dropWhile (\<lambda>c. c \<noteq> CHR ''.'') (rev s)"
  have r: "drop (length ?e) (rev s) = ?r" by (rule dropWhile_eq_drop[symmetric])
  have split: "split_suffix s = (if ?e = [] \<or> length ?r \<le> 1 then (s, []) else (rev (tl ?r), CHR ''.'' # rev ?e))"
    by (simp only: split_suffix_def Let_def r)
  show ?thesis
  proof (cases "?e = [] \<or> length ?r \<le> 1")
    case True
    then show ?thesis unfolding split if_P[OF True] by simp
  next
    case False
    then have "1 < length ?r" by (simp only: de_Morgan_disj not_le)
    then have "?r \<noteq> []" by (metis length_0_conv not_less0)
    moreover from this have "hd ?r = CHR ''.''" using hd_dropWhile[of "\<lambda>c. c \<noteq> CHR ''.''" "rev s"] by blast
    ultimately have "?r = CHR ''.'' # tl ?r" by (metis list.collapse)
    then have "rev s = ?e @ CHR ''.'' # tl ?r" by (metis takeWhile_dropWhile_id)
    then have "rev (rev s) = rev (?e @ CHR ''.'' # tl ?r)" by (rule arg_cong)
    then have "s = rev (tl ?r) @ CHR ''.'' # rev ?e"
      by (simp only: rev_rev_ident rev_append rev.simps append.assoc append.simps)
    then show ?thesis unfolding split if_not_P[OF False] by simp
  qed
qed

lemma hd_strip_dots: "hd (or_unknown (strip_dots s)) \<noteq> CHR ''.''"
  using hd_strip_while[of "\<lambda>c. c = CHR '' '' \<or> c = CHR ''.''" s] by (auto simp: or_unknown_def strip_dots_def)

lemma safe_ascii: "safe_char c \<Longrightarrow> utf8_size c = 1"
  by (auto simp: safe_char_def utf8_size_def is_upper_ascii_def is_lower_ascii_def is_digit_char_def)

lemma safe_text_bytes: "\<forall>c \<in> set s. safe_char c \<Longrightarrow> text_bytes s = length s"
  unfolding text_bytes_def by (induction s) (auto simp: safe_ascii)

lemma take_bytes_safe: "\<forall>c \<in> set s. safe_char c \<Longrightarrow> take_bytes n s = take n s"
proof (induction n s rule: take_bytes.induct)
  case (2 n c s)
  then show ?case by (cases n) (auto simp: safe_ascii)
qed simp

lemma truncate_safe:
  assumes "\<forall>c \<in> set name. safe_char c" and "name \<noteq> []" and "hd name \<noteq> CHR ''.''"
  shows "truncate_filename name \<noteq> [] \<and> hd (truncate_filename name) \<noteq> CHR ''.'' \<and> (\<forall>c \<in> set (truncate_filename name). safe_char c) \<and> text_bytes (truncate_filename name) \<le> max_incoming_bytes"
proof (cases "text_bytes name \<le> max_incoming_bytes")
  case True
  then show ?thesis using assms by (simp add: truncate_filename_def)
next
  case False
  define suffix where "suffix = (if max_incoming_bytes \<le> text_bytes (snd (split_suffix name)) then [] else snd (split_suffix name))"
  define stem where "stem = take (length name - length suffix) name"
  define short where "short = rstrip_while (\<lambda>c. c = CHR '' '' \<or> c = CHR ''.'') (take_bytes (max_incoming_bytes - text_bytes suffix) stem)"
  have result: "truncate_filename name = or_unknown short @ suffix"
    using False by (simp add: truncate_filename_def suffix_def stem_def short_def Let_def)
  have ns: "\<exists>p. name = p @ suffix" unfolding suffix_def using split_suffix_append by (metis append_Nil2)
  then obtain p where p: "name = p @ suffix" by blast
  have stem: "stem = p" by (simp add: stem_def p)
  have safe: "\<forall>c \<in> set p. safe_char c" "\<forall>c \<in> set suffix. safe_char c" using assms(1) by (auto simp: p)
  have len: "length suffix < max_incoming_bytes" "max_incoming_bytes < length name"
    using safe_text_bytes[OF safe(2)] False safe_text_bytes[OF assms(1)] by (auto simp: suffix_def max_incoming_bytes_def split: if_splits)
  let ?n = "max_incoming_bytes - length suffix"
  have t: "take_bytes (max_incoming_bytes - text_bytes suffix) stem = take ?n p"
    using take_bytes_safe[OF safe(1)] safe_text_bytes[OF safe(2)] by (simp add: stem)
  have long: "?n < length p" using len by (simp add: p)
  then obtain c q where c: "p = c # q" by (cases p) auto
  have "c \<noteq> CHR ''.''" "c \<noteq> CHR '' ''" using assms(1,3) by (auto simp: p c safe_char_def is_upper_ascii_def is_lower_ascii_def is_digit_char_def)
  moreover obtain m where m: "?n = Suc m" using len(1) by (metis zero_less_diff gr0_implies_Suc)
  ultimately have "short \<noteq> []" unfolding short_def t rstrip_while_def
    by (auto simp: c dropWhile_eq_Nil_conv)
  moreover have set: "set short \<subseteq> set p" unfolding short_def t using set_rstrip_while set_take_subset by (metis subset_trans)
  moreover have "length short \<le> ?n" unfolding short_def t by (rule order.trans[OF length_rstrip_while]) simp
  ultimately have short: "or_unknown short = short" "\<forall>c \<in> set (short @ suffix). safe_char c" "length (short @ suffix) \<le> max_incoming_bytes"
    using safe len by (auto simp: or_unknown_def)
  obtain z where "take ?n p = short @ z" using rstrip_while_decomp[of "take ?n p"] unfolding short_def t by blast
  then have "hd short = c" using \<open>short \<noteq> []\<close> m by (cases short) (auto simp: c)
  then show ?thesis using \<open>short \<noteq> []\<close> \<open>c \<noteq> CHR ''.''\<close> safe_text_bytes[OF short(2)] short by (simp add: result)
qed

text \<open>
  The name an upload is stored under is harmless, whatever name the client sent: it is not empty,
  has only letters, digits, underscores, hyphens and dots, does not start with a dot, and takes
  at most 180 bytes.
\<close>

lemma sanitize_safe:
  "sanitize_filename f \<noteq> [] \<and> hd (sanitize_filename f) \<noteq> CHR ''.'' \<and> (\<forall>c \<in> set (sanitize_filename f). safe_char c) \<and> text_bytes (sanitize_filename f) \<le> 180"
proof -
  define name where "name = or_unknown (strip_dots (squash_unsafe False (or_unknown (strip (path_name f)))))"
  have sub: "set (strip_dots s) \<subseteq> set s" for s unfolding strip_dots_def by (rule set_strip_while)
  then have safe: "name \<noteq> [] \<and> (\<forall>c \<in> set name. safe_char c)"
    unfolding name_def by (intro or_unknown_safe) (meson squash_safe subsetD)
  have dot: "hd name \<noteq> CHR ''.''" unfolding name_def by (rule hd_strip_dots)
  let ?n = "if upper (fst (split_suffix name)) \<in> set reserved_names then CHR ''_'' # name else name"
  have "\<forall>c \<in> set ?n. safe_char c" "?n \<noteq> []" "hd ?n \<noteq> CHR ''.''" using safe dot by (auto simp: safe_char_def)
  from truncate_safe[OF this] show ?thesis
    unfolding sanitize_filename_def name_def[symmetric] Let_def max_incoming_bytes_def by simp
qed

section \<open>The incoming file\<close>

text \<open>
  The incoming directory is the one of that name below the storage root, and real paths of plain
  names in it are what they seem: no symbolic links among the incoming files.
\<close>

definition store_layout :: "storage_env \<Rightarrow> path \<Rightarrow> bool" where
  "store_layout env sr \<longleftrightarrow> se_real env (se_root env) = Some sr \<and> se_real env (se_incoming env) = Some (sr @ [''incoming'']) \<and>
     (\<forall>n. plain_dir_name n \<longrightarrow> se_real env (se_incoming env @ [n]) = Some (sr @ [''incoming'', n]) \<and>
        se_real env (sr @ [''incoming'', n]) = Some (sr @ [''incoming'', n]))"

definition incoming_name :: "intake_env \<Rightarrow> upload_request \<Rightarrow> string" where
  "incoming_name env rq = iv_job_id env @ ''_'' @ sanitize_filename (iv_decode env (rq_filename rq))"

lemma safe_not:
  "safe_char c \<Longrightarrow> c \<noteq> slash \<and> c \<noteq> CHR 92 \<and> c \<notin> set unsafe_tokens \<and> \<not> is_space c"
  by (auto simp: safe_char_def is_upper_ascii_def is_lower_ascii_def is_digit_char_def slash_def unsafe_tokens_def is_space_def)

lemma incoming_name_facts:
  assumes "list_all safe_char (iv_job_id env)"
  shows "\<forall>c \<in> set (incoming_name env rq). safe_char c" and "plain_dir_name (incoming_name env rq)"
proof -
  show safe: "\<forall>c \<in> set (incoming_name env rq). safe_char c"
    using assms sanitize_safe[of "iv_decode env (rq_filename rq)"] by (auto simp: incoming_name_def list_all_iff safe_char_def)
  have "incoming_name env rq \<noteq> ''.'' \<and> incoming_name env rq \<noteq> ''..''"
  proof -
    have "CHR ''_'' \<in> set (incoming_name env rq)" by (simp add: incoming_name_def)
    then show ?thesis by auto
  qed
  moreover have "incoming_name env rq \<noteq> []" by (simp add: incoming_name_def)
  ultimately show "plain_dir_name (incoming_name env rq)"
    unfolding plain_dir_name_def list_all_iff using safe safe_not by blast
qed

lemma plain_parts: "plain_dir_name n \<Longrightarrow> path_parts n = [n] \<and> \<not> is_absolute n"
proof -
  assume n: "plain_dir_name n"
  then have "split_on slash n = [n]" by (intro split_on_absent) (auto simp: plain_dir_name_def list_all_iff)
  moreover obtain c s where "n = c # s" "c \<noteq> slash" using n by (cases n) (auto simp: plain_dir_name_def)
  ultimately show ?thesis using n by (auto simp: path_parts_def is_absolute_def starts_with_def plain_dir_name_def slash_def)
qed

lemma incoming_resolves:
  assumes "store_layout env sr" and "plain_dir_name n" and "\<forall>c \<in> set n. safe_char c"
  shows "resolve_storage_path env (''incoming/'' @ n) = Inr (sr @ [''incoming'', n])"
proof -
  let ?s = "''incoming/'' @ n"
  have n: "n \<noteq> []" using assms(2) by (simp add: plain_dir_name_def)
  then have "last ?s = last n" by simp
  then have "\<not> is_space (last ?s)" using assms(3) n safe_not by (metis last_in_set)
  moreover have "\<not> is_space (hd ?s)" by (simp add: is_space_def)
  ultimately have strip: "strip ?s = ?s" unfolding strip_def by (intro strip_while_id) simp
  have "CHR 92 \<notin> set ?s" using assms(3) safe_not by auto
  then have norm: "replace_char (CHR 92) slash ?s = ?s" unfolding replace_char_def by (intro map_idI) auto
  have abs: "\<not> is_absolute ?s" by (simp add: is_absolute_def starts_with_def)
  have rel: "to_storage_relative ?s = ?s"
    by (simp add: to_storage_relative_def lstrip_while_def slash_def root_names_def Let_def starts_with_def)
  have "split_on slash ?s = [''incoming'', n]"
  proof -
    have "split_on slash (''incoming'' @ slash # n) = ''incoming'' # split_on slash n" by (rule split_on_append) (simp add: slash_def)
    moreover have "split_on slash n = [n]" by (rule split_on_absent) (use assms(3) safe_not in blast)
    ultimately show ?thesis by (simp add: slash_def)
  qed
  then have parts: "path_parts ?s = [''incoming'', n]"
    using assms(2) by (simp add: path_parts_def starts_with_def plain_dir_name_def)
  have "se_real env (se_root env) = Some sr" "se_real env (sr @ [''incoming'', n]) = Some (sr @ [''incoming'', n])"
    using assms(1,2) by (simp_all add: store_layout_def)
  moreover have "below sr (sr @ [''incoming'', n])" by (rule below_append)
  ultimately show ?thesis
    unfolding resolve_storage_path_def strip norm Let_def is_local_absolute_path_def rel path_join_def parts
    using abs by (simp add: raise_if_def resolve_def)
qed

lemma incoming_file_name:
  assumes "list_all safe_char (iv_job_id env)"
  shows "incoming_file env rq = se_incoming (iv_storage env) @ [incoming_name env rq]"
  using plain_parts[OF incoming_name_facts(2)[OF assms, of rq]] unfolding incoming_file_def incoming_name_def[symmetric] by (simp add: path_join_def)

lemma incoming_saved:
  assumes "save_incoming env rq k = (Some s, k')" and "store_layout (iv_storage env) sr" and "list_all safe_char (iv_job_id env)"
  shows "s = ''incoming/'' @ incoming_name env rq" and "resolve_storage_path (iv_storage env) s = Inr (sr @ [''incoming'', incoming_name env rq])"
    and "on_volume (iv_storage env) (sr @ [''incoming'', incoming_name env rq]) = sr @ [''incoming'', incoming_name env rq]"
    and "dk_files k' = (dk_files k)(sr @ [''incoming'', incoming_name env rq] \<mapsto> rq_bytes rq)"
proof -
  let ?n = "incoming_name env rq" and ?se = "iv_storage env"
  note n = incoming_name_facts[OF assms(3)]
  note p = incoming_file_name[OF assms(3), of rq]
  have real: "se_real ?se (se_incoming ?se @ [?n]) = Some (sr @ [''incoming'', ?n])"
      "se_real ?se (sr @ [''incoming'', ?n]) = Some (sr @ [''incoming'', ?n])" "se_real ?se (se_root ?se) = Some sr"
    using assms(2) n(2) by (auto simp: store_layout_def)
  show vol: "on_volume ?se (sr @ [''incoming'', ?n]) = sr @ [''incoming'', ?n]" by (simp add: on_volume_def real(2))
  have volp: "on_volume ?se (se_incoming ?se @ [?n]) = sr @ [''incoming'', ?n]" by (simp add: on_volume_def real(1))
  obtain k1 where k1: "make_dirs (on_volume ?se (se_incoming ?se)) k = Some k1"
      and w: "k' = write_file (sr @ [''incoming'', ?n]) (rq_bytes rq) k1" and r: "to_relative_path ?se (se_incoming ?se @ [?n]) = Inr s"
    using assms(1) by (auto simp: save_incoming_def p volp Let_def butlast_append split: option.splits write_outcome.splits sum.splits)
  show s: "s = ''incoming/'' @ ?n"
    using r by (simp add: to_relative_path_def resolve_def real as_posix_def slash_def)
  show "resolve_storage_path ?se s = Inr (sr @ [''incoming'', ?n])"
    unfolding s by (rule incoming_resolves[OF assms(2) n(2,1)])
  show "dk_files k' = (dk_files k)(sr @ [''incoming'', ?n] \<mapsto> rq_bytes rq)"
    using make_dirs_files[OF k1] by (simp add: w write_file_def)
qed

section \<open>How a request ends\<close>

definition replayed :: "upload_reply \<Rightarrow> bool" where
  "replayed r \<longleftrightarrow> (case ur_details r of None \<Rightarrow> False | Some u \<Rightarrow> ud_replay u)"

definition rival_rows :: "intake_env \<Rightarrow> upload_job list" where
  "rival_rows env = (case iv_rival env of None \<Rightarrow> [] | Some r \<Rightarrow> [r])"

text \<open>A known client id: the job is answered again; at most its missing hash is filled in.\<close>

lemma idempotent_result:
  assumes "idempotent_response j sha source d = (Inr reply, d')"
  obtains j' where "replayed reply" and "reply = reply_of (Some (details_of (files d) True j')) j'"
    and "uj_source j = source" and "uj_id j' = uj_id j" and "uj_job_id j' = uj_job_id j" and "uj_source j' = source"
    and "uj_service j' = uj_service j" and "uj_client_id j' = uj_client_id j"
    and "sha \<noteq> None \<Longrightarrow> sha \<noteq> Some [] \<Longrightarrow> uj_client_sha j' = sha" and "(j', upload_jobs d') = (j, upload_jobs d) \<or>
      (\<exists>s. sha = Some s \<and> j' = j\<lparr>uj_client_sha := sha\<rparr> \<and> upload_jobs d' = update_where (\<lambda>r. uj_id r = uj_id j) (\<lambda>r. r\<lparr>uj_client_sha := sha\<rparr>) (upload_jobs d))"
    and "d' = d\<lparr>upload_jobs := upload_jobs d'\<rparr>"
proof -
  define existing where "existing = (if uj_client_sha j = Some [] then None else uj_client_sha j)"
  have ok: "uj_source j = source" "\<not> (existing \<noteq> None \<and> sha \<noteq> None \<and> existing \<noteq> sha)"
    using assms by (auto simp: idempotent_response_def existing_def[symmetric] Let_def split: if_splits)
  obtain j' rows where r: "(case sha of Some s \<Rightarrow> if existing = None then uj_set_client_sha j s (upload_jobs d) else (j, upload_jobs d)
      | None \<Rightarrow> (j, upload_jobs d)) = (j', rows)" by fastforce
  have reply: "reply = reply_of (Some (details_of (files d) True j')) j'" "d' = d\<lparr>upload_jobs := rows\<rparr>"
    using assms ok r by (auto simp: idempotent_response_def existing_def[symmetric] Let_def split: if_splits)
  have j': "(j', rows) = (j, upload_jobs d) \<or> (\<exists>s. sha = Some s \<and> existing = None \<and> j' = j\<lparr>uj_client_sha := sha\<rparr> \<and>
      rows = update_where (\<lambda>r. uj_id r = uj_id j) (\<lambda>r. r\<lparr>uj_client_sha := sha\<rparr>) (upload_jobs d))"
    using r by (auto simp: uj_set_client_sha_def existing_def Let_def split: option.splits if_splits)
  have "replayed reply" by (simp add: reply replayed_def reply_of_def details_of_def)
  moreover have "uj_client_sha j' = sha" if "sha \<noteq> None" "sha \<noteq> Some []"
  proof (cases "existing = None")
    case True
    then show ?thesis using r that by (auto simp: uj_set_client_sha_def existing_def Let_def split: option.splits if_splits)
  next
    case False
    then have "existing = sha" "j' = j" using ok(2) that r by (auto split: option.splits)
    then show ?thesis using False by (auto simp: existing_def split: if_splits)
  qed
  moreover have "uj_id j' = uj_id j" "uj_job_id j' = uj_job_id j" "uj_source j' = source" "uj_service j' = uj_service j" "uj_client_id j' = uj_client_id j"
    using j' ok(1) by (elim disjE exE conjE; simp)+
  moreover have rows: "upload_jobs d' = rows" by (simp add: reply(2))
  moreover have "(j', upload_jobs d') = (j, upload_jobs d) \<or> (\<exists>s. sha = Some s \<and> j' = j\<lparr>uj_client_sha := sha\<rparr> \<and>
      upload_jobs d' = update_where (\<lambda>r. uj_id r = uj_id j) (\<lambda>r. r\<lparr>uj_client_sha := sha\<rparr>) (upload_jobs d))"
    using j' unfolding rows by blast
  moreover have "d' = d\<lparr>upload_jobs := upload_jobs d'\<rparr>" unfolding rows by (rule reply(2))
  ultimately show ?thesis using that[of j'] reply(1) ok(1) by blast
qed

lemma upload_file_result:
  assumes "upload_file env rq d k = (Inr reply, d', k')"
  obtains service source client_id sha lg where "validate_upload env rq = Inr (service, source, client_id, sha, lg)"
    and "(\<exists>c existing. client_id = Some c \<and> uj_get_by_client service c (upload_jobs d) = Some existing \<and>
        idempotent_response existing sha source d = (Inr reply, d') \<and> k' = k) \<or>
      (Option.bind client_id (\<lambda>c. uj_get_by_client service c (upload_jobs d)) = None \<and>
        (\<exists>incoming k1. save_incoming env rq k = (Some incoming, k1) \<and>
          insert_upload env (uj_new (iv_row_id env) (iv_now env) (iv_job_id env) source incoming service client_id sha lg) sha d k1 = (Inr reply, d', k')))"
proof -
  obtain service source client_id sha lg where v: "validate_upload env rq = Inr (service, source, client_id, sha, lg)"
    using assms by (cases "validate_upload env rq") (auto simp: upload_file_def)
  let ?new = "\<lambda>incoming. uj_new (iv_row_id env) (iv_now env) (iv_job_id env) source incoming service client_id sha lg"
  show ?thesis
  proof (cases "Option.bind client_id (\<lambda>c. uj_get_by_client service c (upload_jobs d))")
    case (Some existing)
    then obtain c where "client_id = Some c" "uj_get_by_client service c (upload_jobs d) = Some existing" by (cases client_id) auto
    then show ?thesis using assms v Some that by (auto simp: upload_file_def Let_def split: prod.splits)
  next
    case None
    have "receive_upload env rq ?new d k = (Inr reply, d', k')"
      using assms by (auto simp: upload_file_def v None split: if_splits)
    then obtain incoming k1 where "save_incoming env rq k = (Some incoming, k1)" "insert_upload env (?new incoming) sha d k1 = (Inr reply, d', k')"
      by (auto simp: receive_upload_def refuse_def uj_new_def split: prod.splits option.splits sum.splits probe_outcome.splits)
    then show ?thesis using v None that by blast
  qed
qed

lemma insert_upload_result:
  assumes "insert_upload env j sha d k = (Inr reply, d', k')"
  shows "(upload_jobs d' = upload_jobs d @ rival_rows env @ [j] \<and> d' = d\<lparr>upload_jobs := upload_jobs d'\<rparr> \<and> k' = k \<and> \<not> replayed reply \<and>
       ur_id reply = uj_id j \<and> ur_job_id reply = uj_job_id j \<and> uj_insert_ok j (upload_jobs d @ rival_rows env)) \<or>
     (\<exists>c existing. uj_client_id j = Some c \<and> uj_get_by_client (uj_service j) c (upload_jobs d @ rival_rows env) = Some existing \<and>
        idempotent_response existing sha (uj_source j) (d\<lparr>upload_jobs := upload_jobs d @ rival_rows env\<rparr>) = (Inr reply, d'))"
proof -
  have d: "(case iv_rival env of None \<Rightarrow> d | Some r \<Rightarrow> d\<lparr>upload_jobs := upload_jobs d @ [r]\<rparr>) = d\<lparr>upload_jobs := upload_jobs d @ rival_rows env\<rparr>"
    by (auto simp: rival_rows_def split: option.splits)
  show ?thesis
  proof (cases "uj_insert_ok j (upload_jobs d @ rival_rows env)")
    case True
    then show ?thesis using assms
      by (auto simp: insert_upload_def d Let_def uj_create_waiting_def reply_of_def replayed_def details_of_def split: if_splits)
  next
    case False
    then show ?thesis using assms
      by (auto simp: insert_upload_def d Let_def uj_create_waiting_def bind_eq_Some_conv split: prod.splits sum.splits option.splits)
  qed
qed

lemma validate_service:
  "validate_upload env rq = Inr (service, source, client_id, sha, lg) \<Longrightarrow> service = strip (rq_service rq) \<and> sha \<noteq> Some []"
  by (auto simp: validate_upload_def validate_service_name_def normalize_client_sha_def Let_def split: if_splits option.splits)

lemma accepted_service:
  assumes "upload_file env rq d k = (Inr reply, d', k')"
  shows "strip (rq_service rq) \<in> {''MemoryKeeper'', ''AstroJournal''}"
  using assms by (auto simp: upload_file_def validate_upload_def validate_service_name_def Let_def split: if_splits sum.splits)

lemma upload_accepted_job:
  assumes "upload_file env rq d k = (Inr reply, d', k')" and "\<not> replayed reply"
    and "store_layout (iv_storage env) sr" and "list_all safe_char (iv_job_id env)"
  shows "\<exists>j p. upload_jobs d' = upload_jobs d @ rival_rows env @ [j] \<and> d' = d\<lparr>upload_jobs := upload_jobs d'\<rparr> \<and>
    uj_id j = ur_id reply \<and> uj_job_id j = ur_job_id reply \<and> uj_status j = WAITING \<and> uj_service j = strip (rq_service rq) \<and>
    resolve_storage_path (iv_storage env) (uj_incoming j) = Inr p \<and> on_volume (iv_storage env) p = p \<and>
    dk_files k' = (dk_files k)(p \<mapsto> rq_bytes rq)"
proof -
  obtain service source client_id sha lg where v: "validate_upload env rq = Inr (service, source, client_id, sha, lg)"
    and r: "(\<exists>c existing. client_id = Some c \<and> uj_get_by_client service c (upload_jobs d) = Some existing \<and>
        idempotent_response existing sha source d = (Inr reply, d') \<and> k' = k) \<or>
      (Option.bind client_id (\<lambda>c. uj_get_by_client service c (upload_jobs d)) = None \<and>
        (\<exists>incoming k1. save_incoming env rq k = (Some incoming, k1) \<and>
          insert_upload env (uj_new (iv_row_id env) (iv_now env) (iv_job_id env) source incoming service client_id sha lg) sha d k1 = (Inr reply, d', k')))"
    using upload_file_result[OF assms(1)] by blast
  have "\<not> (\<exists>existing d0. idempotent_response existing sha source d0 = (Inr reply, d'))"
    using idempotent_result assms(2) by metis
  then obtain incoming k1 where s: "save_incoming env rq k = (Some incoming, k1)"
      and i: "insert_upload env (uj_new (iv_row_id env) (iv_now env) (iv_job_id env) source incoming service client_id sha lg) sha d k1 = (Inr reply, d', k')"
    using r by blast
  let ?j = "uj_new (iv_row_id env) (iv_now env) (iv_job_id env) source incoming service client_id sha lg"
  have src: "uj_source ?j = source" "uj_status ?j = WAITING" "uj_service ?j = service" "uj_incoming ?j = incoming" by (simp_all add: uj_new_def)
  have "upload_jobs d' = upload_jobs d @ rival_rows env @ [?j] \<and> d' = d\<lparr>upload_jobs := upload_jobs d'\<rparr> \<and> k' = k1 \<and>
      ur_id reply = uj_id ?j \<and> ur_job_id reply = uj_job_id ?j"
    using insert_upload_result[OF i] \<open>\<not> (\<exists>existing d0. _ existing d0)\<close> unfolding src by blast
  then show ?thesis
    using incoming_saved[OF s assms(3,4)] validate_service[OF v] src by (intro exI[of _ ?j] exI) (auto simp: fun_upd_def)
qed

text \<open>
  C3. An upload that is accepted as new is there: exactly one job was added, waiting, for the requested
  service, and its incoming path leads to a file with exactly the bytes of the request; no
  other file and no other table changed.
\<close>

theorem upload_accepted:
  assumes "upload_file env rq d k = (Inr reply, d', k')" and "\<not> replayed reply"
    and "store_layout (iv_storage env) sr" and "list_all safe_char (iv_job_id env)"
  shows "\<exists>j p. upload_jobs d' = upload_jobs d @ rival_rows env @ [j] \<and> d' = d\<lparr>upload_jobs := upload_jobs d'\<rparr> \<and>
    uj_id j = ur_id reply \<and> uj_job_id j = ur_job_id reply \<and> uj_status j = WAITING \<and> uj_service j = strip (rq_service rq) \<and>
    resolve_storage_path (iv_storage env) (uj_incoming j) = Inr p \<and> on_volume (iv_storage env) p = p \<and>
    dk_files k' = (dk_files k)(p \<mapsto> rq_bytes rq)"
  using assms by (rule upload_accepted_job)

section \<open>Refused and repeated requests\<close>

text \<open>Where the bytes of a request go.\<close>

definition incoming_place :: "intake_env \<Rightarrow> upload_request \<Rightarrow> path \<Rightarrow> path" where
  "incoming_place env rq sr = sr @ [''incoming'', incoming_name env rq]"

definition place_free :: "path \<Rightarrow> disk \<Rightarrow> bool" where
  "place_free p k \<longleftrightarrow> dk_files k p = None \<and> p \<notin> set (dk_dirs k) \<and> p \<notin> set (dk_stuck k)"

lemma make_dirs_dirs: "make_dirs q k = Some k1 \<Longrightarrow> x \<in> set (dk_dirs k1) \<Longrightarrow> x \<in> set (dk_dirs k) \<or> length x \<le> length q"
  unfolding make_dirs_def Let_def by (auto simp del: upt_Suc split: if_splits)

lemma incoming_dropped:
  assumes "save_incoming env rq k = (Some s, k')" and "store_layout (iv_storage env) sr" and "list_all safe_char (iv_job_id env)"
    and "place_free (incoming_place env rq sr) k"
  obtains k'' where "delete_incoming (iv_storage env) s k' = (Inr (), k'')" and "dk_files k'' = dk_files k"
proof -
  let ?p = "incoming_place env rq sr"
  note saved = incoming_saved[OF assms(1-3), folded incoming_place_def]
  obtain k1 where k1: "make_dirs (sr @ [''incoming'']) k = Some k1" and k': "dk_dirs k' = dk_dirs k1" "dk_stuck k' = dk_stuck k1"
  proof -
    have "on_volume (iv_storage env) (se_incoming (iv_storage env)) = sr @ [''incoming'']" using assms(2) by (simp add: store_layout_def on_volume_def)
    then show ?thesis using assms(1) that
      by (auto simp: save_incoming_def incoming_file_name[OF assms(3)] Let_def write_file_def split: option.splits write_outcome.splits sum.splits)
  qed
  have "x \<in> set (dk_dirs k) \<or> length x \<le> Suc (length sr)" if "x \<in> set (dk_dirs k1)" for x
    using make_dirs_dirs[OF k1 that] by simp
  moreover have "length ?p = Suc (Suc (length sr))" by (simp add: incoming_place_def)
  ultimately have ok: "?p \<notin> set (dk_dirs k')" "?p \<notin> set (dk_stuck k')"
    using assms(4) make_dirs_files[OF k1] unfolding k' place_free_def by (metis Suc_n_not_le_n, simp)
  have "delete_incoming (iv_storage env) s k' = (Inr (), k'\<lparr>dk_files := (dk_files k')(?p := None)\<rparr>)"
    using ok saved(4) by (simp add: delete_incoming_def delete_resolved_def saved(2,3) unlink_missing_ok_def unlink_def path_exists_def)
  moreover have "(dk_files k')(?p := None) = dk_files k" using assms(4) saved(4) by (auto simp: place_free_def)
  ultimately show ?thesis using that by simp
qed


lemma find_update_where:
  assumes "\<And>r. P (f r) = P r"
  shows "List.find P (update_where Q f rows) = map_option (\<lambda>r. if Q r then f r else r) (List.find P rows)"
  by (induction rows) (auto simp: assms)

text \<open>The answer to a known client id is the same when it is given again.\<close>

lemma idempotent_again:
  assumes "idempotent_response j sha source d = (Inr reply, d')" and "uj_get_by_client service c (upload_jobs d) = Some j" and "sha \<noteq> Some []"
  shows "\<exists>j'. uj_get_by_client service c (upload_jobs d') = Some j' \<and> idempotent_response j' sha source d' = (Inr reply, d') \<and>
    reply = reply_of (Some (details_of (files d) True j')) j' \<and> uj_job_id j' = uj_job_id j"
proof -
  obtain j' where r: "reply = reply_of (Some (details_of (files d) True j')) j'" "uj_source j' = source" "uj_job_id j' = uj_job_id j"
    and sha: "sha \<noteq> None \<Longrightarrow> sha \<noteq> Some [] \<Longrightarrow> uj_client_sha j' = sha"
    and rows: "(j', upload_jobs d') = (j, upload_jobs d) \<or>
      (\<exists>s. sha = Some s \<and> j' = j\<lparr>uj_client_sha := sha\<rparr> \<and> upload_jobs d' = update_where (\<lambda>r. uj_id r = uj_id j) (\<lambda>r. r\<lparr>uj_client_sha := sha\<rparr>) (upload_jobs d))"
    and d': "d' = d\<lparr>upload_jobs := upload_jobs d'\<rparr>"
    by (rule idempotent_result[OF assms(1)]) blast
  have found: "uj_get_by_client service c (upload_jobs d') = Some j'"
    using rows assms(2) by (auto simp: uj_get_by_client_def find_update_where)
  have "files d' = files d" by (subst d') simp
  moreover have "d'\<lparr>upload_jobs := upload_jobs d'\<rparr> = d'" by simp
  ultimately have "idempotent_response j' sha source d' = (Inr reply, d')"
    using r(2) sha assms(3) by (auto simp: idempotent_response_def Let_def r(1) split: option.splits)
  then show ?thesis using found r by blast
qed

text \<open>
  C5. Uploading can be repeated: a request with a client id that succeeded, sent again - because the
  answer was lost -, is answered with the same job and status, stores no bytes and adds no job,
  whatever happened to the first.
\<close>

theorem upload_repeatable:
  assumes "upload_file env rq d k = (Inr reply, d', k')" and "rq_client_id rq \<noteq> None"
  shows "\<exists>again. upload_file env' rq d' k' = (Inr again, d', k') \<and> replayed again \<and> ur_id again = ur_id reply \<and>
    ur_job_id again = ur_job_id reply \<and> ur_status again = ur_status reply \<and> ur_incoming again = ur_incoming reply"
proof -
  obtain service source client_id sha lg where v: "validate_upload env rq = Inr (service, source, client_id, sha, lg)"
    and r: "(\<exists>c existing. client_id = Some c \<and> uj_get_by_client service c (upload_jobs d) = Some existing \<and>
        idempotent_response existing sha source d = (Inr reply, d') \<and> k' = k) \<or>
      (Option.bind client_id (\<lambda>c. uj_get_by_client service c (upload_jobs d)) = None \<and>
        (\<exists>incoming k1. save_incoming env rq k = (Some incoming, k1) \<and>
          insert_upload env (uj_new (iv_row_id env) (iv_now env) (iv_job_id env) source incoming service client_id sha lg) sha d k1 = (Inr reply, d', k')))"
    using upload_file_result[OF assms(1)] by blast
  obtain c where c: "client_id = Some c"
    using v assms(2) by (auto simp: validate_upload_def normalize_client_file_id_def Let_def split: option.splits)
  obtain lg' where v': "validate_upload env' rq = Inr (service, source, client_id, sha, lg')"
    using v by (auto simp: validate_upload_def)
  have sha: "sha \<noteq> Some []" using validate_service[OF v] by simp
  have again: "upload_file env' rq d' k' = (Inr again, d', k')"
    if "uj_get_by_client service c (upload_jobs d') = Some j'" "idempotent_response j' sha source d' = (Inr again, d')" for j' again
    using that by (simp add: upload_file_def v' c)
  have replay: ?thesis if "uj_get_by_client service c (upload_jobs d0) = Some existing" "idempotent_response existing sha source d0 = (Inr reply, d')"
    for d0 existing
    using idempotent_again[OF that(2,1) sha] again idempotent_result[OF that(2)] by metis
  show ?thesis
  proof (cases "replayed reply")
    case False
    then obtain incoming k1 where
        i: "insert_upload env (uj_new (iv_row_id env) (iv_now env) (iv_job_id env) source incoming service client_id sha lg) sha d k1 = (Inr reply, d', k')"
      using r idempotent_result by metis
    let ?j = "uj_new (iv_row_id env) (iv_now env) (iv_job_id env) source incoming service client_id sha lg"
    have j: "uj_client_id ?j = Some c" "uj_service ?j = service" "uj_source ?j = source" "uj_client_sha ?j = sha" by (simp_all add: uj_new_def c)
    have rows: "upload_jobs d' = upload_jobs d @ rival_rows env @ [?j]" "uj_insert_ok ?j (upload_jobs d @ rival_rows env)"
      using insert_upload_result[OF i] False idempotent_result by metis+
    have reply: "\<exists>details. reply = reply_of details ?j"
      using i rows(2) by (auto simp: insert_upload_def Let_def uj_create_waiting_def rival_rows_def split: option.splits)
    have "uj_get_by_client service c (upload_jobs d @ rival_rows env) = None" using rows(2) by (auto simp: uj_insert_ok_def j)
    moreover have "upload_jobs d' = (upload_jobs d @ rival_rows env) @ [?j]" by (simp add: rows(1))
    ultimately have "uj_get_by_client service c (upload_jobs d') = Some ?j"
      unfolding uj_get_by_client_def by (simp only: find_append[of _ "upload_jobs d @ rival_rows env"]) (simp add: j)
    moreover have "idempotent_response ?j sha source d' = (Inr (reply_of (Some (details_of (files d') True ?j)) ?j), d')"
      using sha by (auto simp: idempotent_response_def Let_def j split: option.splits)
    ultimately show ?thesis using again[of ?j] reply by (auto simp: reply_of_def replayed_def details_of_def)
  next
    case True
    then show ?thesis
    proof (cases "Option.bind client_id (\<lambda>c. uj_get_by_client service c (upload_jobs d))")
      case (Some existing)
      then show ?thesis using r replay c by auto
    next
      case None
      then obtain incoming k1 where
          i: "insert_upload env (uj_new (iv_row_id env) (iv_now env) (iv_job_id env) source incoming service client_id sha lg) sha d k1 = (Inr reply, d', k')"
        using r c by auto
      let ?j = "uj_new (iv_row_id env) (iv_now env) (iv_job_id env) source incoming service client_id sha lg"
      have j: "uj_client_id ?j = Some c" "uj_service ?j = service" "uj_source ?j = source" by (simp_all add: uj_new_def c)
      obtain existing where "uj_get_by_client service c (upload_jobs d @ rival_rows env) = Some existing"
          "idempotent_response existing sha source (d\<lparr>upload_jobs := upload_jobs d @ rival_rows env\<rparr>) = (Inr reply, d')"
        using insert_upload_result[OF i] True unfolding j by auto
      then show ?thesis by (intro replay) auto
    qed
  qed
qed

section \<open>From the request to the stored file\<close>


section \<open>A request on concrete data\<close>

definition sample_intake :: "probe_outcome \<Rightarrow> intake_env" where
  "sample_intake probe = \<lparr>iv_storage = demo_env, iv_now = seconds 10, iv_job_id = ''job'', iv_row_id = 1, iv_decode = id, iv_json = (\<lambda>_. ''{}''),
     iv_write = Written, iv_probe = (\<lambda>_ _ _ _. probe), iv_rival = None\<rparr>"

definition sample_request :: "string option \<Rightarrow> upload_request" where
  "sample_request client_id = \<lparr>rq_filename = ''u.jpg'', rq_bytes = ''bytes'', rq_service = ''AstroJournal'', rq_source = None, rq_client_id = client_id,
     rq_client_sha = None, rq_observed = None, rq_target_id = None, rq_target_name = None\<rparr>"

definition empty_disk :: disk where
  "empty_disk = \<lparr>dk_files = Map.empty, dk_dirs = [], dk_stuck = []\<rparr>"

lemma sample_layout: "store_layout demo_env [''/'', ''pp'']"
proof -
  have "n \<noteq> ''..''" if "plain_dir_name n" for n using that by (simp add: plain_dir_name_def)
  then show ?thesis by (auto simp: store_layout_def demo_env_def lexical_def)
qed

lemma sample_name: "sanitize_filename ''u.jpg'' = ''u.jpg''"
  by code_simp

lemma sample_env:
  "iv_storage (sample_intake q) = demo_env" "iv_job_id (sample_intake q) = ''job''" "iv_write (sample_intake q) = Written"
  "list_all safe_char (iv_job_id (sample_intake q))" "rival_rows (sample_intake q) = []"
  "place_free (incoming_place (sample_intake q) (sample_request c) [''/'', ''pp'']) empty_disk"
  by (simp_all add: sample_intake_def rival_rows_def place_free_def empty_disk_def safe_char_def is_lower_ascii_def)

lemma sample_saved: "save_incoming (sample_intake q) (sample_request c) empty_disk = (Some ''incoming/job_u.jpg'', landing_disk)"
proof -
  have f: "incoming_file (sample_intake q) (sample_request c) = [''/'', ''pp'', ''incoming'', ''job_u.jpg'']"
    unfolding incoming_file_name[OF sample_env(4)] incoming_name_def
    by (simp add: sample_intake_def sample_request_def sample_name demo_env_def)
  show ?thesis
    unfolding save_incoming_def f sample_env Let_def
    by (simp add: on_volume_def demo_env_def lexical_def make_dirs_def empty_disk_def write_file_def to_relative_path_def resolve_def as_posix_def
        below_def landing_disk_def sample_request_def slash_def numeral_eq_Suc)
qed

definition sample_db :: "upload_job list \<Rightarrow> db" where
  "sample_db js = empty_db\<lparr>files := [demo_file], upload_jobs := js\<rparr>"

lemma sample_valid:
  "validate_upload (sample_intake q) (sample_request None) = Inr (''AstroJournal'', ''UPLOAD'', None, None, None)"
  "validate_upload (sample_intake q) (sample_request (Some ''c'')) = Inr (''AstroJournal'', ''UPLOAD'', Some ''c'', None, None)"
proof -
  have "strip ''AstroJournal'' = ''AstroJournal''" "strip ''c'' = ''c''" unfolding strip_def by (rule strip_while_id; simp add: is_space_def)+
  then show "validate_upload (sample_intake q) (sample_request None) = Inr (''AstroJournal'', ''UPLOAD'', None, None, None)"
      "validate_upload (sample_intake q) (sample_request (Some ''c'')) = Inr (''AstroJournal'', ''UPLOAD'', Some ''c'', None, None)"
    by (simp_all add: validate_upload_def sample_request_def validate_service_name_def validate_upload_source_def normalize_client_file_id_def
      normalize_client_sha_def normalize_optional_metadata_def encode_upload_metadata_def raise_if_def)
qed

lemma sample_accepted:
  assumes "c = None \<or> c = Some ''c''"
  defines "j \<equiv> uj_new 1 (seconds 10) ''job'' ''UPLOAD'' ''incoming/job_u.jpg'' ''AstroJournal'' c None None"
  shows "upload_file (sample_intake Probed) (sample_request c) (sample_db []) empty_disk =
    (Inr (reply_of (Some (details_of [demo_file] False j)) j), sample_db [j], landing_disk)"
proof -
  have v: "validate_upload (sample_intake Probed) (sample_request c) = Inr (''AstroJournal'', ''UPLOAD'', c, None, None)"
    using assms(1) sample_valid by auto
  have none: "Option.bind c (\<lambda>c. uj_get_by_client ''AstroJournal'' c (upload_jobs (sample_db []))) = None"
    by (cases c) (simp_all add: uj_get_by_client_def sample_db_def)
  have "upload_file (sample_intake Probed) (sample_request c) (sample_db []) empty_disk =
      insert_upload (sample_intake Probed) j None (sample_db []) landing_disk"
    by (simp add: upload_file_def v none receive_upload_def sample_saved sample_env landing_paths uj_new_def j_def) (simp add: sample_intake_def)
  also have "\<dots> = (Inr (reply_of (Some (details_of [demo_file] False j)) j), sample_db [j], landing_disk)"
    by (simp add: insert_upload_def sample_intake_def uj_create_waiting_def uj_insert_ok_def uj_get_by_client_def sample_db_def j_def uj_new_def)
  finally show ?thesis .
qed

lemma sample_reply: "\<not> replayed (reply_of (Some (details_of fs False j)) j)" "ur_id (reply_of x j) = uj_id j"
  by (simp_all add: replayed_def reply_of_def details_of_def)

theorem upload_accepted_witness:
  "\<exists>j p. upload_jobs (sample_db [landing_job]) = [j] \<and> uj_status j = WAITING \<and> uj_service j = ''AstroJournal'' \<and>
    resolve_storage_path demo_env (uj_incoming j) = Inr p \<and> dk_files landing_disk p = Some ''bytes''"
proof -
  have service: "strip (rq_service (sample_request None)) = ''AstroJournal''" "rq_bytes (sample_request None) = ''bytes''"
    unfolding sample_request_def strip_def by (simp_all add: strip_while_id is_space_def)
  note run = sample_accepted[of None, folded landing_job_def, simplified]
  from upload_accepted[OF run sample_reply(1) _ sample_env(4), unfolded sample_env service, OF sample_layout]
  show ?thesis by (elim exE conjE, intro exI conjI) (assumption | simp add: sample_db_def)+
qed


theorem upload_repeatable_witness:
  "\<exists>reply again d'. upload_file (sample_intake Probed) (sample_request (Some ''c'')) (sample_db []) empty_disk = (Inr reply, d', landing_disk) \<and>
     upload_file (sample_intake ProbeRaises) (sample_request (Some ''c'')) d' landing_disk = (Inr again, d', landing_disk) \<and>
     replayed again \<and> ur_job_id again = ur_job_id reply"
proof -
  note run = sample_accepted[of "Some ''c''", simplified]
  have "rq_client_id (sample_request (Some ''c'')) \<noteq> None" by (simp add: sample_request_def)
  from upload_repeatable[OF run this, of "sample_intake ProbeRaises"] show ?thesis using run by blast
qed


end
