(* ===== verification/Spec2Isabelle.thy ===== *)
theory Spec2Isabelle
  imports AutoTags TagLaws AstroReset UploadLaws ObservationLaws StorageAssets ChangeFeed PlateSolveQueue
    VisionLaws HttpRange MasterReads GalleryCounts PlaceLaws CaptureDateLaws TagCurationLaws MkRemovalLaws MetadataLaws IntakeLaws
begin

text \<open>
  The server side of TC-Backend, a photo platform of two services over one PostgreSQL database
  and one file store: MemoryKeeper, a photo library, and AstroJournal, a journal of astronomical
  observations. Clients upload photos; workers hash, store and analyse them; the services keep
  records, places, tags and equipment around them and publish their changes in a feed.

  \<^bold>\<open>How to read the model.\<close> A table is the list of its rows (\<open>Tables\<close>, \<open>MkTables\<close>, \<open>TagTables\<close>: one
  record per SQLAlchemy model, with the columns the modelled code uses); the record \<open>db\<close> holds the
  common and AstroJournal tables, \<open>mk_state\<close> adds those of MemoryKeeper and \<open>tag_state\<close> those of the
  tags. The queries are the list functions of \<open>Prelude\<close> (\<open>find_row\<close>, \<open>first_by\<close>, \<open>update_where\<close>,
  \<open>save_row\<close>). One operation of a repository or a service is one definition, named after the
  method; it takes the state, the clock and the new ids, and returns the result with the new
  state. An exception is a value: \<open>Inl\<close> of an error type or None. A raising request leaves the
  committed state, so that only its error is returned, except where the code commits in between;
  there the partial state is returned too. Sessions run with autoflush off and a default
  transaction level of READ COMMITTED: where that shows - a read that sees stale rows, an insert
  that meets the row of another session, rows that other sessions lock - the stale rows, the
  rivals and the locks are arguments. Instants are integers in microseconds, Python's unbounded
  integers are \<open>int\<close>, floats are reals, texts are lists of characters up to 255 (\<open>PyText\<close>, \<open>NumText\<close>)
  and tag names lists of code points (\<open>utext\<close>). A Python dict is the list of its items (\<open>PyDict\<close>).

  \<^bold>\<open>The parts and their theories.\<close> Paths are below src/.

  Change feed. \<open>ChangeFeed\<close> models \<open>change_event_repository.py\<close> and \<open>changes_service.py\<close>: the append-only
  table every service writes in its transactions and the pages clients follow.

  Files and the disk. \<open>StoragePaths\<close> and \<open>StorageAssets\<close> model \<open>storage_service.py\<close>: the resolution
  of stored paths against the roots, moving an upload into the store with renames and copies
  that fail or die half way, and deleting assets; the disk is a partial function from paths to
  bytes. \<open>StorageRules\<close> models the rules that choose a directory. \<open>FileLinks\<close> is
  \<open>file_service_repository.py\<close>, the relation of files to services; \<open>FileCleanup\<close> and \<open>AstroReset\<close> are
  \<open>file_cleanup_service.py\<close> and AstroJournal's \<open>reset_service.py\<close>, which delete rows and assets together.
  \<open>HttpRange\<close> is \<open>http_range.py\<close> with the route that streams originals.

  Job queues. \<open>UploadLog\<close>, \<open>UploadJobs\<close> (\<open>upload_job_repository.py\<close>, \<open>upload_job_service.py\<close>),
  \<open>PlateSolveJobs\<close> and \<open>PlateSolveQueue\<close> (\<open>plate_solve_job_repository.py\<close>, \<open>plate_solve_queue_service.py\<close>) and
  \<open>VisionQueue\<close> (\<open>vision_job_repository.py\<close>, \<open>priority_calculator.py\<close> and the step of \<open>vision_worker.py\<close>).
  \<open>QueueLaws\<close> states what the three tables share: the locale \<open>row_machine\<close> (rows move along a
  relation of statuses) and the locale \<open>claim_queue\<close> (a claim takes the first claimable row, and no other
  claim gets it); \<open>UploadLaws\<close>, \<open>PlateSolveJobs\<close> and \<open>VisionLaws\<close> interpret them.
  \<open>WorkerStatus\<close> is \<open>worker_status_repository.py\<close> with \<open>worker_monitor.py\<close>, \<open>ApiUsage\<close> the monthly budget of
  the paid APIs.

  The upload worker. \<open>PipelineBase\<close>, \<open>UploadPlugins\<close> and \<open>UploadPipeline\<close> model \<open>worker/background_worker.py\<close>
  and \<open>worker/plugins/\<close>: a step is a function of the worker's state - the session's view of the
  database, what is committed, the disk, the geocode cache and the context the plugins hand on -
  that returns, raises or dies; \<open>then_do\<close> and \<open>handle\<close> compose steps as statements and try-blocks do,
  \<open>commit\<close> and \<open>rollback\<close> copy between the two views. \<open>PipelineSteps\<close> has the rules for invariants of
  steps and the locale \<open>frame\<close>, which lists what the later plugins leave alone; \<open>PipelineLaws\<close> follows one job
  from its claim to its end. \<open>MetadataRepo\<close> is \<open>metadata_repository.py\<close>, whose writes compete by the priority
  of their source; \<open>MetadataLaws\<close> shows that the user wins.

  AstroJournal. \<open>ObservationRecords\<close> models the repository, service and schemas of observation records.
  \<open>Equipment\<close>, \<open>EquipmentStore\<close> and \<open>CaptureCapability\<close>, \<open>ObservationSites\<close> and \<open>FramingReferences\<close> are the
  master data. Their tables carry revisions and tombstones and announce every write: the locale
  \<open>revisioned_table\<close> of \<open>Revisioned\<close> states that contract, its abstraction is the ledger of revisions, and
  \<open>MasterFeed\<close> interprets it three times. \<open>MasterLaws\<close> shows that the services refine the ledger and that
  the feed replays to it, \<open>MasterReads\<close> what a stored aggregate reads back as.

  MemoryKeeper. \<open>CaptureDates\<close> is the projection of the capture date and its override;
  \<open>Places\<close>, \<open>PlaceService\<close> and \<open>MkFiles\<close> are places, matching, batch assignment, categories and the metadata
  patch; \<open>PlaceInvariant\<close>, \<open>PlaceRequests\<close> and \<open>MkSteps\<close> keep one invariant over every request.
  \<open>FastGallery\<close> and \<open>GalleryHierarchy\<close> are the cursor pages and the aggregates of the gallery.
  \<open>TagCuration\<close>, \<open>TagService\<close>, \<open>TagCatalog\<close>, \<open>TagRequests\<close> and \<open>AutoTags\<close> are the tags, automatic and manual.
  \<open>MkRemoval\<close> is the deletion of a photo and the reset of MemoryKeeper.

  \<^bold>\<open>What is shown.\<close> For each queue: rows stay well-formed under any interleaving of workers, claims are
  exclusive and ordered, leases and recovery behave, and where they do not. For storage: nothing outside the
  roots is deleted, a move loses no bytes while the process lives. For the pipeline: every claimed job
  ends, and completed means that the content is there, live and linked. For the services: unique
  indexes and references hold along any sequence of requests, updates compare and set
  revisions, every change is announced once, replaying the feed gives the current state, decisions of
  users survive automatic ones, pages cover exactly the matching rows, counts agree with pages,
  removals are complete and touch nothing else. Theorems stated as errors show defects of the code.
  The theories named \<open>...Laws\<close>, \<open>...Reads\<close> and \<open>...Counts\<close> hold the properties of the operations they import;
  a smaller component has its laws in its own theory.

  \<^bold>\<open>Bounds.\<close> No definition uses fuel: loops over pages (\<open>drain_feed\<close>, the pages of the gallery, the chunks of a
  stream) are recursions whose termination is proved from the strictly growing cursor, the
  retries of the code are bounded and written out, and the endless loops of the workers are left to
  sequences of rounds over which the invariants are proved by induction.

  \<^bold>\<open>Parameters.\<close> SHA-256, the media probe, derivative images, the EXIF reader, the
  geocoder, path resolution of the operating system, digests of tag names, the float printer, new
  ids and clocks are arguments. No theorem assumes more of them than it states.

  \<^bold>\<open>What is not modelled.\<close> The routers (they validate with the modelled schemas and call the modelled
  services, apart from those named above), configuration, the creation of the application, Alembic
  migrations and the schema synchronisation; the maintenance scripts; the clients of external APIs
  and the key store; media probing, decoding and image resizing; the folder watcher, an upload client; the
  older gallery of \<open>common/services/gallery_service.py\<close>, fast travel, cleanup groups, place candidates
  and the reading side of places and monitoring, which only query; the analysis plugin of the
  vision worker, whose outcome is a parameter. Not represented either: NaN and infinity, the
  collation of the database, NFKC and casefold beyond ASCII, the text of cursors (a cursor is the
  value it carries), JSON texts, and the timings the code logs.
\<close>

end
